(* ===== verification/Init_Prelude.thy ===== *)
theory Init_Prelude
  imports Main "HOL-Library.Word" "HOL-Library.Sublist"
begin

text \<open>
  Shared vocabulary of the development: the result type of fallible operations
  (\<^verbatim>\<open>result.h\<close>: \<^verbatim>\<open>Result<T>\<close> with \<^verbatim>\<open>Error()\<close> and
  \<^verbatim>\<open>ErrnoError()\<close>), the C character classes and \<^verbatim>\<open>std::to_string\<close>, and the
  interface of \<^verbatim>\<open>android-base\<close>, a library the repository calls and does not
  contain. Its functions are the fields of the record \<open>libbase\<close>, an argument of every
  definition that calls them; what the code relies on is the locale \<open>libbase_api\<close>,
  interpreted below on an executable reference instance.
\<close>

section \<open>Results\<close>

text \<open>
  An \<^verbatim>\<open>ErrnoError\<close> carries the message without the text of \<^verbatim>\<open>errno\<close> the
  library appends to it.
\<close>

datatype init_error = Error string | ErrnoError string

type_synonym 'a result = "init_error + 'a"

abbreviation Ok :: "'a \<Rightarrow> 'a result" where "Ok x \<equiv> Inr x"
abbreviation Err :: "init_error \<Rightarrow> 'a result" where "Err e \<equiv> Inl e"

fun message :: "init_error \<Rightarrow> string" where
  "message (Error m) = m"
| "message (ErrnoError m) = m"

definition ok :: "'a result \<Rightarrow> bool" where
  "ok r = (case r of Inl _ \<Rightarrow> False | Inr _ \<Rightarrow> True)"

lemma ok_simps [simp]: "ok (Inr x)" "\<not> ok (Inl e)"
  by (simp_all add: ok_def)

lemma okE: "ok r \<Longrightarrow> (\<And>x. r = Inr x \<Longrightarrow> P) \<Longrightarrow> P"
  by (cases r) auto

text \<open>Sequencing: the first error stops the computation, as an early \<^verbatim>\<open>return\<close> does.\<close>

definition rbind :: "'a result \<Rightarrow> ('a \<Rightarrow> 'b result) \<Rightarrow> 'b result" where
  "rbind r f = (case r of Inl e \<Rightarrow> Inl e | Inr x \<Rightarrow> f x)"

lemma rbind_simps [simp]: "rbind (Inl e) f = Inl e" "rbind (Inr x) f = f x"
  by (simp_all add: rbind_def)

lemma rbind_Inr_iff: "rbind r f = Inr y \<longleftrightarrow> (\<exists>x. r = Inr x \<and> f x = Inr y)"
  by (cases r) auto

lemma rbind_Inl_iff: "rbind r f = Inl e \<longleftrightarrow> r = Inl e \<or> (\<exists>x. r = Inr x \<and> f x = Inl e)"
  by (cases r) auto

text \<open>A loop over a list that stops at the first error.\<close>

fun rfold :: "('a \<Rightarrow> 's \<Rightarrow> 's result) \<Rightarrow> 'a list \<Rightarrow> 's \<Rightarrow> 's result" where
  "rfold f [] s = Inr s"
| "rfold f (x # xs) s = rbind (f x s) (rfold f xs)"

lemma rfold_append: "rfold f (xs @ ys) s = rbind (rfold f xs s) (rfold f ys)"
  by (induction xs arbitrary: s) (auto simp: rbind_def split: sum.splits)

lemma rfold_invariant:
  assumes "rfold f xs s = Inr t" "P s"
    and "\<And>x s t. x \<in> set xs \<Longrightarrow> P s \<Longrightarrow> f x s = Inr t \<Longrightarrow> P t"
  shows "P t"
  using assms
proof (induction xs arbitrary: s)
  case Nil
  then show ?case by simp
next
  case (Cons x xs)
  from Cons.prems(1) obtain u where u: "f x s = Inr u" "rfold f xs u = Inr t"
    by (auto simp: rbind_Inr_iff)
  have "P u" using Cons.prems(2,3) u(1) by (meson list.set_intros(1))
  with u(2) show ?case using Cons.IH Cons.prems(3) by (meson list.set_intros(2))
qed

text \<open>When a step succeeds does not depend on the state: the loop succeeds iff every step does.\<close>

lemma ok_rbind: "ok (rbind r f) \<longleftrightarrow> (\<exists>x. r = Inr x \<and> ok (f x))"
  by (cases r) auto

lemma ex_Inr_ok: "(\<exists>x. r = Inr x) \<longleftrightarrow> ok r"
  by (cases r) auto

lemma ok_rfold:
  assumes "\<And>x s. x \<in> set xs \<Longrightarrow> ok (f x s) \<longleftrightarrow> P x"
  shows "ok (rfold f xs s) \<longleftrightarrow> list_all P xs"
  using assms
proof (induction xs arbitrary: s)
  case Nil
  then show ?case by simp
next
  case (Cons x xs)
  show ?case
  proof (cases "f x s")
    case (Inl e)
    then show ?thesis using Cons.prems [of x s] by simp
  next
    case (Inr u)
    then show ?thesis using Cons.prems [of x s] Cons.IH [of u] Cons.prems by simp
  qed
qed

text \<open>What a successful loop did to one view \<open>g\<close> of the state.\<close>

lemma rfold_view:
  assumes "rfold f xs s = Inr t"
    and "\<And>x s t. x \<in> set xs \<Longrightarrow> f x s = Inr t \<Longrightarrow> g t = g s @ h x"
  shows "g t = g s @ concat (map h xs)"
  using assms
proof (induction xs arbitrary: s)
  case Nil
  then show ?case by simp
next
  case (Cons x xs)
  from Cons.prems(1) obtain u where u: "f x s = Inr u" "rfold f xs u = Inr t"
    by (auto simp: rbind_Inr_iff)
  have "g u = g s @ h x" using Cons.prems(2) [of x s u] u(1) by simp
  moreover have "g t = g u @ concat (map h xs)" using Cons.IH [OF u(2)] Cons.prems(2) by simp
  ultimately show ?case by simp
qed

text \<open>The same for a view that is a map in which the oldest entry of a key wins.\<close>

lemma rfold_map_view:
  assumes "rfold f xs s = Inr t" "I s"
    and "\<And>x s t. x \<in> set xs \<Longrightarrow> I s \<Longrightarrow> f x s = Inr t \<Longrightarrow> I t \<and> g t = map_of (h x) ++ g s"
  shows "I t \<and> g t = map_of (concat (map h xs)) ++ g s"
  using assms
proof (induction xs arbitrary: s)
  case Nil
  then show ?case by simp
next
  case (Cons x xs)
  from Cons.prems(1) obtain u where u: "f x s = Inr u" "rfold f xs u = Inr t"
    by (auto simp: rbind_Inr_iff)
  have "I u \<and> g u = map_of (h x) ++ g s" using Cons.prems(3) [of x s u] Cons.prems(2) u(1) by simp
  moreover have "I t \<and> g t = map_of (concat (map h xs)) ++ g u"
    using calculation Cons.prems(3)
    by (intro Cons.IH [OF u(2)]) (blast, meson list.set_intros(2))
  ultimately show ?case by simp
qed

section \<open>Characters and numbers of the C and C++ libraries\<close>

abbreviation NUL :: char where "NUL \<equiv> CHR 0x00"
abbreviation LF :: char where "LF \<equiv> CHR 0x0A"
abbreviation CR :: char where "CR \<equiv> CHR 0x0D"
abbreviation TAB :: char where "TAB \<equiv> CHR 0x09"
abbreviation SPACE :: char where "SPACE \<equiv> CHR 0x20"
abbreviation DQUOTE :: char where "DQUOTE \<equiv> CHR 0x22"
abbreviation APOSTROPHE :: char where "APOSTROPHE \<equiv> CHR 0x27"
abbreviation BACKSLASH :: char where "BACKSLASH \<equiv> CHR 0x5C"

text \<open>A string between apostrophes, as the messages quote names.\<close>

definition quoted :: "string \<Rightarrow> string" where
  "quoted s = CHR 0x27 # s @ [CHR 0x27]"

definition code_of :: "char \<Rightarrow> nat" where
  "code_of c = of_char c"

definition c_isdigit :: "char \<Rightarrow> bool" where
  "c_isdigit c = (48 \<le> code_of c \<and> code_of c \<le> 57)"

definition c_isupper :: "char \<Rightarrow> bool" where
  "c_isupper c = (65 \<le> code_of c \<and> code_of c \<le> 90)"

definition c_islower :: "char \<Rightarrow> bool" where
  "c_islower c = (97 \<le> code_of c \<and> code_of c \<le> 122)"

definition c_isalpha :: "char \<Rightarrow> bool" where
  "c_isalpha c = (c_isupper c \<or> c_islower c)"

definition c_isalnum :: "char \<Rightarrow> bool" where
  "c_isalnum c = (c_isalpha c \<or> c_isdigit c)"

definition c_isspace :: "char \<Rightarrow> bool" where
  "c_isspace c = (c = SPACE \<or> (9 \<le> code_of c \<and> code_of c \<le> 13))"

definition c_tolower :: "char \<Rightarrow> char" where
  "c_tolower c = (if c_isupper c then char_of (code_of c + 32) else c)"

fun nat_digits :: "nat \<Rightarrow> string" where
  "nat_digits n = (if n < 10 then [char_of (48 + n)]
                   else nat_digits (n div 10) @ [char_of (48 + n mod 10)])"

declare nat_digits.simps [simp del]

definition to_string :: "int \<Rightarrow> string" where
  "to_string i = (if i < 0 then ''-'' @ nat_digits (nat (- i)) else nat_digits (nat i))"

lemma nat_digits_digits: "list_all c_isdigit (nat_digits n)"
proof (induction n rule: nat_digits.induct)
  case (1 n)
  have d: "c_isdigit (char_of (48 + m mod 10))" for m :: nat
    by (simp add: c_isdigit_def code_of_def)
  show ?case
  proof (cases "n < 10")
    case True
    then show ?thesis using d [of n] by (subst nat_digits.simps) simp
  next
    case False
    then show ?thesis using 1 d [of n] by (subst nat_digits.simps) simp
  qed
qed

lemma nat_digits_value: "foldl (\<lambda>v c. 10 * v + (code_of c - 48)) 0 (nat_digits n) = n"
proof (induction n rule: nat_digits.induct)
  case (1 n)
  have c: "n mod 10 < 10" by simp
  show ?case
  proof (cases "n < 10")
    case True
    then show ?thesis by (subst nat_digits.simps) (simp add: code_of_def del: nat_digits.simps)
  next
    case False
    then have "foldl (\<lambda>v c. 10 * v + (code_of c - 48)) 0 (nat_digits (n div 10)) = n div 10" using 1 by simp
    then show ?thesis using False c by (subst nat_digits.simps) (simp add: code_of_def del: nat_digits.simps)
  qed
qed

lemma nat_digits_inj: "nat_digits m = nat_digits n \<Longrightarrow> m = n"
  by (metis nat_digits_value)

text \<open>The string a C string function sees: everything before the first NUL.\<close>

definition c_str :: "string \<Rightarrow> string" where
  "c_str s = takeWhile (\<lambda>c. c \<noteq> NUL) s"

text \<open>\<^verbatim>\<open>std::string::find\<close> of one character; \<open>None\<close> is \<^verbatim>\<open>npos\<close>.\<close>

fun find_char :: "char \<Rightarrow> string \<Rightarrow> nat option" where
  "find_char c [] = None"
| "find_char c (x # xs) = (if x = c then Some 0 else map_option Suc (find_char c xs))"

lemma find_char_None: "find_char c s = None \<longleftrightarrow> c \<notin> set s"
  by (induction s) auto

lemma find_char_Some: "find_char c s = Some i \<Longrightarrow> i < length s \<and> s ! i = c \<and> c \<notin> set (take i s)"
  by (induction s arbitrary: i) (auto split: if_splits)

text \<open>\<^verbatim>\<open>std::string::find\<close> of a string.\<close>

fun find_str :: "string \<Rightarrow> string \<Rightarrow> nat option" where
  "find_str p [] = (if p = [] then Some 0 else None)"
| "find_str p (x # xs) = (if prefix p (x # xs) then Some 0 else map_option Suc (find_str p xs))"

lemma find_str_None_iff: "find_str p s = None \<longleftrightarrow> \<not> sublist p s"
  by (induction s) (auto simp: sublist_Cons_right)

section \<open>The android-base library\<close>

text \<open>
  \<open>ParseInt s lo hi\<close> and \<open>ParseUint s hi\<close> return the parsed number, or \<open>None\<close> where the
  library returns \<^verbatim>\<open>false\<close>; the bounds are the explicit ones of a call or the range of
  the destination type.
\<close>

record libbase =
  StartsWith :: "string \<Rightarrow> string \<Rightarrow> bool"
  EqualsIgnoreCase :: "string \<Rightarrow> string \<Rightarrow> bool"
  Split :: "string \<Rightarrow> string \<Rightarrow> string list"
  Join :: "string list \<Rightarrow> string \<Rightarrow> string"
  Trim :: "string \<Rightarrow> string"
  StringReplace :: "string \<Rightarrow> string \<Rightarrow> string \<Rightarrow> bool \<Rightarrow> string"
  ParseInt :: "string \<Rightarrow> int \<Rightarrow> int \<Rightarrow> int option"
  ParseUint :: "string \<Rightarrow> nat \<Rightarrow> nat option"
  ParseDouble :: "string \<Rightarrow> bool"

locale libbase_api =
  fixes lb :: libbase
  assumes StartsWith_prefix: "StartsWith lb s p \<longleftrightarrow> prefix p s"
    and EqualsIgnoreCase_refl: "EqualsIgnoreCase lb s s"
    and Split_last: "c \<notin> set s \<Longrightarrow> Split lb s [c] = [s]"
    and Split_step: "c \<notin> set a \<Longrightarrow> Split lb (a @ c # r) [c] = a # Split lb r [c]"
    and Join_Nil: "Join lb [] d = []"
    and Join_single: "Join lb [x] d = x"
    and Join_Cons: "Join lb (x # y # ys) d = x @ d @ Join lb (y # ys) d"
    and ParseInt_bounds: "ParseInt lb s lo hi = Some n \<Longrightarrow> lo \<le> n \<and> n \<le> hi"
    and ParseUint_bound: "ParseUint lb s umax = Some m \<Longrightarrow> m \<le> umax"
begin

lemmas base_simps = StartsWith_prefix EqualsIgnoreCase_refl Join_Nil Join_single Join_Cons

lemma Split_Nil: "Split lb [] [c] = [[]]"
  by (rule Split_last) simp

lemma Split_nonempty: "Split lb s [c] \<noteq> []"
proof (cases "c \<in> set s")
  case True
  then obtain a r where "s = a @ c # r" "c \<notin> set a" by (meson split_list_first)
  then show ?thesis by (simp add: Split_step)
next
  case False
  then show ?thesis by (simp add: Split_last)
qed

lemma Split_pieces: "x \<in> set (Split lb s [c]) \<Longrightarrow> c \<notin> set x"
proof (induction "length s" arbitrary: s rule: less_induct)
  case less
  show ?case
  proof (cases "c \<in> set s")
    case True
    then obtain a r where s: "s = a @ c # r" "c \<notin> set a" by (meson split_list_first)
    with less.prems have "x = a \<or> x \<in> set (Split lb r [c])" by (simp add: Split_step)
    then show ?thesis using s less.hyps [of r] by auto
  next
    case False
    then show ?thesis using less.prems by (simp add: Split_last)
  qed
qed

text \<open>Splitting at a character and joining with it is the identity.\<close>

lemma Join_Split: "Join lb (Split lb s [c]) [c] = s"
proof (induction "length s" arbitrary: s rule: less_induct)
  case less
  show ?case
  proof (cases "c \<in> set s")
    case True
    then obtain a r where s: "s = a @ c # r" "c \<notin> set a" by (meson split_list_first)
    then have IH: "Join lb (Split lb r [c]) [c] = r" using less.hyps [of r] by simp
    obtain y ys where "Split lb r [c] = y # ys"
      using Split_nonempty [of r c] by (cases "Split lb r [c]") auto
    then show ?thesis using s IH by (simp add: Split_step Join_Cons)
  next
    case False
    then show ?thesis by (simp add: Split_last Join_single)
  qed
qed

end

subsection \<open>A reference instance\<close>

fun ref_split :: "string \<Rightarrow> string \<Rightarrow> string list" where
  "ref_split [] d = [[]]"
| "ref_split (c # cs) d =
     (if c \<in> set d then [] # ref_split cs d
      else (case ref_split cs d of [] \<Rightarrow> [[c]] | x # xs \<Rightarrow> (c # x) # xs))"

fun ref_join :: "string list \<Rightarrow> string \<Rightarrow> string" where
  "ref_join [] d = []"
| "ref_join [x] d = x"
| "ref_join (x # y # ys) d = x @ d @ ref_join (y # ys) d"

definition ref_trim :: "string \<Rightarrow> string" where
  "ref_trim s = rev (dropWhile c_isspace (rev (dropWhile c_isspace s)))"

function ref_replace :: "string \<Rightarrow> string \<Rightarrow> string \<Rightarrow> bool \<Rightarrow> string" where
  "ref_replace s from to all =
     (if from = [] then s
      else (case s of
              [] \<Rightarrow> []
            | c # cs \<Rightarrow>
                if prefix from s
                then to @ (if all then ref_replace (drop (length from) s) from to all
                           else drop (length from) s)
                else c # ref_replace cs from to all))"
  by pat_completeness auto
termination
  by (relation "measure (\<lambda>(s, _). length s)") auto

definition hex_value :: "char \<Rightarrow> nat option" where
  "hex_value c =
     (if c_isdigit c then Some (code_of c - 48)
      else if 97 \<le> code_of c \<and> code_of c \<le> 102 then Some (code_of c - 87)
      else if 65 \<le> code_of c \<and> code_of c \<le> 70 then Some (code_of c - 55)
      else None)"

fun ref_digits :: "nat \<Rightarrow> nat \<Rightarrow> string \<Rightarrow> nat option" where
  "ref_digits b acc [] = Some acc"
| "ref_digits b acc (c # cs) =
     (case hex_value c of
        None \<Rightarrow> None
      | Some v \<Rightarrow> if v < b then ref_digits b (acc * b + v) cs else None)"

definition ref_unsigned :: "string \<Rightarrow> nat option" where
  "ref_unsigned s =
     (if prefix ''0x'' s \<or> prefix ''0X'' s
      then (if drop 2 s = [] then None else ref_digits 16 0 (drop 2 s))
      else (if s = [] then None else ref_digits 10 0 s))"

definition ref_parse_int :: "string \<Rightarrow> int \<Rightarrow> int \<Rightarrow> int option" where
  "ref_parse_int s lo hi =
     (let v = (if prefix ''-'' s then map_option (\<lambda>n. - int n) (ref_unsigned (drop 1 s))
               else map_option int (ref_unsigned s))
      in case v of None \<Rightarrow> None | Some n \<Rightarrow> if lo \<le> n \<and> n \<le> hi then Some n else None)"

definition ref_parse_uint :: "string \<Rightarrow> nat \<Rightarrow> nat option" where
  "ref_parse_uint s hi =
     (case ref_unsigned s of None \<Rightarrow> None | Some n \<Rightarrow> if n \<le> hi then Some n else None)"

definition ref_libbase :: libbase where
  "ref_libbase =
     \<lparr>StartsWith = (\<lambda>s p. prefix p s),
      EqualsIgnoreCase = (\<lambda>a b. map c_tolower a = map c_tolower b),
      Split = ref_split, Join = ref_join, Trim = ref_trim, StringReplace = ref_replace,
      ParseInt = ref_parse_int, ParseUint = ref_parse_uint,
      ParseDouble = (\<lambda>s. s \<noteq> [] \<and> list_all c_isdigit s)\<rparr>"

lemma ref_split_nonempty: "ref_split s d \<noteq> []"
  by (induction s) (auto split: list.splits)

lemma ref_split_last: "c \<notin> set s \<Longrightarrow> ref_split s [c] = [s]"
  by (induction s) auto

lemma ref_split_step: "c \<notin> set a \<Longrightarrow> ref_split (a @ c # r) [c] = a # ref_split r [c]"
  by (induction a) auto

interpretation ref_base: libbase_api ref_libbase
proof (unfold_locales, goal_cases)
  case (8 s lo hi n)
  then show ?case
    by (auto simp: ref_libbase_def ref_parse_int_def Let_def split: option.splits if_splits)
next
  case (9 s umax m)
  then show ?case
    by (auto simp: ref_libbase_def ref_parse_uint_def split: option.splits if_splits)
qed (simp_all add: ref_libbase_def ref_split_last ref_split_step)

lemmas ref_libbase_api = ref_base.libbase_api_axioms

end
