(* ===== verification/Innit_Policy.thy ===== *)
theory Innit_Policy
  imports Init_Prelude
begin

text \<open>
  The Innit policy engine (\<^verbatim>\<open>init/innit/innit_policy.h\<close>,
  \<^verbatim>\<open>init/innit/innit_policy.cpp\<close>): the rule lists and their glob matcher, the strict
  loader of the policy document, the gate functions with the rejection logs they write, and
  the failure actions. The XML parser (tinyxml2) is not part of the repository: the document
  it returns is data of type \<open>XMLElement\<close> and the parser itself an argument.
\<close>

section \<open>Data\<close>

datatype PolicyDecision = Allow | Deny

datatype FailureAction = FA_Reboot | FA_Restart | FA_Log | FA_Ignore

datatype SelinuxMode = SM_Default | SM_Permissive

record PolicyRule =
  rule_decision :: PolicyDecision
  rule_pattern :: string

record ServiceFailureRule =
  name_pattern :: string
  faction :: FailureAction

record LoggingConfig =
  main_log :: string
  rejected_rc_log :: string
  rejected_service_log :: string
  rejected_exec_log :: string

definition default_logging :: LoggingConfig where
  "default_logging =
     \<lparr>main_log = ''/ds/log/innit.log'',
      rejected_rc_log = ''/ds/log/innit-rejected-rc.log'',
      rejected_service_log = ''/ds/log/innit-rejected-services.log'',
      rejected_exec_log = ''/ds/log/innit-rejected-exec.log''\<rparr>"

record InnitPolicy =
  pol_loaded :: bool
  pol_mode :: string
  selinux_mode :: SelinuxMode
  default_rc :: PolicyDecision
  default_service :: PolicyDecision
  default_exec :: PolicyDecision
  default_event :: PolicyDecision
  rc_rules :: "PolicyRule list"
  event_rules :: "PolicyRule list"
  service_rules :: "PolicyRule list"
  exec_rules :: "PolicyRule list"
  failure_rules :: "ServiceFailureRule list"
  denied_commands :: "string list"
  denied_command_args :: "(string \<times> string) list"
  pol_logging :: LoggingConfig

definition empty_policy :: InnitPolicy where
  "empty_policy =
     \<lparr>pol_loaded = False, pol_mode = [], selinux_mode = SM_Default,
      default_rc = Deny, default_service = Deny, default_exec = Deny, default_event = Deny,
      rc_rules = [], event_rules = [], service_rules = [], exec_rules = [],
      failure_rules = [], denied_commands = [], denied_command_args = [],
      pol_logging = default_logging\<rparr>"

text \<open>
  An element of the parsed document: its name, its attributes in document order and its
  child elements. \<open>xml_attribute\<close> is \<^verbatim>\<open>XMLElement::Attribute\<close>.
\<close>

datatype XMLElement =
  XMLElement (xml_name: string) (xml_attrs: "(string \<times> string) list")
    (xml_children: "XMLElement list")

definition xml_attribute :: "XMLElement \<Rightarrow> string \<Rightarrow> string option" where
  "xml_attribute e n = map_of (xml_attrs e) n"

section \<open>Glob matcher\<close>

text \<open>
  \<open>glob_match\<close> is the lambda of \<^verbatim>\<open>GlobMatch\<close> on the unread rests of pattern and subject;
  \<open>glob_star\<close> is its \<^verbatim>\<open>for\<close> loop over the end of the run a star stands for.
\<close>

function glob_match :: "string \<Rightarrow> string \<Rightarrow> bool"
  and glob_star :: "bool \<Rightarrow> string \<Rightarrow> string \<Rightarrow> bool" where
  "glob_match p s =
     (case p of
        [] \<Rightarrow> s = []
      | c # p1 \<Rightarrow>
          if c = CHR ''*'' then
            (case p1 of
               [] \<Rightarrow> glob_star False p1 s
             | d # p2 \<Rightarrow> if d = CHR ''*'' then glob_star True p2 s else glob_star False p1 s)
          else
            (case s of [] \<Rightarrow> False | d # s1 \<Rightarrow> c = d \<and> glob_match p1 s1))"
| "glob_star double_star p s =
     (glob_match p s \<or>
      (case s of
         [] \<Rightarrow> False
       | d # s1 \<Rightarrow> (double_star \<or> d \<noteq> CHR ''/'') \<and> glob_star double_star p s1))"
  by pat_completeness auto
termination
  by (relation "measures [\<lambda>x. case x of Inl (p, s) \<Rightarrow> length p | Inr (d, p, s) \<Rightarrow> length p,
                          \<lambda>x. case x of Inl (p, s) \<Rightarrow> length s | Inr (d, p, s) \<Rightarrow> length s,
                          \<lambda>x. case x of Inl _ \<Rightarrow> 0 | Inr _ \<Rightarrow> 1]")
     auto

declare glob_match.simps [simp del] glob_star.simps [simp del]

definition GlobMatch :: "string \<Rightarrow> string \<Rightarrow> bool" where
  "GlobMatch pattern subject = glob_match pattern subject"

section \<open>Mutators\<close>

definition AddRcRule :: "PolicyDecision \<Rightarrow> string \<Rightarrow> InnitPolicy \<Rightarrow> InnitPolicy" where
  "AddRcRule d p pol = pol\<lparr>rc_rules := rc_rules pol @ [\<lparr>rule_decision = d, rule_pattern = p\<rparr>]\<rparr>"

definition AddEventRule :: "PolicyDecision \<Rightarrow> string \<Rightarrow> InnitPolicy \<Rightarrow> InnitPolicy" where
  "AddEventRule d p pol = pol\<lparr>event_rules := event_rules pol @ [\<lparr>rule_decision = d, rule_pattern = p\<rparr>]\<rparr>"

definition AddServiceRule :: "PolicyDecision \<Rightarrow> string \<Rightarrow> InnitPolicy \<Rightarrow> InnitPolicy" where
  "AddServiceRule d p pol =
     pol\<lparr>service_rules := service_rules pol @ [\<lparr>rule_decision = d, rule_pattern = p\<rparr>]\<rparr>"

definition AddExecRule :: "PolicyDecision \<Rightarrow> string \<Rightarrow> InnitPolicy \<Rightarrow> InnitPolicy" where
  "AddExecRule d p pol = pol\<lparr>exec_rules := exec_rules pol @ [\<lparr>rule_decision = d, rule_pattern = p\<rparr>]\<rparr>"

definition insert_failure_rule ::
  "ServiceFailureRule \<Rightarrow> ServiceFailureRule list \<Rightarrow> ServiceFailureRule list" where
  "insert_failure_rule rule rules =
     (if name_pattern rule = ''*'' then rules @ [rule]
      else takeWhile (\<lambda>r. name_pattern r \<noteq> ''*'') rules @ [rule] @
           dropWhile (\<lambda>r. name_pattern r \<noteq> ''*'') rules)"

definition AddFailureRule :: "string \<Rightarrow> FailureAction \<Rightarrow> InnitPolicy \<Rightarrow> InnitPolicy" where
  "AddFailureRule name action pol =
     pol\<lparr>failure_rules :=
           insert_failure_rule \<lparr>name_pattern = name, faction = action\<rparr> (failure_rules pol)\<rparr>"

definition AddDeniedCommand :: "string \<Rightarrow> InnitPolicy \<Rightarrow> InnitPolicy" where
  "AddDeniedCommand verb pol = pol\<lparr>denied_commands := denied_commands pol @ [verb]\<rparr>"

definition AddDeniedCommandArg :: "string \<Rightarrow> string \<Rightarrow> InnitPolicy \<Rightarrow> InnitPolicy" where
  "AddDeniedCommandArg verb arg pol =
     pol\<lparr>denied_command_args := denied_command_args pol @ [(verb, arg)]\<rparr>"

section \<open>Logging\<close>

text \<open>
  What a gate writes: a line appended to a log file, or a line for the kernel log. Opening a
  file may fail; \<open>can_open\<close> says which files open, \<open>Timestamp\<close> is the formatted clock.
\<close>

datatype log_event = FileLine string string | KmsgLine string

record log_env =
  can_open :: "string \<Rightarrow> bool"
  Timestamp :: string

definition Kmsg :: "log_env \<Rightarrow> string \<Rightarrow> log_event list" where
  "Kmsg le msg =
     (if can_open le ''/dev/kmsg'' then [KmsgLine (''innit: '' @ msg @ [LF])] else [])"

definition AppendToLog :: "log_env \<Rightarrow> string \<Rightarrow> string \<Rightarrow> log_event list" where
  "AppendToLog le log_path msg =
     (if \<not> can_open le log_path then []
      else FileLine log_path (Timestamp le @ '' '' @ msg @ [LF]) # Kmsg le msg)"

definition LogRejectedRc :: "log_env \<Rightarrow> InnitPolicy \<Rightarrow> string \<Rightarrow> string \<Rightarrow> log_event list" where
  "LogRejectedRc le pol path reason =
     (let msg = ''reject rc '' @ path @ '' reason='' @ reason
      in AppendToLog le (rejected_rc_log (pol_logging pol)) msg @
         AppendToLog le (main_log (pol_logging pol)) msg)"

definition LogRejectedService ::
  "log_env \<Rightarrow> InnitPolicy \<Rightarrow> string \<Rightarrow> string \<Rightarrow> log_event list" where
  "LogRejectedService le pol name reason =
     (let msg = ''reject service '' @ name @ '' reason='' @ reason
      in AppendToLog le (rejected_service_log (pol_logging pol)) msg @
         AppendToLog le (main_log (pol_logging pol)) msg)"

definition LogRejectedExec :: "log_env \<Rightarrow> InnitPolicy \<Rightarrow> string \<Rightarrow> string \<Rightarrow> log_event list" where
  "LogRejectedExec le pol path reason =
     (let msg = ''reject exec '' @ path @ '' reason='' @ reason
      in AppendToLog le (rejected_exec_log (pol_logging pol)) msg @
         AppendToLog le (main_log (pol_logging pol)) msg)"

definition LogInfo :: "log_env \<Rightarrow> InnitPolicy \<Rightarrow> string \<Rightarrow> log_event list" where
  "LogInfo le pol msg = AppendToLog le (main_log (pol_logging pol)) msg"

section \<open>Rule evaluation\<close>

fun EvaluateRules ::
  "log_env \<Rightarrow> InnitPolicy \<Rightarrow> PolicyRule list \<Rightarrow> PolicyDecision \<Rightarrow> string \<Rightarrow> string \<Rightarrow>
   bool \<times> log_event list" where
  "EvaluateRules le pol [] default_decision subject reject_log_path =
     (if default_decision = Deny then
        (let msg = ''reject '' @ subject @ '' reason=default-deny''
         in (False, AppendToLog le reject_log_path msg @
                    AppendToLog le (main_log (pol_logging pol)) msg))
      else (True, []))"
| "EvaluateRules le pol (rule # rules) default_decision subject reject_log_path =
     (if GlobMatch (rule_pattern rule) subject then
        (if rule_decision rule = Deny then
           (let msg = ''reject '' @ subject @ '' reason=explicit-deny pattern='' @ rule_pattern rule
            in (False, AppendToLog le reject_log_path msg @
                       AppendToLog le (main_log (pol_logging pol)) msg))
         else (True, []))
      else EvaluateRules le pol rules default_decision subject reject_log_path)"

definition IsRcAllowed :: "log_env \<Rightarrow> InnitPolicy \<Rightarrow> string \<Rightarrow> bool \<times> log_event list" where
  "IsRcAllowed le pol path =
     EvaluateRules le pol (rc_rules pol) (default_rc pol) path (rejected_rc_log (pol_logging pol))"

definition IsServiceAllowed :: "log_env \<Rightarrow> InnitPolicy \<Rightarrow> string \<Rightarrow> bool \<times> log_event list" where
  "IsServiceAllowed le pol name =
     EvaluateRules le pol (service_rules pol) (default_service pol) name
       (rejected_service_log (pol_logging pol))"

definition IsExecAllowed :: "log_env \<Rightarrow> InnitPolicy \<Rightarrow> string \<Rightarrow> bool \<times> log_event list" where
  "IsExecAllowed le pol path =
     EvaluateRules le pol (exec_rules pol) (default_exec pol) path
       (rejected_exec_log (pol_logging pol))"

definition IsEventAllowed :: "log_env \<Rightarrow> InnitPolicy \<Rightarrow> string \<Rightarrow> bool \<times> log_event list" where
  "IsEventAllowed le pol name =
     EvaluateRules le pol (event_rules pol) (default_event pol) name (main_log (pol_logging pol))"

definition IsCommandAllowed ::
  "log_env \<Rightarrow> InnitPolicy \<Rightarrow> string \<Rightarrow> string list \<Rightarrow> bool \<times> log_event list" where
  "IsCommandAllowed le pol verb args =
     (if List.member (denied_commands pol) verb then
        (False, AppendToLog le (main_log (pol_logging pol))
                  (''reject command '' @ verb @ '' reason=command-denied''))
      else
        (case args of
           [] \<Rightarrow> (True, [])
         | a # _ \<Rightarrow>
             if List.member (denied_command_args pol) (verb, a) then
               (False, AppendToLog le (main_log (pol_logging pol))
                         (''reject command '' @ verb @ '' '' @ a @ '' reason=command-arg-denied''))
             else (True, [])))"

definition GetFailureAction :: "InnitPolicy \<Rightarrow> string \<Rightarrow> FailureAction" where
  "GetFailureAction pol service_name =
     (case find (\<lambda>r. name_pattern r = service_name) (failure_rules pol) of
        Some r \<Rightarrow> faction r
      | None \<Rightarrow>
          (case find (\<lambda>r. name_pattern r = ''*'') (failure_rules pol) of
             Some r \<Rightarrow> faction r
           | None \<Rightarrow> FA_Reboot))"

section \<open>The strict loader\<close>

definition Attr :: "XMLElement \<Rightarrow> string \<Rightarrow> string" where
  "Attr e name = (case xml_attribute e name of Some v \<Rightarrow> v | None \<Rightarrow> [])"

definition RequiredAttr :: "XMLElement \<Rightarrow> string \<Rightarrow> string result" where
  "RequiredAttr e name =
     (let v = Attr e name
      in if v = [] then
           Err (Error (''Missing required attribute '' @ quoted name @ '' on <'' @ xml_name e @ ''>''))
         else Ok v)"

definition ParseDecisionStrict :: "string \<Rightarrow> string \<Rightarrow> PolicyDecision result" where
  "ParseDecisionStrict s attr =
     (if s = ''allow'' then Ok Allow
      else if s = ''deny'' then Ok Deny
      else Err (Error (''Invalid '' @ attr @ ''='' @ quoted s @ '', expected allow or deny'')))"

definition ParseFailureActionStrict :: "string \<Rightarrow> FailureAction result" where
  "ParseFailureActionStrict s =
     (if s = ''reboot'' then Ok FA_Reboot
      else if s = ''restart'' then Ok FA_Restart
      else if s = ''log'' then Ok FA_Log
      else if s = ''ignore'' then Ok FA_Ignore
      else Err (Error (''Invalid rebootOnFailure='' @ quoted s @
                       '', expected reboot, restart, log, or ignore'')))"

text \<open>\<^verbatim>\<open>ParseOptionalDecision\<close> writes through its out parameter, here the value it is given.\<close>

definition ParseOptionalDecision ::
  "XMLElement \<Rightarrow> string \<Rightarrow> PolicyDecision \<Rightarrow> PolicyDecision result" where
  "ParseOptionalDecision root attr out =
     (let v = Attr root attr
      in if v = [] then Ok out else ParseDecisionStrict v attr)"

definition parse_rule ::
  "string \<Rightarrow> string \<Rightarrow> XMLElement \<Rightarrow> PolicyRule list \<Rightarrow> PolicyRule list result" where
  "parse_rule section_name attr_name e out =
     (let tag = xml_name e
      in if tag \<noteq> ''allow'' \<and> tag \<noteq> ''deny'' then
           Err (Error (''Unexpected <'' @ tag @ ''> inside <'' @ section_name @ ''>''))
         else
           rbind (RequiredAttr e attr_name)
             (\<lambda>v. Ok (out @ [\<lparr>rule_decision = (if tag = ''allow'' then Allow else Deny),
                               rule_pattern = v\<rparr>])))"

definition ParseRuleList ::
  "XMLElement \<Rightarrow> string \<Rightarrow> PolicyRule list \<Rightarrow> PolicyRule list result" where
  "ParseRuleList sect attr_name out =
     rfold (parse_rule (xml_name sect) attr_name) (xml_children sect) out"

definition parse_command_rule :: "XMLElement \<Rightarrow> InnitPolicy \<Rightarrow> InnitPolicy result" where
  "parse_command_rule e pol =
     (let tag = xml_name e
      in if tag \<noteq> ''deny'' then
           Err (Error (''Unexpected <'' @ tag @ ''> inside <command-policy>''))
         else
           rbind (RequiredAttr e ''verb'')
             (\<lambda>verb. let arg = Attr e ''arg''
                     in if arg = [] then Ok (AddDeniedCommand verb pol)
                        else Ok (AddDeniedCommandArg verb arg pol)))"

definition ParseCommandPolicy :: "XMLElement \<Rightarrow> InnitPolicy \<Rightarrow> InnitPolicy result" where
  "ParseCommandPolicy sect pol = rfold parse_command_rule (xml_children sect) pol"

definition parse_failure_rule :: "XMLElement \<Rightarrow> InnitPolicy \<Rightarrow> InnitPolicy result" where
  "parse_failure_rule e pol =
     (let tag = xml_name e
      in if tag \<noteq> ''service'' then
           Err (Error (''Unexpected <'' @ tag @ ''> inside <failure-policy>''))
         else
           rbind (RequiredAttr e ''name'') (\<lambda>name.
           rbind (RequiredAttr e ''rebootOnFailure'') (\<lambda>action_string.
           rbind (ParseFailureActionStrict action_string) (\<lambda>action.
             Ok (AddFailureRule name action pol)))))"

definition ParseFailurePolicy :: "XMLElement \<Rightarrow> InnitPolicy \<Rightarrow> InnitPolicy result" where
  "ParseFailurePolicy sect pol = rfold parse_failure_rule (xml_children sect) pol"

definition parse_logging_entry :: "XMLElement \<Rightarrow> LoggingConfig \<Rightarrow> LoggingConfig result" where
  "parse_logging_entry e lc =
     (let tag = xml_name e
      in rbind (RequiredAttr e ''value'') (\<lambda>v.
           if tag = ''path'' then Ok (lc\<lparr>main_log := v\<rparr>)
           else if tag = ''rejectedRcLog'' then Ok (lc\<lparr>rejected_rc_log := v\<rparr>)
           else if tag = ''rejectedServiceLog'' then Ok (lc\<lparr>rejected_service_log := v\<rparr>)
           else if tag = ''rejectedExecLog'' then Ok (lc\<lparr>rejected_exec_log := v\<rparr>)
           else Err (Error (''Unexpected <'' @ tag @ ''> inside <logging>''))))"

definition ParseLogging :: "XMLElement \<Rightarrow> LoggingConfig \<Rightarrow> LoggingConfig result" where
  "ParseLogging sect lc = rfold parse_logging_entry (xml_children sect) lc"

definition IsAllowedRootAttr :: "string \<Rightarrow> bool" where
  "IsAllowedRootAttr name =
     (name = ''version'' \<or> name = ''mode'' \<or> name = ''defaultRc'' \<or>
      name = ''defaultService'' \<or> name = ''defaultExec'' \<or> name = ''defaultEvent'' \<or>
      name = ''rebootOnFailure'' \<or> name = ''selinuxMode'' \<or> name = ''unknownImport'')"

definition ValidateRootAttributes :: "XMLElement \<Rightarrow> unit result" where
  "ValidateRootAttributes root =
     rfold (\<lambda>attr u. if \<not> IsAllowedRootAttr (fst attr)
                     then Err (Error (''Unexpected root attribute '' @ quoted (fst attr)))
                     else Ok u)
       (xml_attrs root) ()"

definition parse_selinux_mode :: "XMLElement \<Rightarrow> InnitPolicy \<Rightarrow> InnitPolicy result" where
  "parse_selinux_mode root pol =
     (let se_mode = Attr root ''selinuxMode''
      in if se_mode = [] then Ok pol
         else if se_mode = ''permissive'' then Ok (pol\<lparr>selinux_mode := SM_Permissive\<rparr>)
         else if se_mode = ''default'' then Ok (pol\<lparr>selinux_mode := SM_Default\<rparr>)
         else Err (Error (''Invalid selinuxMode='' @ quoted se_mode @
                          '', expected default or permissive'')))"

definition parse_root_failure :: "XMLElement \<Rightarrow> InnitPolicy \<Rightarrow> InnitPolicy result" where
  "parse_root_failure root pol =
     (let rof = Attr root ''rebootOnFailure''
      in if rof = [] then Ok pol
         else rbind (ParseFailureActionStrict rof) (\<lambda>action. Ok (AddFailureRule ''*'' action pol)))"

definition parse_section :: "XMLElement \<Rightarrow> InnitPolicy \<Rightarrow> InnitPolicy result" where
  "parse_section sect pol =
     (let tag = xml_name sect
      in if tag = ''identity'' then Ok pol
         else if tag = ''rc-policy'' then
           rbind (ParseRuleList sect ''path'' (rc_rules pol)) (\<lambda>rs. Ok (pol\<lparr>rc_rules := rs\<rparr>))
         else if tag = ''event-policy'' then
           rbind (ParseRuleList sect ''name'' (event_rules pol)) (\<lambda>rs. Ok (pol\<lparr>event_rules := rs\<rparr>))
         else if tag = ''service-policy'' then
           rbind (ParseRuleList sect ''name'' (service_rules pol))
             (\<lambda>rs. Ok (pol\<lparr>service_rules := rs\<rparr>))
         else if tag = ''exec-policy'' then
           rbind (ParseRuleList sect ''path'' (exec_rules pol)) (\<lambda>rs. Ok (pol\<lparr>exec_rules := rs\<rparr>))
         else if tag = ''command-policy'' then ParseCommandPolicy sect pol
         else if tag = ''failure-policy'' then ParseFailurePolicy sect pol
         else if tag = ''logging'' then
           rbind (ParseLogging sect (pol_logging pol)) (\<lambda>lc. Ok (pol\<lparr>pol_logging := lc\<rparr>))
         else Err (Error (''Unexpected top-level policy section <'' @ tag @ ''>'')))"

text \<open>
  \<open>load_document\<close> is \<^verbatim>\<open>XMLDocument::LoadFile\<close> with \<^verbatim>\<open>RootElement\<close>: the error
  text with its line number, or the root element if there is one.
\<close>

type_synonym xml_loader = "string \<Rightarrow> string + XMLElement option"

definition parse_root :: "XMLElement \<Rightarrow> InnitPolicy result" where
  "parse_root root =
     rbind (ValidateRootAttributes root) (\<lambda>_.
     let pol = empty_policy\<lparr>pol_mode := Attr root ''mode''\<rparr> in
     rbind (ParseOptionalDecision root ''defaultRc'' (default_rc pol)) (\<lambda>d_rc.
     rbind (ParseOptionalDecision root ''defaultService'' (default_service pol)) (\<lambda>d_service.
     rbind (ParseOptionalDecision root ''defaultExec'' (default_exec pol)) (\<lambda>d_exec.
     rbind (ParseOptionalDecision root ''defaultEvent'' (default_event pol)) (\<lambda>d_event.
     let pol = pol\<lparr>default_rc := d_rc, default_service := d_service,
                   default_exec := d_exec, default_event := d_event\<rparr> in
     rbind (parse_root_failure root pol) (\<lambda>pol.
     rbind (parse_selinux_mode root pol) (\<lambda>pol.
     rbind (rfold parse_section (xml_children root) pol) (\<lambda>pol.
       Ok (pol\<lparr>pol_loaded := True\<rparr>)))))))))"

definition LoadFromFile :: "xml_loader \<Rightarrow> string \<Rightarrow> InnitPolicy result" where
  "LoadFromFile load_document path =
     (case load_document path of
        Inl err \<Rightarrow> Err (Error (''Cannot parse Innit policy '' @ path @ '': '' @ err))
      | Inr None \<Rightarrow> Err (Error ''Innit policy root must be <innit>'')
      | Inr (Some root) \<Rightarrow>
          if xml_name root \<noteq> ''innit'' then Err (Error ''Innit policy root must be <innit>'')
          else parse_root root)"

section \<open>The global policy\<close>

text \<open>\<^verbatim>\<open>g_policy\<close> is an optional policy; a failed load leaves it as it was.\<close>

definition InitialiseInnitPolicy ::
  "log_env \<Rightarrow> xml_loader \<Rightarrow> string \<Rightarrow> InnitPolicy option \<Rightarrow> InnitPolicy option \<times> log_event list" where
  "InitialiseInnitPolicy le load_document policy_path g_policy =
     (case LoadFromFile load_document policy_path of
        Inl _ \<Rightarrow> (g_policy, [])
      | Inr pol \<Rightarrow> (Some pol, LogInfo le pol (''policy loaded mode='' @ pol_mode pol)))"

definition InnitPolicyIsActive :: "InnitPolicy option \<Rightarrow> bool" where
  "InnitPolicyIsActive g_policy = (case g_policy of None \<Rightarrow> False | Some pol \<Rightarrow> pol_loaded pol)"

text \<open>\<^verbatim>\<open>GetInnitPolicy\<close> aborts (\<^verbatim>\<open>CHECK\<close>) when no policy is set: \<open>None\<close>.\<close>

definition GetInnitPolicy :: "InnitPolicy option \<Rightarrow> InnitPolicy option" where
  "GetInnitPolicy g_policy = g_policy"

text \<open>
  The guard the callers write: with no active policy everything is allowed, otherwise the
  gate decides.
\<close>

definition innit_gate ::
  "(log_env \<Rightarrow> InnitPolicy \<Rightarrow> string \<Rightarrow> bool \<times> log_event list) \<Rightarrow> log_env \<Rightarrow>
   InnitPolicy option \<Rightarrow> string \<Rightarrow> bool \<times> log_event list" where
  "innit_gate gate le g_policy subject =
     (if InnitPolicyIsActive g_policy then
        (case GetInnitPolicy g_policy of None \<Rightarrow> (True, []) | Some pol \<Rightarrow> gate le pol subject)
      else (True, []))"

section \<open>What a glob pattern means\<close>

text \<open>
  The documented meaning: a pattern is a sequence of literal characters, single stars and
  double stars; it matches the concatenations of runs, one run per token.
\<close>

datatype glob_token = Lit char | Star | DoubleStar

fun glob_tokens :: "string \<Rightarrow> glob_token list" where
  "glob_tokens [] = []"
| "glob_tokens [c] = [if c = CHR ''*'' then Star else Lit c]"
| "glob_tokens (c # d # p) =
     (if c = CHR ''*'' then
        (if d = CHR ''*'' then DoubleStar # glob_tokens p else Star # glob_tokens (d # p))
      else Lit c # glob_tokens (d # p))"

fun token_run :: "glob_token \<Rightarrow> string \<Rightarrow> bool" where
  "token_run (Lit c) u = (u = [c])"
| "token_run Star u = (CHR ''/'' \<notin> set u)"
| "token_run DoubleStar u = True"

definition glob_denotes :: "glob_token list \<Rightarrow> string \<Rightarrow> bool" where
  "glob_denotes ts s = (\<exists>us. list_all2 token_run ts us \<and> s = concat us)"

lemma glob_denotes_Nil [simp]: "glob_denotes [] s \<longleftrightarrow> s = []"
  by (auto simp: glob_denotes_def)

lemma glob_denotes_Cons:
  "glob_denotes (t # ts) s \<longleftrightarrow> (\<exists>u v. s = u @ v \<and> token_run t u \<and> glob_denotes ts v)"
proof
  assume "glob_denotes (t # ts) s"
  then obtain us where us: "list_all2 token_run (t # ts) us" "s = concat us"
    by (auto simp: glob_denotes_def)
  then obtain u us1 where "us = u # us1" "token_run t u" "list_all2 token_run ts us1"
    by (auto simp: list_all2_Cons1)
  with us(2) show "\<exists>u v. s = u @ v \<and> token_run t u \<and> glob_denotes ts v"
    by (auto simp: glob_denotes_def)
next
  assume "\<exists>u v. s = u @ v \<and> token_run t u \<and> glob_denotes ts v"
  then obtain u us where "s = u @ concat us" "token_run t u" "list_all2 token_run ts us"
    by (auto simp: glob_denotes_def)
  then show "glob_denotes (t # ts) s"
    unfolding glob_denotes_def by (intro exI [of _ "u # us"]) simp
qed

lemma glob_denotes_star:
  "glob_denotes (Star # ts) s \<longleftrightarrow>
     (\<exists>u v. s = u @ v \<and> (False \<or> CHR ''/'' \<notin> set u) \<and> glob_denotes ts v)"
  "glob_denotes (DoubleStar # ts) s \<longleftrightarrow>
     (\<exists>u v. s = u @ v \<and> (True \<or> CHR ''/'' \<notin> set u) \<and> glob_denotes ts v)"
  by (simp_all add: glob_denotes_Cons)

text \<open>The lambda, case by case.\<close>

lemma glob_match_cases:
  "glob_match [] s \<longleftrightarrow> s = []"
  "c \<noteq> CHR ''*'' \<Longrightarrow> glob_match (c # p) s \<longleftrightarrow> (\<exists>s1. s = c # s1 \<and> glob_match p s1)"
  "glob_match [CHR ''*''] s \<longleftrightarrow> glob_star False [] s"
  "glob_match (CHR ''*'' # CHR ''*'' # p) s \<longleftrightarrow> glob_star True p s"
  "d \<noteq> CHR ''*'' \<Longrightarrow> glob_match (CHR ''*'' # d # p) s \<longleftrightarrow> glob_star False (d # p) s"
  by (simp_all add: glob_match.simps [of "[]"] glob_match.simps [of "c # p"]
        glob_match.simps [of "[CHR ''*'']"] glob_match.simps [of "CHR ''*'' # CHR ''*'' # p"]
        glob_match.simps [of "CHR ''*'' # d # p"] eq_commute [of c] split: list.split)

lemma glob_denotes_Lit [simp]:
  "glob_denotes (Lit c # ts) s \<longleftrightarrow> (\<exists>s1. s = c # s1 \<and> glob_denotes ts s1)"
  by (auto simp: glob_denotes_Cons)

lemma star_run_unfold:
  "(\<exists>u v. s = u @ v \<and> (dbl \<or> CHR ''/'' \<notin> set u) \<and> P v) \<longleftrightarrow>
   P s \<or> (\<exists>d s1. s = d # s1 \<and> (dbl \<or> d \<noteq> CHR ''/'') \<and>
              (\<exists>u v. s1 = u @ v \<and> (dbl \<or> CHR ''/'' \<notin> set u) \<and> P v))"
  (is "?lhs \<longleftrightarrow> ?rhs")
proof
  assume ?lhs
  then obtain u v where uv: "s = u @ v" "dbl \<or> CHR ''/'' \<notin> set u" "P v" by blast
  then show ?rhs by (cases u) auto
next
  assume ?rhs
  then show ?lhs
  proof
    assume "P s"
    then show ?lhs by (intro exI [of _ "[]"] exI [of _ s]) simp
  next
    assume "\<exists>d s1. s = d # s1 \<and> (dbl \<or> d \<noteq> CHR ''/'') \<and>
              (\<exists>u v. s1 = u @ v \<and> (dbl \<or> CHR ''/'' \<notin> set u) \<and> P v)"
    then obtain d u v where "s = (d # u) @ v" "dbl \<or> CHR ''/'' \<notin> set (d # u)" "P v" by auto
    then show ?lhs by blast
  qed
qed

lemma glob_match_denotes:
  "glob_match p s \<longleftrightarrow> glob_denotes (glob_tokens p) s"
  "glob_star dbl p s \<longleftrightarrow>
     (\<exists>u v. s = u @ v \<and> (dbl \<or> CHR ''/'' \<notin> set u) \<and> glob_denotes (glob_tokens p) v)"
proof (induction p s and dbl p s rule: glob_match_glob_star.induct)
  case (1 p s)
  show ?case
  proof (cases p rule: glob_tokens.cases)
    case 1
    then show ?thesis by (simp add: glob_match_cases)
  next
    case (2 c)
    show ?thesis
    proof (cases "c = CHR ''*''")
      case True
      with 2 "1.IH"(1) show ?thesis by (simp add: glob_match_cases glob_denotes_star)
    next
      case False
      with 2 "1.IH"(4) show ?thesis by (auto simp: glob_match_cases)
    qed
  next
    case (3 c d q)
    consider "c \<noteq> CHR ''*''" | "c = CHR ''*''" "d = CHR ''*''" | "c = CHR ''*''" "d \<noteq> CHR ''*''"
      by blast
    then show ?thesis
    proof cases
      case 1
      with 3 "1.IH"(4) show ?thesis by (auto simp: glob_match_cases)
    next
      case 2
      with 3 "1.IH"(2) show ?thesis by (simp add: glob_match_cases glob_denotes_star)
    next
      case 3: 3
      with \<open>p = c # d # q\<close> "1.IH"(3) show ?thesis
        by (simp add: glob_match_cases glob_denotes_star)
    qed
  qed
next
  case (2 dbl p s)
  show ?case
    unfolding star_run_unfold [of s] glob_star.simps [of dbl p s]
    using "2.IH" by (cases s) auto
qed

lemma glob_star_covers: "GlobMatch ''**'' s"
  by (simp add: GlobMatch_def glob_match_denotes glob_denotes_Cons)

section \<open>First match wins\<close>

text \<open>The abstract policy question: the decision of the first rule that matches, or the default.\<close>

definition rules_decision :: "PolicyRule list \<Rightarrow> PolicyDecision \<Rightarrow> string \<Rightarrow> PolicyDecision" where
  "rules_decision rules default_decision subject =
     (case find (\<lambda>r. GlobMatch (rule_pattern r) subject) rules of
        Some r \<Rightarrow> rule_decision r
      | None \<Rightarrow> default_decision)"

lemma PolicyDecision_neq [simp]: "d \<noteq> Deny \<longleftrightarrow> d = Allow" "d \<noteq> Allow \<longleftrightarrow> d = Deny"
  by (cases d; simp)+

lemma rules_decision_simps [simp]:
  "rules_decision [] d subject = d"
  "rules_decision (r # rs) d subject =
     (if GlobMatch (rule_pattern r) subject then rule_decision r else rules_decision rs d subject)"
  by (simp_all add: rules_decision_def)

lemma EvaluateRules_decision:
  "fst (EvaluateRules le pol rules d subject rlog) \<longleftrightarrow> rules_decision rules d subject = Allow"
  by (induction rules) (simp_all add: Let_def)

text \<open>
  The contract of a gate: the decision is the first matching rule's, an allowed request
  writes nothing, a denied one appends the same line to the gate's log and to the main log.
\<close>

definition rejection :: "log_env \<Rightarrow> string \<Rightarrow> string \<Rightarrow> string \<Rightarrow> log_event list \<Rightarrow> bool" where
  "rejection le rlog mlog subject evs =
     (\<exists>why. let msg = ''reject '' @ subject @ '' reason='' @ why
            in evs = AppendToLog le rlog msg @ AppendToLog le mlog msg)"

lemma EvaluateRules_log:
  "if fst (EvaluateRules le pol rules d subject rlog)
   then snd (EvaluateRules le pol rules d subject rlog) = []
   else rejection le rlog (main_log (pol_logging pol)) subject
          (snd (EvaluateRules le pol rules d subject rlog))"
proof (induction rules)
  case Nil
  show ?case by (auto simp: rejection_def Let_def intro: exI [of _ "''default-deny''"])
next
  case (Cons r rules)
  then show ?case
    by (auto simp: rejection_def Let_def intro: exI [of _ "''explicit-deny pattern='' @ rule_pattern r"])
qed

locale policy_gate =
  fixes gate :: "log_env \<Rightarrow> InnitPolicy \<Rightarrow> string \<Rightarrow> bool \<times> log_event list"
    and rules :: "InnitPolicy \<Rightarrow> PolicyRule list"
    and default_decision :: "InnitPolicy \<Rightarrow> PolicyDecision"
    and reject_log :: "InnitPolicy \<Rightarrow> string"
  assumes gate_decision:
      "fst (gate le pol s) \<longleftrightarrow> rules_decision (rules pol) (default_decision pol) s = Allow"
    and gate_silent: "fst (gate le pol s) \<Longrightarrow> snd (gate le pol s) = []"
    and gate_logs: "\<not> fst (gate le pol s) \<Longrightarrow>
      rejection le (reject_log pol) (main_log (pol_logging pol)) s (snd (gate le pol s))"
begin

lemma gated_decision:
  "fst (innit_gate gate le g s) \<longleftrightarrow>
     (case g of None \<Rightarrow> True
      | Some pol \<Rightarrow> pol_loaded pol \<longrightarrow> rules_decision (rules pol) (default_decision pol) s = Allow)"
  by (cases g)
     (simp_all add: innit_gate_def InnitPolicyIsActive_def GetInnitPolicy_def gate_decision)

lemma gated_deny:
  assumes "g = Some pol" "pol_loaded pol" "default_decision pol = Deny"
    and "\<forall>r \<in> set (rules pol). rule_decision r = Allow \<longrightarrow> \<not> GlobMatch (rule_pattern r) s"
  shows "\<not> fst (innit_gate gate le g s)"
proof -
  have "rules_decision rs Deny s = Deny"
    if "\<forall>r \<in> set rs. rule_decision r = Allow \<longrightarrow> \<not> GlobMatch (rule_pattern r) s" for rs
    using that by (induction rs) auto
  then show ?thesis using assms by (simp add: gated_decision)
qed

lemma gated_denial_logged:
  assumes "g = Some pol" "\<not> fst (innit_gate gate le g s)"
    and "can_open le (reject_log pol)" "can_open le (main_log (pol_logging pol))"
  shows "\<exists>why. let line = Timestamp le @ '' reject '' @ s @ '' reason='' @ why @ [LF]
               in FileLine (reject_log pol) line \<in> set (snd (innit_gate gate le g s)) \<and>
                  FileLine (main_log (pol_logging pol)) line \<in> set (snd (innit_gate gate le g s))"
proof -
  have act: "innit_gate gate le g s = gate le pol s"
    using assms(1,2) by (simp add: innit_gate_def GetInnitPolicy_def split: if_splits)
  then have "rejection le (reject_log pol) (main_log (pol_logging pol)) s (snd (gate le pol s))"
    using assms(2) gate_logs by simp
  then obtain why where "snd (gate le pol s) =
      AppendToLog le (reject_log pol) (''reject '' @ s @ '' reason='' @ why) @
      AppendToLog le (main_log (pol_logging pol)) (''reject '' @ s @ '' reason='' @ why)"
    by (auto simp: rejection_def Let_def)
  then show ?thesis using assms(3,4) by (intro exI [of _ why]) (simp add: act AppendToLog_def Let_def)
qed

end

lemma EvaluateRules_silent:
  "fst (EvaluateRules le pol rules d s rlog) \<Longrightarrow> snd (EvaluateRules le pol rules d s rlog) = []"
  using EvaluateRules_log [of le pol rules d s rlog] by simp

lemma EvaluateRules_rejects:
  "\<not> fst (EvaluateRules le pol rules d s rlog) \<Longrightarrow>
   rejection le rlog (main_log (pol_logging pol)) s (snd (EvaluateRules le pol rules d s rlog))"
  using EvaluateRules_log [of le pol rules d s rlog] by simp

lemmas gate_facts = EvaluateRules_decision EvaluateRules_silent EvaluateRules_rejects

interpretation rc_gate: policy_gate IsRcAllowed rc_rules default_rc
  "\<lambda>pol. rejected_rc_log (pol_logging pol)"
  by unfold_locales (simp_all add: IsRcAllowed_def gate_facts)

interpretation service_gate: policy_gate IsServiceAllowed service_rules default_service
  "\<lambda>pol. rejected_service_log (pol_logging pol)"
  by unfold_locales (simp_all add: IsServiceAllowed_def gate_facts)

interpretation exec_gate: policy_gate IsExecAllowed exec_rules default_exec
  "\<lambda>pol. rejected_exec_log (pol_logging pol)"
  by unfold_locales (simp_all add: IsExecAllowed_def gate_facts)

interpretation event_gate: policy_gate IsEventAllowed event_rules default_event
  "\<lambda>pol. main_log (pol_logging pol)"
  by unfold_locales (simp_all add: IsEventAllowed_def gate_facts)

section \<open>Failure rules keep document order\<close>

text \<open>
  \<open>AddFailureRule\<close> keeps the wildcard rules behind the named ones. Under that invariant an
  insertion never changes what an earlier declaration of the same name decides.
\<close>

definition stars_last :: "ServiceFailureRule list \<Rightarrow> bool" where
  "stars_last rules =
     list_all (\<lambda>r. name_pattern r = ''*'') (dropWhile (\<lambda>r. name_pattern r \<noteq> ''*'') rules)"

definition failure_lookup :: "ServiceFailureRule list \<Rightarrow> string \<Rightarrow> FailureAction option" where
  "failure_lookup rules n = map_of (map (\<lambda>r. (name_pattern r, faction r)) rules) n"

lemma find_name_lookup:
  "map_option faction (find (\<lambda>r. name_pattern r = n) rules) = failure_lookup rules n"
  by (induction rules) (auto simp: failure_lookup_def)

lemma GetFailureAction_lookup:
  "GetFailureAction pol n =
     (case failure_lookup (failure_rules pol) n of
        Some a \<Rightarrow> a
      | None \<Rightarrow> (case failure_lookup (failure_rules pol) ''*'' of Some a \<Rightarrow> a | None \<Rightarrow> FA_Reboot))"
  unfolding GetFailureAction_def find_name_lookup [symmetric] by (simp split: option.splits)

lemma stars_last_Nil [simp]: "stars_last []"
  by (simp add: stars_last_def)

lemma stars_last_insert: "stars_last rules \<Longrightarrow> stars_last (insert_failure_rule r rules)"
proof (induction rules)
  case Nil
  then show ?case by (simp add: stars_last_def insert_failure_rule_def)
next
  case (Cons a rules)
  then show ?case
    by (cases "name_pattern a = ''*''")
       (auto simp: stars_last_def insert_failure_rule_def split: if_splits)
qed

lemma failure_lookup_stars:
  "list_all (\<lambda>r. name_pattern r = ''*'') rules \<Longrightarrow> n \<noteq> ''*'' \<Longrightarrow> failure_lookup rules n = None"
  by (induction rules) (auto simp: failure_lookup_def)

lemma lookup_insert_failure:
  "stars_last rules \<Longrightarrow>
   failure_lookup (insert_failure_rule r rules) n =
     (case failure_lookup rules n of
        Some a \<Rightarrow> Some a
      | None \<Rightarrow> if name_pattern r = n then Some (faction r) else None)"
proof (induction rules)
  case Nil
  then show ?case by (simp add: failure_lookup_def insert_failure_rule_def)
next
  case (Cons a rules)
  show ?case
  proof (cases "name_pattern a = ''*''")
    case True
    with Cons.prems have "list_all (\<lambda>r. name_pattern r = ''*'') (a # rules)"
      by (simp add: stars_last_def)
    then show ?thesis
      using True failure_lookup_stars [of "a # rules" n]
      by (auto simp: insert_failure_rule_def failure_lookup_def map_add_def split: option.splits)
  next
    case False
    with Cons.prems have "stars_last rules" by (simp add: stars_last_def)
    moreover have "insert_failure_rule r (a # rules) = a # insert_failure_rule r rules"
      using False by (simp add: insert_failure_rule_def)
    ultimately show ?thesis using Cons.IH by (simp add: failure_lookup_def)
  qed
qed

section \<open>What a policy document says\<close>

text \<open>The rules a document declares, read off its elements in document order.\<close>

definition element_rule :: "string \<Rightarrow> XMLElement \<Rightarrow> PolicyRule" where
  "element_rule attr e =
     \<lparr>rule_decision = (if xml_name e = ''allow'' then Allow else Deny), rule_pattern = Attr e attr\<rparr>"

definition section_rules :: "string \<Rightarrow> string \<Rightarrow> XMLElement \<Rightarrow> PolicyRule list" where
  "section_rules tag attr sect =
     (if xml_name sect = tag then map (element_rule attr) (xml_children sect) else [])"

definition document_rules :: "string \<Rightarrow> string \<Rightarrow> XMLElement \<Rightarrow> PolicyRule list" where
  "document_rules tag attr root = concat (map (section_rules tag attr) (xml_children root))"

definition failure_decl :: "string \<Rightarrow> string \<Rightarrow> (string \<times> FailureAction) list" where
  "failure_decl n act = (case ParseFailureActionStrict act of Inl _ \<Rightarrow> [] | Inr a \<Rightarrow> [(n, a)])"

definition section_failures :: "XMLElement \<Rightarrow> (string \<times> FailureAction) list" where
  "section_failures sect =
     (if xml_name sect = ''failure-policy''
      then concat (map (\<lambda>e. failure_decl (Attr e ''name'') (Attr e ''rebootOnFailure''))
                     (xml_children sect))
      else [])"

definition document_failures :: "XMLElement \<Rightarrow> (string \<times> FailureAction) list" where
  "document_failures root =
     failure_decl ''*'' (Attr root ''rebootOnFailure'') @
     concat (map section_failures (xml_children root))"

text \<open>When a document is well formed.\<close>

definition wf_rule :: "string \<Rightarrow> XMLElement \<Rightarrow> bool" where
  "wf_rule attr e = ((xml_name e = ''allow'' \<or> xml_name e = ''deny'') \<and> Attr e attr \<noteq> [])"

definition wf_action :: "string \<Rightarrow> bool" where
  "wf_action s = List.member [''reboot'', ''restart'', ''log'', ''ignore''] s"

definition wf_failure :: "XMLElement \<Rightarrow> bool" where
  "wf_failure e =
     (xml_name e = ''service'' \<and> Attr e ''name'' \<noteq> [] \<and> wf_action (Attr e ''rebootOnFailure''))"

definition wf_command :: "XMLElement \<Rightarrow> bool" where
  "wf_command e = (xml_name e = ''deny'' \<and> Attr e ''verb'' \<noteq> [])"

definition wf_logging :: "XMLElement \<Rightarrow> bool" where
  "wf_logging e =
     (Attr e ''value'' \<noteq> [] \<and>
      List.member [''path'', ''rejectedRcLog'', ''rejectedServiceLog'', ''rejectedExecLog'']
        (xml_name e))"

definition wf_section :: "XMLElement \<Rightarrow> bool" where
  "wf_section sect =
     (let tag = xml_name sect; es = xml_children sect in
      tag = ''identity'' \<or>
      tag = ''rc-policy'' \<and> list_all (wf_rule ''path'') es \<or>
      tag = ''event-policy'' \<and> list_all (wf_rule ''name'') es \<or>
      tag = ''service-policy'' \<and> list_all (wf_rule ''name'') es \<or>
      tag = ''exec-policy'' \<and> list_all (wf_rule ''path'') es \<or>
      tag = ''command-policy'' \<and> list_all wf_command es \<or>
      tag = ''failure-policy'' \<and> list_all wf_failure es \<or>
      tag = ''logging'' \<and> list_all wf_logging es)"

definition wf_root :: "XMLElement \<Rightarrow> bool" where
  "wf_root root =
     (xml_name root = ''innit'' \<and>
      list_all (\<lambda>a. IsAllowedRootAttr (fst a)) (xml_attrs root) \<and>
      list_all (\<lambda>a. List.member [[], ''allow'', ''deny''] (Attr root a))
        [''defaultRc'', ''defaultService'', ''defaultExec'', ''defaultEvent''] \<and>
      (Attr root ''rebootOnFailure'' = [] \<or> wf_action (Attr root ''rebootOnFailure'')) \<and>
      List.member [[], ''permissive'', ''default''] (Attr root ''selinuxMode'') \<and>
      list_all wf_section (xml_children root))"

lemma ok_RequiredAttr [simp]: "ok (RequiredAttr e a) \<longleftrightarrow> Attr e a \<noteq> []"
  by (simp add: RequiredAttr_def Let_def)

lemma RequiredAttr_Inr [simp]: "RequiredAttr e a = Inr v \<longleftrightarrow> v = Attr e a \<and> v \<noteq> []"
  by (auto simp: RequiredAttr_def Let_def)

lemma ok_ParseFailureActionStrict [simp]: "ok (ParseFailureActionStrict s) \<longleftrightarrow> wf_action s"
  by (simp add: ParseFailureActionStrict_def wf_action_def)

lemma ok_ParseOptionalDecision [simp]:
  "ok (ParseOptionalDecision root a out) \<longleftrightarrow> List.member [[], ''allow'', ''deny''] (Attr root a)"
  by (simp add: ParseOptionalDecision_def ParseDecisionStrict_def Let_def)

lemma ok_rbind_all:
  assumes "\<And>x. ok (f x) \<longleftrightarrow> Q"
  shows "ok (rbind r f) \<longleftrightarrow> ok r \<and> Q"
  using assms by (cases r) auto

lemma ok_parse_rule: "ok (parse_rule sn a e out) \<longleftrightarrow> wf_rule a e"
  by (simp add: parse_rule_def wf_rule_def Let_def ok_rbind_all [where Q = True])

lemma ok_parse_command_rule: "ok (parse_command_rule e pol) \<longleftrightarrow> wf_command e"
  by (simp add: parse_command_rule_def wf_command_def Let_def ok_rbind_all [where Q = True])

lemma ParseFailureActionStrict_Nil [simp]: "ParseFailureActionStrict [] \<noteq> Inr a"
  by (simp add: ParseFailureActionStrict_def)

lemma ok_parse_failure_rule: "ok (parse_failure_rule e pol) \<longleftrightarrow> wf_failure e"
  by (auto simp: parse_failure_rule_def wf_failure_def Let_def ok_rbind elim!: okE
           simp flip: ok_ParseFailureActionStrict)

lemma ok_parse_logging_entry: "ok (parse_logging_entry e lc) \<longleftrightarrow> wf_logging e"
  by (simp add: parse_logging_entry_def wf_logging_def Let_def ok_rbind)

lemmas ok_entries =
  ok_parse_rule ok_parse_command_rule ok_parse_failure_rule ok_parse_logging_entry

lemma ok_parse_section: "ok (parse_section sect pol) \<longleftrightarrow> wf_section sect"
proof -
  have r: "ok (ParseRuleList sect a out) \<longleftrightarrow> list_all (wf_rule a) (xml_children sect)" for a out
    unfolding ParseRuleList_def by (rule ok_rfold) (rule ok_parse_rule)
  have c: "ok (ParseCommandPolicy sect pol) \<longleftrightarrow> list_all wf_command (xml_children sect)"
    unfolding ParseCommandPolicy_def by (rule ok_rfold) (rule ok_parse_command_rule)
  have f: "ok (ParseFailurePolicy sect pol) \<longleftrightarrow> list_all wf_failure (xml_children sect)"
    unfolding ParseFailurePolicy_def by (rule ok_rfold) (rule ok_parse_failure_rule)
  have l: "ok (ParseLogging sect lc) \<longleftrightarrow> list_all wf_logging (xml_children sect)" for lc
    unfolding ParseLogging_def by (rule ok_rfold) (rule ok_parse_logging_entry)
  show ?thesis
    by (simp add: parse_section_def wf_section_def Let_def r c f l ok_rbind_all [where Q = True])
qed

lemma ok_ValidateRootAttributes:
  "ok (ValidateRootAttributes root) \<longleftrightarrow> list_all (\<lambda>a. IsAllowedRootAttr (fst a)) (xml_attrs root)"
  unfolding ValidateRootAttributes_def by (rule ok_rfold) simp

lemma ok_parse_root_failure:
  "ok (parse_root_failure root pol) \<longleftrightarrow>
     Attr root ''rebootOnFailure'' = [] \<or> wf_action (Attr root ''rebootOnFailure'')"
  by (simp add: parse_root_failure_def Let_def ok_rbind_all [where Q = True])

lemma ok_parse_selinux_mode:
  "ok (parse_selinux_mode root pol) \<longleftrightarrow>
     List.member [[], ''permissive'', ''default''] (Attr root ''selinuxMode'')"
  by (simp add: parse_selinux_mode_def Let_def)

lemma ok_parse_sections: "ok (rfold parse_section es pol) \<longleftrightarrow> list_all wf_section es"
  by (rule ok_rfold) (rule ok_parse_section)

lemma ok_unit: "r = Inr () \<longleftrightarrow> ok r"
  by (cases r) auto

lemma ok_parse_root: "xml_name root = ''innit'' \<Longrightarrow> ok (parse_root root) \<longleftrightarrow> wf_root root"
  unfolding parse_root_def wf_root_def Let_def
  by (simp add: ok_rbind ex_Inr_ok ok_unit ok_ValidateRootAttributes ok_parse_root_failure
        ok_parse_selinux_mode ok_parse_sections del: ParseFailureActionStrict_Nil)

subsection \<open>What a loaded policy holds\<close>

lemma parse_rule_view:
  "parse_rule sn a e out = Inr out' \<Longrightarrow> out' = out @ [element_rule a e]"
  by (auto simp: parse_rule_def element_rule_def Let_def rbind_Inr_iff split: if_splits)

lemma ParseRuleList_view:
  "ParseRuleList sect a out = Inr out' \<Longrightarrow> out' = out @ map (element_rule a) (xml_children sect)"
  unfolding ParseRuleList_def
  using rfold_view [where g = id and h = "\<lambda>e. [element_rule a e]"] parse_rule_view
  by (metis concat_map_singleton id_apply)

lemma parse_command_rule_frame:
  "parse_command_rule e pol = Inr pol' \<Longrightarrow>
   rc_rules pol' = rc_rules pol \<and> event_rules pol' = event_rules pol \<and>
   service_rules pol' = service_rules pol \<and> exec_rules pol' = exec_rules pol \<and>
   failure_rules pol' = failure_rules pol"
  by (auto simp: parse_command_rule_def AddDeniedCommand_def AddDeniedCommandArg_def Let_def
        rbind_Inr_iff split: if_splits)

lemma ParseCommandPolicy_frame:
  "ParseCommandPolicy sect pol = Inr pol' \<Longrightarrow>
   rc_rules pol' = rc_rules pol \<and> event_rules pol' = event_rules pol \<and>
   service_rules pol' = service_rules pol \<and> exec_rules pol' = exec_rules pol \<and>
   failure_rules pol' = failure_rules pol"
  unfolding ParseCommandPolicy_def
  by (erule rfold_invariant) (auto dest!: parse_command_rule_frame)

lemma parse_failure_rule_frame:
  "parse_failure_rule e pol = Inr pol' \<Longrightarrow>
   rc_rules pol' = rc_rules pol \<and> event_rules pol' = event_rules pol \<and>
   service_rules pol' = service_rules pol \<and> exec_rules pol' = exec_rules pol"
  by (auto simp: parse_failure_rule_def AddFailureRule_def Let_def rbind_Inr_iff split: if_splits)

lemma ParseFailurePolicy_frame:
  "ParseFailurePolicy sect pol = Inr pol' \<Longrightarrow>
   rc_rules pol' = rc_rules pol \<and> event_rules pol' = event_rules pol \<and>
   service_rules pol' = service_rules pol \<and> exec_rules pol' = exec_rules pol"
  unfolding ParseFailurePolicy_def
  by (erule rfold_invariant) (auto dest!: parse_failure_rule_frame)

lemma parse_section_rules:
  assumes "parse_section sect pol = Inr pol'"
  shows "rc_rules pol' = rc_rules pol @ section_rules ''rc-policy'' ''path'' sect"
    and "event_rules pol' = event_rules pol @ section_rules ''event-policy'' ''name'' sect"
    and "service_rules pol' = service_rules pol @ section_rules ''service-policy'' ''name'' sect"
    and "exec_rules pol' = exec_rules pol @ section_rules ''exec-policy'' ''path'' sect"
  using assms unfolding parse_section_def section_rules_def Let_def
  by (auto simp: rbind_Inr_iff split: if_splits
        dest!: ParseRuleList_view ParseCommandPolicy_frame ParseFailurePolicy_frame)

text \<open>The policy a document describes, as far as the gates read it.\<close>

definition describes_rules :: "XMLElement \<Rightarrow> InnitPolicy \<Rightarrow> bool" where
  "describes_rules root pol =
     (rc_rules pol = document_rules ''rc-policy'' ''path'' root \<and>
      event_rules pol = document_rules ''event-policy'' ''name'' root \<and>
      service_rules pol = document_rules ''service-policy'' ''name'' root \<and>
      exec_rules pol = document_rules ''exec-policy'' ''path'' root)"

lemma parse_sections_rules:
  assumes "rfold parse_section es pol = Inr pol'"
  shows "rc_rules pol' = rc_rules pol @ concat (map (section_rules ''rc-policy'' ''path'') es)"
    and "event_rules pol' = event_rules pol @ concat (map (section_rules ''event-policy'' ''name'') es)"
    and "service_rules pol' =
           service_rules pol @ concat (map (section_rules ''service-policy'' ''name'') es)"
    and "exec_rules pol' = exec_rules pol @ concat (map (section_rules ''exec-policy'' ''path'') es)"
  by (rule rfold_view [where g = rc_rules, OF assms] rfold_view [where g = event_rules, OF assms]
        rfold_view [where g = service_rules, OF assms] rfold_view [where g = exec_rules, OF assms],
      erule parse_section_rules)+

definition described_default :: "XMLElement \<Rightarrow> string \<Rightarrow> PolicyDecision" where
  "described_default root attr = (if Attr root attr = ''allow'' then Allow else Deny)"

lemma ParseOptionalDecision_Deny:
  "ParseOptionalDecision root a Deny = Inr d \<Longrightarrow> d = described_default root a"
  by (auto simp: ParseOptionalDecision_def ParseDecisionStrict_def described_default_def Let_def
      split: if_splits)

lemma parse_section_frame:
  assumes "parse_section sect pol = Inr pol'"
  shows "default_rc pol' = default_rc pol \<and> default_service pol' = default_service pol \<and>
         default_exec pol' = default_exec pol \<and> default_event pol' = default_event pol"
proof -
  have c: "default_rc q' = default_rc q \<and> default_service q' = default_service q \<and>
      default_exec q' = default_exec q \<and> default_event q' = default_event q"
    if "ParseCommandPolicy sect q = Inr q'" for q q'
    using that unfolding ParseCommandPolicy_def
    by (rule rfold_invariant)
       (auto simp: parse_command_rule_def AddDeniedCommand_def AddDeniedCommandArg_def Let_def
             rbind_Inr_iff split: if_splits)
  have f: "default_rc q' = default_rc q \<and> default_service q' = default_service q \<and>
      default_exec q' = default_exec q \<and> default_event q' = default_event q"
    if "ParseFailurePolicy sect q = Inr q'" for q q'
    using that unfolding ParseFailurePolicy_def
    by (rule rfold_invariant)
       (auto simp: parse_failure_rule_def AddFailureRule_def Let_def rbind_Inr_iff split: if_splits)
  show ?thesis
    using assms unfolding parse_section_def Let_def
    by (auto simp: rbind_Inr_iff split: if_splits dest!: c f)
qed

definition failure_map :: "InnitPolicy \<Rightarrow> string \<Rightarrow> FailureAction option" where
  "failure_map pol = failure_lookup (failure_rules pol)"

lemma failure_map_loaded [simp]: "failure_map (pol\<lparr>pol_loaded := b\<rparr>) = failure_map pol"
  by (simp add: failure_map_def)

lemma AddFailureRule_map:
  assumes "stars_last (failure_rules pol)"
  shows "stars_last (failure_rules (AddFailureRule n a pol)) \<and>
         failure_map (AddFailureRule n a pol) = map_of [(n, a)] ++ failure_map pol"
  using assms
  by (auto simp: AddFailureRule_def failure_map_def stars_last_insert lookup_insert_failure
      map_add_def fun_eq_iff split: option.split)

lemma ParseFailurePolicy_map:
  assumes "ParseFailurePolicy sect pol = Inr pol'" "stars_last (failure_rules pol)"
  shows "stars_last (failure_rules pol') \<and>
         failure_map pol' =
           map_of (concat (map (\<lambda>e. failure_decl (Attr e ''name'') (Attr e ''rebootOnFailure''))
                            (xml_children sect))) ++ failure_map pol"
  using assms(1) unfolding ParseFailurePolicy_def
proof (rule rfold_map_view [where I = "\<lambda>pol. stars_last (failure_rules pol)"])
  show "stars_last (failure_rules pol)" by (rule assms(2))
next
  fix e q q'
  assume "stars_last (failure_rules q)" "parse_failure_rule e q = Inr q'"
  then show "stars_last (failure_rules q') \<and>
      failure_map q' = map_of (failure_decl (Attr e ''name'') (Attr e ''rebootOnFailure'')) ++ failure_map q"
    by (auto simp: parse_failure_rule_def failure_decl_def Let_def rbind_Inr_iff split: if_splits
        dest: AddFailureRule_map)
qed

lemma parse_section_failures:
  assumes "parse_section sect pol = Inr pol'" "stars_last (failure_rules pol)"
  shows "stars_last (failure_rules pol') \<and>
         failure_map pol' = map_of (section_failures sect) ++ failure_map pol"
proof (cases "xml_name sect = ''failure-policy''")
  case True
  then show ?thesis
    using assms ParseFailurePolicy_map by (simp add: parse_section_def section_failures_def)
next
  case False
  then have "failure_rules pol' = failure_rules pol"
    using assms(1) unfolding parse_section_def Let_def
    by (auto simp: rbind_Inr_iff split: if_splits dest: ParseCommandPolicy_frame)
  then show ?thesis using False assms(2) by (simp add: section_failures_def failure_map_def)
qed

lemma parse_root_failure_map:
  assumes "parse_root_failure root pol = Inr pol'" "failure_rules pol = []"
  shows "stars_last (failure_rules pol') \<and>
         failure_map pol' = map_of (failure_decl ''*'' (Attr root ''rebootOnFailure''))"
  using assms AddFailureRule_map [of pol]
  by (auto simp: parse_root_failure_def failure_decl_def failure_map_def failure_lookup_def Let_def
      rbind_Inr_iff map_add_def split: if_splits sum.splits)

text \<open>Everything a successful load of a document establishes.\<close>

lemma parse_root_Inr:
  assumes "parse_root root = Inr pol"
  obtains pol1 pol2 pol3 where
    "pol1 = empty_policy\<lparr>pol_mode := Attr root ''mode'',
       default_rc := described_default root ''defaultRc'',
       default_service := described_default root ''defaultService'',
       default_exec := described_default root ''defaultExec'',
       default_event := described_default root ''defaultEvent''\<rparr>"
    "parse_root_failure root pol1 = Inr pol2" "parse_selinux_mode root pol2 = Inr pol3"
    "\<exists>pol4. rfold parse_section (xml_children root) pol3 = Inr pol4 \<and> pol = pol4\<lparr>pol_loaded := True\<rparr>"
  using assms unfolding parse_root_def Let_def
  by (auto simp: rbind_Inr_iff empty_policy_def dest!: ParseOptionalDecision_Deny)

lemma parse_selinux_mode_frame:
  "parse_selinux_mode root pol = Inr pol' \<Longrightarrow> \<exists>m. pol' = pol\<lparr>selinux_mode := m\<rparr>"
  by (auto simp: parse_selinux_mode_def Let_def split: if_splits) (metis InnitPolicy.surjective InnitPolicy.update_convs(3))

lemma parse_root_failure_frame:
  "parse_root_failure root pol = Inr pol' \<Longrightarrow> \<exists>fs. pol' = pol\<lparr>failure_rules := fs\<rparr>"
  by (auto simp: parse_root_failure_def AddFailureRule_def Let_def rbind_Inr_iff split: if_splits)
     (metis InnitPolicy.surjective InnitPolicy.update_convs(12))

lemma parse_sections_defaults:
  "rfold parse_section es pol = Inr pol' \<Longrightarrow>
   default_rc pol' = default_rc pol \<and> default_service pol' = default_service pol \<and>
   default_exec pol' = default_exec pol \<and> default_event pol' = default_event pol"
  by (erule rfold_invariant) (auto dest: parse_section_frame)

lemma parse_root_policy:
  assumes "parse_root root = Inr pol"
  shows "pol_loaded pol" "describes_rules root pol"
    "default_rc pol = described_default root ''defaultRc''"
    "default_service pol = described_default root ''defaultService''"
    "default_exec pol = described_default root ''defaultExec''"
    "default_event pol = described_default root ''defaultEvent''"
    "stars_last (failure_rules pol)" "failure_map pol = map_of (document_failures root)"
proof -
  obtain pol1 pol2 pol3 pol4 where p:
    "pol1 = empty_policy\<lparr>pol_mode := Attr root ''mode'',
       default_rc := described_default root ''defaultRc'',
       default_service := described_default root ''defaultService'',
       default_exec := described_default root ''defaultExec'',
       default_event := described_default root ''defaultEvent''\<rparr>"
    "parse_root_failure root pol1 = Inr pol2" "parse_selinux_mode root pol2 = Inr pol3"
    "rfold parse_section (xml_children root) pol3 = Inr pol4" "pol = pol4\<lparr>pol_loaded := True\<rparr>"
    using parse_root_Inr [OF assms] by metis
  obtain m fs where q: "pol3 = pol2\<lparr>selinux_mode := m\<rparr>" "pol2 = pol1\<lparr>failure_rules := fs\<rparr>"
    using parse_selinux_mode_frame [OF p(3)] parse_root_failure_frame [OF p(2)] by blast
  show "pol_loaded pol" by (simp add: p(5))
  show "describes_rules root pol"
    using parse_sections_rules [OF p(4)]
    by (simp add: describes_rules_def document_rules_def p(1,5) q empty_policy_def)
  show "default_rc pol = described_default root ''defaultRc''"
    "default_service pol = described_default root ''defaultService''"
    "default_exec pol = described_default root ''defaultExec''"
    "default_event pol = described_default root ''defaultEvent''"
    using parse_sections_defaults [OF p(4)] by (simp_all add: p(1,5) q)
  have "failure_rules pol1 = []" by (simp add: p(1) empty_policy_def)
  then have f2: "stars_last (failure_rules pol3)"
    "failure_map pol3 = map_of (failure_decl ''*'' (Attr root ''rebootOnFailure''))"
    using parse_root_failure_map [OF p(2)] by (simp_all add: q failure_map_def)
  have "stars_last (failure_rules pol4) \<and>
        failure_map pol4 = map_of (concat (map section_failures (xml_children root))) ++ failure_map pol3"
    using p(4) f2(1) by (rule rfold_map_view) (rule parse_section_failures)
  then show "stars_last (failure_rules pol)" "failure_map pol = map_of (document_failures root)"
    by (simp_all add: p(5) f2(2) document_failures_def)
qed

lemma LoadFromFile_Inr:
  "LoadFromFile ld path = Inr pol \<longleftrightarrow>
     (\<exists>root. ld path = Inr (Some root) \<and> xml_name root = ''innit'' \<and> parse_root root = Inr pol)"
  by (auto simp: LoadFromFile_def split: sum.split option.split)

section \<open>Properties\<close>

text \<open>The answer a gate owes, for the optional policy \<open>g\<close>.\<close>

definition gate_answer ::
  "InnitPolicy option \<Rightarrow> (InnitPolicy \<Rightarrow> PolicyRule list) \<Rightarrow> (InnitPolicy \<Rightarrow> PolicyDecision) \<Rightarrow>
   string \<Rightarrow> bool" where
  "gate_answer g rules dflt subject =
     (case g of
        None \<Rightarrow> True
      | Some p \<Rightarrow> if pol_loaded p then rules_decision (rules p) (dflt p) subject = Allow else True)"

text \<open>A small document the witnesses load.\<close>

definition sample_document :: XMLElement where
  "sample_document =
     XMLElement ''innit'' [(''version'', ''1''), (''defaultEvent'', ''allow''), (''rebootOnFailure'', ''log'')]
       [XMLElement ''rc-policy'' []
          [XMLElement ''deny'' [(''path'', ''/vendor/**'')] [],
           XMLElement ''allow'' [(''path'', ''/system/etc/*.rc'')] []],
        XMLElement ''failure-policy'' []
          [XMLElement ''service'' [(''name'', ''*''), (''rebootOnFailure'', ''ignore'')] [],
           XMLElement ''service'' [(''name'', ''adbd''), (''rebootOnFailure'', ''restart'')] []]]"

definition sample_loader :: xml_loader where
  "sample_loader path = Inr (Some sample_document)"

lemma sample_wf: "wf_root sample_document"
  by code_simp

text \<open>
  C30: the backtracking matcher decides the documented meaning of a pattern: the subject is a
  concatenation of runs, one per token, where a literal stands for itself, a single star for
  any run without a slash and a double star for any run.
\<close>

theorem GlobMatch_denotes: "GlobMatch pattern subject \<longleftrightarrow> glob_denotes (glob_tokens pattern) subject"
  by (simp add: GlobMatch_def glob_match_denotes)

text \<open>
  C24: the loader accepts a document exactly when it is well formed: the root is
  \<^verbatim>\<open><innit>\<close> with known attributes and values, every section is known, and every entry of
  every section has its required attributes and values. Nothing malformed is skipped.
\<close>

theorem LoadFromFile_strict:
  "ok (LoadFromFile load_document path) \<longleftrightarrow>
     (case load_document path of Inr (Some root) \<Rightarrow> wf_root root | _ \<Rightarrow> False)"
proof (cases "\<exists>root. load_document path = Inr (Some root) \<and> xml_name root = ''innit''")
  case True
  then show ?thesis by (auto simp: LoadFromFile_def ok_parse_root)
next
  case False
  then show ?thesis by (auto simp: LoadFromFile_def wf_root_def split: sum.split option.split)
qed

text \<open>
  A policy that loads is active and holds, for each gate, the rules of all sections of
  that gate in document order, with the default the root attribute names and denial where
  it is absent.
\<close>

theorem LoadFromFile_rules:
  assumes "LoadFromFile load_document path = Inr pol" "load_document path = Inr (Some root)"
  shows "InnitPolicyIsActive (Some pol) \<and> describes_rules root pol \<and>
         default_rc pol = described_default root ''defaultRc'' \<and>
         default_service pol = described_default root ''defaultService'' \<and>
         default_exec pol = described_default root ''defaultExec'' \<and>
         default_event pol = described_default root ''defaultEvent''"
proof -
  have "parse_root root = Inr pol" using assms by (simp add: LoadFromFile_Inr)
  then show ?thesis by (simp add: InnitPolicyIsActive_def parse_root_policy)
qed

text \<open>
  C27: the failure action of a service is the first one the document declares under its name,
  else the first one declared for \<^verbatim>\<open>*\<close> (the root attribute before any section), else a
  reboot: reordering the wildcard behind the named rules changes no decision.
\<close>

theorem failure_action_of_document:
  assumes "LoadFromFile load_document path = Inr pol" "load_document path = Inr (Some root)"
  shows "GetFailureAction pol service =
     (case map_of (document_failures root) service of
        Some a \<Rightarrow> a
      | None \<Rightarrow> (case map_of (document_failures root) ''*'' of Some a \<Rightarrow> a | None \<Rightarrow> FA_Reboot))"
proof -
  have "parse_root root = Inr pol" using assms by (simp add: LoadFromFile_Inr)
  then have "failure_lookup (failure_rules pol) = map_of (document_failures root)"
    using parse_root_policy(8) failure_map_def by simp
  then show ?thesis unfolding GetFailureAction_lookup by (simp only:)
qed

text \<open>
  What the gates answer. Without an active policy everything is allowed; with one, each
  gate answers the decision of the first rule of its own list that matches, or its own default.
\<close>

theorem gates_first_match:
  "fst (innit_gate IsRcAllowed le g s) = gate_answer g rc_rules default_rc s \<and>
   fst (innit_gate IsServiceAllowed le g s) = gate_answer g service_rules default_service s \<and>
   fst (innit_gate IsExecAllowed le g s) = gate_answer g exec_rules default_exec s \<and>
   fst (innit_gate IsEventAllowed le g s) = gate_answer g event_rules default_event s"
  unfolding gate_answer_def rc_gate.gated_decision service_gate.gated_decision
    exec_gate.gated_decision event_gate.gated_decision
  by (simp split: option.split)


subsection \<open>Witnesses\<close>

definition sample_policy :: InnitPolicy where
  "sample_policy = (case LoadFromFile sample_loader ''/innit.xml'' of Inr p \<Rightarrow> p | Inl _ \<Rightarrow> empty_policy)"

lemma sample_loads: "LoadFromFile sample_loader ''/innit.xml'' = Inr sample_policy"
proof -
  have "ok (LoadFromFile sample_loader ''/innit.xml'')"
    by (simp add: LoadFromFile_def sample_loader_def ok_parse_root sample_wf
          wf_root_def [symmetric]) (simp add: sample_document_def)
  then show ?thesis by (auto simp: sample_policy_def elim: okE)
qed

theorem LoadFromFile_rules_witness:
  "InnitPolicyIsActive (Some sample_policy) \<and> describes_rules sample_document sample_policy \<and>
   length (rc_rules sample_policy) = 2 \<and> default_event sample_policy = Allow"
proof -
  have r: "length (document_rules ''rc-policy'' ''path'' sample_document) = 2"
    and e: "described_default sample_document ''defaultEvent'' = Allow"
    by code_simp+
  note L = LoadFromFile_rules [OF sample_loads, of sample_document]
  show ?thesis
    using L r e by (simp add: sample_loader_def describes_rules_def)
qed

theorem failure_action_of_document_witness:
  "GetFailureAction sample_policy ''adbd'' = FA_Restart \<and>
   GetFailureAction sample_policy ''zygote'' = FA_Log"
proof -
  have d: "document_failures sample_document =
             [(''*'', FA_Log), (''*'', FA_Ignore), (''adbd'', FA_Restart)]"
    by code_simp
  show ?thesis
    using failure_action_of_document [OF sample_loads, of sample_document]
    by (simp add: sample_loader_def d)
qed


end
