(* ===== verification/Tokenizer.thy ===== *)
theory Tokenizer
  imports Init_Prelude
begin

text \<open>
  The tokenizer of init scripts (\<^verbatim>\<open>init/tokenizer.cpp\<close>, \<^verbatim>\<open>next_token\<close>). It works in
  place: it copies a token down inside the buffer it reads from and writes a NUL behind it.
  The model keeps the buffer, the read position \<open>x\<close> and the write position \<open>s\<close>; every
  access outside the buffer is \<open>None\<close>. A second definition, \<open>lex\<close>, says on plain lists what
  the tokens of a text are. The lemmas show that on a NUL-terminated buffer every call
  returns, never leaves the buffer, and yields the tokens of \<open>lex\<close>.
\<close>

section \<open>The in-place tokenizer\<close>

datatype token_kind = T_EOF | T_TEXT | T_NEWLINE

text \<open>
  The record has the buffer besides the fields of the struct; pointers are indices into it.
  \<open>nexttoken\<close> is true for the pending \<^verbatim>\<open>T_NEWLINE\<close>, the only token ever stored there.
\<close>

record parse_state =
  ps_buf :: string
  ps_ptr :: nat
  ps_text :: nat
  ps_line :: nat
  nexttoken :: bool

datatype start = StartEOF nat | StartNewline nat | StartText nat

text \<open>
  The first loop: \<open>comment\<close> is set inside the \<^verbatim>\<open>while\<close> loop that skips a comment.
\<close>

function scan_start :: "bool \<Rightarrow> string \<Rightarrow> nat \<Rightarrow> start option" where
  "scan_start comment buf x =
     (if length buf \<le> x then None
      else if comment then
        (if buf ! x \<noteq> NUL \<and> buf ! x \<noteq> LF then scan_start True buf (x + 1)
         else if buf ! x = LF then Some (StartNewline (x + 1))
         else Some (StartEOF x))
      else if buf ! x = NUL then Some (StartEOF x)
      else if buf ! x = LF then Some (StartNewline (x + 1))
      else if buf ! x = SPACE \<or> buf ! x = TAB \<or> buf ! x = CR then scan_start False buf (x + 1)
      else if buf ! x = CHR ''#'' then scan_start True buf x
      else Some (StartText x))"
  by pat_completeness auto
termination
  by (relation "measures [\<lambda>(c, b, x). length b - x, \<lambda>(c, b, x). if c then 0 else 1]") auto

text \<open>
  The second loop. The modes are the labels and loops of the code: \<open>Plain\<close> is
  \<^verbatim>\<open>textresume\<close>, \<open>InQuotes\<close> the loop inside a quoted part, \<open>EatBlanks\<close> the loop behind a
  line continuation. \<open>Done b x s line nl\<close> is \<^verbatim>\<open>textdone\<close>, \<open>Unterminated\<close> the return inside
  the quotes.
\<close>

datatype scan_mode = Plain | InQuotes | EatBlanks

datatype scan_end =
  Done string nat nat nat bool
| Unterminated string nat nat

datatype scan_next = Stop scan_end | Go scan_mode string nat nat nat

text \<open>\<^verbatim>\<open>*s++ = ch\<close>, then on at position \<open>y\<close>.\<close>

definition put :: "scan_mode \<Rightarrow> string \<Rightarrow> nat \<Rightarrow> nat \<Rightarrow> nat \<Rightarrow> char \<Rightarrow> scan_next option" where
  "put mode buf y s line ch =
     (if length buf \<le> s then None else Some (Go mode (buf[s := ch]) y (s + 1) line))"

text \<open>One pass of a loop body: where it returns and where the next pass starts.\<close>

definition scan_escape :: "string \<Rightarrow> nat \<Rightarrow> nat \<Rightarrow> nat \<Rightarrow> scan_next option" where
  "scan_escape buf x s line =
     (if length buf \<le> x then None
      else if buf ! x = NUL then Some (Stop (Done buf x s line False))
      else if buf ! x = CHR ''n'' then put Plain buf (x + 1) s line LF
      else if buf ! x = CHR ''r'' then put Plain buf (x + 1) s line CR
      else if buf ! x = CHR ''t'' then put Plain buf (x + 1) s line TAB
      else if buf ! x = BACKSLASH then put Plain buf (x + 1) s line BACKSLASH
      else if buf ! x = CR then
        (if length buf \<le> x + 1 then None
         else if buf ! (x + 1) \<noteq> LF then Some (Go Plain buf (x + 1) s line)
         else Some (Go EatBlanks buf (x + 2) s (line + 1)))
      else if buf ! x = LF then Some (Go EatBlanks buf (x + 1) s (line + 1))
      else put Plain buf (x + 1) s line (buf ! x))"

fun scan_step :: "scan_mode \<Rightarrow> string \<Rightarrow> nat \<Rightarrow> nat \<Rightarrow> nat \<Rightarrow> scan_next option" where
  "scan_step EatBlanks buf x s line =
     (if length buf \<le> x then None
      else if buf ! x = SPACE \<or> buf ! x = TAB then Some (Go EatBlanks buf (x + 1) s line)
      else Some (Go Plain buf x s line))"
| "scan_step InQuotes buf x s line =
     (if length buf \<le> x then None
      else if buf ! x = NUL then Some (Stop (Unterminated buf x line))
      else if buf ! x = DQUOTE then Some (Go Plain buf (x + 1) s line)
      else put InQuotes buf (x + 1) s line (buf ! x))"
| "scan_step Plain buf x s line =
     (if length buf \<le> x then None
      else if buf ! x = NUL then Some (Stop (Done buf x s line False))
      else if buf ! x = SPACE \<or> buf ! x = TAB \<or> buf ! x = CR then
        Some (Stop (Done buf (x + 1) s line False))
      else if buf ! x = LF then Some (Stop (Done buf (x + 1) s line True))
      else if buf ! x = DQUOTE then Some (Go InQuotes buf (x + 1) s line)
      else if buf ! x = BACKSLASH then scan_escape buf (x + 1) s line
      else put Plain buf (x + 1) s line (buf ! x))"

lemma put_SomeD:
  "put m buf y s line ch = Some r \<Longrightarrow> s < length buf \<and> r = Go m (buf[s := ch]) y (s + 1) line"
  by (auto simp: put_def split: if_splits)

lemma scan_escape_advances:
  "scan_escape buf x s line = Some (Go m b y t l) \<Longrightarrow> length b = length buf \<and> x < y \<and> x < length buf"
  by (auto simp: scan_escape_def put_def split: if_splits)

lemma scan_step_advances:
  "scan_step mode buf x s line = Some (Go m b y t l) \<Longrightarrow>
   length b = length buf \<and> x < length buf \<and> (x < y \<or> x = y \<and> mode = EatBlanks \<and> m = Plain)"
  by (cases mode) (auto simp: put_def split: if_splits dest: scan_escape_advances)

function scan_text :: "scan_mode \<Rightarrow> string \<Rightarrow> nat \<Rightarrow> nat \<Rightarrow> nat \<Rightarrow> scan_end option" where
  "scan_text mode buf x s line =
     (case scan_step mode buf x s line of
        None \<Rightarrow> None
      | Some (Stop e) \<Rightarrow> Some e
      | Some (Go m b y t l) \<Rightarrow> scan_text m b y t l)"
  by pat_completeness auto
termination
  by (relation "measures [\<lambda>(m, b, x, s, l). length b - x,
                          \<lambda>(m, b, x, s, l). if m = EatBlanks then 1 else 0]")
     (auto dest!: scan_step_advances)

declare scan_start.simps [simp del] scan_text.simps [simp del]

definition next_token :: "parse_state \<Rightarrow> (token_kind \<times> parse_state) option" where
  "next_token st =
     (if nexttoken st then Some (T_NEWLINE, st\<lparr>nexttoken := False\<rparr>)
      else
        (case scan_start False (ps_buf st) (ps_ptr st) of
           None \<Rightarrow> None
         | Some (StartEOF x) \<Rightarrow> Some (T_EOF, st\<lparr>ps_ptr := x\<rparr>)
         | Some (StartNewline x) \<Rightarrow> Some (T_NEWLINE, st\<lparr>ps_ptr := x\<rparr>)
         | Some (StartText x) \<Rightarrow>
             (case scan_text Plain (ps_buf st) x x (ps_line st) of
                None \<Rightarrow> None
              | Some (Unterminated b y l) \<Rightarrow>
                  Some (T_EOF, st\<lparr>ps_buf := b, ps_ptr := y, ps_text := x, ps_line := l\<rparr>)
              | Some (Done b y s l nl) \<Rightarrow>
                  if length b \<le> s then None
                  else Some (T_TEXT, st\<lparr>ps_buf := b[s := NUL], ps_ptr := y, ps_text := x,
                                        ps_line := l, nexttoken := nl\<rparr>))))"

text \<open>The C string \<^verbatim>\<open>state.text\<close> points to.\<close>

definition token_text :: "parse_state \<Rightarrow> string" where
  "token_text st = c_str (drop (ps_text st) (ps_buf st))"

section \<open>The tokens of a text\<close>

text \<open>
  The same language on the text still to be read, without a buffer: \<open>lex_word\<close> returns the
  word, the rest, the number of continued lines and whether a newline ended the word, or
  \<open>None\<close> for an unterminated quote.
\<close>

fun word_cons :: "char \<Rightarrow> (string \<times> string \<times> nat \<times> bool) option \<Rightarrow>
    (string \<times> string \<times> nat \<times> bool) option" where
  "word_cons c (Some (w, r, n, b)) = Some (c # w, r, n, b)"
| "word_cons c None = None"

fun count_line :: "(string \<times> string \<times> nat \<times> bool) option \<Rightarrow>
    (string \<times> string \<times> nat \<times> bool) option" where
  "count_line (Some (w, r, n, b)) = Some (w, r, Suc n, b)"
| "count_line None = None"

definition escape_char :: "char \<Rightarrow> char" where
  "escape_char d =
     (if d = CHR ''n'' then LF else if d = CHR ''r'' then CR else if d = CHR ''t'' then TAB else d)"

function (sequential) lex_word :: "scan_mode \<Rightarrow> string \<Rightarrow> (string \<times> string \<times> nat \<times> bool) option" where
  "lex_word InQuotes [] = None"
| "lex_word _ [] = Some ([], [], 0, False)"
| "lex_word EatBlanks (c # cs) =
     (if c = SPACE \<or> c = TAB then lex_word EatBlanks cs else lex_word Plain (c # cs))"
| "lex_word InQuotes (c # cs) =
     (if c = DQUOTE then lex_word Plain cs else word_cons c (lex_word InQuotes cs))"
| "lex_word Plain (c # cs) =
     (if c = SPACE \<or> c = TAB \<or> c = CR then Some ([], cs, 0, False)
      else if c = LF then Some ([], cs, 0, True)
      else if c = DQUOTE then lex_word InQuotes cs
      else if c = BACKSLASH then
        (case cs of
           [] \<Rightarrow> Some ([], [], 0, False)
         | d # ds \<Rightarrow>
             if d = CR then
               (case ds of
                  e # es \<Rightarrow> if e = LF then count_line (lex_word EatBlanks es) else lex_word Plain ds
                | [] \<Rightarrow> lex_word Plain ds)
             else if d = LF then count_line (lex_word EatBlanks ds)
             else word_cons (escape_char d) (lex_word Plain ds))
      else word_cons c (lex_word Plain cs))"
  by pat_completeness auto
termination
  by (relation "measures [\<lambda>(m, cs). length cs, \<lambda>(m, cs). if m = EatBlanks then 1 else 0]") auto

text \<open>Skipping to the start of a token: a newline with its rest, a text, or the end.\<close>

fun lex_start :: "bool \<Rightarrow> string \<Rightarrow> (string + string) option" where
  "lex_start _ [] = None"
| "lex_start comment (c # cs) =
     (if c = LF then Some (Inl cs)
      else if comment \<or> c = CHR ''#'' then lex_start True cs
      else if c = SPACE \<or> c = TAB \<or> c = CR then lex_start False cs
      else Some (Inr (c # cs)))"

section \<open>The tokenizer yields the tokens\<close>

lemma c_str_simps [simp]:
  "c_str [] = []" "c_str (c # cs) = (if c = NUL then [] else c # c_str cs)"
  by (simp_all add: c_str_def)

lemma drop_step: "x < length buf \<Longrightarrow> drop x buf = buf ! x # drop (Suc x) buf"
  by (simp add: Cons_nth_drop_Suc)

lemma NUL_ahead_less: "NUL \<in> set (drop x buf) \<Longrightarrow> x < length buf"
  by (cases "x < length buf") auto

lemma NUL_ahead_step: "NUL \<in> set (drop x buf) \<Longrightarrow> buf ! x \<noteq> NUL \<Longrightarrow> NUL \<in> set (drop (Suc x) buf)"
  using drop_step [of x buf] NUL_ahead_less [of x buf] by auto

lemmas ahead = NUL_ahead_less NUL_ahead_step

definition started :: "string \<Rightarrow> nat \<Rightarrow> (string + string) option \<Rightarrow> start option \<Rightarrow> bool" where
  "started buf x spec res =
     (case spec of
        None \<Rightarrow> \<exists>y. res = Some (StartEOF y)
      | Some (Inl r) \<Rightarrow> \<exists>y. res = Some (StartNewline y) \<and> x < y \<and> NUL \<in> set (drop y buf) \<and>
                           c_str (drop y buf) = r
      | Some (Inr t) \<Rightarrow> \<exists>y. res = Some (StartText y) \<and> x \<le> y \<and> NUL \<in> set (drop y buf) \<and>
                           c_str (drop y buf) = t \<and> t \<noteq> [])"

lemma started_mono: "started buf y spec res \<Longrightarrow> x \<le> y \<Longrightarrow> started buf x spec res"
  by (auto simp: started_def split: option.splits sum.splits)

lemma scan_start_lex:
  "NUL \<in> set (drop x buf) \<Longrightarrow>
   started buf x (lex_start comment (c_str (drop x buf))) (scan_start comment buf x)"
proof (induction comment buf x rule: scan_start.induct)
  case (1 comment buf x)
  note x = NUL_ahead_less [OF "1.prems"]
  note step = NUL_ahead_step [OF "1.prems"]
  consider (nul) "buf ! x = NUL" | (lf) "buf ! x = LF"
    | (skip) "comment" "buf ! x \<noteq> NUL" "buf ! x \<noteq> LF"
    | (blank) "\<not> comment" "buf ! x = SPACE \<or> buf ! x = TAB \<or> buf ! x = CR"
    | (hash) "\<not> comment" "buf ! x = CHR ''#''"
    | (word) "\<not> comment" "buf ! x \<noteq> NUL" "buf ! x \<noteq> LF" "buf ! x \<noteq> CHR ''#''"
        "\<not> (buf ! x = SPACE \<or> buf ! x = TAB \<or> buf ! x = CR)"
    by blast
  then show ?case
  proof cases
    case nul
    then show ?thesis using x unfolding scan_start.simps [of comment buf x]
      by (simp add: started_def drop_step)
  next
    case lf
    then show ?thesis using x step unfolding scan_start.simps [of comment buf x]
      by (simp add: started_def drop_step)
  next
    case skip
    have "started buf (x + 1) (lex_start True (c_str (drop (x + 1) buf))) (scan_start True buf (x + 1))"
      using skip x step by (intro "1.IH"(1)) simp_all
    then show ?thesis
      using skip x unfolding scan_start.simps [of comment buf x]
      by (simp add: drop_step started_mono)
  next
    case blank
    have "started buf (x + 1) (lex_start False (c_str (drop (x + 1) buf))) (scan_start False buf (x + 1))"
      using blank x step by (intro "1.IH"(2)) auto
    then have "started buf x (lex_start False (c_str (drop (x + 1) buf))) (scan_start False buf (x + 1))"
      by (rule started_mono) simp
    then show ?thesis
      using blank x unfolding scan_start.simps [of comment buf x] by (auto simp: drop_step [OF x])
  next
    case hash
    have "started buf x (lex_start True (c_str (drop x buf))) (scan_start True buf x)"
      using hash x "1.prems" by (intro "1.IH"(3)) simp_all
    then show ?thesis
      using hash x unfolding scan_start.simps [of comment buf x]
      by (simp add: drop_step)
  next
    case word
    then show ?thesis
      using x "1.prems" unfolding scan_start.simps [of comment buf x]
      by (auto simp: started_def drop_step)
  qed
qed

definition scanned ::
  "string \<Rightarrow> nat \<Rightarrow> nat \<Rightarrow> nat \<Rightarrow> (string \<times> string \<times> nat \<times> bool) option \<Rightarrow> scan_end option \<Rightarrow> bool" where
  "scanned buf x s line spec res =
     (case spec of
        None \<Rightarrow> \<exists>b y l. res = Some (Unterminated b y l)
      | Some (w, r, n, nl) \<Rightarrow>
          \<exists>b y. res = Some (Done b y (s + length w) (line + n) nl) \<and> length b = length buf \<and>
                take (s + length w) b = take s buf @ w \<and> NUL \<notin> set w \<and>
                x \<le> y \<and> s + length w \<le> y \<and> (s + length w = y \<longrightarrow> b ! y = NUL) \<and>
                NUL \<in> set (drop y b) \<and> c_str (drop y b) = r)"

lemma scanned_mono: "scanned buf y s line spec res \<Longrightarrow> x \<le> y \<Longrightarrow> scanned buf x s line spec res"
  by (auto simp: scanned_def split: option.splits)

lemma scanned_put:
  "scanned (buf[s := ch]) y (s + 1) line spec res \<Longrightarrow> x \<le> y \<Longrightarrow> s < length buf \<Longrightarrow> ch \<noteq> NUL \<Longrightarrow>
   scanned buf x s line (word_cons ch spec) res"
  by (cases spec) (auto simp: scanned_def take_Suc_conv_app_nth)

lemma scanned_line:
  "scanned buf y s (line + 1) spec res \<Longrightarrow> x \<le> y \<Longrightarrow> scanned buf x s line (count_line spec) res"
  by (cases spec) (auto simp: scanned_def)

lemma escape_not_NUL: "d \<noteq> NUL \<Longrightarrow> escape_char d \<noteq> NUL"
  by (simp add: escape_char_def)

text \<open>
  One pass of the loop against \<open>lex_word\<close>: it stays inside the buffer, and whatever the rest
  of the loop achieves from the next pass on is what the specification asks for here.
\<close>

definition step_ok ::
  "string \<Rightarrow> nat \<Rightarrow> nat \<Rightarrow> nat \<Rightarrow> (string \<times> string \<times> nat \<times> bool) option \<Rightarrow> scan_next option \<Rightarrow> bool" where
  "step_ok buf x s line spec r =
     (case r of
        None \<Rightarrow> False
      | Some (Stop e) \<Rightarrow> scanned buf x s line spec (Some e)
      | Some (Go m b y t l) \<Rightarrow>
          t \<le> y \<and> NUL \<in> set (drop y b) \<and>
          (\<forall>res. scanned b y t l (lex_word m (c_str (drop y b))) res \<longrightarrow>
                 scanned buf x s line spec res))"

lemma step_ok_put:
  "s \<le> x \<Longrightarrow> x < y \<Longrightarrow> NUL \<in> set (drop y buf) \<Longrightarrow> ch \<noteq> NUL \<Longrightarrow>
   step_ok buf x s line (word_cons ch (lex_word m (c_str (drop y buf)))) (put m buf y s line ch)"
  using NUL_ahead_less [of y buf] scanned_put [of buf s ch y line _ _ x]
  by (auto simp: step_ok_def put_def)

lemma step_ok_go:
  "s \<le> y \<Longrightarrow> x \<le> y \<Longrightarrow> NUL \<in> set (drop y buf) \<Longrightarrow>
   step_ok buf x s line (lex_word m (c_str (drop y buf))) (Some (Go m buf y s line))"
  using scanned_mono by (auto simp: step_ok_def)

lemma step_ok_line:
  "s \<le> y \<Longrightarrow> x \<le> y \<Longrightarrow> NUL \<in> set (drop y buf) \<Longrightarrow>
   step_ok buf x s line (count_line (lex_word m (c_str (drop y buf)))) (Some (Go m buf y s (line + 1)))"
  using scanned_line by (auto simp: step_ok_def)

lemma step_ok_done:
  "s \<le> y \<Longrightarrow> x \<le> y \<Longrightarrow> NUL \<in> set (drop y buf) \<Longrightarrow> (s = y \<Longrightarrow> buf ! y = NUL) \<Longrightarrow>
   step_ok buf x s line (Some ([], c_str (drop y buf), 0, nl)) (Some (Stop (Done buf y s line nl)))"
  by (auto simp: step_ok_def scanned_def)

lemmas step_ok_rules = step_ok_put step_ok_go step_ok_line step_ok_done

lemma c_str_drop:
  "NUL \<in> set (drop x buf) \<Longrightarrow>
   c_str (drop x buf) = (if buf ! x = NUL then [] else buf ! x # c_str (drop (Suc x) buf))"
  using NUL_ahead_less [of x buf] by (simp add: drop_step [of x buf])

lemma lex_word_lone_CR:
  "ds = [] \<or> hd ds \<noteq> LF \<Longrightarrow> lex_word Plain (BACKSLASH # CR # ds) = lex_word Plain ds"
  by (cases ds) auto

lemma scan_escape_ok:
  assumes "s \<le> x" "NUL \<in> set (drop (Suc x) buf)"
  shows "step_ok buf x s line (lex_word Plain (BACKSLASH # c_str (drop (Suc x) buf)))
           (scan_escape buf (Suc x) s line)"
proof -
  let ?d = "buf ! Suc x"
  note x1 = NUL_ahead_less [OF assms(2)] and inp1 = c_str_drop [OF assms(2)]
  have n2: "NUL \<in> set (drop (Suc (Suc x)) buf)" if "?d \<noteq> NUL"
    using NUL_ahead_step [OF assms(2) that] .
  consider (nul) "?d = NUL" | (crlf) "?d = CR" "buf ! Suc (Suc x) = LF"
    | (cr) "?d = CR" "buf ! Suc (Suc x) \<noteq> LF" | (lf) "?d = LF"
    | (copy) "?d \<noteq> NUL" "?d \<noteq> CR" "?d \<noteq> LF"
    by blast
  then show ?thesis
  proof cases
    case nul
    then show ?thesis
      using assms x1 inp1 step_ok_done [of s "Suc x" x buf line False] by (simp add: scan_escape_def)
  next
    case crlf
    then have "NUL \<in> set (drop (Suc (Suc (Suc x))) buf)" "Suc (Suc x) < length buf"
      using n2 NUL_ahead_step [of "Suc (Suc x)" buf] NUL_ahead_less [of "Suc (Suc x)" buf] by simp_all
    then show ?thesis
      using crlf assms(1) x1 inp1 c_str_drop [OF n2]
        step_ok_line [of s "Suc (Suc (Suc x))" x buf line EatBlanks]
      by (simp add: scan_escape_def)
  next
    case cr
    then have "Suc (Suc x) < length buf" using n2 NUL_ahead_less by simp
    moreover have "lex_word Plain (BACKSLASH # c_str (drop (Suc x) buf)) =
        lex_word Plain (c_str (drop (Suc (Suc x)) buf))"
      using cr inp1 c_str_drop [OF n2] lex_word_lone_CR [of "c_str (drop (Suc (Suc x)) buf)"] by auto
    ultimately show ?thesis
      using cr assms(1) x1 n2 step_ok_go [of s "Suc (Suc x)" x buf line Plain]
      by (simp add: scan_escape_def del: lex_word.simps)
  next
    case lf
    then show ?thesis
      using assms(1) x1 inp1 n2 step_ok_line [of s "Suc (Suc x)" x buf line EatBlanks]
      by (simp add: scan_escape_def)
  next
    case copy
    then have "scan_escape buf (Suc x) s line = put Plain buf (Suc (Suc x)) s line (escape_char ?d)"
      using x1 by (simp add: scan_escape_def escape_char_def)
    then show ?thesis
      using copy assms(1) inp1 n2 step_ok_put [of s x "Suc (Suc x)" buf "escape_char ?d" line Plain]
      by (simp add: escape_not_NUL)
  qed
qed

lemma scan_step_ok:
  assumes "s \<le> x" "NUL \<in> set (drop x buf)"
  shows "step_ok buf x s line (lex_word mode (c_str (drop x buf))) (scan_step mode buf x s line)"
proof (cases "buf ! x = NUL")
  case True
  then show ?thesis
    using assms NUL_ahead_less [OF assms(2)] c_str_drop [OF assms(2)]
      step_ok_done [of s x x buf line False] step_ok_go [of s x x buf line Plain]
    by (cases mode) (simp_all add: step_ok_def scanned_def)
next
  case False
  note n1 = NUL_ahead_step [OF assms(2) False]
  note facts = assms n1 NUL_ahead_less [OF assms(2)] c_str_drop [OF assms(2)] False
  show ?thesis
  proof (cases mode)
    case Plain
    consider (blank) "buf ! x = SPACE \<or> buf ! x = TAB \<or> buf ! x = CR" | (lf) "buf ! x = LF"
      | (quote) "buf ! x = DQUOTE" | (escape) "buf ! x = BACKSLASH"
      | (other) "\<not> (buf ! x = SPACE \<or> buf ! x = TAB \<or> buf ! x = CR)"
          "buf ! x \<noteq> LF" "buf ! x \<noteq> DQUOTE" "buf ! x \<noteq> BACKSLASH"
      by blast
    then show ?thesis
    proof cases
      case blank
      then show ?thesis
        using Plain facts step_ok_done [of s "Suc x" x buf line False] by auto
    next
      case lf
      then show ?thesis
        using Plain facts step_ok_done [of s "Suc x" x buf line True] by simp
    next
      case quote
      then show ?thesis
        using Plain facts step_ok_go [of s "Suc x" x buf line InQuotes] by simp
    next
      case escape
      then show ?thesis using Plain facts scan_escape_ok [of s x buf line] by simp
    next
      case other
      then show ?thesis
        using Plain facts step_ok_put [of s x "Suc x" buf "buf ! x" line Plain] by simp
    qed
  next
    case InQuotes
    then show ?thesis
      using facts step_ok_put [of s x "Suc x" buf "buf ! x" line InQuotes]
        step_ok_go [of s "Suc x" x buf line Plain]
      by simp
  next
    case EatBlanks
    then show ?thesis
      using facts step_ok_go [of s "Suc x" x buf line EatBlanks] step_ok_go [of s x x buf line Plain]
      by auto
  qed
qed

lemma scan_text_lex:
  "s \<le> x \<Longrightarrow> NUL \<in> set (drop x buf) \<Longrightarrow>
   scanned buf x s line (lex_word mode (c_str (drop x buf))) (scan_text mode buf x s line)"
proof (induction mode buf x s line rule: scan_text.induct)
  case (1 mode buf x s line)
  have ok: "step_ok buf x s line (lex_word mode (c_str (drop x buf))) (scan_step mode buf x s line)"
    using "1.prems" by (rule scan_step_ok)
  show ?case
  proof (cases "scan_step mode buf x s line")
    case None
    then show ?thesis using ok by (simp add: step_ok_def)
  next
    case (Some r)
    then show ?thesis
      using ok "1.IH" by (cases r) (auto simp: step_ok_def scan_text.simps [of mode buf x s line])
  qed
qed

subsection \<open>One call of \<open>next_token\<close>\<close>

text \<open>The next token of a text: \<open>None\<close> is a newline, \<open>Some w\<close> a word; no token is the end.\<close>

definition lex_next :: "string \<Rightarrow> (string option \<times> string \<times> nat \<times> bool) option" where
  "lex_next inp =
     (case lex_start False inp of
        None \<Rightarrow> None
      | Some (Inl r) \<Rightarrow> Some (None, r, 0, False)
      | Some (Inr t) \<Rightarrow>
          (case lex_word Plain t of
             None \<Rightarrow> None
           | Some (w, r, n, nl) \<Rightarrow> Some (Some w, r, n, nl)))"

definition tok_ready :: "parse_state \<Rightarrow> bool" where
  "tok_ready st = (NUL \<in> set (drop (ps_ptr st) (ps_buf st)))"

definition tok_rest :: "parse_state \<Rightarrow> string" where
  "tok_rest st = c_str (drop (ps_ptr st) (ps_buf st))"

text \<open>A word consumes at least its first character.\<close>

fun rest_le :: "nat \<Rightarrow> (string \<times> string \<times> nat \<times> bool) option \<Rightarrow> bool" where
  "rest_le k (Some (w, r, n, b)) = (length r \<le> k)"
| "rest_le k None = True"

lemma rest_le_simps [simp]:
  "rest_le k (word_cons c o1) = rest_le k o1" "rest_le k (count_line o1) = rest_le k o1"
  by (cases o1; auto)+

lemma lex_word_Plain_rest:
  assumes "\<And>m i k. length i \<le> length cs \<Longrightarrow> length i \<le> k \<Longrightarrow> rest_le k (lex_word m i)"
  shows "rest_le (length cs) (lex_word Plain (c # cs))"
  using assms
  by (subst lex_word.simps(6)) (simp del: lex_word.simps split: list.split)

lemma lex_word_rest: "length inp \<le> k \<Longrightarrow> rest_le k (lex_word mode inp)"
proof (induction "length inp" arbitrary: mode inp k rule: less_induct)
  case less
  show ?case
  proof (cases inp)
    case Nil
    then show ?thesis by (cases mode) auto
  next
    case (Cons c cs)
    then have IH: "length i \<le> length cs \<Longrightarrow> length i \<le> j \<Longrightarrow> rest_le j (lex_word m i)" for m i j
      using less.hyps [of i j m] by simp
    have "rest_le (length cs) (lex_word Plain (c # cs))" by (rule lex_word_Plain_rest) (rule IH)
    then have "rest_le k (lex_word Plain (c # cs))"
      using less.prems Cons by (cases "lex_word Plain (c # cs)") (auto simp del: lex_word.simps)
    then show ?thesis
      using IH less.prems Cons
      by (cases mode) (simp_all del: lex_word.simps(6))
  qed
qed

lemma lex_word_Plain_shorter:
  "lex_word Plain (c # cs) = Some (w, r, n, b) \<Longrightarrow> length r \<le> length cs"
  using lex_word_Plain_rest [of cs c] lex_word_rest by (simp del: lex_word.simps)

lemma lex_start_shorter:
  "lex_start c inp = Some (Inl r) \<Longrightarrow> length r < length inp"
  "lex_start c inp = Some (Inr r) \<Longrightarrow> length r \<le> length inp \<and> r \<noteq> []"
  by (induction c inp rule: lex_start.induct) (auto split: if_splits)

lemma lex_next_shorter: "lex_next inp = Some (t, r, n, nl) \<Longrightarrow> length r < length inp"
proof (cases "lex_start False inp")
  case None
  then show "lex_next inp = Some (t, r, n, nl) \<Longrightarrow> ?thesis" by (simp add: lex_next_def)
next
  case (Some a)
  assume n: "lex_next inp = Some (t, r, n, nl)"
  show ?thesis
  proof (cases a)
    case (Inl q)
    then show ?thesis using n Some lex_start_shorter(1) by (simp add: lex_next_def)
  next
    case (Inr q)
    then obtain c cs where "q = c # cs" using Some lex_start_shorter(2) by (meson list.exhaust)
    then show ?thesis
      using n Some Inr lex_start_shorter(2) [of False inp q] lex_word_Plain_shorter [of c cs]
      by (fastforce simp: lex_next_def split: option.splits)
  qed
qed

lemma c_str_prefix: "NUL \<notin> set w \<Longrightarrow> c_str (w @ NUL # r) = w"
  by (induction w) auto

lemma written_word:
  assumes "take (s + length w) b = take s buf @ w" "s \<le> length buf" "length b = length buf"
    "s + length w < length b" "NUL \<notin> set w"
  shows "c_str (drop s (b[s + length w := NUL])) = w"
proof -
  have "b[s + length w := NUL] = take s buf @ w @ NUL # drop (Suc (s + length w)) b"
    using assms by (simp add: upd_conv_take_nth_drop)
  then have "drop s (b[s + length w := NUL]) = w @ NUL # drop (Suc (s + length w)) b"
    using assms(2) by simp
  then show ?thesis using assms(5) by (simp add: c_str_prefix)
qed

lemma drop_written:
  "s \<le> y \<Longrightarrow> (s = y \<Longrightarrow> b ! y = NUL) \<Longrightarrow> drop y (b[s := NUL]) = drop y b"
  by (metis drop_update_cancel le_neq_implies_less list_update_id)

definition token_ok ::
  "parse_state \<Rightarrow> (string option \<times> string \<times> nat \<times> bool) option \<Rightarrow>
   (token_kind \<times> parse_state) option \<Rightarrow> bool" where
  "token_ok st spec res =
     (case spec of
        None \<Rightarrow> \<exists>st'. res = Some (T_EOF, st')
      | Some (None, r, _, _) \<Rightarrow>
          \<exists>st'. res = Some (T_NEWLINE, st') \<and> tok_ready st' \<and> tok_rest st' = r \<and>
                ps_line st' = ps_line st \<and> \<not> nexttoken st'
      | Some (Some w, r, n, nl) \<Rightarrow>
          \<exists>st'. res = Some (T_TEXT, st') \<and> tok_ready st' \<and> tok_rest st' = r \<and>
                ps_line st' = ps_line st + n \<and> nexttoken st' = nl \<and> token_text st' = w)"

lemma next_token_text:
  assumes "scan_start False (ps_buf st) (ps_ptr st) = Some (StartText x)" "\<not> nexttoken st"
    and "NUL \<in> set (drop x (ps_buf st))" "lex_word Plain (c_str (drop x (ps_buf st))) = Some (w, r, n, nl)"
  shows "\<exists>st'. next_token st = Some (T_TEXT, st') \<and> tok_ready st' \<and> tok_rest st' = r \<and>
                ps_line st' = ps_line st + n \<and> nexttoken st' = nl \<and> token_text st' = w"
proof -
  let ?buf = "ps_buf st"
  from scan_text_lex [of x x ?buf "ps_line st" Plain] assms(3,4)
  obtain b y where d: "scan_text Plain ?buf x x (ps_line st) = Some (Done b y (x + length w) (ps_line st + n) nl)"
    and len: "length b = length ?buf" and pre: "take (x + length w) b = take x ?buf @ w"
    and nn: "NUL \<notin> set w" and le: "x + length w \<le> y" and eq: "x + length w = y \<Longrightarrow> b ! y = NUL"
    and ahead: "NUL \<in> set (drop y b)" and rest: "c_str (drop y b) = r"
    by (auto simp: scanned_def)
  have lt: "x + length w < length b" using le NUL_ahead_less [OF ahead] by simp
  then have "next_token st = Some (T_TEXT, st\<lparr>ps_buf := b[x + length w := NUL], ps_ptr := y,
      ps_text := x, ps_line := ps_line st + n, nexttoken := nl\<rparr>)"
    using assms(1,2) d by (simp add: next_token_def)
  moreover have "c_str (drop x (b[x + length w := NUL])) = w"
    using pre nn lt len NUL_ahead_less [OF assms(3)] by (intro written_word [of x w b ?buf]) auto
  ultimately show ?thesis
    using drop_written [OF le eq] ahead rest by (simp add: tok_ready_def tok_rest_def token_text_def)
qed

lemma next_token_lex:
  assumes "tok_ready st" "\<not> nexttoken st"
  shows "token_ok st (lex_next (tok_rest st)) (next_token st)"
proof -
  let ?buf = "ps_buf st"
  have "started ?buf (ps_ptr st) (lex_start False (tok_rest st)) (scan_start False ?buf (ps_ptr st))"
    using assms(1) scan_start_lex unfolding tok_ready_def tok_rest_def by blast
  then consider
      (eof) y where "lex_start False (tok_rest st) = None"
        "scan_start False ?buf (ps_ptr st) = Some (StartEOF y)"
    | (nl) y r where "lex_start False (tok_rest st) = Some (Inl r)"
        "scan_start False ?buf (ps_ptr st) = Some (StartNewline y)"
        "NUL \<in> set (drop y ?buf)" "c_str (drop y ?buf) = r"
    | (word) y where "lex_start False (tok_rest st) = Some (Inr (c_str (drop y ?buf)))"
        "scan_start False ?buf (ps_ptr st) = Some (StartText y)" "NUL \<in> set (drop y ?buf)"
    by (auto simp: started_def split: option.splits sum.splits)
  then show ?thesis
  proof cases
    case eof
    then show ?thesis using assms(2) by (simp add: token_ok_def lex_next_def next_token_def)
  next
    case nl
    then show ?thesis
      using assms(2)
      by (auto simp: token_ok_def lex_next_def next_token_def tok_ready_def tok_rest_def)
  next
    case word
    show ?thesis
    proof (cases "lex_word Plain (c_str (drop y ?buf))")
      case None
      then show ?thesis
        using word assms(2) scan_text_lex [of y y ?buf "ps_line st" Plain]
        by (auto simp: token_ok_def lex_next_def next_token_def scanned_def)
    next
      case (Some q)
      then obtain w r n nl where "lex_word Plain (c_str (drop y ?buf)) = Some (w, r, n, nl)"
        by (cases q) auto
      then show ?thesis
        using next_token_text [OF word(2) assms(2) word(3)] word(1)
        by (simp add: token_ok_def lex_next_def)
    qed
  qed
qed

subsection \<open>Every token makes progress\<close>

definition unread :: "parse_state \<Rightarrow> nat" where
  "unread st = 2 * (length (ps_buf st) - ps_ptr st) + (if nexttoken st then 1 else 0)"

lemma scan_start_bounds:
  "scan_start c buf x = Some (StartNewline y) \<Longrightarrow> x < y \<and> y \<le> length buf"
  "scan_start c buf x = Some (StartText y) \<Longrightarrow> x \<le> y \<and> y < length buf \<and> buf ! y \<noteq> NUL"
proof (induction c buf x rule: scan_start.induct)
  case (1 c buf x)
  {
    case 1
    then show ?case using "1.IH"(1,3,5)
      by (simp add: scan_start.simps [of c buf x] split: if_splits)
  next
    case 2
    then show ?case using "1.IH"(2,4,6)
      by (simp add: scan_start.simps [of c buf x] split: if_splits)
  }
qed

lemma scan_step_stop:
  "scan_step mode buf x s line = Some (Stop (Done b y t l nl)) \<Longrightarrow>
   b = buf \<and> x \<le> y \<and> (buf ! x \<noteq> NUL \<longrightarrow> x < y)"
  by (cases mode) (auto simp: scan_escape_def put_def split: if_splits)

lemma scan_text_Done:
  assumes "scan_text mode buf x s line = Some (Done b y t l nl)"
  obtains (stop) "scan_step mode buf x s line = Some (Stop (Done b y t l nl))"
    | (go) m b2 y2 t2 l2 where "scan_step mode buf x s line = Some (Go m b2 y2 t2 l2)"
        "scan_text m b2 y2 t2 l2 = Some (Done b y t l nl)"
  using assms unfolding scan_text.simps [of mode buf x s line]
  by (auto split: option.splits scan_next.splits)

lemma scan_text_bounds:
  "scan_text mode buf x s line = Some (Done b y t l nl) \<Longrightarrow> x \<le> y \<and> length b = length buf"
proof (induction mode buf x s line rule: scan_text.induct)
  case (1 mode buf x s line)
  from "1.prems" show ?case
  proof (cases rule: scan_text_Done)
    case stop
    then show ?thesis using scan_step_stop by blast
  next
    case (go m b2 y2 t2 l2)
    then show ?thesis
      using "1.IH" [OF go(1) refl] scan_step_advances [OF go(1)] by auto
  qed
qed

lemma scan_text_moves:
  assumes "scan_text Plain buf x s line = Some (Done b y t l nl)" "buf ! x \<noteq> NUL"
  shows "x < y \<and> length b = length buf"
  using assms(1)
proof (cases rule: scan_text_Done)
  case stop
  then show ?thesis using scan_step_stop assms(2) by blast
next
  case (go m b2 y2 t2 l2)
  then show ?thesis
    using scan_text_bounds [OF go(2)] scan_step_advances [OF go(1)] by auto
qed

lemma next_token_progress:
  assumes "next_token st = Some (t, st')" "t \<noteq> T_EOF"
  shows "unread st' < unread st"
proof -
  consider (pending) "nexttoken st" "st' = st\<lparr>nexttoken := False\<rparr>"
    | (nl) y where "\<not> nexttoken st" "scan_start False (ps_buf st) (ps_ptr st) = Some (StartNewline y)"
        "st' = st\<lparr>ps_ptr := y\<rparr>"
    | (word) x b y s l nl where "\<not> nexttoken st"
        "scan_start False (ps_buf st) (ps_ptr st) = Some (StartText x)"
        "scan_text Plain (ps_buf st) x x (ps_line st) = Some (Done b y s l nl)"
        "st' = st\<lparr>ps_buf := b[s := NUL], ps_ptr := y, ps_text := x, ps_line := l, nexttoken := nl\<rparr>"
    using assms
    by (auto simp: next_token_def split: if_splits option.splits start.splits scan_end.splits)
  then show ?thesis
  proof cases
    case pending
    then show ?thesis by (simp add: unread_def)
  next
    case nl
    then show ?thesis using scan_start_bounds(1) [OF nl(2)] by (auto simp: unread_def)
  next
    case word
    then show ?thesis
      using scan_start_bounds(2) [OF word(2)] scan_text_moves [OF word(3)] by (auto simp: unread_def)
  qed
qed

section \<open>The lines of a file\<close>

text \<open>
  The non-empty lines of a text with their numbers: \<open>line\<close> counts the newlines read, \<open>args\<close>
  holds the words of the line so far. The words behind the last newline are not a line.
\<close>

definition with_line :: "nat \<Rightarrow> string list \<Rightarrow> (nat \<times> string list) list \<Rightarrow> (nat \<times> string list) list" where
  "with_line n args ls = (if args = [] then ls else (n, args) # ls)"

function lex_lines :: "nat \<Rightarrow> string list \<Rightarrow> string \<Rightarrow> (nat \<times> string list) list" where
  "lex_lines line args inp =
     (case lex_next inp of
        None \<Rightarrow> []
      | Some (None, r, _, _) \<Rightarrow> with_line (line + 1) args (lex_lines (line + 1) [] r)
      | Some (Some w, r, n, nl) \<Rightarrow>
          if nl then with_line (line + n + 1) (args @ [w]) (lex_lines (line + n + 1) [] r)
          else lex_lines (line + n) (args @ [w]) r)"
  by pat_completeness auto
termination
  by (relation "measure (\<lambda>(l, a, inp). length inp)") (auto dest: lex_next_shorter)

declare lex_lines.simps [simp del]

subsection \<open>Writing lines\<close>

text \<open>How any words are written so that they are read back: escape what is special.\<close>

definition encode_char :: "char \<Rightarrow> string" where
  "encode_char c =
     (if c = LF then [BACKSLASH, CHR ''n''] else if c = CR then [BACKSLASH, CHR ''r'']
      else if c = TAB then [BACKSLASH, CHR ''t'']
      else if c = SPACE \<or> c = BACKSLASH \<or> c = DQUOTE \<or> c = CHR ''#'' then [BACKSLASH, c]
      else [c])"

definition encode_word :: "string \<Rightarrow> string" where
  "encode_word w = concat (map encode_char w)"

definition encode_line :: "string list \<Rightarrow> string" where
  "encode_line ws = concat (map (\<lambda>w. encode_word w @ [SPACE]) ws) @ [LF]"

definition encode_lines :: "string list list \<Rightarrow> string" where
  "encode_lines lines = concat (map encode_line lines)"

lemma lex_word_encode_char:
  "lex_word Plain (encode_char c @ r) = word_cons c (lex_word Plain r)"
  by (simp add: encode_char_def escape_char_def)

lemma lex_word_encode:
  "lex_word Plain (encode_word w @ SPACE # r) = Some (w, r, 0, False)"
  by (induction w) (simp_all add: encode_word_def lex_word_encode_char del: lex_word.simps(6),
      simp)

lemma encode_char_start:
  "lex_start False (encode_char c @ r) = Some (Inr (encode_char c @ r))"
  by (simp add: encode_char_def)

lemma lex_next_encode:
  "w \<noteq> [] \<Longrightarrow> lex_next (encode_word w @ SPACE # r) = Some (Some w, r, 0, False)"
  using lex_word_encode [of w r]
  by (cases w) (simp_all add: lex_next_def encode_word_def encode_char_start)

lemma lex_lines_words:
  "list_all (\<lambda>w. w \<noteq> []) ws \<Longrightarrow>
   lex_lines n args (concat (map (\<lambda>w. encode_word w @ [SPACE]) ws) @ r) = lex_lines n (args @ ws) r"
proof (induction ws arbitrary: args)
  case Nil
  then show ?case by simp
next
  case (Cons w ws)
  then show ?case
    using lex_next_encode [of w "concat (map (\<lambda>w. encode_word w @ [SPACE]) ws) @ r"]
    by (subst lex_lines.simps) simp
qed

lemma lex_lines_encode_line:
  assumes "list_all (\<lambda>w. w \<noteq> []) ws" "ws \<noteq> []"
  shows "lex_lines n [] (encode_line ws @ r) = (n + 1, ws) # lex_lines (n + 1) [] r"
proof -
  have "lex_lines n ws (LF # r) = (n + 1, ws) # lex_lines (n + 1) [] r"
    using assms(2) by (subst lex_lines.simps) (simp add: lex_next_def with_line_def)
  then show ?thesis
    using lex_lines_words [OF assms(1), of n "[]" "LF # r"] by (simp add: encode_line_def)
qed

lemma lex_lines_encode:
  assumes "list_all (\<lambda>ws. ws \<noteq> [] \<and> list_all (\<lambda>w. w \<noteq> []) ws) lines"
  shows "lex_lines n [] (encode_lines lines @ r) =
         enumerate (n + 1) lines @ lex_lines (n + length lines) [] r"
  using assms
proof (induction lines arbitrary: n)
  case Nil
  then show ?case by (simp add: encode_lines_def)
next
  case (Cons ws lines)
  then show ?case
    using lex_lines_encode_line [of ws n "encode_lines lines @ r"]
    by (simp add: encode_lines_def)
qed

lemma encode_no_NUL:
  "list_all (list_all (\<lambda>w. NUL \<notin> set w)) lines \<Longrightarrow> NUL \<notin> set (encode_lines lines)"
  by (auto simp: encode_lines_def encode_line_def encode_word_def encode_char_def list_all_iff)

section \<open>Properties\<close>

text \<open>
  C13: on a buffer with a NUL at or behind the read position, a call of \<^verbatim>\<open>next_token\<close>
  returns, accesses the buffer only inside its bounds although it rewrites it in place, and
  yields the next token of the text; the token's characters stand at \<^verbatim>\<open>state.text\<close>, and the
  text still to be read is what follows the token.
\<close>

theorem next_token_refines:
  assumes "tok_ready st" "\<not> nexttoken st"
  shows "token_ok st (lex_next (tok_rest st)) (next_token st)"
  using assms by (rule next_token_lex)

theorem next_token_refines_witness:
  "\<exists>st'. next_token \<lparr>ps_buf = '' a'' @ [BACKSLASH, LF, SPACE] @ ''b c'' @ [NUL], ps_ptr = 0, ps_text = 0,
                     ps_line = 7, nexttoken = False\<rparr> = Some (T_TEXT, st') \<and>
         token_text st' = ''ab'' \<and> tok_rest st' = ''c'' \<and> ps_line st' = 8"
  using next_token_refines [of "\<lparr>ps_buf = '' a'' @ [BACKSLASH, LF, SPACE] @ ''b c'' @ [NUL], ps_ptr = 0,
      ps_text = 0, ps_line = 7, nexttoken = False\<rparr>"]
  by (simp add: token_ok_def lex_next_def tok_ready_def [of "parse_state.make _ _ _ _ _"] tok_rest_def
      escape_char_def) (auto simp: tok_ready_def tok_rest_def)

end
