(* ===== verification/Util.thy ===== *)
theory Util
  imports Init_Prelude
begin

text \<open>
  The pure part of \<^verbatim>\<open>init/util.cpp\<close>: user ids, file permission check, kernel command
  line and bootconfig entries, property expansion, legality of property names and values,
  and the argument parsers the builtins share. The property store, the user database, the
  SELinux vendor API level and the file system are arguments.
\<close>

section \<open>Numbers and ids\<close>

text \<open>
  \<^verbatim>\<open>strtoul\<close> on a 64-bit system: the value and whether \<^verbatim>\<open>errno\<close> is set, which happens on
  overflow only.
\<close>

fun digits_value :: "nat \<Rightarrow> nat \<Rightarrow> string \<Rightarrow> nat" where
  "digits_value b acc [] = acc"
| "digits_value b acc (c # cs) =
     (case hex_value c of
        None \<Rightarrow> acc
      | Some v \<Rightarrow> if v < b then digits_value b (acc * b + v) cs else acc)"

definition strtoul :: "nat \<Rightarrow> string \<Rightarrow> 64 word \<times> bool" where
  "strtoul base str =
     (let s = dropWhile c_isspace (c_str str);
          neg = prefix ''-'' s;
          t = (if neg \<or> prefix ''+'' s then drop 1 s else s);
          hex = ((prefix ''0x'' t \<or> prefix ''0X'' t) \<and>
                 (case drop 2 t of [] \<Rightarrow> False | c # _ \<Rightarrow> hex_value c \<noteq> None));
          b = (if base = 0 then (if hex then 16 else if prefix ''0'' t then 8 else 10) else base);
          v = digits_value b 0 (if b = 16 \<and> hex then drop 2 t else t)
      in if v \<ge> 2 ^ 64 then (- 1, True) else (if neg then - of_nat v else of_nat v, False))"

definition DecodeUid :: "(string \<Rightarrow> 32 word option) \<Rightarrow> string \<Rightarrow> 32 word result" where
  "DecodeUid getpwnam name =
     (if (case name of [] \<Rightarrow> False | c # _ \<Rightarrow> c_isalpha c) then
        (case getpwnam (c_str name) of
           None \<Rightarrow> Err (ErrnoError ''getpwnam failed'')
         | Some u \<Rightarrow> Ok u)
      else
        (case strtoul 0 name of
           (v, errno) \<Rightarrow> if errno then Err (ErrnoError ''strtoul failed'') else Ok (ucast v)))"

section \<open>Files\<close>

text \<open>An opened file: what \<^verbatim>\<open>fstat\<close> and reading it return (\<open>None\<close> is failure).\<close>

record open_file =
  file_mode :: "32 word option"
  file_content :: "string option"

definition S_IWGRP :: "32 word" where "S_IWGRP = 16"
definition S_IWOTH :: "32 word" where "S_IWOTH = 2"

unbundle bit_operations_syntax

definition ReadFile :: "(string \<Rightarrow> open_file option) \<Rightarrow> string \<Rightarrow> string result" where
  "ReadFile fs path =
     (case fs path of
        None \<Rightarrow> Err (ErrnoError ''open() failed'')
      | Some f \<Rightarrow>
          (case file_mode f of
             None \<Rightarrow> Err (ErrnoError ''fstat failed()'')
           | Some m \<Rightarrow>
               if m AND (S_IWGRP OR S_IWOTH) \<noteq> 0 then Err (Error ''Skipping insecure file'')
               else
                 (case file_content f of
                    None \<Rightarrow> Err (ErrnoError ''Unable to read file contents'')
                  | Some content \<Rightarrow> Ok content)))"

text \<open>
  \<open>mkdir_recursive\<close> over a directory store \<open>'w\<close>: \<open>stat_dir\<close> is \<^verbatim>\<open>stat(...) == 0\<close>, \<open>mk\<close>
  is \<^verbatim>\<open>make_dir\<close>, which returns the \<^verbatim>\<open>errno\<close> of a failure.
\<close>

datatype errno = EEXIST | ENOENT | OtherErrno

fun slashes :: "nat \<Rightarrow> string \<Rightarrow> nat list" where
  "slashes i [] = []"
| "slashes i (c # cs) = (if c = CHR ''/'' \<and> 0 < i then i # slashes (i + 1) cs else slashes (i + 1) cs)"

definition mkdir_one ::
  "('w \<Rightarrow> string \<Rightarrow> bool) \<Rightarrow> ('w \<Rightarrow> string \<Rightarrow> errno option \<times> 'w) \<Rightarrow> string \<Rightarrow> 'w \<Rightarrow> bool \<times> 'w" where
  "mkdir_one stat_dir mk directory w =
     (if stat_dir w directory then (True, w)
      else (case mk w directory of
              (None, w') \<Rightarrow> (True, w')
            | (Some e, w') \<Rightarrow> (e = EEXIST, w')))"

fun mkdir_all ::
  "('w \<Rightarrow> string \<Rightarrow> bool) \<Rightarrow> ('w \<Rightarrow> string \<Rightarrow> errno option \<times> 'w) \<Rightarrow> string list \<Rightarrow> 'w \<Rightarrow> bool \<times> 'w" where
  "mkdir_all stat_dir mk [] w = (True, w)"
| "mkdir_all stat_dir mk (d # ds) w =
     (case mkdir_one stat_dir mk d w of
        (True, w') \<Rightarrow> mkdir_all stat_dir mk ds w'
      | (False, w') \<Rightarrow> (False, w'))"

definition mkdir_recursive ::
  "('w \<Rightarrow> string \<Rightarrow> bool) \<Rightarrow> ('w \<Rightarrow> string \<Rightarrow> errno option \<times> 'w) \<Rightarrow> string \<Rightarrow> 'w \<Rightarrow> bool \<times> 'w" where
  "mkdir_recursive stat_dir mk path w =
     (case mkdir_all stat_dir mk (map (\<lambda>i. take i path) (slashes 0 path)) w of
        (False, w') \<Rightarrow> (False, w')
      | (True, w') \<Rightarrow>
          (case mk w' path of
             (None, w'') \<Rightarrow> (True, w'')
           | (Some e, w'') \<Rightarrow> (e = EEXIST, w'')))"

section \<open>Kernel command line and bootconfig\<close>

text \<open>The calls of the callback, in order; the argument is the content of the proc file.\<close>

definition ImportKernelCmdline :: "libbase \<Rightarrow> string \<Rightarrow> (string \<times> string) list" where
  "ImportKernelCmdline lb cmdline =
     concat (map (\<lambda>entry. case Split lb entry ''='' of [k, v] \<Rightarrow> [(k, v)] | _ \<Rightarrow> [])
               (Split lb (Trim lb cmdline) '' ''))"

definition ImportBootconfig :: "libbase \<Rightarrow> string \<Rightarrow> (string \<times> string) list" where
  "ImportBootconfig lb bootconfig =
     concat (map (\<lambda>entry.
         case Split lb entry ''='' of
           [k, v] \<Rightarrow>
             (let v1 = StringReplace lb v [DQUOTE, CHR '','', SPACE, DQUOTE] '','' True;
                  v2 = filter (\<lambda>c. c \<noteq> DQUOTE) v1
              in [(Trim lb k, Trim lb v2)])
         | _ \<Rightarrow> [])
       (Split lb bootconfig [LF]))"

text \<open>The last \<^verbatim>\<open>androidboot.android_dt_dir\<close> of the command line, or else of bootconfig.\<close>

definition last_value :: "string \<Rightarrow> (string \<times> string) list \<Rightarrow> string \<Rightarrow> string" where
  "last_value key entries d = fold (\<lambda>(k, v) acc. if k = key then v else acc) entries d"

definition init_android_dt_dir :: "libbase \<Rightarrow> string \<Rightarrow> string \<Rightarrow> string" where
  "init_android_dt_dir lb cmdline bootconfig =
     (let dflt = ''/proc/device-tree/firmware/android/'';
          d = last_value ''androidboot.android_dt_dir'' (ImportKernelCmdline lb cmdline) dflt
      in if d = dflt
         then last_value ''androidboot.android_dt_dir'' (ImportBootconfig lb bootconfig) d
         else d)"

definition read_android_dt_file :: "(string \<Rightarrow> string option) \<Rightarrow> string \<Rightarrow> string \<Rightarrow> string option" where
  "read_android_dt_file read dt_dir sub_path =
     (case read (dt_dir @ sub_path) of
        None \<Rightarrow> None
      | Some content \<Rightarrow> if content = [] then None else Some (butlast content))"

definition is_android_dt_value_expected ::
  "(string \<Rightarrow> string option) \<Rightarrow> string \<Rightarrow> string \<Rightarrow> string \<Rightarrow> bool" where
  "is_android_dt_value_expected read dt_dir sub_path expected =
     (read_android_dt_file read dt_dir sub_path = Some expected)"

section \<open>Property expansion\<close>

abbreviation API_P :: int where "API_P \<equiv> 28"
abbreviation API_Q :: int where "API_Q \<equiv> 29"
abbreviation API_R :: int where "API_R \<equiv> 30"

text \<open>
  \<open>props\<close> is the property store (a missing property is empty), \<open>version\<close> is
  \<^verbatim>\<open>SelinuxGetVendorAndroidVersion()\<close>.
\<close>

definition expand_property ::
  "(string \<Rightarrow> string) \<Rightarrow> string \<Rightarrow> string \<Rightarrow> string \<Rightarrow> string result" where
  "expand_property props src prop_name def_val =
     (if prop_name = [] then
        Err (Error (''invalid zero-length property name in '' @ quoted src))
      else if props prop_name \<noteq> [] then Ok (props prop_name)
      else if def_val = [] then
        Err (Error (''property '' @ quoted prop_name @ '' doesn'' @ [APOSTROPHE] @ ''t exist while expanding '' @ quoted src))
      else Ok def_val)"

definition split_default :: "string \<Rightarrow> string \<times> string" where
  "split_default prop_name =
     (case find_str '':-'' prop_name of
        None \<Rightarrow> (prop_name, [])
      | Some d \<Rightarrow> (take d prop_name, drop (d + 2) prop_name))"

function expand_loop ::
  "(string \<Rightarrow> string) \<Rightarrow> int \<Rightarrow> string \<Rightarrow> string \<Rightarrow> string \<Rightarrow> string result" where
  "expand_loop props version src rest dst =
     (if rest = [] then Ok dst
      else
        (case find_char (CHR ''$'') rest of
           None \<Rightarrow> Ok (dst @ rest)
         | Some i \<Rightarrow>
             (case drop (i + 1) rest of
                [] \<Rightarrow> Ok (dst @ take i rest)
              | d # c \<Rightarrow>
                  if d = CHR ''$'' then
                    expand_loop props version src c (dst @ take i rest @ ''$'')
                  else if d = CHR ''{'' then
                    (case find_char (CHR ''}'') c of
                       None \<Rightarrow> Err (Error (''unexpected end of string in '' @ quoted src @ '', looking for }''))
                     | Some e \<Rightarrow>
                         (case split_default (take e c) of
                            (prop_name, def_val) \<Rightarrow>
                              (case expand_property props src prop_name def_val of
                                 Inl er \<Rightarrow> Inl er
                               | Inr prop_val \<Rightarrow>
                                   expand_loop props version src (drop (e + 1) c)
                                     (dst @ take i rest @ prop_val))))
                  else if version \<ge> API_R then
                    Err (Error (''using deprecated syntax for specifying property '' @ quoted (d # c) @
                                '', use ${name} instead''))
                  else
                    (case expand_property props src (d # c) [] of
                       Inl er \<Rightarrow> Inl er
                     | Inr prop_val \<Rightarrow> Ok (dst @ take i rest @ prop_val)))))"
  by pat_completeness auto
termination
proof (relation "measure (\<lambda>(p, v, s, rest, d). length rest)", goal_cases)
  case (2 props version src rest dst i d c)
  then have "length (drop (i + 1) rest) = Suc (length c)" by (metis length_Cons)
  then show ?case by simp
next
  case (3 props version src rest dst i d c e)
  then have "length (drop (i + 1) rest) = Suc (length c)" by (metis length_Cons)
  then show ?case by simp
qed simp

declare expand_loop.simps [simp del]

definition ExpandProps :: "(string \<Rightarrow> string) \<Rightarrow> int \<Rightarrow> string \<Rightarrow> string result" where
  "ExpandProps props version src = expand_loop props version src (c_str src) []"

section \<open>Legal properties\<close>

definition legal_char :: "char \<Rightarrow> bool" where
  "legal_char c =
     (c = CHR ''_'' \<or> c = CHR ''-'' \<or> c = CHR ''@'' \<or> c = CHR '':'' \<or>
      c_islower c \<or> c_isupper c \<or> c_isdigit c)"

definition IsLegalPropertyName :: "string \<Rightarrow> bool" where
  "IsLegalPropertyName name =
     (let namelen = length name
      in if namelen < 1 then False
         else if name ! 0 = CHR ''.'' then False
         else if name ! (namelen - 1) = CHR ''.'' then False
         else list_all (\<lambda>i. if name ! i = CHR ''.'' then name ! (i - 1) \<noteq> CHR ''.''
                            else legal_char (name ! i)) [0..<namelen])"

abbreviation PROP_VALUE_MAX :: nat where "PROP_VALUE_MAX \<equiv> 92"

text \<open>\<open>utf8\<close> is \<^verbatim>\<open>mbstowcs(nullptr, value.data(), 0) != -1\<close> in the process locale.\<close>

definition IsLegalPropertyValue ::
  "libbase \<Rightarrow> (string \<Rightarrow> bool) \<Rightarrow> string \<Rightarrow> string \<Rightarrow> unit result" where
  "IsLegalPropertyValue lb utf8 name v =
     (if length v \<ge> PROP_VALUE_MAX \<and> \<not> StartsWith lb name ''ro.'' then
        Err (Error ''Property value too long'')
      else if \<not> utf8 v then Err (Error ''Value is not a UTF8 encoded string'')
      else Ok ())"

section \<open>Arguments of the builtins\<close>

datatype FscryptAction = kNone | kAttempt | kRequire | kDeleteIfNecessary

definition FscryptInferAction :: "libbase \<Rightarrow> string \<Rightarrow> FscryptAction" where
  "FscryptInferAction lb dir =
     (let prefix = ''/data/''
      in if \<not> StartsWith lb dir prefix then kNone
         else if dir = ''/data/media/obb'' then kAttempt
         else if CHR ''/'' \<in> set (drop (length prefix) dir) then kNone
         else if List.member
             (map (\<lambda>d. prefix @ d)
               [''lost+found'', ''system_ce'', ''system_de'', ''misc_ce'', ''misc_de'',
                ''vendor_ce'', ''vendor_de'', ''media'', ''data'', ''user'',
                ''user_de'', ''apex'', ''preloads'', ''app-staging'', ''gsi'']) dir
           then kNone
         else if List.member (map (\<lambda>d. prefix @ d) [''rollback'', ''rollback-observer'']) dir
           then kDeleteIfNecessary
         else kRequire)"

record MkdirOptions =
  mk_target :: string
  mk_mode :: "32 word"
  mk_uid :: "32 word"
  mk_gid :: "32 word"
  mk_fscrypt_action :: FscryptAction
  mk_ref_option :: string

text \<open>The options while the loop runs, with the two flags \<^verbatim>\<open>set_option_...\<close>.\<close>

type_synonym mkdir_state = "MkdirOptions \<times> bool \<times> bool"

definition mkdir_option :: "libbase \<Rightarrow> string \<Rightarrow> mkdir_state \<Rightarrow> mkdir_state result" where
  "mkdir_option lb arg st =
     (case st of (mo, set_encryption, set_key) \<Rightarrow>
        (case Split lb arg ''='' of
           [optname, optval] \<Rightarrow>
             if optname = ''encryption'' then
               (if set_encryption then Err (Error (''Duplicated option: '' @ quoted optname))
                else if optval = ''Require'' then
                  Ok (mo\<lparr>mk_fscrypt_action := kRequire\<rparr>, True, set_key)
                else if optval = ''None'' then
                  Ok (mo\<lparr>mk_fscrypt_action := kNone\<rparr>, True, set_key)
                else if optval = ''Attempt'' then
                  Ok (mo\<lparr>mk_fscrypt_action := kAttempt\<rparr>, True, set_key)
                else if optval = ''DeleteIfNecessary'' then
                  Ok (mo\<lparr>mk_fscrypt_action := kDeleteIfNecessary\<rparr>, True, set_key)
                else Err (Error (''Unknown encryption option: '' @ quoted optval)))
             else if optname = ''key'' then
               (if set_key then Err (Error (''Duplicated option: '' @ quoted optname))
                else if optval = ''ref'' \<or> optval = ''per_boot_ref'' then
                  Ok (mo\<lparr>mk_ref_option := optval\<rparr>, set_encryption, True)
                else Err (Error (''Unknown key option: '' @ quoted optval)))
             else Err (Error (''Unknown option: '' @ quoted arg))
         | _ \<Rightarrow> Err (Error (''Can'' @ [APOSTROPHE] @ ''t parse option: '' @ quoted arg))))"

definition mkdir_arg ::
  "libbase \<Rightarrow> (string \<Rightarrow> 32 word option) \<Rightarrow> nat \<times> string \<Rightarrow> mkdir_state \<Rightarrow> mkdir_state result" where
  "mkdir_arg lb getpwnam iarg st =
     (case iarg of (i, arg) \<Rightarrow> case st of (mo, set_encryption, set_key) \<Rightarrow>
        if i = 2 then Ok (mo\<lparr>mk_mode := ucast (fst (strtoul 8 arg))\<rparr>, set_encryption, set_key)
        else if i = 3 then
          (case DecodeUid getpwnam arg of
             Inl e \<Rightarrow> Err (Error (''Unable to decode UID for '' @ quoted arg @ '': '' @ message e))
           | Inr u \<Rightarrow> Ok (mo\<lparr>mk_uid := u\<rparr>, set_encryption, set_key))
        else if i = 4 then
          (case DecodeUid getpwnam arg of
             Inl e \<Rightarrow> Err (Error (''Unable to decode GID for '' @ quoted arg @ '': '' @ message e))
           | Inr g \<Rightarrow> Ok (mo\<lparr>mk_gid := g\<rparr>, set_encryption, set_key))
        else mkdir_option lb arg st)"

text \<open>
  \<open>args\<close> has the command name in front; \<^verbatim>\<open>mkdir\<close> is registered with at least one
  argument, so \<open>args ! 1\<close> exists.
\<close>

definition ParseMkdir ::
  "libbase \<Rightarrow> (string \<Rightarrow> 32 word option) \<Rightarrow> string list \<Rightarrow> MkdirOptions result" where
  "ParseMkdir lb getpwnam args =
     rbind
       (rfold (mkdir_arg lb getpwnam) (enumerate 2 (drop 2 args))
          (\<lparr>mk_target = args ! 1, mk_mode = 493, mk_uid = - 1, mk_gid = - 1,
            mk_fscrypt_action = FscryptInferAction lb (args ! 1), mk_ref_option = ''ref''\<rparr>,
           False, False))
       (\<lambda>(mo, set_encryption, set_key).
          if set_key \<and> mk_fscrypt_action mo = kNone
          then Err (Error ''Key option set but encryption action is none'')
          else Ok mo)"

datatype mount_mode = MOUNT_MODE_DEFAULT | MOUNT_MODE_EARLY | MOUNT_MODE_LATE

record MountAllOptions =
  rc_paths :: "string list"
  fstab_path :: string
  mnt_mode :: mount_mode
  import_rc :: bool

definition mount_all_arg ::
  "string list \<Rightarrow> nat \<Rightarrow> nat \<times> mount_mode \<times> bool \<Rightarrow> nat \<times> mount_mode \<times> bool" where
  "mount_all_arg args na st =
     (case st of (first_option_arg, mode, imp) \<Rightarrow>
        if args ! na = ''--early'' then (na, MOUNT_MODE_EARLY, imp)
        else if args ! na = ''--late'' then (na, MOUNT_MODE_LATE, False)
        else st)"

definition ParseMountAll :: "int \<Rightarrow> string list \<Rightarrow> MountAllOptions result" where
  "ParseMountAll version args =
     (let compat_mode = (version \<le> API_Q)
      in if compat_mode \<and> length args \<le> 1
         then Err (Error ''mount_all requires at least 1 argument'')
         else
           (case fold (mount_all_arg args) (rev [(if compat_mode then 2 else 1)..<length args])
                   (length args, MOUNT_MODE_DEFAULT, compat_mode) of
              (first_option_arg, mode, imp) \<Rightarrow>
                if \<not> 1 < first_option_arg \<and> compat_mode
                then Err (Error ''mount_all argument 1 must be the fstab path'')
                else Ok \<lparr>rc_paths = map (\<lambda>na. args ! na) [2..<first_option_arg],
                         fstab_path = (if 1 < first_option_arg then args ! 1 else []),
                         mnt_mode = mode, import_rc = imp\<rparr>))"

text \<open>\<open>flags\<close> is the table of libselinux flag values.\<close>

fun restorecon_args ::
  "libbase \<Rightarrow> (string \<times> 32 word) list \<Rightarrow> string list \<Rightarrow> 32 word \<Rightarrow> string list \<Rightarrow> bool \<Rightarrow>
   (32 word \<times> string list) result" where
  "restorecon_args lb flags [] flag paths in_flags = Ok (flag, paths)"
| "restorecon_args lb flags (a # as) flag paths in_flags =
     (if StartsWith lb a ''--'' then
        (if \<not> in_flags then Err (Error ''flags must precede paths'')
         else
           (case map_of flags a of
              None \<Rightarrow> Err (Error (''bad flag '' @ a))
            | Some v \<Rightarrow> restorecon_args lb flags as (flag OR v) paths in_flags))
      else restorecon_args lb flags as flag (paths @ [a]) False)"

record restorecon_flag_values =
  RESTORECON_RECURSE :: "32 word"
  RESTORECON_SKIPCE :: "32 word"
  RESTORECON_CROSS_FILESYSTEMS :: "32 word"

definition ParseRestorecon ::
  "libbase \<Rightarrow> restorecon_flag_values \<Rightarrow> string list \<Rightarrow> (32 word \<times> string list) result" where
  "ParseRestorecon lb rf args =
     restorecon_args lb
       [(''--recursive'', RESTORECON_RECURSE rf), (''--skip-ce'', RESTORECON_SKIPCE rf),
        (''--cross-filesystems'', RESTORECON_CROSS_FILESYSTEMS rf)]
       (drop 1 args) 0 [] True"

definition ParseSwaponAll :: "int \<Rightarrow> string list \<Rightarrow> string result" where
  "ParseSwaponAll version args =
     (if length args \<le> 1 then
        (if version \<le> API_Q then Err (Error ''swapon_all requires at least 1 argument'') else Ok [])
      else Ok (args ! 1))"

definition ParseUmountAll :: "int \<Rightarrow> string list \<Rightarrow> string result" where
  "ParseUmountAll version args =
     (if length args \<le> 1 then
        (if version \<le> API_Q then Err (Error ''umount_all requires at least 1 argument'') else Ok [])
      else Ok (args ! 1))"

section \<open>What an expansion means\<close>

text \<open>
  A template is a sequence of literal texts, escaped dollar signs and references with an
  optional default; \<open>render\<close> writes it the way a script does.
\<close>

datatype segment = Literal string | Dollar | Reference string string

fun render :: "segment \<Rightarrow> string" where
  "render (Literal t) = t"
| "render Dollar = ''$$''"
| "render (Reference n d) = ''${'' @ n @ (if d = [] then [] else '':-'' @ d) @ ''}''"

fun wf_segment :: "segment \<Rightarrow> bool" where
  "wf_segment (Literal t) = (CHR ''$'' \<notin> set t \<and> NUL \<notin> set t)"
| "wf_segment Dollar = True"
| "wf_segment (Reference n d) =
     (n \<noteq> [] \<and> find_str '':-'' n = None \<and> CHR ''}'' \<notin> set (n @ d) \<and> NUL \<notin> set (n @ d))"

fun segment_value :: "(string \<Rightarrow> string) \<Rightarrow> segment \<Rightarrow> string option" where
  "segment_value props (Literal t) = Some t"
| "segment_value props Dollar = Some ''$''"
| "segment_value props (Reference n d) =
     (if props n \<noteq> [] then Some (props n) else if d \<noteq> [] then Some d else None)"

fun template_value :: "(string \<Rightarrow> string) \<Rightarrow> segment list \<Rightarrow> string option" where
  "template_value props [] = Some []"
| "template_value props (g # gs) =
     (case segment_value props g of
        None \<Rightarrow> None
      | Some v \<Rightarrow> map_option (\<lambda>r. v @ r) (template_value props gs))"

lemma find_char_append:
  "find_char c (xs @ ys) =
     (case find_char c xs of Some i \<Rightarrow> Some i | None \<Rightarrow> map_option (\<lambda>i. length xs + i) (find_char c ys))"
  by (induction xs; cases "find_char c ys") (auto split: option.splits)

lemma find_char_mid: "c \<notin> set xs \<Longrightarrow> find_char c (xs @ c # ys) = Some (length xs)"
  by (induction xs) auto

lemma find_char_absent: "c \<notin> set xs \<Longrightarrow> find_char c xs = None"
  by (simp add: find_char_None)

lemma find_default: "find_str '':-'' n = None \<Longrightarrow> find_str '':-'' (n @ CHR '':'' # CHR ''-'' # d) = Some (length n)"
proof (induction n)
  case Nil
  then show ?case by simp
next
  case (Cons c n)
  then show ?case by (cases n) (auto split: if_splits)
qed

lemma split_default_render:
  "find_str '':-'' n = None \<Longrightarrow> split_default (n @ (if d = [] then [] else '':-'' @ d)) = (n, d)"
  by (simp add: split_default_def find_default)

lemma expand_loop_literal:
  "CHR ''$'' \<notin> set t \<Longrightarrow>
   expand_loop props v src (t @ rest) dst = expand_loop props v src rest (dst @ t)"
proof (cases "find_char (CHR ''$'') rest")
  case None
  assume t: "CHR ''$'' \<notin> set t"
  show ?thesis
    unfolding expand_loop.simps [of props v src "t @ rest"] expand_loop.simps [of props v src rest]
    using t None by (simp add: find_char_append find_char_absent)
next
  case (Some i)
  assume t: "CHR ''$'' \<notin> set t"
  have "t @ rest \<noteq> []" "rest \<noteq> []" using Some by auto
  moreover have "drop (length t + i + 1) (t @ rest) = drop (i + 1) rest"
    "take (length t + i) (t @ rest) = t @ take i rest" by simp_all
  moreover have "find_char (CHR ''$'') (t @ rest) = Some (length t + i)"
    using t Some by (simp add: find_char_append find_char_absent)
  ultimately show ?thesis
    unfolding expand_loop.simps [of props v src "t @ rest"] expand_loop.simps [of props v src rest]
    using Some by (simp split: list.split option.split prod.split sum.split)
qed

lemma expand_loop_braces:
  assumes "CHR ''}'' \<notin> set body" "split_default body = (n, d)"
  shows "expand_loop props v src (''${'' @ body @ ''}'' @ rest) dst =
     (case expand_property props src n d of
        Inl e \<Rightarrow> Inl e
      | Inr x \<Rightarrow> expand_loop props v src rest (dst @ x))"
  using find_char_mid [OF assms(1), of rest] assms(2)
  by (subst expand_loop.simps) (simp split: sum.split)

lemma expand_loop_reference:
  assumes "wf_segment (Reference n d)"
  shows "expand_loop props v src (render (Reference n d) @ rest) dst =
     (case expand_property props src n d of
        Inl e \<Rightarrow> Inl e
      | Inr x \<Rightarrow> expand_loop props v src rest (dst @ x))"
  using assms expand_loop_braces [OF _ split_default_render [of n d], of props v src rest dst] by auto

lemma expand_property_value:
  assumes "n \<noteq> []"
  shows "expand_property props src n d =
     (case segment_value props (Reference n d) of
        Some x \<Rightarrow> Inr x
      | None \<Rightarrow> Inl (Error (''property '' @ quoted n @ '' doesn'' @ [APOSTROPHE] @
                  ''t exist while expanding '' @ quoted src)))"
  using assms by (simp add: expand_property_def)

lemma expand_loop_template:
  "list_all wf_segment gs \<Longrightarrow>
   (case template_value props gs of
      Some x \<Rightarrow> expand_loop props v src (concat (map render gs)) dst = Inr (dst @ x)
    | None \<Rightarrow> \<not> ok (expand_loop props v src (concat (map render gs)) dst))"
proof (induction gs arbitrary: dst)
  case Nil
  then show ?case by (simp add: expand_loop.simps)
next
  case (Cons g gs)
  let ?rest = "concat (map render gs)"
  have step: "case segment_value props g of
      Some x \<Rightarrow> expand_loop props v src (render g @ ?rest) dst = expand_loop props v src ?rest (dst @ x)
    | None \<Rightarrow> \<not> ok (expand_loop props v src (render g @ ?rest) dst)"
  proof (cases g)
    case (Literal t)
    then show ?thesis using Cons.prems expand_loop_literal by simp
  next
    case Dollar
    then show ?thesis by (subst expand_loop.simps) simp
  next
    case (Reference n d)
    then show ?thesis
      using Cons.prems expand_loop_reference [of n d props v src ?rest dst]
      by (cases "props n = []"; cases "d = []") (simp_all add: expand_property_value)
  qed
  show ?case
  proof (cases "segment_value props g")
    case None
    then show ?thesis using step by simp
  next
    case (Some x)
    then show ?thesis
      using step Cons.IH [of "dst @ x"] Cons.prems by (cases "template_value props gs") auto
  qed
qed

lemma render_no_NUL: "wf_segment g \<Longrightarrow> NUL \<notin> set (render g)"
  by (cases g) auto

lemma c_str_id: "NUL \<notin> set s \<Longrightarrow> c_str s = s"
  by (simp add: c_str_def takeWhile_eq_all_conv) blast

section \<open>Legal names are dotted paths\<close>

fun dotted :: "bool \<Rightarrow> string \<Rightarrow> bool" where
  "dotted start [] = (\<not> start)"
| "dotted start (c # cs) =
     (if c = CHR ''.'' then \<not> start \<and> dotted True cs else legal_char c \<and> dotted False cs)"

lemma dotted_index:
  "dotted start cs \<longleftrightarrow>
     (\<forall>i < length cs. if cs ! i = CHR ''.'' then (if i = 0 then \<not> start else cs ! (i - 1) \<noteq> CHR ''.'')
                      else legal_char (cs ! i)) \<and>
     (if cs = [] then \<not> start else last cs \<noteq> CHR ''.'')"
proof (induction cs arbitrary: start)
  case Nil
  then show ?case by simp
next
  case (Cons c cs)
  have "dotted start (c # cs) \<longleftrightarrow>
      (if c = CHR ''.'' then \<not> start else legal_char c) \<and> dotted (c = CHR ''.'') cs"
    by simp
  then show ?case unfolding Cons.IH [of "c = CHR ''.''"]
    by (simp only: length_Cons All_less_Suc2) (auto simp: nth_Cons')
qed

lemma legal_name_dotted: "IsLegalPropertyName name \<longleftrightarrow> dotted True name"
proof (cases "name = []")
  case True
  then show ?thesis by (simp add: IsLegalPropertyName_def)
next
  case False
  then show ?thesis
    by (auto simp: IsLegalPropertyName_def Let_def dotted_index last_conv_nth list_all_iff)
qed

lemma dotted_piece:
  "CHR ''.'' \<notin> set a \<Longrightarrow>
   dotted start (a @ CHR ''.'' # r) \<longleftrightarrow> (a \<noteq> [] \<or> \<not> start) \<and> list_all legal_char a \<and> dotted True r"
  "CHR ''.'' \<notin> set a \<Longrightarrow> dotted start a \<longleftrightarrow> (a \<noteq> [] \<or> \<not> start) \<and> list_all legal_char a"
  by (induction a arbitrary: start) auto

lemma legal_name_split:
  assumes "libbase_api lb"
  shows "IsLegalPropertyName name \<longleftrightarrow>
         list_all (\<lambda>p. p \<noteq> [] \<and> list_all legal_char p) (Split lb name ''.'')"
  unfolding legal_name_dotted
proof (induction "length name" arbitrary: name rule: less_induct)
  case less
  show ?case
  proof (cases "CHR ''.'' \<in> set name")
    case True
    then obtain a r where n: "name = a @ CHR ''.'' # r" "CHR ''.'' \<notin> set a" by (meson split_list_first)
    then show ?thesis
      using less.hyps [of r] by (simp add: dotted_piece libbase_api.Split_step [OF assms])
  next
    case False
    then show ?thesis by (simp add: dotted_piece libbase_api.Split_last [OF assms])
  qed
qed

section \<open>Properties\<close>

text \<open>
  Expanding a template replaces every reference by the property's value, or by its
  default where the property is empty, turns \<^verbatim>\<open>$$\<close> into \<^verbatim>\<open>$\<close> and copies the rest; values
  are not expanded again. It fails exactly when a reference has neither a value nor a default.
\<close>

theorem ExpandProps_template:
  assumes "list_all wf_segment gs"
  shows "case template_value props gs of
           Some x \<Rightarrow> ExpandProps props version (concat (map render gs)) = Inr x
         | None \<Rightarrow> \<not> ok (ExpandProps props version (concat (map render gs)))"
proof -
  have "NUL \<notin> set (concat (map render gs))"
    using assms render_no_NUL by (auto simp: list_all_iff)
  then show ?thesis
    using expand_loop_template [OF assms, of props version "concat (map render gs)" "[]"]
    by (simp add: ExpandProps_def c_str_id split: option.splits)
qed

theorem ExpandProps_template_witness:
  "ExpandProps (\<lambda>n. if n = ''ro.hardware'' then ''$soc'' else []) 30
     ''/init.${ro.hardware}.${x:-y}$$.rc'' = Inr ''/init.$soc.y$.rc''"
  using ExpandProps_template
    [of "[Literal ''/init.'', Reference ''ro.hardware'' [], Literal ''.'', Reference ''x'' ''y'',
          Dollar, Literal ''.rc'']" "\<lambda>n. if n = ''ro.hardware'' then ''$soc'' else []" 30]
  by simp

text \<open>
  A property name is legal exactly when it is a dot-separated sequence of non-empty
  pieces over letters, digits, underscore, dash, at sign and colon.
\<close>

theorem IsLegalPropertyName_pieces:
  assumes "libbase_api lb"
  shows "IsLegalPropertyName name \<longleftrightarrow>
         list_all (\<lambda>p. p \<noteq> [] \<and> list_all legal_char p) (Split lb name ''.'')"
  using assms by (rule legal_name_split)

theorem IsLegalPropertyName_pieces_witness:
  "IsLegalPropertyName ''persist.sys.locale'' \<and> \<not> IsLegalPropertyName ''ro..x''"
proof -
  have s: "Split ref_libbase ''persist.sys.locale'' ''.'' = [''persist'', ''sys'', ''locale'']"
    "Split ref_libbase ''ro..x'' ''.'' = [''ro'', [], ''x'']"
    by (simp_all add: ref_libbase_def)
  show ?thesis
    unfolding IsLegalPropertyName_pieces [OF ref_libbase_api] s
    by (simp add: legal_char_def c_islower_def code_of_def)
qed

end
