(* ===== verification/Rc_Parser.thy ===== *)
theory Rc_Parser
  imports Tokenizer Util Innit_Policy "HOL-Library.Char_ord" "HOL-Library.List_Lexorder"
begin

text \<open>
  The script parser (\<^verbatim>\<open>init/parser.cpp\<close>, \<^verbatim>\<open>init/parser.h\<close>) and the import statement
  (\<^verbatim>\<open>init/import_parser.cpp\<close>). A section parser is a record of functions on the state; the
  state of all section parsers and of the lists they fill is the field \<open>rc_world\<close>. Parsing a
  file may parse others at its end (imports), and imports may form a cycle, so the recursion
  is bounded by fuel and running out of it is \<open>None\<close>.
\<close>

section \<open>Section parsers\<close>

record 's section_parser =
  ParseSection :: "string list \<Rightarrow> string \<Rightarrow> nat \<Rightarrow> 's \<Rightarrow> unit result \<times> 's"
  ParseLineSection :: "string list \<Rightarrow> nat \<Rightarrow> 's \<Rightarrow> unit result \<times> 's"
  EndSection :: "'s \<Rightarrow> unit result \<times> 's"
  EndFile :: "'s \<Rightarrow> 's option"

text \<open>
  What lives as long as a parser: its error count, the fields of the import parser, the
  rejection log of the policy, and the world the section parsers write to.
\<close>

record 'w rc_state =
  parse_error_count :: nat
  rc_imports :: "(string \<times> nat) list"
  import_filename :: string
  rc_log :: "log_event list"
  rc_world :: 'w

record 'w parser =
  section_parsers :: "(string \<times> 'w rc_state section_parser) list"
  line_callbacks :: "(string \<times> (string list \<Rightarrow> 'w rc_state \<Rightarrow> unit result \<times> 'w rc_state)) list"

definition empty_parser :: "'w parser" where
  "empty_parser = \<lparr>section_parsers = [], line_callbacks = []\<rparr>"

text \<open>\<^verbatim>\<open>section_parsers_\<close> is a \<^verbatim>\<open>std::map\<close>: kept in the order of its keys.\<close>

fun map_insert :: "'k::linorder \<Rightarrow> 'v \<Rightarrow> ('k \<times> 'v) list \<Rightarrow> ('k \<times> 'v) list" where
  "map_insert k v [] = [(k, v)]"
| "map_insert k v ((j, u) # m) =
     (if k < j then (k, v) # (j, u) # m else if k = j then (k, v) # m else (j, u) # map_insert k v m)"

definition AddSectionParser :: "string \<Rightarrow> 'w rc_state section_parser \<Rightarrow> 'w parser \<Rightarrow> 'w parser" where
  "AddSectionParser name sp p = p\<lparr>section_parsers := map_insert name sp (section_parsers p)\<rparr>"

definition AddSingleLineParser ::
  "string \<Rightarrow> (string list \<Rightarrow> 'w rc_state \<Rightarrow> unit result \<times> 'w rc_state) \<Rightarrow> 'w parser \<Rightarrow> 'w parser" where
  "AddSingleLineParser pfx callback p = p\<lparr>line_callbacks := line_callbacks p @ [(pfx, callback)]\<rparr>"

section \<open>Parsing one file\<close>

text \<open>The local variables of \<^verbatim>\<open>ParseData\<close> beside the tokenizer and \<^verbatim>\<open>args\<close>.\<close>

record 'w data_state =
  ds_rs :: "'w rc_state"
  ds_section :: "'w rc_state section_parser option"
  section_start_line :: int
  bad_section_found :: bool

definition count_error :: "unit result \<times> 'w rc_state \<Rightarrow> 'w rc_state" where
  "count_error r =
     (case r of
        (Inl _, rs) \<Rightarrow> rs\<lparr>parse_error_count := parse_error_count rs + 1\<rparr>
      | (Inr _, rs) \<Rightarrow> rs)"

definition end_section :: "'w data_state \<Rightarrow> 'w data_state" where
  "end_section ds =
     (case ds_section ds of
        None \<Rightarrow> ds\<lparr>bad_section_found := False\<rparr>
      | Some sp \<Rightarrow>
          ds\<lparr>bad_section_found := False, ds_rs := count_error (EndSection sp (ds_rs ds)),
             ds_section := None, section_start_line := - 1\<rparr>)"

definition parse_line ::
  "libbase \<Rightarrow> 'w parser \<Rightarrow> string \<Rightarrow> nat \<times> string list \<Rightarrow> 'w data_state \<Rightarrow> 'w data_state" where
  "parse_line lb p filename numbered ds =
     (case numbered of (line, args) \<Rightarrow>
        (case find (\<lambda>c. StartsWith lb (args ! 0) (fst c)) (line_callbacks p) of
           Some (_, callback) \<Rightarrow>
             (let ds = end_section ds in ds\<lparr>ds_rs := count_error (callback args (ds_rs ds))\<rparr>)
         | None \<Rightarrow>
             (case map_of (section_parsers p) (args ! 0) of
                Some sp \<Rightarrow>
                  (let ds = end_section ds;
                       r = ParseSection sp args filename line (ds_rs ds);
                       ds = ds\<lparr>section_start_line := int line, ds_rs := count_error r\<rparr>
                   in if ok (fst r) then ds\<lparr>ds_section := Some sp\<rparr>
                      else ds\<lparr>ds_section := None, bad_section_found := True\<rparr>)
              | None \<Rightarrow>
                  (case ds_section ds of
                     Some sp \<Rightarrow> ds\<lparr>ds_rs := count_error (ParseLineSection sp args line (ds_rs ds))\<rparr>
                   | None \<Rightarrow>
                       if \<not> bad_section_found ds
                       then ds\<lparr>ds_rs := (ds_rs ds)\<lparr>parse_error_count := parse_error_count (ds_rs ds) + 1\<rparr>\<rparr>
                       else ds))))"

fun ofold :: "('a \<Rightarrow> 's \<Rightarrow> 's option) \<Rightarrow> 'a list \<Rightarrow> 's \<Rightarrow> 's option" where
  "ofold f [] s = Some s"
| "ofold f (x # xs) s = (case f x s of None \<Rightarrow> None | Some t \<Rightarrow> ofold f xs t)"

definition parse_eof :: "'w parser \<Rightarrow> 'w data_state \<Rightarrow> 'w rc_state option" where
  "parse_eof p ds = ofold (\<lambda>nsp. EndFile (snd nsp)) (section_parsers p) (ds_rs (end_section ds))"

function data_loop ::
  "libbase \<Rightarrow> 'w parser \<Rightarrow> string \<Rightarrow> parse_state \<Rightarrow> string list \<Rightarrow> 'w data_state \<Rightarrow> 'w rc_state option" where
  "data_loop lb p filename st args ds =
     (case next_token st of
        None \<Rightarrow> None
      | Some (T_EOF, st') \<Rightarrow> parse_eof p ds
      | Some (T_NEWLINE, st') \<Rightarrow>
          (let st' = st'\<lparr>ps_line := ps_line st' + 1\<rparr>
           in if args = [] then data_loop lb p filename st' [] ds
              else data_loop lb p filename st' [] (parse_line lb p filename (ps_line st', args) ds))
      | Some (T_TEXT, st') \<Rightarrow> data_loop lb p filename st' (args @ [token_text st']) ds)"
  by pat_completeness auto
termination
  by (relation "measure (\<lambda>(lb, p, f, st, a, d). unread st)")
     (auto dest!: next_token_progress simp: unread_def)

declare data_loop.simps [simp del]

definition start_state :: "'w rc_state \<Rightarrow> 'w data_state" where
  "start_state rs =
     \<lparr>ds_rs = rs, ds_section = None, section_start_line = - 1, bad_section_found = False\<rparr>"

definition ParseData ::
  "libbase \<Rightarrow> 'w parser \<Rightarrow> string \<Rightarrow> string \<Rightarrow> 'w rc_state \<Rightarrow> 'w rc_state option" where
  "ParseData lb p filename data rs =
     data_loop lb p filename
       \<lparr>ps_buf = data @ [LF, NUL], ps_ptr = 0, ps_text = 0, ps_line = 0, nexttoken = False\<rparr>
       [] (start_state rs)"

section \<open>Parsing configurations\<close>

text \<open>
  What the parser reads of its surroundings: the file system, the active policy with its
  log files, the properties and the vendor API level.
\<close>

record rc_env =
  rc_files :: "string \<Rightarrow> open_file option"
  is_dir :: "string \<Rightarrow> bool"
  read_dir :: "string \<Rightarrow> (string \<times> bool) list option"
  rc_policy :: "InnitPolicy option"
  rc_log_env :: log_env
  rc_props :: "string \<Rightarrow> string"
  rc_version :: int

definition rc_allowed :: "rc_env \<Rightarrow> string \<Rightarrow> bool \<times> log_event list" where
  "rc_allowed env path = innit_gate IsRcAllowed (rc_log_env env) (rc_policy env) path"

definition log_rc :: "log_event list \<Rightarrow> 'w rc_state \<Rightarrow> 'w rc_state" where
  "log_rc evs rs = rs\<lparr>rc_log := rc_log rs @ evs\<rparr>"

definition ParseConfigFileInsecure ::
  "libbase \<Rightarrow> rc_env \<Rightarrow> 'w parser \<Rightarrow> string \<Rightarrow> 'w rc_state \<Rightarrow> (bool \<times> 'w rc_state) option" where
  "ParseConfigFileInsecure lb env p path rs =
     (case rc_files env path of
        None \<Rightarrow> Some (False, rs)
      | Some f \<Rightarrow>
          (case file_content f of
             None \<Rightarrow> Some (False, rs)
           | Some config_contents \<Rightarrow> map_option (Pair True) (ParseData lb p path config_contents rs)))"

definition ParseConfigFile ::
  "libbase \<Rightarrow> rc_env \<Rightarrow> 'w parser \<Rightarrow> string \<Rightarrow> 'w rc_state \<Rightarrow> (bool \<times> 'w rc_state) option" where
  "ParseConfigFile lb env p path rs =
     (case rc_allowed env path of (allowed, evs) \<Rightarrow>
        let rs = log_rc evs rs
        in if \<not> allowed then Some (True, rs)
           else
             (case ReadFile (rc_files env) path of
                Inl _ \<Rightarrow> Some (False, rs)
              | Inr config_contents \<Rightarrow> map_option (Pair True) (ParseData lb p path config_contents rs)))"

definition dir_files :: "string \<Rightarrow> (string \<times> bool) list \<Rightarrow> string list" where
  "dir_files path entries =
     sort (map (\<lambda>e. path @ ''/'' @ fst e) (filter snd entries))"

definition ParseConfigDir ::
  "libbase \<Rightarrow> rc_env \<Rightarrow> 'w parser \<Rightarrow> string \<Rightarrow> 'w rc_state \<Rightarrow> (bool \<times> 'w rc_state) option" where
  "ParseConfigDir lb env p path rs =
     (case rc_allowed env path of (allowed, evs) \<Rightarrow>
        let rs = log_rc evs rs
        in if \<not> allowed then Some (True, rs)
           else
             (case read_dir env path of
                None \<Rightarrow> Some (False, rs)
              | Some entries \<Rightarrow>
                  map_option (Pair True)
                    (ofold (\<lambda>f rs. map_option snd (ParseConfigFile lb env p f rs))
                      (dir_files path entries) rs)))"

definition parse_config_with ::
  "libbase \<Rightarrow> rc_env \<Rightarrow> 'w parser \<Rightarrow> string \<Rightarrow> 'w rc_state \<Rightarrow> (bool \<times> 'w rc_state) option" where
  "parse_config_with lb env p path rs =
     (if is_dir env path then ParseConfigDir lb env p path rs else ParseConfigFile lb env p path rs)"

text \<open>
  The section parsers hold a pointer to the parser they belong to. \<open>mk\<close> builds the parser
  from the function that parses a path, which has one unit of fuel less.
\<close>

fun ParseConfig ::
  "libbase \<Rightarrow> rc_env \<Rightarrow> ((string \<Rightarrow> 'w rc_state \<Rightarrow> (bool \<times> 'w rc_state) option) \<Rightarrow> 'w parser) \<Rightarrow> nat \<Rightarrow>
   string \<Rightarrow> 'w rc_state \<Rightarrow> (bool \<times> 'w rc_state) option" where
  "ParseConfig lb env mk 0 path rs = None"
| "ParseConfig lb env mk (Suc fuel) path rs =
     parse_config_with lb env (mk (ParseConfig lb env mk fuel)) path rs"

section \<open>Imports\<close>

definition ImportParser_ParseSection ::
  "rc_env \<Rightarrow> string list \<Rightarrow> string \<Rightarrow> nat \<Rightarrow> 'w rc_state \<Rightarrow> unit result \<times> 'w rc_state" where
  "ImportParser_ParseSection env args filename line rs =
     (if length args \<noteq> 2 then (Err (Error (''single argument needed for import'' @ [LF])), rs)
      else
        (case ExpandProps (rc_props env) (rc_version env) (args ! 1) of
           Inl e \<Rightarrow> (Err (Error (''Could not expand import: '' @ message e)), rs)
         | Inr conf_file \<Rightarrow>
             (case rc_allowed env conf_file of (allowed, evs) \<Rightarrow>
                let rs = log_rc evs rs
                in if \<not> allowed then (Ok (), rs)
                   else
                     (Ok (), rs\<lparr>import_filename :=
                                  (if import_filename rs = [] then filename else import_filename rs),
                                rc_imports := rc_imports rs @ [(conf_file, line)]\<rparr>))))"

definition ImportParser_ParseLineSection ::
  "string list \<Rightarrow> nat \<Rightarrow> 'w rc_state \<Rightarrow> unit result \<times> 'w rc_state" where
  "ImportParser_ParseLineSection args line rs =
     (Err (Error ''Unexpected line found after import statement''), rs)"

definition ImportParser_EndFile ::
  "(string \<Rightarrow> 'w rc_state \<Rightarrow> (bool \<times> 'w rc_state) option) \<Rightarrow> 'w rc_state \<Rightarrow> 'w rc_state option" where
  "ImportParser_EndFile parse_config rs =
     ofold (\<lambda>imp rs. map_option snd (parse_config (fst imp) rs)) (rc_imports rs) (rs\<lparr>rc_imports := []\<rparr>)"

definition ImportParser ::
  "rc_env \<Rightarrow> (string \<Rightarrow> 'w rc_state \<Rightarrow> (bool \<times> 'w rc_state) option) \<Rightarrow> 'w rc_state section_parser" where
  "ImportParser env parse_config =
     \<lparr>ParseSection = ImportParser_ParseSection env,
      ParseLineSection = ImportParser_ParseLineSection,
      EndSection = (\<lambda>rs. (Ok (), rs)),
      EndFile = ImportParser_EndFile parse_config\<rparr>"

text \<open>The verifier on the build host only checks the form of an import.\<close>

definition HostImportParser :: "'w rc_state section_parser" where
  "HostImportParser =
     \<lparr>ParseSection = (\<lambda>args filename line rs.
        if length args \<noteq> 2 then (Err (Error (''single argument needed for import'' @ [LF])), rs)
        else (Ok (), rs)),
      ParseLineSection = (\<lambda>args line rs.
        (Err (Error ''Unexpected line found after import statement''), rs)),
      EndSection = (\<lambda>rs. (Ok (), rs)), EndFile = Some\<rparr>"

section \<open>A file is the fold of its lines\<close>

definition pending_lines :: "parse_state \<Rightarrow> string list \<Rightarrow> (nat \<times> string list) list" where
  "pending_lines st args =
     (if nexttoken st
      then with_line (ps_line st + 1) args (lex_lines (ps_line st + 1) [] (tok_rest st))
      else lex_lines (ps_line st) args (tok_rest st))"

lemma tok_frame [simp]:
  "tok_ready (st\<lparr>ps_line := n\<rparr>) = tok_ready st" "tok_ready (st\<lparr>nexttoken := b\<rparr>) = tok_ready st"
  "tok_rest (st\<lparr>ps_line := n\<rparr>) = tok_rest st" "tok_rest (st\<lparr>nexttoken := b\<rparr>) = tok_rest st"
  by (simp_all add: tok_ready_def tok_rest_def)

lemma data_loop_newline:
  assumes "next_token st = Some (T_NEWLINE, st')" "tok_ready st'" "\<not> nexttoken st'"
    and "\<And>args ds. data_loop lb p fn (st'\<lparr>ps_line := ps_line st' + 1\<rparr>) args ds =
           parse_eof p (fold (parse_line lb p fn) (pending_lines (st'\<lparr>ps_line := ps_line st' + 1\<rparr>) args) ds)"
  shows "data_loop lb p fn st args ds =
     parse_eof p (fold (parse_line lb p fn)
       (with_line (ps_line st' + 1) args (lex_lines (ps_line st' + 1) [] (tok_rest st'))) ds)"
  using assms by (simp add: data_loop.simps [of lb p fn st] with_line_def pending_lines_def Let_def)

lemma data_loop_lines:
  "tok_ready st \<Longrightarrow>
   data_loop lb p fn st args ds = parse_eof p (fold (parse_line lb p fn) (pending_lines st args) ds)"
proof (induction "unread st" arbitrary: st args ds rule: less_induct)
  case less
  have IH: "data_loop lb p fn (st'\<lparr>ps_line := n\<rparr>) args ds =
      parse_eof p (fold (parse_line lb p fn) (pending_lines (st'\<lparr>ps_line := n\<rparr>) args) ds)"
    if "next_token st = Some (t, st')" "t \<noteq> T_EOF" "tok_ready st'" for t st' n args ds
    using less.hyps [of "st'\<lparr>ps_line := n\<rparr>"] next_token_progress [OF that(1,2)] that(3)
    by (simp add: unread_def)
  show ?case
  proof (cases "nexttoken st")
    case True
    then have n: "next_token st = Some (T_NEWLINE, st\<lparr>nexttoken := False\<rparr>)" by (simp add: next_token_def)
    have r: "tok_ready (st\<lparr>nexttoken := False\<rparr>)" "\<not> nexttoken (st\<lparr>nexttoken := False\<rparr>)"
      using less.prems by simp_all
    show ?thesis
      using data_loop_newline [OF n r IH [OF n token_kind.distinct(4) r(1)]] True
      by (simp add: pending_lines_def)
  next
    case False
    note ok = next_token_lex [OF less.prems False]
    have pend: "pending_lines st args = lex_lines (ps_line st) args (tok_rest st)"
      using False by (simp add: pending_lines_def)
    show ?thesis
    proof (cases "lex_next (tok_rest st)")
      case None
      then show ?thesis
        using ok pend
        by (auto simp: token_ok_def data_loop.simps [of lb p fn st] lex_lines.simps [of _ _ "tok_rest st"])
    next
      case (Some q)
      obtain w r n nl where q: "q = (w, r, n, nl)" by (cases q) auto
      show ?thesis
      proof (cases w)
        case None
        with ok Some q obtain st' where t: "next_token st = Some (T_NEWLINE, st')" "tok_ready st'"
          "tok_rest st' = r" "ps_line st' = ps_line st" "\<not> nexttoken st'"
          by (auto simp: token_ok_def)
        then show ?thesis
          using data_loop_newline [OF t(1,2,5) IH [OF t(1) token_kind.distinct(4) t(2)]] pend Some q None
          by (simp add: lex_lines.simps [of _ _ "tok_rest st"])
      next
        case (Some w')
        with ok \<open>lex_next (tok_rest st) = Some q\<close> q obtain st' where
          t: "next_token st = Some (T_TEXT, st')" "tok_ready st'" "tok_rest st' = r"
          "ps_line st' = ps_line st + n" "nexttoken st' = nl" "token_text st' = w'"
          by (auto simp: token_ok_def)
        have "data_loop lb p fn st args ds = data_loop lb p fn st' (args @ [w']) ds"
          using t by (simp add: data_loop.simps [of lb p fn st])
        moreover have "data_loop lb p fn st' (args @ [w']) ds =
            parse_eof p (fold (parse_line lb p fn) (pending_lines st' (args @ [w'])) ds)"
          using less.hyps t(2) next_token_progress [OF t(1)] by simp
        moreover have "pending_lines st' (args @ [w']) = pending_lines st args"
          unfolding pend lex_lines.simps [of _ _ "tok_rest st"]
          using \<open>lex_next (tok_rest st) = Some q\<close> q Some t(3,4,5) by (simp add: pending_lines_def)
        ultimately show ?thesis by simp
      qed
    qed
  qed
qed

text \<open>The lines \<^verbatim>\<open>ParseData\<close> delivers: those of the data up to its first NUL, with a newline added.\<close>

definition file_lines :: "string \<Rightarrow> (nat \<times> string list) list" where
  "file_lines data = lex_lines 0 [] (c_str (data @ [LF]))"

lemma c_str_append_NUL: "c_str (s @ [NUL]) = c_str s"
  by (induction s) auto

lemma ParseData_fold:
  "ParseData lb p fn data rs = parse_eof p (fold (parse_line lb p fn) (file_lines data) (start_state rs))"
  using data_loop_lines [of "\<lparr>ps_buf = data @ [LF, NUL], ps_ptr = 0, ps_text = 0, ps_line = 0,
      nexttoken = False\<rparr>" lb p fn "[]" "start_state rs"] c_str_append_NUL [of "data @ [LF]"]
  by (simp add: ParseData_def tok_ready_def tok_rest_def pending_lines_def file_lines_def)

lemma file_lines_encode:
  assumes "list_all (\<lambda>ws. ws \<noteq> [] \<and> list_all (\<lambda>w. w \<noteq> [] \<and> NUL \<notin> set w) ws) lines"
  shows "file_lines (encode_lines lines) = enumerate 1 lines"
proof -
  have "NUL \<notin> set (encode_lines lines @ [LF])"
    using assms encode_no_NUL [of lines] by (simp add: list_all_iff)
  then have "c_str (encode_lines lines @ [LF]) = encode_lines lines @ [LF]" by (rule c_str_id)
  moreover have "lex_lines (length lines) [] [LF] = []"
    by (simp add: lex_lines.simps lex_next_def with_line_def)
  ultimately show ?thesis
    using lex_lines_encode [of lines 0 "[LF]"] assms by (simp add: file_lines_def list_all_iff)
qed

section \<open>Sections are closed\<close>

text \<open>
  The contract between the driver and the section parsers: \<open>idle\<close> states have no section under
  construction, \<open>active\<close> states have one. A parser is started in an idle state only, and a
  start that fails leaves the state idle. What the driver promises in return: when a file has
  been read, the state is idle again.
\<close>

locale section_contract =
  fixes p :: "'w parser"
    and idle :: "'w rc_state \<Rightarrow> bool"
    and active :: "'w rc_state section_parser \<Rightarrow> 'w rc_state \<Rightarrow> bool"
  assumes start: "(n, sp) \<in> set (section_parsers p) \<Longrightarrow> idle rs \<Longrightarrow>
      ParseSection sp args fn line rs = (r, rs') \<Longrightarrow> (if ok r then active sp rs' else idle rs')"
    and inside: "(n, sp) \<in> set (section_parsers p) \<Longrightarrow> active sp rs \<Longrightarrow>
      active sp (snd (ParseLineSection sp args line rs))"
    and finish: "(n, sp) \<in> set (section_parsers p) \<Longrightarrow> active sp rs \<Longrightarrow> idle (snd (EndSection sp rs))"
    and eof: "(n, sp) \<in> set (section_parsers p) \<Longrightarrow> idle rs \<Longrightarrow> EndFile sp rs = Some rs' \<Longrightarrow> idle rs'"
    and single: "(n, cb) \<in> set (line_callbacks p) \<Longrightarrow> idle rs \<Longrightarrow> idle (snd (cb args rs))"
    and counting: "idle (rs\<lparr>parse_error_count := k\<rparr>) = idle rs"
      "active sp (rs\<lparr>parse_error_count := k\<rparr>) = active sp rs"
begin

definition ready :: "'w data_state \<Rightarrow> bool" where
  "ready ds =
     (case ds_section ds of
        None \<Rightarrow> idle (ds_rs ds)
      | Some sp \<Rightarrow> active sp (ds_rs ds) \<and> (\<exists>n. (n, sp) \<in> set (section_parsers p)))"

lemma count_error_idle: "idle (count_error r) = idle (snd r)"
  by (cases r) (auto simp: count_error_def counting split: sum.split)

lemma count_error_active: "active sp (count_error r) = active sp (snd r)"
  by (cases r) (auto simp: count_error_def counting split: sum.split)

lemma end_section_ready: "ready ds \<Longrightarrow> ds_section (end_section ds) = None \<and> idle (ds_rs (end_section ds))"
  by (auto simp: ready_def end_section_def count_error_idle finish split: option.splits)

lemma parse_line_ready:
  assumes "ready ds"
  shows "ready (parse_line lb p fn nargs ds)"
proof -
  obtain line args where na: "nargs = (line, args)" by (cases nargs)
  note e = end_section_ready [OF assms]
  show ?thesis
  proof (cases "find (\<lambda>c. StartsWith lb (args ! 0) (fst c)) (line_callbacks p)")
    case (Some c)
    then obtain n cb where c: "c = (n, cb)" "(n, cb) \<in> set (line_callbacks p)"
      by (metis find_Some_iff nth_mem surj_pair)
    then show ?thesis
      using Some e na by (simp add: parse_line_def ready_def count_error_idle single Let_def)
  next
    case None
    note cb = None
    show ?thesis
    proof (cases "map_of (section_parsers p) (args ! 0)")
      case (Some sp)
      then have sp: "(args ! 0, sp) \<in> set (section_parsers p)" by (rule map_of_SomeD)
      obtain r rs' where r: "ParseSection sp args fn line (ds_rs (end_section ds)) = (r, rs')"
        by (cases "ParseSection sp args fn line (ds_rs (end_section ds))")
      show ?thesis
        using cb Some e na r sp start [OF sp conjunct2 [OF e] r]
        by (auto simp: parse_line_def ready_def count_error_idle count_error_active Let_def)
    next
      case None
      then show ?thesis
        using cb assms na
        by (auto simp: parse_line_def ready_def count_error_active counting inside split: option.splits)
    qed
  qed
qed

lemma EndFiles_idle:
  "set sps \<subseteq> set (section_parsers p) \<Longrightarrow> idle rs \<Longrightarrow> ofold (\<lambda>nsp. EndFile (snd nsp)) sps rs = Some rs' \<Longrightarrow>
   idle rs'"
  by (induction sps arbitrary: rs) (auto split: option.splits dest: eof)

lemma ParseData_idle:
  assumes "idle rs" "ParseData lb p fn data rs = Some rs'"
  shows "idle rs'"
proof -
  have "ready (fold (parse_line lb p fn) ls ds)" if "ready ds" for ls ds
    using that by (induction ls arbitrary: ds) (simp_all add: parse_line_ready)
  moreover have "ready (start_state rs)" using assms(1) by (simp add: ready_def start_state_def)
  ultimately have "idle (ds_rs (end_section (fold (parse_line lb p fn) (file_lines data) (start_state rs))))"
    using end_section_ready by blast
  then show ?thesis
    using assms(2) EndFiles_idle [OF subset_refl] by (simp add: ParseData_fold parse_eof_def)
qed

end

lemma ofold_invariant:
  "ofold f xs s = Some t \<Longrightarrow> P s \<Longrightarrow> (\<And>x s t. f x s = Some t \<Longrightarrow> P s \<Longrightarrow> P t) \<Longrightarrow> P t"
  by (induction xs arbitrary: s) (auto split: option.splits)

text \<open>States that do not depend on the log of the policy stay idle over whole files and directories.\<close>

locale logged_sections = section_contract +
  assumes logging: "idle (log_rc evs rs) = idle rs"
begin

lemma parse_file_idle:
  assumes "ParseConfigFile lb env p f rs = Some (b, rs')" "idle rs"
  shows "idle rs'"
  using assms ParseData_idle [of "log_rc evs rs" for evs] logging
  by (auto simp: ParseConfigFile_def Let_def split: prod.splits if_splits sum.splits)

lemma parse_files_idle:
  assumes "ofold (\<lambda>f rs. map_option snd (ParseConfigFile lb env p f rs)) fs rs = Some rs'" "idle rs"
  shows "idle rs'"
  by (rule ofold_invariant [OF assms(1), of idle, OF assms(2)]) (use parse_file_idle in auto)

lemma parse_config_idle:
  assumes "parse_config_with lb env p path rs = Some (b, rs')" "idle rs"
  shows "idle rs'"
proof -
  have "idle rs'" if "ParseConfigDir lb env p path rs = Some (b, rs')"
    using that assms(2) parse_files_idle [of lb env _ "log_rc evs rs" for evs] logging
    by (auto simp: ParseConfigDir_def Let_def split: prod.splits if_splits option.splits)
  then show ?thesis using assms parse_file_idle by (auto simp: parse_config_with_def split: if_splits)
qed

end

section \<open>Properties\<close>

text \<open>
  C10: for every content of a file, NUL characters and unterminated quotes included, the
  driver stays inside its buffer and stops, and its effect is that of handing the lines of the
  text to the section parsers one after the other, then closing the open section and telling
  every section parser that the file has ended.
\<close>

theorem ParseData_lines:
  "ParseData lb p filename data rs =
     parse_eof p (fold (parse_line lb p filename) (file_lines data) (start_state rs))"
  by (rule ParseData_fold)

text \<open>
  Any list of lines of non-empty words without NUL can be written to a file from which
  the driver reads exactly these words, with consecutive line numbers from 1.
\<close>

theorem ParseData_roundtrip:
  assumes "list_all (\<lambda>ws. ws \<noteq> [] \<and> list_all (\<lambda>w. w \<noteq> [] \<and> NUL \<notin> set w) ws) lines"
  shows "ParseData lb p filename (encode_lines lines) rs =
         parse_eof p (fold (parse_line lb p filename) (enumerate 1 lines) (start_state rs))"
  by (simp add: ParseData_fold file_lines_encode [OF assms])

theorem ParseData_roundtrip_witness:
  "let rs = \<lparr>parse_error_count = 0, rc_imports = [], import_filename = [], rc_log = [], rc_world = ()\<rparr>
   in ParseData ref_libbase empty_parser ''f'' (encode_lines [[''a b'', ''#''], [''c'']]) rs =
      Some (rs\<lparr>parse_error_count := 2\<rparr>)"
  using ParseData_roundtrip [of "[[''a b'', ''#''], [''c'']]" ref_libbase empty_parser "''f''"
      "\<lparr>parse_error_count = 0, rc_imports = [], import_filename = [], rc_log = [], rc_world = ()\<rparr>"]
  by (simp add: parse_line_def empty_parser_def start_state_def parse_eof_def end_section_def)

text \<open>
  C33: a path the policy denies is never opened: parsing it, as a file or as a directory,
  reports success and changes nothing but the rejection log; an import statement that expands
  to it is dropped in the same way.
\<close>

theorem denied_rc_is_inert:
  assumes "\<not> fst (rc_allowed env path)"
  shows "ParseConfig lb env mk (Suc fuel) path rs = Some (True, log_rc (snd (rc_allowed env path)) rs) \<and>
         (\<forall>a. ExpandProps (rc_props env) (rc_version env) a = Inr path \<longrightarrow>
              ImportParser_ParseSection env [''import'', a] filename line rs =
                (Ok (), log_rc (snd (rc_allowed env path)) rs))"
  using assms
  by (cases "rc_allowed env path")
     (simp add: parse_config_with_def ParseConfigDir_def ParseConfigFile_def ImportParser_ParseSection_def)

definition deny_all_env :: rc_env where
  "deny_all_env =
     \<lparr>rc_files = (\<lambda>_. Some \<lparr>file_mode = Some 420, file_content = Some ''import /x.rc''\<rparr>),
      is_dir = (\<lambda>_. False), read_dir = (\<lambda>_. None),
      rc_policy = Some (empty_policy\<lparr>pol_loaded := True\<rparr>),
      rc_log_env = \<lparr>can_open = (\<lambda>_. False), Timestamp = []\<rparr>,
      rc_props = (\<lambda>_. []), rc_version = 30\<rparr>"

theorem denied_rc_is_inert_witness:
  "ParseConfig ref_libbase deny_all_env (\<lambda>pc. empty_parser) 1 ''/init.rc''
     \<lparr>parse_error_count = 0, rc_imports = [], import_filename = [], rc_log = [], rc_world = ()\<rparr> =
   Some (True, \<lparr>parse_error_count = 0, rc_imports = [], import_filename = [], rc_log = [], rc_world = ()\<rparr>)"
proof -
  have "rc_allowed deny_all_env ''/init.rc'' = (False, [])"
    by (simp add: rc_allowed_def deny_all_env_def innit_gate_def InnitPolicyIsActive_def
        GetInnitPolicy_def IsRcAllowed_def empty_policy_def AppendToLog_def)
  then show ?thesis
    using denied_rc_is_inert [of deny_all_env "''/init.rc''" ref_libbase "\<lambda>pc. empty_parser" 0
        "\<lparr>parse_error_count = 0, rc_imports = [], import_filename = [], rc_log = [], rc_world = ()\<rparr>"]
    by (simp add: log_rc_def)
qed

end
