(* ===== verification/Keyword_Map.thy ===== *)
theory Keyword_Map
  imports Init_Prelude
begin

text \<open>
  \<^verbatim>\<open>init/keyword_map.h\<close>: keywords with the numbers of arguments they take, used by the
  builtin commands and the service options.
\<close>

record 'v MapValue =
  min_args :: nat
  max_args :: nat
  mv_value :: 'v

text \<open>\<^verbatim>\<open>std::numeric_limits<size_t>::max()\<close> on a 64-bit system.\<close>

definition kMax :: nat where
  "kMax = 18446744073709551615"

type_synonym 'v keyword_map = "(string \<times> 'v MapValue) list"

definition entry :: "string \<Rightarrow> nat \<Rightarrow> nat \<Rightarrow> 'v \<Rightarrow> string \<times> 'v MapValue" where
  "entry k lo hi v = (k, \<lparr>min_args = lo, max_args = hi, mv_value = v\<rparr>)"

definition Find :: "'v keyword_map \<Rightarrow> string list \<Rightarrow> 'v result" where
  "Find km args =
     (case args of
        [] \<Rightarrow> Err (Error ''Keyword needed, but not provided'')
      | keyword # rest \<Rightarrow>
          (let num_args = length rest
           in case map_of km keyword of
                None \<Rightarrow> Err (Error (''Invalid keyword '' @ quoted keyword))
              | Some res \<Rightarrow>
                  if min_args res = max_args res \<and> num_args \<noteq> min_args res then
                    Err (Error (keyword @ '' requires '' @ to_string (int (min_args res)) @ '' argument'' @
                                (if 1 < min_args res \<or> min_args res = 0 then ''s'' else [])))
                  else if num_args < min_args res \<or> max_args res < num_args then
                    (if max_args res = kMax then
                       Err (Error (keyword @ '' requires at least '' @ to_string (int (min_args res)) @
                                   '' argument'' @ (if 1 < min_args res then ''s'' else [])))
                     else
                       Err (Error (keyword @ '' requires between '' @ to_string (int (min_args res)) @
                                   '' and '' @ to_string (int (max_args res)) @ '' arguments'')))
                  else Ok (mv_value res)))"

text \<open>The keyword is known and the number of its arguments is in range.\<close>

definition accepts :: "'v keyword_map \<Rightarrow> string list \<Rightarrow> 'v \<Rightarrow> bool" where
  "accepts km args v =
     (\<exists>keyword rest mv. args = keyword # rest \<and> map_of km keyword = Some mv \<and>
        min_args mv \<le> length rest \<and> length rest \<le> max_args mv \<and> mv_value mv = v)"

lemma Find_accepts: "Find km args = Inr v \<longleftrightarrow> accepts km args v"
  by (cases args) (auto simp: Find_def accepts_def Let_def split: option.splits)

lemma accepts_args:
  "accepts km args v \<Longrightarrow> (\<And>mv. map_of km (hd args) = Some mv \<Longrightarrow> min_args mv = n) \<Longrightarrow> n < length args"
  by (auto simp: accepts_def)

text \<open>
  Looking a command or option up succeeds exactly when the keyword is known and the number
  of its arguments lies between the registered minimum and maximum, and yields the registered
  value.
\<close>

theorem Find_in_range:
  "Find km args = Inr v \<longleftrightarrow>
     (\<exists>keyword rest mv. args = keyword # rest \<and> map_of km keyword = Some mv \<and>
        min_args mv \<le> length rest \<and> length rest \<le> max_args mv \<and> mv_value mv = v)"
  unfolding Find_accepts accepts_def ..

end
