(* ===== verification/Action.thy ===== *)
theory Action
  imports Keyword_Map Rc_Parser
begin

text \<open>
  Commands, actions and their triggers (\<^verbatim>\<open>init/action.cpp\<close>, \<^verbatim>\<open>init/action.h\<close>). A builtin
  function is named by its symbol; what running it does to the process is the argument
  \<open>apply_fn\<close> of the definitions that invoke commands. The process that runs vendor commands
  is behind \<open>sub_execute\<close> and \<open>sub_expand\<close>.
\<close>

type_synonym BuiltinFunction = string

record Subcontext =
  sc_path_prefixes :: "string list"
  sc_context :: string

record Command =
  cmd_func :: BuiltinFunction
  execute_in_subcontext :: bool
  cmd_args :: "string list"
  cmd_line :: nat

record BuiltinArguments =
  ba_args :: "string list"
  ba_context :: string

record Action =
  property_triggers :: "(string \<times> string) list"
  event_trigger :: string
  commands :: "Command list"
  oneshot :: bool
  act_subcontext :: "Subcontext option"
  act_filename :: string
  act_line :: nat

record BuiltinFunctionMapValue =
  run_in_subcontext :: bool
  builtin_function :: BuiltinFunction

type_synonym BuiltinFunctionMap = "BuiltinFunctionMapValue keyword_map"

definition kInitContext :: string where
  "kInitContext = ''u:r:init:s0''"

definition kVendorContext :: string where
  "kVendorContext = ''u:r:vendor_init:s0''"

section \<open>Running a command\<close>

text \<open>\<open>expand_args\<close> is the loop over \<^verbatim>\<open>args[1..]\<close>.\<close>

fun expand_args :: "(string \<Rightarrow> string) \<Rightarrow> int \<Rightarrow> string list \<Rightarrow> string list result" where
  "expand_args props version [] = Ok []"
| "expand_args props version (a # as) =
     rbind (ExpandProps props version a) (\<lambda>e.
     rbind (expand_args props version as) (\<lambda>es. Ok (e # es)))"

definition RunBuiltinFunction ::
  "(string \<Rightarrow> string) \<Rightarrow> int \<Rightarrow> (BuiltinArguments \<Rightarrow> 's \<Rightarrow> unit result \<times> 's) \<Rightarrow> string list \<Rightarrow> string \<Rightarrow>
   's \<Rightarrow> unit result \<times> 's" where
  "RunBuiltinFunction props version function args context s =
     (case expand_args props version (drop 1 args) of
        Inl e \<Rightarrow> (Inl e, s)
      | Inr es \<Rightarrow> function \<lparr>ba_args = args ! 0 # es, ba_context = context\<rparr> s)"

record 's command_env =
  apply_fn :: "BuiltinFunction \<Rightarrow> BuiltinArguments \<Rightarrow> 's \<Rightarrow> unit result \<times> 's"
  sub_execute :: "Subcontext \<Rightarrow> string list \<Rightarrow> 's \<Rightarrow> unit result \<times> 's"
  sub_expand :: "Subcontext \<Rightarrow> string list \<Rightarrow> 's \<Rightarrow> string list result \<times> 's"
  env_props :: "'s \<Rightarrow> string \<Rightarrow> string"
  env_version :: int

definition InvokeFunc ::
  "'s command_env \<Rightarrow> Command \<Rightarrow> Subcontext option \<Rightarrow> 's \<Rightarrow> unit result \<times> 's" where
  "InvokeFunc ce cmd subcontext s =
     (case subcontext of
        Some sc \<Rightarrow>
          if execute_in_subcontext cmd then sub_execute ce sc (cmd_args cmd) s
          else
            (case sub_expand ce sc (cmd_args cmd) s of
               (Inl e, s') \<Rightarrow> (Inl e, s')
             | (Inr expanded_args, s') \<Rightarrow>
                 RunBuiltinFunction (env_props ce s') (env_version ce) (apply_fn ce (cmd_func cmd))
                   expanded_args (sc_context sc) s')
      | None \<Rightarrow>
          RunBuiltinFunction (env_props ce s) (env_version ce) (apply_fn ce (cmd_func cmd))
            (cmd_args cmd) kInitContext s)"

definition BuildCommandString :: "libbase \<Rightarrow> Command \<Rightarrow> string" where
  "BuildCommandString lb cmd = Join lb (cmd_args cmd) '' ''"

text \<open>The host-side check: a property that has no value there makes the argument empty.\<close>

definition no_such_property :: string where
  "no_such_property = ''doesn'' @ [APOSTROPHE] @ ''t exist while expanding''"

fun check_args :: "(string \<Rightarrow> string) \<Rightarrow> int \<Rightarrow> string list \<Rightarrow> string list result" where
  "check_args props version [] = Ok []"
| "check_args props version (a # as) =
     (case ExpandProps props version a of
        Inl e \<Rightarrow>
          if find_str no_such_property (message e) \<noteq> None
          then rbind (check_args props version as) (\<lambda>es. Ok ([] # es))
          else Inl e
      | Inr x \<Rightarrow> rbind (check_args props version as) (\<lambda>es. Ok (x # es)))"

definition CheckCommand ::
  "(string \<Rightarrow> string) \<Rightarrow> int \<Rightarrow> (BuiltinFunction \<Rightarrow> BuiltinArguments \<Rightarrow> unit result) \<Rightarrow> Command \<Rightarrow>
   unit result" where
  "CheckCommand props version check_fn cmd =
     rbind (check_args props version (drop 1 (cmd_args cmd)))
       (\<lambda>es. check_fn (cmd_func cmd) \<lparr>ba_args = cmd_args cmd ! 0 # es, ba_context = ''host_init_verifier''\<rparr>)"

section \<open>Actions\<close>

definition new_action ::
  "bool \<Rightarrow> Subcontext option \<Rightarrow> string \<Rightarrow> nat \<Rightarrow> string \<Rightarrow> (string \<times> string) list \<Rightarrow> Action" where
  "new_action os sc filename line evt ptriggers =
     \<lparr>property_triggers = ptriggers, event_trigger = evt, commands = [], oneshot = os,
      act_subcontext = sc, act_filename = filename, act_line = line\<rparr>"

definition AddCommand ::
  "BuiltinFunctionMap option \<Rightarrow> string list \<Rightarrow> nat \<Rightarrow> Action \<Rightarrow> unit result \<times> Action" where
  "AddCommand function_map args line a =
     (case function_map of
        None \<Rightarrow> (Err (Error ''no function map available''), a)
      | Some fm \<Rightarrow>
          (case Find fm args of
             Inl e \<Rightarrow> (Err (Error (message e)), a)
           | Inr mv \<Rightarrow>
               (Ok (), a\<lparr>commands := commands a @
                   [\<lparr>cmd_func = builtin_function mv, execute_in_subcontext = run_in_subcontext mv,
                     cmd_args = args, cmd_line = line\<rparr>]\<rparr>)))"

definition AddBuiltinCommand :: "BuiltinFunction \<Rightarrow> string list \<Rightarrow> nat \<Rightarrow> Action \<Rightarrow> Action" where
  "AddBuiltinCommand f args line a =
     a\<lparr>commands := commands a @
         [\<lparr>cmd_func = f, execute_in_subcontext = False, cmd_args = args, cmd_line = line\<rparr>]\<rparr>"

definition NumCommands :: "Action \<Rightarrow> nat" where
  "NumCommands a = length (commands a)"

definition Action_CheckAllCommands ::
  "(string \<Rightarrow> string) \<Rightarrow> int \<Rightarrow> (BuiltinFunction \<Rightarrow> BuiltinArguments \<Rightarrow> unit result) \<Rightarrow> Action \<Rightarrow> nat" where
  "Action_CheckAllCommands props version check_fn a =
     length (filter (\<lambda>c. \<not> ok (CheckCommand props version check_fn c)) (commands a))"

definition ExecuteCommand :: "'s command_env \<Rightarrow> Action \<Rightarrow> Command \<Rightarrow> 's \<Rightarrow> 's" where
  "ExecuteCommand ce a cmd s = snd (InvokeFunc ce cmd (act_subcontext a) s)"

definition ExecuteAllCommands :: "'s command_env \<Rightarrow> Action \<Rightarrow> 's \<Rightarrow> 's" where
  "ExecuteAllCommands ce a s = fold (ExecuteCommand ce a) (commands a) s"

definition CheckPropertyTriggers ::
  "(string \<Rightarrow> string) \<Rightarrow> string \<Rightarrow> string \<Rightarrow> Action \<Rightarrow> bool" where
  "CheckPropertyTriggers props name v a =
     (if property_triggers a = [] then True
      else if name \<noteq> [] \<and>
        (case map_of (property_triggers a) name of
           None \<Rightarrow> True
         | Some trigger_value \<Rightarrow> trigger_value \<noteq> ''*'' \<and> trigger_value \<noteq> v)
        then False
      else
        list_all (\<lambda>(trigger_name, trigger_value).
            trigger_name = name \<or>
            (trigger_value = ''*'' \<and> props trigger_name \<noteq> []) \<or> trigger_value = props trigger_name)
          (property_triggers a))"

text \<open>An action is known by the identity of its object, here a number.\<close>

datatype Event = EventTrigger string | PropertyChange string string | BuiltinAction nat

fun CheckEvent :: "(string \<Rightarrow> string) \<Rightarrow> Event \<Rightarrow> nat \<times> Action \<Rightarrow> bool" where
  "CheckEvent props (EventTrigger t) (i, a) =
     (t = event_trigger a \<and> CheckPropertyTriggers props [] [] a)"
| "CheckEvent props (PropertyChange n v) (i, a) =
     (event_trigger a = [] \<and> CheckPropertyTriggers props n v a)"
| "CheckEvent props (BuiltinAction j) (i, a) = (i = j)"

definition BuildTriggersString :: "libbase \<Rightarrow> Action \<Rightarrow> string" where
  "BuildTriggersString lb a =
     Join lb (map (\<lambda>(n, v). n @ ''='' @ v) (property_triggers a) @
              (if event_trigger a = [] then [] else [event_trigger a])) '' && ''"

text \<open>
  What the triggers say of a store: a starred trigger holds of any non-empty value, another
  one of its own value.
\<close>

definition trigger_holds :: "(string \<Rightarrow> string) \<Rightarrow> string \<times> string \<Rightarrow> bool" where
  "trigger_holds props nv = (if snd nv = ''*'' \<and> props (fst nv) \<noteq> [] then True else snd nv = props (fst nv))"

lemma trigger_holds_alt:
  "trigger_holds props x \<longleftrightarrow> (snd x = ''*'' \<and> props (fst x) \<noteq> []) \<or> snd x = props (fst x)"
  by (auto simp: trigger_holds_def)

lemma CheckPropertyTriggers_event:
  assumes "[] \<notin> fst ` set (property_triggers a)"
  shows "CheckPropertyTriggers props [] [] a \<longleftrightarrow> list_all (trigger_holds props) (property_triggers a)"
proof -
  have "n \<noteq> []" if "(n, tv) \<in> set (property_triggers a)" for n tv
    using assms that by force
  then show ?thesis
    by (auto simp: CheckPropertyTriggers_def trigger_holds_alt list_all_iff split_beta)
qed

lemma CheckPropertyTriggers_change:
  assumes "distinct (map fst (property_triggers a))" "property_triggers a \<noteq> []" "name \<noteq> []"
    and "v = props name" "v \<noteq> []"
  shows "CheckPropertyTriggers props name v a \<longleftrightarrow>
         name \<in> fst ` set (property_triggers a) \<and> list_all (trigger_holds props) (property_triggers a)"
proof (cases "map_of (property_triggers a) name")
  case None
  then have "name \<notin> fst ` set (property_triggers a)" by (simp add: map_of_eq_None_iff)
  then show ?thesis using None assms(2,3) by (simp add: CheckPropertyTriggers_def)
next
  case (Some tv)
  have mem: "(name, tv) \<in> set (property_triggers a)" using Some by (rule map_of_SomeD)
  have uniq: "snd x = tv" if "x \<in> set (property_triggers a)" "fst x = name" for x
    using that Some assms(1) by (metis map_of_is_SomeI option.inject prod.collapse)
  have "CheckPropertyTriggers props name v a \<longleftrightarrow>
      (tv = ''*'' \<or> tv = v) \<and> (\<forall>x \<in> set (property_triggers a). fst x = name \<or> trigger_holds props x)"
    using Some assms(2,3) by (simp add: CheckPropertyTriggers_def list_all_iff split_beta trigger_holds_alt)
  also have "(tv = ''*'' \<or> tv = v) \<longleftrightarrow> trigger_holds props (name, tv)"
    using assms(4,5) by (simp add: trigger_holds_alt)
  also have "trigger_holds props (name, tv) \<and>
      (\<forall>x \<in> set (property_triggers a). fst x = name \<or> trigger_holds props x) \<longleftrightarrow>
      (\<forall>x \<in> set (property_triggers a). trigger_holds props x)"
    using mem uniq by (metis prod.collapse)
  finally show ?thesis using mem by (force simp: list_all_iff)
qed

end
