(* ===== verification/Action_Manager.thy ===== *)
theory Action_Manager
  imports Action
begin

text \<open>
  The action manager (\<^verbatim>\<open>init/action_manager.cpp\<close>, \<^verbatim>\<open>init/action_manager.h\<close>): the actions, the
  event queue and the action under execution. Pointers to actions are numbers, allocated from
  \<open>am_next\<close>; following a number that is not in the list of actions, or indexing past the
  commands of an action, is \<open>None\<close>.
\<close>

record ActionManager =
  am_actions :: "(nat \<times> Action) list"
  am_next :: nat
  event_queue :: "Event list"
  current_executing_actions :: "nat list"
  current_command :: nat

definition new_action_manager :: ActionManager where
  "new_action_manager =
     \<lparr>am_actions = [], am_next = 0, event_queue = [], current_executing_actions = [], current_command = 0\<rparr>"

definition AddAction :: "Action \<Rightarrow> ActionManager \<Rightarrow> ActionManager" where
  "AddAction a am = am\<lparr>am_actions := am_actions am @ [(am_next am, a)], am_next := am_next am + 1\<rparr>"

definition push_event :: "Event \<Rightarrow> ActionManager \<Rightarrow> ActionManager" where
  "push_event e am = am\<lparr>event_queue := event_queue am @ [e]\<rparr>"

definition QueueEventTrigger ::
  "log_env \<Rightarrow> InnitPolicy option \<Rightarrow> string \<Rightarrow> ActionManager \<Rightarrow> ActionManager \<times> log_event list" where
  "QueueEventTrigger le g trigger am =
     (case innit_gate IsEventAllowed le g trigger of
        (False, evs) \<Rightarrow> (am, evs)
      | (True, evs) \<Rightarrow> (push_event (EventTrigger trigger) am, evs))"

definition QueuePropertyChange :: "string \<Rightarrow> string \<Rightarrow> ActionManager \<Rightarrow> ActionManager" where
  "QueuePropertyChange name v am = push_event (PropertyChange name v) am"

definition QueueAllPropertyActions :: "ActionManager \<Rightarrow> ActionManager" where
  "QueueAllPropertyActions am = QueuePropertyChange [] [] am"

definition QueueBuiltinAction :: "BuiltinFunction \<Rightarrow> string \<Rightarrow> ActionManager \<Rightarrow> ActionManager" where
  "QueueBuiltinAction func name am =
     (let action = AddBuiltinCommand func [name] 0
                     (new_action True None ''<Builtin Action>'' 0 name [])
      in AddAction action (push_event (BuiltinAction (am_next am)) am))"

definition HasMoreCommands :: "ActionManager \<Rightarrow> bool" where
  "HasMoreCommands am = (current_executing_actions am \<noteq> [] \<or> event_queue am \<noteq> [])"

definition ClearQueue :: "ActionManager \<Rightarrow> ActionManager" where
  "ClearQueue am = am\<lparr>current_executing_actions := [], event_queue := [], current_command := 0\<rparr>"

definition AM_CheckAllCommands ::
  "(string \<Rightarrow> string) \<Rightarrow> int \<Rightarrow> (BuiltinFunction \<Rightarrow> BuiltinArguments \<Rightarrow> unit result) \<Rightarrow> ActionManager \<Rightarrow> nat" where
  "AM_CheckAllCommands props version check_fn am =
     sum_list (map (\<lambda>ia. Action_CheckAllCommands props version check_fn (snd ia)) (am_actions am))"

section \<open>Executing one command\<close>

definition matching :: "(string \<Rightarrow> string) \<Rightarrow> (nat \<times> Action) list \<Rightarrow> Event \<Rightarrow> nat list" where
  "matching props actions e = map fst (filter (CheckEvent props e) actions)"

text \<open>
  The \<^verbatim>\<open>while\<close> loop: pop events until one has matching actions. It runs only when no action
  is executing.
\<close>

fun next_actions :: "(string \<Rightarrow> string) \<Rightarrow> (nat \<times> Action) list \<Rightarrow> Event list \<Rightarrow> nat list \<times> Event list" where
  "next_actions props actions [] = ([], [])"
| "next_actions props actions (e # q) =
     (let ids = matching props actions e
      in if ids = [] then next_actions props actions q else (ids, q))"

definition fill_executing :: "(string \<Rightarrow> string) \<Rightarrow> ActionManager \<Rightarrow> ActionManager" where
  "fill_executing props am =
     (if current_executing_actions am = [] then
        (case next_actions props (am_actions am) (event_queue am) of
           (ids, q) \<Rightarrow> am\<lparr>current_executing_actions := ids, event_queue := q\<rparr>)
      else am)"

text \<open>
  What happens behind the command: the counter moves on, and after the last command the action
  leaves the queue and, if it is a oneshot, the list of actions.
\<close>

definition after_command :: "nat \<Rightarrow> ActionManager \<Rightarrow> ActionManager option" where
  "after_command i am =
     (case map_of (am_actions am) i of
        None \<Rightarrow> None
      | Some a \<Rightarrow>
          if current_command am + 1 = NumCommands a then
            (if current_executing_actions am = [] then None
             else
               Some (am\<lparr>current_executing_actions := tl (current_executing_actions am),
                        current_command := 0,
                        am_actions := (if oneshot a then filter (\<lambda>ja. fst ja \<noteq> i) (am_actions am)
                                       else am_actions am)\<rparr>))
          else Some (am\<lparr>current_command := current_command am + 1\<rparr>))"

text \<open>
  The state of the process is \<open>'s\<close>; \<open>get_am\<close> and \<open>set_am\<close> are its action manager, which the
  command itself may change.
\<close>

definition ExecuteOneCommand ::
  "'s command_env \<Rightarrow> ('s \<Rightarrow> ActionManager) \<Rightarrow> (ActionManager \<Rightarrow> 's \<Rightarrow> 's) \<Rightarrow> 's \<Rightarrow> 's option" where
  "ExecuteOneCommand ce get_am set_am s =
     (let s = set_am (fill_executing (env_props ce s) (get_am s)) s;
          am = get_am s
      in case current_executing_actions am of
           [] \<Rightarrow> Some s
         | i # _ \<Rightarrow>
             (case map_of (am_actions am) i of
                None \<Rightarrow> None
              | Some a \<Rightarrow>
                  if NumCommands a \<le> current_command am then None
                  else
                    (let s = ExecuteCommand ce a (commands a ! current_command am) s
                     in map_option (\<lambda>am. set_am am s) (after_command i (get_am s)))))"

section \<open>Invariant\<close>

definition am_inv :: "ActionManager \<Rightarrow> bool" where
  "am_inv am =
     (distinct (map fst (am_actions am)) \<and>
      (\<forall>(i, a) \<in> set (am_actions am). i < am_next am \<and> 0 < NumCommands a) \<and>
      distinct (current_executing_actions am) \<and>
      set (current_executing_actions am) \<subseteq> fst ` set (am_actions am) \<and>
      (case current_executing_actions am of
         [] \<Rightarrow> current_command am = 0
       | i # _ \<Rightarrow> (case map_of (am_actions am) i of
                     None \<Rightarrow> False
                   | Some a \<Rightarrow> current_command am < NumCommands a)))"

text \<open>
  What a command may do to the manager: append actions that have commands, and append events.
\<close>

definition am_extends :: "ActionManager \<Rightarrow> ActionManager \<Rightarrow> bool" where
  "am_extends am am' =
     (\<exists>new evs. am_actions am' = am_actions am @ new \<and> event_queue am' = event_queue am @ evs \<and>
        distinct (map fst new) \<and> am_next am \<le> am_next am' \<and>
        (\<forall>(i, a) \<in> set new. am_next am \<le> i \<and> i < am_next am' \<and> 0 < NumCommands a) \<and>
        current_executing_actions am' = current_executing_actions am \<and>
        current_command am' = current_command am)"

lemma am_extends_refl [simp, intro]: "am_extends am am"
  unfolding am_extends_def by (intro exI [of _ "[]"]) simp

lemma am_extends_trans [trans]:
  assumes "am_extends a b" "am_extends b c"
  shows "am_extends a c"
proof -
  obtain n1 e1 where 1: "am_actions b = am_actions a @ n1" "event_queue b = event_queue a @ e1"
    "distinct (map fst n1)" "am_next a \<le> am_next b"
    "\<forall>(i, x) \<in> set n1. am_next a \<le> i \<and> i < am_next b \<and> 0 < NumCommands x"
    "current_executing_actions b = current_executing_actions a" "current_command b = current_command a"
    using assms(1) unfolding am_extends_def by blast
  obtain n2 e2 where 2: "am_actions c = am_actions b @ n2" "event_queue c = event_queue b @ e2"
    "distinct (map fst n2)" "am_next b \<le> am_next c"
    "\<forall>(i, x) \<in> set n2. am_next b \<le> i \<and> i < am_next c \<and> 0 < NumCommands x"
    "current_executing_actions c = current_executing_actions b" "current_command c = current_command b"
    using assms(2) unfolding am_extends_def by blast
  have "distinct (map fst (n1 @ n2))" using 1(3,5) 2(3,5) by force
  then show ?thesis
    unfolding am_extends_def using 1 2
    by (intro exI [of _ "n1 @ n2"] exI [of _ "e1 @ e2"]) (auto dest: less_le_trans le_trans)
qed

lemma push_event_extends [simp, intro]: "am_extends am (push_event e am)"
  unfolding am_extends_def push_event_def by (intro exI [of _ "[]"] exI [of _ "[e]"]) simp

lemma AddAction_extends [intro]: "0 < NumCommands a \<Longrightarrow> am_extends am (AddAction a am)"
  unfolding am_extends_def AddAction_def by (intro exI [of _ "[(am_next am, a)]"] exI [of _ "[]"]) simp

lemma QueueEventTrigger_extends [simp, intro]: "am_extends am (fst (QueueEventTrigger le g t am))"
  by (auto simp: QueueEventTrigger_def split: prod.split bool.split)

lemma QueuePropertyChange_extends [simp, intro]: "am_extends am (QueuePropertyChange n v am)"
  by (simp add: QueuePropertyChange_def)

lemma QueueAllPropertyActions_extends [simp, intro]: "am_extends am (QueueAllPropertyActions am)"
  by (simp add: QueueAllPropertyActions_def)

lemma QueueBuiltinAction_extends [simp, intro]: "am_extends am (QueueBuiltinAction f n am)"
proof -
  have "am_extends am (push_event (BuiltinAction (am_next am)) am)" by simp
  also have "am_extends (push_event (BuiltinAction (am_next am)) am) (QueueBuiltinAction f n am)"
    unfolding QueueBuiltinAction_def Let_def
    by (rule AddAction_extends) (simp add: NumCommands_def AddBuiltinCommand_def new_action_def)
  finally show ?thesis .
qed

lemma am_inv_new: "am_inv new_action_manager"
  by (simp add: am_inv_def new_action_manager_def)

lemma am_inv_ClearQueue: "am_inv am \<Longrightarrow> am_inv (ClearQueue am)"
  by (simp add: am_inv_def ClearQueue_def)

lemma am_inv_extends:
  assumes "am_inv am" "am_extends am am'"
  shows "am_inv am'"
proof -
  obtain new evs where e: "am_actions am' = am_actions am @ new"
    "distinct (map fst new)" "am_next am \<le> am_next am'"
    "\<forall>(i, a) \<in> set new. am_next am \<le> i \<and> i < am_next am' \<and> 0 < NumCommands a"
    "current_executing_actions am' = current_executing_actions am"
    "current_command am' = current_command am"
    using assms(2) unfolding am_extends_def by blast
  have old: "\<forall>(i, a) \<in> set (am_actions am). i < am_next am \<and> 0 < NumCommands a"
    using assms(1) by (simp add: am_inv_def)
  have "distinct (map fst (am_actions am'))"
    using assms(1) e(1,2,4) old by (fastforce simp: am_inv_def)
  moreover have "\<forall>(i, a) \<in> set (am_actions am'). i < am_next am' \<and> 0 < NumCommands a"
    using e(1,3,4) old by fastforce
  moreover have "map_of (am_actions am') i = Some a" if "map_of (am_actions am) i = Some a" for i a
    using that calculation(1) by (simp add: e(1))
  ultimately show ?thesis
    using assms(1) e(1,5,6) by (auto simp: am_inv_def split: list.splits option.splits)
qed

lemma next_actions_spec:
  "\<exists>skipped. list_all (\<lambda>e. matching props actions e = []) skipped \<and>
     (if fst (next_actions props actions q) = []
      then q = skipped \<and> snd (next_actions props actions q) = []
      else \<exists>e. q = skipped @ e # snd (next_actions props actions q) \<and>
               fst (next_actions props actions q) = matching props actions e)"
proof (induction q)
  case Nil
  then show ?case by simp
next
  case (Cons e q)
  show ?case
  proof (cases "matching props actions e = []")
    case True
    from Cons.IH obtain sk where "list_all (\<lambda>e. matching props actions e = []) sk"
      "if fst (next_actions props actions q) = []
       then q = sk \<and> snd (next_actions props actions q) = []
       else \<exists>e. q = sk @ e # snd (next_actions props actions q) \<and>
                fst (next_actions props actions q) = matching props actions e" by blast
    then show ?thesis using True by (intro exI [of _ "e # sk"]) simp
  next
    case False
    then show ?thesis by (intro exI [of _ "[]"]) simp
  qed
qed

lemma matching_distinct: "distinct (map fst actions) \<Longrightarrow> distinct (matching props actions e)"
  by (simp add: matching_def distinct_map_filter)

lemma matching_subset: "set (matching props actions e) \<subseteq> fst ` set actions"
  by (auto simp: matching_def)

lemma next_actions_wf:
  "distinct (map fst actions) \<Longrightarrow>
   distinct (fst (next_actions props actions q)) \<and> set (fst (next_actions props actions q)) \<subseteq> fst ` set actions"
  by (induction q) (simp_all add: Let_def matching_distinct matching_subset)

lemma map_of_filter_neq: "j \<noteq> i \<Longrightarrow> map_of (filter (\<lambda>ja. fst ja \<noteq> i) xs) j = map_of xs j"
  by (induction xs) auto

lemma fill_executing_inv:
  assumes "am_inv am"
  shows "am_inv (fill_executing props am)"
proof (cases "current_executing_actions am")
  case Nil
  obtain ids q where n: "next_actions props (am_actions am) (event_queue am) = (ids, q)" by fastforce
  have wf: "distinct ids" "set ids \<subseteq> fst ` set (am_actions am)"
    using next_actions_wf [of "am_actions am" props "event_queue am"] assms n by (auto simp: am_inv_def)
  have "0 < NumCommands a" if "map_of (am_actions am) i = Some a" for i a
    using that assms map_of_SomeD [OF that] by (auto simp: am_inv_def)
  then show ?thesis
    using assms Nil n wf
    by (auto simp: am_inv_def fill_executing_def map_of_eq_None_iff split: list.split option.split)
next
  case Cons
  then show ?thesis using assms by (simp add: fill_executing_def)
qed

lemma after_command_inv:
  assumes "am_inv am" "current_executing_actions am = i # js"
  shows "\<exists>am'. after_command i am = Some am' \<and> am_inv am'"
proof -
  obtain a where a: "map_of (am_actions am) i = Some a" "current_command am < NumCommands a"
    using assms by (auto simp: am_inv_def split: option.splits)
  show ?thesis
  proof (cases "current_command am + 1 = NumCommands a")
    case False
    then show ?thesis using assms a by (simp add: after_command_def am_inv_def)
  next
    case True
    let ?acts = "if oneshot a then filter (\<lambda>ja. fst ja \<noteq> i) (am_actions am) else am_actions am"
    have live: "j \<in> fst ` set (am_actions am)" if "j \<in> set js" for j
      using that assms by (auto simp: am_inv_def)
    have "map_of ?acts j = map_of (am_actions am) j" if "j \<in> set js" for j
      using that assms map_of_filter_neq [of j i] by (cases "j = i") (auto simp: am_inv_def)
    moreover have "\<exists>b. map_of (am_actions am) j = Some b \<and> 0 < NumCommands b" if "j \<in> set js" for j
    proof -
      from live [OF that] obtain b where b: "map_of (am_actions am) j = Some b"
        by (metis map_of_eq_None_iff not_None_eq)
      then show ?thesis using assms(1) map_of_SomeD [OF b] by (auto simp: am_inv_def)
    qed
    moreover have "distinct (map fst ?acts)" using assms by (simp add: am_inv_def distinct_map_filter)
    moreover have "set js \<subseteq> fst ` set ?acts"
    proof
      fix j assume j: "j \<in> set js"
      then obtain b where "(j, b) \<in> set (am_actions am)" using live by force
      moreover have "j \<noteq> i" using j assms by (auto simp: am_inv_def)
      ultimately show "j \<in> fst ` set ?acts" by (force simp: image_iff)
    qed
    moreover have "\<forall>(k, b) \<in> set ?acts. k < am_next am \<and> 0 < NumCommands b"
      using assms(1) by (auto simp: am_inv_def)
    ultimately show ?thesis
      using assms a True by (fastforce simp: after_command_def am_inv_def split: list.split)
  qed
qed

section \<open>Hosts of the action manager\<close>

text \<open>
  The contract of the process that runs commands: its action manager is a field, and a command,
  whatever else it does to a process in order, keeps it in order and only appends actions and
  events. Under it the manager never follows a stale pointer and never indexes past the commands
  of an action.
\<close>

locale action_host =
  fixes ce :: "'s command_env"
    and get_am :: "'s \<Rightarrow> ActionManager"
    and set_am :: "ActionManager \<Rightarrow> 's \<Rightarrow> 's"
    and in_order :: "'s \<Rightarrow> bool"
  assumes get_set: "get_am (set_am am s) = am"
    and set_in_order: "in_order s \<Longrightarrow> in_order (set_am am s)"
    and apply_extends: "in_order s \<Longrightarrow> am_inv (get_am s) \<Longrightarrow>
      am_extends (get_am s) (get_am (snd (apply_fn ce f ba s))) \<and> in_order (snd (apply_fn ce f ba s))"
    and execute_extends: "in_order s \<Longrightarrow> am_inv (get_am s) \<Longrightarrow>
      am_extends (get_am s) (get_am (snd (sub_execute ce sc args s))) \<and> in_order (snd (sub_execute ce sc args s))"
    and expand_extends: "in_order s \<Longrightarrow> am_inv (get_am s) \<Longrightarrow>
      am_extends (get_am s) (get_am (snd (sub_expand ce sc args s))) \<and> in_order (snd (sub_expand ce sc args s))"
begin

definition keeps_host :: "'s \<Rightarrow> 's \<Rightarrow> bool" where
  "keeps_host s s' = (am_extends (get_am s) (get_am s') \<and> in_order s')"

lemma RunBuiltinFunction_keeps:
  "in_order s \<Longrightarrow> am_inv (get_am s) \<Longrightarrow> keeps_host s (snd (RunBuiltinFunction props v (apply_fn ce f) args ctx s))"
  using apply_extends [of s f] by (auto simp: RunBuiltinFunction_def keeps_host_def split: sum.split)

lemma keeps_host_trans: "keeps_host s s' \<Longrightarrow> keeps_host s' s'' \<Longrightarrow> keeps_host s s''"
  using am_extends_trans by (auto simp: keeps_host_def)

lemma ExecuteCommand_keeps:
  assumes "in_order s" "am_inv (get_am s)"
  shows "keeps_host s (ExecuteCommand ce a c s)"
proof (cases "act_subcontext a")
  case None
  then show ?thesis using assms by (simp add: ExecuteCommand_def InvokeFunc_def RunBuiltinFunction_keeps)
next
  case (Some sc)
  obtain r s1 where e: "sub_expand ce sc (cmd_args c) s = (r, s1)" by fastforce
  have s1: "keeps_host s s1" using expand_extends [OF assms, of sc "cmd_args c"] e by (simp add: keeps_host_def)
  then have "in_order s1" "am_inv (get_am s1)" using am_inv_extends [OF assms(2)] by (auto simp: keeps_host_def)
  then have "keeps_host s (snd (RunBuiltinFunction props v (apply_fn ce f) args ctx s1))" for props v f args ctx
    using keeps_host_trans [OF s1 RunBuiltinFunction_keeps] by blast
  then show ?thesis
    using Some e s1 execute_extends [OF assms, of sc "cmd_args c"]
    by (auto simp: ExecuteCommand_def InvokeFunc_def keeps_host_def split: sum.split)
qed

lemma ExecuteAllCommands_keeps:
  "in_order s \<Longrightarrow> am_inv (get_am s) \<Longrightarrow> keeps_host s (fold (ExecuteCommand ce a) cs s)"
proof (induction cs arbitrary: s)
  case (Cons c cs)
  have k: "keeps_host s (ExecuteCommand ce a c s)" using Cons.prems by (rule ExecuteCommand_keeps)
  then have "in_order (ExecuteCommand ce a c s)" "am_inv (get_am (ExecuteCommand ce a c s))"
    using am_inv_extends [OF Cons.prems(2)] by (auto simp: keeps_host_def)
  then show ?case using keeps_host_trans [OF k Cons.IH] by simp
qed (simp add: keeps_host_def)

lemma ExecuteOneCommand_inv:
  assumes "am_inv (get_am s)" "in_order s"
  shows "\<exists>s'. ExecuteOneCommand ce get_am set_am s = Some s' \<and> am_inv (get_am s') \<and> in_order s'"
proof -
  define s1 where "s1 = set_am (fill_executing (env_props ce s) (get_am s)) s"
  have inv1: "am_inv (get_am s1)" "in_order s1" by (simp_all add: s1_def get_set fill_executing_inv assms set_in_order)
  show ?thesis
  proof (cases "current_executing_actions (get_am s1)")
    case Nil
    then show ?thesis using inv1 by (simp add: ExecuteOneCommand_def s1_def Let_def)
  next
    case (Cons i js)
    obtain a where a: "map_of (am_actions (get_am s1)) i = Some a"
      "current_command (get_am s1) < NumCommands a"
      using inv1 Cons by (auto simp: am_inv_def split: option.splits)
    define s2 where "s2 = ExecuteCommand ce a (commands a ! current_command (get_am s1)) s1"
    have "keeps_host s1 s2" using ExecuteCommand_keeps inv1 by (simp add: s2_def)
    then have ext: "am_extends (get_am s1) (get_am s2)" and ord: "in_order s2" by (simp_all add: keeps_host_def)
    then have "am_inv (get_am s2)" "current_executing_actions (get_am s2) = i # js"
      using am_inv_extends [OF inv1(1)] Cons by (auto simp: am_extends_def)
    then obtain am' where "after_command i (get_am s2) = Some am'" "am_inv am'"
      using after_command_inv by blast
    then show ?thesis
      using Cons a ord
      by (simp add: ExecuteOneCommand_def s1_def [symmetric] s2_def [symmetric] get_set set_in_order Let_def)
  qed
qed

end

section \<open>Properties\<close>

text \<open>
  C36: events are served in the order they were queued. When no action is executing, the
  events in front that match no action are dropped, and the actions that are executed next are
  exactly the ones that match the first remaining event, in the order they were parsed.
\<close>

theorem events_served_in_order:
  "\<exists>skipped. list_all (\<lambda>e. matching props (am_actions am) e = []) skipped \<and>
     (let am' = fill_executing props (am\<lparr>current_executing_actions := []\<rparr>)
      in if current_executing_actions am' = []
         then event_queue am = skipped \<and> event_queue am' = []
         else \<exists>e. event_queue am = skipped @ e # event_queue am' \<and>
                  current_executing_actions am' = matching props (am_actions am) e)"
proof -
  from next_actions_spec [of props "am_actions am" "event_queue am"] obtain sk where
    "list_all (\<lambda>e. matching props (am_actions am) e = []) sk"
    "if fst (next_actions props (am_actions am) (event_queue am)) = []
     then event_queue am = sk \<and> snd (next_actions props (am_actions am) (event_queue am)) = []
     else \<exists>e. event_queue am = sk @ e # snd (next_actions props (am_actions am) (event_queue am)) \<and>
              fst (next_actions props (am_actions am) (event_queue am)) = matching props (am_actions am) e"
    by blast
  then show ?thesis
    by (intro exI [of _ sk]) (simp add: fill_executing_def Let_def split_beta)
qed

text \<open>
  The event gate. An event the policy denies never reaches the queue; every other event
  is queued behind the ones already there, and nothing else of the manager changes.
\<close>

theorem denied_event_not_queued:
  "fst (QueueEventTrigger le g trigger am) =
     (if fst (innit_gate IsEventAllowed le g trigger)
      then am\<lparr>event_queue := event_queue am @ [EventTrigger trigger]\<rparr> else am)"
  by (auto simp: QueueEventTrigger_def push_event_def split: prod.split bool.split)

end
