(* ===== verification/Action_Parser.thy ===== *)
theory Action_Parser
  imports Action_Manager
begin

text \<open>
  The \<^verbatim>\<open>on\<close> section (\<^verbatim>\<open>init/action_parser.cpp\<close>): triggers joined by \<^verbatim>\<open>&&\<close>, the commands
  below them, and the hand-over to the action manager when the section ends.
\<close>

section \<open>Triggers\<close>

text \<open>
  \<open>enabled\<close> is the boot-time value of \<^verbatim>\<open>ro.actionable_compatible_property.enabled\<close>,
  \<open>can_read\<close> is \<^verbatim>\<open>CanReadProperty\<close>, which asks SELinux.
\<close>

definition kPartnerPrefixes :: "string list" where
  "kPartnerPrefixes =
     [''init.svc.vendor.'', ''ro.vendor.'', ''persist.vendor.'', ''vendor.'', ''init.svc.odm.'',
      ''ro.odm.'', ''persist.odm.'', ''odm.'', ''ro.boot.'']"

record trigger_env =
  actionable_enabled :: bool
  can_read :: "string \<Rightarrow> string \<Rightarrow> bool"
  trigger_version :: int

definition IsActionableProperty ::
  "libbase \<Rightarrow> trigger_env \<Rightarrow> Subcontext option \<Rightarrow> string \<Rightarrow> bool" where
  "IsActionableProperty lb te subcontext prop_name =
     (case subcontext of
        None \<Rightarrow> True
      | Some sc \<Rightarrow>
          if \<not> actionable_enabled te then True
          else if list_ex (\<lambda>p. StartsWith lb prop_name p) kPartnerPrefixes then True
          else can_read te (sc_context sc) prop_name)"

definition prop_str :: string where
  "prop_str = ''property:''"

definition ParsePropertyTrigger ::
  "libbase \<Rightarrow> trigger_env \<Rightarrow> string \<Rightarrow> Subcontext option \<Rightarrow> (string \<times> string) list \<Rightarrow>
   (string \<times> string) list result" where
  "ParsePropertyTrigger lb te trigger subcontext ptriggers =
     (let prop_name = drop (length prop_str) trigger
      in case find_char (CHR ''='') prop_name of
           None \<Rightarrow> Err (Error (''property trigger found without matching '' @ quoted ''=''))
         | Some equal_pos \<Rightarrow>
             (let prop_value = drop (equal_pos + 1) prop_name;
                  prop_name = take equal_pos prop_name
              in if \<not> IsActionableProperty lb te subcontext prop_name then
                   Err (Error (''unexported property trigger found: '' @ prop_name))
                 else if map_of ptriggers prop_name \<noteq> None then
                   Err (Error ''multiple property triggers found for same property'')
                 else Ok (map_insert prop_name prop_value ptriggers)))"

definition ValidateEventTrigger :: "trigger_env \<Rightarrow> string \<Rightarrow> unit result" where
  "ValidateEventTrigger te evt =
     (if trigger_version te \<ge> API_R then
        (case find (\<lambda>c. c \<noteq> CHR ''_'' \<and> c \<noteq> CHR ''-'' \<and> \<not> c_isalnum c) evt of
           None \<Rightarrow> Ok ()
         | Some c \<Rightarrow> Err (Error (''Illegal character '' @ quoted [c] @ '' in '' @ quoted evt)))
      else Ok ())"

text \<open>The loop; the state is the event trigger and the property triggers found so far.\<close>

definition parse_trigger ::
  "libbase \<Rightarrow> trigger_env \<Rightarrow> Subcontext option \<Rightarrow> nat \<times> string \<Rightarrow> string \<times> (string \<times> string) list \<Rightarrow>
   (string \<times> (string \<times> string) list) result" where
  "parse_trigger lb te subcontext iarg st =
     (case iarg of (i, arg) \<Rightarrow> case st of (evt, ptriggers) \<Rightarrow>
        if arg = [] then Err (Error ''empty trigger is not valid'')
        else if i mod 2 = 1 then
          (if arg \<noteq> ''&&'' then Err (Error ''&& is the only symbol allowed to concatenate actions'')
           else Ok st)
        else if take (length prop_str) arg = prop_str then
          rbind (ParsePropertyTrigger lb te arg subcontext ptriggers) (\<lambda>ps. Ok (evt, ps))
        else if evt \<noteq> [] then Err (Error ''multiple event triggers are not allowed'')
        else rbind (ValidateEventTrigger te arg) (\<lambda>_. Ok (arg, ptriggers)))"

definition ParseTriggers ::
  "libbase \<Rightarrow> trigger_env \<Rightarrow> string list \<Rightarrow> Subcontext option \<Rightarrow> (string \<times> (string \<times> string) list) result" where
  "ParseTriggers lb te args subcontext =
     rfold (parse_trigger lb te subcontext) (enumerate 0 args) ([], [])"

section \<open>The section parser\<close>

text \<open>
  \<open>get_ap\<close>/\<open>set_ap\<close> are the field \<^verbatim>\<open>action_\<close> of the parser and \<open>get_am\<close>/\<open>set_am\<close> the action
  manager it feeds, both inside the world of the script parser.
\<close>

record 'w action_parser =
  get_ap :: "'w \<Rightarrow> Action option"
  set_ap :: "Action option \<Rightarrow> 'w \<Rightarrow> 'w"
  ap_get_am :: "'w \<Rightarrow> ActionManager"
  ap_set_am :: "ActionManager \<Rightarrow> 'w \<Rightarrow> 'w"
  ap_subcontext :: "Subcontext option"
  ap_function_map :: "BuiltinFunctionMap option"
  ap_env :: trigger_env

definition PathMatchesSubcontext :: "libbase \<Rightarrow> Subcontext \<Rightarrow> string \<Rightarrow> bool" where
  "PathMatchesSubcontext lb sc path = list_ex (\<lambda>p. StartsWith lb path p) (sc_path_prefixes sc)"

definition ActionParser_ParseSection ::
  "libbase \<Rightarrow> 'w action_parser \<Rightarrow> string list \<Rightarrow> string \<Rightarrow> nat \<Rightarrow> 'w rc_state \<Rightarrow> unit result \<times> 'w rc_state" where
  "ActionParser_ParseSection lb ap args filename line rs =
     (let triggers = drop 1 args
      in if length triggers < 1 then (Err (Error ''Actions must have a trigger''), rs)
         else
           (let action_subcontext =
                  (case ap_subcontext ap of
                     None \<Rightarrow> None
                   | Some sc \<Rightarrow> if PathMatchesSubcontext lb sc filename then Some sc else None)
            in case ParseTriggers lb (ap_env ap) triggers action_subcontext of
                 Inl e \<Rightarrow> (Err (Error (''ParseTriggers() failed: '' @ message e)), rs)
               | Inr (evt, ptriggers) \<Rightarrow>
                   (Ok (), rs\<lparr>rc_world := set_ap ap
                       (Some (new_action False action_subcontext filename line evt ptriggers))
                       (rc_world rs)\<rparr>)))"

definition ActionParser_ParseLineSection ::
  "'w action_parser \<Rightarrow> string list \<Rightarrow> nat \<Rightarrow> 'w rc_state \<Rightarrow> unit result \<times> 'w rc_state" where
  "ActionParser_ParseLineSection ap args line rs =
     (case get_ap ap (rc_world rs) of
        None \<Rightarrow> (Ok (), rs)
      | Some a \<Rightarrow>
          (case AddCommand (ap_function_map ap) args line a of
             (r, a') \<Rightarrow> (r, rs\<lparr>rc_world := set_ap ap (Some a') (rc_world rs)\<rparr>)))"

definition ActionParser_EndSection :: "'w action_parser \<Rightarrow> 'w rc_state \<Rightarrow> unit result \<times> 'w rc_state" where
  "ActionParser_EndSection ap rs =
     (case get_ap ap (rc_world rs) of
        None \<Rightarrow> (Ok (), rs)
      | Some a \<Rightarrow>
          if 0 < NumCommands a then
            (let w = rc_world rs
             in (Ok (), rs\<lparr>rc_world := ap_set_am ap (AddAction a (ap_get_am ap w)) (set_ap ap None w)\<rparr>))
          else (Ok (), rs))"

definition ActionParser :: "libbase \<Rightarrow> 'w action_parser \<Rightarrow> 'w rc_state section_parser" where
  "ActionParser lb ap =
     \<lparr>ParseSection = ActionParser_ParseSection lb ap,
      ParseLineSection = ActionParser_ParseLineSection ap,
      EndSection = ActionParser_EndSection ap,
      EndFile = Some\<rparr>"

section \<open>What the parser accepts\<close>

text \<open>
  A list of triggers: at even places a non-empty trigger, at odd places \<^verbatim>\<open>&&\<close>; property
  triggers have an equals sign, an actionable name and names of their own; at most one event.
\<close>

definition trigger_words :: "string list \<Rightarrow> string list" where
  "trigger_words args = map snd (filter (\<lambda>ia. even (fst ia)) (enumerate 0 args))"

definition is_property :: "string \<Rightarrow> bool" where
  "is_property w = prefix prop_str w"

definition prop_of :: "string \<Rightarrow> string" where
  "prop_of w = takeWhile (\<lambda>c. c \<noteq> CHR ''='') (drop (length prop_str) w)"

definition value_of :: "string \<Rightarrow> string" where
  "value_of w = drop (Suc (length (prop_of w))) (drop (length prop_str) w)"

lemma take_prop_str: "take (length prop_str) w = prop_str \<longleftrightarrow> is_property w"
  unfolding is_property_def by (metis append_eq_conv_conj prefix_def take_is_prefix)

lemma map_insert_keys: "fst ` set (map_insert k v m) = insert k (fst ` set m)"
  by (induction k v m rule: map_insert.induct) auto

lemma map_insert_sorted:
  "sorted_wrt (<) (map fst m) \<Longrightarrow> sorted_wrt (<) (map fst (map_insert k v m))"
  by (induction k v m rule: map_insert.induct) (auto simp: map_insert_keys)

lemma map_insert_set: "k \<notin> fst ` set m \<Longrightarrow> set (map_insert k v m) = insert (k, v) (set m)"
  by (induction k v m rule: map_insert.induct) auto

lemma find_char_takeWhile:
  "find_char c s = Some i \<Longrightarrow> takeWhile (\<lambda>x. x \<noteq> c) s = take i s"
  by (induction s arbitrary: i) (auto split: if_splits)

lemma ParsePropertyTrigger_Inr:
  assumes "ParsePropertyTrigger lb te w sc ps = Inr ps'"
  shows "map_of ps (prop_of w) = None" "ps' = map_insert (prop_of w) (value_of w) ps"
proof -
  let ?n = "drop (length prop_str) w"
  from assms obtain i where i: "find_char (CHR ''='') ?n = Some i" "map_of ps (take i ?n) = None"
    "ps' = map_insert (take i ?n) (drop (i + 1) ?n) ps"
    by (auto simp: ParsePropertyTrigger_def Let_def split: option.splits if_splits)
  have "i < length ?n" using find_char_Some [OF i(1)] by blast
  then show "map_of ps (prop_of w) = None" "ps' = map_insert (prop_of w) (value_of w) ps"
    using i find_char_takeWhile [OF i(1)] by (simp_all add: prop_of_def value_of_def)
qed

text \<open>The triggers found stand for the words read.\<close>

definition triggers_of :: "string list \<Rightarrow> string \<times> (string \<times> string) list \<Rightarrow> bool" where
  "triggers_of ws st =
     (case st of (evt, ps) \<Rightarrow>
        sorted_wrt (<) (map fst ps) \<and> distinct (map prop_of (filter is_property ws)) \<and>
        set ps = (\<lambda>w. (prop_of w, value_of w)) ` set (filter is_property ws) \<and>
        filter (\<lambda>w. \<not> is_property w) ws = (if evt = [] then [] else [evt]))"

lemma trigger_words_snoc:
  "trigger_words (args @ [a]) = trigger_words args @ (if even (length args) then [a] else [])"
  by (simp add: trigger_words_def enumerate_append_eq)

lemma parse_trigger_step:
  assumes "parse_trigger lb te sc (i, a) st = Inr st'" "triggers_of ws st"
  shows "triggers_of (ws @ (if even i then [a] else [])) st'"
proof -
  obtain evt ps where st: "st = (evt, ps)" by fastforce
  show ?thesis
  proof (cases "even i \<and> is_property a")
    case True
    then obtain ps' where ps': "ParsePropertyTrigger lb te a sc ps = Inr ps'" "st' = (evt, ps')"
      using assms(1) st
      by (auto simp: parse_trigger_def take_prop_str rbind_Inr_iff odd_iff_mod_2_eq_one split: if_splits)
    note p = ParsePropertyTrigger_Inr [OF ps'(1)]
    have new: "prop_of a \<notin> fst ` set ps" using p(1) by (simp add: map_of_eq_None_iff)
    have "distinct (map prop_of (filter is_property (ws @ [a])))"
      using assms(2) st True new by (auto simp: triggers_of_def image_iff)
    then show ?thesis
      using assms(2) st True ps' p(2) new
      by (auto simp: triggers_of_def map_insert_sorted map_insert_set)
  next
    case False
    then show ?thesis
      using assms st
      by (auto simp: parse_trigger_def take_prop_str rbind_Inr_iff triggers_of_def
          odd_iff_mod_2_eq_one [symmetric] split: if_splits)
  qed
qed

lemma ParseTriggers_words:
  "ParseTriggers lb te args sc = Inr st \<Longrightarrow> triggers_of (trigger_words args) st"
proof (induction args arbitrary: st rule: rev_induct)
  case Nil
  then show ?case by (auto simp: ParseTriggers_def triggers_of_def trigger_words_def)
next
  case (snoc a args)
  then obtain u where "ParseTriggers lb te args sc = Inr u"
    "parse_trigger lb te sc (length args, a) u = Inr st"
    by (auto simp: ParseTriggers_def enumerate_append_eq rfold_append rbind_Inr_iff)
  then show ?case
    using snoc.IH parse_trigger_step unfolding trigger_words_snoc by blast
qed

section \<open>Properties\<close>


definition open_triggers :: trigger_env where
  "open_triggers = \<lparr>actionable_enabled = False, can_read = (\<lambda>_ _. True), trigger_version = 30\<rparr>"


end
