(* ===== verification/Service.thy ===== *)
theory Service
  imports Action_Manager
begin

text \<open>
  A service and its life cycle (\<^verbatim>\<open>init/service.cpp\<close>, \<^verbatim>\<open>init/service.h\<close>). The flags are a
  32-bit word with the source's bits. An operation returns the new service and the effects it
  had, in order: properties set, signals sent, shutdowns requested, commands run. What the
  operating system answers during a call (fork, stat, clock, process groups) is the record
  \<open>os\<close>.
\<close>

unbundle bit_operations_syntax

section \<open>Flags\<close>

abbreviation SVC_DISABLED :: "32 word" where "SVC_DISABLED \<equiv> 0x001"
abbreviation SVC_ONESHOT :: "32 word" where "SVC_ONESHOT \<equiv> 0x002"
abbreviation SVC_RUNNING :: "32 word" where "SVC_RUNNING \<equiv> 0x004"
abbreviation SVC_RESTARTING :: "32 word" where "SVC_RESTARTING \<equiv> 0x008"
abbreviation SVC_CONSOLE :: "32 word" where "SVC_CONSOLE \<equiv> 0x010"
abbreviation SVC_CRITICAL :: "32 word" where "SVC_CRITICAL \<equiv> 0x020"
abbreviation SVC_RESET :: "32 word" where "SVC_RESET \<equiv> 0x040"
abbreviation SVC_RC_DISABLED :: "32 word" where "SVC_RC_DISABLED \<equiv> 0x080"
abbreviation SVC_RESTART :: "32 word" where "SVC_RESTART \<equiv> 0x100"
abbreviation SVC_DISABLED_START :: "32 word" where "SVC_DISABLED_START \<equiv> 0x200"
abbreviation SVC_EXEC :: "32 word" where "SVC_EXEC \<equiv> 0x400"
abbreviation SVC_SHUTDOWN_CRITICAL :: "32 word" where "SVC_SHUTDOWN_CRITICAL \<equiv> 0x800"
abbreviation SVC_TEMPORARY :: "32 word" where "SVC_TEMPORARY \<equiv> 0x1000"

abbreviation NR_SVC_SUPP_GIDS :: nat where "NR_SVC_SUPP_GIDS \<equiv> 12"
abbreviation DEFAULT_OOM_SCORE_ADJUST :: int where "DEFAULT_OOM_SCORE_ADJUST \<equiv> - 1000"

section \<open>Services\<close>

record SocketDescriptor =
  sd_name :: string
  sd_type :: string
  sd_uid :: "32 word"
  sd_gid :: "32 word"
  sd_perm :: "32 word"
  sd_context :: string
  sd_passcred :: bool

record FileDescriptor =
  fd_name :: string
  fd_type :: string

record ProcessAttributes =
  pa_console :: string
  ioprio_class :: string
  ioprio_pri :: int
  rlimits :: "(int \<times> 64 word \<times> 64 word) list"
  pa_uid :: "32 word"
  pa_gid :: "32 word"
  supp_gids :: "32 word list"
  pa_priority :: int
  stdio_to_kmsg :: bool

datatype ns_kind = CLONE_NEWPID | CLONE_NEWNS | CLONE_NEWNET

record NamespaceInfo =
  ns_flags :: "ns_kind list"
  namespaces_to_enter :: "(ns_kind \<times> string) list"

text \<open>Times are nanoseconds of the boot clock; the crash window is in minutes.\<close>

record Service =
  svc_name :: string
  classnames :: "string list"
  svc_flags :: "32 word"
  svc_pid :: int
  time_started :: nat
  time_crashed :: nat
  crash_count :: int
  fatal_crash_window :: nat
  fatal_reboot_target :: "string option"
  svc_capabilities :: "nat list option"
  proc_attr :: ProcessAttributes
  namespaces :: NamespaceInfo
  seclabel :: string
  sockets :: "SocketDescriptor list"
  svc_files :: "FileDescriptor list"
  environment_vars :: "(string \<times> string) list"
  svc_subcontext :: "Subcontext option"
  onrestart :: Action
  writepid_files :: "string list"
  task_profiles :: "string list"
  svc_interfaces :: "string list"
  keycodes :: "int list"
  oom_score_adjust :: int
  swappiness :: int
  soft_limit_in_bytes :: int
  limit_in_bytes :: int
  limit_percent :: int
  limit_property :: string
  process_cgroup_empty :: bool
  is_override :: bool
  start_order :: nat
  sigstop :: bool
  restart_period :: nat
  timeout_period :: "nat option"
  updatable :: bool
  svc_args :: "string list"
  reap_callbacks :: "string list"
  use_bootstrap_ns :: bool
  post_data :: bool
  running_at_post_data_reset :: bool
  on_failure_reboot_target :: "string option"
  from_apex :: bool

definition new_service ::
  "string \<Rightarrow> 32 word \<Rightarrow> 32 word \<Rightarrow> 32 word \<Rightarrow> 32 word list \<Rightarrow> ns_kind list \<Rightarrow> string \<Rightarrow> Subcontext option \<Rightarrow>
   string list \<Rightarrow> bool \<Rightarrow> Service" where
  "new_service name flags uid gid sgids nsflags label sc args apex =
     \<lparr>svc_name = name, classnames = [''default''], svc_flags = flags, svc_pid = 0,
      time_started = 0, time_crashed = 0, crash_count = 0, fatal_crash_window = 4,
      fatal_reboot_target = None, svc_capabilities = None,
      proc_attr = \<lparr>pa_console = [], ioprio_class = ''none'', ioprio_pri = 0, rlimits = [],
                   pa_uid = uid, pa_gid = gid, supp_gids = sgids, pa_priority = 0,
                   stdio_to_kmsg = False\<rparr>,
      namespaces = \<lparr>ns_flags = nsflags, namespaces_to_enter = []\<rparr>,
      seclabel = label, sockets = [], svc_files = [], environment_vars = [], svc_subcontext = sc,
      onrestart = new_action False sc (''<Service '' @ quoted name @ '' onrestart>'') 0 ''onrestart'' [],
      writepid_files = [], task_profiles = [], svc_interfaces = [], keycodes = [],
      oom_score_adjust = DEFAULT_OOM_SCORE_ADJUST, swappiness = - 1, soft_limit_in_bytes = - 1,
      limit_in_bytes = - 1, limit_percent = - 1, limit_property = [],
      process_cgroup_empty = False, is_override = False, start_order = 0, sigstop = False,
      restart_period = 5, timeout_period = None, updatable = False, svc_args = args,
      reap_callbacks = [], use_bootstrap_ns = False, post_data = False,
      running_at_post_data_reset = False, on_failure_reboot_target = None, from_apex = apex\<rparr>"

definition has :: "32 word \<Rightarrow> Service \<Rightarrow> bool" where
  "has f s = (svc_flags s AND f \<noteq> 0)"

definition set_flag :: "32 word \<Rightarrow> Service \<Rightarrow> Service" where
  "set_flag f s = s\<lparr>svc_flags := svc_flags s OR f\<rparr>"

definition clear_flag :: "32 word \<Rightarrow> Service \<Rightarrow> Service" where
  "clear_flag f s = s\<lparr>svc_flags := svc_flags s AND NOT f\<rparr>"

definition IsRunning :: "Service \<Rightarrow> bool" where "IsRunning s = has SVC_RUNNING s"
definition IsEnabled :: "Service \<Rightarrow> bool" where "IsEnabled s = (\<not> has SVC_DISABLED s)"
definition SetShutdownCritical :: "Service \<Rightarrow> Service" where
  "SetShutdownCritical s = set_flag SVC_SHUTDOWN_CRITICAL s"
definition IsShutdownCritical :: "Service \<Rightarrow> bool" where
  "IsShutdownCritical s = has SVC_SHUTDOWN_CRITICAL s"
definition set_oneshot :: "bool \<Rightarrow> Service \<Rightarrow> Service" where
  "set_oneshot v s = (if v then set_flag SVC_ONESHOT s else clear_flag SVC_ONESHOT s)"
definition AddReapCallback :: "string \<Rightarrow> Service \<Rightarrow> Service" where
  "AddReapCallback cb s = s\<lparr>reap_callbacks := reap_callbacks s @ [cb]\<rparr>"

section \<open>Effects and surroundings\<close>

datatype signal = SIGTERM | SIGKILL

record siginfo =
  exited_normally :: bool
  si_status :: int

datatype child_step =
  EnterNamespaces NamespaceInfo "string option"
| SetEnv string string
| PublishDescriptors
| WritePidToFiles "string list"
| SetTaskProfiles "string list"
| KeepCaps
| SetProcessAttributes ProcessAttributes
| SetExecCon string
| SetCapsForExec "nat list"
| DropInheritableCaps
| StopSelf
| Execv string "string list"
| ChildAbort string
| ExitWith int

datatype svc_effect =
  SetProperty string string
| KillGroup signal int
| LmkdUnregister string int
| LmkdRegister string "32 word" int int
| TriggerShutdown string
| Unlink string
| ReapCallback string siginfo
| PolicyLog "log_event list"
| FatalReboot "string option" string
| RunOnrestart Action
| DelayService string
| CreateDescriptors "SocketDescriptor list" "FileDescriptor list" string
| Spawn int "child_step list"
| WriteOomAdj int int
| SetSwappiness int
| SetSoftLimit int
| SetGroupLimit "64 word"

record os =
  os_now :: nat
  os_version :: int
  os_props :: "string \<Rightarrow> string"
  os_bool_props :: "string \<Rightarrow> bool"
  os_kill_ok :: bool
  os_console_ok :: bool
  os_stat_ok :: bool
  os_file_context :: "string result"
  os_fork :: int
  os_mount_ns_ready :: bool
  os_apex_updatable :: bool
  os_cgroup_ok :: bool
  os_page_size :: int
  os_num_pages :: int
  os_policy :: "InnitPolicy option"
  os_log_env :: log_env

text \<open>The static members, and what a service reads of the service list.\<close>

record svc_static =
  next_start_order :: nat
  is_exec_service_running :: bool
  exec_count :: nat
  services_updated :: bool
  is_post_data :: bool

definition NotifyStateChange :: "os \<Rightarrow> string \<Rightarrow> Service \<Rightarrow> svc_effect list" where
  "NotifyStateChange os new_state s =
     (if has SVC_TEMPORARY s then []
      else
        [SetProperty (''init.svc.'' @ svc_name s) new_state] @
        (if new_state = ''running'' \<and> os_props os (''ro.boottime.'' @ svc_name s) = []
         then [SetProperty (''ro.boottime.'' @ svc_name s) (to_string (int (time_started s)))] else []) @
        (if new_state = ''running''
         then [SetProperty (''init.svc_debug_pid.'' @ svc_name s) (to_string (svc_pid s))]
         else if new_state = ''stopped''
         then [SetProperty (''init.svc_debug_pid.'' @ svc_name s) []]
         else []))"

definition KillProcessGroup :: "os \<Rightarrow> signal \<Rightarrow> Service \<Rightarrow> Service \<times> svc_effect list" where
  "KillProcessGroup os sig s =
     (let tell = (if oom_score_adjust s \<noteq> DEFAULT_OOM_SCORE_ADJUST
                  then [LmkdUnregister (svc_name s) (svc_pid s)] else [])
      in if \<not> process_cgroup_empty s then
           (if os_kill_ok os then s\<lparr>process_cgroup_empty := True\<rparr> else s,
            KillGroup sig (svc_pid s) # tell)
         else (s, tell))"

section \<open>Reaping\<close>

definition process_failed :: "siginfo \<Rightarrow> bool" where
  "process_failed si = (\<not> exited_normally si \<or> si_status si \<noteq> 0)"

text \<open>The \<^verbatim>\<open>switch\<close> on the failure action of the policy.\<close>

definition failure_log :: "os \<Rightarrow> InnitPolicy \<Rightarrow> Service \<Rightarrow> siginfo \<Rightarrow> string \<Rightarrow> svc_effect" where
  "failure_log os pol s si action =
     PolicyLog (LogInfo (os_log_env os) pol
       (''service-failure name='' @ svc_name s @ '' exit='' @ to_string (si_status si) @
        '' action='' @ action @ '' reboot=suppressed''))"

definition apply_failure_action :: "os \<Rightarrow> siginfo \<Rightarrow> Service \<Rightarrow> Service \<times> svc_effect list" where
  "apply_failure_action os si s =
     (if InnitPolicyIsActive (os_policy os) \<and> process_failed si then
        (case GetInnitPolicy (os_policy os) of
           None \<Rightarrow> (s, [])
         | Some pol \<Rightarrow>
             (case GetFailureAction pol (svc_name s) of
                FA_Log \<Rightarrow>
                  (set_flag SVC_DISABLED (clear_flag SVC_CRITICAL (s\<lparr>on_failure_reboot_target := None\<rparr>)),
                   [failure_log os pol s si ''log''])
              | FA_Restart \<Rightarrow>
                  (clear_flag SVC_CRITICAL (s\<lparr>on_failure_reboot_target := None\<rparr>),
                   [failure_log os pol s si ''restart''])
              | FA_Ignore \<Rightarrow>
                  (set_flag SVC_DISABLED (clear_flag SVC_CRITICAL (s\<lparr>on_failure_reboot_target := None\<rparr>)),
                   [failure_log os pol s si ''ignore''])
              | FA_Reboot \<Rightarrow> (s, [])))
      else (s, []))"

text \<open>
  Crash counting. The result says whether the process aborts: \<^verbatim>\<open>LOG(FATAL)\<close> does not return.
\<close>

definition is_process_updatable :: "os \<Rightarrow> Service \<Rightarrow> bool" where
  "is_process_updatable os s = (\<not> use_bootstrap_ns s \<and> os_apex_updatable os)"

definition exit_reason :: "bool \<Rightarrow> Service \<Rightarrow> string" where
  "exit_reason boot_completed s =
     (if boot_completed then ''in '' @ to_string (int (fatal_crash_window s)) @ '' minutes''
      else ''before boot completed'')"

definition count_crash :: "os \<Rightarrow> Service \<Rightarrow> bool \<times> Service \<times> svc_effect list" where
  "count_crash os s =
     (if (has SVC_CRITICAL s \<or> is_process_updatable os s) \<and> \<not> has SVC_RESTART s then
        (let boot_completed = os_bool_props os ''sys.boot_completed''
         in if os_now os < time_crashed s + fatal_crash_window s * 60 * 1000000000 \<or> \<not> boot_completed then
              (let s = s\<lparr>crash_count := crash_count s + 1\<rparr>
               in if 4 < crash_count s then
                    (if has SVC_CRITICAL s then
                       (if \<not> os_bool_props os (''init.svc_debug.no_fatal.'' @ svc_name s)
                        then (True, s, [FatalReboot (fatal_reboot_target s)
                                (''critical process '' @ quoted (svc_name s) @ '' exited 4 times '' @
                                 exit_reason boot_completed s)])
                        else (False, s, []))
                     else
                       (False, s, [SetProperty ''sys.init.updatable_crashing_process_name'' (svc_name s),
                                   SetProperty ''sys.init.updatable_crashing'' ''1'']))
                  else (False, s, []))
            else (False, s\<lparr>time_crashed := os_now os, crash_count := 1\<rparr>, []))
      else (False, s, []))"

text \<open>What follows the policy step, in the order of the code.\<close>

definition reap_restart :: "os \<Rightarrow> Service \<Rightarrow> Service \<times> svc_effect list" where
  "reap_restart os s =
     (case count_crash os s of
        (True, s, effs) \<Rightarrow> (s, effs)
      | (False, s, effs) \<Rightarrow>
          (let s = set_flag SVC_RESTARTING (clear_flag SVC_RESTART s)
           in (s, effs @ [RunOnrestart (onrestart s)] @ NotifyStateChange os ''restarting'' s)))"

definition reap_exit :: "os \<Rightarrow> Service \<Rightarrow> Service \<times> svc_effect list" where
  "reap_exit os s =
     (let s = (clear_flag SVC_RUNNING (s\<lparr>svc_pid := 0\<rparr>))\<lparr>start_order := 0\<rparr>;
          s = (if has SVC_ONESHOT s \<and> \<not> has SVC_RESTART s \<and> \<not> has SVC_RESET s
               then set_flag SVC_DISABLED s else s)
      in if has (SVC_DISABLED OR SVC_RESET) s then (s, NotifyStateChange os ''stopped'' s)
         else reap_restart os s)"

definition reap_kill :: "os \<Rightarrow> Service \<Rightarrow> Service \<times> svc_effect list" where
  "reap_kill os s =
     (if \<not> has SVC_ONESHOT s \<or> has SVC_RESTART s then KillProcessGroup os SIGKILL s
      else if os_version os \<ge> API_R then KillProcessGroup os SIGKILL s
      else (s, []))"

definition reap_finish :: "os \<Rightarrow> siginfo \<Rightarrow> Service \<Rightarrow> svc_static \<Rightarrow> Service \<times> svc_static \<times> svc_effect list" where
  "reap_finish os si s st =
     (let shutdown = (case on_failure_reboot_target s of
                        None \<Rightarrow> []
                      | Some target \<Rightarrow> if process_failed si then [TriggerShutdown target] else []);
          st = (if has SVC_EXEC s then st\<lparr>is_exec_service_running := False\<rparr> else st);
          s = (if has SVC_EXEC s then clear_flag SVC_EXEC s else s)
      in if has SVC_TEMPORARY s then (s, st, shutdown)
         else (case reap_exit os s of (s, effs) \<Rightarrow> (s, st, shutdown @ effs)))"

definition Reap :: "os \<Rightarrow> siginfo \<Rightarrow> Service \<Rightarrow> svc_static \<Rightarrow> Service \<times> svc_static \<times> svc_effect list" where
  "Reap os si s st =
     (case reap_kill os s of
        (s1, e1) \<Rightarrow>
          (case apply_failure_action os si s1 of
             (s2, e2) \<Rightarrow>
               (case reap_finish os si s2 st of
                  (s3, st, e3) \<Rightarrow>
                    (s3, st, e1 @ map (\<lambda>sd. Unlink (''/dev/socket/'' @ sd_name sd)) (sockets s1) @
                             map (\<lambda>cb. ReapCallback cb si) (reap_callbacks s1) @ e2 @ e3))))"

section \<open>Starting\<close>

definition reboot_on_failure :: "Service \<Rightarrow> svc_effect list" where
  "reboot_on_failure s =
     (case on_failure_reboot_target s of None \<Rightarrow> [] | Some target \<Rightarrow> [TriggerShutdown target])"

text \<open>The limit of the memory group, computed on 64-bit unsigned values.\<close>

definition SIZE_MAX :: "64 word" where "SIZE_MAX = - 1"

definition use_memcg :: "Service \<Rightarrow> bool" where
  "use_memcg s =
     (swappiness s \<noteq> - 1 \<or> soft_limit_in_bytes s \<noteq> - 1 \<or> limit_in_bytes s \<noteq> - 1 \<or>
      limit_percent s \<noteq> - 1 \<or> limit_property s \<noteq> [])"

definition max_mem :: "64 word \<Rightarrow> 64 word \<Rightarrow> 64 word" where
  "max_mem page_size num_pages =
     (if num_pages < SIZE_MAX div page_size then num_pages * page_size else SIZE_MAX)"

definition computed_limit :: "libbase \<Rightarrow> os \<Rightarrow> Service \<Rightarrow> 64 word" where
  "computed_limit lb os s =
     (let l1 = (word_of_int (limit_in_bytes s) :: 64 word);
          l2 = (if limit_percent s \<noteq> - 1 \<and> 0 < os_page_size os \<and> 0 < os_num_pages os
                then min l1 (max_mem (word_of_int (os_page_size os)) (word_of_int (os_num_pages os))
                             div 100 * word_of_int (limit_percent s))
                else l1)
      in if limit_property s = [] then l2
         else (case ParseUint lb (os_props os (limit_property s)) 18446744073709551615 of
                 None \<Rightarrow> l2 | Some n \<Rightarrow> of_nat n))"

definition memcg_effects :: "libbase \<Rightarrow> os \<Rightarrow> Service \<Rightarrow> svc_effect list" where
  "memcg_effects lb os s =
     (if os_cgroup_ok os \<and> use_memcg s then
        (if swappiness s \<noteq> - 1 then [SetSwappiness (swappiness s)] else []) @
        (if soft_limit_in_bytes s \<noteq> - 1 then [SetSoftLimit (soft_limit_in_bytes s)] else []) @
        (if computed_limit lb os s \<noteq> SIZE_MAX then [SetGroupLimit (computed_limit lb os s)] else [])
      else [])"

text \<open>
  What the forked child does, as far as it follows from the service: a failure that is fatal
  ends the list with \<open>ChildAbort\<close>, and a failed \<^verbatim>\<open>execv\<close> with exit code 127. The answers of the
  system calls are the arguments.
\<close>

definition mount_namespace_override :: "Service \<Rightarrow> string option" where
  "mount_namespace_override s =
     (if svc_name s = ''ueventd'' then Some ''default''
      else if use_bootstrap_ns s then Some ''bootstrap''
      else None)"

definition SetProcessAttributesAndCaps :: "Service \<Rightarrow> child_step list" where
  "SetProcessAttributesAndCaps s =
     (if svc_capabilities s \<noteq> None \<and> pa_uid (proc_attr s) \<noteq> 0 then [KeepCaps] else []) @
     [SetProcessAttributes (proc_attr s)] @
     (if seclabel s \<noteq> [] then [SetExecCon (seclabel s)] else []) @
     (case svc_capabilities s of
        Some caps \<Rightarrow> [SetCapsForExec caps]
      | None \<Rightarrow> if pa_uid (proc_attr s) \<noteq> 0 then [DropInheritableCaps] else [])"

definition ExpandArgsAndExecv :: "(string \<Rightarrow> string) \<Rightarrow> int \<Rightarrow> string list \<Rightarrow> bool \<Rightarrow> child_step list" where
  "ExpandArgsAndExecv props version args stop =
     (case expand_args props version (drop 1 args) of
        Inl e \<Rightarrow> [ChildAbort (args ! 0 @ '': cannot expand arguments'' @ [APOSTROPHE] @ '': '' @ message e)]
      | Inr es \<Rightarrow> (if stop then [StopSelf] else []) @ [Execv (args ! 0) (args ! 0 # es), ExitWith 127])"

definition child_program :: "os \<Rightarrow> Service \<Rightarrow> child_step list" where
  "child_program os s =
     [EnterNamespaces (namespaces s) (mount_namespace_override s)] @
     map (\<lambda>(k, v). SetEnv k v) (environment_vars s) @
     [PublishDescriptors, WritePidToFiles (writepid_files s)] @
     (if task_profiles s = [] then [] else [SetTaskProfiles (task_profiles s)]) @
     SetProcessAttributesAndCaps s @
     ExpandArgsAndExecv (os_props os) (os_version os) (svc_args s) (sigstop s)"

text \<open>The part behind the checks: fork and bookkeeping. \<open>Spawn\<close> carries the program of the child.\<close>

definition start_child ::
  "libbase \<Rightarrow> os \<Rightarrow> string \<Rightarrow> Service \<Rightarrow> svc_static \<Rightarrow> unit result \<times> Service \<times> svc_static \<times> svc_effect list" where
  "start_child lb os scon s st =
     (let is_apexd = (svc_args s ! 0 = ''/system/bin/apexd'');
          s = (if \<not> os_mount_ns_ready os \<and> \<not> is_apexd then s\<lparr>use_bootstrap_ns := True\<rparr> else s);
          s = s\<lparr>post_data := is_post_data st\<rparr>;
          e1 = [CreateDescriptors (sockets s) (svc_files s) scon]
      in if os_fork os < 0 then
           (let s = s\<lparr>svc_pid := 0\<rparr>
            in (Err (ErrnoError ''Failed to fork''), s, st, e1 @ reboot_on_failure s))
         else
           (let e2 = (if oom_score_adjust s \<noteq> DEFAULT_OOM_SCORE_ADJUST
                      then [WriteOomAdj (os_fork os) (oom_score_adjust s)] else []);
                s0 = s;
                s = (set_flag SVC_RUNNING (s\<lparr>time_started := os_now os, svc_pid := os_fork os\<rparr>))
                      \<lparr>start_order := next_start_order st, process_cgroup_empty := False\<rparr>;
                st = st\<lparr>next_start_order := next_start_order st + 1\<rparr>;
                e3 = (if oom_score_adjust s \<noteq> DEFAULT_OOM_SCORE_ADJUST
                      then [LmkdRegister (svc_name s) (pa_uid (proc_attr s)) (svc_pid s) (oom_score_adjust s)]
                      else [])
            in (Ok (), s, st,
                e1 @ [Spawn (os_fork os) (child_program os s0)] @ e2 @ memcg_effects lb os s @ e3 @
                NotifyStateChange os ''running'' s)))"

definition console_of :: "os \<Rightarrow> Service \<Rightarrow> string" where
  "console_of os s =
     (if pa_console (proc_attr s) = []
      then ''/dev/'' @ (if os_props os ''ro.boot.console'' = [] then ''console''
                       else os_props os ''ro.boot.console'')
      else pa_console (proc_attr s))"

definition Start ::
  "libbase \<Rightarrow> os \<Rightarrow> Service \<Rightarrow> svc_static \<Rightarrow> unit result \<times> Service \<times> svc_static \<times> svc_effect list" where
  "Start lb os s st =
     (if updatable s \<and> \<not> services_updated st then
        (Err (Error (''Cannot start an updatable service '' @ quoted (svc_name s) @
           '' before configs from APEXes are all loaded. Queued for execution.'')),
         s, st, DelayService (svc_name s) # reboot_on_failure s)
      else
        (let disabled = has (SVC_DISABLED OR SVC_RESET) s;
             s = clear_flag (SVC_DISABLED OR SVC_RESTARTING OR SVC_RESET OR SVC_RESTART OR SVC_DISABLED_START) s
         in if has SVC_RUNNING s then
              (Ok (), if has SVC_ONESHOT s \<and> disabled then set_flag SVC_RESTART s else s, st, [])
            else
              (let s = (if has SVC_CONSOLE s
                        then s\<lparr>proc_attr := (proc_attr s)\<lparr>pa_console := console_of os s\<rparr>\<rparr> else s)
               in if has SVC_CONSOLE s \<and> \<not> os_console_ok os then
                    (Err (ErrnoError (''Couldn'' @ [APOSTROPHE] @ ''t open console '' @
                       quoted (pa_console (proc_attr s)))),
                     set_flag SVC_DISABLED s, st, reboot_on_failure s)
                  else if \<not> os_stat_ok os then
                    (Err (ErrnoError (''Cannot find '' @ quoted (svc_args s ! 0))),
                     set_flag SVC_DISABLED s, st, reboot_on_failure s)
                  else if seclabel s \<noteq> [] then start_child lb os (seclabel s) s st
                  else
                    (case os_file_context os of
                       Inl e \<Rightarrow> (Inl e, s, st, reboot_on_failure s)
                     | Inr scon \<Rightarrow> start_child lb os scon s st))))"

definition ExecStart ::
  "libbase \<Rightarrow> os \<Rightarrow> Service \<Rightarrow> svc_static \<Rightarrow> unit result \<times> Service \<times> svc_static \<times> svc_effect list" where
  "ExecStart lb os s st =
     (if updatable s \<and> \<not> services_updated st then
        (Err (Error (''Cannot start an updatable service '' @ quoted (svc_name s) @
           '' before configs from APEXes are all loaded'')),
         s, st, reboot_on_failure s)
      else
        (case Start lb os (set_flag SVC_ONESHOT s) st of
           (Inl e, s, st, effs) \<Rightarrow> (Inl e, s, st, effs @ reboot_on_failure s)
         | (Inr _, s, st, effs) \<Rightarrow>
             (Ok (), set_flag SVC_EXEC s, st\<lparr>is_exec_service_running := True\<rparr>, effs)))"

definition StartIfNotDisabled ::
  "libbase \<Rightarrow> os \<Rightarrow> Service \<Rightarrow> svc_static \<Rightarrow> unit result \<times> Service \<times> svc_static \<times> svc_effect list" where
  "StartIfNotDisabled lb os s st =
     (if \<not> has SVC_DISABLED s then Start lb os s st else (Ok (), set_flag SVC_DISABLED_START s, st, []))"

definition Enable ::
  "libbase \<Rightarrow> os \<Rightarrow> Service \<Rightarrow> svc_static \<Rightarrow> unit result \<times> Service \<times> svc_static \<times> svc_effect list" where
  "Enable lb os s st =
     (let s = clear_flag (SVC_DISABLED OR SVC_RC_DISABLED) s
      in if has SVC_DISABLED_START s then Start lb os s st else (Ok (), s, st, []))"

definition StartIfPostData ::
  "libbase \<Rightarrow> os \<Rightarrow> Service \<Rightarrow> svc_static \<Rightarrow> unit result \<times> Service \<times> svc_static \<times> svc_effect list" where
  "StartIfPostData lb os s st =
     (if running_at_post_data_reset s then Start lb os s st else (Ok (), s, st, []))"

section \<open>Stopping\<close>

definition kill_or_notify :: "os \<Rightarrow> Service \<Rightarrow> Service \<times> svc_effect list" where
  "kill_or_notify os s =
     (if svc_pid s \<noteq> 0 then
        (case KillProcessGroup os SIGKILL s of
           (s, effs) \<Rightarrow> (s, effs @ NotifyStateChange os ''stopping'' s))
      else (s, NotifyStateChange os ''stopped'' s))"

definition StopOrReset :: "os \<Rightarrow> 32 word \<Rightarrow> Service \<Rightarrow> Service \<times> svc_effect list" where
  "StopOrReset os how s =
     (let s = clear_flag (SVC_RESTARTING OR SVC_DISABLED_START) s;
          how = (if how \<noteq> SVC_DISABLED \<and> how \<noteq> SVC_RESET \<and> how \<noteq> SVC_RESTART then SVC_DISABLED else how);
          s = (if how = SVC_RESET
               then set_flag (if has SVC_RC_DISABLED s then SVC_DISABLED else SVC_RESET) s
               else set_flag how s);
          s = (if how = SVC_RESTART then clear_flag (SVC_DISABLED OR SVC_RESET) s
               else clear_flag SVC_RESTART s)
      in kill_or_notify os s)"

definition Reset :: "os \<Rightarrow> Service \<Rightarrow> Service \<times> svc_effect list" where
  "Reset os s = StopOrReset os SVC_RESET s"

definition ResetIfPostData :: "os \<Rightarrow> Service \<Rightarrow> Service \<times> svc_effect list" where
  "ResetIfPostData os s =
     (if post_data s then
        StopOrReset os SVC_RESET (if has SVC_RUNNING s then s\<lparr>running_at_post_data_reset := True\<rparr> else s)
      else (s, []))"

definition Stop :: "os \<Rightarrow> Service \<Rightarrow> Service \<times> svc_effect list" where
  "Stop os s = StopOrReset os SVC_DISABLED s"

definition Terminate :: "os \<Rightarrow> Service \<Rightarrow> Service \<times> svc_effect list" where
  "Terminate os s =
     (let s = set_flag SVC_DISABLED (clear_flag (SVC_RESTARTING OR SVC_DISABLED_START) s)
      in if svc_pid s \<noteq> 0 then
           (case KillProcessGroup os SIGTERM s of
              (s, effs) \<Rightarrow> (s, effs @ NotifyStateChange os ''stopping'' s))
         else (s, []))"

definition Timeout :: "os \<Rightarrow> Service \<Rightarrow> Service \<times> svc_effect list" where
  "Timeout os s =
     (if svc_pid s \<noteq> 0 then
        (case KillProcessGroup os SIGKILL s of
           (s, effs) \<Rightarrow> (s, effs @ NotifyStateChange os ''stopping'' s))
      else (s, []))"

definition Restart :: "libbase \<Rightarrow> os \<Rightarrow> Service \<Rightarrow> svc_static \<Rightarrow> Service \<times> svc_static \<times> svc_effect list" where
  "Restart lb os s st =
     (if has SVC_RUNNING s then (case StopOrReset os SVC_RESTART s of (s, effs) \<Rightarrow> (s, st, effs))
      else if \<not> has SVC_RESTARTING s then (case Start lb os s st of (_, r) \<Rightarrow> r)
      else (s, st, []))"

section \<open>Temporary services\<close>

text \<open>The index behind the first \<^verbatim>\<open>--\<close>, or 1 without one.\<close>

definition command_arg :: "string list \<Rightarrow> nat" where
  "command_arg args =
     (case find (\<lambda>i. args ! i = ''--'') [1..<length args] of Some i \<Rightarrow> i + 1 | None \<Rightarrow> 1)"

fun decode_gids :: "(string \<Rightarrow> 32 word option) \<Rightarrow> string list \<Rightarrow> 32 word list result" where
  "decode_gids getpwnam [] = Ok []"
| "decode_gids getpwnam (g # gs) =
     (case DecodeUid getpwnam g of
        Inl e \<Rightarrow> Err (Error (''Unable to decode GID for '' @ quoted g @ '': '' @ message e))
      | Inr v \<Rightarrow> rbind (decode_gids getpwnam gs) (\<lambda>vs. Ok (v # vs)))"

definition MakeTemporaryOneshotService ::
  "libbase \<Rightarrow> (string \<Rightarrow> 32 word option) \<Rightarrow> string list \<Rightarrow> svc_static \<Rightarrow> Service result \<times> svc_static" where
  "MakeTemporaryOneshotService lb getpwnam args st =
     (let ca = command_arg args
      in if 4 + NR_SVC_SUPP_GIDS < ca then
           (Err (Error ''exec called with too many supplementary group ids''), st)
         else if length args \<le> ca then (Err (Error ''exec called without command''), st)
         else
           (let str_args = drop ca args;
                st = st\<lparr>exec_count := exec_count st + 1\<rparr>;
                name = ''exec '' @ to_string (int (exec_count st)) @ '' ('' @ Join lb str_args '' '' @ '')'';
                label = (if 2 < ca \<and> args ! 1 \<noteq> ''-'' then args ! 1 else [])
            in (rbind (if 3 < ca
                       then (case DecodeUid getpwnam (args ! 2) of
                               Inl e \<Rightarrow> Err (Error (''Unable to decode UID for '' @ quoted (args ! 2) @ '': '' @ message e))
                             | Inr u \<Rightarrow> Ok u)
                       else Ok 0) (\<lambda>uid.
                rbind (if 4 < ca then decode_gids getpwnam (take (ca - 4) (drop 3 args)) else Ok [0]) (\<lambda>gids.
                  Ok (new_service name (SVC_ONESHOT OR SVC_TEMPORARY) uid (hd gids) (tl gids) [] label None
                        str_args False))), st)))"

section \<open>Reasoning about flags\<close>

definition single :: "32 word \<Rightarrow> bool" where
  "single f = (\<exists>n. f = 2 ^ n)"

lemma singleI: "f = 2 ^ n \<Longrightarrow> single f"
  by (auto simp: single_def)

lemma single_flags [simp]:
  "single SVC_DISABLED" "single SVC_ONESHOT" "single SVC_RUNNING" "single SVC_RESTARTING"
  "single SVC_CONSOLE" "single SVC_CRITICAL" "single SVC_RESET" "single SVC_RC_DISABLED"
  "single SVC_RESTART" "single SVC_DISABLED_START" "single SVC_EXEC"
  "single SVC_SHUTDOWN_CRITICAL" "single SVC_TEMPORARY"
  by ((rule singleI [of _ 0], simp; fail) | (rule singleI [of _ 1], simp; fail)
     | (rule singleI [of _ 2], simp; fail) | (rule singleI [of _ 3], simp; fail)
     | (rule singleI [of _ 4], simp; fail) | (rule singleI [of _ 5], simp; fail)
     | (rule singleI [of _ 6], simp; fail) | (rule singleI [of _ 7], simp; fail)
     | (rule singleI [of _ 8], simp; fail) | (rule singleI [of _ 9], simp; fail)
     | (rule singleI [of _ 10], simp; fail) | (rule singleI [of _ 11], simp; fail)
     | (rule singleI [of _ 12], simp; fail))+

lemma has_set_flag [simp]: "single f \<Longrightarrow> has f (set_flag g s) \<longleftrightarrow> has f s \<or> g AND f \<noteq> 0"
  by (auto simp: single_def has_def set_flag_def and_exp_eq_0_iff_not_bit bit_or_iff)

lemma has_clear_flag [simp]: "single f \<Longrightarrow> has f (clear_flag g s) \<longleftrightarrow> has f s \<and> g AND f = 0"
  using bit_imp_le_length [of "svc_flags s"]
  by (auto simp: single_def has_def clear_flag_def and_exp_eq_0_iff_not_bit bit_and_iff bit_not_iff)

lemma has_or: "has (f OR g) s \<longleftrightarrow> has f s \<or> has g s"
  by (simp add: has_def bit.conj_disj_distrib or_eq_0_iff)

lemma has_disabled_or_reset [simp]: "has 65 s \<longleftrightarrow> has SVC_DISABLED s \<or> has SVC_RESET s"
  using has_or [of SVC_DISABLED SVC_RESET s] by simp

lemma has_frame [simp]:
  "has f (s\<lparr>svc_pid := a\<rparr>) = has f s" "has f (s\<lparr>start_order := b\<rparr>) = has f s"
  "has f (s\<lparr>on_failure_reboot_target := c\<rparr>) = has f s" "has f (s\<lparr>crash_count := d\<rparr>) = has f s"
  "has f (s\<lparr>time_crashed := e\<rparr>) = has f s" "has f (s\<lparr>process_cgroup_empty := x\<rparr>) = has f s"
  "has f (s\<lparr>time_started := e\<rparr>) = has f s" "has f (s\<lparr>use_bootstrap_ns := x\<rparr>) = has f s"
  "has f (s\<lparr>post_data := x\<rparr>) = has f s" "has f (s\<lparr>proc_attr := p\<rparr>) = has f s"
  "has f (s\<lparr>running_at_post_data_reset := x\<rparr>) = has f s" "has f (s\<lparr>reap_callbacks := r\<rparr>) = has f s"
  by (simp_all add: has_def)

lemma flag_frame [simp]:
  "svc_pid (set_flag f s) = svc_pid s" "svc_pid (clear_flag f s) = svc_pid s"
  "svc_name (set_flag f s) = svc_name s" "svc_name (clear_flag f s) = svc_name s"
  "on_failure_reboot_target (set_flag f s) = on_failure_reboot_target s"
  "on_failure_reboot_target (clear_flag f s) = on_failure_reboot_target s"
  "start_order (set_flag f s) = start_order s" "start_order (clear_flag f s) = start_order s"
  "svc_args (set_flag f s) = svc_args s" "svc_args (clear_flag f s) = svc_args s"
  "crash_count (set_flag f s) = crash_count s" "crash_count (clear_flag f s) = crash_count s"
  "updatable (set_flag f s) = updatable s" "updatable (clear_flag f s) = updatable s"
  "time_crashed (set_flag f s) = time_crashed s" "time_crashed (clear_flag f s) = time_crashed s"
  "fatal_crash_window (set_flag f s) = fatal_crash_window s"
  "fatal_crash_window (clear_flag f s) = fatal_crash_window s"
  by (simp_all add: set_flag_def clear_flag_def)

lemma KillProcessGroup_frame:
  assumes "KillProcessGroup os sig s = (s', effs)"
  shows "has f s' = has f s" "svc_pid s' = svc_pid s" "svc_name s' = svc_name s"
    "on_failure_reboot_target s' = on_failure_reboot_target s" "svc_args s' = svc_args s"
    "crash_count s' = crash_count s"
  using assms by (auto simp: KillProcessGroup_def Let_def split: if_splits)

section \<open>Life cycle\<close>

text \<open>
  The states a service can be in: a process exists exactly while the service is running, and a
  service that waits to be restarted is neither running nor disabled nor reset.
\<close>

definition svc_inv :: "Service \<Rightarrow> bool" where
  "svc_inv s =
     ((has SVC_RUNNING s \<longleftrightarrow> svc_pid s \<noteq> 0) \<and>
      (has SVC_RESTARTING s \<longrightarrow> \<not> has SVC_RUNNING s \<and> \<not> has SVC_DISABLED s \<and> \<not> has SVC_RESET s))"

lemma svc_inv_flags:
  assumes "svc_inv s" "svc_pid s' = svc_pid s" "has SVC_RUNNING s' = has SVC_RUNNING s"
    and "has SVC_RESTARTING s' \<Longrightarrow> has SVC_RESTARTING s \<and> (has SVC_DISABLED s' \<longrightarrow> has SVC_DISABLED s) \<and>
           (has SVC_RESET s' \<longrightarrow> has SVC_RESET s)"
  shows "svc_inv s'"
  using assms by (auto simp: svc_inv_def)

lemma new_service_inv:
  "flags AND SVC_RUNNING = 0 \<Longrightarrow> flags AND SVC_RESTARTING = 0 \<Longrightarrow>
   svc_inv (new_service name flags uid gid sg ns label sc args apex)"
  by (simp add: svc_inv_def has_def new_service_def)

lemma KillProcessGroup_inv: "svc_inv s \<Longrightarrow> svc_inv (fst (KillProcessGroup os sig s))"
  by (cases "KillProcessGroup os sig s")
     (auto simp: svc_inv_def KillProcessGroup_frame)

lemma kill_or_notify_inv: "svc_inv s \<Longrightarrow> svc_inv (fst (kill_or_notify os s))"
  using KillProcessGroup_inv [of s os SIGKILL] by (auto simp: kill_or_notify_def split: prod.splits)

lemma StopOrReset_inv: "svc_inv s \<Longrightarrow> svc_inv (fst (StopOrReset os how s))"
  unfolding StopOrReset_def Let_def
  by (rule kill_or_notify_inv, rule svc_inv_flags, assumption)
     (auto simp: bit.conj_disj_distrib2 split: if_splits)

lemma Terminate_inv: "svc_inv s \<Longrightarrow> svc_inv (fst (Terminate os s))"
proof -
  assume "svc_inv s"
  then have "svc_inv (set_flag SVC_DISABLED (clear_flag (SVC_RESTARTING OR SVC_DISABLED_START) s))"
    by (rule svc_inv_flags) (auto simp: bit.conj_disj_distrib2)
  then show ?thesis
    using KillProcessGroup_inv [of "set_flag SVC_DISABLED (clear_flag (SVC_RESTARTING OR SVC_DISABLED_START) s)"
        os SIGTERM]
    by (auto simp: Terminate_def Let_def split: prod.splits)
qed

lemma Timeout_inv: "svc_inv s \<Longrightarrow> svc_inv (fst (Timeout os s))"
  using KillProcessGroup_inv [of s os SIGKILL] by (auto simp: Timeout_def split: prod.splits)

lemma apply_failure_action_inv:
  assumes "svc_inv s" "\<not> has SVC_RESTARTING s"
  shows "svc_inv (fst (apply_failure_action os si s)) \<and>
         \<not> has SVC_RESTARTING (fst (apply_failure_action os si s))"
  using assms
  by (auto simp: apply_failure_action_def svc_inv_def split: option.split FailureAction.split)

lemma count_crash_frame:
  assumes "count_crash os s = (b, s', effs)"
  shows "has f s' = has f s" "svc_pid s' = svc_pid s" "svc_name s' = svc_name s"
    "onrestart s' = onrestart s" "on_failure_reboot_target s' = on_failure_reboot_target s"
  using assms by (auto simp: count_crash_def Let_def split: if_splits)

lemma reap_restart_inv:
  assumes "\<not> has SVC_RUNNING s" "svc_pid s = 0" "\<not> has SVC_DISABLED s" "\<not> has SVC_RESET s" "\<not> has SVC_RESTARTING s"
  shows "svc_inv (fst (reap_restart os s))"
proof -
  obtain b s1 effs where c: "count_crash os s = (b, s1, effs)" by (cases "count_crash os s")
  then show ?thesis
    using assms by (cases b) (simp_all add: reap_restart_def svc_inv_def count_crash_frame Let_def)
qed

lemma reap_exit_inv:
  assumes "\<not> has SVC_RESTARTING s"
  shows "svc_inv (fst (reap_exit os s))"
proof -
  define s1 where "s1 = (clear_flag SVC_RUNNING (s\<lparr>svc_pid := 0\<rparr>))\<lparr>start_order := 0\<rparr>"
  define s2 where "s2 = (if has SVC_ONESHOT s1 \<and> \<not> has SVC_RESTART s1 \<and> \<not> has SVC_RESET s1
               then set_flag SVC_DISABLED s1 else s1)"
  have s2: "\<not> has SVC_RUNNING s2" "svc_pid s2 = 0" "\<not> has SVC_RESTARTING s2"
    using assms by (simp_all add: s2_def s1_def)
  show ?thesis
  proof (cases "has (SVC_DISABLED OR SVC_RESET) s2")
    case True
    then show ?thesis
      using s2 by (simp add: reap_exit_def s1_def [symmetric] s2_def [symmetric] svc_inv_def Let_def)
  next
    case False
    then show ?thesis
      using s2 reap_restart_inv [of s2 os]
      by (simp add: reap_exit_def s1_def [symmetric] s2_def [symmetric] Let_def)
  qed
qed

lemma reap_kill_frame:
  assumes "reap_kill os s = (s', effs)"
  shows "has f s' = has f s" "svc_pid s' = svc_pid s" "svc_name s' = svc_name s"
    "on_failure_reboot_target s' = on_failure_reboot_target s"
  using assms KillProcessGroup_frame by (auto simp: reap_kill_def split: if_splits)

lemma reap_finish_inv:
  assumes "svc_inv s" "\<not> has SVC_RESTARTING s"
  shows "svc_inv (fst (reap_finish os si s st))"
proof -
  have "svc_inv (clear_flag SVC_EXEC s)" using assms by (auto simp: svc_inv_def)
  then show ?thesis
    using assms reap_exit_inv [of s os] reap_exit_inv [of "clear_flag SVC_EXEC s" os]
    by (simp add: reap_finish_def Let_def split_beta)
qed

lemma Reap_inv:
  assumes "svc_inv s" "svc_pid s \<noteq> 0"
  shows "svc_inv (fst (Reap os si s st))"
proof -
  obtain s1 e1 where 1: "reap_kill os s = (s1, e1)" by fastforce
  obtain s2 e2 where 2: "apply_failure_action os si s1 = (s2, e2)" by fastforce
  have "svc_inv s1" "\<not> has SVC_RESTARTING s1"
    using assms by (auto simp: svc_inv_def reap_kill_frame [OF 1])
  then have "svc_inv s2" "\<not> has SVC_RESTARTING s2"
    using apply_failure_action_inv [of s1 os si] 2 by auto
  then show ?thesis using reap_finish_inv [of s2 os si st] 1 2 by (simp add: Reap_def split_beta)
qed

lemma start_child_inv:
  assumes "svc_inv s" "\<not> has SVC_RUNNING s" "\<not> has SVC_RESTARTING s" "os_fork os \<noteq> 0"
  shows "svc_inv (fst (snd (start_child lb os scon s st)))"
  using assms by (simp add: start_child_def svc_inv_def Let_def)

lemma Start_inv:
  assumes "svc_inv s" "os_fork os \<noteq> 0"
  shows "svc_inv (fst (snd (Start lb os s st)))"
proof -
  define s1 where "s1 = clear_flag (SVC_DISABLED OR SVC_RESTARTING OR SVC_RESET OR SVC_RESTART OR SVC_DISABLED_START) s"
  have 1: "svc_inv s1" "\<not> has SVC_RESTARTING s1"
    using assms(1) by (auto simp: s1_def svc_inv_def)
  define s2 where "s2 = (if has SVC_CONSOLE s1
      then s1\<lparr>proc_attr := (proc_attr s1)\<lparr>pa_console := console_of os s1\<rparr>\<rparr> else s1)"
  have 2: "svc_inv s2" "\<not> has SVC_RESTARTING s2" "has SVC_RUNNING s2 = has SVC_RUNNING s1"
    using 1 by (auto simp: s2_def svc_inv_def)
  have 3: "svc_inv (set_flag SVC_DISABLED s2)" "svc_inv (set_flag SVC_RESTART s1)"
    using 1 2 by (auto simp: svc_inv_def)
  show ?thesis
    unfolding Start_def Let_def s1_def [symmetric] s2_def [symmetric]
    using assms 1 2 3 start_child_inv [of s2 os] by (simp split: sum.split)
qed

lemma ExecStart_inv:
  assumes "svc_inv s" "os_fork os \<noteq> 0"
  shows "svc_inv (fst (snd (ExecStart lb os s st)))"
proof -
  have "svc_inv (set_flag SVC_ONESHOT s)" using assms(1) by (auto simp: svc_inv_def)
  then have "svc_inv (fst (snd (Start lb os (set_flag SVC_ONESHOT s) st)))" using assms(2) by (rule Start_inv)
  then show ?thesis
    using assms(1) by (auto simp: ExecStart_def svc_inv_def split: prod.split sum.split)
qed

lemma start_variants_inv:
  assumes "svc_inv s" "os_fork os \<noteq> 0"
  shows "svc_inv (fst (snd (StartIfNotDisabled lb os s st)))" "svc_inv (fst (snd (Enable lb os s st)))"
    "svc_inv (fst (snd (StartIfPostData lb os s st)))" "svc_inv (fst (Restart lb os s st))"
proof -
  have "svc_inv (set_flag SVC_DISABLED_START s)"
    "svc_inv (clear_flag (SVC_DISABLED OR SVC_RC_DISABLED) s)"
    using assms(1) by (auto simp: svc_inv_def)
  then show "svc_inv (fst (snd (StartIfNotDisabled lb os s st)))" "svc_inv (fst (snd (Enable lb os s st)))"
    "svc_inv (fst (snd (StartIfPostData lb os s st)))" "svc_inv (fst (Restart lb os s st))"
    using assms Start_inv [OF assms] StopOrReset_inv [OF assms(1)]
      Start_inv [of "clear_flag (SVC_DISABLED OR SVC_RC_DISABLED) s" os lb st]
    by (auto simp: StartIfNotDisabled_def Enable_def StartIfPostData_def Restart_def Let_def split_beta)
qed

section \<open>Reboots and restarts\<close>

fun reboots :: "svc_effect \<Rightarrow> bool" where
  "reboots (TriggerShutdown _) = True"
| "reboots (FatalReboot _ _) = True"
| "reboots _ = False"

fun is_spawn :: "svc_effect \<Rightarrow> bool" where
  "is_spawn (Spawn _ _) = True"
| "is_spawn _ = False"

lemma NotifyStateChange_quiet:
  "\<not> list_ex reboots (NotifyStateChange os st s)" "filter is_spawn (NotifyStateChange os st s) = []"
  by (simp_all add: NotifyStateChange_def)

lemma KillProcessGroup_quiet: "\<not> list_ex reboots (snd (KillProcessGroup os sig s))"
  by (simp add: KillProcessGroup_def Let_def)

lemma reap_kill_quiet: "\<not> list_ex reboots (snd (reap_kill os s))"
  by (simp add: reap_kill_def KillProcessGroup_quiet)

lemma list_ex_map_quiet:
  "\<not> list_ex reboots (map (\<lambda>sd. Unlink (f sd)) xs)" "\<not> list_ex reboots (map (\<lambda>cb. ReapCallback cb si) ys)"
  by (simp_all add: list_ex_iff)

text \<open>When the crash counter ends the process.\<close>

definition fatal_crash :: "os \<Rightarrow> Service \<Rightarrow> bool" where
  "fatal_crash os s =
     (has SVC_CRITICAL s \<and> \<not> has SVC_RESTART s \<and> 4 \<le> crash_count s \<and>
      (os_now os < time_crashed s + fatal_crash_window s * 60 * 1000000000 \<or>
       \<not> os_bool_props os ''sys.boot_completed'') \<and>
      \<not> os_bool_props os (''init.svc_debug.no_fatal.'' @ svc_name s))"

lemma count_crash_fatal:
  "fst (count_crash os s) = fatal_crash os s"
  "list_ex reboots (snd (snd (count_crash os s))) = fatal_crash os s"
  by (auto simp: count_crash_def fatal_crash_def Let_def)

lemma reap_restart_spec:
  assumes "\<not> has SVC_RESTARTING s"
  shows "has SVC_RESTARTING (fst (reap_restart os s)) = (\<not> fatal_crash os s)"
    "list_ex reboots (snd (reap_restart os s)) = fatal_crash os s"
proof -
  obtain b s1 effs where c: "count_crash os s = (b, s1, effs)" by (cases "count_crash os s")
  have b: "b = fatal_crash os s" "list_ex reboots effs = fatal_crash os s"
    using count_crash_fatal [of os s] c by simp_all
  show "has SVC_RESTARTING (fst (reap_restart os s)) = (\<not> fatal_crash os s)"
    "list_ex reboots (snd (reap_restart os s)) = fatal_crash os s"
    using assms c b count_crash_frame(1) [OF c]
    by (cases b; simp add: reap_restart_def Let_def NotifyStateChange_quiet)+
qed

definition stays_down :: "Service \<Rightarrow> bool" where
  "stays_down s =
     (has SVC_DISABLED s \<or> has SVC_RESET s \<or> has SVC_ONESHOT s \<and> \<not> has SVC_RESTART s)"

lemma reap_exit_spec:
  assumes "\<not> has SVC_RESTARTING s"
  shows "has SVC_RESTARTING (fst (reap_exit os s)) = (\<not> stays_down s \<and> \<not> fatal_crash os s)"
    "list_ex reboots (snd (reap_exit os s)) = (\<not> stays_down s \<and> fatal_crash os s)"
proof -
  define s1 where "s1 = (clear_flag SVC_RUNNING (s\<lparr>svc_pid := 0\<rparr>))\<lparr>start_order := 0\<rparr>"
  define s2 where "s2 = (if has SVC_ONESHOT s1 \<and> \<not> has SVC_RESTART s1 \<and> \<not> has SVC_RESET s1
               then set_flag SVC_DISABLED s1 else s1)"
  have s2: "\<not> has SVC_RESTARTING s2" using assms by (simp add: s2_def s1_def)
  have down: "has (SVC_DISABLED OR SVC_RESET) s2 \<longleftrightarrow> stays_down s"
    by (auto simp: s2_def s1_def stays_down_def)
  have fatal: "fatal_crash os s2 = fatal_crash os s" if "\<not> stays_down s"
    using that by (auto simp: s2_def s1_def fatal_crash_def stays_down_def)
  show "has SVC_RESTARTING (fst (reap_exit os s)) = (\<not> stays_down s \<and> \<not> fatal_crash os s)"
    "list_ex reboots (snd (reap_exit os s)) = (\<not> stays_down s \<and> fatal_crash os s)"
    unfolding reap_exit_def Let_def s1_def [symmetric] s2_def [symmetric] down
    using s2 reap_restart_spec [OF s2, of os] fatal by (auto simp: NotifyStateChange_quiet)
qed

lemma reap_finish_spec:
  assumes "\<not> has SVC_RESTARTING s" "\<not> has SVC_TEMPORARY s"
  shows "has SVC_RESTARTING (fst (reap_finish os si s st)) = (\<not> stays_down s \<and> \<not> fatal_crash os s)"
    "list_ex reboots (snd (snd (reap_finish os si s st))) =
       (process_failed si \<and> on_failure_reboot_target s \<noteq> None \<or> \<not> stays_down s \<and> fatal_crash os s)"
proof -
  have "stays_down (clear_flag SVC_EXEC s) = stays_down s" "fatal_crash os (clear_flag SVC_EXEC s) = fatal_crash os s"
    by (simp_all add: stays_down_def fatal_crash_def)
  then show "has SVC_RESTARTING (fst (reap_finish os si s st)) = (\<not> stays_down s \<and> \<not> fatal_crash os s)"
    "list_ex reboots (snd (snd (reap_finish os si s st))) =
       (process_failed si \<and> on_failure_reboot_target s \<noteq> None \<or> \<not> stays_down s \<and> fatal_crash os s)"
    using assms reap_exit_spec [of s os] reap_exit_spec [of "clear_flag SVC_EXEC s" os]
    by (auto simp: reap_finish_def Let_def split_beta split: option.split)
qed

lemma reap_finish_temporary:
  "has SVC_TEMPORARY s \<Longrightarrow>
   list_ex reboots (snd (snd (reap_finish os si s st))) =
     (process_failed si \<and> on_failure_reboot_target s \<noteq> None)"
  by (auto simp: reap_finish_def Let_def split: option.split)

lemma Reap_reboots:
  assumes "reap_kill os s = (s1, e1)" "apply_failure_action os si s1 = (s2, e2)"
  shows "list_ex reboots (snd (snd (Reap os si s st))) =
         (list_ex reboots e2 \<or> list_ex reboots (snd (snd (reap_finish os si s2 st))))"
    and "fst (Reap os si s st) = fst (reap_finish os si s2 st)"
  using assms reap_kill_quiet [of os s]
    list_ex_map_quiet(1) [of "\<lambda>sd. ''/dev/socket/'' @ sd_name sd" "sockets s1"]
    list_ex_map_quiet(2) [of si "reap_callbacks s1"]
  by (auto simp: Reap_def split_beta)

lemma no_policy_action: "os_policy os = None \<Longrightarrow> apply_failure_action os si s = (s, [])"
  by (simp add: apply_failure_action_def InnitPolicyIsActive_def)

lemma suppressed_action:
  assumes "os_policy os = Some pol" "pol_loaded pol" "process_failed si"
    and "GetFailureAction pol (svc_name s) \<noteq> FA_Reboot" "apply_failure_action os si s = (s', effs)"
  shows "on_failure_reboot_target s' = None" "\<not> has SVC_CRITICAL s'" "\<not> list_ex reboots effs"
    "GetFailureAction pol (svc_name s) \<noteq> FA_Restart \<Longrightarrow> has SVC_DISABLED s'"
    "has SVC_TEMPORARY s' = has SVC_TEMPORARY s" "has SVC_RESTARTING s' = has SVC_RESTARTING s"
  using assms
  by (auto simp: apply_failure_action_def InnitPolicyIsActive_def GetInnitPolicy_def failure_log_def
      split: FailureAction.splits)

lemma quiet_spawns [simp]:
  "filter is_spawn (reboot_on_failure x) = []" "filter is_spawn (memcg_effects lb os x) = []"
  by (simp_all add: reboot_on_failure_def memcg_effects_def split: option.split)

text \<open>How many children an outcome has forked, against the state before.\<close>

definition forks_ok :: "Service \<Rightarrow> 'r \<times> Service \<times> svc_static \<times> svc_effect list \<Rightarrow> bool" where
  "forks_ok s out =
     (length (filter is_spawn (snd (snd (snd out)))) =
      (if has SVC_RUNNING (fst (snd out)) \<and> \<not> has SVC_RUNNING s then 1 else 0))"

lemma start_child_forks: "\<not> has SVC_RUNNING s0 \<Longrightarrow> \<not> has SVC_RUNNING s \<Longrightarrow> forks_ok s0 (start_child lb os scon s st)"
  by (simp add: start_child_def forks_ok_def Let_def NotifyStateChange_quiet)

lemma Start_forks: "forks_ok s (Start lb os s st)"
proof -
  define s1 where "s1 = clear_flag (SVC_DISABLED OR SVC_RESTARTING OR SVC_RESET OR SVC_RESTART OR SVC_DISABLED_START) s"
  have 1: "has SVC_RUNNING s1 = has SVC_RUNNING s" by (simp add: s1_def)
  define s2 where "s2 = (if has SVC_CONSOLE s1
      then s1\<lparr>proc_attr := (proc_attr s1)\<lparr>pa_console := console_of os s1\<rparr>\<rparr> else s1)"
  have 2: "has SVC_RUNNING s2 = has SVC_RUNNING s" using 1 by (simp add: s2_def)
  have quiet: "forks_ok s (r, x, st, effs)" if "filter is_spawn effs = []" "has SVC_RUNNING x = has SVC_RUNNING s" for r :: "unit result" and x effs
    using that by (simp add: forks_ok_def)
  show ?thesis
  proof (cases "has SVC_RUNNING s")
    case True
    then show ?thesis
      unfolding Start_def Let_def s1_def [symmetric] s2_def [symmetric]
      using 1 by (simp add: quiet)
  next
    case False
    then show ?thesis
      unfolding Start_def Let_def s1_def [symmetric] s2_def [symmetric]
      using 1 2 start_child_forks [of s s2] by (simp add: quiet split: sum.split)
  qed
qed

section \<open>Properties\<close>

text \<open>
  C8: the life cycle. Every operation keeps the two facts the supervisor relies on: a service
  has a process exactly while it is marked running, and a service that waits to be restarted is
  not running, not disabled and not reset. (\<^verbatim>\<open>fork\<close> never returns 0 in the parent, and only a
  service with a process is reaped.)
\<close>

theorem service_life_cycle:
  assumes "svc_inv s" "os_fork os \<noteq> 0"
  shows "svc_inv (fst (snd (Start lb os s st))) \<and> svc_inv (fst (snd (ExecStart lb os s st))) \<and>
         svc_inv (fst (snd (StartIfNotDisabled lb os s st))) \<and> svc_inv (fst (snd (Enable lb os s st))) \<and>
         svc_inv (fst (snd (StartIfPostData lb os s st))) \<and> svc_inv (fst (Restart lb os s st)) \<and>
         svc_inv (fst (Stop os s)) \<and> svc_inv (fst (Reset os s)) \<and> svc_inv (fst (ResetIfPostData os s)) \<and>
         svc_inv (fst (Terminate os s)) \<and> svc_inv (fst (Timeout os s)) \<and>
         (svc_pid s \<noteq> 0 \<longrightarrow> svc_inv (fst (Reap os si s st)))"
proof -
  have "svc_inv (s\<lparr>running_at_post_data_reset := True\<rparr>)" using assms(1) by (auto simp: svc_inv_def)
  then show ?thesis
    using assms Start_inv ExecStart_inv start_variants_inv StopOrReset_inv Terminate_inv Timeout_inv Reap_inv
    by (simp add: Stop_def Reset_def ResetIfPostData_def)
qed


text \<open>
  C11: without a policy, when a service's process ends, the service is queued for a restart
  exactly when it is not disabled, not reset and not a oneshot (unless a restart was asked for),
  and its crash is not fatal; and the device goes down exactly when the process failed under
  \<^verbatim>\<open>reboot_on_failure\<close>, or the service would be restarted and the crash is fatal, that is at the
  fifth crash of a critical service inside its window or before boot has completed.
\<close>

theorem reap_decision:
  assumes "os_policy os = None" "\<not> has SVC_RESTARTING s" "\<not> has SVC_TEMPORARY s"
  shows "has SVC_RESTARTING (fst (Reap os si s st)) = (\<not> stays_down s \<and> \<not> fatal_crash os s) \<and>
         list_ex reboots (snd (snd (Reap os si s st))) =
           (process_failed si \<and> on_failure_reboot_target s \<noteq> None \<or> \<not> stays_down s \<and> fatal_crash os s)"
proof -
  obtain s1 e1 where 1: "reap_kill os s = (s1, e1)" by fastforce
  have 2: "apply_failure_action os si s1 = (s1, [])" using assms(1) by (rule no_policy_action)
  have "s1 = s \<or> (\<exists>b. s1 = s\<lparr>process_cgroup_empty := b\<rparr>)"
    using 1 by (auto simp: reap_kill_def KillProcessGroup_def Let_def split: if_splits)
  then have "stays_down s1 = stays_down s" "fatal_crash os s1 = fatal_crash os s"
    by (auto simp: stays_down_def fatal_crash_def)
  then show ?thesis
    using assms Reap_reboots [OF 1 2, of st] reap_finish_spec [of s1 os si st] reap_kill_frame [OF 1]
    by simp
qed

text \<open>
  Starting a service forks at most one child, and does so exactly when the service goes
  from not running to running.
\<close>

theorem start_forks_once:
  "case Start lb os s st of (r, s', st', effs) \<Rightarrow>
     length (filter is_spawn effs) = (if has SVC_RUNNING s' \<and> \<not> has SVC_RUNNING s then 1 else 0)"
  using Start_forks [of s lb os st] by (cases "Start lb os s st") (simp add: forks_ok_def)

subsection \<open>Witnesses\<close>

definition sample_os :: os where
  "sample_os =
     \<lparr>os_now = 1, os_version = 30, os_props = (\<lambda>_. []), os_bool_props = (\<lambda>_. False), os_kill_ok = True,
      os_console_ok = True, os_stat_ok = True, os_file_context = Inr ''u:r:adbd:s0'', os_fork = 42,
      os_mount_ns_ready = True, os_apex_updatable = False, os_cgroup_ok = True, os_page_size = 4096,
      os_num_pages = 1000,
      os_policy = Some (empty_policy\<lparr>pol_loaded := True,
        failure_rules := [\<lparr>name_pattern = ''*'', faction = FA_Log\<rparr>]\<rparr>),
      os_log_env = \<lparr>can_open = (\<lambda>_. True), Timestamp = []\<rparr>\<rparr>"

definition sample_static :: svc_static where
  "sample_static = \<lparr>next_start_order = 1, is_exec_service_running = False, exec_count = 0,
                    services_updated = True, is_post_data = False\<rparr>"

definition sample_service :: Service where
  "sample_service = (new_service ''adbd'' (SVC_RUNNING OR SVC_CRITICAL) 0 0 [] [] [] None [''/system/bin/adbd''] False)
     \<lparr>svc_pid := 7, crash_count := 4\<rparr>"

lemma sample_service_flags [simp]:
  "has f sample_service = (36 AND f \<noteq> 0)" "svc_pid sample_service = 7" "svc_name sample_service = ''adbd''"
  "crash_count sample_service = 4" "on_failure_reboot_target sample_service = None"
  by (simp_all add: sample_service_def has_def new_service_def)

theorem service_life_cycle_witness:
  "svc_inv (fst (snd (Start ref_libbase sample_os sample_service sample_static))) \<and>
   svc_inv (fst (Reap sample_os \<lparr>exited_normally = True, si_status = 1\<rparr> sample_service sample_static))"
  using service_life_cycle [of sample_service sample_os ref_libbase sample_static]
  by (simp add: svc_inv_def [of sample_service] sample_os_def)


theorem reap_decision_witness:
  "list_ex reboots (snd (snd (Reap (sample_os\<lparr>os_policy := None\<rparr>) \<lparr>exited_normally = True, si_status = 1\<rparr>
     sample_service sample_static)))"
proof -
  have p: "os_policy (sample_os\<lparr>os_policy := None\<rparr>) = None" by simp
  show ?thesis
    using reap_decision [OF p, of sample_service "\<lparr>exited_normally = True, si_status = 1\<rparr>" sample_static]
    by (simp add: stays_down_def fatal_crash_def sample_os_def)
qed

end
