(* ===== verification/Service_List.thy ===== *)
theory Service_List
  imports Service
begin

text \<open>
  The list of services (\<^verbatim>\<open>init/service_list.cpp\<close>), the operations that run over it, and its two
  users that supervise processes: the reaper (\<^verbatim>\<open>init/sigchld_handler.cpp\<close>) and the timers of
  the main loop (\<^verbatim>\<open>HandleProcessActions\<close> of \<^verbatim>\<open>init/init.cpp\<close>). A pointer to a service is its
  position in the list. The answers of the system during the \<open>k\<close>-th call of a loop are \<open>oss k\<close>.
\<close>

section \<open>The list\<close>

record ServiceList =
  sl_services :: "Service list"
  delayed_service_names :: "string list"
  sl_static :: svc_static

definition empty_services :: ServiceList where
  "empty_services =
     \<lparr>sl_services = [], delayed_service_names = [],
      sl_static = \<lparr>next_start_order = 1, is_exec_service_running = False, exec_count = 0,
                   services_updated = False, is_post_data = False\<rparr>\<rparr>"

fun find_index :: "('a \<Rightarrow> bool) \<Rightarrow> 'a list \<Rightarrow> nat option" where
  "find_index P [] = None"
| "find_index P (x # xs) = (if P x then Some 0 else map_option Suc (find_index P xs))"

definition FindService :: "'v \<Rightarrow> (Service \<Rightarrow> 'v) \<Rightarrow> ServiceList \<Rightarrow> nat option" where
  "FindService v f sl = find_index (\<lambda>s. f s = v) (sl_services sl)"

definition FindInterface :: "string \<Rightarrow> ServiceList \<Rightarrow> nat option" where
  "FindInterface interface_name sl =
     find_index (\<lambda>s. interface_name \<in> set (svc_interfaces s)) (sl_services sl)"

definition AddService :: "Service \<Rightarrow> ServiceList \<Rightarrow> ServiceList" where
  "AddService s sl = sl\<lparr>sl_services := sl_services sl @ [s]\<rparr>"

fun remove_first :: "('a \<Rightarrow> bool) \<Rightarrow> 'a list \<Rightarrow> 'a list" where
  "remove_first P [] = []"
| "remove_first P (x # xs) = (if P x then xs else x # remove_first P xs)"

definition RemoveService :: "string \<Rightarrow> ServiceList \<Rightarrow> ServiceList" where
  "RemoveService name sl = sl\<lparr>sl_services := remove_first (\<lambda>s. svc_name s = name) (sl_services sl)\<rparr>"

definition RemoveServiceIf :: "(Service \<Rightarrow> bool) \<Rightarrow> ServiceList \<Rightarrow> ServiceList" where
  "RemoveServiceIf P sl = sl\<lparr>sl_services := filter (\<lambda>s. \<not> P s) (sl_services sl)\<rparr>"

definition SL_CheckAllCommands :: "(Action \<Rightarrow> nat) \<Rightarrow> ServiceList \<Rightarrow> nat" where
  "SL_CheckAllCommands check sl = sum_list (map (\<lambda>s. check (onrestart s)) (sl_services sl))"

text \<open>
  \<^verbatim>\<open>std::sort\<close> with the comparison \<^verbatim>\<open>a->start_order() > b->start_order()\<close>. The orders of
  started services differ (see \<open>order_inv\<close>), so the result does not depend on the algorithm.
\<close>

definition services_in_shutdown_order :: "ServiceList \<Rightarrow> Service list" where
  "services_in_shutdown_order sl =
     sort_key (\<lambda>s. - int (start_order s)) (filter (\<lambda>s. 0 < start_order s) (sl_services sl))"

definition MarkPostData :: "ServiceList \<Rightarrow> ServiceList" where
  "MarkPostData sl = sl\<lparr>sl_static := (sl_static sl)\<lparr>is_post_data := True\<rparr>\<rparr>"

definition ResetState :: "ServiceList \<Rightarrow> ServiceList" where
  "ResetState sl = sl\<lparr>sl_static := (sl_static sl)\<lparr>is_post_data := False, services_updated := False\<rparr>\<rparr>"

definition delay_service :: "string \<Rightarrow> ServiceList \<Rightarrow> ServiceList" where
  "delay_service name sl =
     (if services_updated (sl_static sl) then sl
      else sl\<lparr>delayed_service_names := delayed_service_names sl @ [name]\<rparr>)"

text \<open>
  One operation on the service at position \<open>i\<close>. A request to delay the service is the one
  effect that changes the list itself; it is carried out here.
\<close>

type_synonym 'r service_op = "Service \<Rightarrow> svc_static \<Rightarrow> 'r \<times> Service \<times> svc_static \<times> svc_effect list"

fun apply_delay :: "svc_effect \<Rightarrow> ServiceList \<Rightarrow> ServiceList" where
  "apply_delay (DelayService name) sl = delay_service name sl"
| "apply_delay _ sl = sl"

definition on_service :: "nat \<Rightarrow> 'r service_op \<Rightarrow> ServiceList \<Rightarrow> 'r \<times> ServiceList \<times> svc_effect list" where
  "on_service i op sl =
     (case op (sl_services sl ! i) (sl_static sl) of
        (r, s, st, effs) \<Rightarrow>
          (r, fold apply_delay effs (sl\<lparr>sl_services := (sl_services sl)[i := s], sl_static := st\<rparr>), effs))"

text \<open>Operations that never fail, in the same shape.\<close>

definition simple_op :: "(Service \<Rightarrow> Service \<times> svc_effect list) \<Rightarrow> unit service_op" where
  "simple_op f s st = (case f s of (s', effs) \<Rightarrow> ((), s', st, effs))"

definition static_op ::
  "(Service \<Rightarrow> svc_static \<Rightarrow> Service \<times> svc_static \<times> svc_effect list) \<Rightarrow> unit service_op" where
  "static_op f s st = ((), f s st)"

fun start_delayed ::
  "libbase \<Rightarrow> (nat \<Rightarrow> os) \<Rightarrow> nat \<Rightarrow> string list \<Rightarrow> ServiceList \<Rightarrow> ServiceList \<times> svc_effect list" where
  "start_delayed lb oss k [] sl = (sl, [])"
| "start_delayed lb oss k (name # names) sl =
     (case FindService name svc_name sl of
        None \<Rightarrow> start_delayed lb oss (Suc k) names sl
      | Some i \<Rightarrow>
          (case on_service i (Start lb (oss k)) sl of
             (_, sl, effs) \<Rightarrow>
               (case start_delayed lb oss (Suc k) names sl of (sl, effs') \<Rightarrow> (sl, effs @ effs'))))"

definition MarkServicesUpdate :: "libbase \<Rightarrow> (nat \<Rightarrow> os) \<Rightarrow> ServiceList \<Rightarrow> ServiceList \<times> svc_effect list" where
  "MarkServicesUpdate lb oss sl =
     (let sl = sl\<lparr>sl_static := (sl_static sl)\<lparr>services_updated := True\<rparr>\<rparr>
      in case start_delayed lb oss 0 (delayed_service_names sl) sl of
           (sl, effs) \<Rightarrow> (sl\<lparr>delayed_service_names := []\<rparr>, effs))"

section \<open>The reaper\<close>

text \<open>
  \<open>waited\<close> is the answer of \<^verbatim>\<open>waitid\<close>: \<open>None\<close> for an error, pid 0 when there is no zombie.
  \<open>subcontext_reap\<close> is \<^verbatim>\<open>SubcontextChildReap\<close>.
\<close>

definition ReapOneProcess ::
  "os \<Rightarrow> (int \<Rightarrow> bool) \<Rightarrow> (int \<times> siginfo) option \<Rightarrow> ServiceList \<Rightarrow> int \<times> ServiceList \<times> svc_effect list" where
  "ReapOneProcess os subcontext_reap waited sl =
     (case waited of
        None \<Rightarrow> (0, sl, [])
      | Some (pid, si) \<Rightarrow>
          if pid = 0 then (0, sl, [])
          else if subcontext_reap pid then (pid, sl, [])
          else
            (case FindService pid svc_pid sl of
               None \<Rightarrow> (pid, sl, [])
             | Some i \<Rightarrow>
                 (case on_service i (static_op (Reap os si)) sl of
                    (_, sl, effs) \<Rightarrow>
                      (pid,
                       if has SVC_TEMPORARY (sl_services sl ! i)
                       then RemoveService (svc_name (sl_services sl ! i)) sl else sl,
                       effs))))"

text \<open>
  The zombies the kernel holds are a list; each call takes the first, and a last call finds
  none.
\<close>

fun ReapAnyOutstandingChildren ::
  "(nat \<Rightarrow> os) \<Rightarrow> nat \<Rightarrow> (int \<Rightarrow> bool) \<Rightarrow> (int \<times> siginfo) option list \<Rightarrow> ServiceList \<Rightarrow>
   int list \<times> ServiceList \<times> svc_effect list" where
  "ReapAnyOutstandingChildren oss k sr [] sl = ([], sl, [])"
| "ReapAnyOutstandingChildren oss k sr (z # zs) sl =
     (case ReapOneProcess (oss k) sr z sl of
        (pid, sl, effs) \<Rightarrow>
          if pid = 0 then ([], sl, effs)
          else (case ReapAnyOutstandingChildren oss (Suc k) sr zs sl of
                  (pids, sl, effs') \<Rightarrow> (pid # pids, sl, effs @ effs')))"

text \<open>
  \<^verbatim>\<open>WaitToBeReaped\<close>: \<open>rounds\<close> are the zombies found by the polls that fit into the timeout.
\<close>

fun WaitToBeReaped ::
  "(nat \<Rightarrow> os) \<Rightarrow> (int \<Rightarrow> bool) \<Rightarrow> int list \<Rightarrow> (int \<times> siginfo) option list list \<Rightarrow> ServiceList \<Rightarrow>
   int list \<times> ServiceList" where
  "WaitToBeReaped oss sr alive [] sl = (alive, sl)"
| "WaitToBeReaped oss sr alive (zs # rounds) sl =
     (if alive = [] then (alive, sl)
      else (case ReapAnyOutstandingChildren oss 0 sr zs sl of
              (pids, sl, _) \<Rightarrow> WaitToBeReaped oss sr (fold remove1 pids alive) rounds sl))"

section \<open>Timers\<close>

definition seconds :: "nat \<Rightarrow> nat" where
  "seconds n = n * 1000000000"

definition sooner :: "nat \<Rightarrow> nat option \<Rightarrow> nat option" where
  "sooner t best = (case best of None \<Rightarrow> Some t | Some b \<Rightarrow> if t < b then Some t else best)"

text \<open>The two parts of the body of the loop: the timeout, and the restart.\<close>

definition check_timeout ::
  "os \<Rightarrow> nat option \<Rightarrow> Service \<Rightarrow> nat option \<times> Service \<times> svc_effect list" where
  "check_timeout os best s =
     (case timeout_period s of
        Some p \<Rightarrow>
          if has SVC_RUNNING s then
            (if time_started s + seconds p < os_now os then (case Timeout os s of (s, effs) \<Rightarrow> (best, s, effs))
             else (sooner (time_started s + seconds p) best, s, []))
          else (best, s, [])
      | None \<Rightarrow> (best, s, []))"

definition process_action :: "libbase \<Rightarrow> os \<Rightarrow> nat option \<Rightarrow> nat option service_op" where
  "process_action lb os best s st =
     (case check_timeout os best s of
        (best, s, e1) \<Rightarrow>
          if \<not> has SVC_RESTARTING s then (best, s, st, e1)
          else if time_started s + seconds (restart_period s) < os_now os then
            (case Start lb os s st of (_, s, st, e2) \<Rightarrow> (best, s, st, e1 @ e2))
          else (sooner (time_started s + seconds (restart_period s)) best, s, st, e1))"

fun process_actions ::
  "libbase \<Rightarrow> (nat \<Rightarrow> os) \<Rightarrow> nat list \<Rightarrow> nat option \<Rightarrow> ServiceList \<Rightarrow> nat option \<times> ServiceList \<times> svc_effect list" where
  "process_actions lb oss [] best sl = (best, sl, [])"
| "process_actions lb oss (i # is) best sl =
     (case on_service i (process_action lb (oss i) best) sl of
        (best, sl, effs) \<Rightarrow>
          (case process_actions lb oss is best sl of (best, sl, effs') \<Rightarrow> (best, sl, effs @ effs')))"

definition HandleProcessActions ::
  "libbase \<Rightarrow> (nat \<Rightarrow> os) \<Rightarrow> ServiceList \<Rightarrow> nat option \<times> ServiceList \<times> svc_effect list" where
  "HandleProcessActions lb oss sl = process_actions lb oss [0..<length (sl_services sl)] None sl"

section \<open>What every operation keeps\<close>

text \<open>
  The list is well formed when names are unique, every service is (\<open>svc_inv\<close>), and the start
  orders of started services are different, positive and below the next one.
\<close>

definition order_inv :: "svc_static \<Rightarrow> Service list \<Rightarrow> bool" where
  "order_inv st ss =
     (0 < next_start_order st \<and>
      list_all (\<lambda>s. start_order s < next_start_order st \<and> (0 < start_order s \<longrightarrow> has SVC_RUNNING s)) ss \<and>
      distinct (map start_order (filter (\<lambda>s. 0 < start_order s) ss)))"

definition sl_inv :: "ServiceList \<Rightarrow> bool" where
  "sl_inv sl =
     (distinct (map svc_name (sl_services sl)) \<and> list_all svc_inv (sl_services sl) \<and>
      order_inv (sl_static sl) (sl_services sl))"

text \<open>What one operation may do to the order: nothing, clear it, or take the next number.\<close>

definition order_step :: "Service \<Rightarrow> svc_static \<Rightarrow> Service \<Rightarrow> svc_static \<Rightarrow> bool" where
  "order_step s st s' st' =
     (exec_count st' = exec_count st \<and>
      (start_order s' = start_order s \<and> has SVC_RUNNING s' = has SVC_RUNNING s \<and>
        next_start_order st' = next_start_order st \<or>
      start_order s' = 0 \<and> \<not> has SVC_RUNNING s' \<and> next_start_order st' = next_start_order st \<or>
      \<not> has SVC_RUNNING s \<and> has SVC_RUNNING s' \<and> start_order s' = next_start_order st \<and>
        next_start_order st' = next_start_order st + 1))"

lemma order_inv_parts:
  "order_inv st (xs @ s # ys) \<longleftrightarrow>
     order_inv st (xs @ ys) \<and> start_order s < next_start_order st \<and>
     (0 < start_order s \<longrightarrow> has SVC_RUNNING s \<and> start_order s \<notin> start_order ` set (xs @ ys))"
  by (auto simp: order_inv_def)

lemma order_inv_mono:
  "order_inv st ss \<Longrightarrow> next_start_order st \<le> next_start_order st' \<Longrightarrow> order_inv st' ss"
  by (auto simp: order_inv_def list_all_iff)

lemma order_inv_step:
  assumes "order_inv st ss" "i < length ss" "order_step (ss ! i) st s st'"
  shows "order_inv st' (ss[i := s])"
proof -
  obtain xs ys t where ss: "ss = xs @ t # ys" "ss[i := s] = xs @ s # ys" "ss ! i = t"
    using assms(2) by (metis id_take_nth_drop upd_conv_take_nth_drop)
  have new: "next_start_order st \<notin> start_order ` set (xs @ ys)"
    using assms(1) ss(1) by (auto simp: order_inv_def list_all_iff)
  have "next_start_order st \<le> next_start_order st'" using assms(3) by (auto simp: order_step_def)
  then have "order_inv st' (xs @ ys)" using assms(1) ss(1) order_inv_parts order_inv_mono by blast
  then show ?thesis
    using assms(1,3) ss new unfolding order_step_def
    by (elim disjE conjE) (simp_all add: order_inv_parts order_inv_def [of st])
qed

lemma apply_delays [simp]:
  "sl_services (fold apply_delay effs sl) = sl_services sl \<and> sl_static (fold apply_delay effs sl) = sl_static sl"
proof (induction effs arbitrary: sl)
  case Nil
  then show ?case by simp
next
  case (Cons e effs)
  have "sl_services (apply_delay e sl) = sl_services sl \<and> sl_static (apply_delay e sl) = sl_static sl"
    by (cases "(e, sl)" rule: apply_delay.cases) (simp_all add: delay_service_def)
  then show ?case using Cons.IH [of "apply_delay e sl"] by simp
qed

text \<open>
  The contract of an operation on a service: it keeps the name, treats the order as above, and
  keeps the service well formed where its precondition holds and \<^verbatim>\<open>fork\<close> answers the parent.
\<close>

locale service_operation =
  fixes op :: "os \<Rightarrow> 'r service_op"
    and pre :: "Service \<Rightarrow> bool"
  assumes keeps_name: "op os s st = (r, s', st', effs) \<Longrightarrow> svc_name s' = svc_name s"
    and keeps_order: "op os s st = (r, s', st', effs) \<Longrightarrow> order_step s st s' st'"
    and keeps_inv: "op os s st = (r, s', st', effs) \<Longrightarrow> svc_inv s \<Longrightarrow> pre s \<Longrightarrow> os_fork os \<noteq> 0 \<Longrightarrow> svc_inv s'"
begin

lemma on_service_frame:
  assumes "on_service i (op os) sl = (r, sl', effs)" "i < length (sl_services sl)"
  shows "length (sl_services sl') = length (sl_services sl)"
    "map svc_name (sl_services sl') = map svc_name (sl_services sl)"
    "j \<noteq> i \<Longrightarrow> sl_services sl' ! j = sl_services sl ! j"
proof -
  obtain r' s st e where op: "op os (sl_services sl ! i) (sl_static sl) = (r', s, st, e)" by (metis prod_cases4)
  have sl': "sl_services sl' = (sl_services sl)[i := s]" using assms op by (auto simp: on_service_def)
  then show "length (sl_services sl') = length (sl_services sl)" by simp
  show "map svc_name (sl_services sl') = map svc_name (sl_services sl)"
    using sl' keeps_name [OF op] assms(2) by (metis list_update_id map_update nth_map length_map)
  show "j \<noteq> i \<Longrightarrow> sl_services sl' ! j = sl_services sl ! j" using sl' by simp
qed

lemma on_service_inv:
  assumes "on_service i (op os) sl = (r, sl', effs)" "i < length (sl_services sl)" "sl_inv sl"
    and "pre (sl_services sl ! i)" "os_fork os \<noteq> 0"
  shows "sl_inv sl'"
proof -
  obtain r' s st e where op: "op os (sl_services sl ! i) (sl_static sl) = (r', s, st, e)" by (metis prod_cases4)
  have sl': "sl_services sl' = (sl_services sl)[i := s]" "sl_static sl' = st"
    using assms(1) op by (auto simp: on_service_def)
  have "svc_inv s" using keeps_inv [OF op] assms by (simp add: sl_inv_def list_all_length)
  moreover have "order_inv st ((sl_services sl)[i := s])"
    using order_inv_step [OF _ assms(2) keeps_order [OF op]] assms(3) by (simp add: sl_inv_def)
  ultimately show ?thesis
    using assms(2,3) sl' on_service_frame(2) [OF assms(1,2)]
    by (auto simp: sl_inv_def list_all_length nth_list_update)
qed

end

section \<open>The operations meet the contract\<close>

text \<open>A step that neither starts nor ends a process.\<close>

definition same_run :: "Service \<Rightarrow> Service \<Rightarrow> bool" where
  "same_run s s' =
     (svc_name s' = svc_name s \<and> start_order s' = start_order s \<and> has SVC_RUNNING s' = has SVC_RUNNING s)"

definition frame_step :: "Service \<Rightarrow> svc_static \<Rightarrow> Service \<Rightarrow> svc_static \<Rightarrow> bool" where
  "frame_step s st s' st' = (svc_name s' = svc_name s \<and> order_step s st s' st')"

lemma same_run_flags [simp]:
  "f AND SVC_RUNNING = 0 \<Longrightarrow> same_run s (set_flag f s)" "f AND SVC_RUNNING = 0 \<Longrightarrow> same_run s (clear_flag f s)"
  by (simp_all add: same_run_def)

lemma same_run_trans: "same_run s t \<Longrightarrow> same_run t u \<Longrightarrow> same_run s u"
  by (simp add: same_run_def)

lemma same_run_step: "same_run s s' \<Longrightarrow> frame_step s st s' st"
  by (simp add: same_run_def frame_step_def order_step_def)

lemma same_run_then: "same_run s t \<Longrightarrow> frame_step t st u st' \<Longrightarrow> frame_step s st u st'"
  by (auto simp: same_run_def frame_step_def order_step_def)

lemma then_same_run: "frame_step s st t st' \<Longrightarrow> same_run t u \<Longrightarrow> frame_step s st u st'"
  by (auto simp: same_run_def frame_step_def order_step_def)

lemma KillProcessGroup_run: "same_run s (fst (KillProcessGroup os sig s))"
  by (simp add: KillProcessGroup_def same_run_def Let_def)

lemma kill_or_notify_run: "same_run s (fst (kill_or_notify os s))"
  using KillProcessGroup_run [of s os SIGKILL] by (simp add: kill_or_notify_def split_beta same_run_def)

lemma StopOrReset_run: "same_run s (fst (StopOrReset os how s))"
  unfolding StopOrReset_def Let_def
  by (rule same_run_trans [OF _ kill_or_notify_run])
     (auto simp: same_run_def bit.conj_disj_distrib2)

lemma Terminate_run: "same_run s (fst (Terminate os s))"
  using KillProcessGroup_run [of "set_flag SVC_DISABLED (clear_flag (SVC_RESTARTING OR SVC_DISABLED_START) s)" os SIGTERM]
  by (simp add: Terminate_def Let_def split_beta same_run_def)

lemma Timeout_run: "same_run s (fst (Timeout os s))"
  using KillProcessGroup_run [of s os SIGKILL] by (simp add: Timeout_def split_beta same_run_def)

lemma start_child_step:
  "\<not> has SVC_RUNNING s \<Longrightarrow> start_child lb os scon s st = (r, s', st', effs) \<Longrightarrow> frame_step s st s' st'"
  by (auto simp: start_child_def frame_step_def order_step_def Let_def split: if_splits)

lemma Start_step: "Start lb os s st = (r, s', st', effs) \<Longrightarrow> frame_step s st s' st'"
proof -
  assume start: "Start lb os s st = (r, s', st', effs)"
  define s1 where "s1 = clear_flag (SVC_DISABLED OR SVC_RESTARTING OR SVC_RESET OR SVC_RESTART OR SVC_DISABLED_START) s"
  have 1: "same_run s s1" by (simp add: s1_def)
  define s2 where "s2 = (if has SVC_CONSOLE s1
      then s1\<lparr>proc_attr := (proc_attr s1)\<lparr>pa_console := console_of os s1\<rparr>\<rparr> else s1)"
  have 2: "same_run s s2" using 1 by (simp add: s2_def same_run_def)
  have ends: "same_run s (set_flag SVC_RESTART s1)" "same_run s (set_flag SVC_DISABLED s2)" "same_run s s"
    using 1 2 by (auto intro: same_run_trans simp: same_run_def)
  have child: "frame_step s st s' st'" if "start_child lb os scon s2 st = (r, s', st', effs)" "\<not> has SVC_RUNNING s1" for scon
    using same_run_then [OF 2 start_child_step [OF _ that(1)]] 1 2 that(2) by (simp add: same_run_def)
  show ?thesis
    using start 1 2 ends child unfolding Start_def Let_def s1_def [symmetric] s2_def [symmetric]
    by (auto intro: same_run_step split: if_splits sum.splits)
qed

lemma ExecStart_step: "ExecStart lb os s st = (r, s', st', effs) \<Longrightarrow> frame_step s st s' st'"
proof -
  assume e: "ExecStart lb os s st = (r, s', st', effs)"
  obtain q t stt fx where s: "Start lb os (set_flag SVC_ONESHOT s) st = (q, t, stt, fx)" by (metis prod_cases4)
  have f: "frame_step s st t stt" by (rule same_run_then [OF _ Start_step [OF s]]) simp
  have "frame_step s st (set_flag SVC_EXEC t) stt" using f by (rule then_same_run) simp
  then have "frame_step s st (set_flag SVC_EXEC t) (stt\<lparr>is_exec_service_running := True\<rparr>)"
    by (simp add: frame_step_def order_step_def)
  with e s f show ?thesis
    by (cases q) (auto simp: ExecStart_def same_run_def intro: same_run_step split: if_splits)
qed

lemma start_variants_step:
  "StartIfNotDisabled lb os s st = (r, s', st', effs) \<Longrightarrow> frame_step s st s' st'"
  "Enable lb os s st = (r, s', st', effs) \<Longrightarrow> frame_step s st s' st'"
  "StartIfPostData lb os s st = (r, s', st', effs) \<Longrightarrow> frame_step s st s' st'"
  "Restart lb os s st = (s', st', effs) \<Longrightarrow> frame_step s st s' st'"
proof -
  have c: "same_run s (clear_flag (SVC_DISABLED OR SVC_RC_DISABLED) s)" by simp
  show "StartIfNotDisabled lb os s st = (r, s', st', effs) \<Longrightarrow> frame_step s st s' st'"
    by (auto simp: StartIfNotDisabled_def intro: Start_step same_run_step split: if_splits)
  show "Enable lb os s st = (r, s', st', effs) \<Longrightarrow> frame_step s st s' st'"
    using c by (auto simp: Enable_def Let_def intro: same_run_then [OF c Start_step] same_run_step split: if_splits)
  show "StartIfPostData lb os s st = (r, s', st', effs) \<Longrightarrow> frame_step s st s' st'"
    by (auto simp: StartIfPostData_def same_run_def intro: Start_step same_run_step split: if_splits)
  show "Restart lb os s st = (s', st', effs) \<Longrightarrow> frame_step s st s' st'"
    using StopOrReset_run [of s os SVC_RESTART]
    by (auto simp: Restart_def same_run_def intro: Start_step same_run_step split: if_splits prod.splits)
qed

lemma count_crash_order: "start_order (fst (snd (count_crash os s))) = start_order s"
  by (simp add: count_crash_def Let_def)

lemma reap_restart_ended:
  assumes 0: "start_order s = 0" and "\<not> has SVC_RUNNING s"
  shows "start_order (fst (reap_restart os s)) = 0 \<and> \<not> has SVC_RUNNING (fst (reap_restart os s)) \<and>
         svc_name (fst (reap_restart os s)) = svc_name s"
proof -
  obtain b t effs where c: "count_crash os s = (b, t, effs)" by (cases "count_crash os s")
  then have "start_order t = 0" using count_crash_order [of os s] 0 by simp
  then show ?thesis
    using c count_crash_frame(3) [OF c] count_crash_frame(1) [OF c] assms(2)
    by (cases b) (simp_all add: reap_restart_def Let_def)
qed

lemma reap_exit_ended:
  "start_order (fst (reap_exit os s)) = 0 \<and> \<not> has SVC_RUNNING (fst (reap_exit os s)) \<and> svc_name (fst (reap_exit os s)) = svc_name s"
  by (auto simp: reap_exit_def Let_def reap_restart_ended)

lemma Reap_step: "Reap os si s st = (s', st', effs) \<Longrightarrow> frame_step s st s' st'"
proof -
  assume reap: "Reap os si s st = (s', st', effs)"
  obtain s1 e1 where 1: "reap_kill os s = (s1, e1)" by fastforce
  obtain s2 e2 where 2: "apply_failure_action os si s1 = (s2, e2)" by fastforce
  have r1: "same_run s s1"
    using 1 KillProcessGroup_run [of s os SIGKILL] by (auto simp: reap_kill_def same_run_def split: if_splits)
  have "same_run s1 s2"
    using 2 by (auto simp: apply_failure_action_def same_run_def split: if_splits option.splits FailureAction.splits)
  then have r2: "same_run s s2" using r1 by (rule same_run_trans [rotated])
  have "frame_step s2 st (fst (reap_finish os si s2 st)) (fst (snd (reap_finish os si s2 st)))"
    using reap_exit_ended [of os s2] reap_exit_ended [of os "clear_flag SVC_EXEC s2"]
    by (auto simp: reap_finish_def Let_def split_beta frame_step_def order_step_def)
  then show ?thesis
    using same_run_then [OF r2] reap 1 2 by (auto simp: Reap_def split: prod.splits)
qed

text \<open>The interpretations.\<close>

lemma service_operationI:
  assumes "\<And>os s st r s' st' effs. op os s st = (r, s', st', effs) \<Longrightarrow> frame_step s st s' st'"
    and "\<And>os s st. svc_inv s \<Longrightarrow> pre s \<Longrightarrow> os_fork os \<noteq> 0 \<Longrightarrow> svc_inv (fst (snd (op os s st)))"
  shows "service_operation op pre"
proof unfold_locales
  fix os s st r s' st' effs
  assume op: "op os s st = (r, s', st', effs)"
  show "svc_name s' = svc_name s" "order_step s st s' st'"
    using assms(1) [OF op] by (simp_all add: frame_step_def)
  show "svc_inv s \<Longrightarrow> pre s \<Longrightarrow> os_fork os \<noteq> 0 \<Longrightarrow> svc_inv s'" using assms(2) [of s os st] op by simp
qed

lemma simple_operationI:
  assumes "\<And>os s. same_run s (fst (f os s))" "\<And>os s. svc_inv s \<Longrightarrow> svc_inv (fst (f os s))"
  shows "service_operation (\<lambda>os. simple_op (f os)) (\<lambda>_. True)"
proof (rule service_operationI)
  fix os s st r s' st' effs
  assume "simple_op (f os) s st = (r, s', st', effs)"
  then have "s' = fst (f os s)" "st' = st" by (auto simp: simple_op_def split: prod.splits)
  then show "frame_step s st s' st'" using assms(1) [of s os] by (simp add: same_run_step)
next
  fix os s st
  show "svc_inv s \<Longrightarrow> svc_inv (fst (snd (simple_op (f os) s st)))"
    using assms(2) [of s os] by (simp add: simple_op_def split_beta)
qed

interpretation start_op: service_operation "Start lb" "\<lambda>_. True" for lb
  by (rule service_operationI) (auto intro: Start_step Start_inv)

interpretation exec_start_op: service_operation "ExecStart lb" "\<lambda>_. True" for lb
  by (rule service_operationI) (auto intro: ExecStart_step ExecStart_inv)

interpretation start_if_not_disabled_op: service_operation "StartIfNotDisabled lb" "\<lambda>_. True" for lb
  by (rule service_operationI) (auto intro: start_variants_step start_variants_inv)

interpretation enable_op: service_operation "Enable lb" "\<lambda>_. True" for lb
  by (rule service_operationI) (auto intro: start_variants_step start_variants_inv)

interpretation start_if_post_data_op: service_operation "StartIfPostData lb" "\<lambda>_. True" for lb
  by (rule service_operationI) (auto intro: start_variants_step start_variants_inv)

interpretation restart_op: service_operation "\<lambda>os. static_op (Restart lb os)" "\<lambda>_. True" for lb
  by (rule service_operationI) (auto simp: static_op_def intro: start_variants_step start_variants_inv)

interpretation reap_op: service_operation "\<lambda>os. static_op (Reap os si)" "\<lambda>s. svc_pid s \<noteq> 0" for si
  by (rule service_operationI) (auto simp: static_op_def intro: Reap_step Reap_inv)

interpretation stop_op: service_operation "\<lambda>os. simple_op (Stop os)" "\<lambda>_. True"
  by (rule simple_operationI) (simp_all add: Stop_def StopOrReset_run StopOrReset_inv)

interpretation reset_op: service_operation "\<lambda>os. simple_op (Reset os)" "\<lambda>_. True"
  by (rule simple_operationI) (simp_all add: Reset_def StopOrReset_run StopOrReset_inv)

interpretation reset_if_post_data_op: service_operation "\<lambda>os. simple_op (ResetIfPostData os)" "\<lambda>_. True"
proof (rule simple_operationI)
  fix os s
  let ?s = "if has SVC_RUNNING s then s\<lparr>running_at_post_data_reset := True\<rparr> else s"
  have same: "same_run s ?s" "svc_inv s \<Longrightarrow> svc_inv ?s" by (simp_all add: same_run_def svc_inv_def has_def)
  show "same_run s (fst (ResetIfPostData os s))"
    using same_run_trans [OF same(1) StopOrReset_run] by (simp add: ResetIfPostData_def same_run_def)
  show "svc_inv s \<Longrightarrow> svc_inv (fst (ResetIfPostData os s))"
    using StopOrReset_inv [of ?s] same(2) by (simp add: ResetIfPostData_def)
qed

interpretation terminate_op: service_operation "\<lambda>os. simple_op (Terminate os)" "\<lambda>_. True"
  by (rule simple_operationI) (simp_all add: Terminate_run Terminate_inv)

interpretation timeout_op: service_operation "\<lambda>os. simple_op (Timeout os)" "\<lambda>_. True"
  by (rule simple_operationI) (simp_all add: Timeout_run Timeout_inv)

lemma check_timeout_run:
  "check_timeout os best s = (best', s', effs) \<Longrightarrow> same_run s s' \<and> (svc_inv s \<longrightarrow> svc_inv s')"
  using Timeout_run [of s os] Timeout_inv [of s os]
  by (auto simp: check_timeout_def same_run_def split: option.splits if_splits prod.splits)

interpretation process_action_op: service_operation "\<lambda>os. process_action lb os best" "\<lambda>_. True" for lb best
proof (rule service_operationI)
  fix os :: os and s st r s' st' effs
  assume p: "process_action lb os best s st = (r, s', st', effs)"
  obtain b t e where c: "check_timeout os best s = (b, t, e)" by (cases "check_timeout os best s")
  note t = check_timeout_run [OF c, THEN conjunct1]
  then show "frame_step s st s' st'"
    using p c by (auto simp: process_action_def intro: same_run_then [OF t Start_step] same_run_step
        split: if_splits prod.splits)
next
  fix os :: os and s st
  assume a: "svc_inv s" "os_fork os \<noteq> 0"
  obtain b t e where c: "check_timeout os best s = (b, t, e)" by (cases "check_timeout os best s")
  have "svc_inv t" using check_timeout_run [OF c] a by simp
  then show "svc_inv (fst (snd (process_action lb os best s st)))"
    using a Start_inv [of t os lb st] c by (simp add: process_action_def split_beta)
qed

section \<open>Loops over the list\<close>

lemma find_index_Some: "find_index P xs = Some i \<Longrightarrow> i < length xs \<and> P (xs ! i)"
  by (induction xs arbitrary: i) (auto split: if_splits)

lemma remove_first_parts:
  "remove_first P xs = xs \<or> (\<exists>ys z zs. xs = ys @ z # zs \<and> P z \<and> remove_first P xs = ys @ zs)"
proof (induction xs)
  case Nil
  then show ?case by simp
next
  case (Cons x xs)
  then show ?case by (metis append_Cons append_Nil remove_first.simps(2))
qed

lemma RemoveService_inv: "sl_inv sl \<Longrightarrow> sl_inv (RemoveService name sl)"
  using remove_first_parts [of "\<lambda>s. svc_name s = name" "sl_services sl"]
  by (auto simp: sl_inv_def RemoveService_def order_inv_parts)

lemma AddService_inv:
  "sl_inv sl \<Longrightarrow> svc_inv s \<Longrightarrow> start_order s = 0 \<Longrightarrow> svc_name s \<notin> svc_name ` set (sl_services sl) \<Longrightarrow>
   sl_inv (AddService s sl)"
  by (simp add: sl_inv_def AddService_def order_inv_def)

lemma process_actions_inv:
  assumes "process_actions lb oss is best sl = (best', sl', effs)" "sl_inv sl"
    and "list_all (\<lambda>i. i < length (sl_services sl) \<and> os_fork (oss i) \<noteq> 0) is"
  shows "sl_inv sl' \<and> length (sl_services sl') = length (sl_services sl)"
  using assms
proof (induction "is" arbitrary: best sl effs)
  case Nil
  then show ?case by simp
next
  case (Cons i ns)
  obtain b t e where o: "on_service i (process_action lb (oss i) best) sl = (b, t, e)"
    by (cases "on_service i (process_action lb (oss i) best) sl")
  have i: "i < length (sl_services sl)" "os_fork (oss i) \<noteq> 0" using Cons.prems(3) by simp_all
  have t: "sl_inv t" "length (sl_services t) = length (sl_services sl)"
    using process_action_op.on_service_inv [OF o i(1) Cons.prems(2) _ i(2)]
      process_action_op.on_service_frame(1) [OF o i(1)] by simp_all
  obtain e' where "process_actions lb oss ns b t = (best', sl', e')"
    using Cons.prems(1) o by (auto split: prod.splits)
  then show ?case using Cons.IH t Cons.prems(3) by simp
qed

lemma start_delayed_inv:
  assumes "start_delayed lb oss k names sl = (sl', effs)" "sl_inv sl" "\<And>k. os_fork (oss k) \<noteq> 0"
  shows "sl_inv sl'"
  using assms(1,2)
proof (induction names arbitrary: k sl effs)
  case Nil
  then show ?case by simp
next
  case (Cons name names)
  show ?case
  proof (cases "FindService name svc_name sl")
    case None
    then show ?thesis using Cons by simp
  next
    case (Some i)
    obtain r t e where o: "on_service i (Start lb (oss k)) sl = (r, t, e)"
      by (cases "on_service i (Start lb (oss k)) sl")
    have "sl_inv t"
      using start_op.on_service_inv [OF o _ Cons.prems(2) _ assms(3)] Some
      by (simp add: FindService_def find_index_Some)
    moreover obtain e' where "start_delayed lb oss (Suc k) names t = (sl', e')"
      using Cons.prems(1) Some o by (auto split: prod.splits)
    ultimately show ?thesis using Cons.IH by blast
  qed
qed

lemma ReapOneProcess_inv:
  assumes "sl_inv sl" "os_fork os \<noteq> 0"
  shows "sl_inv (fst (snd (ReapOneProcess os sr waited sl)))"
proof (cases waited)
  case None
  then show ?thesis using assms by (simp add: ReapOneProcess_def)
next
  case (Some ps)
  obtain pid si where ps: "ps = (pid, si)" by fastforce
  show ?thesis
  proof (cases "pid = 0 \<or> sr pid \<or> FindService pid svc_pid sl = None")
    case True
    then show ?thesis using assms Some ps by (auto simp: ReapOneProcess_def)
  next
    case False
    then obtain i where i: "FindService pid svc_pid sl = Some i" by auto
    then have i': "i < length (sl_services sl)" "svc_pid (sl_services sl ! i) \<noteq> 0"
      using False by (auto simp: FindService_def dest!: find_index_Some)
    obtain r t e where o: "on_service i (static_op (Reap os si)) sl = (r, t, e)"
      by (cases "on_service i (static_op (Reap os si)) sl")
    have "sl_inv t" using reap_op.on_service_inv [OF o i'(1) assms(1) i'(2) assms(2)] .
    then show ?thesis using False Some ps i o RemoveService_inv by (simp add: ReapOneProcess_def)
  qed
qed

lemma ReapAnyOutstandingChildren_inv:
  assumes "\<And>k. os_fork (oss k) \<noteq> 0"
  shows "sl_inv sl \<Longrightarrow> sl_inv (fst (snd (ReapAnyOutstandingChildren oss k sr zs sl)))"
proof (induction zs arbitrary: k sl)
  case Nil
  then show ?case by simp
next
  case (Cons z zs)
  have "sl_inv (fst (snd (ReapOneProcess (oss k) sr z sl)))" using ReapOneProcess_inv Cons.prems assms by blast
  then show ?case using Cons.IH by (simp add: split_beta)
qed

section \<open>Shutdown order\<close>

lemma sort_key_first:
  "\<forall>x\<in>set (xs @ ys). f s < f x \<Longrightarrow> sort_key f (xs @ s # ys) = s # sort_key f (xs @ ys)"
proof (induction xs)
  case Nil
  then show ?case by (auto intro!: insort_is_Cons simp: less_imp_le)
next
  case (Cons x xs)
  then show ?case by auto
qed

lemma Start_spawn:
  assumes "Start lb os s st = (r, s', st', effs)" "list_ex is_spawn effs"
  shows "\<not> has SVC_RUNNING s" "start_order s' = next_start_order st"
proof -
  have "filter is_spawn effs \<noteq> []" using assms(2) by (simp add: list_ex_iff filter_empty_conv)
  then have run: "\<not> has SVC_RUNNING s" "has SVC_RUNNING s'"
    using Start_forks [of s lb os st] assms(1) by (auto simp: forks_ok_def split: if_splits)
  then show "\<not> has SVC_RUNNING s" "start_order s' = next_start_order st"
    using Start_step [OF assms(1)] by (auto simp: frame_step_def order_step_def)
qed

text \<open>Deadlines that lie ahead when a service is visited.\<close>

definition deadlines :: "os \<Rightarrow> Service \<Rightarrow> nat list" where
  "deadlines os s =
     (case timeout_period s of
        None \<Rightarrow> []
      | Some p \<Rightarrow> if has SVC_RUNNING s \<and> os_now os \<le> time_started s + seconds p
                 then [time_started s + seconds p] else []) @
     (if has SVC_RESTARTING s \<and> os_now os \<le> time_started s + seconds (restart_period s)
      then [time_started s + seconds (restart_period s)] else [])"

definition overdue :: "os \<Rightarrow> Service \<Rightarrow> bool" where
  "overdue os s =
     (has SVC_RUNNING s \<and> (case timeout_period s of None \<Rightarrow> False | Some p \<Rightarrow> time_started s + seconds p < os_now os) \<or>
      has SVC_RESTARTING s \<and> time_started s + seconds (restart_period s) < os_now os)"

definition earliest :: "nat list \<Rightarrow> nat option \<Rightarrow> nat option" where
  "earliest ds best = fold sooner ds best"

lemma Timeout_frame:
  "has f (fst (Timeout os s)) = has f s" "time_started (fst (Timeout os s)) = time_started s"
  "restart_period (fst (Timeout os s)) = restart_period s"
  by (auto simp: Timeout_def KillProcessGroup_def Let_def)

lemma process_action_wake:
  assumes "process_action lb os best s st = (best', s', st', effs)"
  shows "best' = earliest (deadlines os s) best" "\<not> overdue os s \<Longrightarrow> s' = s"
proof -
  show "best' = earliest (deadlines os s) best"
    using assms Timeout_frame [where os = os and s = s]
    by (auto simp: process_action_def check_timeout_def deadlines_def earliest_def not_less [symmetric]
        split: option.splits if_splits prod.splits)
  show "\<not> overdue os s \<Longrightarrow> s' = s"
    using assms
    by (auto simp: process_action_def check_timeout_def overdue_def split: option.splits if_splits prod.splits)
qed

lemma on_service_process_action:
  assumes "on_service i (process_action lb os best) sl = (b, t, e)" "i < length (sl_services sl)"
  shows "b = earliest (deadlines os (sl_services sl ! i)) best"
    "\<not> overdue os (sl_services sl ! i) \<Longrightarrow> sl_services t = sl_services sl"
  using assms process_action_wake [of lb os best "sl_services sl ! i" "sl_static sl"]
  by (auto simp: on_service_def split: prod.splits)

lemma process_actions_wake:
  assumes "process_actions lb oss is best sl = (best', sl', effs)" "distinct is"
    and "list_all (\<lambda>i. i < length (sl_services sl)) is"
  shows "best' = earliest (concat (map (\<lambda>i. deadlines (oss i) (sl_services sl ! i)) is)) best \<and>
         (\<forall>j. (j \<in> set is \<longrightarrow> \<not> overdue (oss j) (sl_services sl ! j)) \<longrightarrow>
            sl_services sl' ! j = sl_services sl ! j)"
  using assms
proof (induction "is" arbitrary: best sl effs)
  case Nil
  then show ?case by (simp add: earliest_def)
next
  case (Cons i ns)
  obtain b t e where o: "on_service i (process_action lb (oss i) best) sl = (b, t, e)"
    by (cases "on_service i (process_action lb (oss i) best) sl")
  have i: "i < length (sl_services sl)" using Cons.prems(3) by simp
  note a = on_service_process_action [OF o i]
  note f = process_action_op.on_service_frame [OF o i]
  obtain e' where p: "process_actions lb oss ns b t = (best', sl', e')"
    using Cons.prems(1) o by (auto split: prod.splits)
  have IH: "best' = earliest (concat (map (\<lambda>i. deadlines (oss i) (sl_services t ! i)) ns)) b"
    "\<And>j. (j \<in> set ns \<longrightarrow> \<not> overdue (oss j) (sl_services t ! j)) \<Longrightarrow> sl_services sl' ! j = sl_services t ! j"
    using Cons.IH [OF p] Cons.prems f(1) by (simp_all del: all_simps)
  have same: "map (\<lambda>i. deadlines (oss i) (sl_services t ! i)) ns = map (\<lambda>i. deadlines (oss i) (sl_services sl ! i)) ns"
    using f(3) Cons.prems(2) by (intro map_cong refl) (metis distinct.simps(2))
  have "sl_services sl' ! j = sl_services sl ! j"
    if "j \<in> set (i # ns) \<longrightarrow> \<not> overdue (oss j) (sl_services sl ! j)" for j
    using that IH(2) [of j] a(2) f(3) [of j] Cons.prems(2) by (cases "j = i") auto
  then show ?case using IH(1) a(1) same by (simp add: earliest_def)
qed

lemma earliest_Some: "earliest ds (Some b) = Some (Min (insert b (set ds)))"
proof (induction ds arbitrary: b)
  case Nil
  then show ?case by (simp add: earliest_def)
next
  case (Cons d ds)
  have "earliest (d # ds) (Some b) = earliest ds (Some (min b d))" by (simp add: earliest_def sooner_def min_def)
  then show ?case using Cons.IH [of "min b d"] by (cases "ds = []") (simp_all add: ac_simps)
qed

lemma earliest_None: "earliest ds None = (if ds = [] then None else Some (Min (set ds)))"
  by (cases ds) (simp_all add: earliest_def sooner_def earliest_Some [unfolded earliest_def])

section \<open>Properties\<close>

text \<open>
  Whatever the supervisor does to the list of services, timers, reaping of any number of
  zombies, the start of delayed services, names stay unique, every service stays well formed and
  the start orders stay consistent. (\<^verbatim>\<open>fork\<close> never returns 0 to the parent.)
\<close>

theorem supervisor_keeps_list:
  assumes "sl_inv sl" "\<And>k. os_fork (oss k) \<noteq> 0"
  shows "sl_inv (fst (snd (HandleProcessActions lb oss sl))) \<and>
         sl_inv (fst (snd (ReapAnyOutstandingChildren oss k sr zombies sl))) \<and>
         sl_inv (fst (MarkServicesUpdate lb oss sl)) \<and> sl_inv (RemoveService name sl)"
proof -
  obtain b t e where p: "HandleProcessActions lb oss sl = (b, t, e)" by (cases "HandleProcessActions lb oss sl")
  have "sl_inv t"
    using process_actions_inv [OF p [unfolded HandleProcessActions_def] assms(1)] assms(2) by (simp add: list_all_iff)
  moreover have "sl_inv (sl\<lparr>sl_static := (sl_static sl)\<lparr>services_updated := True\<rparr>\<rparr>)"
    using assms(1) by (simp add: sl_inv_def order_inv_def)
  then have "sl_inv (fst (MarkServicesUpdate lb oss sl))"
    using start_delayed_inv [where lb = lb and k = 0, OF _ _ assms(2)] by (auto simp: MarkServicesUpdate_def sl_inv_def split: prod.splits)
  ultimately show ?thesis
    using p assms ReapAnyOutstandingChildren_inv [OF assms(2)] RemoveService_inv by simp
qed

text \<open>
  Services are shut down in the opposite order of their start: starting a process puts its
  service at the head of the shutdown order and leaves the rest of the order as it was.
\<close>

theorem shutdown_reverses_start:
  assumes "sl_inv sl" "i < length (sl_services sl)" "on_service i (Start lb os) sl = (r, sl', effs)"
    and "list_ex is_spawn effs"
  shows "services_in_shutdown_order sl' = sl_services sl' ! i # services_in_shutdown_order sl"
proof -
  obtain q s st e where o: "Start lb os (sl_services sl ! i) (sl_static sl) = (q, s, st, e)" by (metis prod_cases4)
  have sl': "sl_services sl' = (sl_services sl)[i := s]" "e = effs" using assms(3) o by (auto simp: on_service_def)
  note sp = Start_spawn [OF o] sl'(2) assms(4)
  obtain xs ys t where ss: "sl_services sl = xs @ t # ys" "(sl_services sl)[i := s] = xs @ s # ys"
    "sl_services sl ! i = t"
    using assms(2) by (metis id_take_nth_drop upd_conv_take_nth_drop)
  have inv: "order_inv (sl_static sl) (xs @ t # ys)" using assms(1) ss(1) by (simp add: sl_inv_def)
  have t: "start_order t = 0" using inv sp ss(3) by (auto simp: order_inv_parts)
  have s: "start_order s = next_start_order (sl_static sl)" "0 < start_order s"
    using inv sp by (simp_all add: order_inv_def)
  have "\<forall>x\<in>set (filter (\<lambda>s. 0 < start_order s) xs @ filter (\<lambda>s. 0 < start_order s) ys).
          - int (start_order s) < - int (start_order x)"
    using inv s(1) by (auto simp: order_inv_def list_all_iff)
  note * = sort_key_first [OF this]
  have "sl_services sl' ! i = s" using sl'(1) assms(2) by simp
  then show ?thesis using * t s(2) ss sl'(1) by (simp add: services_in_shutdown_order_def)
qed

text \<open>
  The timers. The main loop sleeps at most until the first deadline of any service, be it the
  timeout of a running one or the restart of a crashed one, and does not touch a service that is
  not overdue.
\<close>

theorem process_timers:
  assumes "HandleProcessActions lb oss sl = (wake, sl', effs)"
  shows "let ds = concat (map (\<lambda>i. deadlines (oss i) (sl_services sl ! i)) [0..<length (sl_services sl)])
         in wake = (if ds = [] then None else Some (Min (set ds))) \<and>
            (\<forall>i. \<not> overdue (oss i) (sl_services sl ! i) \<longrightarrow> sl_services sl' ! i = sl_services sl ! i)"
  using process_actions_wake [OF assms [unfolded HandleProcessActions_def]]
  by (simp add: earliest_None list_all_iff)

subsection \<open>Witnesses\<close>

definition logd :: Service where
  "logd = new_service ''logd'' 0 0 0 [] [] ''u:r:logd:s0'' None [''/system/bin/logd''] False"

definition sample_list :: ServiceList where
  "sample_list =
     \<lparr>sl_services = [sample_service\<lparr>start_order := 1\<rparr>, logd], delayed_service_names = [],
      sl_static = sample_static\<lparr>next_start_order := 2\<rparr>\<rparr>"

lemma logd_flags [simp]:
  "\<not> has f logd" "svc_pid logd = 0" "svc_name logd = ''logd''" "start_order logd = 0" "\<not> updatable logd"
  "seclabel logd = ''u:r:logd:s0''" "svc_args logd = [''/system/bin/logd'']"
  by (simp_all add: logd_def has_def new_service_def)

lemma sample_list_inv: "sl_inv sample_list"
  by (simp add: sl_inv_def sample_list_def svc_inv_def order_inv_def sample_static_def)

lemma start_logd_spawns:
  "list_ex is_spawn (snd (snd (on_service 1 (Start ref_libbase sample_os) sample_list)))"
  by (simp add: on_service_def sample_list_def Start_def start_child_def Let_def sample_os_def split_beta)

theorem supervisor_keeps_list_witness:
  "sl_inv (fst (snd (HandleProcessActions ref_libbase (\<lambda>_. sample_os) sample_list))) \<and>
   sl_inv (fst (snd (ReapAnyOutstandingChildren (\<lambda>_. sample_os) 0 (\<lambda>_. False)
      [Some (7, \<lparr>exited_normally = True, si_status = 1\<rparr>)] sample_list)))"
proof -
  have f: "os_fork ((\<lambda>_. sample_os) k) \<noteq> 0" for k :: nat by (simp add: sample_os_def)
  show ?thesis
    using supervisor_keeps_list [where oss = "\<lambda>_. sample_os", OF sample_list_inv f] by blast
qed

theorem shutdown_reverses_start_witness:
  "services_in_shutdown_order (fst (snd (on_service 1 (Start ref_libbase sample_os) sample_list))) =
   sl_services (fst (snd (on_service 1 (Start ref_libbase sample_os) sample_list))) ! 1 #
   services_in_shutdown_order sample_list"
proof -
  obtain r sl' effs where o: "on_service 1 (Start ref_libbase sample_os) sample_list = (r, sl', effs)"
    by (cases "on_service 1 (Start ref_libbase sample_os) sample_list")
  have "1 < length (sl_services sample_list)" by (simp add: sample_list_def)
  then show ?thesis using shutdown_reverses_start [OF sample_list_inv _ o] start_logd_spawns o by simp
qed

theorem process_timers_witness:
  "fst (HandleProcessActions ref_libbase (\<lambda>_. sample_os)
     (sample_list\<lparr>sl_services := [logd\<lparr>svc_flags := SVC_RUNNING, svc_pid := 9, timeout_period := Some 3\<rparr>]\<rparr>)) =
   Some 3000000000"
proof -
  let ?sl = "sample_list\<lparr>sl_services := [logd\<lparr>svc_flags := SVC_RUNNING, svc_pid := 9, timeout_period := Some 3\<rparr>]\<rparr>"
  obtain w sl' effs where h: "HandleProcessActions ref_libbase (\<lambda>_. sample_os) ?sl = (w, sl', effs)"
    by (cases "HandleProcessActions ref_libbase (\<lambda>_. sample_os) ?sl")
  show ?thesis
    using process_timers [OF h] h
    by (simp add: Let_def deadlines_def has_def seconds_def sample_os_def logd_def new_service_def split: if_splits)
qed

end
