(* ===== verification/Capabilities.thy ===== *)
theory Capabilities
  imports Init_Prelude
begin

text \<open>
  Names of capabilities (\<^verbatim>\<open>init/capabilities.cpp\<close>), resource limits
  (\<^verbatim>\<open>init/rlimit_parser.cpp\<close>) and the interface hierarchy check
  (\<^verbatim>\<open>init/interface_utils.cpp\<close>): the small parsers the service options use.
\<close>

section \<open>Capabilities\<close>

text \<open>The numbers are those of the kernel; the last three are known to the device's C library.\<close>

definition cap_names :: "string list" where
  "cap_names =
     [''CHOWN'', ''DAC_OVERRIDE'', ''DAC_READ_SEARCH'', ''FOWNER'', ''FSETID'', ''KILL'', ''SETGID'',
      ''SETUID'', ''SETPCAP'', ''LINUX_IMMUTABLE'', ''NET_BIND_SERVICE'', ''NET_BROADCAST'',
      ''NET_ADMIN'', ''NET_RAW'', ''IPC_LOCK'', ''IPC_OWNER'', ''SYS_MODULE'', ''SYS_RAWIO'',
      ''SYS_CHROOT'', ''SYS_PTRACE'', ''SYS_PACCT'', ''SYS_ADMIN'', ''SYS_BOOT'', ''SYS_NICE'',
      ''SYS_RESOURCE'', ''SYS_TIME'', ''SYS_TTY_CONFIG'', ''MKNOD'', ''LEASE'', ''AUDIT_WRITE'',
      ''AUDIT_CONTROL'', ''SETFCAP'', ''MAC_OVERRIDE'', ''MAC_ADMIN'', ''SYSLOG'', ''WAKE_ALARM'',
      ''BLOCK_SUSPEND'', ''AUDIT_READ'', ''PERFMON'', ''BPF'', ''CHECKPOINT_RESTORE'']"

definition CAP_LAST_CAP :: nat where "CAP_LAST_CAP = 40"
definition CAP_SETPCAP :: nat where "CAP_SETPCAP = 8"
definition CAP_WAKE_ALARM :: nat where "CAP_WAKE_ALARM = 35"

definition cap_map :: "(string \<times> int) list" where
  "cap_map = map (\<lambda>(i, n). (n, int i)) (enumerate 0 cap_names)"

definition LookupCap :: "string \<Rightarrow> int" where
  "LookupCap cap_name = (case map_of cap_map cap_name of Some v \<Rightarrow> v | None \<Rightarrow> - 1)"

text \<open>
  \<^verbatim>\<open>ComputeLastValidCap\<close>: the loop asks the kernel (\<open>bounding\<close>) from \<^verbatim>\<open>CAP_WAKE_ALARM\<close> up;
  \<open>None\<close> is the loop that never ends because the kernel knows every number.
\<close>

partial_function (option) first_unknown_cap :: "(nat \<Rightarrow> bool) \<Rightarrow> nat \<Rightarrow> nat option" where
  "first_unknown_cap bounding cap = (if bounding cap then first_unknown_cap bounding (cap + 1) else Some cap)"

definition ComputeLastValidCap :: "(nat \<Rightarrow> bool) \<Rightarrow> nat option" where
  "ComputeLastValidCap bounding = map_option (\<lambda>c. c - 1) (first_unknown_cap bounding CAP_WAKE_ALARM)"

text \<open>
  The calls that change the capabilities of a process, in the order the code makes them; the
  first one the kernel refuses ends the sequence.
\<close>

datatype cap_call =
  CapSetProc "nat list" "nat list" "nat list"
| CapDropBound nat
| CapAmbientRaise nat
| CapClearInheritable

fun run_calls :: "(cap_call \<Rightarrow> bool) \<Rightarrow> cap_call list \<Rightarrow> bool \<times> cap_call list" where
  "run_calls accepted [] = (True, [])"
| "run_calls accepted (c # cs) =
     (if accepted c then (case run_calls accepted cs of (b, done) \<Rightarrow> (b, c # done)) else (False, [c]))"

definition SetProcCaps :: "nat list \<Rightarrow> bool \<Rightarrow> cap_call" where
  "SetProcCaps to_keep add_setpcap =
     CapSetProc to_keep (if add_setpcap then List.insert CAP_SETPCAP to_keep else to_keep)
       (if add_setpcap then [CAP_SETPCAP] else [])"

definition DropBoundingSet :: "nat \<Rightarrow> nat list \<Rightarrow> cap_call list" where
  "DropBoundingSet last_valid_cap to_keep =
     map CapDropBound (filter (\<lambda>cap. \<not> (cap < CAP_LAST_CAP + 1 \<and> cap \<in> set to_keep)) [0..<last_valid_cap + 1])"

definition SetAmbientCaps :: "nat list \<Rightarrow> cap_call list" where
  "SetAmbientCaps to_raise = map CapAmbientRaise (filter (\<lambda>cap. cap \<in> set to_raise) [0..<CAP_LAST_CAP + 1])"

definition SetCapsForExec :: "(cap_call \<Rightarrow> bool) \<Rightarrow> nat \<Rightarrow> nat list \<Rightarrow> bool \<times> cap_call list" where
  "SetCapsForExec accepted last_valid_cap to_keep =
     run_calls accepted
       (SetProcCaps to_keep True # DropBoundingSet last_valid_cap to_keep @
        SetProcCaps to_keep False # SetAmbientCaps to_keep)"

definition DropInheritableCaps :: "(cap_call \<Rightarrow> bool) \<Rightarrow> bool \<times> cap_call list" where
  "DropInheritableCaps accepted = run_calls accepted [CapClearInheritable]"

section \<open>Resource limits\<close>

definition text_to_resources :: "(string \<times> int) list" where
  "text_to_resources =
     [(''cpu'', 0), (''fsize'', 1), (''data'', 2), (''stack'', 3), (''core'', 4), (''rss'', 5),
      (''nproc'', 6), (''nofile'', 7), (''memlock'', 8), (''as'', 9), (''locks'', 10),
      (''sigpending'', 11), (''msgqueue'', 12), (''nice'', 13), (''rtprio'', 14), (''rttime'', 15)]"

abbreviation RLIM_NLIMITS :: int where "RLIM_NLIMITS \<equiv> 16"
abbreviation INT_MIN :: int where "INT_MIN \<equiv> - 2147483648"
abbreviation INT_MAX :: int where "INT_MAX \<equiv> 2147483647"
abbreviation UINT64_MAX :: nat where "UINT64_MAX \<equiv> 18446744073709551615"

definition RLIM_INFINITY :: "64 word" where "RLIM_INFINITY = - 1"

definition parse_resource :: "libbase \<Rightarrow> string \<Rightarrow> int result" where
  "parse_resource lb arg =
     (case ParseInt lb arg INT_MIN INT_MAX of
        Some resource \<Rightarrow>
          if RLIM_NLIMITS \<le> resource then
            Err (Error (''Resource '' @ quoted arg @ '' over the maximum resource value '' @ quoted (to_string RLIM_NLIMITS)))
          else if resource < 0 then
            Err (Error (''Resource '' @ quoted arg @ '' below the minimum resource value '' @ quoted ''0''))
          else Ok resource
      | None \<Rightarrow>
          (let resource_string = (if StartsWith lb arg ''RLIM_'' then drop 5 arg else arg)
           in case find (\<lambda>e. EqualsIgnoreCase lb resource_string (fst e)) text_to_resources of
                None \<Rightarrow> Err (Error (''Could not parse resource '' @ quoted arg))
              | Some e \<Rightarrow> Ok (snd e)))"

definition parse_limit :: "libbase \<Rightarrow> string \<Rightarrow> string \<Rightarrow> 64 word result" where
  "parse_limit lb which arg =
     (if arg = ''-1'' \<or> arg = ''unlimited'' then Ok RLIM_INFINITY
      else (case ParseUint lb arg UINT64_MAX of
              None \<Rightarrow> Err (Error (''Could not parse '' @ which @ '' limit '' @ quoted arg))
            | Some v \<Rightarrow> Ok (of_nat v)))"

definition ParseRlimit :: "libbase \<Rightarrow> string list \<Rightarrow> (int \<times> 64 word \<times> 64 word) result" where
  "ParseRlimit lb args =
     rbind (parse_resource lb (args ! 1)) (\<lambda>resource.
     rbind (parse_limit lb ''soft'' (args ! 2)) (\<lambda>cur.
     rbind (parse_limit lb ''hard'' (args ! 3)) (\<lambda>lim. Ok (resource, cur, lim))))"

section \<open>Interfaces\<close>

text \<open>
  The names of HIDL interfaces are parsed by \<^verbatim>\<open>libhidl-gen-utils\<close>: \<open>fq_parse\<close> says of a name
  whether it is fully qualified and whether it is the name of a value, \<open>fq_instance\<close> is the
  interface of an instance. A hierarchy gives each known interface those it inherits.
\<close>

record fq_names =
  fq_parse :: "string \<Rightarrow> (bool \<times> bool) option"
  fq_instance :: "string \<Rightarrow> string option"

definition instance_names :: "libbase \<Rightarrow> fq_names \<Rightarrow> string list \<Rightarrow> string list result" where
  "instance_names lb fq instances =
     rfold (\<lambda>inst names.
        if Split lb inst ''/'' ! 0 = ''aidl'' then Ok names
        else (case fq_instance fq inst of
                None \<Rightarrow> Err (Error (''Unable to parse interface instance '' @ quoted inst))
              | Some n \<Rightarrow> Ok (List.insert n names))) instances []"

text \<open>The errors of all interfaces are collected; the result is good when there is none.\<close>

definition hierarchy_errors :: "(string \<Rightarrow> string list option) \<Rightarrow> string list \<Rightarrow> (string \<times> string list) list" where
  "hierarchy_errors hierarchy interfaces =
     concat (map (\<lambda>i. case hierarchy i of
                        None \<Rightarrow> [(i, [])]
                      | Some required \<Rightarrow>
                          (let diff = filter (\<lambda>r. r \<notin> set interfaces) required
                           in if diff \<noteq> [] then [(i, diff)] else [])) interfaces)"

definition hierarchy_message :: "libbase \<Rightarrow> string \<times> string list \<Rightarrow> string" where
  "hierarchy_message lb e =
     (case e of
        (i, []) \<Rightarrow> LF # ''Interface is not in the known set of hidl_interfaces: '' @ quoted i @
                   ''. Please ensure the interface is spelled correctly and built by a hidl_interface target.''
      | (i, diff) \<Rightarrow> LF # ''Interface '' @ quoted i @ '' requires its full inheritance hierarchy to be listed '' @
                   ''in this init_rc file. Missing interfaces: ['' @ Join lb diff '' '' @ '']'')"

definition CheckInterfaceInheritanceHierarchy ::
  "libbase \<Rightarrow> fq_names \<Rightarrow> string list \<Rightarrow> (string \<Rightarrow> string list option) \<Rightarrow> unit result" where
  "CheckInterfaceInheritanceHierarchy lb fq instances hierarchy =
     rbind (instance_names lb fq instances) (\<lambda>interfaces.
       let errors = concat (map (hierarchy_message lb) (hierarchy_errors hierarchy interfaces))
       in if errors \<noteq> [] then Err (Error errors) else Ok ())"

text \<open>\<^verbatim>\<open>known_interfaces\<close>, \<open>None\<close> until they are set.\<close>

definition IsKnownInterface :: "fq_names \<Rightarrow> string list option \<Rightarrow> string \<Rightarrow> unit result" where
  "IsKnownInterface fq known inst =
     (case fq_instance fq inst of
        None \<Rightarrow> Err (Error (''Unable to parse interface instance '' @ quoted inst))
      | Some intf \<Rightarrow>
          (case known of
             None \<Rightarrow> Err (Error ''No known interfaces have been loaded.'')
           | Some ks \<Rightarrow>
               if intf \<notin> set ks then
                 Err (Error (''Interface is not in the known set of hidl_interfaces: '' @ quoted intf @
                   ''. Please ensure the interface is spelled correctly and built by a hidl_interface target.''))
               else Ok ()))"

section \<open>Lemmas\<close>

lemma LookupCap_range: "LookupCap n = - 1 \<or> 0 \<le> LookupCap n \<and> LookupCap n \<le> int CAP_LAST_CAP"
proof (cases "map_of cap_map n")
  case None
  then show ?thesis by (simp add: LookupCap_def)
next
  case (Some v)
  then have "(n, v) \<in> set cap_map" by (rule map_of_SomeD)
  then have "\<exists>i<length cap_names. v = int i" by (auto simp: cap_map_def in_set_enumerate_eq)
  moreover have "length cap_names = CAP_LAST_CAP + 1" by (simp add: cap_names_def CAP_LAST_CAP_def)
  ultimately show ?thesis using Some by (auto simp: LookupCap_def)
qed

text \<open>The search for the last capability ends when some number is unknown to the kernel.\<close>

lemma first_unknown_cap_least:
  assumes "\<not> bounding (c + n)"
  shows "\<exists>d. first_unknown_cap bounding c = Some d \<and> c \<le> d \<and> \<not> bounding d \<and> (\<forall>e. c \<le> e \<and> e < d \<longrightarrow> bounding e)"
  using assms
proof (induction n arbitrary: c)
  case 0
  then show ?case by (auto simp: first_unknown_cap.simps)
next
  case (Suc n)
  show ?case
  proof (cases "bounding c")
    case True
    obtain d where "first_unknown_cap bounding (c + 1) = Some d" "c + 1 \<le> d" "\<not> bounding d"
      "\<forall>e. c + 1 \<le> e \<and> e < d \<longrightarrow> bounding e"
      using Suc.IH [of "c + 1"] Suc.prems by auto
    then show ?thesis using True
      by (intro exI [of _ d])
         (auto simp: first_unknown_cap.simps [of bounding c], metis Suc_leI le_neq_implies_less)
  next
    case False
    then show ?thesis by (auto simp: first_unknown_cap.simps)
  qed
qed

lemma run_calls_prefix: "prefix (snd (run_calls accepted cs)) cs"
  by (induction cs) (auto simp: split_beta)

lemma run_calls_all: "fst (run_calls accepted cs) \<longleftrightarrow> list_all accepted cs"
  "list_all accepted cs \<Longrightarrow> snd (run_calls accepted cs) = cs"
  by (induction cs) (auto simp: split_beta)

lemma hierarchy_errors_Nil:
  "hierarchy_errors h is = [] \<longleftrightarrow>
     list_all (\<lambda>i. case h i of None \<Rightarrow> False | Some req \<Rightarrow> set req \<subseteq> set is) is"
  by (auto simp: hierarchy_errors_def list_all_iff filter_empty_conv Let_def split: option.splits)

lemma hierarchy_message_nonempty: "hierarchy_message lb e \<noteq> []"
  by (cases e; cases "snd e") (auto simp: hierarchy_message_def)

end
