(* ===== verification/Service_Parser.thy ===== *)
theory Service_Parser
  imports Service_List Action_Parser Capabilities
begin

text \<open>
  The \<^verbatim>\<open>service\<close> section (\<^verbatim>\<open>init/service_parser.cpp\<close>). An option parser gets the arguments of
  its line and the service under construction and returns the changed service with its result:
  an option that fails half way keeps what it has set, as the code does. Sets of strings are
  sorted lists without duplicates.
\<close>

section \<open>Surroundings\<close>

text \<open>
  What the parser reads: properties, user database, capabilities of the kernel, the policy, and
  constants and parsers of libraries (\<^verbatim>\<open>thread_defs.h\<close>, \<^verbatim>\<open>linux/input.h\<close>, HIDL names).
\<close>

record sp_env =
  sp_lb :: libbase
  sp_props :: "string \<Rightarrow> string"
  sp_version :: int
  sp_getpwnam :: "string \<Rightarrow> 32 word option"
  sp_cap_ambient :: bool
  sp_last_valid_cap :: nat
  sp_priority_highest :: int
  sp_priority_lowest :: int
  sp_key_max :: int
  sp_fq :: fq_names
  sp_policy :: "InnitPolicy option"
  sp_log_env :: log_env
  sp_function_map :: "BuiltinFunctionMap option"

type_synonym svc_option = "sp_env \<Rightarrow> string list \<Rightarrow> Service \<Rightarrow> unit result \<times> Service"

abbreviation attr_update :: "(ProcessAttributes \<Rightarrow> ProcessAttributes) \<Rightarrow> Service \<Rightarrow> Service" where
  "attr_update f s \<equiv> s\<lparr>proc_attr := f (proc_attr s)\<rparr>"

section \<open>Options\<close>

definition cap_arg :: "sp_env \<Rightarrow> string \<Rightarrow> nat result" where
  "cap_arg env arg =
     (if LookupCap arg < 0 then Err (Error (''invalid capability '' @ quoted arg))
      else if sp_last_valid_cap env < nat (LookupCap arg)
      then Err (Error (''capability '' @ quoted arg @ '' not supported by the kernel''))
      else Ok (nat (LookupCap arg)))"

text \<open>Set bits until the first bad argument.\<close>

fun set_caps :: "sp_env \<Rightarrow> string list \<Rightarrow> nat list \<Rightarrow> unit result \<times> nat list" where
  "set_caps env [] caps = (Ok (), caps)"
| "set_caps env (a # as) caps =
     (case cap_arg env a of Inl e \<Rightarrow> (Inl e, caps) | Inr c \<Rightarrow> set_caps env as (insort_insert c caps))"

definition ParseCapabilities :: svc_option where
  "ParseCapabilities env args s =
     (let s = s\<lparr>svc_capabilities := Some []\<rparr>
      in if \<not> sp_cap_ambient env then
           (Err (Error ''capabilities requested but the kernel does not support ambient capabilities''), s)
         else (case set_caps env (drop 1 args) [] of (r, caps) \<Rightarrow> (r, s\<lparr>svc_capabilities := Some caps\<rparr>)))"

definition ParseClass :: svc_option where
  "ParseClass env args s = (Ok (), s\<lparr>classnames := sort (remdups (drop 1 args))\<rparr>)"

definition ParseConsole :: svc_option where
  "ParseConsole env args s =
     (if stdio_to_kmsg (proc_attr s) then
        (Err (Error (quoted ''console'' @ '' and '' @ quoted ''stdio_to_kmsg'' @ '' are mutually exclusive'')), s)
      else
        (Ok (), attr_update (\<lambda>a. a\<lparr>pa_console := if 1 < length args then ''/dev/'' @ args ! 1 else []\<rparr>)
                  (set_flag SVC_CONSOLE s)))"

text \<open>The loop of \<^verbatim>\<open>critical\<close>: \<open>None\<close> is the early return of \<^verbatim>\<open>window=off\<close>.\<close>

fun critical_args ::
  "sp_env \<Rightarrow> string list \<Rightarrow> string option \<times> nat option \<Rightarrow> (string option \<times> nat option) option result" where
  "critical_args env [] tw = Ok (Some tw)"
| "critical_args env (a # as) tw =
     (let arg = Split (sp_lb env) a ''=''; bad = Err (Error (''critical: Argument '' @ quoted a @ '' is not supported''))
      in if length arg \<noteq> 2 then bad
         else if arg ! 0 = ''target'' then critical_args env as (Some (arg ! 1), snd tw)
         else if arg ! 0 = ''window'' then
           (case ExpandProps (sp_props env) (sp_version env) (arg ! 1) of
              Inl _ \<Rightarrow> Err (Error (''critical: Could not expand argument '' @ [APOSTROPHE] @ '': '' @ arg ! 1))
            | Inr window \<Rightarrow>
                if window = ''off'' then Ok None
                else (case ParseInt (sp_lb env) window 0 INT_MAX of
                        None \<Rightarrow> Err (Error (''critical: '' @ quoted ''fatal_crash_window'' @ '' must be an integer > 0''))
                      | Some m \<Rightarrow> critical_args env as (fst tw, Some (nat m))))
         else bad)"

definition ParseCritical :: svc_option where
  "ParseCritical env args s =
     (case critical_args env (drop 1 args) (None, None) of
        Inl e \<Rightarrow> (Inl e, s)
      | Inr None \<Rightarrow> (Ok (), s)
      | Inr (Some (target, window)) \<Rightarrow>
          (let s = (case target of None \<Rightarrow> s | Some t \<Rightarrow> s\<lparr>fatal_reboot_target := Some t\<rparr>);
               s = (case window of None \<Rightarrow> s | Some w \<Rightarrow> s\<lparr>fatal_crash_window := w\<rparr>)
           in (Ok (), set_flag SVC_CRITICAL s)))"

definition ParseDisabled :: svc_option where
  "ParseDisabled env args s = (Ok (), set_flag SVC_RC_DISABLED (set_flag SVC_DISABLED s))"

definition ParseEnterNamespace :: svc_option where
  "ParseEnterNamespace env args s =
     (if args ! 1 \<noteq> ''net'' then (Err (Error ''Init only supports entering network namespaces''), s)
      else if namespaces_to_enter (namespaces s) \<noteq> [] then
        (Err (Error ''Only one network namespace may be entered''), s)
      else
        (Ok (), s\<lparr>namespaces := \<lparr>ns_flags = List.insert CLONE_NEWNS (ns_flags (namespaces s)),
                                namespaces_to_enter = namespaces_to_enter (namespaces s) @ [(CLONE_NEWNET, args ! 2)]\<rparr>\<rparr>))"

definition decode_gid :: "sp_env \<Rightarrow> string \<Rightarrow> 32 word result" where
  "decode_gid env g =
     (case DecodeUid (sp_getpwnam env) g of
        Inl e \<Rightarrow> Err (Error (''Unable to decode GID for '' @ quoted g @ '': '' @ message e))
      | Inr v \<Rightarrow> Ok v)"

fun add_supp_gids :: "sp_env \<Rightarrow> string list \<Rightarrow> Service \<Rightarrow> unit result \<times> Service" where
  "add_supp_gids env [] s = (Ok (), s)"
| "add_supp_gids env (g # gs) s =
     (case decode_gid env g of
        Inl e \<Rightarrow> (Inl e, s)
      | Inr v \<Rightarrow> add_supp_gids env gs (attr_update (\<lambda>a. a\<lparr>supp_gids := supp_gids a @ [v]\<rparr>) s))"

definition ParseGroup :: svc_option where
  "ParseGroup env args s =
     (case decode_gid env (args ! 1) of
        Inl e \<Rightarrow> (Inl e, s)
      | Inr v \<Rightarrow> add_supp_gids env (drop 2 args) (attr_update (\<lambda>a. a\<lparr>pa_gid := v\<rparr>) s))"

definition ParsePriority :: svc_option where
  "ParsePriority env args s =
     (let s = attr_update (\<lambda>a. a\<lparr>pa_priority := 0\<rparr>) s
      in case ParseInt (sp_lb env) (args ! 1) (sp_priority_highest env) (sp_priority_lowest env) of
           None \<Rightarrow> (Err (Error (''process priority value must be range '' @ to_string (sp_priority_highest env) @
                     '' - '' @ to_string (sp_priority_lowest env))), s)
         | Some p \<Rightarrow> (Ok (), attr_update (\<lambda>a. a\<lparr>pa_priority := p\<rparr>) s))"

definition check_interface_name :: "sp_env \<Rightarrow> string \<Rightarrow> unit result" where
  "check_interface_name env n =
     (if n = ''aidl'' then Ok ()
      else (case fq_parse (sp_fq env) n of
              None \<Rightarrow> Err (Error (''Invalid fully-qualified name for interface '' @ quoted n))
            | Some (full, is_value) \<Rightarrow>
                if \<not> full then Err (Error (''Interface name not fully-qualified '' @ quoted n))
                else if is_value then Err (Error (''Interface name must not be a value name '' @ quoted n))
                else Ok ()))"

definition ParseInterface :: "ServiceList \<Rightarrow> svc_option" where
  "ParseInterface sl env args s =
     (case check_interface_name env (args ! 1) of
        Inl e \<Rightarrow> (Inl e, s)
      | Inr _ \<Rightarrow>
          (let fullname = args ! 1 @ ''/'' @ args ! 2
           in case find (\<lambda>svc. fullname \<in> set (svc_interfaces svc)) (sl_services sl) of
                Some svc \<Rightarrow> (Err (Error (''Interface '' @ quoted fullname @ '' redefined in '' @ svc_name s @
                               '' but is already defined by '' @ svc_name svc)), s)
              | None \<Rightarrow> (Ok (), s\<lparr>svc_interfaces := insort_insert fullname (svc_interfaces s)\<rparr>)))"

definition ParseIoprio :: svc_option where
  "ParseIoprio env args s =
     (case ParseInt (sp_lb env) (args ! 2) 0 7 of
        None \<Rightarrow> (Err (Error ''priority value must be range 0 - 7''), s)
      | Some pri \<Rightarrow>
          (let s = attr_update (\<lambda>a. a\<lparr>ioprio_pri := pri\<rparr>) s
           in if args ! 1 = ''rt'' \<or> args ! 1 = ''be'' \<or> args ! 1 = ''idle''
              then (Ok (), attr_update (\<lambda>a. a\<lparr>ioprio_class := args ! 1\<rparr>) s)
              else (Err (Error ''ioprio option usage: ioprio <rt|be|idle> <0-7>''), s)))"

fun add_keycodes :: "sp_env \<Rightarrow> string list \<Rightarrow> Service \<Rightarrow> unit result \<times> Service" where
  "add_keycodes env [] s = (Ok (), s)"
| "add_keycodes env (k # ks) s =
     (case ParseInt (sp_lb env) k 0 (sp_key_max env) of
        None \<Rightarrow> (Err (Error (''invalid keycode: '' @ k)), s)
      | Some code \<Rightarrow>
          if code \<in> set (keycodes s) then (Err (Error (''duplicate keycode: '' @ k)), s)
          else add_keycodes env ks (s\<lparr>keycodes := insort code (keycodes s)\<rparr>))"

definition ParseKeycodes :: svc_option where
  "ParseKeycodes env args s =
     (if length args = 2 \<and> StartsWith (sp_lb env) (args ! 1) ''$'' then
        (case ExpandProps (sp_props env) (sp_version env) (args ! 1) of
           Inl e \<Rightarrow> (Inl e, s)
         | Inr expanded \<Rightarrow>
             if expanded = ''none'' then (Ok (), s)
             else add_keycodes env (Split (sp_lb env) expanded '','') s)
      else add_keycodes env (drop 1 args) s)"

definition ParseOneshot :: svc_option where
  "ParseOneshot env args s = (Ok (), set_flag SVC_ONESHOT s)"

definition ParseOnrestart :: svc_option where
  "ParseOnrestart env args s =
     (case AddCommand (sp_function_map env) (drop 1 args) (NumCommands (onrestart s) + 1) (onrestart s) of
        (Inl e, a) \<Rightarrow> (Err (Error (''cannot add Onrestart command: '' @ message e)), s\<lparr>onrestart := a\<rparr>)
      | (Inr _, a) \<Rightarrow> (Ok (), s\<lparr>onrestart := a\<rparr>))"

fun add_namespaces :: "string list \<Rightarrow> ns_kind list \<Rightarrow> unit result \<times> ns_kind list" where
  "add_namespaces [] fl = (Ok (), fl)"
| "add_namespaces (a # as) fl =
     (if a = ''pid'' then add_namespaces as (List.insert CLONE_NEWNS (List.insert CLONE_NEWPID fl))
      else if a = ''mnt'' then add_namespaces as (List.insert CLONE_NEWNS fl)
      else (Err (Error (''namespace must be '' @ quoted ''pid'' @ '' or '' @ quoted ''mnt'')), fl))"

definition ParseNamespace :: svc_option where
  "ParseNamespace env args s =
     (case add_namespaces (drop 1 args) (ns_flags (namespaces s)) of
        (r, fl) \<Rightarrow> (r, s\<lparr>namespaces := (namespaces s)\<lparr>ns_flags := fl\<rparr>\<rparr>))"

text \<open>The options that are one number: parse it into a field or fail with a message.\<close>

definition number_option ::
  "sp_env \<Rightarrow> int \<Rightarrow> int \<Rightarrow> string \<Rightarrow> (int \<Rightarrow> Service \<Rightarrow> Service) \<Rightarrow> string \<Rightarrow> Service \<Rightarrow> unit result \<times> Service" where
  "number_option env lo hi complaint store arg s =
     (case ParseInt (sp_lb env) arg lo hi of
        None \<Rightarrow> (Err (Error complaint), s)
      | Some v \<Rightarrow> (Ok (), store v s))"

definition ParseOomScoreAdjust :: svc_option where
  "ParseOomScoreAdjust env args s =
     number_option env (- 1000) 1000 ''oom_score_adjust value must be in range -1000 - +1000''
       (\<lambda>v s. s\<lparr>oom_score_adjust := v\<rparr>) (args ! 1) s"

definition ParseOverride :: svc_option where
  "ParseOverride env args s = (Ok (), s\<lparr>is_override := True\<rparr>)"

definition ParseMemcgSwappiness :: svc_option where
  "ParseMemcgSwappiness env args s =
     number_option env 0 INT_MAX ''swappiness value must be equal or greater than 0''
       (\<lambda>v s. s\<lparr>swappiness := v\<rparr>) (args ! 1) s"

definition ParseMemcgLimitInBytes :: svc_option where
  "ParseMemcgLimitInBytes env args s =
     number_option env 0 INT_MAX ''limit_in_bytes value must be equal or greater than 0''
       (\<lambda>v s. s\<lparr>limit_in_bytes := v\<rparr>) (args ! 1) s"

definition ParseMemcgLimitPercent :: svc_option where
  "ParseMemcgLimitPercent env args s =
     number_option env 0 INT_MAX ''limit_percent value must be equal or greater than 0''
       (\<lambda>v s. s\<lparr>limit_percent := v\<rparr>) (args ! 1) s"

definition ParseMemcgLimitProperty :: svc_option where
  "ParseMemcgLimitProperty env args s = (Ok (), s\<lparr>limit_property := args ! 1\<rparr>)"

definition ParseMemcgSoftLimitInBytes :: svc_option where
  "ParseMemcgSoftLimitInBytes env args s =
     number_option env 0 INT_MAX ''soft_limit_in_bytes value must be equal or greater than 0''
       (\<lambda>v s. s\<lparr>soft_limit_in_bytes := v\<rparr>) (args ! 1) s"

definition ParseProcessRlimit :: svc_option where
  "ParseProcessRlimit env args s =
     (case ParseRlimit (sp_lb env) args of
        Inl e \<Rightarrow> (Inl e, s)
      | Inr r \<Rightarrow> (Ok (), attr_update (\<lambda>a. a\<lparr>rlimits := rlimits a @ [r]\<rparr>) s))"

definition set_reboot_target ::
  "sp_env \<Rightarrow> string list \<Rightarrow> Service \<Rightarrow> unit result \<times> Service \<times> log_event list" where
  "set_reboot_target env args s =
     (if on_failure_reboot_target s \<noteq> None then
        (Err (Error ''Only one reboot_on_failure command may be specified''), s, [])
      else if \<not> StartsWith (sp_lb env) (args ! 1) ''shutdown'' \<and> \<not> StartsWith (sp_lb env) (args ! 1) ''reboot'' then
        (Err (Error (''reboot_on_failure commands must begin with either '' @ quoted ''shutdown'' @ '' or '' @
           quoted ''reboot'')), s, [])
      else (Ok (), s\<lparr>on_failure_reboot_target := Some (args ! 1)\<rparr>, []))"

text \<open>The policy may switch \<^verbatim>\<open>reboot_on_failure\<close> off; that is logged.\<close>

definition ParseRebootOnFailure ::
  "sp_env \<Rightarrow> string list \<Rightarrow> Service \<Rightarrow> unit result \<times> Service \<times> log_event list" where
  "ParseRebootOnFailure env args s =
     (case (if InnitPolicyIsActive (sp_policy env) then GetInnitPolicy (sp_policy env) else None) of
        Some pol \<Rightarrow>
          if GetFailureAction pol (svc_name s) \<noteq> FA_Reboot then
            (Ok (), s, LogInfo (sp_log_env env) pol
               (''ignore reboot_on_failure service='' @ svc_name s @ '' target='' @ args ! 1))
          else set_reboot_target env args s
      | None \<Rightarrow> set_reboot_target env args s)"

definition ParseRestartPeriod :: svc_option where
  "ParseRestartPeriod env args s =
     number_option env 5 INT_MAX ''restart_period value must be an integer >= 5''
       (\<lambda>v s. s\<lparr>restart_period := nat v\<rparr>) (args ! 1) s"

definition ParseSeclabel :: svc_option where
  "ParseSeclabel env args s = (Ok (), s\<lparr>seclabel := args ! 1\<rparr>)"

definition ParseSigstop :: svc_option where
  "ParseSigstop env args s = (Ok (), s\<lparr>sigstop := True\<rparr>)"

definition ParseSetenv :: svc_option where
  "ParseSetenv env args s = (Ok (), s\<lparr>environment_vars := environment_vars s @ [(args ! 1, args ! 2)]\<rparr>)"

definition ParseShutdown :: svc_option where
  "ParseShutdown env args s =
     (if args ! 1 = ''critical'' then (Ok (), set_flag SVC_SHUTDOWN_CRITICAL s)
      else (Err (Error ''Invalid shutdown option''), s))"

definition ParseTaskProfiles :: svc_option where
  "ParseTaskProfiles env args s = (Ok (), s\<lparr>task_profiles := drop 1 args\<rparr>)"

definition ParseTimeoutPeriod :: svc_option where
  "ParseTimeoutPeriod env args s =
     number_option env 1 INT_MAX ''timeout_period value must be an integer >= 1''
       (\<lambda>v s. s\<lparr>timeout_period := Some (nat v)\<rparr>) (args ! 1) s"

text \<open>
  \<^verbatim>\<open>strtol\<close> in base 8: the value, what is left of the string (all of it when there is no digit)
  and whether it overflowed a 64-bit \<^verbatim>\<open>long\<close>.
\<close>

definition octal_digit :: "char \<Rightarrow> bool" where
  "octal_digit c = (48 \<le> code_of c \<and> code_of c \<le> 55)"

definition strtol8 :: "string \<Rightarrow> int \<times> string \<times> bool" where
  "strtol8 s =
     (let t = dropWhile c_isspace s;
          neg = prefix ''-'' t;
          u = (if neg \<or> prefix ''+'' t then drop 1 t else t);
          v = int (digits_value 8 0 (takeWhile octal_digit u));
          v = (if neg then - v else v)
      in if takeWhile octal_digit u = [] then (0, s, False)
         else if v < - 9223372036854775808 then (- 9223372036854775808, dropWhile octal_digit u, True)
         else if 9223372036854775807 < v then (9223372036854775807, dropWhile octal_digit u, True)
         else (v, dropWhile octal_digit u, False))"

definition parse_perm :: "string \<Rightarrow> 32 word result" where
  "parse_perm arg =
     (case strtol8 (c_str arg) of
        (v, rest, errno) \<Rightarrow>
          if errno \<or> rest = c_str arg \<or> rest \<noteq> []
          then Err (ErrnoError (''Unable to parse permissions '' @ quoted arg))
          else Ok (word_of_int v))"

definition socket_type :: "string list \<Rightarrow> (string \<times> bool) result" where
  "socket_type types =
     (if types ! 0 \<noteq> ''stream'' \<and> types ! 0 \<noteq> ''dgram'' \<and> types ! 0 \<noteq> ''seqpacket'' then
        Err (Error (''socket type must be '' @ quoted ''dgram'' @ '', '' @ quoted ''stream'' @ '' or '' @
          quoted ''seqpacket'' @ '', got '' @ quoted (types ! 0) @ '' instead.''))
      else if length types = 1 then Ok (types ! 0, False)
      else if length types = 2 \<and> types ! 1 = ''passcred'' then Ok (types ! 0, True)
      else Err (Error (''Only '' @ quoted ''passcred'' @ '' may be used to modify the socket type'')))"

definition optional_id :: "sp_env \<Rightarrow> string \<Rightarrow> nat \<Rightarrow> string list \<Rightarrow> 32 word result" where
  "optional_id env what n args =
     (if n < length args then
        (case DecodeUid (sp_getpwnam env) (args ! n) of
           Inl e \<Rightarrow> Err (Error (''Unable to find '' @ what @ '' for '' @ quoted (args ! n) @ '': '' @ message e))
         | Inr v \<Rightarrow> Ok v)
      else Ok 0)"

definition socket_of :: "sp_env \<Rightarrow> string list \<Rightarrow> SocketDescriptor result" where
  "socket_of env args =
     rbind (socket_type (Split (sp_lb env) (args ! 2) ''+'')) (\<lambda>(ty, pc).
     rbind (parse_perm (args ! 3)) (\<lambda>perm.
     rbind (optional_id env ''UID'' 4 args) (\<lambda>uid.
     rbind (optional_id env ''GID'' 5 args) (\<lambda>gid.
       Ok \<lparr>sd_name = args ! 1, sd_type = ty, sd_uid = uid, sd_gid = gid, sd_perm = perm,
           sd_context = (if 6 < length args then args ! 6 else []), sd_passcred = pc\<rparr>))))"

definition ParseSocket :: svc_option where
  "ParseSocket env args s =
     (case socket_of env args of
        Inl e \<Rightarrow> (Inl e, s)
      | Inr socket \<Rightarrow>
          if sd_name socket \<in> sd_name ` set (sockets s)
          then (Err (Error (''duplicate socket descriptor '' @ quoted (sd_name socket))), s)
          else (Ok (), s\<lparr>sockets := sockets s @ [socket]\<rparr>))"

definition ParseStdioToKmsg :: svc_option where
  "ParseStdioToKmsg env args s =
     (if has SVC_CONSOLE s then
        (Err (Error (quoted ''stdio_to_kmsg'' @ '' and '' @ quoted ''console'' @ '' are mutually exclusive'')), s)
      else (Ok (), attr_update (\<lambda>a. a\<lparr>stdio_to_kmsg := True\<rparr>) s))"

definition ParseFile :: svc_option where
  "ParseFile env args s =
     (if args ! 2 \<noteq> ''r'' \<and> args ! 2 \<noteq> ''w'' \<and> args ! 2 \<noteq> ''rw'' then
        (Err (Error (''file type must be '' @ quoted ''r'' @ '', '' @ quoted ''w'' @ '' or '' @ quoted ''rw'')), s)
      else
        (case ExpandProps (sp_props env) (sp_version env) (args ! 1) of
           Inl e \<Rightarrow> (Err (Error (''Could not expand file path '' @ [APOSTROPHE] @ '': '' @ message e)), s)
         | Inr name \<Rightarrow>
             if \<not> prefix ''/'' name \<or> find_str ''../'' name \<noteq> None then
               (Err (Error ''file name must not be relative''), s)
             else if name \<in> fd_name ` set (svc_files s) then
               (Err (Error (''duplicate file descriptor '' @ quoted name)), s)
             else (Ok (), s\<lparr>svc_files := svc_files s @ [\<lparr>fd_name = name, fd_type = args ! 2\<rparr>]\<rparr>)))"

definition ParseUser :: svc_option where
  "ParseUser env args s =
     (case DecodeUid (sp_getpwnam env) (args ! 1) of
        Inl e \<Rightarrow> (Err (Error (''Unable to find UID for '' @ quoted (args ! 1) @ '': '' @ message e)), s)
      | Inr u \<Rightarrow> (Ok (), attr_update (\<lambda>a. a\<lparr>pa_uid := u\<rparr>) s))"

definition ParseWritepid :: svc_option where
  "ParseWritepid env args s = (Ok (), s\<lparr>writepid_files := drop 1 args\<rparr>)"

definition ParseUpdatable :: svc_option where
  "ParseUpdatable env args s = (Ok (), s\<lparr>updatable := True\<rparr>)"

text \<open>The table. An entry knows whether it is silent, reads the service list or writes the policy log.\<close>

datatype option_parser =
  Silent svc_option
| ReadsList "ServiceList \<Rightarrow> svc_option"
| Logs "sp_env \<Rightarrow> string list \<Rightarrow> Service \<Rightarrow> unit result \<times> Service \<times> log_event list"

definition GetParserMap :: "option_parser keyword_map" where
  "GetParserMap =
     [entry ''capabilities'' 0 kMax (Silent ParseCapabilities),
      entry ''class'' 1 kMax (Silent ParseClass),
      entry ''console'' 0 1 (Silent ParseConsole),
      entry ''critical'' 0 2 (Silent ParseCritical),
      entry ''disabled'' 0 0 (Silent ParseDisabled),
      entry ''enter_namespace'' 2 2 (Silent ParseEnterNamespace),
      entry ''file'' 2 2 (Silent ParseFile),
      entry ''group'' 1 (NR_SVC_SUPP_GIDS + 1) (Silent ParseGroup),
      entry ''interface'' 2 2 (ReadsList ParseInterface),
      entry ''ioprio'' 2 2 (Silent ParseIoprio),
      entry ''keycodes'' 1 kMax (Silent ParseKeycodes),
      entry ''memcg.limit_in_bytes'' 1 1 (Silent ParseMemcgLimitInBytes),
      entry ''memcg.limit_percent'' 1 1 (Silent ParseMemcgLimitPercent),
      entry ''memcg.limit_property'' 1 1 (Silent ParseMemcgLimitProperty),
      entry ''memcg.soft_limit_in_bytes'' 1 1 (Silent ParseMemcgSoftLimitInBytes),
      entry ''memcg.swappiness'' 1 1 (Silent ParseMemcgSwappiness),
      entry ''namespace'' 1 2 (Silent ParseNamespace),
      entry ''oneshot'' 0 0 (Silent ParseOneshot),
      entry ''onrestart'' 1 kMax (Silent ParseOnrestart),
      entry ''oom_score_adjust'' 1 1 (Silent ParseOomScoreAdjust),
      entry ''override'' 0 0 (Silent ParseOverride),
      entry ''priority'' 1 1 (Silent ParsePriority),
      entry ''reboot_on_failure'' 1 1 (Logs ParseRebootOnFailure),
      entry ''restart_period'' 1 1 (Silent ParseRestartPeriod),
      entry ''rlimit'' 3 3 (Silent ParseProcessRlimit),
      entry ''seclabel'' 1 1 (Silent ParseSeclabel),
      entry ''setenv'' 2 2 (Silent ParseSetenv),
      entry ''shutdown'' 1 1 (Silent ParseShutdown),
      entry ''sigstop'' 0 0 (Silent ParseSigstop),
      entry ''socket'' 3 6 (Silent ParseSocket),
      entry ''stdio_to_kmsg'' 0 0 (Silent ParseStdioToKmsg),
      entry ''task_profiles'' 1 kMax (Silent ParseTaskProfiles),
      entry ''timeout_period'' 1 1 (Silent ParseTimeoutPeriod),
      entry ''updatable'' 0 0 (Silent ParseUpdatable),
      entry ''user'' 1 1 (Silent ParseUser),
      entry ''writepid'' 1 kMax (Silent ParseWritepid)]"

fun invoke_option ::
  "option_parser \<Rightarrow> ServiceList \<Rightarrow> sp_env \<Rightarrow> string list \<Rightarrow> Service \<Rightarrow> unit result \<times> Service \<times> log_event list" where
  "invoke_option (Silent f) sl env args s = (case f env args s of (r, s) \<Rightarrow> (r, s, []))"
| "invoke_option (ReadsList f) sl env args s = (case f sl env args s of (r, s) \<Rightarrow> (r, s, []))"
| "invoke_option (Logs f) sl env args s = f env args s"

section \<open>The section parser\<close>

record service_parser =
  sp_service :: "Service option"
  sp_filename :: string
  innit_service_denied :: bool

text \<open>Where the parser and the list live in the world, and what the constructor was given.\<close>

record 'w service_parser_ref =
  get_sp :: "'w \<Rightarrow> service_parser"
  set_sp :: "service_parser \<Rightarrow> 'w \<Rightarrow> 'w"
  get_sl :: "'w \<Rightarrow> ServiceList"
  set_sl :: "ServiceList \<Rightarrow> 'w \<Rightarrow> 'w"
  sp_subcontext :: "Subcontext option"
  sp_hierarchy :: "(string \<Rightarrow> string list option) option"
  sp_from_apex :: bool
  sp_environment :: sp_env

definition IsValidName :: "string \<Rightarrow> bool" where
  "IsValidName name = (IsLegalPropertyName (''init.svc.'' @ name) \<and> length name \<le> PROP_VALUE_MAX)"


definition program_args :: "int \<Rightarrow> string list \<Rightarrow> string list" where
  "program_args version str_args =
     (let str_args = (if version \<le> API_P \<and> str_args ! 0 = ''/sbin/watchdogd''
                      then str_args[0 := ''/system/bin/watchdogd''] else str_args)
      in if version \<le> API_Q \<and> str_args ! 0 = ''/charger'' then str_args[0 := ''/system/bin/charger''] else str_args)"

definition open_service ::
  "'w service_parser_ref \<Rightarrow> string list \<Rightarrow> string \<Rightarrow> service_parser \<Rightarrow> unit result \<times> service_parser \<times> log_event list" where
  "open_service r args filename p =
     (let env = sp_environment r
      in if length args < 3 then (Err (Error ''services must have a name and a program''), p, [])
         else if \<not> IsValidName (args ! 1) then (Err (Error (''invalid service name '' @ quoted (args ! 1))), p, [])
         else
           (case innit_gate IsServiceAllowed (sp_log_env env) (sp_policy env) (args ! 1) of
              (False, evs) \<Rightarrow> (Ok (), p\<lparr>innit_service_denied := True, sp_service := None\<rparr>, evs)
            | (True, evs) \<Rightarrow>
                (let sc = (case sp_subcontext r of
                             None \<Rightarrow> None
                           | Some sc \<Rightarrow> if PathMatchesSubcontext (sp_lb env) sc filename then Some sc else None)
                 in (Ok (), \<lparr>sp_service = Some (new_service (args ! 1) 0 0 0 [] [] [] sc
                                (program_args (sp_version env) (drop 2 args)) (sp_from_apex r)),
                             sp_filename = filename, innit_service_denied = False\<rparr>, evs))))"

definition ServiceParser_ParseSection ::
  "'w service_parser_ref \<Rightarrow> string list \<Rightarrow> string \<Rightarrow> nat \<Rightarrow> 'w rc_state \<Rightarrow> unit result \<times> 'w rc_state" where
  "ServiceParser_ParseSection r args filename line rs =
     (case open_service r args filename (get_sp r (rc_world rs)) of
        (res, p, evs) \<Rightarrow> (res, log_rc evs (rs\<lparr>rc_world := set_sp r p (rc_world rs)\<rparr>)))"

definition ServiceParser_ParseLineSection ::
  "'w service_parser_ref \<Rightarrow> string list \<Rightarrow> nat \<Rightarrow> 'w rc_state \<Rightarrow> unit result \<times> 'w rc_state" where
  "ServiceParser_ParseLineSection r args line rs =
     (let w = rc_world rs; p = get_sp r w
      in case sp_service p of
           None \<Rightarrow> (Ok (), rs)
         | Some s \<Rightarrow>
             (case Find GetParserMap args of
                Inl e \<Rightarrow> (Inl e, rs)
              | Inr f \<Rightarrow>
                  (case invoke_option f (get_sl r w) (sp_environment r) args s of
                     (res, s, evs) \<Rightarrow>
                       (res, log_rc evs (rs\<lparr>rc_world := set_sp r (p\<lparr>sp_service := Some s\<rparr>) w\<rparr>)))))"

text \<open>The checks at the end of a section, and whether an old service has to go.\<close>

definition context_of :: "Service \<Rightarrow> string" where
  "context_of s = (case svc_subcontext s of None \<Rightarrow> [] | Some sc \<Rightarrow> sc_context sc)"

definition check_override :: "libbase \<Rightarrow> string \<Rightarrow> Service \<Rightarrow> Service \<Rightarrow> unit result" where
  "check_override lb filename s old =
     (if \<not> is_override s then Err (Error (''ignored duplicate definition of service '' @ quoted (svc_name s)))
      else if StartsWith lb filename ''/apex/'' \<and> \<not> updatable old then
        Err (Error (''cannot update a non-updatable service '' @ quoted (svc_name s) @ '' with a config in APEX''))
      else if context_of s \<noteq> context_of old then
        Err (Error (''service '' @ quoted (svc_name s) @ '' overrides another service across the treble boundary.''))
      else Ok ())"

definition close_service :: "'w service_parser_ref \<Rightarrow> string \<Rightarrow> Service \<Rightarrow> ServiceList \<Rightarrow> ServiceList result" where
  "close_service r filename s sl =
     (let env = sp_environment r; lb = sp_lb env
      in rbind (case sp_hierarchy r of
                  None \<Rightarrow> Ok ()
                | Some h \<Rightarrow> (case CheckInterfaceInheritanceHierarchy lb (sp_fq env) (svc_interfaces s) h of
                               Inl e \<Rightarrow> Err (Error (message e)) | Inr _ \<Rightarrow> Ok ())) (\<lambda>_.
         rbind (if API_R \<le> sp_version env \<and> has SVC_CRITICAL s \<and> has SVC_ONESHOT s
                then Err (Error (''service '' @ quoted (svc_name s) @ '' can'' @ [APOSTROPHE] @ ''t be both critical and oneshot''))
                else Ok ()) (\<lambda>_.
         case FindService (svc_name s) svc_name sl of
           None \<Rightarrow> Ok (AddService s sl)
         | Some i \<Rightarrow>
             rbind (check_override lb filename s (sl_services sl ! i)) (\<lambda>_.
               Ok (AddService s (RemoveService (svc_name s) sl))))))"

definition ServiceParser_EndSection :: "'w service_parser_ref \<Rightarrow> 'w rc_state \<Rightarrow> unit result \<times> 'w rc_state" where
  "ServiceParser_EndSection r rs =
     (let w = rc_world rs; p = get_sp r w
      in if innit_service_denied p then
           (Ok (), rs\<lparr>rc_world := set_sp r (p\<lparr>innit_service_denied := False, sp_service := None\<rparr>) w\<rparr>)
         else
           (case sp_service p of
              None \<Rightarrow> (Ok (), rs)
            | Some s \<Rightarrow>
                (case close_service r (sp_filename p) s (get_sl r w) of
                   Inl e \<Rightarrow> (Inl e, rs)
                 | Inr sl \<Rightarrow> (Ok (), rs\<lparr>rc_world := set_sl r sl (set_sp r (p\<lparr>sp_service := None\<rparr>) w)\<rparr>))))"

definition ServiceParser_EndFile :: "'w service_parser_ref \<Rightarrow> 'w rc_state \<Rightarrow> 'w rc_state option" where
  "ServiceParser_EndFile r rs =
     Some (rs\<lparr>rc_world := set_sp r ((get_sp r (rc_world rs))\<lparr>sp_filename := []\<rparr>) (rc_world rs)\<rparr>)"

definition ServiceParser :: "'w service_parser_ref \<Rightarrow> 'w rc_state section_parser" where
  "ServiceParser r =
     \<lparr>ParseSection = ServiceParser_ParseSection r, ParseLineSection = ServiceParser_ParseLineSection r,
      EndSection = ServiceParser_EndSection r, EndFile = ServiceParser_EndFile r\<rparr>"

end
