(* ===== verification/Service_Wf.thy ===== *)
theory Service_Wf
  imports Service_Parser
begin

text \<open>
  What the service section guarantees of a service it builds, whatever the lines say: values in
  range, descriptors without duplicates, exclusive options not combined.
\<close>

section \<open>Well-formed service definitions\<close>

definition attr_wf :: "ProcessAttributes \<Rightarrow> bool" where
  "attr_wf a = (0 \<le> ioprio_pri a \<and> ioprio_pri a \<le> 7 \<and> list_all (\<lambda>(r, _). 0 \<le> r \<and> r < RLIM_NLIMITS) (rlimits a))"

definition ns_wf :: "NamespaceInfo \<Rightarrow> bool" where
  "ns_wf n =
     (length (namespaces_to_enter n) \<le> 1 \<and>
      (CLONE_NEWPID \<in> set (ns_flags n) \<or> namespaces_to_enter n \<noteq> [] \<longrightarrow> CLONE_NEWNS \<in> set (ns_flags n)))"

definition keys_wf :: "sp_env \<Rightarrow> int list \<Rightarrow> bool" where
  "keys_wf env ks = (sorted ks \<and> distinct ks \<and> list_all (\<lambda>k. 0 \<le> k \<and> k \<le> sp_key_max env) ks)"

definition caps_wf :: "sp_env \<Rightarrow> nat list option \<Rightarrow> bool" where
  "caps_wf env caps =
     (case caps of
        None \<Rightarrow> True
      | Some cs \<Rightarrow> sorted cs \<and> distinct cs \<and> list_all (\<lambda>c. c \<le> CAP_LAST_CAP \<and> c \<le> sp_last_valid_cap env) cs)"

definition files_wf :: "FileDescriptor list \<Rightarrow> bool" where
  "files_wf fs =
     (distinct (map fd_name fs) \<and>
      list_all (\<lambda>f. prefix ''/'' (fd_name f) \<and> \<not> sublist ''../'' (fd_name f) \<and>
                    (fd_type f = ''r'' \<or> fd_type f = ''w'' \<or> fd_type f = ''rw'')) fs)"

definition sockets_wf :: "SocketDescriptor list \<Rightarrow> bool" where
  "sockets_wf ss =
     (distinct (map sd_name ss) \<and>
      list_all (\<lambda>s. sd_type s = ''stream'' \<or> sd_type s = ''dgram'' \<or> sd_type s = ''seqpacket'') ss)"

definition reboot_target_wf :: "string option \<Rightarrow> bool" where
  "reboot_target_wf t =
     (case t of None \<Rightarrow> True | Some t \<Rightarrow> prefix ''shutdown'' t \<or> prefix ''reboot'' t)"

definition periods_wf :: "Service \<Rightarrow> bool" where
  "periods_wf s = (5 \<le> restart_period s \<and> (case timeout_period s of None \<Rightarrow> True | Some t \<Rightarrow> 1 \<le> t))"

definition memory_wf :: "Service \<Rightarrow> bool" where
  "memory_wf s =
     (- 1000 \<le> oom_score_adjust s \<and> oom_score_adjust s \<le> 1000 \<and> - 1 \<le> swappiness s \<and>
      - 1 \<le> soft_limit_in_bytes s \<and> - 1 \<le> limit_in_bytes s \<and> - 1 \<le> limit_percent s)"

definition console_wf :: "Service \<Rightarrow> bool" where
  "console_wf s = (\<not> (has SVC_CONSOLE s \<and> stdio_to_kmsg (proc_attr s)))"

definition sets_wf :: "Service \<Rightarrow> bool" where
  "sets_wf s = (sorted_wrt (<) (classnames s) \<and> sorted_wrt (<) (svc_interfaces s))"

text \<open>Not started: no process, no start order, not waiting for a restart.\<close>

definition not_started :: "Service \<Rightarrow> bool" where
  "not_started s = (svc_pid s = 0 \<and> start_order s = 0 \<and> \<not> has SVC_RUNNING s \<and> \<not> has SVC_RESTARTING s)"

definition service_wf :: "sp_env \<Rightarrow> Service \<Rightarrow> bool" where
  "service_wf env s =
     (attr_wf (proc_attr s) \<and> ns_wf (namespaces s) \<and> keys_wf env (keycodes s) \<and> caps_wf env (svc_capabilities s) \<and>
      files_wf (svc_files s) \<and> sockets_wf (sockets s) \<and> reboot_target_wf (on_failure_reboot_target s) \<and>
      periods_wf s \<and> memory_wf s \<and> console_wf s \<and> sets_wf s \<and> not_started s)"

lemmas wf_defs =
  service_wf_def attr_wf_def ns_wf_def keys_wf_def caps_wf_def files_wf_def sockets_wf_def reboot_target_wf_def
  periods_wf_def memory_wf_def console_wf_def sets_wf_def not_started_def

lemmas rest_defs = periods_wf_def memory_wf_def console_wf_def sets_wf_def not_started_def has_def

lemma new_service_wf: "service_wf env (new_service name 0 uid gid sg [] label sc args apex)"
  by (simp add: wf_defs new_service_def has_def)

text \<open>The service keeps its name and is well formed afterwards.\<close>

definition keeps :: "sp_env \<Rightarrow> Service \<Rightarrow> Service \<Rightarrow> bool" where
  "keeps env s s' = (svc_name s' = svc_name s \<and> service_wf env s')"

lemma keepsI: "svc_name s' = svc_name s \<Longrightarrow> service_wf env s' \<Longrightarrow> keeps env s s'"
  by (simp add: keeps_def)

text \<open>An update outside the fields the predicate reads.\<close>

lemma free_fields [simp]:
  "service_wf env (s\<lparr>is_override := b\<rparr>) = service_wf env s" "service_wf env (s\<lparr>limit_property := t\<rparr>) = service_wf env s"
  "service_wf env (s\<lparr>seclabel := t\<rparr>) = service_wf env s" "service_wf env (s\<lparr>sigstop := b\<rparr>) = service_wf env s"
  "service_wf env (s\<lparr>environment_vars := v\<rparr>) = service_wf env s" "service_wf env (s\<lparr>task_profiles := l\<rparr>) = service_wf env s"
  "service_wf env (s\<lparr>writepid_files := l\<rparr>) = service_wf env s" "service_wf env (s\<lparr>updatable := b\<rparr>) = service_wf env s"
  "service_wf env (s\<lparr>onrestart := a\<rparr>) = service_wf env s" "service_wf env (s\<lparr>fatal_reboot_target := x\<rparr>) = service_wf env s"
  "service_wf env (s\<lparr>fatal_crash_window := n\<rparr>) = service_wf env s"
  by (simp_all add: wf_defs has_def)

lemma set_flag_fields [simp]:
  "proc_attr (set_flag f s) = proc_attr s" "namespaces (set_flag f s) = namespaces s"
  "keycodes (set_flag f s) = keycodes s" "svc_capabilities (set_flag f s) = svc_capabilities s"
  "svc_files (set_flag f s) = svc_files s" "sockets (set_flag f s) = sockets s"
  "restart_period (set_flag f s) = restart_period s" "timeout_period (set_flag f s) = timeout_period s"
  "oom_score_adjust (set_flag f s) = oom_score_adjust s" "swappiness (set_flag f s) = swappiness s"
  "soft_limit_in_bytes (set_flag f s) = soft_limit_in_bytes s" "limit_in_bytes (set_flag f s) = limit_in_bytes s"
  "limit_percent (set_flag f s) = limit_percent s" "classnames (set_flag f s) = classnames s"
  "svc_interfaces (set_flag f s) = svc_interfaces s"
  by (simp_all add: set_flag_def)

lemma flag_wf:
  "service_wf env s \<Longrightarrow> f AND SVC_RUNNING = 0 \<Longrightarrow> f AND SVC_RESTARTING = 0 \<Longrightarrow>
   f AND SVC_CONSOLE = 0 \<or> \<not> stdio_to_kmsg (proc_attr s) \<Longrightarrow> service_wf env (set_flag f s)"
  by (auto simp: wf_defs)

section \<open>Every option keeps a service well formed\<close>

text \<open>Sorted lists without duplicates stay so under insertion.\<close>

lemma insort_insert_strict:
  "sorted_wrt (<) xs \<Longrightarrow> sorted_wrt (<) (insort_insert (x::'a::linorder) xs)"
proof (induction xs)
  case Nil
  then show ?case by (simp add: insort_insert_key_def)
next
  case (Cons y ys)
  then show ?case
    by (auto simp: insort_insert_key_def set_insort_key strict_sorted_iff sorted_insort distinct_insort)
qed

lemma sort_remdups_strict: "sorted_wrt (<) (sort (remdups (xs::'a::linorder list)))"
  by (simp add: strict_sorted_iff)

lemma set_caps_wf:
  "caps_wf env (Some caps) \<Longrightarrow> caps_wf env (Some (snd (set_caps env args caps)))"
proof (induction args arbitrary: caps)
  case Nil
  then show ?case by simp
next
  case (Cons a as)
  show ?case
  proof (cases "cap_arg env a")
    case (Inl e)
    then show ?thesis using Cons.prems by simp
  next
    case (Inr c)
    then have c: "c \<le> CAP_LAST_CAP" "c \<le> sp_last_valid_cap env"
      using LookupCap_range [of a] by (auto simp: cap_arg_def split: if_splits)
    then have "caps_wf env (Some (insort_insert c caps))"
      using Cons.prems
      by (auto simp: caps_wf_def list_all_iff set_insort_insert sorted_insort_insert distinct_insort_insert)
    then show ?thesis using Cons.IH Inr by simp
  qed
qed

lemma add_supp_gids_keeps:
  "service_wf env s \<Longrightarrow> keeps env s (snd (add_supp_gids env gs s))"
proof (induction gs arbitrary: s)
  case Nil
  then show ?case by (simp add: keeps_def)
next
  case (Cons g gs)
  show ?case
  proof (cases "decode_gid env g")
    case (Inl e)
    then show ?thesis using Cons.prems by (simp add: keeps_def)
  next
    case (Inr v)
    have "service_wf env (attr_update (\<lambda>a. a\<lparr>supp_gids := supp_gids a @ [v]\<rparr>) s)"
      using Cons.prems by (simp add: wf_defs)
    then show ?thesis using Cons.IH Inr by (fastforce simp: keeps_def)
  qed
qed

lemma add_keycodes_keeps:
  assumes "libbase_api (sp_lb env)"
  shows "service_wf env s \<Longrightarrow> keeps env s (snd (add_keycodes env ks s))"
proof (induction ks arbitrary: s)
  case Nil
  then show ?case by (simp add: keeps_def)
next
  case (Cons k ks)
  show ?case
  proof (cases "ParseInt (sp_lb env) k 0 (sp_key_max env)")
    case None
    then show ?thesis using Cons.prems by (simp add: keeps_def)
  next
    case (Some c)
    note c = libbase_api.ParseInt_bounds [OF assms Some]
    show ?thesis
    proof (cases "c \<in> set (keycodes s)")
      case True
      then show ?thesis using Some Cons.prems by (simp add: keeps_def)
    next
      case False
      then have "keys_wf env (insort c (keycodes s))"
        using Cons.prems c
        by (auto simp: service_wf_def keys_wf_def sorted_insort distinct_insort list_all_iff set_insort_key)
      then have "service_wf env (s\<lparr>keycodes := insort c (keycodes s)\<rparr>)"
        using Cons.prems by (simp add: service_wf_def rest_defs)
      then show ?thesis using Cons.IH Some False by (fastforce simp: keeps_def)
    qed
  qed
qed

lemma add_namespaces_wf:
  "ns_wf \<lparr>ns_flags = fl, namespaces_to_enter = e\<rparr> \<Longrightarrow>
   ns_wf \<lparr>ns_flags = snd (add_namespaces as fl), namespaces_to_enter = e\<rparr>"
  by (induction as fl rule: add_namespaces.induct) (auto simp: ns_wf_def)

text \<open>Options that set a flag or a field the predicate does not read.\<close>

lemma plain_options:
  assumes "service_wf env s"
  shows "keeps env s (snd (ParseDisabled env args s))" "keeps env s (snd (ParseOneshot env args s))"
    "keeps env s (snd (ParseShutdown env args s))" "keeps env s (snd (ParseOverride env args s))"
    "keeps env s (snd (ParseMemcgLimitProperty env args s))" "keeps env s (snd (ParseSeclabel env args s))"
    "keeps env s (snd (ParseSigstop env args s))" "keeps env s (snd (ParseSetenv env args s))"
    "keeps env s (snd (ParseTaskProfiles env args s))" "keeps env s (snd (ParseWritepid env args s))"
    "keeps env s (snd (ParseUpdatable env args s))" "keeps env s (snd (ParseOnrestart env args s))"
  using assms
  by (auto simp: keeps_def ParseDisabled_def ParseOneshot_def ParseShutdown_def ParseOverride_def
      ParseMemcgLimitProperty_def ParseSeclabel_def ParseSigstop_def ParseSetenv_def ParseTaskProfiles_def
      ParseWritepid_def ParseUpdatable_def ParseOnrestart_def flag_wf split: prod.split sum.split)

lemma number_option_keeps:
  assumes "libbase_api (sp_lb env)" "service_wf env s"
    and "\<And>v. lo \<le> v \<Longrightarrow> v \<le> hi \<Longrightarrow> keeps env s (store v s)"
  shows "keeps env s (snd (number_option env lo hi complaint store arg s))"
  using assms libbase_api.ParseInt_bounds [OF assms(1), of arg lo hi]
  by (auto simp: number_option_def keeps_def split: option.split)

lemma number_fields:
  assumes "service_wf env s"
  shows "- 1000 \<le> v \<Longrightarrow> v \<le> 1000 \<Longrightarrow> keeps env s (s\<lparr>oom_score_adjust := v\<rparr>)"
    "0 \<le> v \<Longrightarrow> keeps env s (s\<lparr>swappiness := v\<rparr>)" "0 \<le> v \<Longrightarrow> keeps env s (s\<lparr>limit_in_bytes := v\<rparr>)"
    "0 \<le> v \<Longrightarrow> keeps env s (s\<lparr>limit_percent := v\<rparr>)" "0 \<le> v \<Longrightarrow> keeps env s (s\<lparr>soft_limit_in_bytes := v\<rparr>)"
    "5 \<le> v \<Longrightarrow> keeps env s (s\<lparr>restart_period := nat v\<rparr>)" "1 \<le> v \<Longrightarrow> keeps env s (s\<lparr>timeout_period := Some (nat v)\<rparr>)"
  using assms by (simp_all add: keeps_def wf_defs has_def)

lemma number_options:
  assumes "libbase_api (sp_lb env)" "service_wf env s"
  shows "keeps env s (snd (ParseOomScoreAdjust env args s))" "keeps env s (snd (ParseMemcgSwappiness env args s))"
    "keeps env s (snd (ParseMemcgLimitInBytes env args s))" "keeps env s (snd (ParseMemcgLimitPercent env args s))"
    "keeps env s (snd (ParseMemcgSoftLimitInBytes env args s))" "keeps env s (snd (ParseRestartPeriod env args s))"
    "keeps env s (snd (ParseTimeoutPeriod env args s))"
  by (simp_all add: number_option_keeps [OF assms] number_fields [OF assms(2)] ParseOomScoreAdjust_def
      ParseMemcgSwappiness_def ParseMemcgLimitInBytes_def ParseMemcgLimitPercent_def
      ParseMemcgSoftLimitInBytes_def ParseRestartPeriod_def ParseTimeoutPeriod_def)

lemma attr_options:
  assumes "libbase_api (sp_lb env)" "service_wf env s"
  shows "keeps env s (snd (ParseGroup env args s))" "keeps env s (snd (ParseUser env args s))"
    "keeps env s (snd (ParsePriority env args s))" "keeps env s (snd (ParseIoprio env args s))"
    "keeps env s (snd (ParseConsole env args s))" "keeps env s (snd (ParseStdioToKmsg env args s))"
proof -
  have free: "service_wf env (attr_update (\<lambda>a. a\<lparr>pa_gid := v\<rparr>) s)" "service_wf env (attr_update (\<lambda>a. a\<lparr>pa_uid := v\<rparr>) s)"
    "service_wf env (attr_update (\<lambda>a. a\<lparr>pa_priority := p\<rparr>) s)" for v p
    using assms(2) by (simp_all add: wf_defs)
  show "keeps env s (snd (ParseGroup env args s))"
    using assms(2) free(1) add_supp_gids_keeps by (fastforce simp: ParseGroup_def keeps_def split: sum.split)
  show "keeps env s (snd (ParseUser env args s))"
    using assms(2) free(2) by (simp add: ParseUser_def keeps_def split: sum.split)
  show "keeps env s (snd (ParsePriority env args s))"
    using assms(2) free(3) by (simp add: ParsePriority_def keeps_def Let_def split: option.split)
  show "keeps env s (snd (ParseIoprio env args s))"
    using assms(2) libbase_api.ParseInt_bounds [OF assms(1), of "args ! 2" 0 7]
    by (cases "ParseInt (sp_lb env) (args ! 2) 0 7") (simp_all add: ParseIoprio_def keeps_def wf_defs Let_def)
  show "keeps env s (snd (ParseConsole env args s))" "keeps env s (snd (ParseStdioToKmsg env args s))"
    using assms(2) by (auto simp: ParseConsole_def ParseStdioToKmsg_def keeps_def wf_defs)
qed

lemma rlimit_option:
  assumes "service_wf env s" "libbase_api (sp_lb env)"
  shows "keeps env s (snd (ParseProcessRlimit env args s))"
proof (cases "ParseRlimit (sp_lb env) args")
  case (Inl e)
  then show ?thesis using assms by (simp add: ParseProcessRlimit_def keeps_def)
next
  case (Inr r)
  obtain n c l where r: "r = (n, c, l)" by (metis prod_cases3)
  have "parse_resource (sp_lb env) (args ! 1) = Inr n" using Inr r by (auto simp: ParseRlimit_def rbind_Inr_iff)
  then have "0 \<le> n \<and> n < RLIM_NLIMITS"
    by (auto simp: parse_resource_def Let_def text_to_resources_def split: option.splits if_splits)
  then show ?thesis using Inr r assms by (simp add: ParseProcessRlimit_def keeps_def wf_defs)
qed

lemma list_options:
  assumes "libbase_api (sp_lb env)" "service_wf env s"
  shows "keeps env s (snd (ParseCapabilities env args s))" "keeps env s (snd (ParseClass env args s))"
    "keeps env s (snd (ParseKeycodes env args s))" "keeps env s (snd (ParseNamespace env args s))"
    "keeps env s (snd (ParseEnterNamespace env args s))" "keeps env s (snd (ParseInterface sl env args s))"
proof -
  have caps: "caps_wf env (Some (snd (set_caps env (drop 1 args) [])))" by (rule set_caps_wf) (simp add: caps_wf_def)
  show "keeps env s (snd (ParseCapabilities env args s))"
    using assms(2) caps
    by (simp add: ParseCapabilities_def keeps_def service_wf_def rest_defs Let_def split_beta) (simp add: caps_wf_def)
  show "keeps env s (snd (ParseClass env args s))"
    using assms(2) by (simp add: ParseClass_def keeps_def wf_defs sort_remdups_strict has_def)
  show "keeps env s (snd (ParseKeycodes env args s))"
    using assms(2) add_keycodes_keeps [OF assms] by (simp add: ParseKeycodes_def keeps_def split: sum.split)
  have ns: "ns_wf ((namespaces s)\<lparr>ns_flags := snd (add_namespaces as (ns_flags (namespaces s)))\<rparr>)" for as
    using assms(2) add_namespaces_wf [of "ns_flags (namespaces s)" "namespaces_to_enter (namespaces s)" as]
    by (simp add: service_wf_def ns_wf_def)
  show "keeps env s (snd (ParseNamespace env args s))"
    using assms(2) ns [of "drop 1 args"]
    by (simp add: ParseNamespace_def keeps_def service_wf_def rest_defs split_beta)
  show "keeps env s (snd (ParseEnterNamespace env args s))"
    using assms(2) by (simp add: ParseEnterNamespace_def keeps_def wf_defs has_def)
  have intf: "service_wf env (s\<lparr>svc_interfaces := insort_insert n (svc_interfaces s)\<rparr>)" for n
    using assms(2) by (simp add: wf_defs insort_insert_strict has_def)
  show "keeps env s (snd (ParseInterface sl env args s))"
    using assms(2) intf by (simp add: ParseInterface_def keeps_def Let_def split: sum.split option.split)
qed

lemma descriptor_options:
  assumes "service_wf env s"
  shows "keeps env s (snd (ParseSocket env args s))" "keeps env s (snd (ParseFile env args s))"
    "keeps env s (snd (ParseCritical env args s))"
proof -
  show "keeps env s (snd (ParseSocket env args s))"
  proof (cases "socket_of env args")
    case (Inl e)
    then show ?thesis using assms by (simp add: ParseSocket_def keeps_def)
  next
    case (Inr sd)
    then have "sd_type sd = ''stream'' \<or> sd_type sd = ''dgram'' \<or> sd_type sd = ''seqpacket''"
      by (auto simp: socket_of_def socket_type_def rbind_Inr_iff split: if_splits)
    then have "sd_name sd \<notin> sd_name ` set (sockets s) \<Longrightarrow> service_wf env (s\<lparr>sockets := sockets s @ [sd]\<rparr>)"
      using assms by (simp add: wf_defs has_def)
    then show ?thesis using assms Inr by (simp add: ParseSocket_def keeps_def)
  qed
  have "service_wf env (s\<lparr>svc_files := svc_files s @ [\<lparr>fd_name = n, fd_type = t\<rparr>]\<rparr>)"
    if "prefix ''/'' n" "find_str ''../'' n = None" "n \<notin> fd_name ` set (svc_files s)"
      "t = ''r'' \<or> t = ''w'' \<or> t = ''rw''" for n t
    using assms that by (simp add: wf_defs has_def find_str_None_iff)
  then show "keeps env s (snd (ParseFile env args s))"
    using assms by (auto simp: ParseFile_def keeps_def split: sum.split)
  have "service_wf env (set_flag SVC_CRITICAL s')" if "service_wf env s'" for s' using that by (simp add: flag_wf)
  then show "keeps env s (snd (ParseCritical env args s))"
    using assms by (auto simp: ParseCritical_def keeps_def Let_def split: sum.split option.split)
qed

lemma reboot_option:
  assumes "libbase_api (sp_lb env)" "service_wf env s"
  shows "keeps env s (fst (snd (ParseRebootOnFailure env args s)))"
proof -
  have "service_wf env (s\<lparr>on_failure_reboot_target := Some t\<rparr>)" if "prefix ''shutdown'' t \<or> prefix ''reboot'' t" for t
    using assms(2) that by (simp add: wf_defs)
  then have "keeps env s (fst (snd (set_reboot_target env args s)))"
    using assms(2) by (auto simp: set_reboot_target_def keeps_def libbase_api.StartsWith_prefix [OF assms(1)])
  then show ?thesis using assms(2) by (auto simp: ParseRebootOnFailure_def keeps_def split: option.split)
qed

text \<open>The whole table.\<close>

definition option_keeps :: "option_parser \<Rightarrow> bool" where
  "option_keeps f =
     (\<forall>sl env args s. libbase_api (sp_lb env) \<longrightarrow> service_wf env s \<longrightarrow>
        keeps env s (fst (snd (invoke_option f sl env args s))))"

lemma option_keeps_Silent:
  assumes "\<And>env args s. libbase_api (sp_lb env) \<Longrightarrow> service_wf env s \<Longrightarrow> keeps env s (snd (f env args s))"
  shows "option_keeps (Silent f)"
  using assms by (simp add: option_keeps_def split_beta)

lemma option_keeps_other:
  "option_keeps (ReadsList ParseInterface)" "option_keeps (Logs ParseRebootOnFailure)"
  by (simp_all add: option_keeps_def split_beta list_options(6) reboot_option)

lemmas keeping_options =
  plain_options number_options attr_options rlimit_option list_options(1-5) descriptor_options

lemma GetParserMap_keeps: "list_all (\<lambda>e. option_keeps (mv_value (snd e))) GetParserMap"
  by (simp add: GetParserMap_def entry_def option_keeps_Silent option_keeps_other keeping_options)

lemma Find_keeps:
  assumes "Find GetParserMap args = Inr f"
  shows "option_keeps f"
proof -
  obtain k rest mv where "map_of GetParserMap k = Some mv" "mv_value mv = f"
    using assms by (auto simp: Find_accepts accepts_def)
  then have "(k, mv) \<in> set GetParserMap" "mv_value mv = f" by (auto dest: map_of_SomeD)
  then show ?thesis using GetParserMap_keeps by (fastforce simp: list_all_iff)
qed

lemma invoke_option_keeps:
  assumes "Find GetParserMap args = Inr f" "libbase_api (sp_lb env)" "service_wf env s"
    and "invoke_option f sl env args s = (r, s', evs)"
  shows "svc_name s' = svc_name s" "service_wf env s'"
  using Find_keeps [OF assms(1)] assms(2-4) by (auto simp: option_keeps_def keeps_def split: prod.splits)
    (metis fst_conv snd_conv)+

section \<open>The section\<close>

definition service_allowed :: "sp_env \<Rightarrow> string \<Rightarrow> bool" where
  "service_allowed env name = fst (innit_gate IsServiceAllowed (sp_log_env env) (sp_policy env) name)"

text \<open>
  The service under construction is well formed and allowed; so are those in the list, but for
  the ones that were in the list \<open>base\<close> before the scripts are read.
\<close>

definition building_ok :: "sp_env \<Rightarrow> service_parser \<Rightarrow> bool" where
  "building_ok env p =
     (case sp_service p of
        None \<Rightarrow> True
      | Some s \<Rightarrow> service_wf env s \<and> service_allowed env (svc_name s) \<and> IsValidName (svc_name s))"

definition list_ok :: "ServiceList \<Rightarrow> sp_env \<Rightarrow> ServiceList \<Rightarrow> bool" where
  "list_ok base env sl =
     (sl_inv sl \<and> sl_static sl = sl_static base \<and>
      list_all (\<lambda>s. svc_name s \<in> svc_name ` set (sl_services base) \<or> service_allowed env (svc_name s) \<and> IsValidName (svc_name s)) (sl_services sl))"

lemma open_service_ok:
  assumes "building_ok (sp_environment r) p" "open_service r args filename p = (res, p', evs)"
  shows "building_ok (sp_environment r) p'"
proof -
  obtain b evs' where g: "innit_gate IsServiceAllowed (sp_log_env (sp_environment r)) (sp_policy (sp_environment r)) (args ! 1) = (b, evs')"
    by fastforce
  have n: "svc_name (new_service n f u gi sg ns label sc as apex) = n" for n f u gi sg ns label sc as apex
    by (simp add: new_service_def)
  from assms g show ?thesis
    by (cases b) (auto simp: open_service_def building_ok_def service_allowed_def Let_def new_service_wf n
        split: if_splits)
qed

lemma service_wf_inv: "service_wf env s \<Longrightarrow> svc_inv s \<and> start_order s = 0"
  by (simp add: service_wf_def not_started_def svc_inv_def)

text \<open>
  What a definition does to the list: it is added last, and a definition it overrides is gone.
\<close>

lemma remove_first_filter:
  "distinct (map f xs) \<Longrightarrow> remove_first (\<lambda>x. f x = a) xs = filter (\<lambda>x. f x \<noteq> a) xs"
proof (induction xs)
  case Nil
  then show ?case by simp
next
  case (Cons x xs)
  show ?case
  proof (cases "f x = a")
    case True
    then have "\<forall>y\<in>set xs. f y \<noteq> a" using Cons.prems by (simp add: image_iff) metis
    then show ?thesis using True by simp
  next
    case False
    then show ?thesis using Cons by simp
  qed
qed

lemma find_index_None: "find_index P xs = None \<longleftrightarrow> (\<forall>x\<in>set xs. \<not> P x)"
  by (induction xs) auto

lemma close_service_list:
  assumes "close_service r filename s sl = Inr sl'" "sl_inv sl"
  shows "sl_services sl' = filter (\<lambda>t. svc_name t \<noteq> svc_name s) (sl_services sl) @ [s] \<and> sl_static sl' = sl_static sl"
proof (cases "FindService (svc_name s) svc_name sl")
  case None
  then have "filter (\<lambda>t. svc_name t \<noteq> svc_name s) (sl_services sl) = sl_services sl"
    by (simp add: FindService_def find_index_None filter_id_conv)
  then show ?thesis
    using assms(1) None by (auto simp: close_service_def rbind_Inr_iff AddService_def Let_def)
next
  case (Some i)
  then show ?thesis
    using assms remove_first_filter [of svc_name "sl_services sl" "svc_name s"]
    by (auto simp: close_service_def rbind_Inr_iff AddService_def RemoveService_def Let_def sl_inv_def)
qed

lemma close_service_ok:
  assumes "close_service r filename s sl = Inr sl'" "list_ok base env sl"
    and "service_wf env s" "service_allowed env (svc_name s)" "IsValidName (svc_name s)"
  shows "list_ok base env sl'"
proof -
  have inv: "sl_inv sl" using assms(2) by (simp add: list_ok_def)
  note l = close_service_list [OF assms(1) inv]
  have "sl_inv sl'"
    using inv l service_wf_inv [OF assms(3)]
    by (auto simp: sl_inv_def order_inv_def list_all_iff distinct_map_filter filter_filter conj_commute
        distinct_map inj_on_def)
  then show ?thesis using assms l by (auto simp: list_ok_def list_all_iff)
qed

text \<open>
  The parser and the list live somewhere in the state of the scripts; reading a part after
  writing it gives what was written, and writing one part leaves the other.
\<close>

locale service_place =
  fixes r :: "'w service_parser_ref"
  assumes get_set: "get_sp r (set_sp r p w) = p" "get_sl r (set_sl r sl w) = sl"
    "get_sl r (set_sp r p w) = get_sl r w" "get_sp r (set_sl r sl w) = get_sp r w"
begin

definition services_ok :: "ServiceList \<Rightarrow> 'w rc_state \<Rightarrow> bool" where
  "services_ok base rs =
     (list_ok base (sp_environment r) (get_sl r (rc_world rs)) \<and> building_ok (sp_environment r) (get_sp r (rc_world rs)))"

lemma section_start: "services_ok base rs \<Longrightarrow> services_ok base (snd (ServiceParser_ParseSection r args fn line rs))"
  using open_service_ok [of r "get_sp r (rc_world rs)" args fn]
  by (auto simp: ServiceParser_ParseSection_def services_ok_def log_rc_def get_set split: prod.split)

lemma section_line:
  assumes "services_ok base rs" "libbase_api (sp_lb (sp_environment r))"
  shows "services_ok base (snd (ServiceParser_ParseLineSection r args line rs))"
proof (cases "sp_service (get_sp r (rc_world rs))")
  case None
  then show ?thesis using assms(1) by (simp add: ServiceParser_ParseLineSection_def Let_def)
next
  case (Some s)
  show ?thesis
  proof (cases "Find GetParserMap args")
    case (Inl e)
    then show ?thesis using assms(1) Some by (simp add: ServiceParser_ParseLineSection_def Let_def)
  next
    case (Inr f)
    obtain res s' evs where i: "invoke_option f (get_sl r (rc_world rs)) (sp_environment r) args s = (res, s', evs)"
      by (cases "invoke_option f (get_sl r (rc_world rs)) (sp_environment r) args s")
    have s: "service_wf (sp_environment r) s" "service_allowed (sp_environment r) (svc_name s)" "IsValidName (svc_name s)"
      using assms(1) Some by (simp_all add: services_ok_def building_ok_def)
    show ?thesis
      using assms(1) Some Inr i s invoke_option_keeps [OF Inr assms(2) s(1) i]
      by (simp add: ServiceParser_ParseLineSection_def services_ok_def building_ok_def log_rc_def get_set Let_def)
  qed
qed

lemma section_end:
  assumes "services_ok base rs"
  shows "services_ok base (snd (ServiceParser_EndSection r rs))"
proof (cases "innit_service_denied (get_sp r (rc_world rs)) \<or> sp_service (get_sp r (rc_world rs)) = None")
  case True
  then show ?thesis
    using assms by (auto simp: ServiceParser_EndSection_def services_ok_def building_ok_def get_set Let_def split: option.split)
next
  case False
  then obtain s where s: "sp_service (get_sp r (rc_world rs)) = Some s" by auto
  then have ok: "service_wf (sp_environment r) s" "service_allowed (sp_environment r) (svc_name s)" "IsValidName (svc_name s)"
    using assms by (simp_all add: services_ok_def building_ok_def)
  show ?thesis
  proof (cases "close_service r (sp_filename (get_sp r (rc_world rs))) s (get_sl r (rc_world rs))")
    case (Inl e)
    then show ?thesis using assms False s by (simp add: ServiceParser_EndSection_def Let_def)
  next
    case (Inr sl)
    have "list_ok base (sp_environment r) sl"
      using close_service_ok [OF Inr _ ok] assms by (simp add: services_ok_def)
    then show ?thesis
      using False s Inr by (simp add: ServiceParser_EndSection_def services_ok_def building_ok_def get_set Let_def)
  qed
qed

lemma section_eof: "services_ok base rs \<Longrightarrow> ServiceParser_EndFile r rs = Some rs' \<Longrightarrow> services_ok base rs'"
  by (auto simp: ServiceParser_EndFile_def services_ok_def building_ok_def get_set)

lemma other_fields:
  "services_ok base (rs\<lparr>parse_error_count := k\<rparr>) = services_ok base rs"
  "services_ok base (rs\<lparr>rc_imports := is\<rparr>) = services_ok base rs" "services_ok base (rs\<lparr>import_filename := f\<rparr>) = services_ok base rs"
  "services_ok base (log_rc evs rs) = services_ok base rs"
  by (simp_all add: services_ok_def log_rc_def)

end

section \<open>Properties\<close>

text \<open>
  C15: every option line the service section accepts keeps the definition well formed and its
  name, whether the option succeeds or fails half way: numbers stay in their ranges, keycodes and
  capabilities sorted and known, sockets and files without duplicates, file paths absolute and
  without \<^verbatim>\<open>../\<close>, a process namespace never without a mount namespace, console and kernel log
  never both.
\<close>

theorem options_keep_wf:
  assumes "libbase_api (sp_lb env)" "service_wf env s" "Find GetParserMap args = Inr f"
    and "invoke_option f sl env args s = (r, s', evs)"
  shows "service_wf env s' \<and> svc_name s' = svc_name s"
  using invoke_option_keeps [OF assms(3,1,2,4)] by simp

text \<open>
  When the section of a service ends without an error, the list holds the service last and
  no other service of that name; all others stay as they were. An existing service is only
  replaced by a definition with \<^verbatim>\<open>override\<close> on the same side of the treble boundary, and from an
  APEX only if it is updatable; and a service that is both critical and oneshot is refused since
  API level R.
\<close>

theorem definition_enters_list:
  assumes "sl_inv sl" "close_service r filename s sl = Inr sl'"
  shows "sl_services sl' = filter (\<lambda>t. svc_name t \<noteq> svc_name s) (sl_services sl) @ [s] \<and>
         (\<forall>old\<in>set (sl_services sl). svc_name old = svc_name s \<longrightarrow>
            is_override s \<and> context_of s = context_of old \<and>
            (StartsWith (sp_lb (sp_environment r)) filename ''/apex/'' \<longrightarrow> updatable old)) \<and>
         \<not> (API_R \<le> sp_version (sp_environment r) \<and> has SVC_CRITICAL s \<and> has SVC_ONESHOT s)"
proof (intro conjI ballI impI)
  show "sl_services sl' = filter (\<lambda>t. svc_name t \<noteq> svc_name s) (sl_services sl) @ [s]"
    using close_service_list [OF assms(2,1)] by simp
  show "\<not> (API_R \<le> sp_version (sp_environment r) \<and> has SVC_CRITICAL s \<and> has SVC_ONESHOT s)"
    using assms(2) by (auto simp: close_service_def rbind_Inr_iff Let_def split: if_splits)
next
  fix old
  assume old: "old \<in> set (sl_services sl)" "svc_name old = svc_name s"
  then obtain i where i: "FindService (svc_name s) svc_name sl = Some i"
    by (cases "FindService (svc_name s) svc_name sl") (auto simp: FindService_def find_index_None)
  then have "i < length (sl_services sl)" "svc_name (sl_services sl ! i) = svc_name s"
    by (auto simp: FindService_def dest: find_index_Some)
  then have o: "sl_services sl ! i = old"
    using assms(1) old by (metis distinct_map inj_onD nth_mem sl_inv_def)
  have c: "check_override (sp_lb (sp_environment r)) filename s old = Inr ()"
    using assms(2) i o by (auto simp: close_service_def rbind_Inr_iff Let_def)
  then show "is_override s" "context_of s = context_of old"
    "StartsWith (sp_lb (sp_environment r)) filename ''/apex/'' \<Longrightarrow> updatable old"
    by (auto simp: check_override_def split: if_splits)
qed

text \<open>
  The length check of service names is off by one against its purpose: there is a name the
  parser accepts that can never be written to \<^verbatim>\<open>ctl.start\<close>, because the value is one character
  too long for a property.
\<close>

theorem valid_name_not_startable:
  "IsValidName (replicate 92 (CHR ''a'')) \<and>
   IsLegalPropertyValue ref_libbase (\<lambda>_. True) ''ctl.start'' (replicate 92 (CHR ''a'')) =
     Err (Error ''Property value too long'')"
proof
  show "IsValidName (replicate 92 (CHR ''a''))"
    by (simp add: IsValidName_def numeral_eq_Suc) code_simp
  show "IsLegalPropertyValue ref_libbase (\<lambda>_. True) ''ctl.start'' (replicate 92 (CHR ''a'')) =
     Err (Error ''Property value too long'')"
    by (simp add: IsLegalPropertyValue_def ref_libbase_def)
qed

subsection \<open>Witnesses\<close>

definition sample_sp_env :: sp_env where
  "sample_sp_env =
     \<lparr>sp_lb = ref_libbase, sp_props = (\<lambda>_. []), sp_version = 30, sp_getpwnam = (\<lambda>_. None), sp_cap_ambient = True,
      sp_last_valid_cap = 40, sp_priority_highest = - 20, sp_priority_lowest = 19, sp_key_max = 767,
      sp_fq = \<lparr>fq_parse = (\<lambda>_. None), fq_instance = (\<lambda>_. None)\<rparr>, sp_policy = None,
      sp_log_env = \<lparr>can_open = (\<lambda>_. True), Timestamp = []\<rparr>, sp_function_map = None\<rparr>"

definition sample_sp_ref :: "(service_parser \<times> ServiceList) service_parser_ref" where
  "sample_sp_ref =
     \<lparr>get_sp = fst, set_sp = (\<lambda>p w. (p, snd w)), get_sl = snd, set_sl = (\<lambda>sl w. (fst w, sl)),
      sp_subcontext = None, sp_hierarchy = None, sp_from_apex = False, sp_environment = sample_sp_env\<rparr>"

theorem options_keep_wf_witness:
  "service_wf sample_sp_env (fst (snd (invoke_option (Silent ParseIoprio) sample_list sample_sp_env
     [''ioprio'', ''rt'', ''4''] (new_service ''logd'' 0 0 0 [] [] [] None [''/bin/logd''] False))))"
proof -
  have f: "Find GetParserMap [''ioprio'', ''rt'', ''4''] = Inr (Silent ParseIoprio)"
    by (simp add: Find_def GetParserMap_def entry_def)
  have l: "libbase_api (sp_lb sample_sp_env)" by (simp add: sample_sp_env_def ref_libbase_api)
  let ?s = "new_service ''logd'' 0 0 0 [] [] [] None [''/bin/logd''] False"
  obtain r s' evs where i: "invoke_option (Silent ParseIoprio) sample_list sample_sp_env [''ioprio'', ''rt'', ''4''] ?s = (r, s', evs)"
    using prod_cases3 by blast
  show ?thesis using options_keep_wf [OF l new_service_wf f i] i by simp
qed

theorem definition_enters_list_witness:
  "sl_services (AddService (logd\<lparr>svc_name := ''lmkd''\<rparr>) sample_list) =
     filter (\<lambda>t. svc_name t \<noteq> ''lmkd'') (sl_services sample_list) @ [logd\<lparr>svc_name := ''lmkd''\<rparr>]"
proof -
  have "close_service sample_sp_ref ''/system/etc/init/lmkd.rc'' (logd\<lparr>svc_name := ''lmkd''\<rparr>) sample_list =
        Inr (AddService (logd\<lparr>svc_name := ''lmkd''\<rparr>) sample_list)"
    by (simp add: close_service_def sample_sp_ref_def sample_sp_env_def FindService_def sample_list_def has_def
        logd_def new_service_def Let_def sample_service_def)
  from definition_enters_list [OF sample_list_inv this] show ?thesis by simp
qed

end
