(* ===== verification/Boot_Scripts.thy ===== *)
theory Boot_Scripts
  imports Service_Wf
begin

text \<open>
  The parser of the boot scripts as \<^verbatim>\<open>init/init.cpp\<close> assembles it (\<^verbatim>\<open>CreateParser\<close>,
  \<^verbatim>\<open>CreateServiceOnlyParser\<close>, \<^verbatim>\<open>LoadBootScripts\<close>) from the section parsers, and what follows for
  the state init boots with: whatever the scripts contain, services and actions are well formed,
  and no service the policy denies is ever defined.
\<close>

section \<open>The parser\<close>

text \<open>What the scripts fill, with the section parsers' own fields.\<close>

record init_world =
  iw_am :: ActionManager
  iw_action :: "Action option"
  iw_sl :: ServiceList
  iw_sp :: service_parser

definition new_service_parser :: service_parser where
  "new_service_parser = \<lparr>sp_service = None, sp_filename = [], innit_service_denied = False\<rparr>"

record boot_cfg =
  bc_sp :: sp_env
  bc_te :: trigger_env
  bc_subcontext :: "Subcontext option"

text \<open>One policy, one property store and one API level for all of init.\<close>

definition boot_sp_env :: "libbase \<Rightarrow> rc_env \<Rightarrow> boot_cfg \<Rightarrow> sp_env" where
  "boot_sp_env lb env cfg =
     (bc_sp cfg)\<lparr>sp_lb := lb, sp_policy := rc_policy env, sp_log_env := rc_log_env env,
                sp_props := rc_props env, sp_version := rc_version env\<rparr>"

definition boot_services :: "libbase \<Rightarrow> rc_env \<Rightarrow> boot_cfg \<Rightarrow> bool \<Rightarrow> init_world service_parser_ref" where
  "boot_services lb env cfg apex =
     \<lparr>get_sp = iw_sp, set_sp = (\<lambda>p w. w\<lparr>iw_sp := p\<rparr>), get_sl = iw_sl, set_sl = (\<lambda>sl w. w\<lparr>iw_sl := sl\<rparr>),
      sp_subcontext = bc_subcontext cfg, sp_hierarchy = None, sp_from_apex = apex,
      sp_environment = boot_sp_env lb env cfg\<rparr>"

definition boot_actions :: "rc_env \<Rightarrow> boot_cfg \<Rightarrow> init_world action_parser" where
  "boot_actions env cfg =
     \<lparr>get_ap = iw_action, set_ap = (\<lambda>a w. w\<lparr>iw_action := a\<rparr>), ap_get_am = iw_am,
      ap_set_am = (\<lambda>am w. w\<lparr>iw_am := am\<rparr>), ap_subcontext = bc_subcontext cfg,
      ap_function_map = sp_function_map (bc_sp cfg), ap_env = bc_te cfg\<rparr>"

type_synonym parse_config = "string \<Rightarrow> init_world rc_state \<Rightarrow> (bool \<times> init_world rc_state) option"

definition CreateParser :: "libbase \<Rightarrow> rc_env \<Rightarrow> boot_cfg \<Rightarrow> parse_config \<Rightarrow> init_world parser" where
  "CreateParser lb env cfg parse_config =
     AddSectionParser ''import'' (ImportParser env parse_config)
       (AddSectionParser ''on'' (ActionParser lb (boot_actions env cfg))
         (AddSectionParser ''service'' (ServiceParser (boot_services lb env cfg False)) empty_parser))"

definition CreateServiceOnlyParser :: "libbase \<Rightarrow> rc_env \<Rightarrow> boot_cfg \<Rightarrow> bool \<Rightarrow> init_world parser" where
  "CreateServiceOnlyParser lb env cfg apex =
     AddSectionParser ''service'' (ServiceParser (boot_services lb env cfg apex)) empty_parser"

abbreviation boot_parse :: "libbase \<Rightarrow> rc_env \<Rightarrow> boot_cfg \<Rightarrow> nat \<Rightarrow> parse_config" where
  "boot_parse lb env cfg fuel \<equiv> ParseConfig lb env (CreateParser lb env cfg) fuel"

text \<open>
  \<^verbatim>\<open>LoadBootScripts\<close> returns the state and \<^verbatim>\<open>late_import_paths\<close>. The script named by
  \<^verbatim>\<open>ro.boot.init_rc\<close> is read and then replaced, in a build with Innit, by the one fixed path.
\<close>

definition parse_or_late ::
  "parse_config \<Rightarrow> bool \<Rightarrow> string \<Rightarrow> init_world rc_state \<times> string list \<Rightarrow> (init_world rc_state \<times> string list) option" where
  "parse_or_late parse late path rl =
     (case parse path (fst rl) of
        None \<Rightarrow> None
      | Some (parsed, rs) \<Rightarrow> Some (rs, if late \<and> \<not> parsed then snd rl @ [path] else snd rl))"

definition kBootScript :: string where
  "kBootScript = ''/system/etc/init/hw/init.rc''"

definition LoadBootScripts ::
  "libbase \<Rightarrow> rc_env \<Rightarrow> boot_cfg \<Rightarrow> nat \<Rightarrow> init_world rc_state \<Rightarrow> (init_world rc_state \<times> string list) option" where
  "LoadBootScripts lb env cfg fuel rs =
     (let parse = boot_parse lb env cfg fuel;
          rs = rs\<lparr>rc_world := (rc_world rs)\<lparr>iw_sp := new_service_parser, iw_action := None\<rparr>\<rparr>;
          bootscript = rc_props env ''ro.boot.init_rc'';
          bootscript = kBootScript
      in if bootscript = [] then
           ofold (\<lambda>(late, path) rl. parse_or_late parse late path rl)
             [(False, kBootScript), (True, ''/system/etc/init''), (False, ''/system_ext/etc/init''),
              (True, ''/vendor/etc/init''), (True, ''/odm/etc/init''), (True, ''/product/etc/init'')]
             (rs, [])
         else parse_or_late parse False bootscript (rs, []))"

section \<open>The sections keep the world well formed\<close>

interpretation boot_place: service_place "boot_services lb env cfg apex" for lb env cfg apex
  by unfold_locales (simp_all add: boot_services_def)

definition world_ok :: "ServiceList \<Rightarrow> ActionManager \<Rightarrow> libbase \<Rightarrow> rc_env \<Rightarrow> boot_cfg \<Rightarrow> init_world rc_state \<Rightarrow> bool" where
  "world_ok base am0 lb env cfg rs =
     (list_ok base (boot_sp_env lb env cfg) (iw_sl (rc_world rs)) \<and>
      building_ok (boot_sp_env lb env cfg) (iw_sp (rc_world rs)) \<and> am_inv (iw_am (rc_world rs)) \<and> am_extends am0 (iw_am (rc_world rs)))"

lemma world_ok_services:
  "world_ok base am0 lb env cfg rs \<longleftrightarrow> boot_place.services_ok lb env cfg apex base rs \<and> am_inv (iw_am (rc_world rs)) \<and> am_extends am0 (iw_am (rc_world rs))"
  unfolding world_ok_def boot_place.services_ok_def by (auto simp: boot_services_def)

lemma world_ok_frame [simp]:
  "world_ok base am0 lb env cfg (rs\<lparr>parse_error_count := k\<rparr>) = world_ok base am0 lb env cfg rs"
  "world_ok base am0 lb env cfg (rs\<lparr>rc_imports := is\<rparr>) = world_ok base am0 lb env cfg rs"
  "world_ok base am0 lb env cfg (rs\<lparr>import_filename := f\<rparr>) = world_ok base am0 lb env cfg rs"
  "world_ok base am0 lb env cfg (log_rc evs rs) = world_ok base am0 lb env cfg rs"
  by (simp_all add: world_ok_def log_rc_def)

lemma service_section_am:
  "iw_am (rc_world (snd (ServiceParser_ParseSection (boot_services lb env cfg a) args fn line rs))) = iw_am (rc_world rs)"
  "iw_am (rc_world (snd (ServiceParser_ParseLineSection (boot_services lb env cfg a) args line rs))) = iw_am (rc_world rs)"
  "iw_am (rc_world (snd (ServiceParser_EndSection (boot_services lb env cfg a) rs))) = iw_am (rc_world rs)"
  by (auto simp: ServiceParser_ParseSection_def ServiceParser_ParseLineSection_def ServiceParser_EndSection_def
      boot_services_def log_rc_def Let_def split: prod.split option.split sum.split)

lemma service_sections:
  assumes "world_ok base am0 lb env cfg rs"
  shows "world_ok base am0 lb env cfg (snd (ServiceParser_ParseSection (boot_services lb env cfg a) args fn line rs))"
    "libbase_api lb \<Longrightarrow> world_ok base am0 lb env cfg (snd (ServiceParser_ParseLineSection (boot_services lb env cfg a) args line rs))"
    "world_ok base am0 lb env cfg (snd (ServiceParser_EndSection (boot_services lb env cfg a) rs))"
    "ServiceParser_EndFile (boot_services lb env cfg a) rs = Some rs' \<Longrightarrow> world_ok base am0 lb env cfg rs'"
proof -
  have ok: "boot_place.services_ok lb env cfg a base rs" and am: "am_inv (iw_am (rc_world rs))" "am_extends am0 (iw_am (rc_world rs))"
    using assms by (simp_all add: world_ok_services [of _ _ _ _ _ _ a])
  show "world_ok base am0 lb env cfg (snd (ServiceParser_ParseSection (boot_services lb env cfg a) args fn line rs))"
    using boot_place.section_start [OF ok] am by (simp add: world_ok_services [of _ _ _ _ _ _ a] service_section_am)
  show "world_ok base am0 lb env cfg (snd (ServiceParser_ParseLineSection (boot_services lb env cfg a) args line rs))"
    if "libbase_api lb"
    using boot_place.section_line [OF ok] am that
    by (simp add: world_ok_services [of _ _ _ _ _ _ a] service_section_am)
       (simp add: boot_services_def boot_sp_env_def)
  show "world_ok base am0 lb env cfg (snd (ServiceParser_EndSection (boot_services lb env cfg a) rs))"
    using boot_place.section_end [OF ok] am by (simp add: world_ok_services [of _ _ _ _ _ _ a] service_section_am)
  show "ServiceParser_EndFile (boot_services lb env cfg a) rs = Some rs' \<Longrightarrow> world_ok base am0 lb env cfg rs'"
    using boot_place.section_eof [OF ok] am
    by (auto simp: world_ok_services [of _ _ _ _ _ _ a] ServiceParser_EndFile_def boot_services_def)
qed

lemma action_sections:
  assumes "world_ok base am0 lb env cfg rs"
  shows "world_ok base am0 lb env cfg (snd (ActionParser_ParseSection lb (boot_actions env cfg) args fn line rs))"
    "world_ok base am0 lb env cfg (snd (ActionParser_ParseLineSection (boot_actions env cfg) args line rs))"
    "world_ok base am0 lb env cfg (snd (ActionParser_EndSection (boot_actions env cfg) rs))"
proof -
  show "world_ok base am0 lb env cfg (snd (ActionParser_ParseSection lb (boot_actions env cfg) args fn line rs))"
    "world_ok base am0 lb env cfg (snd (ActionParser_ParseLineSection (boot_actions env cfg) args line rs))"
    using assms
    by (auto simp: world_ok_def ActionParser_ParseSection_def ActionParser_ParseLineSection_def boot_actions_def
        Let_def split: option.split sum.split prod.split)
  show "world_ok base am0 lb env cfg (snd (ActionParser_EndSection (boot_actions env cfg) rs))"
    using assms am_inv_extends AddAction_extends am_extends_trans [OF _ AddAction_extends]
    by (auto simp: world_ok_def ActionParser_EndSection_def boot_actions_def Let_def split: option.split)
qed

lemma import_sections:
  assumes "world_ok base am0 lb env cfg rs"
  shows "world_ok base am0 lb env cfg (snd (ImportParser_ParseSection env args fn line rs))"
  using assms by (auto simp: ImportParser_ParseSection_def Let_def split: sum.split prod.split)

lemma CreateParser_sections:
  "section_parsers (CreateParser lb env cfg pc) =
     [(''import'', ImportParser env pc), (''on'', ActionParser lb (boot_actions env cfg)),
      (''service'', ServiceParser (boot_services lb env cfg False))]"
  "line_callbacks (CreateParser lb env cfg pc) = []"
  by (simp_all add: CreateParser_def AddSectionParser_def empty_parser_def)

text \<open>The facts hold for the documented string functions; the states are good under that condition.\<close>

definition good :: "ServiceList \<Rightarrow> ActionManager \<Rightarrow> libbase \<Rightarrow> rc_env \<Rightarrow> boot_cfg \<Rightarrow> init_world rc_state \<Rightarrow> bool" where
  "good base am0 lb env cfg rs = (libbase_api lb \<longrightarrow> world_ok base am0 lb env cfg rs)"

lemma boot_contract:
  assumes pc: "\<And>path rs b rs'. pc path rs = Some (b, rs') \<Longrightarrow> good base am0 lb env cfg rs \<Longrightarrow> good base am0 lb env cfg rs'"
  shows "section_contract (CreateParser lb env cfg pc) (good base am0 lb env cfg) (\<lambda>_. good base am0 lb env cfg)"
proof
  fix n sp and rs rs' :: "init_world rc_state" and args fn line r
  assume sp: "(n, sp) \<in> set (section_parsers (CreateParser lb env cfg pc))" and g: "good base am0 lb env cfg rs"
  show "if ok r then good base am0 lb env cfg rs' else good base am0 lb env cfg rs'"
    if "ParseSection sp args fn line rs = (r, rs')"
    using sp g that service_sections(1) [where fn = fn and line = line and args = args]
      action_sections(1) [where fn = fn and line = line and args = args]
      import_sections [where fn = fn and line = line and args = args]
    by (auto simp: CreateParser_sections good_def ServiceParser_def ActionParser_def ImportParser_def) (metis snd_conv)+
  show "good base am0 lb env cfg (snd (ParseLineSection sp args line rs))"
    using sp g service_sections(2) action_sections(2)
    by (auto simp: CreateParser_sections good_def ServiceParser_def ActionParser_def ImportParser_def
        ImportParser_ParseLineSection_def)
  show "good base am0 lb env cfg (snd (EndSection sp rs))"
    using sp g service_sections(3) action_sections(3)
    by (auto simp: CreateParser_sections good_def ServiceParser_def ActionParser_def ImportParser_def)
  have "good base am0 lb env cfg rs'" if "ImportParser_EndFile pc rs = Some rs'" for rs'
    using ofold_invariant [OF that [unfolded ImportParser_EndFile_def], of "good base am0 lb env cfg"] g pc
    by (fastforce simp: good_def)
  then show "EndFile sp rs = Some rs' \<Longrightarrow> good base am0 lb env cfg rs'" for rs'
    using sp g service_sections(4)
    by (auto simp: CreateParser_sections good_def ServiceParser_def ActionParser_def ImportParser_def)
qed (simp_all add: CreateParser_sections good_def)

lemma log_rc_good [simp]: "good base am0 lb env cfg (log_rc evs rs) = good base am0 lb env cfg rs"
  by (simp add: good_def)

lemma logged_good: "section_contract p (good base am0 lb env cfg) act \<Longrightarrow> logged_sections p (good base am0 lb env cfg) act"
  by (simp add: logged_sections_def logged_sections_axioms_def)

lemmas parse_file_good = logged_sections.parse_file_idle [OF logged_good]
  and parse_config_good = logged_sections.parse_config_idle [OF logged_good]

lemma boot_parse_good: "boot_parse lb env cfg fuel path rs = Some (b, rs') \<Longrightarrow> good base am0 lb env cfg rs \<Longrightarrow> good base am0 lb env cfg rs'"
proof (induction fuel arbitrary: path rs b rs')
  case 0
  then show ?case by simp
next
  case (Suc fuel)
  have "section_contract (CreateParser lb env cfg (boot_parse lb env cfg fuel)) (good base am0 lb env cfg) (\<lambda>_. good base am0 lb env cfg)"
    by (rule boot_contract) (rule Suc.IH)
  then show ?case using parse_config_good Suc.prems by simp
qed

interpretation boot_sections: section_contract "CreateParser lb env cfg (boot_parse lb env cfg fuel)"
  "good base am0 lb env cfg" "\<lambda>_. good base am0 lb env cfg" for base am0 lb env cfg fuel
  by (rule boot_contract) (rule boot_parse_good)

interpretation boot_files: logged_sections "CreateParser lb env cfg (boot_parse lb env cfg fuel)"
  "good base am0 lb env cfg" "\<lambda>_. good base am0 lb env cfg" for base am0 lb env cfg fuel
  by (rule logged_good) (rule boot_sections.section_contract_axioms)

section \<open>Imports end\<close>

text \<open>The files a path imports when it is parsed, as far as the text says.\<close>

definition import_targets :: "rc_env \<Rightarrow> (nat \<times> string list) list \<Rightarrow> string set" where
  "import_targets env ls =
     {conf. \<exists>(line, args) \<in> set ls. length args = 2 \<and> args ! 0 = ''import'' \<and>
              ExpandProps (rc_props env) (rc_version env) (args ! 1) = Inr conf}"

definition file_imports :: "rc_env \<Rightarrow> string \<Rightarrow> string set" where
  "file_imports env path =
     (case ReadFile (rc_files env) path of Inl _ \<Rightarrow> {} | Inr data \<Rightarrow> import_targets env (file_lines data))"

definition path_imports :: "rc_env \<Rightarrow> string \<Rightarrow> string set" where
  "path_imports env path =
     (if is_dir env path then
        (case read_dir env path of None \<Rightarrow> {} | Some es \<Rightarrow> (\<Union>f \<in> set (dir_files path es). file_imports env f))
      else file_imports env path)"

abbreviation pending :: "init_world rc_state \<Rightarrow> string set" where
  "pending rs \<equiv> fst ` set (rc_imports rs)"

lemma service_imports:
  "rc_imports (snd (ServiceParser_ParseSection r args fn line rs)) = rc_imports rs"
  "rc_imports (snd (ServiceParser_ParseLineSection r args line rs)) = rc_imports rs"
  "rc_imports (snd (ServiceParser_EndSection r rs)) = rc_imports rs"
  by (auto simp: ServiceParser_ParseSection_def ServiceParser_ParseLineSection_def ServiceParser_EndSection_def
      log_rc_def Let_def split: prod.split option.split sum.split)

lemma action_imports:
  "rc_imports (snd (ActionParser_ParseSection lb ap args fn line rs)) = rc_imports rs"
  "rc_imports (snd (ActionParser_ParseLineSection ap args line rs)) = rc_imports rs"
  "rc_imports (snd (ActionParser_EndSection ap rs)) = rc_imports rs"
  by (auto simp: ActionParser_ParseSection_def ActionParser_ParseLineSection_def ActionParser_EndSection_def Let_def
      split: prod.split option.split sum.split)

lemma import_imports:
  "pending (snd (ImportParser_ParseSection env args fn line rs)) \<subseteq>
     pending rs \<union> {conf. length args = 2 \<and> ExpandProps (rc_props env) (rc_version env) (args ! 1) = Inr conf}"
  by (auto simp: ImportParser_ParseSection_def log_rc_def Let_def split: sum.splits prod.splits if_splits)

definition own_section :: "init_world parser \<Rightarrow> init_world data_state \<Rightarrow> bool" where
  "own_section p ds =
     (case ds_section ds of None \<Rightarrow> True | Some sp \<Rightarrow> \<exists>n. (n, sp) \<in> set (section_parsers p))"

lemma count_error_imports [simp]: "rc_imports (count_error r) = rc_imports (snd r)"
  by (cases r) (auto simp: count_error_def split: sum.split)

lemma end_section_imports:
  assumes "own_section (CreateParser lb env cfg pc) ds"
  shows "rc_imports (ds_rs (end_section ds)) = rc_imports (ds_rs ds)" "ds_section (end_section ds) = None"
  using assms
  by (auto simp: end_section_def own_section_def CreateParser_sections ServiceParser_def ActionParser_def ImportParser_def
      service_imports action_imports split: option.splits)

lemma parse_line_imports:
  assumes "own_section (CreateParser lb env cfg pc) ds"
  shows "own_section (CreateParser lb env cfg pc) (parse_line lb (CreateParser lb env cfg pc) fn (line, args) ds) \<and>
         pending (ds_rs (parse_line lb (CreateParser lb env cfg pc) fn (line, args) ds)) \<subseteq>
           pending (ds_rs ds) \<union> import_targets env [(line, args)]"
proof -
  note e = end_section_imports [OF assms]
  show ?thesis
  proof (cases "map_of (section_parsers (CreateParser lb env cfg pc)) (args ! 0)")
    case None
    then show ?thesis
      using assms
      by (auto simp: parse_line_def CreateParser_sections(2) own_section_def CreateParser_sections(1) ServiceParser_def
          ActionParser_def ImportParser_def service_imports action_imports ImportParser_ParseLineSection_def
          split: option.splits)
  next
    case (Some sp)
    then have sp: "(args ! 0, sp) \<in> set (section_parsers (CreateParser lb env cfg pc))" by (rule map_of_SomeD)
    have "pending (snd (ParseSection sp args fn line (ds_rs (end_section ds)))) \<subseteq>
          pending (ds_rs ds) \<union> import_targets env [(line, args)]"
    proof (cases "args ! 0 = ''import''")
      case True
      then have "sp = ImportParser env pc" using sp by (simp add: CreateParser_sections(1))
      then show ?thesis
        using True e(1) import_imports [of env args fn line "ds_rs (end_section ds)"]
        by (simp add: ImportParser_def import_targets_def)
    next
      case False
      then show ?thesis
        using sp e(1)
        by (auto simp: CreateParser_sections(1) ServiceParser_def ActionParser_def service_imports action_imports)
    qed
    then show ?thesis
      using Some sp e by (auto simp: parse_line_def CreateParser_sections(2) own_section_def Let_def)
  qed
qed

lemma import_targets_Cons: "import_targets env (l # ls) = import_targets env [l] \<union> import_targets env ls"
  by (auto simp: import_targets_def)

lemma lines_imports:
  "own_section (CreateParser lb env cfg pc) ds \<Longrightarrow>
   own_section (CreateParser lb env cfg pc) (fold (parse_line lb (CreateParser lb env cfg pc) fn) ls ds) \<and>
   pending (ds_rs (fold (parse_line lb (CreateParser lb env cfg pc) fn) ls ds)) \<subseteq>
     pending (ds_rs ds) \<union> import_targets env ls"
proof (induction ls arbitrary: ds)
  case Nil
  then show ?case by simp
next
  case (Cons l ls)
  obtain line args where l: "l = (line, args)" by (cases l)
  note p = parse_line_imports [OF Cons.prems, of fn line args]
  note IH = Cons.IH [OF conjunct1 [OF p]]
  have "import_targets env (l # ls) = import_targets env [(line, args)] \<union> import_targets env ls"
    using import_targets_Cons [of env l ls] l by simp
  then show ?case
    using conjunct1 [OF IH] order_trans [OF conjunct2 [OF IH] Un_mono [OF conjunct2 [OF p] subset_refl]]
    by (simp add: l Un_assoc)
qed

lemma ofold_total:
  "(\<And>x s. x \<in> set xs \<Longrightarrow> P s \<Longrightarrow> \<exists>t. f x s = Some t \<and> P t) \<Longrightarrow> P s \<Longrightarrow> \<exists>t. ofold f xs s = Some t \<and> P t"
proof (induction xs arbitrary: s)
  case Nil
  then show ?case by simp
next
  case (Cons x xs)
  obtain t where t: "f x s = Some t" "P t" using Cons.prems(1) [of x s] Cons.prems(2) by auto
  moreover have "\<exists>u. ofold f xs t = Some u \<and> P u" using Cons.IH [of t] Cons.prems(1) t(2) by simp
  ultimately show ?case by simp
qed

definition returns :: "parse_config \<Rightarrow> string \<Rightarrow> bool" where
  "returns pc path = (\<forall>rs. rc_imports rs = [] \<longrightarrow> (\<exists>b rs'. pc path rs = Some (b, rs') \<and> rc_imports rs' = []))"

lemma ParseData_returns:
  assumes "rc_imports rs = []" "\<And>q. q \<in> import_targets env (file_lines data) \<Longrightarrow> returns pc q"
  shows "\<exists>rs'. ParseData lb (CreateParser lb env cfg pc) fn data rs = Some rs' \<and> rc_imports rs' = []"
proof -
  let ?p = "CreateParser lb env cfg pc"
  let ?ds = "fold (parse_line lb ?p fn) (file_lines data) (start_state rs)"
  have l: "own_section ?p ?ds" "pending (ds_rs ?ds) \<subseteq> import_targets env (file_lines data)"
    using lines_imports [of lb env cfg pc "start_state rs" fn "file_lines data"] assms(1)
    by (auto simp: own_section_def start_state_def)
  let ?r = "ds_rs (end_section ?ds)"
  have r: "pending ?r \<subseteq> import_targets env (file_lines data)" using end_section_imports(1) [OF l(1)] l(2) by simp
  have "\<exists>t. ofold (\<lambda>imp rs. map_option snd (pc (fst imp) rs)) (rc_imports ?r) (?r\<lparr>rc_imports := []\<rparr>) = Some t \<and>
            rc_imports t = []"
  proof (rule ofold_total)
    fix imp and s :: "init_world rc_state"
    assume "imp \<in> set (rc_imports ?r)" "rc_imports s = []"
    then have "returns pc (fst imp)" using r assms(2) by blast
    then show "\<exists>t. map_option snd (pc (fst imp) s) = Some t \<and> rc_imports t = []"
      using \<open>rc_imports s = []\<close> by (fastforce simp: returns_def)
  qed simp
  then obtain t where t: "ImportParser_EndFile pc ?r = Some t" "rc_imports t = []"
    by (auto simp: ImportParser_EndFile_def)
  then show ?thesis
    by (simp add: ParseData_fold parse_eof_def CreateParser_sections ImportParser_def ActionParser_def ServiceParser_def
        ServiceParser_EndFile_def)
qed

lemma ParseConfigFile_returns:
  assumes "rc_imports rs = []" "\<And>q. q \<in> file_imports env path \<Longrightarrow> returns pc q"
  shows "\<exists>b rs'. ParseConfigFile lb env (CreateParser lb env cfg pc) path rs = Some (b, rs') \<and> rc_imports rs' = []"
proof -
  obtain b evs where a: "rc_allowed env path = (b, evs)" by fastforce
  have l: "rc_imports (log_rc evs rs) = []" using assms(1) by (simp add: log_rc_def)
  show ?thesis
  proof (cases "ReadFile (rc_files env) path")
    case (Inl e)
    then show ?thesis using a l by (auto simp: ParseConfigFile_def Let_def)
  next
    case (Inr data)
    then have "\<exists>rs'. ParseData lb (CreateParser lb env cfg pc) path data (log_rc evs rs) = Some rs' \<and> rc_imports rs' = []"
      using ParseData_returns [OF l] assms(2) by (simp add: file_imports_def)
    then show ?thesis using a l Inr by (auto simp: ParseConfigFile_def Let_def)
  qed
qed

lemma parse_config_returns:
  assumes "rc_imports rs = []" "\<And>q. q \<in> path_imports env path \<Longrightarrow> returns pc q"
  shows "\<exists>b rs'. parse_config_with lb env (CreateParser lb env cfg pc) path rs = Some (b, rs') \<and> rc_imports rs' = []"
proof (cases "is_dir env path")
  case False
  then show ?thesis
    using ParseConfigFile_returns [OF assms(1)] assms(2) by (simp add: parse_config_with_def path_imports_def)
next
  case True
  obtain b evs where a: "rc_allowed env path = (b, evs)" by fastforce
  have l: "rc_imports (log_rc evs rs) = []" using assms(1) by (simp add: log_rc_def)
  show ?thesis
  proof (cases "read_dir env path")
    case None
    then show ?thesis using True a l by (auto simp: parse_config_with_def ParseConfigDir_def Let_def)
  next
    case (Some es)
    have "\<exists>t. ofold (\<lambda>f rs. map_option snd (ParseConfigFile lb env (CreateParser lb env cfg pc) f rs))
            (dir_files path es) (log_rc evs rs) = Some t \<and> rc_imports t = []"
    proof (rule ofold_total [where P = "\<lambda>rs. rc_imports rs = []", OF _ l])
      fix f and s :: "init_world rc_state"
      assume "f \<in> set (dir_files path es)" "rc_imports s = []"
      then show "\<exists>t. map_option snd (ParseConfigFile lb env (CreateParser lb env cfg pc) f s) = Some t \<and> rc_imports t = []"
        using ParseConfigFile_returns [of s env f pc lb cfg] assms(2) True Some
        by (fastforce simp: path_imports_def)
    qed
    then show ?thesis using True a l Some by (auto simp: parse_config_with_def ParseConfigDir_def Let_def)
  qed
qed

lemma boot_parse_returns:
  assumes "\<And>p q. q \<in> path_imports env p \<Longrightarrow> rank q < rank p"
  shows "rank path < fuel \<Longrightarrow> returns (boot_parse lb env cfg fuel) path"
proof (induction fuel arbitrary: path)
  case 0
  then show ?case by simp
next
  case (Suc fuel)
  have "returns (boot_parse lb env cfg fuel) q" if "q \<in> path_imports env path" for q
    using assms [OF that] Suc by simp
  then show ?case using parse_config_returns unfolding returns_def by simp
qed

section \<open>Properties\<close>

text \<open>The state before the scripts are read.\<close>

definition boot_state :: "init_world rc_state" where
  "boot_state =
     \<lparr>parse_error_count = 0, rc_imports = [], import_filename = [], rc_log = [],
      rc_world = \<lparr>iw_am = new_action_manager, iw_action = None, iw_sl = empty_services, iw_sp = new_service_parser\<rparr>\<rparr>"

lemma boot_state_ok: "world_ok empty_services new_action_manager lb env cfg boot_state"
  by (simp add: world_ok_def boot_state_def list_ok_def building_ok_def new_service_parser_def am_inv_new sl_inv_def
      empty_services_def order_inv_def)

lemma LoadBootScripts_boot:
  "LoadBootScripts lb env cfg fuel boot_state =
     map_option (\<lambda>(b, rs). (rs, [])) (boot_parse lb env cfg fuel kBootScript boot_state)"
proof -
  have "boot_state\<lparr>rc_world := (rc_world boot_state)\<lparr>iw_sp := new_service_parser, iw_action := None\<rparr>\<rparr> = boot_state"
    by (simp add: boot_state_def)
  moreover have "kBootScript \<noteq> []" by (simp add: kBootScript_def)
  ultimately show ?thesis by (simp add: LoadBootScripts_def parse_or_late_def Let_def split: option.split)
qed



text \<open>
  Only the one fixed script starts the boot: neither the value of \<^verbatim>\<open>ro.boot.init_rc\<close> nor the
  presence of a policy makes a difference, and no path is left for a late import.
\<close>

theorem boot_script_is_fixed:
  "LoadBootScripts lb env cfg fuel boot_state =
     map_option (\<lambda>(b, rs). (rs, [])) (ParseConfig lb env (CreateParser lb env cfg) fuel kBootScript boot_state)"
  by (rule LoadBootScripts_boot)

subsection \<open>Witnesses\<close>

definition sample_rc_env :: rc_env where
  "sample_rc_env =
     \<lparr>rc_files = (\<lambda>_. None), is_dir = (\<lambda>_. False), read_dir = (\<lambda>_. None), rc_policy = None,
      rc_log_env = \<lparr>can_open = (\<lambda>_. True), Timestamp = []\<rparr>, rc_props = (\<lambda>_. []), rc_version = 30\<rparr>"

definition sample_boot_cfg :: boot_cfg where
  "sample_boot_cfg =
     \<lparr>bc_sp = sample_sp_env,
      bc_te = \<lparr>actionable_enabled = False, can_read = (\<lambda>_ _. True), trigger_version = 30\<rparr>, bc_subcontext = None\<rparr>"

lemma sample_no_imports: "path_imports sample_rc_env p = {}"
  by (simp add: path_imports_def file_imports_def sample_rc_env_def ReadFile_def)



end
