(* ===== verification/Property_Service.thy ===== *)
theory Property_Service
  imports Util Action
begin

text \<open>
  The property service (\<^verbatim>\<open>init/property_service.cpp\<close>, \<^verbatim>\<open>init/property_type.cpp\<close>): type checks,
  permissions, the write-once rule, control messages and the socket protocol of its clients. The
  property area of the C library is a map; SELinux and the property contexts are arguments. The
  text of an error goes to the log only and is not modelled; its code is.
\<close>

section \<open>Types of properties\<close>

abbreviation INT64_MIN :: int where "INT64_MIN \<equiv> - 9223372036854775808"
abbreviation INT64_MAX :: int where "INT64_MAX \<equiv> 9223372036854775807"

definition size_value :: "string \<Rightarrow> bool" where
  "size_value v =
     (let rest = dropWhile c_isdigit v
      in if rest = v \<or> rest = [] \<or> hd rest \<notin> {CHR ''g'', CHR ''k'', CHR ''m''} then False else tl rest = [])"

definition CheckType :: "libbase \<Rightarrow> string \<Rightarrow> string \<Rightarrow> bool" where
  "CheckType lb type_string v =
     (if v = [] then True
      else
        (case Split lb type_string '' '' of
           [] \<Rightarrow> False
         | ty # rest \<Rightarrow>
             if ty = ''string'' then True
             else if ty = ''bool'' then v = ''true'' \<or> v = ''false'' \<or> v = ''1'' \<or> v = ''0''
             else if ty = ''int'' then ParseInt lb v INT64_MIN INT64_MAX \<noteq> None
             else if ty = ''uint'' then hd v \<noteq> CHR ''-'' \<and> ParseUint lb v 18446744073709551615 \<noteq> None
             else if ty = ''double'' then ParseDouble lb (c_str v)
             else if ty = ''size'' then size_value v
             else if ty = ''enum'' then v \<in> set rest
             else False))"

section \<open>State\<close>

datatype prop_result =
  PROP_SUCCESS
| PROP_ERROR_READ_CMD
| PROP_ERROR_READ_DATA
| PROP_ERROR_READ_ONLY_PROPERTY
| PROP_ERROR_INVALID_NAME
| PROP_ERROR_INVALID_VALUE
| PROP_ERROR_PERMISSION_DENIED
| PROP_ERROR_INVALID_CMD
| PROP_ERROR_HANDLE_CONTROL_MESSAGE
| PROP_ERROR_SET_FAILED

record ucred =
  cr_pid :: int
  cr_uid :: int
  cr_gid :: int

record control_message =
  cm_message :: string
  cm_name :: string
  cm_pid :: int
  cm_fd :: bool

text \<open>What leaves the service: calls into init and answers on the socket, in order.\<close>

datatype ps_out =
  OutPersist string string
| OutChanged string string
| OutRestorecon string
| OutReply prop_result

record prop_state =
  ps_store :: "string \<Rightarrow> string option"
  persistent_properties_loaded :: bool
  accept_messages :: bool
  pending_control_messages :: "control_message list"
  ps_out :: "ps_out list"

text \<open>
  The surroundings: \<open>pe_info\<close> gives the security context of a property and its type (the
  contexts are compiled with the default type \<^verbatim>\<open>string\<close>, so there always is one), \<open>pe_mac\<close> is
  \<^verbatim>\<open>selinux_check_access\<close> for setting, \<open>pe_mac_read\<close> for reading, \<open>pe_add\<close> whether the property
  area has room.
\<close>

record prop_env =
  pe_lb :: libbase
  pe_utf8 :: "string \<Rightarrow> bool"
  pe_info :: "string \<Rightarrow> string option \<times> string"
  pe_mac :: "string \<Rightarrow> string \<Rightarrow> bool"
  pe_mac_read :: "string \<Rightarrow> string \<Rightarrow> bool"
  pe_version :: int
  pe_add :: "string \<Rightarrow> bool"
  pe_userspace_reboot :: bool

definition kRestoreconProperty :: string where
  "kRestoreconProperty = ''selinux.restorecon_recursive''"

definition emit :: "ps_out \<Rightarrow> prop_state \<Rightarrow> prop_state" where
  "emit e st = st\<lparr>ps_out := ps_out st @ [e]\<rparr>"

definition GetProperty :: "prop_state \<Rightarrow> string \<Rightarrow> string \<Rightarrow> string" where
  "GetProperty st name dflt =
     (case ps_store st name of None \<Rightarrow> dflt | Some v \<Rightarrow> if v = [] then dflt else v)"

section \<open>Setting a property\<close>

definition StartSendingMessages :: "prop_state \<Rightarrow> prop_state" where
  "StartSendingMessages st = st\<lparr>accept_messages := True\<rparr>"

definition StopSendingMessages :: "prop_state \<Rightarrow> prop_state" where
  "StopSendingMessages st = st\<lparr>accept_messages := False\<rparr>"

definition CanReadProperty :: "prop_env \<Rightarrow> string \<Rightarrow> string \<Rightarrow> bool" where
  "CanReadProperty env source_context name =
     (case fst (pe_info env name) of None \<Rightarrow> False | Some target \<Rightarrow> pe_mac_read env source_context target)"

definition CheckMacPerms :: "prop_env \<Rightarrow> string option \<Rightarrow> string \<Rightarrow> bool" where
  "CheckMacPerms env target_context source_context =
     (case target_context of None \<Rightarrow> False | Some target \<Rightarrow> pe_mac env source_context target)"

definition store_property :: "prop_env \<Rightarrow> string \<Rightarrow> string \<Rightarrow> prop_state \<Rightarrow> prop_result \<times> prop_state" where
  "store_property env name v st =
     (case ps_store st name of
        Some _ \<Rightarrow>
          if StartsWith (pe_lb env) name ''ro.'' then (PROP_ERROR_READ_ONLY_PROPERTY, st)
          else (PROP_SUCCESS, st\<lparr>ps_store := (ps_store st)(name \<mapsto> v)\<rparr>)
      | None \<Rightarrow>
          if pe_add env name then (PROP_SUCCESS, st\<lparr>ps_store := (ps_store st)(name \<mapsto> v)\<rparr>)
          else (PROP_ERROR_SET_FAILED, st))"

definition PropertySet :: "prop_env \<Rightarrow> string \<Rightarrow> string \<Rightarrow> prop_state \<Rightarrow> prop_result \<times> prop_state" where
  "PropertySet env name v st =
     (if \<not> IsLegalPropertyName name then (PROP_ERROR_INVALID_NAME, st)
      else if \<not> ok (IsLegalPropertyValue (pe_lb env) (pe_utf8 env) name v) then (PROP_ERROR_INVALID_VALUE, st)
      else
        (case store_property env name v st of
           (PROP_SUCCESS, st) \<Rightarrow>
             (let st = (if persistent_properties_loaded st \<and> StartsWith (pe_lb env) name ''persist.''
                        then emit (OutPersist name v) st else st);
                  st = (if accept_messages st then emit (OutChanged name v) st else st)
              in (PROP_SUCCESS, st))
         | (e, st) \<Rightarrow> (e, st)))"

section \<open>Permissions\<close>

definition CheckControlPropertyPerms :: "prop_env \<Rightarrow> string \<Rightarrow> string \<Rightarrow> string \<Rightarrow> bool" where
  "CheckControlPropertyPerms env name v source_context =
     ((name = ''ctl.start'' \<or> name = ''ctl.stop'' \<or> name = ''ctl.restart'') \<and>
        CheckMacPerms env (fst (pe_info env (c_str (''ctl.'' @ v)))) source_context \<or>
      CheckMacPerms env (fst (pe_info env (c_str (name @ ''$'' @ v)))) source_context)"

definition CheckPermissions :: "prop_env \<Rightarrow> string \<Rightarrow> string \<Rightarrow> string \<Rightarrow> prop_result" where
  "CheckPermissions env name v source_context =
     (if \<not> IsLegalPropertyName name then PROP_ERROR_INVALID_NAME
      else if StartsWith (pe_lb env) name ''ctl.'' then
        (if \<not> CheckControlPropertyPerms env name v source_context then PROP_ERROR_HANDLE_CONTROL_MESSAGE
         else PROP_SUCCESS)
      else
        (case pe_info env name of
           (target_context, ty) \<Rightarrow>
             if \<not> CheckMacPerms env target_context source_context then PROP_ERROR_PERMISSION_DENIED
             else if \<not> CheckType (pe_lb env) ty v then PROP_ERROR_INVALID_VALUE
             else PROP_SUCCESS))"

section \<open>Requests\<close>

text \<open>
  \<^verbatim>\<open>QueueControlMessage\<close> of \<^verbatim>\<open>init/init.cpp\<close>; the queue is shared with the main loop.
\<close>

definition QueueControlMessage :: "control_message \<Rightarrow> prop_state \<Rightarrow> bool \<times> prop_state" where
  "QueueControlMessage cm st =
     (if 100 < length (pending_control_messages st) then (False, st)
      else (True, st\<lparr>pending_control_messages := pending_control_messages st @ [cm]\<rparr>))"

text \<open>
  The handlers also say whether the socket was handed over to the control message, in which case
  the caller sends no answer.
\<close>

definition SendControlMessage ::
  "prop_env \<Rightarrow> string \<Rightarrow> string \<Rightarrow> int \<Rightarrow> bool \<Rightarrow> prop_state \<Rightarrow> prop_result \<times> bool \<times> prop_state" where
  "SendControlMessage env msg name pid socket st =
     (if \<not> accept_messages st then (PROP_ERROR_HANDLE_CONTROL_MESSAGE, False, st)
      else
        (let fd = (socket \<and> pe_version env > API_Q)
         in case QueueControlMessage \<lparr>cm_message = msg, cm_name = name, cm_pid = pid, cm_fd = fd\<rparr> st of
              (queued, st) \<Rightarrow>
                (PROP_SUCCESS, fd,
                 if \<not> queued \<and> fd then emit (OutReply PROP_ERROR_HANDLE_CONTROL_MESSAGE) st else st)))"

definition HandlePropertySet ::
  "prop_env \<Rightarrow> string \<Rightarrow> string \<Rightarrow> string \<Rightarrow> ucred \<Rightarrow> bool \<Rightarrow> prop_state \<Rightarrow> prop_result \<times> bool \<times> prop_state" where
  "HandlePropertySet env name v source_context cr socket st =
     (let ret = CheckPermissions env name v source_context
      in if ret \<noteq> PROP_SUCCESS then (ret, False, st)
         else if StartsWith (pe_lb env) name ''ctl.'' then
           SendControlMessage env (drop 4 name) v (cr_pid cr) socket st
         else if name = ''sys.powerctl'' \<and> v = ''reboot,userspace'' \<and> \<not> pe_userspace_reboot env then
           (PROP_ERROR_INVALID_VALUE, False, st)
         else if name = kRestoreconProperty \<and> cr_pid cr \<noteq> 1 \<and> v \<noteq> [] then
           (PROP_SUCCESS, False, emit (OutRestorecon v) st)
         else (case PropertySet env name v st of (r, st) \<Rightarrow> (r, False, st)))"

definition InitPropertySet :: "prop_env \<Rightarrow> string \<Rightarrow> string \<Rightarrow> prop_state \<Rightarrow> prop_result \<times> prop_state" where
  "InitPropertySet env name v st =
     (case HandlePropertySet env name v kInitContext \<lparr>cr_pid = 1, cr_uid = 0, cr_gid = 0\<rparr> False st of
        (r, _, st) \<Rightarrow> (r, st))"

section \<open>The socket\<close>

text \<open>
  The answers of \<^verbatim>\<open>poll\<close> with the milliseconds each took, and of \<^verbatim>\<open>recv\<close>. A list that is used up
  stands for a client that stays silent for ever; then the result is \<open>None\<close>.
\<close>

datatype poll_answer = Ready nat | TimedOut nat | Interrupted nat | PollFailed nat
datatype recv_answer = RecvBytes string | RecvFailed

record connection =
  polls :: "poll_answer list"
  recvs :: "recv_answer list"
  timeout_ms :: nat

fun PollIn :: "nat \<Rightarrow> poll_answer list \<Rightarrow> (bool \<times> nat \<times> poll_answer list) option" where
  "PollIn t [] = (if t = 0 then Some (False, t, []) else None)"
| "PollIn t (a # as) =
     (if t = 0 then Some (False, t, a # as)
      else
        (case a of
           Ready ms \<Rightarrow> Some (True, t - ms, as)
         | TimedOut ms \<Rightarrow> Some (False, t - ms, as)
         | PollFailed ms \<Rightarrow> Some (False, t - ms, as)
         | Interrupted ms \<Rightarrow> PollIn (t - ms - 1) as))"

function RecvFully :: "nat \<Rightarrow> string \<Rightarrow> connection \<Rightarrow> (string option \<times> connection) option" where
  "RecvFully bytes_left acc c =
     (if timeout_ms c = 0 \<or> bytes_left = 0 then Some (if bytes_left = 0 then Some acc else None, c)
      else
        (case PollIn (timeout_ms c) (polls c) of
           None \<Rightarrow> None
         | Some (False, t, ps) \<Rightarrow> Some (None, c\<lparr>timeout_ms := t, polls := ps\<rparr>)
         | Some (True, t, ps) \<Rightarrow>
             (case recvs c of
                [] \<Rightarrow> None
              | RecvFailed # rs \<Rightarrow> Some (None, c\<lparr>timeout_ms := t, polls := ps, recvs := rs\<rparr>)
              | RecvBytes b # rs \<Rightarrow>
                  if b = [] then Some (None, c\<lparr>timeout_ms := t, polls := ps, recvs := rs\<rparr>)
                  else RecvFully (bytes_left - length b) (acc @ take bytes_left b)
                         (c\<lparr>timeout_ms := t, polls := ps, recvs := rs\<rparr>))))"
  by pat_completeness auto
termination
  by (relation "measure (\<lambda>(n, _, _). n)") auto

declare RecvFully.simps [simp del]

fun le_value :: "string \<Rightarrow> nat" where
  "le_value [] = 0"
| "le_value (b # bs) = code_of b + 256 * le_value bs"

definition RecvUint32 :: "connection \<Rightarrow> (nat option \<times> connection) option" where
  "RecvUint32 c =
     (case RecvFully 4 [] c of None \<Rightarrow> None | Some (r, c) \<Rightarrow> Some (map_option le_value r, c))"

definition RecvString :: "connection \<Rightarrow> (string option \<times> connection) option" where
  "RecvString c =
     (case RecvUint32 c of
        None \<Rightarrow> None
      | Some (None, c) \<Rightarrow> Some (None, c)
      | Some (Some len, c) \<Rightarrow>
          if len = 0 then Some (Some [], c)
          else if 0xffff < len then Some (None, c)
          else RecvFully len [] c)"

abbreviation PROP_NAME_MAX :: nat where "PROP_NAME_MAX \<equiv> 32"
abbreviation PROP_MSG_SETPROP :: nat where "PROP_MSG_SETPROP \<equiv> 1"
abbreviation PROP_MSG_SETPROP2 :: nat where "PROP_MSG_SETPROP2 \<equiv> 0x00020001"
definition kDefaultSocketTimeout :: nat where "kDefaultSocketTimeout = 2000"

text \<open>The two requests. \<open>context\<close> is the answer of \<^verbatim>\<open>getpeercon\<close>.\<close>

definition setprop_request ::
  "prop_env \<Rightarrow> ucred \<Rightarrow> string option \<Rightarrow> connection \<Rightarrow> prop_state \<Rightarrow> prop_state option" where
  "setprop_request env cr context c st =
     (case RecvFully PROP_NAME_MAX [] c of
        None \<Rightarrow> None
      | Some (None, _) \<Rightarrow> Some st
      | Some (Some n, c) \<Rightarrow>
          (case RecvFully PROP_VALUE_MAX [] c of
             None \<Rightarrow> None
           | Some (None, _) \<Rightarrow> Some st
           | Some (Some v, _) \<Rightarrow>
               (case context of
                  None \<Rightarrow> Some st
                | Some source_context \<Rightarrow>
                    Some (snd (snd (HandlePropertySet env (c_str (take (PROP_NAME_MAX - 1) n))
                      (c_str (take (PROP_VALUE_MAX - 1) v)) source_context cr False st))))))"

fun answer_request :: "prop_result \<times> bool \<times> prop_state \<Rightarrow> prop_state" where
  "answer_request (result, released, st) = (if released then st else emit (OutReply result) st)"

definition setprop2_request ::
  "prop_env \<Rightarrow> ucred \<Rightarrow> string option \<Rightarrow> connection \<Rightarrow> prop_state \<Rightarrow> prop_state option" where
  "setprop2_request env cr context c st =
     (case RecvString c of
        None \<Rightarrow> None
      | Some (None, _) \<Rightarrow> Some (emit (OutReply PROP_ERROR_READ_DATA) st)
      | Some (Some name, c) \<Rightarrow>
          (case RecvString c of
             None \<Rightarrow> None
           | Some (None, _) \<Rightarrow> Some (emit (OutReply PROP_ERROR_READ_DATA) st)
           | Some (Some v, _) \<Rightarrow>
               (case context of
                  None \<Rightarrow> Some (emit (OutReply PROP_ERROR_PERMISSION_DENIED) st)
                | Some source_context \<Rightarrow>
                    Some (answer_request (HandlePropertySet env name v source_context cr True st)))))"

definition handle_property_set_fd ::
  "prop_env \<Rightarrow> ucred option \<Rightarrow> string option \<Rightarrow> connection \<Rightarrow> prop_state \<Rightarrow> prop_state option" where
  "handle_property_set_fd env cred context c st =
     (case cred of
        None \<Rightarrow> Some st
      | Some cr \<Rightarrow>
          (case RecvUint32 (c\<lparr>timeout_ms := kDefaultSocketTimeout\<rparr>) of
             None \<Rightarrow> None
           | Some (None, _) \<Rightarrow> Some (emit (OutReply PROP_ERROR_READ_CMD) st)
           | Some (Some cmd, c) \<Rightarrow>
               if cmd = PROP_MSG_SETPROP then setprop_request env cr context c st
               else if cmd = PROP_MSG_SETPROP2 then setprop2_request env cr context c st
               else Some (emit (OutReply PROP_ERROR_INVALID_CMD) st)))"

section \<open>What a request may change\<close>

lemma emit_store [simp]:
  "ps_store (emit e st) = ps_store st" "persistent_properties_loaded (emit e st) = persistent_properties_loaded st"
  "accept_messages (emit e st) = accept_messages st" "pending_control_messages (emit e st) = pending_control_messages st"
  by (simp_all add: emit_def)

text \<open>
  The one way a store changes: a legal name gets a legal value, and not over an existing
  read-only property.
\<close>

definition stores :: "prop_env \<Rightarrow> string \<Rightarrow> string \<Rightarrow> prop_state \<Rightarrow> prop_state \<Rightarrow> bool" where
  "stores env n v st st' =
     (IsLegalPropertyName n \<and> ok (IsLegalPropertyValue (pe_lb env) (pe_utf8 env) n v) \<and>
      (ps_store st n \<noteq> None \<longrightarrow> \<not> StartsWith (pe_lb env) n ''ro.'') \<and>
      ps_store st' = (ps_store st)(n \<mapsto> v))"

lemma store_property_cases:
  "store_property env n v st = (r, st') \<Longrightarrow>
   (if r = PROP_SUCCESS
    then (ps_store st n \<noteq> None \<longrightarrow> \<not> StartsWith (pe_lb env) n ''ro.'') \<and> st' = st\<lparr>ps_store := (ps_store st)(n \<mapsto> v)\<rparr>
    else st' = st)"
  by (auto simp: store_property_def split: option.splits if_splits)

lemma PropertySet_store:
  assumes "PropertySet env n v st = (r, st')"
  shows "if r = PROP_SUCCESS then stores env n v st st' else st' = st"
proof (cases "IsLegalPropertyName n \<and> ok (IsLegalPropertyValue (pe_lb env) (pe_utf8 env) n v)")
  case False
  then show ?thesis using assms by (auto simp: PropertySet_def split: if_splits)
next
  case True
  obtain q t where q: "store_property env n v st = (q, t)" by fastforce
  show ?thesis
    using assms True q store_property_cases [OF q]
    by (cases q) (auto simp: PropertySet_def stores_def Let_def split: if_splits)
qed

lemma SendControlMessage_store: "ps_store (snd (snd (SendControlMessage env m n pid s st))) = ps_store st"
  by (auto simp: SendControlMessage_def QueueControlMessage_def Let_def)

definition set_permitted :: "prop_env \<Rightarrow> string \<Rightarrow> string \<Rightarrow> string \<Rightarrow> bool" where
  "set_permitted env n v src =
     (\<not> StartsWith (pe_lb env) n ''ctl.'' \<and> CheckMacPerms env (fst (pe_info env n)) src \<and>
      CheckType (pe_lb env) (snd (pe_info env n)) v)"

lemma CheckPermissions_success:
  "CheckPermissions env n v src = PROP_SUCCESS \<Longrightarrow> \<not> StartsWith (pe_lb env) n ''ctl.'' \<Longrightarrow> set_permitted env n v src"
  by (auto simp: CheckPermissions_def set_permitted_def split: if_splits prod.splits)

lemma HandlePropertySet_store:
  assumes "HandlePropertySet env n v src cr sock st = (r, rel, st')"
  shows "ps_store st' = ps_store st \<or> r = PROP_SUCCESS \<and> set_permitted env n v src \<and> stores env n v st st'"
proof -
  obtain q t where q: "PropertySet env n v st = (q, t)" by fastforce
  show ?thesis
    using assms q PropertySet_store [OF q] CheckPermissions_success [of env n v src]
      SendControlMessage_store [of env "drop 4 n" v "cr_pid cr" sock st]
    by (auto simp: HandlePropertySet_def Let_def split: if_splits)
qed

text \<open>A whole connection: the store is untouched, or one permitted request was stored.\<close>

definition one_request :: "prop_env \<Rightarrow> string option \<Rightarrow> prop_state \<Rightarrow> prop_state \<Rightarrow> bool" where
  "one_request env ctx st st' =
     (ps_store st' = ps_store st \<or>
      (\<exists>n v src. ctx = Some src \<and> set_permitted env n v src \<and> stores env n v st st'))"

lemma one_request_emit [simp]: "one_request env ctx st (emit e t) = one_request env ctx st t"
  by (simp add: one_request_def stores_def)

lemma one_request_refl [simp]: "one_request env ctx st st"
  by (simp add: one_request_def)

lemma HandlePropertySet_one:
  "one_request env (Some src) st (snd (snd (HandlePropertySet env n v src cr sock st)))"
proof -
  obtain r rel t where h: "HandlePropertySet env n v src cr sock st = (r, rel, t)" by (metis prod_cases3)
  show ?thesis using HandlePropertySet_store [OF h] h by (auto simp: one_request_def)
qed

lemma setprop_request_one: "setprop_request env cr ctx c st = Some t \<Longrightarrow> one_request env ctx st t"
  by (auto simp: setprop_request_def HandlePropertySet_one split: option.splits)

lemma answer_one:
  "one_request env (Some src) st (answer_request (HandlePropertySet env n v src cr True st))"
  using HandlePropertySet_one [of env src st n v cr True]
  by (cases "HandlePropertySet env n v src cr True st") simp

lemma setprop2_request_one: "setprop2_request env cr ctx c st = Some t \<Longrightarrow> one_request env ctx st t"
  by (auto simp: setprop2_request_def answer_one split: option.splits)

lemma handle_store:
  assumes "handle_property_set_fd env cred ctx c st = Some st'"
  shows "one_request env ctx st st'"
  using assms setprop_request_one setprop2_request_one
  by (auto simp: handle_property_set_fd_def split: option.splits if_splits)

section \<open>Histories\<close>

text \<open>Everything that touches the state, step by step.\<close>

inductive property_step :: "prop_env \<Rightarrow> prop_state \<Rightarrow> prop_state \<Rightarrow> bool" for env where
  client: "handle_property_set_fd env cred context c st = Some st' \<Longrightarrow> property_step env st st'"
| init_set: "InitPropertySet env n v st = (r, st') \<Longrightarrow> property_step env st st'"
| internal_set: "PropertySet env n v st = (r, st') \<Longrightarrow> property_step env st st'"
| start_sending: "property_step env st (StartSendingMessages st)"
| stop_sending: "property_step env st (StopSendingMessages st)"
| persistent_loaded: "property_step env st (st\<lparr>persistent_properties_loaded := True\<rparr>)"
| take_control: "property_step env st (st\<lparr>pending_control_messages := ms\<rparr>)"

inductive property_steps :: "prop_env \<Rightarrow> prop_state \<Rightarrow> prop_state \<Rightarrow> bool" for env where
  none: "property_steps env st st"
| more: "property_steps env st st' \<Longrightarrow> property_step env st' st'' \<Longrightarrow> property_steps env st st''"

lemma property_step_store:
  "property_step env st st' \<Longrightarrow> ps_store st' = ps_store st \<or> (\<exists>n v. stores env n v st st')"
proof (induction rule: property_step.induct)
  case (client cred ctx c st st')
  then have "one_request env ctx st st'" by (rule handle_store)
  then show ?case by (auto simp: one_request_def)
next
  case (init_set n v st r st')
  then show ?case
    using HandlePropertySet_store by (fastforce simp: InitPropertySet_def split: prod.splits)
next
  case (internal_set n v st r st')
  then show ?case using PropertySet_store [OF internal_set] by (auto split: if_splits)
qed (simp_all add: StartSendingMessages_def StopSendingMessages_def)

definition store_wf :: "prop_env \<Rightarrow> prop_state \<Rightarrow> bool" where
  "store_wf env st =
     (\<forall>n v. ps_store st n = Some v \<longrightarrow>
        IsLegalPropertyName n \<and> ok (IsLegalPropertyValue (pe_lb env) (pe_utf8 env) n v))"

lemma stores_wf: "stores env n v st st' \<Longrightarrow> store_wf env st \<Longrightarrow> store_wf env st'"
  by (simp add: stores_def store_wf_def)

lemma stores_ro:
  "stores env n v st st' \<Longrightarrow> StartsWith (pe_lb env) m ''ro.'' \<Longrightarrow> ps_store st m = Some w \<Longrightarrow> ps_store st' m = Some w"
  by (auto simp: stores_def)

lemma property_step_inv:
  assumes "property_step env st st'"
  shows "store_wf env st \<Longrightarrow> store_wf env st'"
    "StartsWith (pe_lb env) m ''ro.'' \<Longrightarrow> ps_store st m = Some w \<Longrightarrow> ps_store st' m = Some w"
proof -
  consider (same) "ps_store st' = ps_store st" | (new) n v where "stores env n v st st'"
    using property_step_store [OF assms] by blast
  note cases = this
  show "store_wf env st \<Longrightarrow> store_wf env st'" 
  proof (cases rule: cases)
    case same
    then show "store_wf env st \<Longrightarrow> store_wf env st'" by (simp add: store_wf_def)
  next
    case new
    then show "store_wf env st \<Longrightarrow> store_wf env st'" by (rule stores_wf)
  qed
  show "StartsWith (pe_lb env) m ''ro.'' \<Longrightarrow> ps_store st m = Some w \<Longrightarrow> ps_store st' m = Some w"
  proof (cases rule: cases)
    case same
    then show "StartsWith (pe_lb env) m ''ro.'' \<Longrightarrow> ps_store st m = Some w \<Longrightarrow> ps_store st' m = Some w" by simp
  next
    case new
    then show "StartsWith (pe_lb env) m ''ro.'' \<Longrightarrow> ps_store st m = Some w \<Longrightarrow> ps_store st' m = Some w" by (rule stores_ro)
  qed
qed

lemma property_steps_wf: "property_steps env st st' \<Longrightarrow> store_wf env st \<Longrightarrow> store_wf env st'"
  by (induction rule: property_steps.induct) (auto dest: property_step_inv)

lemma property_steps_ro:
  "property_steps env st st' \<Longrightarrow> StartsWith (pe_lb env) m ''ro.'' \<Longrightarrow> ps_store st m = Some w \<Longrightarrow> ps_store st' m = Some w"
  by (induction rule: property_steps.induct) (auto dest: property_step_inv)

section \<open>A client cannot hold the service\<close>

text \<open>Enough answers for the time that is left and \<open>n\<close> bytes.\<close>

definition enough :: "connection \<Rightarrow> nat \<Rightarrow> bool" where
  "enough c n = (timeout_ms c + n \<le> length (polls c) \<and> n \<le> length (recvs c))"

lemma PollIn_returns:
  "t \<le> length ps \<Longrightarrow>
   \<exists>b t' ps'. PollIn t ps = Some (b, t', ps') \<and> t' \<le> t \<and> length ps \<le> length ps' + (t - t') + 1"
proof (induction t ps rule: PollIn.induct)
  case (1 t)
  then show ?case by auto
next
  case (2 t a as)
  show ?case
  proof (cases "t = 0")
    case True
    then show ?thesis by auto
  next
    case False
    then show ?thesis
    proof (cases a)
      case (Interrupted ms)
      then obtain b t' ps' where r: "PollIn (t - ms - 1) as = Some (b, t', ps')" "t' \<le> t - ms - 1"
        "length as \<le> length ps' + (t - ms - 1 - t') + 1"
        using 2 False by fastforce
      then have "t' \<le> t" "length (a # as) \<le> length ps' + (t - t') + 1" using False by auto
      then show ?thesis using r(1) False Interrupted by auto
    qed (use False in auto)
  qed
qed

lemma RecvFully_returns:
  "enough c (n + k) \<Longrightarrow> \<exists>r c'. RecvFully n acc c = Some (r, c') \<and> enough c' k"
proof (induction n acc c rule: RecvFully.induct)
  case (1 n acc c)
  show ?case
  proof (cases "timeout_ms c = 0 \<or> n = 0")
    case True
    then show ?thesis using "1.prems" by (auto simp: RecvFully.simps [of n acc c] enough_def)
  next
    case False
    obtain b t ps where p: "PollIn (timeout_ms c) (polls c) = Some (b, t, ps)" "t \<le> timeout_ms c"
      "length (polls c) \<le> length ps + (timeout_ms c - t) + 1"
      using PollIn_returns [of "timeout_ms c" "polls c"] "1.prems" by (auto simp: enough_def)
    show ?thesis
    proof (cases b)
      case no: False
      then show ?thesis
        using p False "1.prems" by (auto simp: RecvFully.simps [of n acc c] enough_def)
    next
      case yes: True
      obtain r rs where rs: "recvs c = r # rs" using "1.prems" False by (cases "recvs c") (auto simp: enough_def)
      show ?thesis
      proof (cases r)
        case RecvFailed
        then show ?thesis using p False yes rs "1.prems" by (auto simp: RecvFully.simps [of n acc c] enough_def)
      next
        case (RecvBytes s)
        let ?c = "c\<lparr>timeout_ms := t, polls := ps, recvs := rs\<rparr>"
        show ?thesis
        proof (cases "s = []")
          case True
          then show ?thesis using RecvBytes p False yes rs "1.prems" by (auto simp: RecvFully.simps [of n acc c] enough_def)
        next
          case ne: False
          then have l: "1 \<le> length s" by (cases s) auto
          have "enough ?c (n - length s + k)" using p rs l False "1.prems" by (auto simp: enough_def)
          then have "\<exists>r c'. RecvFully (n - length s) (acc @ take n s) ?c = Some (r, c') \<and> enough c' k"
            using "1.IH" [OF False, of "(True, t, ps)" True "(t, ps)" t ps r rs s] p(1) yes rs RecvBytes ne by simp
          then show ?thesis
            using RecvBytes p False yes rs ne by (auto simp: RecvFully.simps [of n acc c])
        qed
      qed
    qed
  qed
qed

lemma RecvUint32_returns: "enough c (4 + k) \<Longrightarrow> \<exists>r c'. RecvUint32 c = Some (r, c') \<and> enough c' k"
  using RecvFully_returns [of c 4 k "[]"] by (auto simp: RecvUint32_def)

lemma enough_mono: "enough c n \<Longrightarrow> m \<le> n \<Longrightarrow> enough c m"
  by (auto simp: enough_def)

lemma RecvString_returns:
  assumes "enough c (65539 + k)"
  shows "\<exists>r c'. RecvString c = Some (r, c') \<and> enough c' k"
proof -
  obtain r c' where u: "RecvUint32 c = Some (r, c')" "enough c' (65535 + k)"
    using RecvUint32_returns [of c "65535 + k"] assms by auto
  show ?thesis
  proof (cases r)
    case None
    then show ?thesis using u enough_mono [OF u(2), of k] by (auto simp: RecvString_def)
  next
    case (Some len)
    show ?thesis
    proof (cases "len = 0 \<or> 0xffff < len")
      case True
      then show ?thesis using u Some enough_mono [OF u(2), of k] by (auto simp: RecvString_def)
    next
      case False
      then have "enough c' (len + k)" by (intro enough_mono [OF u(2)]) auto
      then show ?thesis using RecvFully_returns [of c' len k "[]"] u Some False by (auto simp: RecvString_def)
    qed
  qed
qed

lemma requests_return:
  "enough c 124 \<Longrightarrow> \<exists>st'. setprop_request env cr context c st = Some st'"
  "enough c 131078 \<Longrightarrow> \<exists>st'. setprop2_request env cr context c st = Some st'"
proof -
  assume "enough c 124"
  then obtain r c' where "RecvFully 32 [] c = Some (r, c')" "enough c' 92" using RecvFully_returns [of c 32 92 "[]"] by auto
  moreover obtain q d where "RecvFully 92 [] c' = Some (q, d)" using RecvFully_returns [of c' 92 0 "[]"] calculation by auto
  ultimately show "\<exists>st'. setprop_request env cr context c st = Some st'"
    by (auto simp: setprop_request_def split: option.split)
next
  assume "enough c 131078"
  then obtain r c' where "RecvString c = Some (r, c')" "enough c' 65539" using RecvString_returns [of c 65539] by auto
  moreover obtain q d where "RecvString c' = Some (q, d)" using RecvString_returns [of c' 0] calculation by auto
  ultimately show "\<exists>st'. setprop2_request env cr context c st = Some st'"
    by (auto simp: setprop2_request_def split: option.split prod.split)
qed


lemma connection_returns:
  assumes "enough (c\<lparr>timeout_ms := kDefaultSocketTimeout\<rparr>) 131082"
  shows "\<exists>st'. handle_property_set_fd env cred context c st = Some st'"
proof (cases cred)
  case None
  then show ?thesis by (simp add: handle_property_set_fd_def)
next
  case (Some cr)
  obtain r d where u: "RecvUint32 (c\<lparr>timeout_ms := kDefaultSocketTimeout\<rparr>) = Some (r, d)" "enough d 131078"
    using RecvUint32_returns [of "c\<lparr>timeout_ms := kDefaultSocketTimeout\<rparr>" 131078] assms by auto
  then obtain t t' where "setprop_request env cr context d st = Some t" "setprop2_request env cr context d st = Some t'"
    using requests_return [of d] enough_mono [of d 131078 124] by fastforce
  then show ?thesis using Some u(1) by (cases r) (auto simp: handle_property_set_fd_def)
qed

section \<open>The restorecon thread\<close>

text \<open>
  \<^verbatim>\<open>AsyncRestorecon\<close>: \<open>ar_current\<close> is the path the thread works on without the lock, \<open>ar_done\<close> the
  paths it has relabelled and published, in order. Each step holds the mutex throughout.
\<close>

record async_restorecon =
  ar_paths :: "string list"
  ar_started :: bool
  ar_current :: "string option"
  ar_done :: "string list"

definition TriggerRestorecon :: "string \<Rightarrow> async_restorecon \<Rightarrow> async_restorecon" where
  "TriggerRestorecon path ar =
     (let ar = ar\<lparr>ar_paths := ar_paths ar @ [path]\<rparr>
      in if \<not> ar_started ar then ar\<lparr>ar_started := True\<rparr> else ar)"

fun ThreadFunction_step :: "async_restorecon \<Rightarrow> async_restorecon" where
  "ThreadFunction_step ar =
     (if \<not> ar_started ar then ar
      else
        (case ar_current ar of
           Some path \<Rightarrow> ar\<lparr>ar_done := ar_done ar @ [path], ar_current := None\<rparr>
         | None \<Rightarrow>
             (case ar_paths ar of
                path # rest \<Rightarrow> ar\<lparr>ar_current := Some path, ar_paths := rest\<rparr>
              | [] \<Rightarrow> ar\<lparr>ar_started := False\<rparr>)))"

datatype restorecon_event = Trigger string | ThreadRuns

fun restorecon_step :: "restorecon_event \<Rightarrow> async_restorecon \<Rightarrow> async_restorecon" where
  "restorecon_step (Trigger path) ar = TriggerRestorecon path ar"
| "restorecon_step ThreadRuns ar = ThreadFunction_step ar"

definition restorecon_idle :: async_restorecon where
  "restorecon_idle = \<lparr>ar_paths = [], ar_started = False, ar_current = None, ar_done = []\<rparr>"

fun triggered :: "restorecon_event list \<Rightarrow> string list" where
  "triggered [] = []"
| "triggered (Trigger path # es) = path # triggered es"
| "triggered (ThreadRuns # es) = triggered es"

lemma triggered_append [simp]: "triggered (es @ fs) = triggered es @ triggered fs"
  by (induction es rule: triggered.induct) auto

lemma triggered_thread [simp]: "triggered (replicate n ThreadRuns) = []"
  by (induction n) auto

definition restorecon_inv :: "string list \<Rightarrow> async_restorecon \<Rightarrow> bool" where
  "restorecon_inv ps ar =
     (ps = ar_done ar @ (case ar_current ar of None \<Rightarrow> [] | Some p \<Rightarrow> [p]) @ ar_paths ar \<and>
      (\<not> ar_started ar \<longrightarrow> ar_current ar = None \<and> ar_paths ar = []))"

lemma restorecon_step_inv:
  "restorecon_inv ps ar \<Longrightarrow> restorecon_inv (ps @ triggered [e]) (restorecon_step e ar)"
  by (cases e) (auto simp: restorecon_inv_def TriggerRestorecon_def Let_def split: option.splits list.splits)

lemma restorecon_run_inv:
  "restorecon_inv ps ar \<Longrightarrow> restorecon_inv (ps @ triggered es) (fold restorecon_step es ar)"
proof (induction es arbitrary: ps ar)
  case (Cons e es)
  show ?case using Cons.IH [OF restorecon_step_inv [OF Cons.prems], of e] triggered_append [of "[e]" es] by simp
qed simp

lemma restorecon_drains:
  "2 * length (ar_paths ar) + (if ar_current ar = None then 0 else 1) < n \<Longrightarrow> restorecon_inv ps ar \<Longrightarrow>
   ar_done (fold restorecon_step (replicate n ThreadRuns) ar) = ps"
proof (induction n arbitrary: ar)
  case (Suc n)
  have v: "restorecon_inv ps (ThreadFunction_step ar)" using restorecon_step_inv [OF Suc.prems(2), of ThreadRuns] by simp
  show ?case
  proof (cases "ar_started ar \<and> (ar_current ar \<noteq> None \<or> ar_paths ar \<noteq> [])")
    case True
    then have "2 * length (ar_paths (ThreadFunction_step ar)) + (if ar_current (ThreadFunction_step ar) = None then 0 else 1) < n"
      using Suc.prems(1) by (auto split: option.splits list.splits)
    then show ?thesis using Suc.IH v by simp
  next
    case False
    then have idle: "ar_current ar = None" "ar_paths ar = []" using Suc.prems(2) by (auto simp: restorecon_inv_def)
    let ?a = "ar\<lparr>ar_started := False\<rparr>"
    have "ThreadFunction_step ar = ?a" using idle by simp
    moreover have "ThreadFunction_step ?a = ?a" by simp
    then have "fold restorecon_step (replicate k ThreadRuns) ?a = ?a" for k
      by (induction k) (simp_all del: ThreadFunction_step.simps)
    ultimately show ?thesis using idle Suc.prems(2)
      by (simp del: ThreadFunction_step.simps add: restorecon_inv_def)
  qed
qed simp

section \<open>Properties\<close>

text \<open>
  C9: A connection changes the property area at most at one name, and then the name and the
  value are legal, it is no control message, SELinux lets the peer set that property, the value
  has its declared type, and the name is new or not read-only. Otherwise nothing changes.
\<close>

theorem request_guarded:
  assumes "handle_property_set_fd env cred context c st = Some st'"
  shows "ps_store st' = ps_store st \<or>
    (\<exists>n v src target.
       context = Some src \<and> ps_store st' = (ps_store st)(n \<mapsto> v) \<and>
       IsLegalPropertyName n \<and> ok (IsLegalPropertyValue (pe_lb env) (pe_utf8 env) n v) \<and>
       \<not> StartsWith (pe_lb env) n ''ctl.'' \<and>
       fst (pe_info env n) = Some target \<and> pe_mac env src target \<and>
       CheckType (pe_lb env) (snd (pe_info env n)) v \<and>
       \<not> (StartsWith (pe_lb env) n ''ro.'' \<and> n \<in> dom (ps_store st)))"
  using handle_store [OF assms]
  unfolding one_request_def set_permitted_def stores_def CheckMacPerms_def
  by (fastforce split: option.splits)

text \<open>
  C12: A read-only property, once set, keeps its value whatever init and its clients do afterwards.
\<close>

theorem ro_write_once:
  assumes "property_steps env st st'" "StartsWith (pe_lb env) m ''ro.''" "ps_store st m = Some w"
  shows "ps_store st' m = Some w"
  using assms by (rule property_steps_ro)

text \<open>
  C28: From an empty property area on, every property has a legal name and a UTF-8 value, which
  is shorter than 92 bytes unless the property is read-only.
\<close>

theorem property_area_typed:
  assumes "property_steps env st st'" "ps_store st = Map.empty" "ps_store st' n = Some v"
  shows "IsLegalPropertyName n \<and> pe_utf8 env v \<and> (length v < PROP_VALUE_MAX \<or> StartsWith (pe_lb env) n ''ro.'')"
proof -
  have "store_wf env st'" using property_steps_wf [OF assms(1)] assms(2) by (simp add: store_wf_def)
  then have "IsLegalPropertyName n \<and> ok (IsLegalPropertyValue (pe_lb env) (pe_utf8 env) n v)"
    using assms(3) by (simp add: store_wf_def)
  then show ?thesis by (auto simp: IsLegalPropertyValue_def split: if_splits)
qed


text \<open>
  C34: No request for a recursive restorecon is lost, whatever the interleaving with the thread:
  after any sequence of requests and thread steps, twice as many thread steps as there are
  requests, and one more, relabel every requested path, in the order of the requests.
\<close>

theorem restorecon_not_lost:
  "ar_done (fold restorecon_step (es @ replicate (2 * length (triggered es) + 2) ThreadRuns) restorecon_idle) = triggered es"
proof -
  have "restorecon_inv (triggered es) (fold restorecon_step es restorecon_idle)" (is "restorecon_inv _ ?ar")
    using restorecon_run_inv [of "[]" restorecon_idle es] by (simp add: restorecon_inv_def restorecon_idle_def)
  moreover from this have "length (ar_paths ?ar) \<le> length (triggered es)"
    by (simp add: restorecon_inv_def)
  ultimately show ?thesis using restorecon_drains [of ?ar "2 * length (triggered es) + 2" "triggered es"] by auto
qed

section \<open>Witnesses\<close>

definition sample_prop_env :: prop_env where
  "sample_prop_env =
     \<lparr>pe_lb = ref_libbase, pe_utf8 = \<lambda>_. True, pe_info = \<lambda>_. (Some ''u:object_r:p:s0'', ''bool''),
      pe_mac = \<lambda>src _. src = ''shell'', pe_mac_read = \<lambda>_ _. True, pe_version = 30, pe_add = \<lambda>_. True,
      pe_userspace_reboot = False\<rparr>"

definition sample_prop_state :: prop_state where
  "sample_prop_state =
     \<lparr>ps_store = Map.empty, persistent_properties_loaded = False, accept_messages = True,
      pending_control_messages = [], ps_out = []\<rparr>"

definition sample_client :: connection where
  "sample_client =
     \<lparr>polls = [Ready 0, Ready 1, Ready 0, Interrupted 3, Ready 0, Ready 0],
      recvs = [RecvBytes [CHR 0x01, CHR 0x00, CHR 0x02, CHR 0x00], RecvBytes [CHR 0x04, CHR 0x00, CHR 0x00, CHR 0x00],
               RecvBytes ''ro.a'', RecvBytes [CHR 0x01, CHR 0x00, CHR 0x00, CHR 0x00], RecvBytes ''1''],
      timeout_ms = 0\<rparr>"

lemma sample_request:
  "\<exists>st'. handle_property_set_fd sample_prop_env (Some \<lparr>cr_pid = 7, cr_uid = 0, cr_gid = 0\<rparr>) (Some ''shell'')
     sample_client sample_prop_state = Some st' \<and> ps_store st' = [''ro.a'' \<mapsto> ''1'']"
  by (simp add: sample_client_def handle_property_set_fd_def RecvUint32_def RecvString_def RecvFully.simps
      kDefaultSocketTimeout_def code_of_def setprop2_request_def sample_prop_env_def HandlePropertySet_def
      CheckPermissions_def CheckMacPerms_def CheckType_def IsLegalPropertyName_def sample_prop_state_def
      PropertySet_def store_property_def IsLegalPropertyValue_def ref_libbase_def kRestoreconProperty_def emit_def
      legal_char_def c_islower_def c_isdigit_def upt_rec Let_def)


abbreviation sample_cred :: ucred where
  "sample_cred \<equiv> \<lparr>cr_pid = 7, cr_uid = 0, cr_gid = 0\<rparr>"

theorem request_guarded_witness:
  "\<exists>st' n. handle_property_set_fd sample_prop_env (Some sample_cred) (Some ''shell'') sample_client sample_prop_state = Some st' \<and>
     ps_store st' n = Some ''1'' \<and> IsLegalPropertyName n"
proof -
  obtain st' where st': "handle_property_set_fd sample_prop_env (Some sample_cred) (Some ''shell'')
     sample_client sample_prop_state = Some st'" "ps_store st' = [''ro.a'' \<mapsto> ''1'']"
    using sample_request by blast
  from request_guarded [OF st'(1)] obtain n v where "ps_store st' = [n \<mapsto> v]" "IsLegalPropertyName n"
    using st'(2) by (auto simp: sample_prop_state_def)
  moreover from this(1) st'(2) have "v = ''1''" by (metis fun_upd_same fun_upd_other option.distinct(1) option.inject)
  ultimately show ?thesis using st'(1) by auto
qed

theorem ro_write_once_witness:
  "ps_store (snd (PropertySet sample_prop_env ''ro.a'' ''1'' (sample_prop_state\<lparr>ps_store := [''ro.a'' \<mapsto> ''0'']\<rparr>))) ''ro.a'' = Some ''0''"
proof (rule ro_write_once)
  show "property_steps sample_prop_env (sample_prop_state\<lparr>ps_store := [''ro.a'' \<mapsto> ''0'']\<rparr>)
     (snd (PropertySet sample_prop_env ''ro.a'' ''1'' (sample_prop_state\<lparr>ps_store := [''ro.a'' \<mapsto> ''0'']\<rparr>)))"
    by (rule property_steps.more [OF property_steps.none property_step.internal_set [OF prod.collapse [symmetric]]])
qed (simp_all add: sample_prop_env_def ref_libbase_def)

theorem property_area_typed_witness:
  "\<exists>st'. property_steps sample_prop_env sample_prop_state st' \<and> ps_store st' ''ro.a'' = Some ''1'' \<and> IsLegalPropertyName ''ro.a''"
proof -
  obtain st' where st': "handle_property_set_fd sample_prop_env (Some sample_cred) (Some ''shell'')
     sample_client sample_prop_state = Some st'" "ps_store st' = [''ro.a'' \<mapsto> ''1'']"
    using sample_request by blast
  have "property_steps sample_prop_env sample_prop_state st'"
    by (rule property_steps.more [OF property_steps.none property_step.client [OF st'(1)]])
  then show ?thesis using property_area_typed [of sample_prop_env sample_prop_state st' "''ro.a''" "''1''"] st'(2)
    by (auto simp: sample_prop_state_def)
qed


end
