(* ===== verification/Property_Files.thy ===== *)
theory Property_Files
  imports Property_Service Action_Parser
begin

text \<open>
  The second half of \<^verbatim>\<open>init/property_service.cpp\<close>: property files and their imports, the order in
  which the partitions are read, the properties derived from others, the properties of the kernel,
  and the start of the property area. A file that imports itself is read for ever, so reading has
  fuel; \<^verbatim>\<open>LOG(FATAL)\<close> and \<^verbatim>\<open>CHECK\<close> end the process and are errors here.
\<close>

section \<open>Surroundings\<close>

datatype access_answer = Accessible | NoEntry | NotPermitted

type_synonym props = "(string \<times> string) list"

text \<open>\<open>le_lookup\<close> is the property area while the files are read.\<close>

record load_env =
  le_env :: prop_env
  le_read :: "string \<Rightarrow> open_file option"
  le_access :: "string \<Rightarrow> access_answer"
  le_lookup :: "string \<Rightarrow> string"

section \<open>One property file\<close>

definition kVendorPathPrefixes :: "string list" where
  "kVendorPathPrefixes = [''/vendor'', ''/odm'', ''/vendor_dlkm'', ''/odm_dlkm'']"

definition load_context :: "load_env \<Rightarrow> string \<Rightarrow> string" where
  "load_context env filename =
     (if pe_version (le_env env) \<ge> API_P \<and> list_ex (StartsWith (pe_lb (le_env env)) filename) kVendorPathPrefixes
      then kVendorContext else kInitContext)"

text \<open>\<^verbatim>\<open>while ((tmp > key) && isspace(*tmp)) *tmp-- = 0\<close>: the first character always stays.\<close>

fun rtrim :: "string \<Rightarrow> string" where
  "rtrim [] = []"
| "rtrim (c # s) = c # rev (dropWhile c_isspace (rev s))"

text \<open>The lines of a C string that end in a newline.\<close>

fun lines_from :: "string \<Rightarrow> string \<Rightarrow> string list" where
  "lines_from cur [] = []"
| "lines_from cur (c # s) = (if c = LF then rev cur # lines_from [] s else lines_from (c # cur) s)"

definition filter_len :: "string option \<Rightarrow> nat" where
  "filter_len flt = (case flt of None \<Rightarrow> 0 | Some f \<Rightarrow> length f)"

definition passes_filter :: "string option \<Rightarrow> string \<Rightarrow> bool" where
  "passes_filter flt key =
     (case flt of
        None \<Rightarrow> True
      | Some f \<Rightarrow>
          if f = [] then True
          else if last f = CHR ''*'' then take (length f - 1) key = butlast f
          else key = f)"

definition special_property :: "libbase \<Rightarrow> string \<Rightarrow> bool" where
  "special_property lb key = (StartsWith lb key ''ctl.'' \<or> key = ''sys.powerctl'' \<or> key = kRestoreconProperty)"

definition file_property :: "load_env \<Rightarrow> string option \<Rightarrow> string \<Rightarrow> string \<Rightarrow> string \<Rightarrow> props \<Rightarrow> props" where
  "file_property env flt filename key v m =
     (if \<not> passes_filter flt key then m
      else if special_property (pe_lb (le_env env)) key then m
      else if CheckPermissions (le_env env) key v (load_context env filename) = PROP_SUCCESS then map_insert key v m
      else m)"

definition import_args :: "string \<Rightarrow> string \<times> string option" where
  "import_args rest =
     (let fn = dropWhile c_isspace rest
      in case find_char SPACE fn of
           None \<Rightarrow> (fn, None)
         | Some i \<Rightarrow> (take i fn, Some (dropWhile c_isspace (drop (i + 1) fn))))"

type_synonym loader = "string \<Rightarrow> string option \<Rightarrow> props \<Rightarrow> (bool \<times> props) option"

datatype file_line = SkippedLine | ImportLine string "string option" | AssignLine string string

definition read_line :: "load_env \<Rightarrow> string option \<Rightarrow> string \<Rightarrow> file_line" where
  "read_line env flt line =
     (let key = dropWhile c_isspace line
      in if key \<noteq> [] \<and> hd key = CHR ''#'' then SkippedLine
         else
           (let key = rtrim key
            in if take 7 key = ''import '' \<and> filter_len flt = 0 then
                 (case import_args (drop 7 key) of
                    (raw_filename, imported) \<Rightarrow>
                      (case ExpandProps (le_lookup env) (pe_version (le_env env)) raw_filename of
                         Inl _ \<Rightarrow> SkippedLine
                       | Inr expanded \<Rightarrow> ImportLine (c_str expanded) imported))
               else
                 (case find_char (CHR ''='') key of
                    None \<Rightarrow> SkippedLine
                  | Some i \<Rightarrow> AssignLine (rtrim (take i key)) (dropWhile c_isspace (drop (i + 1) key)))))"

definition property_line :: "load_env \<Rightarrow> loader \<Rightarrow> string option \<Rightarrow> string \<Rightarrow> string \<Rightarrow> props \<Rightarrow> props option" where
  "property_line env load flt filename line m =
     (case read_line env flt line of
        SkippedLine \<Rightarrow> Some m
      | ImportLine fn imported \<Rightarrow> map_option snd (load fn imported m)
      | AssignLine key v \<Rightarrow> Some (file_property env flt filename key v m))"

fun load_lines :: "load_env \<Rightarrow> loader \<Rightarrow> string option \<Rightarrow> string \<Rightarrow> string list \<Rightarrow> props \<Rightarrow> props option" where
  "load_lines env load flt filename [] m = Some m"
| "load_lines env load flt filename (l # ls) m =
     (case property_line env load flt filename l m of
        None \<Rightarrow> None
      | Some m \<Rightarrow> load_lines env load flt filename ls m)"

definition LoadProperties :: "load_env \<Rightarrow> loader \<Rightarrow> string \<Rightarrow> string option \<Rightarrow> string \<Rightarrow> props \<Rightarrow> props option" where
  "LoadProperties env load data flt filename m = load_lines env load flt filename (lines_from [] (c_str data)) m"

fun load_properties_from_file :: "load_env \<Rightarrow> nat \<Rightarrow> loader" where
  "load_properties_from_file env 0 filename flt m = None"
| "load_properties_from_file env (Suc n) filename flt m =
     (case ReadFile (le_read env) filename of
        Inl _ \<Rightarrow> Some (False, m)
      | Inr content \<Rightarrow>
          map_option (Pair True) (LoadProperties env (load_properties_from_file env n) (content @ [LF]) flt filename m))"

section \<open>The partitions\<close>

type_synonym load_step = "props \<Rightarrow> props result option"

definition load_file :: "load_env \<Rightarrow> nat \<Rightarrow> string \<Rightarrow> load_step" where
  "load_file env n filename m = map_option (\<lambda>(_, m). Ok m) (load_properties_from_file env n filename None m)"

definition GetRamdiskPropForSecondStage :: string where
  "GetRamdiskPropForSecondStage = ''/second_stage_resources'' @ ''/system/etc/ramdisk/build.prop''"

definition LoadPropertiesFromSecondStageRes :: "load_env \<Rightarrow> nat \<Rightarrow> load_step" where
  "LoadPropertiesFromSecondStageRes env n m =
     (case le_access env GetRamdiskPropForSecondStage of
        Accessible \<Rightarrow> load_file env n GetRamdiskPropForSecondStage m
      | NoEntry \<Rightarrow> Some (Ok m)
      | NotPermitted \<Rightarrow> Some (Err (ErrnoError (''Cannot access '' @ GetRamdiskPropForSecondStage))))"

abbreviation INT_MIN :: int where "INT_MIN \<equiv> - 2147483648"
abbreviation INT_MAX :: int where "INT_MAX \<equiv> 2147483647"

definition supports_legacy_path :: "load_env \<Rightarrow> string \<Rightarrow> int \<Rightarrow> props \<Rightarrow> bool" where
  "supports_legacy_path env part support_legacy_path_until temp =
     (case map_of temp (''ro.'' @ part @ ''.build.version.sdk'') of
        None \<Rightarrow> True
      | Some v \<Rightarrow>
          (case ParseInt (pe_lb (le_env env)) (c_str v) INT_MIN INT_MAX of
             None \<Rightarrow> False
           | Some sdk \<Rightarrow> sdk \<le> support_legacy_path_until))"

fun run_loads :: "load_step list \<Rightarrow> load_step" where
  "run_loads [] m = Some (Ok m)"
| "run_loads (l # ls) m =
     (case l m of None \<Rightarrow> None | Some (Inl e) \<Rightarrow> Some (Inl e) | Some (Inr m) \<Rightarrow> run_loads ls m)"

definition load_properties_from_partition :: "load_env \<Rightarrow> nat \<Rightarrow> string \<Rightarrow> int \<Rightarrow> load_step" where
  "load_properties_from_partition env n part support_legacy_path_until m =
     (case load_properties_from_file env n (''/'' @ part @ ''/etc/build.prop'') None m of
        None \<Rightarrow> None
      | Some (True, m) \<Rightarrow> Some (Ok m)
      | Some (False, m) \<Rightarrow>
          (let legacy = [load_file env n (''/'' @ part @ ''/default.prop''), load_file env n (''/'' @ part @ ''/build.prop'')]
           in case run_loads legacy [] of
                None \<Rightarrow> None
              | Some (Inl e) \<Rightarrow> Some (Inl e)
              | Some (Inr temp) \<Rightarrow>
                  if supports_legacy_path env part support_legacy_path_until temp then run_loads legacy m
                  else Some (Err (Error (''/'' @ part @ ''/default.prop were not loaded'')))))"

definition kDebugRamdiskProp :: string where
  "kDebugRamdiskProp = ''/debug_ramdisk/adb_debug.prop''"

definition boot_loads :: "load_env \<Rightarrow> nat \<Rightarrow> bool \<Rightarrow> load_step list" where
  "boot_loads env n recovery =
     (if recovery then [load_file env n ''/prop.default''] else []) @
     [LoadPropertiesFromSecondStageRes env n,
      load_file env n ''/system/build.prop'',
      load_properties_from_partition env n ''system_ext'' 30,
      load_file env n ''/vendor/default.prop'',
      load_file env n ''/vendor/build.prop'',
      load_file env n ''/vendor_dlkm/etc/build.prop'',
      load_file env n ''/odm_dlkm/etc/build.prop'',
      load_properties_from_partition env n ''odm'' 28,
      load_properties_from_partition env n ''product'' 30] @
     (if le_access env kDebugRamdiskProp = Accessible then [load_file env n kDebugRamdiskProp] else [])"

definition set_all :: "prop_env \<Rightarrow> props \<Rightarrow> prop_state \<Rightarrow> prop_state" where
  "set_all env m st = fold (\<lambda>(n, v) st. snd (PropertySet env n v st)) m st"


section \<open>Derived properties\<close>

definition RO_PRODUCT_PROPS :: "string list" where
  "RO_PRODUCT_PROPS = [''brand'', ''device'', ''manufacturer'', ''model'', ''name'']"

definition RO_PRODUCT_PROPS_ALLOWED_SOURCES :: "string list" where
  "RO_PRODUCT_PROPS_ALLOWED_SOURCES = [''odm'', ''product'', ''system_ext'', ''system'', ''vendor'']"

definition RO_PRODUCT_PROPS_DEFAULT_SOURCE_ORDER :: string where
  "RO_PRODUCT_PROPS_DEFAULT_SOURCE_ORDER = ''product,odm,vendor,system_ext,system''"

definition product_source_order :: "prop_env \<Rightarrow> prop_state \<Rightarrow> string" where
  "product_source_order env st =
     (let order = GetProperty st ''ro.product.property_source_order'' []
      in if order \<noteq> [] \<and> list_all (\<lambda>s. s \<in> set RO_PRODUCT_PROPS_ALLOWED_SOURCES) (Split (pe_lb env) order '','')
         then order else RO_PRODUCT_PROPS_DEFAULT_SOURCE_ORDER)"

fun first_product_source :: "prop_env \<Rightarrow> string \<Rightarrow> string list \<Rightarrow> prop_state \<Rightarrow> prop_state" where
  "first_product_source env prop [] st = st"
| "first_product_source env prop (source # rest) st =
     (let v = GetProperty st (''ro.product.'' @ source @ ''.'' @ prop) []
      in if v \<noteq> [] then snd (PropertySet env (''ro.product.'' @ prop) v st)
         else first_product_source env prop rest st)"

definition property_initialize_ro_product_props :: "prop_env \<Rightarrow> prop_state \<Rightarrow> prop_state" where
  "property_initialize_ro_product_props env st =
     (let order = product_source_order env st
      in fold (\<lambda>prop st. if GetProperty st (''ro.product.'' @ prop) [] \<noteq> [] then st
                         else first_product_source env prop (Split (pe_lb env) order '','') st)
           RO_PRODUCT_PROPS st)"

definition FINGERPRINT_PROP :: string where "FINGERPRINT_PROP = ''ro.build.fingerprint''"
definition LEGACY_FINGERPRINT_PROP :: string where "LEGACY_FINGERPRINT_PROP = ''ro.build.legacy.fingerprint''"
definition ID_PROP :: string where "ID_PROP = ''ro.build.id''"
definition LEGACY_ID_PROP :: string where "LEGACY_ID_PROP = ''ro.build.legacy.id''"
definition VBMETA_DIGEST_PROP :: string where "VBMETA_DIGEST_PROP = ''ro.boot.vbmeta.digest''"
definition DIGEST_SIZE_USED :: nat where "DIGEST_SIZE_USED = 8"

definition property_initialize_build_id :: "prop_env \<Rightarrow> prop_state \<Rightarrow> prop_state" where
  "property_initialize_build_id env st =
     (if GetProperty st ID_PROP [] \<noteq> [] then st
      else
        (let legacy_build_id = GetProperty st LEGACY_ID_PROP [];
             vbmeta_digest = GetProperty st VBMETA_DIGEST_PROP [];
             build_id = (if length vbmeta_digest < DIGEST_SIZE_USED then legacy_build_id
                         else legacy_build_id @ ''.'' @ take DIGEST_SIZE_USED vbmeta_digest)
         in snd (PropertySet env ID_PROP build_id st)))"

definition ConstructBuildFingerprint :: "bool \<Rightarrow> prop_state \<Rightarrow> string" where
  "ConstructBuildFingerprint legacy st =
     (let get = (\<lambda>n. GetProperty st n ''unknown'')
      in get ''ro.product.brand'' @ ''/'' @ get ''ro.product.name'' @ ''/'' @ get ''ro.product.device'' @ '':'' @
         get ''ro.build.version.release_or_codename'' @ ''/'' @
         (if legacy then get LEGACY_ID_PROP else get ID_PROP) @ ''/'' @
         get ''ro.build.version.incremental'' @ '':'' @ get ''ro.build.type'' @ ''/'' @ get ''ro.build.tags'')"

definition property_derive_legacy_build_fingerprint :: "prop_env \<Rightarrow> prop_state \<Rightarrow> prop_state" where
  "property_derive_legacy_build_fingerprint env st =
     (if GetProperty st LEGACY_FINGERPRINT_PROP [] \<noteq> [] then st
      else if GetProperty st LEGACY_ID_PROP [] = [] then st
      else snd (PropertySet env LEGACY_FINGERPRINT_PROP (ConstructBuildFingerprint True st) st))"

definition property_derive_build_fingerprint :: "prop_env \<Rightarrow> prop_state \<Rightarrow> prop_state" where
  "property_derive_build_fingerprint env st =
     (if GetProperty st ''ro.build.fingerprint'' [] \<noteq> [] then st
      else snd (PropertySet env FINGERPRINT_PROP (ConstructBuildFingerprint False st) st))"

definition kAbilistSources :: "string list" where
  "kAbilistSources = [''product'', ''odm'', ''vendor'', ''system'']"

text \<open>The lists of the first source that has one; both empty when none has.\<close>

fun abilist_source :: "string list \<Rightarrow> prop_state \<Rightarrow> string \<times> string" where
  "abilist_source [] st = ([], [])"
| "abilist_source (source # rest) st =
     (let abilist32 = GetProperty st (''ro.'' @ source @ ''.product.cpu.abilist32'') [];
          abilist64 = GetProperty st (''ro.'' @ source @ ''.product.cpu.abilist64'') []
      in if abilist32 \<noteq> [] \<or> abilist64 \<noteq> [] then (abilist32, abilist64) else abilist_source rest st)"

definition property_initialize_ro_cpu_abilist :: "prop_env \<Rightarrow> prop_state \<Rightarrow> prop_state" where
  "property_initialize_ro_cpu_abilist env st =
     (if GetProperty st ''ro.product.cpu.abilist'' [] \<noteq> [] then st
      else
        (case abilist_source kAbilistSources st of
           (abilist32, abilist64) \<Rightarrow>
             (let abilist = abilist64 @ (if abilist32 \<noteq> [] then (if abilist64 \<noteq> [] then '','' else []) @ abilist32 else [])
              in set_all env
                   [(''ro.product.cpu.abilist'', abilist), (''ro.product.cpu.abilist32'', abilist32),
                    (''ro.product.cpu.abilist64'', abilist64)] st)))"

text \<open>\<open>ParseBool\<close> is the library's; \<open>None\<close> for a text that is neither.\<close>

definition GetBoolProperty :: "(string \<Rightarrow> bool option) \<Rightarrow> prop_state \<Rightarrow> string \<Rightarrow> bool \<Rightarrow> bool" where
  "GetBoolProperty ParseBool st name dflt = (case ParseBool (GetProperty st name []) of None \<Rightarrow> dflt | Some b \<Rightarrow> b)"

definition update_sys_usb_config :: "(string \<Rightarrow> bool option) \<Rightarrow> prop_env \<Rightarrow> prop_state \<Rightarrow> prop_state" where
  "update_sys_usb_config ParseBool env st =
     (let is_debuggable = GetBoolProperty ParseBool st ''ro.debuggable'' False;
          config = GetProperty st ''persist.sys.usb.config'' []
      in if config = [] \<or> config = ''none'' then
           snd (InitPropertySet env ''persist.sys.usb.config'' (if is_debuggable then ''adb'' else ''none'') st)
         else if is_debuggable \<and> find_str ''adb'' config = None \<and> length config + 4 < PROP_VALUE_MAX then
           snd (InitPropertySet env ''persist.sys.usb.config'' (config @ '',adb'') st)
         else st)"

section \<open>Loading at boot\<close>

record boot_sources =
  bs_read :: "string \<Rightarrow> open_file option"
  bs_access :: "string \<Rightarrow> access_answer"
  bs_recovery :: bool
  bs_parse_bool :: "string \<Rightarrow> bool option"
  bs_allow_override :: bool

definition load_env_of :: "prop_env \<Rightarrow> boot_sources \<Rightarrow> prop_state \<Rightarrow> load_env" where
  "load_env_of env bs st =
     \<lparr>le_env = env, le_read = bs_read bs, le_access = bs_access bs, le_lookup = \<lambda>n. GetProperty st n []\<rparr>"

definition derive_properties :: "(string \<Rightarrow> bool option) \<Rightarrow> prop_env \<Rightarrow> prop_state \<Rightarrow> prop_state" where
  "derive_properties ParseBool env st =
     update_sys_usb_config ParseBool env
       (property_initialize_ro_cpu_abilist env
         (property_derive_legacy_build_fingerprint env
           (property_derive_build_fingerprint env
             (property_initialize_build_id env
               (property_initialize_ro_product_props env st)))))"

definition PropertyLoadBootDefaults :: "prop_env \<Rightarrow> boot_sources \<Rightarrow> nat \<Rightarrow> prop_state \<Rightarrow> prop_state result option" where
  "PropertyLoadBootDefaults env bs n st =
     (case run_loads (boot_loads (load_env_of env bs st) n (bs_recovery bs)) [] of
        None \<Rightarrow> None
      | Some (Inl e) \<Rightarrow> Some (Inl e)
      | Some (Inr properties) \<Rightarrow> Some (Ok (derive_properties (bs_parse_bool bs) env (set_all env properties st))))"

definition load_override_properties :: "prop_env \<Rightarrow> boot_sources \<Rightarrow> nat \<Rightarrow> prop_state \<Rightarrow> prop_state option" where
  "load_override_properties env bs n st =
     (if bs_allow_override bs then
        map_option (\<lambda>(_, m). set_all env m st)
          (load_properties_from_file (load_env_of env bs st) n ''/data/local.prop'' None [])
      else Some st)"

section \<open>Properties of the kernel\<close>

definition kernel_prop_map :: "(string \<times> string \<times> string) list" where
  "kernel_prop_map =
     [(''ro.boot.serialno'', ''ro.serialno'', []), (''ro.boot.mode'', ''ro.bootmode'', ''unknown''),
      (''ro.boot.baseband'', ''ro.baseband'', ''unknown''), (''ro.boot.bootloader'', ''ro.bootloader'', ''unknown''),
      (''ro.boot.hardware'', ''ro.hardware'', ''unknown''), (''ro.boot.revision'', ''ro.revision'', ''0'')]"

definition ExportKernelBootProps :: "prop_env \<Rightarrow> prop_state \<Rightarrow> prop_state" where
  "ExportKernelBootProps env st =
     fold (\<lambda>(src_prop, dst_prop, default_value) st.
             let v = GetProperty st src_prop default_value
             in if v \<noteq> [] then snd (InitPropertySet env dst_prop v st) else st) kernel_prop_map st"

text \<open>
  The device tree directory: its entries with whether they are regular files, \<open>None\<close> when it does
  not open, and their contents.
\<close>

record kernel_sources =
  ks_dt_dir :: string
  ks_dt_entries :: "(string \<times> bool) list option"
  ks_read :: "string \<Rightarrow> string option"
  ks_cmdline :: string
  ks_bootconfig :: string

definition dt_properties :: "kernel_sources \<Rightarrow> props" where
  "dt_properties ks =
     (if \<not> is_android_dt_value_expected (ks_read ks) (ks_dt_dir ks) ''compatible'' ''android,firmware'' then []
      else
        (case ks_dt_entries ks of
           None \<Rightarrow> []
         | Some entries \<Rightarrow>
             map (\<lambda>(name, _). (''ro.boot.'' @ name,
                    map (\<lambda>c. if c = CHR '','' then CHR ''.'' else c) (case ks_read ks (ks_dt_dir ks @ name) of None \<Rightarrow> [] | Some s \<Rightarrow> s)))
               (filter (\<lambda>(name, reg). \<not> (\<not> reg \<or> name = ''compatible'' \<or> name = ''name'')) entries)))"

definition ANDROIDBOOT_PREFIX :: string where "ANDROIDBOOT_PREFIX = ''androidboot.''"

definition androidboot_properties :: "libbase \<Rightarrow> (string \<times> string) list \<Rightarrow> props" where
  "androidboot_properties lb kvs =
     map (\<lambda>(key, v). (''ro.boot.'' @ drop (length ANDROIDBOOT_PREFIX) key, v))
       (filter (\<lambda>(key, v). StartsWith lb key ANDROIDBOOT_PREFIX) kvs)"

definition init_set_all :: "prop_env \<Rightarrow> props \<Rightarrow> prop_state \<Rightarrow> prop_state" where
  "init_set_all env m st = fold (\<lambda>(n, v) st. snd (InitPropertySet env n v st)) m st"

definition ProcessKernelDt :: "prop_env \<Rightarrow> kernel_sources \<Rightarrow> prop_state \<Rightarrow> prop_state" where
  "ProcessKernelDt env ks st = init_set_all env (dt_properties ks) st"

definition ProcessKernelCmdline :: "prop_env \<Rightarrow> kernel_sources \<Rightarrow> prop_state \<Rightarrow> prop_state" where
  "ProcessKernelCmdline env ks st =
     init_set_all env (androidboot_properties (pe_lb env) (ImportKernelCmdline (pe_lb env) (ks_cmdline ks))) st"

definition ProcessBootconfig :: "prop_env \<Rightarrow> kernel_sources \<Rightarrow> prop_state \<Rightarrow> prop_state" where
  "ProcessBootconfig env ks st =
     init_set_all env (androidboot_properties (pe_lb env) (ImportBootconfig (pe_lb env) (ks_bootconfig ks))) st"


section \<open>The property contexts\<close>

text \<open>
  \<open>pc_parse\<close> is \<^verbatim>\<open>ParsePropertyInfoFile\<close> and \<open>pc_trie\<close> \<^verbatim>\<open>BuildTrie\<close> with its default context and
  type, both of libraries; \<open>pc_exists\<close> is \<^verbatim>\<open>access(\<dots>, R_OK) != -1\<close>.
\<close>

record 'i property_contexts =
  pc_read :: "string \<Rightarrow> string option"
  pc_exists :: "string \<Rightarrow> bool"
  pc_parse :: "bool \<Rightarrow> string \<Rightarrow> 'i list"
  pc_trie :: "'i list \<Rightarrow> string \<Rightarrow> string \<Rightarrow> string option"

definition LoadPropertyInfoFromFile :: "'i property_contexts \<Rightarrow> int \<Rightarrow> string \<Rightarrow> 'i list \<Rightarrow> bool \<times> 'i list" where
  "LoadPropertyInfoFromFile pc version filename property_infos =
     (case pc_read pc filename of
        None \<Rightarrow> (False, property_infos)
      | Some content \<Rightarrow> (True, property_infos @ pc_parse pc (version \<ge> API_R) content))"

text \<open>One file, a file with a fallback, and a file that is read only if it is there.\<close>

definition info_file :: "'i property_contexts \<Rightarrow> int \<Rightarrow> string \<Rightarrow> 'i list \<Rightarrow> 'i list" where
  "info_file pc version f is = snd (LoadPropertyInfoFromFile pc version f is)"

definition info_file_or :: "'i property_contexts \<Rightarrow> int \<Rightarrow> string \<Rightarrow> string \<Rightarrow> 'i list \<Rightarrow> 'i list" where
  "info_file_or pc version f g is =
     (case LoadPropertyInfoFromFile pc version f is of
        (True, is) \<Rightarrow> is
      | (False, is) \<Rightarrow> info_file pc version g is)"

definition info_file_if :: "'i property_contexts \<Rightarrow> int \<Rightarrow> string \<Rightarrow> 'i list \<Rightarrow> 'i list" where
  "info_file_if pc version f is = (if pc_exists pc f then info_file pc version f is else is)"

definition property_infos :: "'i property_contexts \<Rightarrow> int \<Rightarrow> 'i list option" where
  "property_infos pc version =
     (if pc_exists pc ''/system/etc/selinux/plat_property_contexts'' then
        (case LoadPropertyInfoFromFile pc version ''/system/etc/selinux/plat_property_contexts'' [] of
           (False, _) \<Rightarrow> None
         | (True, is) \<Rightarrow>
             Some (info_file_if pc version ''/odm/etc/selinux/odm_property_contexts''
               (info_file_if pc version ''/product/etc/selinux/product_property_contexts''
                 (info_file_or pc version ''/vendor/etc/selinux/vendor_property_contexts'' ''/vendor/etc/selinux/nonplat_property_contexts''
                   (info_file_if pc version ''/system_ext/etc/selinux/system_ext_property_contexts'' is)))))
      else
        (case LoadPropertyInfoFromFile pc version ''/plat_property_contexts'' [] of
           (False, _) \<Rightarrow> None
         | (True, is) \<Rightarrow>
             Some (info_file pc version ''/odm_property_contexts''
               (info_file pc version ''/product_property_contexts''
                 (info_file_or pc version ''/vendor_property_contexts'' ''/nonplat_property_contexts''
                   (info_file pc version ''/system_ext_property_contexts'' is))))))"

text \<open>The contents written to \<^verbatim>\<open>/dev/__properties__/property_info\<close>, if any.\<close>

definition CreateSerializedPropertyInfo :: "'i property_contexts \<Rightarrow> int \<Rightarrow> string option" where
  "CreateSerializedPropertyInfo pc version =
     (case property_infos pc version of
        None \<Rightarrow> None
      | Some is \<Rightarrow> pc_trie pc is ''u:object_r:default_prop:s0'' ''string'')"

section \<open>The start of the property area\<close>

text \<open>
  \<open>area_init\<close> and \<open>info_loaded\<close> say whether the two calls of the C library succeed; the second
  reads the file written above.
\<close>

definition kernel_properties :: "prop_env \<Rightarrow> kernel_sources \<Rightarrow> prop_state \<Rightarrow> prop_state" where
  "kernel_properties env ks st =
     ExportKernelBootProps env (ProcessBootconfig env ks (ProcessKernelCmdline env ks (ProcessKernelDt env ks st)))"

definition PropertyInit ::
  "prop_env \<Rightarrow> boot_sources \<Rightarrow> kernel_sources \<Rightarrow> bool \<Rightarrow> bool \<Rightarrow> nat \<Rightarrow> prop_state \<Rightarrow> prop_state result option" where
  "PropertyInit env bs ks area_init info_loaded n st =
     (if \<not> area_init then Some (Err (Error ''Failed to initialize property area''))
      else if \<not> info_loaded then Some (Err (Error ''Failed to load serialized property info file''))
      else PropertyLoadBootDefaults env bs n (kernel_properties env ks st))"

section \<open>Files are overlaid in order\<close>

lemma map_of_map_insert [simp]: "map_of (map_insert k v m) = (map_of m)(k \<mapsto> v)"
  by (induction k v m rule: map_insert.induct) (auto simp: fun_eq_iff)

text \<open>
  The contract of everything that adds to the map: whether it ends, what it answers and what it
  adds do not depend on what is there, and what it adds wins.
\<close>

locale property_source =
  fixes load :: "props \<Rightarrow> ('a \<times> props) option"
  assumes ends: "load [] = None \<Longrightarrow> load m = None"
    and overlay: "load [] = Some (a, d) \<Longrightarrow> \<exists>m'. load m = Some (a, m') \<and> map_of m' = map_of m ++ map_of d"
begin

lemma adds:
  assumes "load m = Some (a, m')"
  shows "\<exists>d. load [] = Some (a, d) \<and> map_of m' = map_of m ++ map_of d"
proof (cases "load []")
  case None
  then show ?thesis using ends [of m] assms by simp
next
  case (Some p)
  then show ?thesis using overlay [of "fst p" "snd p" m] assms by (cases p) auto
qed

lemma wins: "load m = Some (a, m') \<Longrightarrow> load [] = Some (a, d) \<Longrightarrow> map_of d k = Some v \<Longrightarrow> map_of m' k = Some v"
  using adds [of m a m'] by auto

lemma keeps: "load m = Some (a, m') \<Longrightarrow> load [] = Some (a, d) \<Longrightarrow> map_of d k = None \<Longrightarrow> map_of m' k = map_of m k"
  using adds [of m a m'] by (auto simp: map_add_def)

end

lemma source_id: "property_source (\<lambda>m. Some (a, m))"
  by unfold_locales simp_all

lemma source_bind:
  assumes f: "property_source f" and g: "\<And>a. property_source (g a)"
  shows "property_source (\<lambda>m. case f m of None \<Rightarrow> None | Some (a, m) \<Rightarrow> g a m)"
proof (unfold_locales, goal_cases)
  case (1 m)
  show ?case
  proof (cases "f m")
    case (Some p)
    then obtain d where d: "f [] = Some (fst p, d)" using property_source.adds [OF f, of m "fst p" "snd p"] by auto
    then have "g (fst p) d = None" using 1 by simp
    then have "g (fst p) [] = None" using property_source.overlay [OF g, of "fst p" _ _ d] by (cases "g (fst p) []") auto
    then show ?thesis using Some property_source.ends [OF g, of "fst p" "snd p"] by (cases p) simp
  qed simp
next
  case (2 b d m)
  then obtain a c where c: "f [] = Some (a, c)" "g a c = Some (b, d)" by (auto split: option.splits)
  obtain e where e: "g a [] = Some (b, e)" "map_of d = map_of c ++ map_of e" using property_source.adds [OF g c(2)] by auto
  obtain m1 where m1: "f m = Some (a, m1)" "map_of m1 = map_of m ++ map_of c" using property_source.overlay [OF f c(1)] by auto
  obtain m2 where "g a m1 = Some (b, m2)" "map_of m2 = map_of m1 ++ map_of e" using property_source.overlay [OF g e(1)] by blast
  then show ?case using m1 e by auto
qed

text \<open>The other shapes a step has.\<close>

definition plain :: "(props \<Rightarrow> props option) \<Rightarrow> props \<Rightarrow> (unit \<times> props) option" where
  "plain l m = map_option (Pair ()) (l m)"

definition outcome :: "load_step \<Rightarrow> props \<Rightarrow> (init_error option \<times> props) option" where
  "outcome l m = map_option (\<lambda>r. case r of Inl e \<Rightarrow> (Some e, m) | Inr m' \<Rightarrow> (None, m')) (l m)"

lemma source_property: "property_source (plain (\<lambda>m. Some (file_property env flt f k v m)))"
  by unfold_locales (auto simp: plain_def file_property_def fun_eq_iff map_add_def)

lemma plain_simps:
  "plain Some = (\<lambda>m. Some ((), m))"
  "plain (\<lambda>m. map_option snd (l m)) = (\<lambda>m. case l m of None \<Rightarrow> None | Some (a, m) \<Rightarrow> Some ((), m))"
  "plain (\<lambda>m. case h m of None \<Rightarrow> None | Some m \<Rightarrow> q m) = (\<lambda>m. case plain h m of None \<Rightarrow> None | Some (a, m) \<Rightarrow> plain q m)"
  by (auto simp: plain_def fun_eq_iff split: option.split)

lemma source_snd: "property_source l \<Longrightarrow> property_source (plain (\<lambda>m. map_option snd (l m)))"
  unfolding plain_simps by (rule source_bind [OF _ source_id])

lemma source_line:
  assumes "\<And>f flt. property_source (load f flt)"
  shows "property_source (plain (property_line env load flt filename line))"
proof (cases "read_line env flt line")
  case SkippedLine
  then have "property_line env load flt filename line = Some" by (intro ext) (simp add: property_line_def)
  then show ?thesis using source_id by (simp add: plain_simps)
next
  case (ImportLine f g)
  then have "property_line env load flt filename line = (\<lambda>m. map_option snd (load f g m))"
    by (intro ext) (simp add: property_line_def)
  then show ?thesis using source_snd [OF assms] by simp
next
  case (AssignLine k v)
  then have "property_line env load flt filename line = (\<lambda>m. Some (file_property env flt filename k v m))"
    by (intro ext) (simp add: property_line_def)
  then show ?thesis using source_property by simp
qed

lemma source_lines:
  assumes "\<And>f flt. property_source (load f flt)"
  shows "property_source (plain (load_lines env load flt filename ls))"
proof (induction ls)
  case Nil
  have "load_lines env load flt filename [] = Some" by (rule ext) simp
  then show ?case using source_id by (simp add: plain_simps)
next
  case (Cons l ls)
  have "load_lines env load flt filename (l # ls) =
    (\<lambda>m. case property_line env load flt filename l m of None \<Rightarrow> None | Some m \<Rightarrow> load_lines env load flt filename ls m)"
    by (rule ext) simp
  then show ?case using source_bind [OF source_line [OF assms] Cons] by (simp only: plain_simps)
qed

lemma source_none: "property_source (\<lambda>m. None)"
  by unfold_locales simp_all

lemma source_file: "property_source (load_properties_from_file env n f flt)"
proof (induction n arbitrary: f flt)
  case 0
  have "load_properties_from_file env 0 f flt = (\<lambda>m. None)" by (rule ext) simp
  then show ?case using source_none by simp
next
  case (Suc n)
  show ?case
  proof (cases "ReadFile (le_read env) f")
    case (Inl e)
    then have "load_properties_from_file env (Suc n) f flt = (\<lambda>m. Some (False, m))" by (intro ext) simp
    then show ?thesis using source_id by simp
  next
    case (Inr s)
    let ?ls = "load_lines env (load_properties_from_file env n) flt f (lines_from [] (c_str (s @ [LF])))"
    have "load_properties_from_file env (Suc n) f flt =
      (\<lambda>m. case plain ?ls m of None \<Rightarrow> None | Some (a, m) \<Rightarrow> Some (True, m))"
      using Inr by (intro ext) (simp add: plain_def LoadProperties_def option.case_eq_if map_option_case)
    then show ?thesis using source_bind [OF source_lines [OF Suc] source_id] by simp
  qed
qed

interpretation file_source: property_source "load_properties_from_file env n f flt"
  by (rule source_file)

text \<open>A step that fails leaves the map as it was.\<close>

lemma source_rollback:
  assumes h: "property_source h"
  shows "property_source (\<lambda>m. case h m of None \<Rightarrow> None | Some (Some e, m') \<Rightarrow> Some (Some e, m) | Some (None, m') \<Rightarrow> Some (None, m'))"
proof (unfold_locales, goal_cases)
  case (1 m)
  then show ?case using property_source.ends [OF h, of m] by (cases "h []") (auto split: option.splits)
next
  case (2 a d m)
  then obtain b c where c: "h [] = Some (b, c)" by (cases "h []") auto
  then show ?case using property_source.overlay [OF h c, of m] 2 by (cases b) auto
qed

lemma source_load_file: "property_source (outcome (load_file env n f))"
proof -
  have "outcome (load_file env n f) =
    (\<lambda>m. case load_properties_from_file env n f None m of None \<Rightarrow> None | Some (a, m) \<Rightarrow> Some (None, m))"
    by (rule ext) (simp add: outcome_def load_file_def option.map_comp option.case_eq_if map_option_case comp_def split_beta)
  then show ?thesis using source_bind [OF source_file source_id] by simp
qed

lemma source_second_stage: "property_source (outcome (LoadPropertiesFromSecondStageRes env n))"
proof (cases "le_access env GetRamdiskPropForSecondStage")
  case Accessible
  then have "LoadPropertiesFromSecondStageRes env n = load_file env n GetRamdiskPropForSecondStage"
    by (intro ext) (simp add: LoadPropertiesFromSecondStageRes_def)
  then show ?thesis using source_load_file by simp
next
  case NoEntry
  then have "outcome (LoadPropertiesFromSecondStageRes env n) = (\<lambda>m. Some (None, m))"
    by (intro ext) (simp add: LoadPropertiesFromSecondStageRes_def outcome_def)
  then show ?thesis using source_id by simp
next
  case NotPermitted
  then have "\<exists>e. outcome (LoadPropertiesFromSecondStageRes env n) = (\<lambda>m. Some (Some e, m))"
    by (intro exI ext) (simp add: LoadPropertiesFromSecondStageRes_def outcome_def)
  then show ?thesis using source_id by auto
qed

lemma source_run:
  "list_all (\<lambda>l. property_source (outcome l)) ls \<Longrightarrow> property_source (outcome (run_loads ls))"
proof (induction ls)
  case Nil
  have "outcome (run_loads []) = (\<lambda>m. Some (None, m))" by (rule ext) (simp add: outcome_def)
  then show ?case using source_id by (simp only:)
next
  case (Cons l ls)
  define h where "h = (\<lambda>m. case outcome l m of None \<Rightarrow> None
    | Some (a, m) \<Rightarrow> (case a of None \<Rightarrow> outcome (run_loads ls) | Some e \<Rightarrow> (\<lambda>m. Some (Some e, m))) m)"
  have "property_source h" unfolding h_def
    using Cons source_id by (intro source_bind) (auto split: option.split)
  moreover have "outcome (run_loads (l # ls)) =
    (\<lambda>m. case h m of None \<Rightarrow> None | Some (Some e, m') \<Rightarrow> Some (Some e, m) | Some (None, m') \<Rightarrow> Some (None, m'))"
    by (rule ext) (auto simp: h_def outcome_def split: option.split sum.split)
  ultimately show ?case using source_rollback by (simp only:)
qed

lemma source_partition: "property_source (outcome (load_properties_from_partition env n part until))"
proof -
  let ?legacy = "[load_file env n (''/'' @ part @ ''/default.prop''), load_file env n (''/'' @ part @ ''/build.prop'')]"
  define q where "q = (\<lambda>b. if b then (\<lambda>m. Some (None, m))
    else (case run_loads ?legacy [] of None \<Rightarrow> (\<lambda>m. None) | Some (Inl e) \<Rightarrow> (\<lambda>m. Some (Some e, m))
      | Some (Inr temp) \<Rightarrow> if supports_legacy_path env part until temp then outcome (run_loads ?legacy)
          else (\<lambda>m. Some (Some (Error (''/'' @ part @ ''/default.prop were not loaded'')), m))))"
  define h where "h = (\<lambda>m. case load_properties_from_file env n (''/'' @ part @ ''/etc/build.prop'') None m of
    None \<Rightarrow> None | Some (b, m) \<Rightarrow> q b m)"
  have "property_source (q b)" for b
    unfolding q_def using source_id source_none source_run [of ?legacy] source_load_file
    by (auto split: option.split sum.split)
  then have "property_source h" unfolding h_def by (intro source_bind source_file)
  moreover have "outcome (load_properties_from_partition env n part until) =
    (\<lambda>m. case h m of None \<Rightarrow> None | Some (Some e, m') \<Rightarrow> Some (Some e, m) | Some (None, m') \<Rightarrow> Some (None, m'))"
    by (rule ext) (auto simp: h_def q_def outcome_def load_properties_from_partition_def Let_def split: option.split sum.split bool.split)
  ultimately show ?thesis using source_rollback by simp
qed

interpretation second_stage_source: property_source "outcome (LoadPropertiesFromSecondStageRes env n)"
  by (rule source_second_stage)

interpretation partition_source: property_source "outcome (load_properties_from_partition env n part until)"
  by (rule source_partition)

lemmas load_sources = source_load_file source_second_stage source_partition

lemma boot_loads_sources: "list_all (\<lambda>l. property_source (outcome l)) (boot_loads env n recovery)"
  by (auto simp: boot_loads_def intro: load_sources)


text \<open>What a sequence of steps leaves: the steps alone, laid over each other.\<close>

lemma outcome_Inr: "outcome l m = Some (None, m') \<longleftrightarrow> l m = Some (Inr m')"
  by (cases "l m") (auto simp: outcome_def split: sum.splits)

lemma run_loads_overlay:
  assumes "list_all (\<lambda>l. property_source (outcome l)) ls" "run_loads ls m = Some (Inr m')"
  shows "\<exists>ds. list_all2 (\<lambda>l d. l [] = Some (Inr d)) ls ds \<and> map_of m' = foldl (++) (map_of m) (map map_of ds)"
  using assms
proof (induction ls arbitrary: m)
  case (Cons l ls)
  then obtain m1 where m1: "l m = Some (Inr m1)" "run_loads ls m1 = Some (Inr m')" by (auto split: option.splits sum.splits)
  then obtain d where d: "l [] = Some (Inr d)" "map_of m1 = map_of m ++ map_of d"
    using Cons.prems(1) property_source.adds [of "outcome l" m None m1] by (auto simp: outcome_Inr)
  obtain ds where "list_all2 (\<lambda>l d. l [] = Some (Inr d)) ls ds" "map_of m' = foldl (++) (map_of m1) (map map_of ds)"
    using Cons.IH [OF _ m1(2)] Cons.prems(1) by auto
  then show ?case using d by (intro exI [of _ "d # ds"]) simp
qed simp

lemma foldl_map_add: "foldl (++) a ms = a ++ foldl (++) Map.empty ms"
proof (induction ms arbitrary: a)
  case (Cons b ms)
  show ?case using Cons [of "a ++ b"] Cons [of b] by (simp add: map_add_assoc)
qed simp

lemma foldl_map_add_None: "list_all (\<lambda>d. d k = None) ds \<Longrightarrow> foldl (++) a ds k = a k"
  by (induction ds arbitrary: a) (auto simp: map_add_def)

lemma run_loads_last:
  assumes "list_all (\<lambda>l. property_source (outcome l)) (before @ l # after)"
    "run_loads (before @ l # after) m = Some (Inr m')" "l [] = Some (Inr d)" "map_of d k = Some v"
    "list_all (\<lambda>l'. \<forall>d'. l' [] = Some (Inr d') \<longrightarrow> map_of d' k = None) after"
  shows "map_of m' k = Some v"
proof -
  obtain ds where ds: "list_all2 (\<lambda>l d. l [] = Some (Inr d)) (before @ l # after) ds"
    "map_of m' = foldl (++) (map_of m) (map map_of ds)"
    using run_loads_overlay [OF assms(1,2)] by blast
  then obtain as cs where as: "ds = as @ d # cs" "list_all2 (\<lambda>l d. l [] = Some (Inr d)) after cs"
    using assms(3) by (auto simp: list_all2_append1 list_all2_Cons1)
  have "list_all (\<lambda>d. map_of d k = None) cs"
    using as(2) assms(5) by (induction after cs rule: list_all2_induct) auto
  then have "list_all (\<lambda>d. d k = None) (map map_of cs)" by (simp add: list.pred_map comp_def)
  then show ?thesis using as(1) ds(2) assms(4) by (simp add: foldl_map_add_None)
qed

section \<open>What files may contain\<close>

definition permitted_props :: "load_env \<Rightarrow> props \<Rightarrow> bool" where
  "permitted_props env m =
     list_all (\<lambda>(k, v). IsLegalPropertyName k \<and> \<not> special_property (pe_lb (le_env env)) k \<and>
       (set_permitted (le_env env) k v kInitContext \<or> set_permitted (le_env env) k v kVendorContext)) m"

lemma map_insert_subset: "set (map_insert k v m) \<subseteq> insert (k, v) (set m)"
  by (induction k v m rule: map_insert.induct) auto

lemma CheckPermissions_legal: "CheckPermissions env n v src = PROP_SUCCESS \<Longrightarrow> IsLegalPropertyName n"
  by (auto simp: CheckPermissions_def split: if_splits)

lemma file_property_permitted:
  assumes "permitted_props env m"
  shows "permitted_props env (file_property env flt f k v m)"
proof (cases "special_property (pe_lb (le_env env)) k \<or> CheckPermissions (le_env env) k v (load_context env f) \<noteq> PROP_SUCCESS")
  case True
  then show ?thesis using assms by (auto simp: file_property_def)
next
  case False
  then have "\<not> StartsWith (pe_lb (le_env env)) k ''ctl.''" by (simp add: special_property_def)
  then have "set_permitted (le_env env) k v (load_context env f)" "IsLegalPropertyName k"
    using False CheckPermissions_success CheckPermissions_legal by blast+
  moreover have "load_context env f = kInitContext \<or> load_context env f = kVendorContext" by (simp add: load_context_def)
  ultimately have "permitted_props env (map_insert k v m)"
    using assms False map_insert_subset [of k v m] by (auto simp: permitted_props_def list_all_iff)
  then show ?thesis using assms by (simp add: file_property_def)
qed

definition keeps_permitted :: "load_env \<Rightarrow> (props \<Rightarrow> props option) \<Rightarrow> bool" where
  "keeps_permitted env l = (\<forall>m m'. permitted_props env m \<longrightarrow> l m = Some m' \<longrightarrow> permitted_props env m')"

lemma keeps_permittedI: "(\<And>m m'. permitted_props env m \<Longrightarrow> l m = Some m' \<Longrightarrow> permitted_props env m') \<Longrightarrow> keeps_permitted env l"
  by (auto simp: keeps_permitted_def)

lemma keeps_permittedD: "keeps_permitted env l \<Longrightarrow> permitted_props env m \<Longrightarrow> l m = Some m' \<Longrightarrow> permitted_props env m'"
  by (auto simp: keeps_permitted_def)

lemma line_permitted:
  assumes "\<And>f g. keeps_permitted env (\<lambda>m. map_option snd (load f g m))"
  shows "keeps_permitted env (property_line env load flt filename line)"
proof (rule keeps_permittedI)
  fix m m'
  assume m: "permitted_props env m" "property_line env load flt filename line m = Some m'"
  show "permitted_props env m'"
  proof (cases "read_line env flt line")
    case (ImportLine f g)
    then show ?thesis using keeps_permittedD [OF assms m(1), of f g m'] m(2) by (simp add: property_line_def)
  qed (use m in \<open>auto simp: property_line_def file_property_permitted\<close>)
qed

lemma lines_permitted:
  assumes "\<And>f g. keeps_permitted env (\<lambda>m. map_option snd (load f g m))"
  shows "keeps_permitted env (load_lines env load flt filename ls)"
proof (induction ls)
  case Nil
  show ?case by (simp add: keeps_permitted_def)
next
  case (Cons l ls)
  show ?case
  proof (rule keeps_permittedI)
    fix m m'
    assume m: "permitted_props env m" "load_lines env load flt filename (l # ls) m = Some m'"
    then obtain m1 where m1: "property_line env load flt filename l m = Some m1" "load_lines env load flt filename ls m1 = Some m'"
      by (auto split: option.splits)
    then show "permitted_props env m'"
      using keeps_permittedD [OF Cons _ m1(2)] keeps_permittedD [OF line_permitted [OF assms] m(1) m1(1)] by blast
  qed
qed

lemma file_permitted: "keeps_permitted env (\<lambda>m. map_option snd (load_properties_from_file env n f flt m))"
proof (induction n arbitrary: f flt)
  case 0
  show ?case by (simp add: keeps_permitted_def)
next
  case (Suc n)
  note lines = keeps_permittedD [OF lines_permitted [OF Suc]]
  show ?case
  proof (rule keeps_permittedI)
    fix m m'
    assume m: "permitted_props env m" "map_option snd (load_properties_from_file env (Suc n) f flt m) = Some m'"
    show "permitted_props env m'"
    proof (cases "ReadFile (le_read env) f")
      case (Inl e)
      then show ?thesis using m by simp
    next
      case (Inr s)
      then show ?thesis using m lines [OF m(1)] by (auto simp: LoadProperties_def)
    qed
  qed
qed

definition step_permitted :: "load_env \<Rightarrow> load_step \<Rightarrow> bool" where
  "step_permitted env l = (\<forall>m m'. permitted_props env m \<longrightarrow> l m = Some (Inr m') \<longrightarrow> permitted_props env m')"

lemma step_permittedI: "(\<And>m m'. permitted_props env m \<Longrightarrow> l m = Some (Inr m') \<Longrightarrow> permitted_props env m') \<Longrightarrow> step_permitted env l"
  by (auto simp: step_permitted_def)

lemma step_permittedD: "step_permitted env l \<Longrightarrow> permitted_props env m \<Longrightarrow> l m = Some (Inr m') \<Longrightarrow> permitted_props env m'"
  by (auto simp: step_permitted_def)

lemma load_file_permitted: "step_permitted env (load_file env n f)"
proof (rule step_permittedI)
  fix m m'
  assume m: "permitted_props env m" "load_file env n f m = Some (Inr m')"
  then have "map_option snd (load_properties_from_file env n f None m) = Some m'" by (auto simp: load_file_def)
  then show "permitted_props env m'" using keeps_permittedD [OF file_permitted m(1)] by blast
qed

lemma second_stage_permitted: "step_permitted env (LoadPropertiesFromSecondStageRes env n)"
  using step_permittedD [OF load_file_permitted]
  by (intro step_permittedI) (auto simp: LoadPropertiesFromSecondStageRes_def split: access_answer.splits)

lemma run_loads_permitted: "list_all (step_permitted env) ls \<Longrightarrow> step_permitted env (run_loads ls)"
proof (induction ls)
  case Nil
  show ?case by (simp add: step_permitted_def)
next
  case (Cons l ls)
  show ?case
  proof (rule step_permittedI)
    fix m m'
    assume m: "permitted_props env m" "run_loads (l # ls) m = Some (Inr m')"
    then obtain m1 where "l m = Some (Inr m1)" "run_loads ls m1 = Some (Inr m')" by (auto split: option.splits sum.splits)
    then show "permitted_props env m'"
      using step_permittedD [of env l m m1] step_permittedD [of env "run_loads ls" m1 m'] Cons m(1) by simp
  qed
qed

lemma partition_permitted: "step_permitted env (load_properties_from_partition env n part until)"
proof (rule step_permittedI)
  fix m m'
  let ?legacy = "[load_file env n (''/'' @ part @ ''/default.prop''), load_file env n (''/'' @ part @ ''/build.prop'')]"
  assume m: "permitted_props env m" "load_properties_from_partition env n part until m = Some (Inr m')"
  then obtain b m1 where l: "load_properties_from_file env n (''/'' @ part @ ''/etc/build.prop'') None m = Some (b, m1)"
    by (auto simp: load_properties_from_partition_def split: option.splits)
  then have m1: "permitted_props env m1" using keeps_permittedD [OF file_permitted m(1)] by fastforce
  have "m' = m1 \<or> run_loads ?legacy m1 = Some (Inr m')"
    using m(2) l by (auto simp: load_properties_from_partition_def Let_def split: option.splits sum.splits bool.splits if_splits)
  then show "permitted_props env m'"
    using m1 step_permittedD [OF run_loads_permitted [of env ?legacy] m1] load_file_permitted by auto
qed

lemma boot_loads_permitted: "list_all (step_permitted env) (boot_loads env n recovery)"
  by (auto simp: boot_loads_def intro: load_file_permitted second_stage_permitted partition_permitted)


section \<open>Boot is a history of the property area\<close>

lemma steps_trans: "property_steps env st' st'' \<Longrightarrow> property_steps env st st' \<Longrightarrow> property_steps env st st''"
  by (induction rule: property_steps.induct) (auto intro: property_steps.more)

lemma PropertySet_steps: "property_steps env st (snd (PropertySet env n v st))"
  by (rule property_steps.more [OF property_steps.none property_step.internal_set [OF prod.collapse [symmetric]]])

lemma InitPropertySet_steps: "property_steps env st (snd (InitPropertySet env n v st))"
  by (rule property_steps.more [OF property_steps.none property_step.init_set [OF prod.collapse [symmetric]]])

lemmas set_steps = PropertySet_steps InitPropertySet_steps property_steps.none

lemma fold_steps:
  assumes "\<And>x st. property_steps env st (f x st)"
  shows "property_steps env st (fold f xs st)"
proof (induction xs arbitrary: st)
  case (Cons x xs)
  show ?case using steps_trans [OF Cons assms] by simp
qed (simp add: property_steps.none)

lemma set_all_steps: "property_steps env st (set_all env m st)"
  unfolding set_all_def by (rule fold_steps) (auto intro: set_steps)

lemma init_set_all_steps: "property_steps env st (init_set_all env m st)"
  unfolding init_set_all_def by (rule fold_steps) (auto intro: set_steps)

lemma product_source_steps: "property_steps env st (first_product_source env prop ss st)"
  by (induction ss) (auto simp: Let_def intro: set_steps)

lemma derive_steps: "property_steps env st (derive_properties pb env st)"
proof -
  have p: "property_steps env st (property_initialize_ro_product_props env st)" for st
    unfolding property_initialize_ro_product_props_def Let_def
    by (rule fold_steps) (auto intro: set_steps product_source_steps)
  have i: "property_steps env st (property_initialize_build_id env st)" for st
    by (simp add: property_initialize_build_id_def Let_def set_steps)
  have f: "property_steps env st (property_derive_build_fingerprint env st)" for st
    by (simp add: property_derive_build_fingerprint_def set_steps)
  have l: "property_steps env st (property_derive_legacy_build_fingerprint env st)" for st
    by (simp add: property_derive_legacy_build_fingerprint_def set_steps)
  have a: "property_steps env st (property_initialize_ro_cpu_abilist env st)" for st
    by (simp add: property_initialize_ro_cpu_abilist_def Let_def set_steps set_all_steps split: prod.split)
  have u: "property_steps env st (update_sys_usb_config pb env st)" for st
    by (simp add: update_sys_usb_config_def Let_def set_steps)
  show ?thesis unfolding derive_properties_def
    by (rule steps_trans [OF u steps_trans [OF a steps_trans [OF l steps_trans [OF f steps_trans [OF i p]]]]])
qed

lemma boot_defaults_steps: "PropertyLoadBootDefaults env bs n st = Some (Inr st') \<Longrightarrow> property_steps env st st'"
  by (auto simp: PropertyLoadBootDefaults_def intro: steps_trans [OF derive_steps set_all_steps] split: option.splits sum.splits)

lemma export_steps: "property_steps env st (ExportKernelBootProps env st)"
  unfolding ExportKernelBootProps_def by (rule fold_steps) (auto simp: Let_def intro: set_steps)

lemma kernel_steps:
  "property_steps env st (ProcessKernelDt env ks st)" "property_steps env st (ProcessKernelCmdline env ks st)"
  "property_steps env st (ProcessBootconfig env ks st)"
  unfolding ProcessKernelDt_def ProcessKernelCmdline_def ProcessBootconfig_def by (rule init_set_all_steps)+

lemma PropertyInit_loads:
  "PropertyInit env bs ks area info n st = Some (Inr st') \<Longrightarrow>
   PropertyLoadBootDefaults env bs n (kernel_properties env ks st) = Some (Inr st')"
  by (auto simp: PropertyInit_def split: if_splits)

text \<open>The first value a read-only property gets is the one it keeps.\<close>

lemma PropertySet_frame: "k \<noteq> n \<Longrightarrow> ps_store (snd (PropertySet env n v st)) k = ps_store st k"
  using PropertySet_store [of env n v st] by (cases "PropertySet env n v st") (auto simp: stores_def split: if_splits)

lemma PropertySet_sets:
  assumes "IsLegalPropertyName k" "ok (IsLegalPropertyValue (pe_lb env) (pe_utf8 env) k v)" "ps_store st k = None" "pe_add env k"
  shows "ps_store (snd (PropertySet env k v st)) k = Some v"
  using assms by (simp add: PropertySet_def store_property_def Let_def)

lemma set_all_ro:
  assumes "StartsWith (pe_lb env) k ''ro.''" "IsLegalPropertyName k" "pe_add env k"
    "ok (IsLegalPropertyValue (pe_lb env) (pe_utf8 env) k v)" "map_of m k = Some v" "ps_store st k = None"
  shows "ps_store (set_all env m st) k = Some v"
  using assms(5,6)
proof (induction m arbitrary: st)
  case (Cons x m)
  obtain n w where x: "x = (n, w)" by force
  show ?case
  proof (cases "n = k")
    case True
    then have "ps_store (snd (PropertySet env n w st)) k = Some v" using Cons.prems x PropertySet_sets assms by simp
    then show ?thesis
      using property_steps_ro [OF set_all_steps [of env _ m] assms(1)] x by (simp add: set_all_def)
  next
    case False
    then have "ps_store (set_all env m (snd (PropertySet env n w st))) k = Some v"
      using Cons x PropertySet_frame [of k n env w st] by simp
    then show ?thesis using x by (simp add: set_all_def)
  qed
qed simp

section \<open>Imports that end\<close>

definition ranked :: "load_env \<Rightarrow> (string \<Rightarrow> nat) \<Rightarrow> bool" where
  "ranked env rank =
     (\<forall>f s l g h. ReadFile (le_read env) f = Inr s \<longrightarrow> l \<in> set (lines_from [] (c_str (s @ [LF]))) \<longrightarrow>
        read_line env None l = ImportLine g h \<longrightarrow> rank g < rank f)"

lemma read_line_import: "read_line env flt l = ImportLine g h \<Longrightarrow> read_line env None l = ImportLine g h"
  by (auto simp: read_line_def filter_len_def Let_def split: if_splits option.splits)

lemma lines_return:
  assumes "\<And>l g h m. l \<in> set ls \<Longrightarrow> read_line env flt l = ImportLine g h \<Longrightarrow> load g h m \<noteq> None"
  shows "\<exists>m'. load_lines env load flt filename ls m = Some m'"
  using assms
proof (induction ls arbitrary: m)
  case (Cons l ls)
  have "property_line env load flt filename l m \<noteq> None"
  proof (cases "read_line env flt l")
    case (ImportLine g h)
    then show ?thesis using Cons.prems [of l g h m] by (simp add: property_line_def)
  qed (simp_all add: property_line_def)
  then obtain m1 where "property_line env load flt filename l m = Some m1" by blast
  moreover have "\<exists>m'. load_lines env load flt filename ls m1 = Some m'" by (rule Cons.IH) (rule Cons.prems, auto)
  ultimately show ?case by simp
qed simp

lemma file_returns:
  assumes "ranked env rank"
  shows "rank f < n \<Longrightarrow> \<exists>r. load_properties_from_file env n f flt m = Some r"
proof (induction n arbitrary: f flt m)
  case (Suc n)
  show ?case
  proof (cases "ReadFile (le_read env) f")
    case (Inl e)
    then show ?thesis by (intro exI [of _ "(False, m)"]) simp
  next
    case (Inr s)
    have "\<exists>m'. load_lines env (load_properties_from_file env n) flt f (lines_from [] (c_str (s @ [LF]))) m = Some m'"
    proof (rule lines_return)
      fix l g h m
      assume "l \<in> set (lines_from [] (c_str (s @ [LF])))" "read_line env flt l = ImportLine g h"
      then have "rank g < rank f" using assms Inr read_line_import by (auto simp: ranked_def)
      then show "load_properties_from_file env n g h m \<noteq> None" using Suc.IH [of g h m] Suc.prems by auto
    qed
    then show ?thesis using Inr by (auto simp: LoadProperties_def)
  qed
qed simp

definition step_returns :: "load_step \<Rightarrow> bool" where
  "step_returns l = (\<forall>m. l m \<noteq> None)"

lemma run_returns: "list_all step_returns ls \<Longrightarrow> step_returns (run_loads ls)"
proof (induction ls)
  case (Cons l ls)
  then have "l m \<noteq> None" "run_loads ls m \<noteq> None" for m by (auto simp: step_returns_def)
  then show ?case by (auto simp: step_returns_def split: option.splits sum.splits)
qed (simp add: step_returns_def)

lemma boot_loads_return:
  assumes "ranked env rank" "\<And>f. rank f < n"
  shows "list_all step_returns (boot_loads env n recovery)"
proof -
  have f: "load_properties_from_file env n f flt m \<noteq> None" for f flt m
    using file_returns [OF assms(1), of f n flt m] assms(2) by auto
  then have l: "step_returns (load_file env n f)" for f by (simp add: step_returns_def load_file_def)
  have r: "run_loads [load_file env n a, load_file env n b] m \<noteq> None" for a b m
    using run_returns [of "[load_file env n a, load_file env n b]"] l unfolding step_returns_def by simp
  have p: "load_properties_from_partition env n part until m \<noteq> None" for part until m
  proof -
    obtain b m1 where "load_properties_from_file env n (''/'' @ part @ ''/etc/build.prop'') None m = Some (b, m1)" using f by fastforce
    moreover obtain t where "run_loads [load_file env n (''/'' @ part @ ''/default.prop''), load_file env n (''/'' @ part @ ''/build.prop'')] [] = Some t"
      using r by blast
    moreover note r [of "''/'' @ part @ ''/default.prop''" "''/'' @ part @ ''/build.prop''" m1]
    ultimately show ?thesis
      by (cases b; cases t) (simp_all add: load_properties_from_partition_def Let_def del: run_loads.simps append_Cons append_Nil)
  qed
  have "step_returns (LoadPropertiesFromSecondStageRes env n)"
    using l unfolding step_returns_def LoadPropertiesFromSecondStageRes_def by (auto split: access_answer.split)
  then show ?thesis using l p by (simp add: boot_loads_def step_returns_def)
qed


lemma PropertyInit_returns:
  assumes "ranked (load_env_of env bs (kernel_properties env ks st)) rank" "\<And>f. rank f < n"
  shows "\<exists>r. PropertyInit env bs ks area info n st = Some r"
proof -
  let ?l = "load_env_of env bs (kernel_properties env ks st)"
  have "run_loads (boot_loads ?l n (bs_recovery bs)) [] \<noteq> None"
    using run_returns [OF boot_loads_return [OF assms]] unfolding step_returns_def by blast
  then show ?thesis by (auto simp: PropertyInit_def PropertyLoadBootDefaults_def split: sum.split)
qed

section \<open>Properties\<close>

text \<open>
  Of the property files of the partitions, the last one in the order of reading that names a
  read-only property decides it, however many files before it do and whatever is derived
  afterwards, provided the kernel has not set it and its value is legal.
\<close>

theorem last_file_wins:
  assumes "PropertyLoadBootDefaults env bs n st = Some (Inr st')"
    "boot_loads (load_env_of env bs st) n (bs_recovery bs) = before @ l # after"
    "l [] = Some (Inr d)" "map_of d k = Some v"
    "list_all (\<lambda>l'. \<forall>d'. l' [] = Some (Inr d') \<longrightarrow> map_of d' k = None) after"
    "StartsWith (pe_lb env) k ''ro.''" "ps_store st k = None"
    "ok (IsLegalPropertyValue (pe_lb env) (pe_utf8 env) k v)" "pe_add env k"
  shows "ps_store st' k = Some v"
proof -
  let ?env = "load_env_of env bs st"
  obtain m where m: "run_loads (before @ l # after) [] = Some (Inr m)"
    "st' = derive_properties (bs_parse_bool bs) env (set_all env m st)"
    using assms(1,2) by (auto simp: PropertyLoadBootDefaults_def split: option.splits sum.splits)
  have k: "map_of m k = Some v"
    using run_loads_last [OF _ m(1) assms(3,4,5)] boot_loads_sources [of ?env n "bs_recovery bs"] assms(2) by simp
  have "permitted_props ?env m"
    using step_permittedD [OF run_loads_permitted [OF boot_loads_permitted [of ?env n "bs_recovery bs"]], of "[]" m] m(1) assms(2)
    by (simp add: permitted_props_def)
  then have "IsLegalPropertyName k" using map_of_SomeD [OF k] by (auto simp: permitted_props_def list_all_iff)
  then have "ps_store (set_all env m st) k = Some v" using set_all_ro assms k by blast
  then show ?thesis using property_steps_ro [OF derive_steps assms(6)] m(2) by blast
qed

text \<open>
  The device tree has priority over the kernel command line, the command line over bootconfig,
  and all of them over the property files: what one of them gives a read-only property stays.
\<close>

theorem kernel_sources_precedence:
  assumes "PropertyInit env bs ks area info n st = Some (Inr st')" "StartsWith (pe_lb env) k ''ro.''"
    "ps_store (ProcessKernelDt env ks st) k = Some v \<or>
     ps_store (ProcessKernelCmdline env ks (ProcessKernelDt env ks st)) k = Some v \<or>
     ps_store (ProcessBootconfig env ks (ProcessKernelCmdline env ks (ProcessKernelDt env ks st))) k = Some v"
  shows "ps_store st' k = Some v"
proof -
  have "property_steps env (ExportKernelBootProps env (ProcessBootconfig env ks (ProcessKernelCmdline env ks (ProcessKernelDt env ks st)))) st'"
    using boot_defaults_steps [OF PropertyInit_loads [OF assms(1)]] by (simp add: kernel_properties_def)
  note steps = this export_steps kernel_steps(3) kernel_steps(2)
  note b = steps_trans [OF steps(1,2)]
  note c = steps_trans [OF b steps(3)]
  note d = steps_trans [OF c steps(4)]
  show ?thesis
    using assms(3) property_steps_ro [OF b assms(2)] property_steps_ro [OF c assms(2)] property_steps_ro [OF d assms(2)] by blast
qed

text \<open>
  C25: No property file can start or stop services, reboot the device or relabel files: whatever
  the files contain, none of the properties read from them is a control message, the power
  control or the restorecon request, and each one is permitted to init or the vendor's init.
\<close>

theorem file_properties_harmless:
  assumes "load_properties_from_file env n filename flt [] = Some (b, m)" "(k, v) \<in> set m"
  shows "\<not> StartsWith (pe_lb (le_env env)) k ''ctl.'' \<and> k \<noteq> ''sys.powerctl'' \<and> k \<noteq> ''selinux.restorecon_recursive'' \<and>
    (\<exists>context. context \<in> {''u:r:init:s0'', ''u:r:vendor_init:s0''} \<and> CheckPermissions (le_env env) k v context = PROP_SUCCESS)"
proof -
  have "permitted_props env m"
    using keeps_permittedD [OF file_permitted, of env "[]" n filename flt m] assms(1) by (simp add: permitted_props_def)
  then have p: "IsLegalPropertyName k" "\<not> special_property (pe_lb (le_env env)) k"
    "set_permitted (le_env env) k v kInitContext \<or> set_permitted (le_env env) k v kVendorContext"
    using assms(2) by (auto simp: permitted_props_def list_all_iff)
  then have "CheckPermissions (le_env env) k v kInitContext = PROP_SUCCESS \<or> CheckPermissions (le_env env) k v kVendorContext = PROP_SUCCESS"
    by (auto simp: set_permitted_def CheckPermissions_def split: prod.split)
  then show ?thesis using p by (auto simp: special_property_def kRestoreconProperty_def kInitContext_def kVendorContext_def)
qed

text \<open>
  The property area is set up in finitely many steps when the imports of the property files
  do not form a cycle, with as much fuel as the longest chain of imports.
\<close>

theorem property_init_ends:
  assumes "\<And>f s l g h. ReadFile (bs_read bs) f = Inr s \<Longrightarrow> l \<in> set (lines_from [] (c_str (s @ [LF]))) \<Longrightarrow>
      read_line (load_env_of env bs (kernel_properties env ks st)) None l = ImportLine g h \<Longrightarrow> rank g < rank f"
    and "\<And>f. rank f < n"
  shows "\<exists>r. PropertyInit env bs ks area info n st = Some r"
proof (rule PropertyInit_returns [OF _ assms(2)])
  show "ranked (load_env_of env bs (kernel_properties env ks st)) rank"
    unfolding ranked_def using assms(1) by (simp add: load_env_of_def)
qed


section \<open>Witnesses\<close>

definition file_with :: "string \<Rightarrow> open_file option" where
  "file_with s = Some \<lparr>file_mode = Some 420, file_content = Some s\<rparr>"

definition sample_boot_sources :: boot_sources where
  "sample_boot_sources =
     \<lparr>bs_read = (\<lambda>f. if f = ''/system/build.prop'' then file_with ''ro.a = 0'' else if f = ''/vendor/build.prop'' then file_with ''ro.a=1'' else None),
      bs_access = \<lambda>_. NoEntry, bs_recovery = False, bs_parse_bool = \<lambda>_. None, bs_allow_override = False\<rparr>"

definition sample_file_env :: prop_env where
  "sample_file_env = sample_prop_env\<lparr>pe_mac := \<lambda>_ _. True\<rparr>"

definition sample_load_env :: "prop_state \<Rightarrow> load_env" where
  "sample_load_env st = load_env_of sample_file_env sample_boot_sources st"

lemma sample_read:
  "ReadFile (le_read (sample_load_env st)) f =
     (if f = ''/system/build.prop'' then Inr ''ro.a = 0'' else if f = ''/vendor/build.prop'' then Inr ''ro.a=1''
      else Err (ErrnoError ''open() failed''))"
  by (simp add: ReadFile_def sample_load_env_def load_env_of_def sample_boot_sources_def file_with_def S_IWGRP_def S_IWOTH_def)

lemma sample_lines:
  "read_line (sample_load_env st) flt ''ro.a = 0'' = AssignLine ''ro.a'' ''0''"
  "read_line (sample_load_env st) flt ''ro.a=1'' = AssignLine ''ro.a'' ''1''"
  by (simp_all add: read_line_def c_isspace_def code_of_def)

lemma sample_permitted:
  "v \<in> {''0'', ''1''} \<Longrightarrow> CheckPermissions sample_file_env ''ro.a'' v src = PROP_SUCCESS"
  by (auto simp: CheckPermissions_def sample_file_env_def sample_prop_env_def IsLegalPropertyName_def legal_char_def
      c_islower_def code_of_def upt_rec ref_libbase_def CheckMacPerms_def CheckType_def)

lemma sample_load:
  "load_properties_from_file (sample_load_env st) (Suc n) f flt m =
     (if f = ''/system/build.prop'' then Some (True, file_property (sample_load_env st) flt f ''ro.a'' ''0'' m)
      else if f = ''/vendor/build.prop'' then Some (True, file_property (sample_load_env st) flt f ''ro.a'' ''1'' m)
      else Some (False, m))"
  by (simp add: sample_read LoadProperties_def c_str_def property_line_def sample_lines)

lemma sample_property:
  "v \<in> {''0'', ''1''} \<Longrightarrow> file_property (sample_load_env st) None f ''ro.a'' v m = map_insert ''ro.a'' v m"
proof -
  assume "v \<in> {''0'', ''1''}"
  then have "CheckPermissions (le_env (sample_load_env st)) ''ro.a'' v (load_context (sample_load_env st) f) = PROP_SUCCESS"
    using sample_permitted by (simp add: sample_load_env_def load_env_of_def)
  then show ?thesis
    by (simp add: file_property_def passes_filter_def special_property_def kRestoreconProperty_def sample_load_env_def
        load_env_of_def sample_file_env_def sample_prop_env_def ref_libbase_def)
qed

lemma sample_boot_property_loads:
  "load_file (sample_load_env st) (Suc 0) f m =
     Some (Inr (if f = ''/system/build.prop'' then map_insert ''ro.a'' ''0'' m
                else if f = ''/vendor/build.prop'' then map_insert ''ro.a'' ''1'' m else m))"
  "load_properties_from_partition (sample_load_env st) (Suc 0) ''system_ext'' k m = Some (Inr m)"
  "load_properties_from_partition (sample_load_env st) (Suc 0) ''odm'' k m = Some (Inr m)"
  "load_properties_from_partition (sample_load_env st) (Suc 0) ''product'' k m = Some (Inr m)"
  using sample_load [of st 0]
  by (auto simp: load_file_def sample_property load_properties_from_partition_def supports_legacy_path_def)


definition sample_kernel :: kernel_sources where
  "sample_kernel =
     \<lparr>ks_dt_dir = ''/dt/'', ks_dt_entries = None, ks_read = \<lambda>_. None,
      ks_cmdline = ''androidboot.a=0'', ks_bootconfig = []\<rparr>"

lemma sample_second_stage: "LoadPropertiesFromSecondStageRes (sample_load_env st) n m = Some (Inr m)"
  by (simp add: LoadPropertiesFromSecondStageRes_def sample_load_env_def load_env_of_def sample_boot_sources_def)

lemma sample_boot_loads:
  "boot_loads (sample_load_env st) n (bs_recovery sample_boot_sources) =
     [LoadPropertiesFromSecondStageRes (sample_load_env st) n, load_file (sample_load_env st) n ''/system/build.prop'',
      load_properties_from_partition (sample_load_env st) n ''system_ext'' 30, load_file (sample_load_env st) n ''/vendor/default.prop''] @
     load_file (sample_load_env st) n ''/vendor/build.prop'' #
     [load_file (sample_load_env st) n ''/vendor_dlkm/etc/build.prop'', load_file (sample_load_env st) n ''/odm_dlkm/etc/build.prop'',
      load_properties_from_partition (sample_load_env st) n ''odm'' 28, load_properties_from_partition (sample_load_env st) n ''product'' 30]"
  by (simp add: boot_loads_def sample_boot_sources_def sample_load_env_def load_env_of_def)

lemma sample_boots:
  "\<exists>st'. PropertyLoadBootDefaults sample_file_env sample_boot_sources 1 st = Some (Inr st')"
  using sample_boot_loads [of st 1]
  by (simp add: PropertyLoadBootDefaults_def sample_load_env_def [symmetric] sample_second_stage sample_boot_property_loads)

theorem last_file_wins_witness:
  "\<exists>st'. PropertyLoadBootDefaults sample_file_env sample_boot_sources 1 sample_prop_state = Some (Inr st') \<and>
     ps_store st' ''ro.a'' = Some ''1''"
proof -
  obtain st' where b: "PropertyLoadBootDefaults sample_file_env sample_boot_sources 1 sample_prop_state = Some (Inr st')"
    using sample_boots by blast
  have "ps_store st' ''ro.a'' = Some ''1''"
    by (rule last_file_wins [OF b sample_boot_loads [unfolded sample_load_env_def], of "[(''ro.a'', ''1'')]"])
       (simp_all add: sample_load_env_def [symmetric] sample_boot_property_loads, simp_all add: sample_file_env_def sample_prop_env_def
         ref_libbase_def sample_prop_state_def IsLegalPropertyValue_def)
  then show ?thesis using b by blast
qed

lemma sample_cmdline:
  "ps_store (ProcessKernelCmdline sample_file_env sample_kernel sample_prop_state) ''ro.boot.a'' = Some ''0''"
  "ProcessKernelDt sample_file_env sample_kernel sample_prop_state = sample_prop_state"
proof -
  show "ProcessKernelDt sample_file_env sample_kernel sample_prop_state = sample_prop_state"
    by (simp add: ProcessKernelDt_def dt_properties_def sample_kernel_def is_android_dt_value_expected_def
        read_android_dt_file_def init_set_all_def)
  have k: "androidboot_properties ref_libbase (ImportKernelCmdline ref_libbase ''androidboot.a=0'') = [(''ro.boot.a'', ''0'')]"
    by (simp add: androidboot_properties_def ImportKernelCmdline_def ref_libbase_def ref_trim_def c_isspace_def code_of_def ANDROIDBOOT_PREFIX_def)
  show "ps_store (ProcessKernelCmdline sample_file_env sample_kernel sample_prop_state) ''ro.boot.a'' = Some ''0''"
    using k by (simp add: ProcessKernelCmdline_def sample_kernel_def sample_file_env_def sample_prop_env_def init_set_all_def
        InitPropertySet_def HandlePropertySet_def CheckPermissions_def IsLegalPropertyName_def legal_char_def c_islower_def
        code_of_def upt_rec CheckMacPerms_def CheckType_def kRestoreconProperty_def PropertySet_def IsLegalPropertyValue_def
        store_property_def sample_prop_state_def Let_def) (simp add: ref_libbase_def)
qed

theorem kernel_sources_precedence_witness:
  "\<exists>st'. PropertyInit sample_file_env sample_boot_sources sample_kernel True True 1 sample_prop_state = Some (Inr st') \<and>
     ps_store st' ''ro.boot.a'' = Some ''0''"
proof -
  obtain st' where b: "PropertyInit sample_file_env sample_boot_sources sample_kernel True True 1 sample_prop_state = Some (Inr st')"
    using sample_boots by (auto simp: PropertyInit_def)
  have "ps_store st' ''ro.boot.a'' = Some ''0''"
    by (rule kernel_sources_precedence [OF b])
       (simp add: sample_file_env_def sample_prop_env_def ref_libbase_def, simp add: sample_cmdline)
  then show ?thesis using b by blast
qed

theorem file_properties_harmless_witness:
  "\<exists>m. load_properties_from_file (sample_load_env sample_prop_state) 1 ''/vendor/build.prop'' None [] = Some (True, m) \<and>
     (''ro.a'', ''1'') \<in> set m \<and> \<not> StartsWith ref_libbase ''ro.a'' ''ctl.''"
proof -
  have l: "load_properties_from_file (sample_load_env sample_prop_state) 1 ''/vendor/build.prop'' None [] = Some (True, [(''ro.a'', ''1'')])"
    using sample_load [of sample_prop_state 0 "''/vendor/build.prop''" None "[]"] by (simp add: sample_property)
  show ?thesis using file_properties_harmless [OF l] l
    by (simp add: sample_load_env_def load_env_of_def sample_file_env_def sample_prop_env_def)
qed

theorem property_init_ends_witness:
  "\<exists>r. PropertyInit sample_file_env sample_boot_sources sample_kernel True True 1 sample_prop_state = Some r"
proof (rule property_init_ends [where rank = "\<lambda>_. 0"])
  fix f s l g h
  let ?st = "kernel_properties sample_file_env sample_kernel sample_prop_state"
  assume s: "ReadFile (bs_read sample_boot_sources) f = Inr s" "l \<in> set (lines_from [] (c_str (s @ [LF])))"
    "read_line (load_env_of sample_file_env sample_boot_sources ?st) None l = ImportLine g h"
  then have "s = ''ro.a = 0'' \<or> s = ''ro.a=1''"
    using sample_read [of ?st f] by (auto simp: sample_load_env_def load_env_of_def split: if_splits)
  then have "l = ''ro.a = 0'' \<or> l = ''ro.a=1''" using s(2) by (auto simp: c_str_def)
  then show "(0::nat) < 0" using s(3) sample_lines [of ?st None] by (auto simp: sample_load_env_def)
qed simp

text \<open>A file that imports itself is read for ever, whatever the fuel.\<close>

lemma self_import_never_ends:
  "load_properties_from_file (load_env_of sample_file_env (sample_boot_sources\<lparr>bs_read := \<lambda>f. file_with ''import /x''\<rparr>) sample_prop_state)
     n ''/x'' None m = None"
proof (induction n arbitrary: m)
  case (Suc n)
  let ?env = "load_env_of sample_file_env (sample_boot_sources\<lparr>bs_read := \<lambda>f. file_with ''import /x''\<rparr>) sample_prop_state"
  have r: "ReadFile (le_read ?env) ''/x'' = Inr ''import /x''"
    by (simp add: ReadFile_def load_env_of_def file_with_def S_IWGRP_def S_IWOTH_def)
  have l: "read_line ?env None ''import /x'' = ImportLine ''/x'' None"
    by (simp add: read_line_def c_isspace_def code_of_def filter_len_def import_args_def ExpandProps_def expand_loop.simps c_str_def)
  show ?case using Suc r l by (simp add: LoadProperties_def c_str_def property_line_def)
qed simp

end
