(* ===== verification/Persistent_Properties.thy ===== *)
theory Persistent_Properties
  imports Property_Files
begin

text \<open>
  Persistent properties (\<^verbatim>\<open>init/persistent_properties.cpp\<close>) and the message that loads them
  (\<^verbatim>\<open>HandleInitSocket\<close> of \<^verbatim>\<open>init/property_service.cpp\<close>). The protocol buffer of the file is a list
  of records; its serializer and parser are generated code and arguments. The file system keeps
  what is needed to speak of a crash: whether the data of a file and the last rename have been
  synchronised.
\<close>

section \<open>Files\<close>

type_synonym records = "(string \<times> string) list"

record inode =
  ino_file :: open_file
  ino_synced :: bool

text \<open>
  \<open>fs_old\<close> is what the name of the property file still stands for on the storage while the
  directory has not been synchronised after a rename.
\<close>

record persist_fs =
  fs_main :: "inode option"
  fs_tmp :: "inode option"
  fs_old :: "inode option option"

datatype fs_effect =
  CreateTmp
| WriteTmp string
| SyncTmp
| RenameTmp
| UnlinkTmp
| UnlinkMain
| SyncDir

definition new_inode :: inode where
  "new_inode = \<lparr>ino_file = \<lparr>file_mode = Some 384, file_content = Some []\<rparr>, ino_synced = False\<rparr>"

fun apply_effect :: "fs_effect \<Rightarrow> persist_fs \<Rightarrow> persist_fs" where
  "apply_effect CreateTmp fs = fs\<lparr>fs_tmp := Some new_inode\<rparr>"
| "apply_effect (WriteTmp s) fs =
     fs\<lparr>fs_tmp := map_option (\<lambda>i. i\<lparr>ino_file := (ino_file i)\<lparr>file_content := Some s\<rparr>, ino_synced := False\<rparr>) (fs_tmp fs)\<rparr>"
| "apply_effect SyncTmp fs = fs\<lparr>fs_tmp := map_option (\<lambda>i. i\<lparr>ino_synced := True\<rparr>) (fs_tmp fs)\<rparr>"
| "apply_effect RenameTmp fs = fs\<lparr>fs_main := fs_tmp fs, fs_tmp := None, fs_old := Some (fs_main fs)\<rparr>"
| "apply_effect UnlinkTmp fs = fs\<lparr>fs_tmp := None\<rparr>"
| "apply_effect UnlinkMain fs = fs\<lparr>fs_main := None, fs_old := Some (fs_main fs)\<rparr>"
| "apply_effect SyncDir fs = fs\<lparr>fs_old := None\<rparr>"

definition apply_effects :: "fs_effect list \<Rightarrow> persist_fs \<Rightarrow> persist_fs" where
  "apply_effects es fs = fold apply_effect es fs"

text \<open>
  What a reader may find under the name after a crash: unsynchronised data may be anything, and a
  rename that was not synchronised may not have happened.
\<close>

fun inode_after_crash :: "inode option \<Rightarrow> string option \<Rightarrow> bool" where
  "inode_after_crash None c = (c = None)"
| "inode_after_crash (Some i) c = (if ino_synced i then c = file_content (ino_file i) else c \<noteq> None)"

definition after_crash :: "persist_fs \<Rightarrow> string option \<Rightarrow> bool" where
  "after_crash fs c =
     (inode_after_crash (fs_main fs) c \<or> (case fs_old fs of None \<Rightarrow> False | Some old \<Rightarrow> inode_after_crash old c))"

section \<open>Records\<close>

definition AddPersistentProperty :: "string \<Rightarrow> string \<Rightarrow> records \<Rightarrow> records" where
  "AddPersistentProperty name v ps = ps @ [(name, v)]"

fun set_record :: "string \<Rightarrow> string \<Rightarrow> records \<Rightarrow> records option" where
  "set_record name v [] = None"
| "set_record name v ((n, u) # ps) =
     (if n = name then Some ((name, v) # ps) else map_option ((#) (n, u)) (set_record name v ps))"

definition update_record :: "string \<Rightarrow> string \<Rightarrow> records \<Rightarrow> records" where
  "update_record name v ps =
     (case set_record name v ps of Some ps \<Rightarrow> ps | None \<Rightarrow> AddPersistentProperty name v ps)"

section \<open>The single file\<close>

text \<open>
  What the calls of one run answer: \<open>pw_open\<close> the \<^verbatim>\<open>open\<close> of the temporary file, \<open>pw_written\<close> the
  bytes that were written when writing fails, \<open>pw_rename\<close> and \<open>pw_dir\<close> the \<^verbatim>\<open>rename\<close> and the \<^verbatim>\<open>open\<close>
  of the directory.
\<close>

record persist_env =
  pw_lb :: libbase
  pw_serialize :: "records \<Rightarrow> string option"
  pw_parse :: "string \<Rightarrow> records option"
  pw_open :: bool
  pw_written :: "nat option"
  pw_rename :: bool
  pw_dir :: bool

definition ReadPersistentPropertyFile :: "persist_fs \<Rightarrow> string result \<times> persist_fs" where
  "ReadPersistentPropertyFile fs =
     (let fs = (if fs_tmp fs \<noteq> None then apply_effect UnlinkTmp fs else fs)
      in case ReadFile (\<lambda>_. map_option ino_file (fs_main fs)) ''/data/property/persistent_properties'' of
           Inl e \<Rightarrow> (Err (Error (''Unable to read persistent property file: '' @ message e)), fs)
         | Inr s \<Rightarrow> (Ok s, fs))"

definition LoadPersistentPropertyFile :: "persist_env \<Rightarrow> persist_fs \<Rightarrow> records result \<times> persist_fs" where
  "LoadPersistentPropertyFile env fs =
     (case ReadPersistentPropertyFile fs of
        (Inl e, fs) \<Rightarrow> (Inl e, fs)
      | (Inr s, fs) \<Rightarrow>
          (case pw_parse env s of
             Some ps \<Rightarrow> (Ok ps, fs)
           | None \<Rightarrow>
               (Err (Error ''Unable to parse persistent property file: Could not parse protobuf''), apply_effect UnlinkMain fs)))"

definition write_effects :: "persist_env \<Rightarrow> records \<Rightarrow> unit result \<times> fs_effect list" where
  "write_effects env ps =
     (if \<not> pw_open env then (Err (ErrnoError ''Could not open temporary properties file''), [])
      else
        (case pw_serialize env ps of
           None \<Rightarrow> (Err (Error ''Unable to serialize properties''), [CreateTmp])
         | Some s \<Rightarrow>
             (case pw_written env of
                Some k \<Rightarrow> (Err (ErrnoError ''Unable to write file contents''), [CreateTmp, WriteTmp (take k s)])
              | None \<Rightarrow>
                  if \<not> pw_rename env then
                    (Err (Error ''Unable to rename persistent property file''), [CreateTmp, WriteTmp s, SyncTmp, UnlinkTmp])
                  else if \<not> pw_dir env then
                    (Err (ErrnoError ''Unable to open persistent properties directory for fsync()''),
                     [CreateTmp, WriteTmp s, SyncTmp, RenameTmp])
                  else (Ok (), [CreateTmp, WriteTmp s, SyncTmp, RenameTmp, SyncDir]))))"

definition WritePersistentPropertyFile :: "persist_env \<Rightarrow> records \<Rightarrow> persist_fs \<Rightarrow> unit result \<times> persist_fs" where
  "WritePersistentPropertyFile env ps fs = (case write_effects env ps of (r, es) \<Rightarrow> (r, apply_effects es fs))"

text \<open>\<open>memory\<close> are the properties of the area, in the order of \<^verbatim>\<open>__system_property_foreach\<close>.\<close>

definition LoadPersistentPropertiesFromMemory :: "libbase \<Rightarrow> props \<Rightarrow> records" where
  "LoadPersistentPropertiesFromMemory lb memory = filter (\<lambda>(n, v). StartsWith lb n ''persist.'') memory"

definition WritePersistentProperty ::
  "persist_env \<Rightarrow> props \<Rightarrow> string \<Rightarrow> string \<Rightarrow> persist_fs \<Rightarrow> unit result \<times> persist_fs" where
  "WritePersistentProperty env memory name v fs =
     (case LoadPersistentPropertyFile env fs of
        (r, fs) \<Rightarrow>
          (let ps = (case r of Inr ps \<Rightarrow> ps | Inl _ \<Rightarrow> LoadPersistentPropertiesFromMemory (pw_lb env) memory)
           in WritePersistentPropertyFile env (update_record name v ps) fs))"

section \<open>The legacy directory\<close>

record legacy_stat =
  st_mode :: "32 word"
  st_uid :: nat
  st_gid :: nat
  st_nlink :: nat

text \<open>\<open>lg_stat\<close> is \<open>None\<close> when the entry does not open or \<^verbatim>\<open>fstat\<close> fails.\<close>

record legacy_entry =
  lg_name :: string
  lg_regular :: bool
  lg_stat :: "legacy_stat option"
  lg_content :: "string option"

definition insecure_legacy :: "legacy_stat \<Rightarrow> bool" where
  "insecure_legacy sb = (st_mode sb AND 63 \<noteq> 0 \<or> st_uid sb \<noteq> 0 \<or> st_gid sb \<noteq> 0 \<or> st_nlink sb \<noteq> 1)"

definition is_legacy :: "libbase \<Rightarrow> legacy_entry \<Rightarrow> bool" where
  "is_legacy lb e = (StartsWith lb (lg_name e) ''persist.'' \<and> lg_regular e)"

definition legacy_record :: "libbase \<Rightarrow> legacy_entry \<Rightarrow> records" where
  "legacy_record lb e =
     (if \<not> is_legacy lb e then []
      else
        (case lg_stat e of
           None \<Rightarrow> []
         | Some sb \<Rightarrow>
             if insecure_legacy sb then []
             else (case lg_content e of None \<Rightarrow> [] | Some v \<Rightarrow> [(lg_name e, v)])))"

text \<open>A directory is \<open>None\<close> when it does not open.\<close>

definition LoadLegacyPersistentProperties :: "libbase \<Rightarrow> legacy_entry list option \<Rightarrow> records result" where
  "LoadLegacyPersistentProperties lb dir =
     (case dir of
        None \<Rightarrow> Err (ErrnoError ''Unable to open persistent property directory'')
      | Some es \<Rightarrow> Ok (fold (\<lambda>e ps. fold (\<lambda>(n, v). AddPersistentProperty n v) (legacy_record lb e) ps) es []))"

definition RemoveLegacyPersistentPropertyFiles :: "libbase \<Rightarrow> legacy_entry list option \<Rightarrow> legacy_entry list option" where
  "RemoveLegacyPersistentPropertyFiles lb dir = map_option (filter (\<lambda>e. \<not> is_legacy lb e)) dir"

definition LoadPersistentProperties ::
  "persist_env \<Rightarrow> legacy_entry list option \<Rightarrow> persist_fs \<Rightarrow> records \<times> legacy_entry list option \<times> persist_fs" where
  "LoadPersistentProperties env dir fs =
     (case LoadPersistentPropertyFile env fs of
        (Inr ps, fs) \<Rightarrow> (ps, dir, fs)
      | (Inl _, fs) \<Rightarrow>
          (case LoadLegacyPersistentProperties (pw_lb env) dir of
             Inl _ \<Rightarrow> ([], dir, fs)
           | Inr ps \<Rightarrow>
               (case WritePersistentPropertyFile env ps fs of
                  (Inr _, fs) \<Rightarrow> (ps, RemoveLegacyPersistentPropertyFiles (pw_lb env) dir, fs)
                | (Inl _, fs) \<Rightarrow> (ps, dir, fs))))"

section \<open>The message of init\<close>

datatype init_message = LoadPersistent | UnknownMessage

definition HandleInitSocket ::
  "prop_env \<Rightarrow> boot_sources \<Rightarrow> nat \<Rightarrow> init_message result \<Rightarrow> persist_env \<Rightarrow> legacy_entry list option \<Rightarrow> persist_fs \<Rightarrow>
   prop_state \<Rightarrow> (prop_state \<times> legacy_entry list option \<times> persist_fs) option" where
  "HandleInitSocket env bs n msg pw dir fs st =
     (case msg of
        Inr LoadPersistent \<Rightarrow>
          (case load_override_properties env bs n st of
             None \<Rightarrow> None
           | Some st \<Rightarrow>
               (case LoadPersistentProperties pw dir fs of
                  (persistent, dir, fs) \<Rightarrow>
                    (let st = init_set_all env persistent st;
                         st = snd (InitPropertySet env ''ro.persistent_properties.ready'' ''true'' st)
                     in Some (st\<lparr>persistent_properties_loaded := True\<rparr>, dir, fs))))
      | _ \<Rightarrow> Some (st, dir, fs))"

section \<open>Writing and reading back\<close>

lemma set_record_map_of:
  "set_record n v ps = Some ps' \<Longrightarrow> map_of ps' = (map_of ps)(n \<mapsto> v)"
  "set_record n v ps = None \<Longrightarrow> map_of ps n = None"
  by (induction ps arbitrary: ps') (auto simp: fun_eq_iff split: if_splits)

lemma update_record_map_of: "map_of (update_record n v ps) = (map_of ps)(n \<mapsto> v)"
  using set_record_map_of [of n v ps]
  by (auto simp: update_record_def AddPersistentProperty_def map_add_def fun_eq_iff split: option.split)

lemma write_success:
  assumes "WritePersistentPropertyFile env ps fs = (Inr u, fs')"
  obtains s where "pw_serialize env ps = Some s"
    "fs' = apply_effects [CreateTmp, WriteTmp s, SyncTmp, RenameTmp, SyncDir] fs"
  using assms
  by (auto simp: WritePersistentPropertyFile_def write_effects_def split: prod.splits if_splits option.splits)

lemma load_after_write:
  assumes inverse: "\<And>ps s. pw_serialize env ps = Some s \<Longrightarrow> pw_parse env s = Some ps"
    and "WritePersistentPropertyFile env ps fs = (Inr u, fs')"
  shows "LoadPersistentPropertyFile env fs' = (Ok ps, fs')"
proof -
  obtain s where s: "pw_serialize env ps = Some s"
    "fs' = apply_effects [CreateTmp, WriteTmp s, SyncTmp, RenameTmp, SyncDir] fs"
    using write_success [OF assms(2)] by blast
  then show ?thesis using inverse [OF s(1)]
    by (simp add: LoadPersistentPropertyFile_def ReadPersistentPropertyFile_def ReadFile_def apply_effects_def
        new_inode_def S_IWGRP_def S_IWOTH_def)
qed

lemma property_written:
  assumes "WritePersistentProperty env memory n v fs = (Inr u, fs')"
  obtains fs1 where "WritePersistentPropertyFile env
     (update_record n v (case fst (LoadPersistentPropertyFile env fs) of Inr ps \<Rightarrow> ps
        | Inl _ \<Rightarrow> LoadPersistentPropertiesFromMemory (pw_lb env) memory)) fs1 = (Inr u, fs')"
  using assms by (cases "LoadPersistentPropertyFile env fs") (auto simp: WritePersistentProperty_def Let_def)

text \<open>What \<^verbatim>\<open>PropertySet\<close> hands to this component.\<close>

fun is_persist :: "ps_out \<Rightarrow> bool" where
  "is_persist (OutPersist n v) = True"
| "is_persist _ = False"

definition persists :: "prop_state \<Rightarrow> ps_out list" where
  "persists st = filter is_persist (ps_out st)"

lemma persists_emit [simp]: "persists (emit e st) = persists st @ (if is_persist e then [e] else [])"
  by (simp add: persists_def emit_def)

lemma persists_store [simp]: "persists (st\<lparr>ps_store := s\<rparr>) = persists st"
  by (simp add: persists_def)

lemma PropertySet_persists:
  assumes "PropertySet env n v st = (r, st')"
  shows "persistent_properties_loaded st' = persistent_properties_loaded st"
    "persists st' = persists st @
       (if r = PROP_SUCCESS \<and> persistent_properties_loaded st \<and> StartsWith (pe_lb env) n ''persist.'' then [OutPersist n v] else [])"
proof -
  obtain q t where q: "store_property env n v st = (q, t)" by fastforce
  then have t: "t = st \<or> t = st\<lparr>ps_store := (ps_store st)(n \<mapsto> v)\<rparr>" using store_property_cases [OF q] by (auto split: if_splits)
  show "persistent_properties_loaded st' = persistent_properties_loaded st"
    using assms q t by (cases q) (auto simp: PropertySet_def Let_def split: if_splits)
  show "persists st' = persists st @
       (if r = PROP_SUCCESS \<and> persistent_properties_loaded st \<and> StartsWith (pe_lb env) n ''persist.'' then [OutPersist n v] else [])"
    using assms q t by (cases q) (auto simp: PropertySet_def Let_def split: if_splits)
qed

text \<open>While the persistent properties are not loaded, nothing is written.\<close>

definition quiet :: "prop_state \<Rightarrow> prop_state \<Rightarrow> bool" where
  "quiet st st' = (\<not> persistent_properties_loaded st \<longrightarrow> \<not> persistent_properties_loaded st' \<and> persists st' = persists st)"

lemma quiet_refl [simp]: "quiet st st"
  by (simp add: quiet_def)

lemma quiet_trans: "quiet st st' \<Longrightarrow> quiet st' st'' \<Longrightarrow> quiet st st''"
  by (auto simp: quiet_def)

lemma quiet_set: "quiet st (snd (PropertySet env n v st))"
  using PropertySet_persists [of env n v st] by (cases "PropertySet env n v st") (auto simp: quiet_def)

lemma quiet_handle: "quiet st (snd (snd (HandlePropertySet env n v src cr sock st)))"
proof -
  have "quiet st (snd (snd (SendControlMessage env m w pid sock st)))" for m w pid
    by (auto simp: SendControlMessage_def QueueControlMessage_def quiet_def Let_def persists_def emit_def)
  then show ?thesis using quiet_set [of st env n v]
    by (auto simp: HandlePropertySet_def Let_def quiet_def split: prod.split)
qed

lemma quiet_init: "quiet st (snd (InitPropertySet env n v st))"
  using quiet_handle [of st env n v kInitContext "\<lparr>cr_pid = 1, cr_uid = 0, cr_gid = 0\<rparr>" False]
  by (simp add: InitPropertySet_def split_beta)

lemma quiet_fold:
  assumes "\<And>x st. quiet st (f x st)"
  shows "quiet st (fold f xs st)"
proof (induction xs arbitrary: st)
  case (Cons x xs)
  show ?case using quiet_trans [OF assms Cons] by simp
qed simp

lemma quiet_all: "quiet st (set_all env m st)" "quiet st (init_set_all env m st)"
  unfolding set_all_def init_set_all_def by (rule quiet_fold; auto intro: quiet_set quiet_init)+

lemma quiet_override: "load_override_properties env bs n st = Some st' \<Longrightarrow> quiet st st'"
  by (auto simp: load_override_properties_def quiet_all split: if_splits)

section \<open>Crashes\<close>

text \<open>Effects that leave the name of the property file alone.\<close>

fun tmp_only :: "fs_effect \<Rightarrow> bool" where
  "tmp_only RenameTmp = False"
| "tmp_only UnlinkMain = False"
| "tmp_only SyncDir = False"
| "tmp_only _ = True"

lemma tmp_only_main:
  "list_all tmp_only es \<Longrightarrow> fs_main (apply_effects es fs) = fs_main fs \<and> fs_old (apply_effects es fs) = fs_old fs"
proof (induction es arbitrary: fs)
  case (Cons e es)
  show ?case using Cons.IH [of "apply_effect e fs"] Cons.prems by (cases e) (auto simp: apply_effects_def)
qed (simp add: apply_effects_def)

lemma write_effects_cases:
  obtains "list_all tmp_only (snd (write_effects env ps))"
  | s rest where "pw_serialize env ps = Some s" "rest = [] \<or> rest = [SyncDir]"
      "snd (write_effects env ps) = [CreateTmp, WriteTmp s, SyncTmp, RenameTmp] @ rest"
proof (cases "pw_open env")
  case opened: True
  show thesis
  proof (cases "pw_serialize env ps")
    case None
    then show thesis using that(1) opened by (simp add: write_effects_def)
  next
    case (Some s)
    show thesis
    proof (cases "pw_written env = None \<and> pw_rename env")
      case True
      then show thesis using that(2) [OF Some, of "if pw_dir env then [SyncDir] else []"] opened Some by (simp add: write_effects_def)
    next
      case False
      then show thesis using that(1) opened Some by (cases "pw_written env") (auto simp: write_effects_def)
    qed
  qed
qed (use that(1) in \<open>simp add: write_effects_def\<close>)

lemma list_all_take: "list_all P xs \<Longrightarrow> list_all P (take k xs)"
  by (auto simp: list_all_iff dest: in_set_takeD)

section \<open>Properties\<close>

text \<open>
  C31: A persistent property that is set once the persistent properties are loaded is handed to
  the property file, and when the file was written, the next boot reads the new value and every
  other persistent property unchanged.
\<close>

theorem persistent_property_survives:
  assumes inverse: "\<And>ps s. pw_serialize pw ps = Some s \<Longrightarrow> pw_parse pw s = Some ps"
    and set: "PropertySet env n v st = (PROP_SUCCESS, st')" "persistent_properties_loaded st" "StartsWith (pe_lb env) n ''persist.''"
    and file_ok: "LoadPersistentPropertyFile pw fs = (Inr ps, fs1)"
    and written: "WritePersistentProperty pw memory n v fs = (Inr u, fs')"
  shows "persists st' = persists st @ [OutPersist n v] \<and>
    (\<exists>ps'. LoadPersistentProperties pw dir fs' = (ps', dir, fs') \<and> map_of ps' = (map_of ps)(n \<mapsto> v))"
proof
  show "persists st' = persists st @ [OutPersist n v]" using PropertySet_persists(2) [OF set(1)] set by simp
  obtain fs2 where "WritePersistentPropertyFile pw (update_record n v ps) fs2 = (Inr u, fs')"
    using property_written [OF written] file_ok by auto
  then have "LoadPersistentPropertyFile pw fs' = (Inr (update_record n v ps), fs')" using load_after_write inverse by blast
  then show "\<exists>ps'. LoadPersistentProperties pw dir fs' = (ps', dir, fs') \<and> map_of ps' = (map_of ps)(n \<mapsto> v)"
    by (simp add: LoadPersistentProperties_def update_record_map_of)
qed


text \<open>
  Loading the persistent properties does not write them back: until the whole file has been
  set, no default or override can overwrite the stored values.
\<close>

theorem loading_writes_nothing:
  assumes "HandleInitSocket env bs n msg pw dir fs st = Some (st', dir', fs')" "\<not> persistent_properties_loaded st"
  shows "persists st' = persists st"
proof (cases "msg = Inr LoadPersistent")
  case False
  then show ?thesis using assms(1) by (auto simp: HandleInitSocket_def split: sum.splits init_message.splits)
next
  case True
  then obtain st1 persistent where st1: "load_override_properties env bs n st = Some st1"
    "st' = (snd (InitPropertySet env ''ro.persistent_properties.ready'' ''true'' (init_set_all env persistent st1)))\<lparr>persistent_properties_loaded := True\<rparr>"
    using assms(1) by (auto simp: HandleInitSocket_def Let_def split: option.splits prod.splits)
  have "quiet st (snd (InitPropertySet env ''ro.persistent_properties.ready'' ''true'' (init_set_all env persistent st1)))"
    by (rule quiet_trans [OF quiet_trans [OF quiet_override [OF st1(1)] quiet_all(2)] quiet_init])
  then show ?thesis using st1(2) assms(2) by (simp add: quiet_def persists_def)
qed


section \<open>Witnesses\<close>

definition sample_persist_env :: persist_env where
  "sample_persist_env =
     \<lparr>pw_lb = ref_libbase,
      pw_serialize = (\<lambda>ps. if ps = [] then Some [] else if ps = [(''persist.a'', ''1'')] then Some ''a1'' else None),
      pw_parse = (\<lambda>s. if s = [] then Some [] else if s = ''a1'' then Some [(''persist.a'', ''1'')] else None),
      pw_open = True, pw_written = None, pw_rename = True, pw_dir = True\<rparr>"

definition sample_fs :: persist_fs where
  "sample_fs = \<lparr>fs_main = Some (new_inode\<lparr>ino_synced := True\<rparr>), fs_tmp = None, fs_old = None\<rparr>"

lemma sample_persist_inverse:
  "pw_serialize sample_persist_env ps = Some s \<Longrightarrow> pw_parse sample_persist_env s = Some ps"
  by (auto simp: sample_persist_env_def split: if_splits)

lemma sample_persist_file: "LoadPersistentPropertyFile sample_persist_env sample_fs = (Inr [], sample_fs)"
  by (simp add: LoadPersistentPropertyFile_def ReadPersistentPropertyFile_def sample_fs_def ReadFile_def new_inode_def
      S_IWGRP_def S_IWOTH_def sample_persist_env_def)

lemma sample_persist_written:
  "\<exists>fs'. WritePersistentProperty sample_persist_env [] ''persist.a'' ''1'' sample_fs = (Inr (), fs')"
  by (simp add: WritePersistentProperty_def sample_persist_file Let_def update_record_def AddPersistentProperty_def
      WritePersistentPropertyFile_def write_effects_def) (simp add: sample_persist_env_def)

lemma sample_persist_set:
  "\<exists>st'. PropertySet sample_file_env ''persist.a'' ''1'' (sample_prop_state\<lparr>persistent_properties_loaded := True\<rparr>) = (PROP_SUCCESS, st')"
  by (simp add: PropertySet_def IsLegalPropertyName_def legal_char_def c_islower_def code_of_def upt_rec
      IsLegalPropertyValue_def store_property_def sample_prop_state_def sample_file_env_def sample_prop_env_def Let_def)

theorem persistent_property_survives_witness:
  "\<exists>st' fs' ps'. persists st' = [OutPersist ''persist.a'' ''1''] \<and>
     WritePersistentProperty sample_persist_env [] ''persist.a'' ''1'' sample_fs = (Inr (), fs') \<and>
     LoadPersistentProperties sample_persist_env None fs' = (ps', None, fs') \<and> map_of ps' = [''persist.a'' \<mapsto> ''1'']"
proof -
  let ?st = "sample_prop_state\<lparr>persistent_properties_loaded := True\<rparr>"
  obtain st' where st': "PropertySet sample_file_env ''persist.a'' ''1'' ?st = (PROP_SUCCESS, st')" using sample_persist_set by blast
  obtain fs' where fs': "WritePersistentProperty sample_persist_env [] ''persist.a'' ''1'' sample_fs = (Inr (), fs')"
    using sample_persist_written by blast
  have "persistent_properties_loaded ?st" "StartsWith (pe_lb sample_file_env) ''persist.a'' ''persist.''" "persists ?st = []"
    by (simp_all add: sample_file_env_def sample_prop_env_def ref_libbase_def persists_def sample_prop_state_def)
  then show ?thesis
    using persistent_property_survives [OF sample_persist_inverse st' _ _ sample_persist_file fs', of None] fs' by auto
qed


theorem loading_writes_nothing_witness:
  "\<exists>st' dir' fs'. HandleInitSocket sample_file_env sample_boot_sources 1 (Inr LoadPersistent) sample_persist_env None sample_fs sample_prop_state =
     Some (st', dir', fs') \<and> persists st' = []"
proof -
  obtain st' dir' fs' where h: "HandleInitSocket sample_file_env sample_boot_sources 1 (Inr LoadPersistent) sample_persist_env None sample_fs
     sample_prop_state = Some (st', dir', fs')"
    by (simp add: HandleInitSocket_def load_override_properties_def sample_boot_sources_def LoadPersistentProperties_def sample_persist_file Let_def)
  then show ?thesis using loading_writes_nothing [OF h] by (simp add: sample_prop_state_def persists_def)
qed

end
