(* ===== verification/Epoll.thy ===== *)
theory Epoll
  imports Util
begin

text \<open>
  The table of handlers of the event loop (\<^verbatim>\<open>init/epoll.cpp\<close>). A handler is known by its kind, a
  value of the type \<open>'h\<close>. The answers of \<^verbatim>\<open>epoll_ctl\<close> and \<^verbatim>\<open>epoll_wait\<close> are arguments.
\<close>

record 'h Epoll =
  epoll_handlers :: "(int \<times> 'h) list"

definition new_epoll :: "'h Epoll" where
  "new_epoll = \<lparr>epoll_handlers = []\<rparr>"

definition RegisterHandler :: "bool \<Rightarrow> int \<Rightarrow> 'h \<Rightarrow> 32 word \<Rightarrow> 'h Epoll \<Rightarrow> unit result \<times> 'h Epoll" where
  "RegisterHandler ctl_ok fd handler events ep =
     (if events = 0 then (Err (Error ''Must specify events''), ep)
      else if map_of (epoll_handlers ep) fd \<noteq> None
      then (Err (Error ''Cannot specify two epoll handlers for a given FD''), ep)
      else if \<not> ctl_ok then (Err (ErrnoError ''epoll_ctl failed to add fd''), ep)
      else (Ok (), ep\<lparr>epoll_handlers := (fd, handler) # epoll_handlers ep\<rparr>))"

definition UnregisterHandler :: "bool \<Rightarrow> int \<Rightarrow> 'h Epoll \<Rightarrow> unit result \<times> 'h Epoll" where
  "UnregisterHandler ctl_ok fd ep =
     (if \<not> ctl_ok then (Err (ErrnoError ''epoll_ctl failed to remove fd''), ep)
      else if map_of (epoll_handlers ep) fd = None
      then (Err (Error ''Attempting to remove epoll handler for FD without an existing handler''), ep)
      else (Ok (), ep\<lparr>epoll_handlers := filter (\<lambda>fh. fst fh \<noteq> fd) (epoll_handlers ep)\<rparr>))"

definition INT_MAX :: int where "INT_MAX = 2147483647"

definition timeout_ms :: "int option \<Rightarrow> int" where
  "timeout_ms timeout = (case timeout of Some t \<Rightarrow> if t < INT_MAX then t else - 1 | None \<Rightarrow> - 1)"

text \<open>
  \<open>ready\<close> is what \<^verbatim>\<open>epoll_wait\<close> reports, \<open>None\<close> for its failure. The handlers are copied before any
  of them runs.
\<close>

definition Wait :: "int list option \<Rightarrow> 'h Epoll \<Rightarrow> 'h list result" where
  "Wait ready ep =
     (case ready of
        None \<Rightarrow> Err (ErrnoError ''epoll_wait failed'')
      | Some fds \<Rightarrow> Ok (List.map_filter (map_of (epoll_handlers ep)) fds))"

definition epoll_inv :: "'h Epoll \<Rightarrow> bool" where
  "epoll_inv ep = distinct (map fst (epoll_handlers ep))"

lemma new_epoll_inv: "epoll_inv new_epoll"
  by (simp add: epoll_inv_def new_epoll_def)

lemma RegisterHandler_inv: "epoll_inv ep \<Longrightarrow> epoll_inv (snd (RegisterHandler c fd h ev ep))"
  by (auto simp: epoll_inv_def RegisterHandler_def map_of_eq_None_iff)

lemma UnregisterHandler_inv: "epoll_inv ep \<Longrightarrow> epoll_inv (snd (UnregisterHandler c fd ep))"
  by (auto simp: epoll_inv_def UnregisterHandler_def distinct_map_filter)

lemma RegisterHandler_new: "RegisterHandler c fd h ev ep = (Ok (), ep') \<Longrightarrow> map_of (epoll_handlers ep') fd = Some h"
  by (auto simp: RegisterHandler_def split: if_splits)

lemma RegisterHandler_handlers:
  "set (epoll_handlers (snd (RegisterHandler c fd h ev ep))) \<subseteq> insert (fd, h) (set (epoll_handlers ep))"
  by (auto simp: RegisterHandler_def)

lemma UnregisterHandler_handlers: "set (epoll_handlers (snd (UnregisterHandler c fd ep))) \<subseteq> set (epoll_handlers ep)"
  by (auto simp: UnregisterHandler_def)

lemma Wait_registered: "Wait ready ep = Ok hs \<Longrightarrow> h \<in> set hs \<Longrightarrow> h \<in> snd ` set (epoll_handlers ep)"
  by (force simp: Wait_def List.map_filter_def dest: map_of_SomeD split: option.splits)

end
