(* ===== verification/Keychords.thy ===== *)
theory Keychords
  imports Epoll
begin

text \<open>
  Key chords (\<^verbatim>\<open>init/keychords.cpp\<close>): chords of keys that start services, the input devices they
  are read from, and the bits of the keys that are down. Reading a bit outside of the mask is
  \<open>None\<close>: the source indexes a vector without a check. A key code is converted to an unsigned
  number of 64 bits.
\<close>

section \<open>Masks\<close>

type_synonym Mask = "32 word list"

text \<open>The number of words is computed from the number of bits as if it counted bytes.\<close>

definition new_mask :: "nat \<Rightarrow> Mask" where
  "new_mask b = replicate ((b + 3) div 4) 0"

definition SetBit :: "nat \<Rightarrow> bool \<Rightarrow> Mask \<Rightarrow> Mask" where
  "SetBit b v bits =
     (if length bits \<le> b div 32 then bits
      else bits[b div 32 := (if v then set_bit else unset_bit) (b mod 32) (bits ! (b div 32))])"

definition GetBit :: "nat \<Rightarrow> Mask \<Rightarrow> bool option" where
  "GetBit i bits = (if i div 32 < length bits then Some (bit (bits ! (i div 32)) (i mod 32)) else None)"

definition mask_size :: "Mask \<Rightarrow> nat" where "mask_size bits = length bits * 4 * 8"

definition vector_resize :: "nat \<Rightarrow> Mask \<Rightarrow> Mask" where
  "vector_resize n bits = take n bits @ replicate (n - length bits) 0"

definition mask_resize :: "nat \<Rightarrow> Mask \<Rightarrow> Mask" where
  "mask_resize b bits = (if length bits \<le> b div 32 then vector_resize (b div 32 + 1) bits else bits)"

definition any_bit :: "Mask \<Rightarrow> bool" where
  "any_bit bits = list_ex (\<lambda>w. w \<noteq> 0) bits"

definition mask_and :: "Mask \<Rightarrow> Mask \<Rightarrow> Mask" where
  "mask_and a b = map (\<lambda>(x, y). and x y) (zip a b)"

text \<open>The left operand takes the length of the right one.\<close>

definition mask_or :: "Mask \<Rightarrow> Mask \<Rightarrow> Mask" where
  "mask_or a b = map (\<lambda>(x, y). or x y) (zip (vector_resize (length b) a) b)"

text \<open>What the kernel copies into a mask: at most \<open>n\<close> bytes of its bits.\<close>

definition copy_bits :: "nat \<Rightarrow> (nat \<Rightarrow> bool) \<Rightarrow> Mask \<Rightarrow> Mask" where
  "copy_bits n p bits =
     map (\<lambda>i. horner_sum of_bool 2 (map (\<lambda>k. if 32 * i + k < 8 * n then p (32 * i + k) else bit (bits ! i) k) [0..<32]))
       [0..<length bits]"

section \<open>State\<close>

definition size_of_int :: "int \<Rightarrow> nat" where
  "size_of_int code = nat (code mod 2 ^ 64)"

datatype keychord_effect = Chord "int list" | SetEventMask int Mask | CloseDevice int

text \<open>The handlers the event loop can have; \<open>KeychordFd\<close> carries the descriptor it captured.\<close>

datatype handler = SignalFd | WakeFd | MountsFd | InotifyFd | KeychordFd int

record Keychords =
  kc_registration :: "(string \<times> int) list"
  kc_entries :: "(int list \<times> bool) list"
  kc_current :: Mask
  inotify_fd :: int
  EviocsmaskSupported :: bool
  kc_epoll :: "handler Epoll"
  kc_out :: "keychord_effect list"

text \<open>
  An input device as the calls on its descriptor see it: \<open>ev_version\<close> when it is an event channel,
  \<open>ev_mask\<close> when masks are supported, the keys it has (\<open>None\<close> when the call fails, with the number
  of bytes copied) and the keys that are down.
\<close>

record input_device =
  ev_fd :: int
  ev_version :: bool
  ev_mask :: bool
  ev_available :: "(int \<times> (nat \<Rightarrow> bool)) option"
  ev_down :: "int \<times> (nat \<Rightarrow> bool)"
  ev_register :: bool

definition kc_emit :: "keychord_effect \<Rightarrow> Keychords \<Rightarrow> Keychords" where
  "kc_emit e kc = kc\<lparr>kc_out := kc_out kc @ [e]\<rparr>"

fun vec_less :: "int list \<Rightarrow> int list \<Rightarrow> bool" where
  "vec_less _ [] = False"
| "vec_less [] (_ # _) = True"
| "vec_less (x # xs) (y # ys) = (x < y \<or> x = y \<and> vec_less xs ys)"

text \<open>\<^verbatim>\<open>std::map\<close> keeps the chords in the order of their keys; \<^verbatim>\<open>try_emplace\<close> keeps what is there.\<close>

fun emplace_entry :: "int list \<Rightarrow> (int list \<times> bool) list \<Rightarrow> (int list \<times> bool) list" where
  "emplace_entry k [] = [(k, False)]"
| "emplace_entry k (e # es) =
     (if vec_less k (fst e) then (k, False) # e # es
      else if k = fst e then e # es else e # emplace_entry k es)"

definition Register :: "int list \<Rightarrow> Keychords \<Rightarrow> Keychords" where
  "Register keycodes kc = (if keycodes = [] then kc else kc\<lparr>kc_entries := emplace_entry keycodes (kc_entries kc)\<rparr>)"

section \<open>Chords\<close>

fun all_down :: "Mask \<Rightarrow> int list \<Rightarrow> bool option" where
  "all_down bits [] = Some True"
| "all_down bits (c # cs) =
     (case GetBit (size_of_int c) bits of
        None \<Rightarrow> None
      | Some False \<Rightarrow> Some False
      | Some True \<Rightarrow> all_down bits cs)"

fun check_entries :: "Mask \<Rightarrow> (int list \<times> bool) list \<Rightarrow> ((int list \<times> bool) list \<times> keychord_effect list) option" where
  "check_entries bits [] = Some ([], [])"
| "check_entries bits ((k, notified) # es) =
     (case all_down bits k of
        None \<Rightarrow> None
      | Some found \<Rightarrow>
          (case check_entries bits es of
             None \<Rightarrow> None
           | Some (es, fired) \<Rightarrow> Some ((k, found) # es, (if found \<and> \<not> notified then [Chord k] else []) @ fired)))"

definition LambdaCheck :: "Keychords \<Rightarrow> Keychords option" where
  "LambdaCheck kc =
     (case check_entries (kc_current kc) (kc_entries kc) of
        None \<Rightarrow> None
      | Some (es, fired) \<Rightarrow> Some (kc\<lparr>kc_entries := es, kc_out := kc_out kc @ fired\<rparr>))"

text \<open>\<open>event\<close> is what was read: a key with its value, or \<open>None\<close> for a short read or another event.\<close>

definition LambdaHandler :: "(nat \<times> bool) option \<Rightarrow> Keychords \<Rightarrow> Keychords option" where
  "LambdaHandler event kc =
     (case event of
        None \<Rightarrow> Some kc
      | Some (code, v) \<Rightarrow> LambdaCheck (kc\<lparr>kc_current := SetBit code v (kc_current kc)\<rparr>))"

section \<open>Devices\<close>

definition chord_mask :: "(int list \<times> bool) list \<Rightarrow> Mask" where
  "chord_mask es =
     fold (\<lambda>c m. SetBit (size_of_int c) True (mask_resize (size_of_int c) m)) (concat (map fst es)) (new_mask 0)"

text \<open>
  The calls in their order; the first mask call is made while masks are believed to be supported,
  for the whole process.
\<close>

definition try_syn_mask :: "input_device \<Rightarrow> Keychords \<Rightarrow> Keychords" where
  "try_syn_mask dev kc =
     (if EviocsmaskSupported kc then
        (if ev_mask dev then kc_emit (SetEventMask (ev_fd dev) (SetBit 1 True (new_mask 1))) kc
         else kc\<lparr>EviocsmaskSupported := False\<rparr>)
      else kc)"

text \<open>The last part: the keys that are down already, and the handler.\<close>

definition watch_device :: "input_device \<Rightarrow> int \<Rightarrow> Mask \<Rightarrow> Mask \<Rightarrow> Keychords \<Rightarrow> (bool \<times> Keychords) option" where
  "watch_device dev res key_mask available kc =
     (let set_mask = copy_bits (nat res) (snd (ev_down dev)) (new_mask (mask_size key_mask))
      in case (if fst (ev_down dev) > 0
               then LambdaCheck (kc\<lparr>kc_current := mask_or (kc_current kc) (mask_and (mask_and key_mask available) set_mask)\<rparr>)
               else Some kc) of
           None \<Rightarrow> None
         | Some kc \<Rightarrow>
             (case RegisterHandler (ev_register dev) (ev_fd dev) (KeychordFd (ev_fd dev)) 1 (kc_epoll kc) of
                (Inl _, ep) \<Rightarrow> Some (False, kc\<lparr>kc_epoll := ep\<rparr>)
              | (Inr _, ep) \<Rightarrow> Some (True, kc\<lparr>kc_epoll := ep\<rparr>)))"

definition GeteventEnable :: "input_device \<Rightarrow> Keychords \<Rightarrow> (bool \<times> Keychords) option" where
  "GeteventEnable dev kc =
     (if \<not> ev_version dev then Some (False, kc)
      else
        (let kc = try_syn_mask dev kc;
             key_mask = chord_mask (kc_entries kc);
             kc = kc\<lparr>kc_current := mask_resize (mask_size key_mask) (kc_current kc)\<rparr>
         in case ev_available dev of
              None \<Rightarrow> Some (False, kc)
            | Some (res, p) \<Rightarrow>
                (let available = copy_bits (nat res) p (new_mask (mask_size key_mask))
                 in if \<not> any_bit (mask_and available key_mask) then Some (False, kc)
                    else
                      watch_device dev res key_mask available
                        (if EviocsmaskSupported kc then kc_emit (SetEventMask (ev_fd dev) key_mask) kc else kc))))"

text \<open>\<open>devs\<close>: what opening a path gives.\<close>

type_synonym input_devices = "string \<Rightarrow> input_device option"

definition GeteventOpenDevice :: "input_devices \<Rightarrow> string \<Rightarrow> Keychords \<Rightarrow> Keychords option" where
  "GeteventOpenDevice devs device kc =
     (if map_of (kc_registration kc) device \<noteq> None then Some kc
      else
        (case devs device of
           None \<Rightarrow> Some kc
         | Some dev \<Rightarrow>
             (case GeteventEnable dev kc of
                None \<Rightarrow> None
              | Some (False, kc) \<Rightarrow> Some (kc_emit (CloseDevice (ev_fd dev)) kc)
              | Some (True, kc) \<Rightarrow> Some (kc\<lparr>kc_registration := (device, ev_fd dev) # kc_registration kc\<rparr>))))"

text \<open>Removing a descriptor that is still open does not fail.\<close>

definition GeteventCloseDevice :: "string \<Rightarrow> Keychords \<Rightarrow> Keychords" where
  "GeteventCloseDevice device kc =
     (case map_of (kc_registration kc) device of
        None \<Rightarrow> kc
      | Some fd \<Rightarrow>
          kc_emit (CloseDevice fd)
            (kc\<lparr>kc_epoll := snd (UnregisterHandler True fd (kc_epoll kc)),
               kc_registration := filter (\<lambda>df. fst df \<noteq> device) (kc_registration kc)\<rparr>))"

definition kDevicePath :: string where "kDevicePath = ''/dev/input''"

text \<open>\<open>events\<close>: the complete events that were read, with the name and whether it was created; an event without a name is skipped.\<close>

fun InotifyHandler :: "input_devices \<Rightarrow> (string \<times> bool) list \<Rightarrow> Keychords \<Rightarrow> Keychords option" where
  "InotifyHandler devs [] kc = Some kc"
| "InotifyHandler devs ((name, create) # es) kc =
     (if name = [] then InotifyHandler devs es kc
      else
        (let devname = kDevicePath @ ''/'' @ name
         in if create
            then (case GeteventOpenDevice devs devname kc of None \<Rightarrow> None | Some kc \<Rightarrow> InotifyHandler devs es kc)
            else InotifyHandler devs es (GeteventCloseDevice devname kc)))"

fun open_all :: "input_devices \<Rightarrow> string list \<Rightarrow> Keychords \<Rightarrow> Keychords option" where
  "open_all devs [] kc = Some kc"
| "open_all devs (n # ns) kc =
     (if take 1 n = ''.'' then open_all devs ns kc
      else (case GeteventOpenDevice devs (kDevicePath @ ''/'' @ n) kc of None \<Rightarrow> None | Some kc \<Rightarrow> open_all devs ns kc))"

text \<open>\<open>inotify\<close>: the descriptor of the watch, if it could be set up, and whether it could be polled; \<open>dir\<close>: the names in the directory.\<close>

definition open_devices :: "input_devices \<Rightarrow> (int \<times> bool) option \<Rightarrow> string list option \<Rightarrow> Keychords \<Rightarrow> Keychords option" where
  "open_devices devs inotify dir kc =
     (let kc = kc\<lparr>inotify_fd := (case inotify of None \<Rightarrow> - 1 | Some (fd, _) \<Rightarrow> fd)\<rparr>
      in case open_all devs (case dir of None \<Rightarrow> [] | Some ns \<Rightarrow> ns) kc of
           None \<Rightarrow> None
         | Some kc \<Rightarrow>
             Some (case inotify of
                None \<Rightarrow> kc
              | Some (fd, ctl_ok) \<Rightarrow> kc\<lparr>kc_epoll := snd (RegisterHandler ctl_ok fd InotifyFd 1 (kc_epoll kc))\<rparr>))"

definition Keychords_Start :: "input_devices \<Rightarrow> (int \<times> bool) option \<Rightarrow> string list option \<Rightarrow> Keychords \<Rightarrow> Keychords option" where
  "Keychords_Start devs inotify dir kc =
     (if kc_entries kc \<noteq> [] then open_devices devs inotify dir kc else Some kc)"

section \<open>Serving the handlers\<close>

text \<open>
  The handlers of the chords among the ones \<^verbatim>\<open>Wait\<close> gave, in order: \<open>key\<close> is what reading a
  descriptor gives, \<open>changes\<close> what reading the watch gives (\<open>None\<close> for an error).
\<close>

fun serve_keychord ::
  "input_devices \<Rightarrow> (int \<Rightarrow> (nat \<times> bool) option) \<Rightarrow> (string \<times> bool) list option \<Rightarrow> handler \<Rightarrow> Keychords \<Rightarrow> Keychords option" where
  "serve_keychord devs key changes (KeychordFd fd) kc = LambdaHandler (key fd) kc"
| "serve_keychord devs key changes InotifyFd kc = (case changes of None \<Rightarrow> Some kc | Some es \<Rightarrow> InotifyHandler devs es kc)"
| "serve_keychord devs key changes _ kc = Some kc"

fun serve_keychords ::
  "input_devices \<Rightarrow> (int \<Rightarrow> (nat \<times> bool) option) \<Rightarrow> (string \<times> bool) list option \<Rightarrow> handler list \<Rightarrow> Keychords \<Rightarrow> Keychords option" where
  "serve_keychords devs key changes [] kc = Some kc"
| "serve_keychords devs key changes (h # hs) kc =
     (case serve_keychord devs key changes h kc of None \<Rightarrow> None | Some kc \<Rightarrow> serve_keychords devs key changes hs kc)"

section \<open>Bits in range\<close>

definition code_fits :: "Mask \<Rightarrow> int \<Rightarrow> bool" where
  "code_fits bits c = (size_of_int c < 32 * length bits)"

definition codes_fit :: "Keychords \<Rightarrow> bool" where
  "codes_fit kc = list_all (\<lambda>e. list_all (code_fits (kc_current kc)) (fst e)) (kc_entries kc)"

definition key_down :: "Mask \<Rightarrow> int \<Rightarrow> bool" where
  "key_down bits c = bit (bits ! (size_of_int c div 32)) (size_of_int c mod 32)"

definition chord_down :: "Mask \<Rightarrow> int list \<Rightarrow> bool" where
  "chord_down bits k = list_all (key_down bits) k"

lemma GetBit_fits: "code_fits bits c \<Longrightarrow> GetBit (size_of_int c) bits = Some (key_down bits c)"
  by (simp add: GetBit_def code_fits_def key_down_def less_mult_imp_div_less mult.commute)

lemma all_down_fits: "list_all (code_fits bits) k \<Longrightarrow> all_down bits k = Some (chord_down bits k)"
  by (induction k) (auto simp: GetBit_fits chord_down_def split: bool.split)

lemma check_entries_fits:
  "list_all (\<lambda>e. list_all (code_fits bits) (fst e)) es \<Longrightarrow>
   check_entries bits es =
     Some (map (\<lambda>(k, n). (k, chord_down bits k)) es,
           map (Chord \<circ> fst) (filter (\<lambda>(k, n). chord_down bits k \<and> \<not> n) es))"
  by (induction es) (auto simp: all_down_fits split: if_splits)

lemma LambdaCheck_fits:
  assumes "codes_fit kc"
  shows "LambdaCheck kc =
    Some (kc\<lparr>kc_entries := map (\<lambda>(k, n). (k, chord_down (kc_current kc) k)) (kc_entries kc),
            kc_out := kc_out kc @ map (Chord \<circ> fst) (filter (\<lambda>(k, n). chord_down (kc_current kc) k \<and> \<not> n) (kc_entries kc))\<rparr>)"
  using check_entries_fits [of "kc_current kc" "kc_entries kc"] assms by (simp add: LambdaCheck_def codes_fit_def)

lemma SetBit_length [simp]: "length (SetBit b v bits) = length bits"
  by (simp add: SetBit_def)

lemma vector_resize_length [simp]: "length (vector_resize n bits) = n"
  by (simp add: vector_resize_def)

lemma mask_resize_length: "length (mask_resize b bits) = max (length bits) (b div 32 + 1)"
  by (simp add: mask_resize_def)

lemma new_mask_length [simp]: "length (new_mask n) = (n + 3) div 4"
  by (simp add: new_mask_def)

lemma copy_bits_length [simp]: "length (copy_bits n p bits) = length bits"
  by (simp add: copy_bits_def)

lemma mask_and_length [simp]: "length (mask_and a b) = min (length a) (length b)"
  by (simp add: mask_and_def)

lemma mask_or_length [simp]: "length (mask_or a b) = length b"
  by (simp add: mask_or_def)

lemma code_fits_mono: "code_fits m c \<Longrightarrow> length m \<le> length m' \<Longrightarrow> code_fits m' c"
  by (simp add: code_fits_def)

lemma chord_mask_fold:
  fixes m :: Mask
  defines "step \<equiv> \<lambda>c m. SetBit (size_of_int c) True (mask_resize (size_of_int c) m)"
  shows "length m \<le> length (fold step cs m) \<and> (\<forall>c \<in> set cs. code_fits (fold step cs m) c)"
proof (induction cs arbitrary: m)
  case (Cons c cs)
  have len: "length (step c m) = max (length m) (size_of_int c div 32 + 1)" by (simp add: step_def mask_resize_length)
  have "size_of_int c < 32 * (size_of_int c div 32 + 1)"
    using dividend_less_times_div [of 32 "size_of_int c"] by simp
  then have "code_fits (step c m) c"
    using len unfolding code_fits_def by (metis less_le_trans max.cobounded2 mult_le_mono2)
  then have "code_fits (fold step cs (step c m)) c" using Cons.IH [of "step c m"] code_fits_mono by blast
  then show ?case using Cons.IH [of "step c m"] len by simp
qed simp

lemma chord_mask_fits: "list_all (\<lambda>e. list_all (code_fits (chord_mask es)) (fst e)) es"
  using chord_mask_fold [of "new_mask 0" "concat (map fst es)"] by (auto simp: chord_mask_def list_all_iff)

lemma codes_fit_mono:
  assumes "list_all (\<lambda>e. list_all (code_fits m) (fst e)) (kc_entries kc)" "length m \<le> length (kc_current kc)"
  shows "codes_fit kc"
  unfolding codes_fit_def using assms(1)
  by (rule list.pred_mono_strong) (erule list.pred_mono_strong, erule code_fits_mono [OF _ assms(2)])

text \<open>What every step keeps: the chords stay, and the mask does not become too short for them.\<close>

definition same_chords :: "Keychords \<Rightarrow> Keychords \<Rightarrow> bool" where
  "same_chords kc kc' = (map fst (kc_entries kc') = map fst (kc_entries kc) \<and> (codes_fit kc \<longrightarrow> codes_fit kc'))"

definition has_device :: "handler Epoll \<Rightarrow> bool" where
  "has_device ep = (\<exists>fd. KeychordFd fd \<in> snd ` set (epoll_handlers ep))"

definition kc_inv :: "Keychords \<Rightarrow> bool" where
  "kc_inv kc = (has_device (kc_epoll kc) \<longrightarrow> codes_fit kc)"

lemma same_chords_refl [simp]: "same_chords kc kc"
  by (simp add: same_chords_def)

lemma same_chords_trans: "same_chords a b \<Longrightarrow> same_chords b c \<Longrightarrow> same_chords a c"
  by (simp add: same_chords_def)

lemma codes_fit_cong:
  "map fst (kc_entries kc') = map fst (kc_entries kc) \<Longrightarrow> length (kc_current kc') = length (kc_current kc) \<Longrightarrow> codes_fit kc' = codes_fit kc"
proof -
  have *: "codes_fit k = list_all (list_all (code_fits (kc_current k))) (map fst (kc_entries k))" for k
    by (simp add: codes_fit_def list.pred_map comp_def)
  have "code_fits (kc_current kc') = code_fits (kc_current kc)" if "length (kc_current kc') = length (kc_current kc)"
    using that by (simp add: code_fits_def fun_eq_iff)
  then show "map fst (kc_entries kc') = map fst (kc_entries kc) \<Longrightarrow> length (kc_current kc') = length (kc_current kc) \<Longrightarrow> codes_fit kc' = codes_fit kc"
    by (simp add: *)
qed

lemma LambdaCheck_frame:
  assumes "LambdaCheck kc = Some kc'"
  shows "kc_epoll kc' = kc_epoll kc" "map fst (kc_entries kc') = map fst (kc_entries kc)" "kc_current kc' = kc_current kc" "kc_registration kc' = kc_registration kc"
proof -
  have "check_entries bits es = Some (es', f) \<Longrightarrow> map fst es' = map fst es" for bits es es' f
    by (induction es arbitrary: es' f) (auto split: option.splits)
  then show "kc_epoll kc' = kc_epoll kc" "map fst (kc_entries kc') = map fst (kc_entries kc)" "kc_current kc' = kc_current kc" "kc_registration kc' = kc_registration kc"
    using assms by (auto simp: LambdaCheck_def split: option.splits)
qed

lemma LambdaHandler_ok:
  assumes "codes_fit kc"
  shows "\<exists>kc'. LambdaHandler ev kc = Some kc' \<and> codes_fit kc' \<and> kc_epoll kc' = kc_epoll kc"
proof (cases ev)
  case (Some cv)
  obtain c v where cv: "cv = (c, v)" by fastforce
  let ?kc = "kc\<lparr>kc_current := SetBit c v (kc_current kc)\<rparr>"
  have f: "codes_fit ?kc" using assms codes_fit_cong [of ?kc kc] by simp
  then obtain kc' where l: "LambdaCheck ?kc = Some kc'" using LambdaCheck_fits by blast
  then show ?thesis using LambdaCheck_frame [OF l] f codes_fit_cong [of kc' ?kc] Some cv by (simp add: LambdaHandler_def)
qed (use assms in \<open>simp add: LambdaHandler_def\<close>)

lemma try_syn_mask_frame [simp]:
  "kc_entries (try_syn_mask dev kc) = kc_entries kc" "kc_current (try_syn_mask dev kc) = kc_current kc"
  "kc_epoll (try_syn_mask dev kc) = kc_epoll kc" "kc_registration (try_syn_mask dev kc) = kc_registration kc"
  by (simp_all add: try_syn_mask_def kc_emit_def)

lemma kc_emit_frame [simp]:
  "kc_entries (kc_emit e kc) = kc_entries kc" "kc_current (kc_emit e kc) = kc_current kc"
  "kc_epoll (kc_emit e kc) = kc_epoll kc" "kc_registration (kc_emit e kc) = kc_registration kc"
  by (simp_all add: kc_emit_def)

lemma register_fits: "codes_fit kc \<Longrightarrow> codes_fit (kc\<lparr>kc_epoll := ep\<rparr>)"
  using codes_fit_cong [of "kc\<lparr>kc_epoll := ep\<rparr>" kc] by simp

lemma words_enough: "n \<le> (32 * n + 3) div 4" for n :: nat
  by presburger

lemma watch_device_ok:
  assumes "list_all (\<lambda>e. list_all (code_fits m) (fst e)) (kc_entries kc)" "codes_fit kc" "length m \<le> length available"
  shows "\<exists>b kc'. watch_device dev res m available kc = Some (b, kc') \<and> codes_fit kc' \<and> map fst (kc_entries kc') = map fst (kc_entries kc)"
proof -
  define kc1 where "kc1 = kc\<lparr>kc_current := mask_or (kc_current kc)
      (mask_and (mask_and m available) (copy_bits (nat res) (snd (ev_down dev)) (new_mask (mask_size m))))\<rparr>"
  have "length (kc_current kc1) = length m" using assms(3) words_enough [of "length m"] by (simp add: kc1_def mask_size_def)
  then have f: "codes_fit kc1" using assms(1) by (intro codes_fit_mono [of m]) (simp_all add: kc1_def)
  then obtain kc2 where l: "LambdaCheck kc1 = Some kc2" using LambdaCheck_fits by blast
  have f2: "codes_fit kc2" "map fst (kc_entries kc2) = map fst (kc_entries kc)"
    using LambdaCheck_frame [OF l] f codes_fit_cong [of kc2 kc1] by (simp_all add: kc1_def)
  show ?thesis
    using l f2 assms(2) by (auto simp: watch_device_def kc1_def [symmetric] Let_def intro: register_fits split: prod.split sum.split)
qed

lemma GeteventEnable_ok:
  "\<exists>b kc'. GeteventEnable dev kc = Some (b, kc') \<and> map fst (kc_entries kc') = map fst (kc_entries kc) \<and>
     (codes_fit kc \<or> has_device (kc_epoll kc') \<and> \<not> has_device (kc_epoll kc) \<longrightarrow> codes_fit kc')"
proof (cases "ev_version dev")
  case True
  define kc1 where "kc1 = (try_syn_mask dev kc)\<lparr>kc_current := mask_resize (mask_size (chord_mask (kc_entries kc))) (kc_current kc)\<rparr>"
  let ?m = "chord_mask (kc_entries kc)"
  have "length ?m \<le> length (kc_current kc1)" by (simp add: kc1_def mask_resize_length mask_size_def)
  then have f: "codes_fit kc1" using chord_mask_fits [of "kc_entries kc"] by (intro codes_fit_mono [of ?m]) (simp_all add: kc1_def)
  have e: "kc_entries kc1 = kc_entries kc" "kc_epoll kc1 = kc_epoll kc" by (simp_all add: kc1_def)
  have w: "\<exists>b kc'. watch_device dev res ?m (copy_bits n p (new_mask (mask_size ?m)))
        (if s then kc_emit x kc1 else kc1) = Some (b, kc') \<and> codes_fit kc' \<and> map fst (kc_entries kc') = map fst (kc_entries kc)" for res n p s x
    using watch_device_ok [of ?m "if s then kc_emit x kc1 else kc1" "copy_bits n p (new_mask (mask_size ?m))" dev res]
      chord_mask_fits [of "kc_entries kc"] f codes_fit_cong [of "kc_emit x kc1" kc1]
      words_enough [of "length ?m"]
    by (cases s) (simp_all add: e mask_size_def)
  have g: "GeteventEnable dev kc = (case ev_available dev of
        None \<Rightarrow> Some (False, kc1)
      | Some (res, p) \<Rightarrow>
          if \<not> any_bit (mask_and (copy_bits (nat res) p (new_mask (mask_size ?m))) ?m) then Some (False, kc1)
          else watch_device dev res ?m (copy_bits (nat res) p (new_mask (mask_size ?m)))
                 (if EviocsmaskSupported kc1 then kc_emit (SetEventMask (ev_fd dev) ?m) kc1 else kc1))"
    using True by (simp add: GeteventEnable_def Let_def kc1_def split: option.split)
  show ?thesis
  proof (cases "ev_available dev")
    case None
    then have "GeteventEnable dev kc = Some (False, kc1)" using g by simp
    then show ?thesis using f e by metis
  next
    case (Some rp)
    obtain res p where rp: "rp = (res, p)" by fastforce
    show ?thesis
      using Some g f e w [of res "nat res" p "EviocsmaskSupported kc1" "SetEventMask (ev_fd dev) ?m"]
      by (cases "any_bit (mask_and (copy_bits (nat res) p (new_mask (mask_size ?m))) ?m)") (auto simp: rp)
  qed
qed (simp add: GeteventEnable_def, blast)

text \<open>Opening, closing and serving.\<close>

lemma kc_inv_fit: "codes_fit kc \<Longrightarrow> kc_inv kc"
  by (simp add: kc_inv_def)

lemma GeteventOpenDevice_ok:
  assumes "kc_inv kc"
  shows "\<exists>kc'. GeteventOpenDevice devs d kc = Some kc' \<and> kc_inv kc' \<and> (codes_fit kc \<longrightarrow> codes_fit kc')"
proof (cases "map_of (kc_registration kc) d = None \<and> devs d \<noteq> None")
  case True
  then obtain dev where dev: "devs d = Some dev" by blast
  obtain b kc1 where e: "GeteventEnable dev kc = Some (b, kc1)"
      "codes_fit kc \<or> has_device (kc_epoll kc1) \<and> \<not> has_device (kc_epoll kc) \<longrightarrow> codes_fit kc1"
    using GeteventEnable_ok [of dev kc] by blast
  have f: "kc_inv kc1" "codes_fit kc \<longrightarrow> codes_fit kc1" using e(2) assms by (auto simp: kc_inv_def)
  have c: "codes_fit (kc_emit x kc1) = codes_fit kc1" "codes_fit (kc1\<lparr>kc_registration := rg\<rparr>) = codes_fit kc1" for x rg
    by (rule codes_fit_cong, simp_all)+
  show ?thesis using True dev e(1) f by (cases b) (simp_all add: GeteventOpenDevice_def kc_inv_def c)
qed (use assms in \<open>auto simp: GeteventOpenDevice_def\<close>)

lemma has_device_unregister: "has_device (snd (UnregisterHandler c fd ep)) \<Longrightarrow> has_device ep"
  using UnregisterHandler_handlers [of c fd ep] by (auto simp: has_device_def)

lemma GeteventCloseDevice_ok:
  "kc_inv kc \<Longrightarrow> kc_inv (GeteventCloseDevice d kc) \<and> (codes_fit kc \<longrightarrow> codes_fit (GeteventCloseDevice d kc))"
proof -
  have "codes_fit (kc_emit x (kc\<lparr>kc_epoll := ep, kc_registration := rg\<rparr>)) = codes_fit kc" for x ep rg
    by (rule codes_fit_cong) simp_all
  then show "kc_inv kc \<Longrightarrow> kc_inv (GeteventCloseDevice d kc) \<and> (codes_fit kc \<longrightarrow> codes_fit (GeteventCloseDevice d kc))"
    by (auto simp: GeteventCloseDevice_def kc_inv_def dest: has_device_unregister split: option.split)
qed

lemma InotifyHandler_ok:
  "kc_inv kc \<Longrightarrow> \<exists>kc'. InotifyHandler devs es kc = Some kc' \<and> kc_inv kc' \<and> (codes_fit kc \<longrightarrow> codes_fit kc')"
proof (induction es arbitrary: kc)
  case (Cons e es)
  obtain n c where e: "e = (n, c)" by fastforce
  let ?d = "kDevicePath @ ''/'' @ n"
  obtain kc1 where "GeteventOpenDevice devs ?d kc = Some kc1" "kc_inv kc1" "codes_fit kc \<longrightarrow> codes_fit kc1"
    using GeteventOpenDevice_ok [OF Cons.prems] by blast
  then show ?case
    using Cons.IH [of kc1] Cons.IH [OF Cons.prems] Cons.IH [of "GeteventCloseDevice ?d kc"] GeteventCloseDevice_ok [OF Cons.prems, of ?d] e
    by (auto simp: Let_def)
qed simp

lemma open_all_ok: "kc_inv kc \<Longrightarrow> \<exists>kc'. open_all devs ns kc = Some kc' \<and> kc_inv kc'"
proof (induction ns arbitrary: kc)
  case (Cons n ns)
  obtain kc1 where "GeteventOpenDevice devs (kDevicePath @ ''/'' @ n) kc = Some kc1" "kc_inv kc1"
    using GeteventOpenDevice_ok [OF Cons.prems] by blast
  then show ?case using Cons.IH [of kc1] Cons.IH [OF Cons.prems] by auto
qed simp

lemma Keychords_Start_ok:
  assumes "kc_inv kc"
  shows "\<exists>kc'. Keychords_Start devs inotify dir kc = Some kc' \<and> kc_inv kc'"
proof -
  have i: "codes_fit (kc\<lparr>inotify_fd := fd\<rparr>) = codes_fit kc" for fd by (rule codes_fit_cong) simp_all
  obtain kc1 where o: "open_all devs (case dir of None \<Rightarrow> [] | Some ns \<Rightarrow> ns)
      (kc\<lparr>inotify_fd := (case inotify of None \<Rightarrow> - 1 | Some (fd, _) \<Rightarrow> fd)\<rparr>) = Some kc1" "kc_inv kc1"
    using open_all_ok [of "kc\<lparr>inotify_fd := (case inotify of None \<Rightarrow> - 1 | Some (fd, _) \<Rightarrow> fd)\<rparr>"] assms i
    by (force simp: kc_inv_def)
  have r: "kc_inv (kc1\<lparr>kc_epoll := snd (RegisterHandler c fd InotifyFd 1 (kc_epoll kc1))\<rparr>)" for c fd
  proof -
    have "has_device (kc_epoll kc1)" if "has_device (snd (RegisterHandler c fd InotifyFd 1 (kc_epoll kc1)))"
      using that RegisterHandler_handlers [of c fd InotifyFd 1 "kc_epoll kc1"] unfolding has_device_def by fastforce
    then show ?thesis using o(2) register_fits by (simp add: kc_inv_def)
  qed
  show ?thesis using o r assms by (auto simp: Keychords_Start_def open_devices_def Let_def split: option.split)
qed

lemma serve_keychord_ok:
  assumes "kc_inv kc" "\<And>fd. h = KeychordFd fd \<Longrightarrow> codes_fit kc"
  shows "\<exists>kc'. serve_keychord devs key changes h kc = Some kc' \<and> kc_inv kc' \<and> (codes_fit kc \<longrightarrow> codes_fit kc')"
proof (cases h)
  case (KeychordFd fd)
  then show ?thesis using LambdaHandler_ok [OF assms(2) [OF KeychordFd], of "key fd"] kc_inv_fit by auto
next
  case InotifyFd
  then show ?thesis using InotifyHandler_ok [OF assms(1)] assms(1) by (auto split: option.split)
qed (use assms in auto)

lemma serve_keychords_ok:
  assumes "kc_inv kc" "(\<exists>fd. KeychordFd fd \<in> set hs) \<longrightarrow> codes_fit kc"
  shows "\<exists>kc'. serve_keychords devs key changes hs kc = Some kc' \<and> kc_inv kc'"
  using assms
proof (induction hs arbitrary: kc)
  case (Cons h hs)
  have "h = KeychordFd fd \<Longrightarrow> codes_fit kc" for fd using Cons.prems(2) by auto
  then obtain kc1 where "serve_keychord devs key changes h kc = Some kc1" "kc_inv kc1" "codes_fit kc \<longrightarrow> codes_fit kc1"
    using serve_keychord_ok [OF Cons.prems(1), of h devs key changes] by blast
  then show ?case using Cons.IH [of kc1] Cons.prems(2) by auto
qed simp

section \<open>Properties\<close>

text \<open>
  C20: no bit outside of the mask of keys is ever read. Once the chords are registered and started,
  whatever devices come and go and whatever keys they report, every handler the event loop runs
  ends, and it leaves a mask that has a bit for each key of each chord.
\<close>

theorem keychords_in_range:
  assumes "\<not> has_device (kc_epoll kc0)"
  shows "(\<exists>kc. Keychords_Start devs inotify dir kc0 = Some kc \<and> kc_inv kc) \<and>
    (\<forall>kc ready hs key changes. kc_inv kc \<and> Wait ready (kc_epoll kc) = Ok hs \<longrightarrow>
      (\<exists>kc'. serve_keychords devs key changes hs kc = Some kc' \<and> kc_inv kc'))"
proof (intro conjI allI impI)
  show "\<exists>kc. Keychords_Start devs inotify dir kc0 = Some kc \<and> kc_inv kc"
    by (rule Keychords_Start_ok) (use assms in \<open>simp add: kc_inv_def\<close>)
next
  fix kc ready hs key changes
  assume kc: "kc_inv kc \<and> Wait ready (kc_epoll kc) = Ok hs"
  then have "(\<exists>fd. KeychordFd fd \<in> set hs) \<longrightarrow> codes_fit kc"
    using Wait_registered [of ready "kc_epoll kc" hs] by (auto simp: kc_inv_def has_device_def)
  then show "\<exists>kc'. serve_keychords devs key changes hs kc = Some kc' \<and> kc_inv kc'" using kc serve_keychords_ok by blast
qed

text \<open>
  A chord is reported once each time it is pressed. An event reports, in the order of the
  chords, the ones whose keys are all down and that were not reported since they were last
  released; afterwards a chord counts as reported exactly when all of its keys are down.
\<close>

theorem chords_reported_once:
  assumes "codes_fit kc" "LambdaHandler (Some (code, v)) kc = Some kc'"
  shows "kc_out kc' = kc_out kc @
      map (Chord \<circ> fst) (filter (\<lambda>(k, reported). chord_down (kc_current kc') k \<and> \<not> reported) (kc_entries kc)) \<and>
    kc_entries kc' = map (\<lambda>(k, reported). (k, chord_down (kc_current kc') k)) (kc_entries kc) \<and>
    kc_current kc' = SetBit code v (kc_current kc)"
proof -
  let ?kc = "kc\<lparr>kc_current := SetBit code v (kc_current kc)\<rparr>"
  have "codes_fit ?kc" using assms(1) codes_fit_cong [of ?kc kc] by simp
  from LambdaCheck_fits [OF this] assms(2)
  have "kc' = ?kc\<lparr>kc_entries := map (\<lambda>(k, n). (k, chord_down (kc_current ?kc) k)) (kc_entries kc),
      kc_out := kc_out kc @ map (Chord \<circ> fst) (filter (\<lambda>(k, n). chord_down (kc_current ?kc) k \<and> \<not> n) (kc_entries kc))\<rparr>"
    by (simp add: LambdaHandler_def)
  then show ?thesis by simp
qed

subsection \<open>Witnesses\<close>

definition new_keychords :: Keychords where
  "new_keychords =
     \<lparr>kc_registration = [], kc_entries = [], kc_current = new_mask 0, inotify_fd = - 1, EviocsmaskSupported = True,
      kc_epoll = new_epoll, kc_out = []\<rparr>"

definition sample_device :: input_device where
  "sample_device =
     \<lparr>ev_fd = 5, ev_version = True, ev_mask = True, ev_available = Some (8, \<lambda>k. k < 60), ev_down = (0, \<lambda>_. False), ev_register = True\<rparr>"

theorem keychords_in_range_witness:
  "\<exists>kc. Keychords_Start (\<lambda>_. Some sample_device) (Some (4, True)) (Some [''event0'']) (Register [29, 56] new_keychords) = Some kc \<and> kc_inv kc"
  using keychords_in_range [of "Register [29, 56] new_keychords" "\<lambda>_. Some sample_device" "Some (4, True)" "Some [''event0'']"]
  by (simp add: has_device_def Register_def new_keychords_def new_epoll_def)

text \<open>The second key of a chord goes down.\<close>

theorem chords_reported_once_witness:
  "\<exists>kc'. LambdaHandler (Some (1, True)) (new_keychords\<lparr>kc_entries := [([0, 1], False)], kc_current := [1]\<rparr>) = Some kc' \<and>
     kc_out kc' = [Chord [0, 1]]"
proof -
  let ?kc = "new_keychords\<lparr>kc_entries := [([0, 1], False)], kc_current := [1]\<rparr>"
  have f: "codes_fit ?kc" by (simp add: codes_fit_def code_fits_def size_of_int_def)
  then obtain kc' where l: "LambdaHandler (Some (1, True)) ?kc = Some kc'" using LambdaHandler_ok by blast
  show ?thesis
    using chords_reported_once [OF f l] l
    by (simp add: chord_down_def key_down_def size_of_int_def SetBit_def bit_set_bit_iff new_keychords_def)
qed

end
