(* ===== verification/Mount_Handler.thy ===== *)
theory Mount_Handler
  imports Util "HOL-Library.Char_ord" "HOL-Library.List_Lexorder"
begin

text \<open>
  Following the mount table (\<^verbatim>\<open>init/mount_handler.cpp\<close>): each change is compared with the entries
  known so far, and a property per mount point is set or cleared. \<^verbatim>\<open>std::set\<close> is a sorted list
  without duplicates, in the order of \<^verbatim>\<open>operator<\<close>.
\<close>

datatype MountHandlerEntry = MountHandlerEntry (mhe_blk_device: string) (mhe_mount_point: string) (mhe_fs_type: string)

text \<open>\<^verbatim>\<open>operator<\<close>.\<close>

fun entry_less :: "MountHandlerEntry \<Rightarrow> MountHandlerEntry \<Rightarrow> bool" where
  "entry_less (MountHandlerEntry b m f) (MountHandlerEntry b' m' f') =
     (if b < b' then True else if b > b' then False
      else if m < m' then True else if m > m' then False
      else f < f')"

instantiation MountHandlerEntry :: linorder
begin

definition less_MountHandlerEntry :: "MountHandlerEntry \<Rightarrow> MountHandlerEntry \<Rightarrow> bool" where
  "less_MountHandlerEntry = entry_less"

definition less_eq_MountHandlerEntry :: "MountHandlerEntry \<Rightarrow> MountHandlerEntry \<Rightarrow> bool" where
  "less_eq_MountHandlerEntry a b = (entry_less a b \<or> a = b)"

instance
proof
  fix x y z :: MountHandlerEntry
  show "(x < y) = (x \<le> y \<and> \<not> y \<le> x)"
    by (cases x; cases y) (auto simp: less_MountHandlerEntry_def less_eq_MountHandlerEntry_def)
  show "x \<le> x" by (simp add: less_eq_MountHandlerEntry_def)
  show "x \<le> y \<Longrightarrow> y \<le> z \<Longrightarrow> x \<le> z"
    by (cases x; cases y; cases z) (auto simp: less_eq_MountHandlerEntry_def split: if_splits)
  show "x \<le> y \<Longrightarrow> y \<le> x \<Longrightarrow> x = y"
    by (cases x; cases y) (auto simp: less_eq_MountHandlerEntry_def split: if_splits)
  show "x \<le> y \<or> y \<le> x"
    by (cases x; cases y) (auto simp: less_eq_MountHandlerEntry_def split: if_splits)
qed

end

section \<open>Entries\<close>

text \<open>
  What the device mapper, the table of file systems and the links say: the path of a mapped device,
  the device of a mount point in the default table (\<open>None\<close> when it does not read), the target of a
  link, and whether a path is a directory.
\<close>

record mount_env =
  me_dm_path :: "string \<Rightarrow> string option"
  me_fstab :: "(string \<Rightarrow> string option) option"
  me_readlink :: "string \<Rightarrow> string option"
  me_is_dir :: "string \<Rightarrow> bool"

definition root_device :: "mount_env \<Rightarrow> string" where
  "root_device me =
     (case me_dm_path me ''system'' of
        Some p \<Rightarrow> p
      | None \<Rightarrow>
          (case me_dm_path me ''vroot'' of
             Some p \<Rightarrow> p
           | None \<Rightarrow>
               (case me_fstab me of
                  None \<Rightarrow> ''/dev/root''
                | Some fstab \<Rightarrow>
                    (case fstab ''/'' of
                       Some d \<Rightarrow> d
                     | None \<Rightarrow> (case fstab ''/system'' of Some d \<Rightarrow> d | None \<Rightarrow> ''/dev/root'')))))"

definition ParseMount :: "libbase \<Rightarrow> mount_env \<Rightarrow> string \<Rightarrow> MountHandlerEntry" where
  "ParseMount lb me line =
     (let fields = Split lb line '' '';
          fields = fields @ replicate (3 - length fields) [];
          dev = (if fields ! 0 = ''/dev/root'' then root_device me else fields ! 0);
          dev = (if StartsWith lb dev ''/dev/'' then (case me_readlink me dev of Some link \<Rightarrow> link | None \<Rightarrow> dev) else dev)
      in MountHandlerEntry dev (fields ! 1) (fields ! 2))"

text \<open>The name and the value of the property, and whether it is set at all; \<open>old\<close> is its value.\<close>

definition devblock :: string where "devblock = ''/dev/block/''"

definition block_name :: "libbase \<Rightarrow> MountHandlerEntry \<Rightarrow> string" where
  "block_name lb e =
     (let v = drop (length devblock) (mhe_blk_device e)
      in if StartsWith lb v ''sd'' then takeWhile (\<lambda>c. \<not> c_isdigit c) v else v)"

definition mount_value :: "libbase \<Rightarrow> mount_env \<Rightarrow> MountHandlerEntry \<Rightarrow> string" where
  "mount_value lb me e =
     (let v = block_name lb e;
          v = (if me_is_dir me (''/sys/block/'' @ v @ ''/queue'') then v else []);
          v = (if me_is_dir me (mhe_mount_point e) then v else []);
          v = (if StartsWith lb v ''loop'' then [] else v)
      in if StartsWith lb (mhe_mount_point e) ''/apex/'' then [] else v)"

definition mount_prop :: "MountHandlerEntry \<Rightarrow> string" where
  "mount_prop e =
     ''dev.mnt.blk'' @ map (\<lambda>c. if c = CHR ''/'' then CHR ''.'' else c)
       (if mhe_mount_point e = ''/'' then ''/root'' else mhe_mount_point e)"

definition SetMountProperty :: "libbase \<Rightarrow> mount_env \<Rightarrow> (string \<Rightarrow> string) \<Rightarrow> MountHandlerEntry \<Rightarrow> bool \<Rightarrow> (string \<times> string) option" where
  "SetMountProperty lb me props e add =
     (if \<not> StartsWith lb (mhe_blk_device e) devblock then None
      else
        (let v = (if add then mount_value lb me e else [])
         in if v = [] \<and> props (mount_prop e) = [] then None else Some (mount_prop e, v)))"

section \<open>Comparing\<close>

fun compare_mounts ::
  "(string \<Rightarrow> MountHandlerEntry) \<Rightarrow> string list \<Rightarrow> MountHandlerEntry list \<Rightarrow> MountHandlerEntry list \<Rightarrow>
   MountHandlerEntry list \<times> MountHandlerEntry list" where
  "compare_mounts parse [] touched untouched = (touched, untouched)"
| "compare_mounts parse (line # lines) touched untouched =
     (if find_str ''/emulated'' line \<noteq> None then compare_mounts parse lines touched untouched
      else if parse line \<in> set untouched
      then compare_mounts parse lines touched (remove1 (parse line) untouched)
      else compare_mounts parse lines (touched @ [parse line]) untouched)"

definition apply_mounts :: "MountHandlerEntry list \<times> MountHandlerEntry list \<Rightarrow> MountHandlerEntry list \<Rightarrow> MountHandlerEntry list" where
  "apply_mounts tu mounts = fold insort_insert (fst tu) (fold remove1 (snd tu) mounts)"

definition known_mounts_ok :: "MountHandlerEntry list \<Rightarrow> bool" where
  "known_mounts_ok mounts = (sorted mounts \<and> distinct mounts)"

definition current_mounts :: "(string \<Rightarrow> MountHandlerEntry) \<Rightarrow> string list \<Rightarrow> MountHandlerEntry set" where
  "current_mounts parse lines = parse ` {l \<in> set lines. find_str ''/emulated'' l = None}"

lemma compare_mounts_spec:
  "compare_mounts parse lines touched untouched = (t, u) \<Longrightarrow> distinct untouched \<Longrightarrow>
   distinct u \<and> set u = set untouched - current_mounts parse lines \<and>
   set touched \<subseteq> set t \<and> set t \<subseteq> set touched \<union> current_mounts parse lines \<and>
   current_mounts parse lines \<subseteq> set t \<union> set untouched"
proof (induction parse lines touched untouched arbitrary: t u rule: compare_mounts.induct)
  case (2 parse line lines touched untouched)
  consider "find_str ''/emulated'' line \<noteq> None" | "find_str ''/emulated'' line = None" "parse line \<in> set untouched"
    | "find_str ''/emulated'' line = None" "parse line \<notin> set untouched" by blast
  then show ?case
  proof cases
    case 1
    then show ?thesis using 2 by (auto simp: current_mounts_def)
  next
    case b: 2
    then have "compare_mounts parse lines touched (remove1 (parse line) untouched) = (t, u)" using 2(4) by simp
    from 2(2) [OF _ b(2) this] b 2(5)
    show ?thesis by (simp add: current_mounts_def set_remove1_eq) blast
  next
    case b: 3
    then have "compare_mounts parse lines (touched @ [parse line]) untouched = (t, u)" using 2(4) by simp
    from 2(3) [OF _ b(2) this 2(5)] b
    show ?thesis by (simp add: current_mounts_def) blast
  qed
qed (auto simp: current_mounts_def)

lemma fold_remove1_sorted:
  "known_mounts_ok ms \<Longrightarrow> known_mounts_ok (fold remove1 es ms) \<and> set (fold remove1 es ms) = set ms - set es"
  by (induction es arbitrary: ms) (auto simp: known_mounts_ok_def sorted_remove1)

lemma fold_insort_sorted:
  "known_mounts_ok ms \<Longrightarrow> known_mounts_ok (fold insort_insert es ms) \<and> set (fold insort_insert es ms) = set ms \<union> set es"
  by (induction es arbitrary: ms) (auto simp: known_mounts_ok_def sorted_insort_insert distinct_insort_insert set_insort_insert)

section \<open>Properties\<close>

text \<open>
  The known entries follow the mount table. After a change they are exactly the entries of the
  table, emulated storage excepted; the ones that are cleared are exactly the known ones that are
  gone, and every entry that is new is set.
\<close>

theorem mounts_followed:
  assumes "known_mounts_ok mounts" "compare_mounts parse lines [] mounts = (touched, untouched)"
  shows "known_mounts_ok (apply_mounts (touched, untouched) mounts) \<and>
    set (apply_mounts (touched, untouched) mounts) = current_mounts parse lines \<and>
    set untouched = set mounts - current_mounts parse lines \<and>
    current_mounts parse lines - set mounts \<subseteq> set touched \<and> set touched \<subseteq> current_mounts parse lines"
proof -
  have d: "distinct mounts" using assms(1) by (simp add: known_mounts_ok_def)
  note c = compare_mounts_spec [OF assms(2) d]
  note r = fold_remove1_sorted [OF assms(1), of untouched]
  note i = fold_insort_sorted [of "fold remove1 untouched mounts" touched]
  show ?thesis using c r i by (auto simp: apply_mounts_def)
qed

theorem mounts_followed_witness:
  "set (apply_mounts (compare_mounts (\<lambda>l. MountHandlerEntry l l l) [''a'', ''/emulated'', ''b''] [] [MountHandlerEntry ''a'' ''a'' ''a'']) [MountHandlerEntry ''a'' ''a'' ''a'']) =
   {MountHandlerEntry ''a'' ''a'' ''a'', MountHandlerEntry ''b'' ''b'' ''b''}"
proof -
  let ?p = "\<lambda>l. MountHandlerEntry l l l" and ?ls = "[''a'', ''/emulated'', ''b'']" and ?ms = "[MountHandlerEntry ''a'' ''a'' ''a'']"
  obtain t u where c: "compare_mounts ?p ?ls [] ?ms = (t, u)" by fastforce
  have "known_mounts_ok ?ms" by (simp add: known_mounts_ok_def)
  note f = mounts_followed [OF this c]
  have "{l \<in> set ?ls. find_str ''/emulated'' l = None} = {''a'', ''b''}" by auto
  then have "current_mounts ?p ?ls = {MountHandlerEntry ''a'' ''a'' ''a'', MountHandlerEntry ''b'' ''b'' ''b''}"
    by (simp add: current_mounts_def)
  moreover have "set (apply_mounts (t, u) ?ms) = current_mounts ?p ?ls" using f by blast
  ultimately show ?thesis by (simp only: c)
qed

end
