(* ===== verification/Init_World.thy ===== *)
theory Init_World
  imports Boot_Scripts Property_Service Keychords Mount_Handler
begin

text \<open>
  The state of the init process that commands, control messages and the main loop share
  (\<^verbatim>\<open>init/init.cpp\<close>, with the static variables of \<^verbatim>\<open>init/builtins.cpp\<close>), the calls that leave it, and
  what it needs from outside. Calls are kept in a trace in their order; the answers of the kernel
  and the state of the properties may change from call to call and are functions of the length of
  the trace.
\<close>

section \<open>Calls\<close>

datatype severity = VERBOSE | DEBUG | INFO | WARNING | ERROR | FATAL

datatype sys_call =
  WriteFile string string
| Setenv string string
| Ioctl string string
| OpenRead string
| FinitModule string string bool
| LoopDevice nat
| Mount string string string "32 word" "string option"
| Umount string
| UmountAll string
| SwaponAll string
| Symlink string string
| UnlinkFile string
| Rmdir string
| Settimeofday int
| Lchown string "32 word" "32 word"
| Fchmodat string "32 word"
| Mkdir string "32 word"
| Lstat string
| SetDirectoryPolicy string FscryptAction string
| InstallKeyring
| Restorecon string "32 word"
| Setrlimit int "64 word" "64 word"
| SetProp string string
| WriteBootloaderMessage "string list"
| ForkReadahead string bool
| WaitForFile string "string option"
| LoadPersistentMessage
| Linkerconfig
| SwitchToDefaultNamespace
| Access string
| RemountUserdata
| ResponseTo int bool
| Powerctl string
| KillPid int string
| ForkSubcontext string
| ForkWatchdog
| RunProgram "string list"
| SyncDisks
| UmountForReboot string bool
| Swapoff string
| ReadBootloader
| WriteBootloaderCommand string
| WriteRebootBootloader
| PersistReason string
| SemInit
| PowerOff
| Restart2 string
| ExitInit int
| ForkFatalReboot
| SwitchToBootstrapNamespace
| Reply prop_result
| CgroupSetup
| PerfEventOpen
| PerfEventReset
| CloseFd int
| SetInputMask int Mask
| SetEnforce bool
| Abort string

datatype init_effect = ServiceEffect svc_effect | PolicyEffect "log_event list" | Called sys_call

text \<open>
  The messages between init and the process that runs the commands of vendor scripts
  (\<^verbatim>\<open>init/subcontext.proto\<close>), and what can come of sending one. Of the error number only whether it
  is zero is kept.
\<close>

datatype SubcontextCommand = ExecuteCommand "string list" | ExpandArgsCommand "string list"

datatype sub_answer = ReplyNotSet | Success | Failure string bool | ExpandArgsReply "string list"

record SubcontextReply =
  reply_case :: sub_answer
  reply_trigger_shutdown :: "string option"

datatype transmission = SendFailed | ReadFailed string | Unparsable | Replied SubcontextReply

text \<open>
  The handlers \<^verbatim>\<open>init/reboot.cpp\<close> queues as builtin actions are closures: their kind with the
  captured values. The command is \<^verbatim>\<open>ANDROID_RB_RESTART2\<close>, \<^verbatim>\<open>_POWEROFF\<close> or \<^verbatim>\<open>_THERMOFF\<close>.
\<close>

datatype reboot_cmd = RB_RESTART2 | RB_POWEROFF | RB_THERMOFF

datatype closure = ShutdownHandler reboot_cmd string string bool | UserspaceRebootHandler

section \<open>State\<close>

record init_process =
  ip_rc :: "init_world rc_state"
  ip_trace :: "init_effect list"
  waiting_for_prop :: "(string \<times> string) option"
  shutdown_command :: string
  do_shutdown :: bool
  late_import_paths :: "string list"
  initial_mount_fstab_return_code :: int
  num_calls :: nat
  log_severity :: severity
  mount_ns_ready :: bool
  bootcharting :: bool
  ip_diverged :: bool
  sub_pid :: int
  subcontext_terminated_by_shutdown :: bool
  shutting_down :: bool
  sending_messages :: bool
  ip_closures :: "(BuiltinFunction \<times> closure) list"

definition ip_am :: "init_process \<Rightarrow> ActionManager" where "ip_am ip = iw_am (rc_world (ip_rc ip))"
definition ip_sl :: "init_process \<Rightarrow> ServiceList" where "ip_sl ip = iw_sl (rc_world (ip_rc ip))"

definition set_rc_world :: "init_world \<Rightarrow> init_process \<Rightarrow> init_process" where
  "set_rc_world w ip = ip\<lparr>ip_rc := (ip_rc ip)\<lparr>rc_world := w\<rparr>\<rparr>"

definition set_am :: "ActionManager \<Rightarrow> init_process \<Rightarrow> init_process" where
  "set_am am ip = set_rc_world ((rc_world (ip_rc ip))\<lparr>iw_am := am\<rparr>) ip"

definition set_sl :: "ServiceList \<Rightarrow> init_process \<Rightarrow> init_process" where
  "set_sl sl ip = set_rc_world ((rc_world (ip_rc ip))\<lparr>iw_sl := sl\<rparr>) ip"

record file_stat =
  stat_dir :: bool
  stat_perm :: "32 word"
  stat_uid :: "32 word"
  stat_gid :: "32 word"

text \<open>The return codes of the library that mounts file systems.\<close>

record mount_codes =
  DEV_NEEDS_ENCRYPTION :: int
  DEV_MIGHT_BE_ENCRYPTED :: int
  DEV_NOT_ENCRYPTED :: int
  DEV_NOT_ENCRYPTABLE :: int
  DEV_NEEDS_RECOVERY :: int
  DEV_FILE_ENCRYPTED :: int
  DEV_IS_METADATA_ENCRYPTED :: int
  DEV_NEEDS_METADATA_ENCRYPTION :: int

datatype loop_answer = LoopBusy | LoopNotTaken | LoopTaken

text \<open>
  The libraries and the kernel as the commands see them: file systems (\<open>ms_fstab\<close>: whether the
  table reads, with the empty path for the default one; \<open>ms_loops\<close>: the loop devices there are),
  encryption, the APEX directory and the clock.
\<close>

record mount_services =
  ms_codes :: mount_codes
  ms_fstab :: "string \<Rightarrow> bool"
  ms_mount_all :: "string \<Rightarrow> mount_mode \<Rightarrow> int \<times> bool"
  ms_umount_all :: "string \<Rightarrow> int"
  ms_loops :: "loop_answer list"
  ms_verity_state :: "int option"
  ms_verity :: "(string \<times> string) list"
  ms_fscrypt_native :: bool
  ms_key_ref :: string
  ms_key_per_boot_ref :: string
  ms_unencrypted_folder :: string
  ms_gsi_running :: bool
  ms_apex_rc :: "string list option"
  ms_apex_dirs :: "(string \<times> bool) list option"
  ms_namespace :: "bool result"
  ms_basename :: "string \<Rightarrow> string"
  ms_duration :: string

text \<open>
  What the shutdown sees. The mount table may change from call to call; \<open>se_tries\<close> is how often
  unmounting is tried again within the time allowed, \<open>se_zero_left\<close> whether that time is zero,
  \<open>se_polls\<close> the zombies found by the polls of \<^verbatim>\<open>WaitToBeReaped\<close>, \<open>se_zombies\<close> those one loop
  over \<^verbatim>\<open>waitid\<close> finds.
\<close>

record mount_entry =
  mnt_fsname :: string
  mnt_dir :: string
  mnt_type :: string
  mnt_rw :: bool

text \<open>What asking for the capability to reboot can bring.\<close>

datatype boot_capability = CapNotSupported | CapsUnavailable | CapFlagUnavailable | CapFlag bool

record shutdown_env =
  se_mounts :: "nat \<Rightarrow> mount_entry list option"
  se_tries :: "nat \<Rightarrow> nat"
  se_zero_left :: "nat \<Rightarrow> bool"
  se_polls :: "nat \<Rightarrow> (int \<times> siginfo) option list list"
  se_zombies :: "nat \<Rightarrow> (int \<times> siginfo) option list"
  se_zero_timeout :: bool
  se_dump_on_failure :: bool
  se_enforcing :: bool
  se_boot_command :: string
  se_userspace_supported :: bool
  se_boot_capability :: boot_capability

text \<open>
  The machine init runs on: its architecture, the options of the kernel (whether one reads, and what
  one reads back after a value was written, \<open>None\<close> when it cannot be written), SELinux and the
  performance events, the USB controllers, the input devices, the mount table, the directory of the
  control groups, and the generic system image with the names of its properties.
\<close>

datatype architecture = USER_MODE_LINUX | AARCH64 | X86_64 | ARM_OR_I386 | OtherArchitecture

record machine_env =
  me_architecture :: architecture
  me_readable :: "string \<Rightarrow> bool"
  me_recorded :: "string \<Rightarrow> int \<Rightarrow> string option"
  me_allow_permissive :: bool
  me_getenforce :: bool
  me_perf_open :: bool
  me_perf_denied :: bool
  me_udc :: "string list option"
  me_devices :: input_devices
  me_inotify :: "(int \<times> bool) option"
  me_input_dir :: "string list option"
  me_mounts :: mount_env
  me_cgroups_dir :: string
  me_gsi_booted_prop :: string
  me_gsi_installed_prop :: string
  me_gsi_installed :: bool

record init_env =
  ie_lb :: libbase
  ie_rc :: rc_env
  ie_cfg :: boot_cfg
  ie_fuel :: nat
  ie_os :: "nat \<Rightarrow> os"
  ie_sys :: "nat \<Rightarrow> sys_call \<Rightarrow> errno option"
  ie_errno :: "nat \<Rightarrow> errno"
  ie_getpwnam :: "string \<Rightarrow> 32 word option"
  ie_files :: "string \<Rightarrow> open_file option"
  ie_restorecon :: restorecon_flag_values
  ie_lstat :: "nat \<Rightarrow> string \<Rightarrow> errno + file_stat"
  ie_stat :: "nat \<Rightarrow> string \<Rightarrow> bool"
  ie_mounts :: mount_services
  ie_shutdown :: shutdown_env
  ie_channel :: "nat \<Rightarrow> SubcontextCommand \<Rightarrow> transmission"
  ie_machine :: machine_env

abbreviation ie_policy :: "init_env \<Rightarrow> InnitPolicy option" where "ie_policy ie \<equiv> rc_policy (ie_rc ie)"
abbreviation ie_log :: "init_env \<Rightarrow> log_env" where "ie_log ie \<equiv> rc_log_env (ie_rc ie)"

definition os_of :: "init_env \<Rightarrow> init_process \<Rightarrow> os" where
  "os_of ie ip = ie_os ie (length (ip_trace ip))"

definition prop_of_process :: "init_env \<Rightarrow> init_process \<Rightarrow> string \<Rightarrow> string" where
  "prop_of_process ie ip n = os_props (os_of ie ip) n"

definition record_effect :: "init_effect \<Rightarrow> init_process \<Rightarrow> init_process" where
  "record_effect e ip = ip\<lparr>ip_trace := ip_trace ip @ [e]\<rparr>"

definition sys :: "init_env \<Rightarrow> sys_call \<Rightarrow> init_process \<Rightarrow> errno option \<times> init_process" where
  "sys ie c ip = (ie_sys ie (length (ip_trace ip)) c, record_effect (Called c) ip)"

definition sys_do :: "init_env \<Rightarrow> sys_call \<Rightarrow> init_process \<Rightarrow> init_process" where
  "sys_do ie c ip = snd (sys ie c ip)"

definition note_policy :: "log_event list \<Rightarrow> init_process \<Rightarrow> init_process" where
  "note_policy evs ip = (if evs = [] then ip else record_effect (PolicyEffect evs) ip)"

section \<open>Waiting for a property, and shutting down\<close>

definition StartWaiting :: "init_env \<Rightarrow> string \<Rightarrow> string \<Rightarrow> init_process \<Rightarrow> bool \<times> init_process" where
  "StartWaiting ie name v ip =
     (if waiting_for_prop ip \<noteq> None then (False, ip)
      else if prop_of_process ie ip name \<noteq> v then (True, ip\<lparr>waiting_for_prop := Some (name, v)\<rparr>)
      else (True, ip))"

definition ResetWaitForProp :: "init_process \<Rightarrow> init_process" where
  "ResetWaitForProp ip = ip\<lparr>waiting_for_prop := None\<rparr>"

definition kColdBootDoneProp :: string where "kColdBootDoneProp = ''ro.cold_boot_done''"

definition CheckAndResetWait :: "init_env \<Rightarrow> string \<Rightarrow> string \<Rightarrow> init_process \<Rightarrow> init_process" where
  "CheckAndResetWait ie name v ip =
     (let ip' = (if name = kColdBootDoneProp
                 then sys_do ie (SetProp ''ro.boottime.init.cold_boot_wait''
                        (if waiting_for_prop ip \<noteq> None then ms_duration (ie_mounts ie) else ''0'')) ip
                 else ip)
      in if waiting_for_prop ip = Some (name, v) then ResetWaitForProp ip' else ip')"

definition MightBeWaiting :: "init_process \<Rightarrow> bool" where
  "MightBeWaiting ip = (waiting_for_prop ip \<noteq> None)"

definition trigger_shutdown :: "string \<Rightarrow> init_process \<Rightarrow> init_process" where
  "trigger_shutdown command ip = ip\<lparr>shutdown_command := command, do_shutdown := True\<rparr>"

definition CheckShutdown :: "init_process \<Rightarrow> string option" where
  "CheckShutdown ip = (if do_shutdown ip \<and> \<not> shutting_down ip then Some (shutdown_command ip) else None)"

section \<open>Services of the process\<close>

definition absorb_one :: "svc_effect \<Rightarrow> init_process \<Rightarrow> init_process" where
  "absorb_one e ip =
     record_effect (ServiceEffect e) (case e of TriggerShutdown target \<Rightarrow> trigger_shutdown target ip | _ \<Rightarrow> ip)"

definition absorb :: "svc_effect list \<Rightarrow> init_process \<Rightarrow> init_process" where
  "absorb effs ip = fold absorb_one effs ip"

definition on_listed :: "init_env \<Rightarrow> nat \<Rightarrow> (os \<Rightarrow> 'r service_op) \<Rightarrow> init_process \<Rightarrow> 'r \<times> init_process" where
  "on_listed ie i op ip =
     (case on_service i (op (os_of ie ip)) (ip_sl ip) of (r, sl, effs) \<Rightarrow> (r, absorb effs (set_sl sl ip)))"

fun each_index :: "init_env \<Rightarrow> (Service \<Rightarrow> bool) \<Rightarrow> (os \<Rightarrow> 'r service_op) \<Rightarrow> nat list \<Rightarrow> init_process \<Rightarrow> init_process" where
  "each_index ie P op [] ip = ip"
| "each_index ie P op (i # is) ip =
     each_index ie P op is (if P (sl_services (ip_sl ip) ! i) then snd (on_listed ie i op ip) else ip)"

definition each_service :: "init_env \<Rightarrow> (Service \<Rightarrow> bool) \<Rightarrow> (os \<Rightarrow> 'r service_op) \<Rightarrow> init_process \<Rightarrow> init_process" where
  "each_service ie P op ip = each_index ie P op [0..<length (sl_services (ip_sl ip))] ip"

definition queue_event :: "init_env \<Rightarrow> string \<Rightarrow> init_process \<Rightarrow> init_process" where
  "queue_event ie trigger ip =
     (case QueueEventTrigger (ie_log ie) (ie_policy ie) trigger (ip_am ip) of
        (am, evs) \<Rightarrow> note_policy evs (set_am am ip))"

section \<open>Scripts read later\<close>

text \<open>A fresh parser is assembled; running out of fuel is remembered.\<close>

definition parse_late :: "init_env \<Rightarrow> string \<Rightarrow> init_process \<Rightarrow> init_process" where
  "parse_late ie path ip =
     (case boot_parse (ie_lb ie) (ie_rc ie) (ie_cfg ie) (ie_fuel ie) path (ip_rc ip) of
        None \<Rightarrow> ip\<lparr>ip_diverged := True\<rparr>
      | Some (_, rs) \<Rightarrow> ip\<lparr>ip_rc := rs\<rparr>)"

definition fresh_parser :: "init_process \<Rightarrow> init_process" where
  "fresh_parser ip =
     ip\<lparr>ip_rc := (ip_rc ip)\<lparr>rc_world := (rc_world (ip_rc ip))\<lparr>iw_sp := new_service_parser, iw_action := None\<rparr>,
                           rc_imports := []\<rparr>\<rparr>"

definition import_late :: "init_env \<Rightarrow> string list \<Rightarrow> init_process \<Rightarrow> init_process" where
  "import_late ie paths ip =
     (let ip = fresh_parser ip
      in if paths = []
         then (fold (parse_late ie) (late_import_paths ip) ip)\<lparr>late_import_paths := []\<rparr>
         else fold (parse_late ie) paths ip)"

end
