(* ===== verification/Builtins.thy ===== *)
theory Builtins
  imports Init_World Capabilities
begin

text \<open>
  The commands of the scripts (\<^verbatim>\<open>init/builtins.cpp\<close>), in the order of the source. Each takes its
  arguments and the process and gives a result and the process; \<open>ba_args args ! 0\<close> is the name of
  the command, and the number of arguments has been checked against the table at the end.
\<close>

type_synonym builtin = "init_env \<Rightarrow> BuiltinArguments \<Rightarrow> init_process \<Rightarrow> unit result \<times> init_process"

abbreviation arg :: "BuiltinArguments \<Rightarrow> nat \<Rightarrow> string" where "arg args i \<equiv> ba_args args ! i"

section \<open>The gates of the policy\<close>

definition InnitCheckCommand :: "string \<Rightarrow> builtin" where
  "InnitCheckCommand verb ie args ip =
     (case (if InnitPolicyIsActive (ie_policy ie) then GetInnitPolicy (ie_policy ie) else None) of
        None \<Rightarrow> (Ok (), ip)
      | Some pol \<Rightarrow>
          (let arg_strs = drop 1 (ba_args args)
           in case IsCommandAllowed (ie_log ie) pol verb arg_strs of
                (allowed, evs) \<Rightarrow>
                  (if allowed then Ok ()
                   else Err (Error (''[Innit] command denied: '' @ verb @ (if arg_strs = [] then [] else '' '' @ hd arg_strs))),
                   note_policy evs ip)))"

definition InnitExtractExecPath :: "BuiltinArguments \<Rightarrow> string" where
  "InnitExtractExecPath args =
     (case find (\<lambda>i. i + 1 < length (ba_args args) \<and> arg args i = ''--'') [1..<length (ba_args args)] of
        Some i \<Rightarrow> arg args (i + 1)
      | None \<Rightarrow> if 1 < length (ba_args args) then arg args 1 else [])"

definition InnitCheckExecPath :: builtin where
  "InnitCheckExecPath ie args ip =
     (case (if InnitPolicyIsActive (ie_policy ie) then GetInnitPolicy (ie_policy ie) else None) of
        None \<Rightarrow> (Ok (), ip)
      | Some pol \<Rightarrow>
          (let exec_path = InnitExtractExecPath args
           in if exec_path = [] then (Ok (), ip)
              else
                (case IsExecAllowed (ie_log ie) pol exec_path of
                   (allowed, evs) \<Rightarrow>
                     (if allowed then Ok () else Err (Error (''[Innit] exec denied: '' @ exec_path)), note_policy evs ip))))"

text \<open>\<^verbatim>\<open>if (auto r = \<dots>; !r.ok()) return r;\<close>\<close>

definition and_then :: "builtin \<Rightarrow> builtin \<Rightarrow> builtin" where
  "and_then f g ie args ip = (case f ie args ip of (Inl e, ip) \<Rightarrow> (Inl e, ip) | (Inr _, ip) \<Rightarrow> g ie args ip)"

section \<open>Errors\<close>

text \<open>\<^verbatim>\<open>ErrorIgnoreEnoent\<close>: a missing file is no error unless the log level is verbose.\<close>

definition ignores_enoent :: "errno \<Rightarrow> init_process \<Rightarrow> bool" where
  "ignores_enoent e ip = (e = ENOENT \<and> log_severity ip \<notin> {VERBOSE, DEBUG})"

definition ErrnoErrorIgnoreEnoent :: "errno \<Rightarrow> string \<Rightarrow> init_process \<Rightarrow> unit result" where
  "ErrnoErrorIgnoreEnoent e msg ip = (if ignores_enoent e ip then Ok () else Err (ErrnoError msg))"

definition checked :: "sys_call \<Rightarrow> init_error \<Rightarrow> builtin" where
  "checked c err ie args ip =
     (case sys ie c ip of (None, ip) \<Rightarrow> (Ok (), ip) | (Some e, ip) \<Rightarrow> (Err err, ip))"

definition checked_quiet :: "sys_call \<Rightarrow> string \<Rightarrow> builtin" where
  "checked_quiet c msg ie args ip =
     (case sys ie c ip of (None, ip) \<Rightarrow> (Ok (), ip) | (Some e, ip) \<Rightarrow> (ErrnoErrorIgnoreEnoent e msg ip, ip))"

definition reboot_into_recovery :: "string list \<Rightarrow> builtin" where
  "reboot_into_recovery options ie args ip =
     (case sys ie (WriteBootloaderMessage options) ip of
        (Some _, ip) \<Rightarrow> (Err (Error ''Failed to set bootloader message''), ip)
      | (None, ip) \<Rightarrow> (Ok (), trigger_shutdown ''reboot,recovery'' ip))"

section \<open>Classes\<close>

definition in_class :: "BuiltinArguments \<Rightarrow> Service \<Rightarrow> bool" where
  "in_class args s = (arg args 1 \<in> set (classnames s))"

definition dont_start_class :: "init_env \<Rightarrow> BuiltinArguments \<Rightarrow> init_process \<Rightarrow> bool" where
  "dont_start_class ie args ip = os_bool_props (os_of ie ip) (''persist.init.dont_start_class.'' @ arg args 1)"

definition do_class_start :: builtin where
  "do_class_start = and_then (InnitCheckCommand ''class_start'')
     (\<lambda>ie args ip. (Ok (), if dont_start_class ie args ip then ip
                           else each_service ie (in_class args) (StartIfNotDisabled (ie_lb ie)) ip))"

definition do_class_start_post_data :: builtin where
  "do_class_start_post_data ie args ip =
     (if ba_context args \<noteq> kInitContext
      then (Err (Error (''command '' @ quoted ''class_start_post_data'' @ '' only available in init context'')), ip)
      else if \<not> os_apex_updatable (os_of ie ip) then (Ok (), ip)
      else (Ok (), each_service ie (in_class args) (StartIfPostData (ie_lb ie)) ip))"

definition do_class_stop :: builtin where
  "do_class_stop = and_then (InnitCheckCommand ''class_stop'')
     (\<lambda>ie args ip. (Ok (), each_service ie (in_class args) (\<lambda>os. simple_op (Stop os)) ip))"

definition do_class_reset :: builtin where
  "do_class_reset = and_then (InnitCheckCommand ''class_reset'')
     (\<lambda>ie args ip. (Ok (), each_service ie (in_class args) (\<lambda>os. simple_op (Reset os)) ip))"

definition do_class_reset_post_data :: builtin where
  "do_class_reset_post_data ie args ip =
     (if ba_context args \<noteq> kInitContext
      then (Err (Error (''command '' @ quoted ''class_reset_post_data'' @ '' only available in init context'')), ip)
      else if \<not> os_apex_updatable (os_of ie ip) then (Ok (), ip)
      else (Ok (), each_service ie (in_class args) (\<lambda>os. simple_op (ResetIfPostData os)) ip))"

definition do_class_restart :: builtin where
  "do_class_restart = and_then (InnitCheckCommand ''class_restart'')
     (\<lambda>ie args ip. (Ok (), if dont_start_class ie args ip then ip
                           else each_service ie (in_class args) (\<lambda>os. static_op (Restart (ie_lb ie) os)) ip))"

section \<open>One service\<close>

text \<open>Find the service, or fail; run the operation, and give its error the prefix of the command.\<close>

definition on_found :: "nat option \<Rightarrow> init_error \<Rightarrow> (os \<Rightarrow> unit result service_op) \<Rightarrow> (init_error \<Rightarrow> init_process \<Rightarrow> unit result) \<Rightarrow> builtin" where
  "on_found found missing op err ie args ip =
     (case found of
        None \<Rightarrow> (Err missing, ip)
      | Some i \<Rightarrow>
          (case on_listed ie i op ip of
             (Inr _, ip) \<Rightarrow> (Ok (), ip)
           | (Inl e, ip) \<Rightarrow> (err e ip, ip)))"

definition always_ok :: "(os \<Rightarrow> unit service_op) \<Rightarrow> os \<Rightarrow> unit result service_op" where
  "always_ok op os s st = (case op os s st of (_, s, st, effs) \<Rightarrow> (Ok (), s, st, effs))"

definition prefixed :: "string \<Rightarrow> init_error \<Rightarrow> init_process \<Rightarrow> unit result" where
  "prefixed msg e ip = Err (Error (msg @ message e))"

definition named :: "BuiltinArguments \<Rightarrow> init_process \<Rightarrow> nat option" where
  "named args ip = FindService (arg args 1) svc_name (ip_sl ip)"

definition do_domainname :: builtin where
  "do_domainname ie args ip =
     checked (WriteFile ''/proc/sys/kernel/domainname'' (arg args 1)) (Error ''Unable to write to /proc/sys/kernel/domainname'') ie args ip"

definition do_enable :: builtin where
  "do_enable ie args ip =
     on_found (named args ip) (Error ''Could not find service'') (Enable (ie_lb ie)) (prefixed ''Could not enable service: '') ie args ip"

text \<open>
  A temporary service: made, started outside the list, and added when it started. Its static state
  stays also when it did not.
\<close>

definition set_static :: "svc_static \<Rightarrow> init_process \<Rightarrow> init_process" where
  "set_static st ip = set_sl ((ip_sl ip)\<lparr>sl_static := st\<rparr>) ip"

definition delay_all :: "svc_effect list \<Rightarrow> init_process \<Rightarrow> init_process" where
  "delay_all effs ip = set_sl (fold apply_delay effs (ip_sl ip)) ip"

definition run_temporary ::
  "(os \<Rightarrow> unit result service_op) \<Rightarrow> (Service \<Rightarrow> Service) \<Rightarrow> string \<Rightarrow> string \<Rightarrow> init_env \<Rightarrow> string list \<Rightarrow> init_process \<Rightarrow> unit result \<times> init_process" where
  "run_temporary start prepare make_failed start_failed ie args ip =
     (case MakeTemporaryOneshotService (ie_lb ie) (ie_getpwnam ie) args (sl_static (ip_sl ip)) of
        (Inl e, st) \<Rightarrow> (Err (Error (make_failed @ message e)), set_static st ip)
      | (Inr s, st) \<Rightarrow>
          (case start (os_of ie ip) (prepare s) st of
             (r, s, st, effs) \<Rightarrow>
               (let ip = absorb effs (delay_all effs (set_static st ip))
                in case r of
                     Inl e \<Rightarrow> (Err (Error (start_failed @ message e)), ip)
                   | Inr _ \<Rightarrow> (Ok (), set_sl (AddService s (ip_sl ip)) ip))))"

definition do_exec :: builtin where
  "do_exec = and_then (InnitCheckCommand ''exec'') (and_then InnitCheckExecPath
     (\<lambda>ie args ip. run_temporary (ExecStart (ie_lb ie)) (\<lambda>s. s) ''Could not create exec service: '' ''Could not start exec service: ''
                     ie (ba_args args) ip))"

definition do_exec_background :: builtin where
  "do_exec_background ie args ip =
     run_temporary (Start (ie_lb ie)) (\<lambda>s. s) ''Could not create exec background service: '' ''Could not start exec background service: ''
       ie (ba_args args) ip"

definition do_exec_start :: builtin where
  "do_exec_start = and_then (InnitCheckCommand ''exec_start'')
     (\<lambda>ie args ip. on_found (named args ip) (Error ''Service not found'') (ExecStart (ie_lb ie))
                     (prefixed ''Could not start exec service: '') ie args ip)"

section \<open>Environment, network and modules\<close>

definition do_export :: builtin where
  "do_export ie args ip = checked (Setenv (arg args 1) (arg args 2)) (ErrnoError ''setenv() failed'') ie args ip"

fun load_export_lines :: "string list \<Rightarrow> builtin" where
  "load_export_lines [] ie args ip = (Ok (), ip)"
| "load_export_lines (line # lines) ie args ip =
     (if line = [] then load_export_lines lines ie args ip
      else
        (case Split (ie_lb ie) line '' '' of
           [action, name, v] \<Rightarrow>
             if action \<noteq> ''export''
             then (Err (ErrnoError (''Unknown action: '' @ quoted action @ '', expected '' @ quoted ''export'')), ip)
             else
               (case sys ie (Setenv name v) ip of
                  (Some _, ip) \<Rightarrow> (Err (ErrnoError (''Failed to export '' @ quoted line @ '' from '' @ arg args 1)), ip)
                | (None, ip) \<Rightarrow> load_export_lines lines ie args ip)
         | _ \<Rightarrow> (Err (ErrnoError (''Expected a line as `export <name> <value>`, found: `'' @ line @ ''`'')), ip)))"

definition do_load_exports :: builtin where
  "do_load_exports ie args ip =
     (case ReadFile (ie_files ie) (arg args 1) of
        Inl e \<Rightarrow> (Err (Error (''Could not read input file '' @ quoted (arg args 1) @ '': '' @ message e)), ip)
      | Inr content \<Rightarrow> load_export_lines (Split (ie_lb ie) content [LF]) ie args ip)"

definition do_hostname :: builtin where
  "do_hostname ie args ip =
     checked (WriteFile ''/proc/sys/kernel/hostname'' (arg args 1)) (Error ''Unable to write to /proc/sys/kernel/hostname'') ie args ip"

text \<open>\<^verbatim>\<open>strlcpy\<close> into a buffer of \<^verbatim>\<open>IFNAMSIZ\<close> bytes.\<close>

definition do_ifup :: builtin where
  "do_ifup = (\<lambda>ie args. (let ifr_name = take 15 (c_str (arg args 1))
     in and_then (checked (Ioctl ''socket'' ifr_name) (ErrnoError ''opening socket failed''))
          (and_then (checked (Ioctl ''SIOCGIFFLAGS'' ifr_name) (ErrnoError ''ioctl(..., SIOCGIFFLAGS, ...) failed''))
            (checked (Ioctl ''SIOCSIFFLAGS'' ifr_name) (ErrnoError ''ioctl(..., SIOCSIFFLAGS, ...) failed''))) ie args))"

text \<open>
  With \<^verbatim>\<open>-f\<close> alone the source reads behind the end of the arguments; here that is an error.
\<close>

definition do_insmod :: builtin where
  "do_insmod ie args ip =
     (let force = (arg args 1 = ''-f'')
      in case drop (if force then 2 else 1) (ba_args args) of
           [] \<Rightarrow> (Err (Error ''no file name''), ip)
         | filename # rest \<Rightarrow>
             and_then (checked (OpenRead filename) (ErrnoError (''open('' @ filename @ '') failed'')))
               (checked (FinitModule filename (Join (ie_lb ie) rest '' '') force)
                  (ErrnoError (''finit_module for '' @ filename @ '' failed''))) ie args ip)"

section \<open>Interfaces\<close>

definition offering :: "BuiltinArguments \<Rightarrow> init_process \<Rightarrow> nat option" where
  "offering args ip = FindInterface (arg args 1) (ip_sl ip)"

definition no_interface :: "BuiltinArguments \<Rightarrow> init_error" where
  "no_interface args = Error (''interface '' @ arg args 1 @ '' not found'')"

definition do_interface_restart :: builtin where
  "do_interface_restart ie args ip =
     on_found (offering args ip) (no_interface args) (always_ok (\<lambda>os. static_op (Restart (ie_lb ie) os))) (prefixed []) ie args ip"

definition do_interface_start :: builtin where
  "do_interface_start ie args ip =
     on_found (offering args ip) (no_interface args) (Start (ie_lb ie)) (prefixed ''Could not start interface: '') ie args ip"

definition do_interface_stop :: builtin where
  "do_interface_stop ie args ip =
     on_found (offering args ip) (no_interface args) (always_ok (\<lambda>os. simple_op (Stop os))) (prefixed []) ie args ip"


section \<open>Directories\<close>

definition dir_attributes :: "MkdirOptions \<Rightarrow> string \<Rightarrow> file_stat \<Rightarrow> builtin" where
  "dir_attributes options ref_basename mstat ie args ip =
     (if \<not> stat_dir mstat then (Err (Error (''Not a directory on '' @ mk_target options)), ip)
      else
        (let wants_chown = ((mk_uid options \<noteq> - 1 \<and> mk_uid options \<noteq> stat_uid mstat) \<or>
                            (mk_gid options \<noteq> - 1 \<and> mk_gid options \<noteq> stat_gid mstat));
             needs_chmod = (stat_perm mstat \<noteq> mk_mode options \<or> wants_chown);
             nothing = (\<lambda>ie args ip. (Ok (), ip))
         in and_then
              (if wants_chown
               then checked (Lchown (mk_target options) (mk_uid options) (mk_gid options))
                      (ErrnoError (''lchown failed on '' @ mk_target options))
               else nothing)
              (and_then
                (if needs_chmod
                 then checked (Fchmodat (mk_target options) (mk_mode options))
                        (ErrnoError (''fchmodat() failed on '' @ mk_target options))
                 else nothing)
                (\<lambda>ie args ip.
                   if ms_fscrypt_native (ie_mounts ie) then
                     (case sys ie (SetDirectoryPolicy ref_basename (mk_fscrypt_action options) (mk_target options)) ip of
                        (None, ip) \<Rightarrow> (Ok (), ip)
                      | (Some _, ip) \<Rightarrow>
                          reboot_into_recovery [''--prompt_and_wipe_data'', ''--reason=set_policy_failed:'' @ mk_target options] ie args ip)
                   else (Ok (), ip)))
              ie args ip))"

definition make_dir_with_options :: "MkdirOptions \<Rightarrow> builtin" where
  "make_dir_with_options options ie args ip =
     (case (if mk_ref_option options = ''ref'' then Some (ms_key_ref (ie_mounts ie))
            else if mk_ref_option options = ''per_boot_ref'' then Some (ms_key_per_boot_ref (ie_mounts ie)) else None) of
        None \<Rightarrow> (Err (Error (''Unknown key option: '' @ quoted (mk_ref_option options))), ip)
      | Some ref_basename \<Rightarrow>
          (case ie_lstat ie (length (ip_trace ip)) (mk_target options) of
             Inr mstat \<Rightarrow> dir_attributes options ref_basename mstat ie args ip
           | Inl e \<Rightarrow>
               if e \<noteq> ENOENT then (Err (ErrnoError (''lstat() failed on '' @ mk_target options)), ip)
               else
                 (case sys ie (Mkdir (mk_target options) (mk_mode options)) ip of
                    (Some e, ip) \<Rightarrow> (ErrnoErrorIgnoreEnoent e (''mkdir() failed on '' @ mk_target options) ip, ip)
                  | (None, ip) \<Rightarrow>
                      (case ie_lstat ie (length (ip_trace ip)) (mk_target options) of
                         Inl _ \<Rightarrow> (Err (ErrnoError (''lstat() failed on new '' @ mk_target options)), ip)
                       | Inr mstat \<Rightarrow> dir_attributes options ref_basename mstat ie args ip))))"

definition do_mkdir :: builtin where
  "do_mkdir ie args ip =
     (case ParseMkdir (ie_lb ie) (ie_getpwnam ie) (ba_args args) of
        Inl e \<Rightarrow> (Inl e, ip)
      | Inr options \<Rightarrow> make_dir_with_options options ie args ip)"

definition do_umount :: builtin where
  "do_umount ie args ip = checked (Umount (arg args 1)) (ErrnoError ''umount() failed'') ie args ip"

section \<open>Mounting\<close>

definition mount_flags :: "(string \<times> 32 word) list" where
  "mount_flags =
     [(''noatime'', 1024), (''noexec'', 8), (''nosuid'', 2), (''nodev'', 4), (''nodiratime'', 2048), (''ro'', 1), (''rw'', 0),
      (''remount'', 32), (''bind'', 4096), (''rec'', 16384), (''unbindable'', 131072), (''private'', 262144),
      (''slave'', 524288), (''shared'', 1048576), (''defaults'', 0)]"

abbreviation MS_RDONLY :: "32 word" where "MS_RDONLY \<equiv> 1"

text \<open>Flags, the word \<^verbatim>\<open>wait\<close>, and a last argument that is neither as the options.\<close>

fun mount_args :: "string list \<Rightarrow> 32 word \<times> bool \<times> string option \<Rightarrow> 32 word \<times> bool \<times> string option" where
  "mount_args [] r = r"
| "mount_args (a # as) (flags, w, options) =
     mount_args as
       (case map_of mount_flags a of
          Some f \<Rightarrow> (flags OR f, w, options)
        | None \<Rightarrow> if a = ''wait'' then (flags, True, options) else if as = [] then (flags, w, Some a) else (flags, w, options))"

fun loop_mount :: "nat \<Rightarrow> loop_answer list \<Rightarrow> (string \<Rightarrow> sys_call) \<Rightarrow> builtin" where
  "loop_mount n [] mnt ie args ip = (Err (ErrnoError (''open(/dev/block/loop'' @ to_string (int n) @ '') failed'')), ip)"
| "loop_mount n (l # ls) mnt ie args ip =
     (case l of
        LoopTaken \<Rightarrow>
          (case sys ie (mnt (''/dev/block/loop'' @ to_string (int n))) (sys_do ie (LoopDevice n) ip) of
             (None, ip) \<Rightarrow> (Ok (), ip)
           | (Some _, ip) \<Rightarrow> (Err (ErrnoError ''mount() failed''), sys_do ie (LoopDevice n) ip))
      | _ \<Rightarrow> loop_mount (n + 1) ls mnt ie args ip)"

definition do_mount :: builtin where
  "do_mount ie args ip =
     (case mount_args (drop 4 (ba_args args)) (0, False, None) of
        (flags, w, options) \<Rightarrow>
          (let system = arg args 1; source = arg args 2; target = arg args 3
           in if StartsWith (ie_lb ie) source ''loop@'' then
                and_then (checked (OpenRead (drop 5 source)) (ErrnoError (''open('' @ drop 5 source @ '') failed'')))
                  (loop_mount 0 (ms_loops (ie_mounts ie)) (\<lambda>tmp. Mount tmp target system flags options)) ie args ip
              else
                checked_quiet (Mount source target system flags options) ''mount() failed'' ie args
                  (if w then sys_do ie (WaitForFile source None) ip else ip)))"

definition userdata_remount_panic :: "bool \<Rightarrow> init_process \<Rightarrow> init_process" where
  "userdata_remount_panic userdata_remount ip =
     (if userdata_remount then trigger_shutdown ''reboot,requested-userdata-remount-on-fde-device'' ip else ip)"

definition queue_encrypted :: builtin where
  "queue_encrypted ie args ip =
     (case sys ie InstallKeyring ip of
        (Some _, ip) \<Rightarrow> (Err (Error ''FscryptInstallKeyring() failed''), ip)
      | (None, ip) \<Rightarrow> (Ok (), queue_event ie ''nonencrypted'' (sys_do ie (SetProp ''ro.crypto.state'' ''encrypted'') ip)))"

definition queue_fs_event :: "int \<Rightarrow> bool \<Rightarrow> builtin" where
  "queue_fs_event code userdata_remount ie args ip =
     (let mc = ms_codes (ie_mounts ie)
      in if code = DEV_NEEDS_ENCRYPTION mc then (Ok (), queue_event ie ''encrypt'' (userdata_remount_panic userdata_remount ip))
         else if code = DEV_MIGHT_BE_ENCRYPTED mc then
           (Ok (), queue_event ie ''defaultcrypto''
              (sys_do ie (SetProp ''ro.crypto.state'' ''encrypted'') (userdata_remount_panic userdata_remount ip)))
         else if code = DEV_NOT_ENCRYPTED mc then
           (Ok (), queue_event ie ''nonencrypted'' (sys_do ie (SetProp ''ro.crypto.state'' ''unencrypted'') ip))
         else if code = DEV_NOT_ENCRYPTABLE mc then
           (Ok (), queue_event ie ''nonencrypted'' (sys_do ie (SetProp ''ro.crypto.state'' ''unsupported'') ip))
         else if code = DEV_NEEDS_RECOVERY mc then
           (if ms_gsi_running (ie_mounts ie) then (Err (Error ''cannot wipe within GSI''), ip)
            else reboot_into_recovery [''--wipe_data'', ''--reason=fs_mgr_mount_all''] ie args ip)
         else if code = DEV_FILE_ENCRYPTED mc \<or> code = DEV_IS_METADATA_ENCRYPTED mc \<or> code = DEV_NEEDS_METADATA_ENCRYPTION mc then
           queue_encrypted ie args ip
         else (Err (Error (''Invalid code: '' @ to_string code)), ip))"

text \<open>\<^verbatim>\<open>ReadDefaultFstab\<close> or \<^verbatim>\<open>ReadFstabFromFile\<close>.\<close>

definition read_fstab :: "string \<Rightarrow> string \<Rightarrow> builtin" where
  "read_fstab path failed ie args ip =
     (if ms_fstab (ie_mounts ie) path then (Ok (), ip)
      else (Err (Error (if path = [] then ''Could not read default fstab'' else failed)), ip))"

definition mount_prop_post_fix :: "mount_mode \<Rightarrow> string" where
  "mount_prop_post_fix mode = (case mode of MOUNT_MODE_EARLY \<Rightarrow> ''early'' | MOUNT_MODE_LATE \<Rightarrow> ''late'' | MOUNT_MODE_DEFAULT \<Rightarrow> ''default'')"

definition do_mount_all :: builtin where
  "do_mount_all ie args ip =
     (case ParseMountAll (os_version (os_of ie ip)) (ba_args args) of
        Inl e \<Rightarrow> (Inl e, ip)
      | Inr mount_all \<Rightarrow>
          and_then (read_fstab (fstab_path mount_all) ''Could not read fstab'')
            (\<lambda>ie args ip.
               case ms_mount_all (ie_mounts ie) (fstab_path mount_all) (mnt_mode mount_all) of
                 (code, userdata_mounted) \<Rightarrow>
                   (let ip = sys_do ie (SetProp (''ro.boottime.init.mount_all.'' @ mount_prop_post_fix (mnt_mode mount_all))
                                          (ms_duration (ie_mounts ie))) ip;
                        ip = (if import_rc mount_all then import_late ie (rc_paths mount_all) ip else ip);
                        ip = (if userdata_mounted then ip\<lparr>initial_mount_fstab_return_code := code\<rparr> else ip)
                    in if mnt_mode mount_all \<noteq> MOUNT_MODE_EARLY then
                         (case queue_fs_event code False ie args ip of
                            (Inl e, ip) \<Rightarrow> (Err (Error (''queue_fs_event() failed: '' @ message e)), ip)
                          | (Inr _, ip) \<Rightarrow> (Ok (), ip))
                       else (Ok (), ip)))
            ie args ip)"

definition do_umount_all :: builtin where
  "do_umount_all ie args ip =
     (case ParseUmountAll (os_version (os_of ie ip)) (ba_args args) of
        Inl e \<Rightarrow> (Inl e, ip)
      | Inr path \<Rightarrow>
          and_then (read_fstab path ''Could not read fstab'')
            (\<lambda>ie args ip.
               let ip = sys_do ie (UmountAll path) ip; result = ms_umount_all (ie_mounts ie) path
               in if result \<noteq> 0 then (Err (Error (''umount_fstab() failed '' @ to_string result)), ip) else (Ok (), ip))
            ie args ip)"

definition do_swapon_all :: builtin where
  "do_swapon_all ie args ip =
     (case ParseSwaponAll (os_version (os_of ie ip)) (ba_args args) of
        Inl e \<Rightarrow> (Inl e, ip)
      | Inr path \<Rightarrow>
          and_then (read_fstab path (''Could not read fstab '' @ quoted path))
            (checked (SwaponAll path) (Error ''fs_mgr_swapon_all() failed'')) ie args ip)"


section \<open>Properties, services and events\<close>

definition do_setprop :: builtin where
  "do_setprop ie args ip =
     (if StartsWith (ie_lb ie) (arg args 1) ''ctl.''
      then (Err (Error ''Cannot set ctl. properties from init; call the Service functions directly''), ip)
      else if arg args 1 = ''selinux.restorecon_recursive''
      then (Err (Error (''Cannot set '' @ quoted ''selinux.restorecon_recursive'' @ '' from init; use the restorecon builtin directly'')), ip)
      else (Ok (), sys_do ie (SetProp (arg args 1) (arg args 2)) ip))"

definition do_setrlimit :: builtin where
  "do_setrlimit ie args ip =
     (case ParseRlimit (ie_lb ie) (ba_args args) of
        Inl e \<Rightarrow> (Inl e, ip)
      | Inr (resource, cur, mx) \<Rightarrow> checked (Setrlimit resource cur mx) (ErrnoError ''setrlimit failed'') ie args ip)"

definition no_service :: "BuiltinArguments \<Rightarrow> init_error" where
  "no_service args = Error (''service '' @ arg args 1 @ '' not found'')"

text \<open>\<^verbatim>\<open>ErrorIgnoreEnoent()\<close> looks at \<^verbatim>\<open>errno\<close> as starting the service left it.\<close>

definition do_start :: builtin where
  "do_start = and_then (InnitCheckCommand ''start'')
     (\<lambda>ie args ip. on_found (named args ip) (no_service args) (Start (ie_lb ie))
        (\<lambda>e ip. if ignores_enoent (ie_errno ie (length (ip_trace ip))) ip then Ok ()
                else Err (Error (''Could not start service: '' @ message e))) ie args ip)"

definition do_stop :: builtin where
  "do_stop = and_then (InnitCheckCommand ''stop'')
     (\<lambda>ie args ip. on_found (named args ip) (no_service args) (always_ok (\<lambda>os. simple_op (Stop os))) (prefixed []) ie args ip)"

definition do_restart :: builtin where
  "do_restart = and_then (InnitCheckCommand ''restart'')
     (\<lambda>ie args ip. on_found (named args ip) (no_service args) (always_ok (\<lambda>os. static_op (Restart (ie_lb ie) os))) (prefixed []) ie args ip)"

definition do_trigger :: builtin where
  "do_trigger = and_then (InnitCheckCommand ''trigger'') (\<lambda>ie args ip. (Ok (), queue_event ie (arg args 1) ip))"

section \<open>Files\<close>

definition do_symlink :: builtin where
  "do_symlink ie args ip = checked_quiet (Symlink (arg args 1) (arg args 2)) ''symlink() failed'' ie args ip"

definition do_rm :: builtin where
  "do_rm ie args ip = checked (UnlinkFile (arg args 1)) (ErrnoError ''unlink() failed'') ie args ip"

definition do_rmdir :: builtin where
  "do_rmdir ie args ip = checked (Rmdir (arg args 1)) (ErrnoError ''rmdir() failed'') ie args ip"

definition do_sysclktz :: builtin where
  "do_sysclktz ie args ip =
     (case ParseInt (ie_lb ie) (arg args 1) (- 2147483648) 2147483647 of
        None \<Rightarrow> (Err (Error ''Unable to parse mins_west_of_gmt''), ip)
      | Some tz_minuteswest \<Rightarrow> checked (Settimeofday tz_minuteswest) (ErrnoError ''settimeofday() failed'') ie args ip)"

fun verity_entries :: "init_env \<Rightarrow> int \<Rightarrow> (string \<times> string) list \<Rightarrow> init_process \<Rightarrow> init_process" where
  "verity_entries ie mode [] ip = ip"
| "verity_entries ie mode ((mount_point, hash_alg) # es) ip =
     (let part = (if mount_point = ''/'' then ''system'' else ms_basename (ie_mounts ie) mount_point);
          ip = sys_do ie (SetProp (''partition.'' @ part @ ''.verified'') (to_string mode)) ip
      in verity_entries ie mode es
           (if hash_alg \<noteq> [] then sys_do ie (SetProp (''partition.'' @ part @ ''.verified.hash_alg'') hash_alg) ip else ip))"

definition do_verity_update_state :: builtin where
  "do_verity_update_state ie args ip =
     (case ms_verity_state (ie_mounts ie) of
        None \<Rightarrow> (Err (Error ''fs_mgr_load_verity_state() failed''), ip)
      | Some mode \<Rightarrow>
          if ms_fstab (ie_mounts ie) [] then (Ok (), verity_entries ie mode (ms_verity (ie_mounts ie)) ip)
          else (Err (Error ''Failed to read default fstab''), ip))"

definition do_write :: builtin where
  "do_write ie args ip =
     (case sys ie (WriteFile (arg args 1) (arg args 2)) ip of
        (None, ip) \<Rightarrow> (Ok (), ip)
      | (Some e, ip) \<Rightarrow>
          (if ignores_enoent (ie_errno ie (length (ip_trace ip))) ip then Ok ()
           else Err (Error (''Unable to write to file '' @ quoted (arg args 1))), ip))"

text \<open>The child that reads ahead is another process.\<close>

definition do_readahead :: builtin where
  "do_readahead ie args ip =
     (if \<not> ie_stat ie (length (ip_trace ip)) (arg args 1) then (Err (ErrnoError (''Error opening '' @ arg args 1)), ip)
      else
        checked (ForkReadahead (arg args 1) (length (ba_args args) = 3 \<and> arg args 2 = ''--fully'')) (ErrnoError ''Fork failed'')
          ie args ip)"

definition do_copy :: builtin where
  "do_copy ie args ip =
     (case ReadFile (ie_files ie) (arg args 1) of
        Inl e \<Rightarrow> (Err (Error (''Could not read input file '' @ quoted (arg args 1) @ '': '' @ message e)), ip)
      | Inr content \<Rightarrow>
          checked (WriteFile (arg args 2) content) (Error (''Could not write to output file '' @ quoted (arg args 2))) ie args ip)"

definition do_copy_per_line :: builtin where
  "do_copy_per_line ie args ip =
     (case ie_files ie (arg args 1) of
        None \<Rightarrow> (Err (Error (''Could not read input file '' @ quoted (arg args 1))), ip)
      | Some f \<Rightarrow>
          (case file_content f of
             None \<Rightarrow> (Err (Error (''Could not read input file '' @ quoted (arg args 1))), ip)
           | Some content \<Rightarrow>
               (Ok (), fold (\<lambda>line. sys_do ie (WriteFile (arg args 2) line)) (Split (ie_lb ie) content [LF]) ip)))"

definition do_chown :: builtin where
  "do_chown ie args ip =
     (case DecodeUid (ie_getpwnam ie) (arg args 1) of
        Inl e \<Rightarrow> (Err (Error (''Unable to decode UID for '' @ quoted (arg args 1) @ '': '' @ message e)), ip)
      | Inr uid \<Rightarrow>
          (let with_gid = (length (ba_args args) = 4);
               path = (if with_gid then arg args 3 else arg args 2)
           in case (if with_gid then DecodeUid (ie_getpwnam ie) (arg args 2) else Ok (- 1)) of
                Inl e \<Rightarrow> (Err (Error (''Unable to decode GID for '' @ quoted (arg args 2) @ '': '' @ message e)), ip)
              | Inr gid \<Rightarrow> checked_quiet (Lchown path uid gid) ''lchown() failed'' ie args ip))"

text \<open>\<^verbatim>\<open>mode_t\<close> is unsigned with 32 bits; a character that is no octal digit gives \<^verbatim>\<open>-1\<close>.\<close>

fun get_mode_from :: "32 word \<Rightarrow> string \<Rightarrow> 32 word" where
  "get_mode_from mode [] = mode"
| "get_mode_from mode (c # s) =
     (if 48 \<le> code_of c \<and> code_of c \<le> 55 then get_mode_from (push_bit 3 mode OR word_of_nat (code_of c - 48)) s else - 1)"

definition get_mode :: "string \<Rightarrow> 32 word" where
  "get_mode s = get_mode_from 0 (c_str s)"

definition do_chmod :: builtin where
  "do_chmod ie args ip = checked_quiet (Fchmodat (arg args 2) (get_mode (arg args 1))) ''fchmodat() failed'' ie args ip"

text \<open>All paths are tried; the last failure counts.\<close>

fun restorecon_paths :: "init_env \<Rightarrow> 32 word \<Rightarrow> string list \<Rightarrow> errno option \<Rightarrow> init_process \<Rightarrow> errno option \<times> init_process" where
  "restorecon_paths ie flag [] ret ip = (ret, ip)"
| "restorecon_paths ie flag (p # ps) ret ip =
     (case sys ie (Restorecon p flag) ip of
        (None, ip) \<Rightarrow> restorecon_paths ie flag ps ret ip
      | (Some e, ip) \<Rightarrow> restorecon_paths ie flag ps (Some e) ip)"

definition do_restorecon :: builtin where
  "do_restorecon ie args ip =
     (case ParseRestorecon (ie_lb ie) (ie_restorecon ie) (ba_args args) of
        Inl e \<Rightarrow> (Inl e, ip)
      | Inr (flag, paths) \<Rightarrow>
          (case restorecon_paths ie flag paths None ip of
             (None, ip) \<Rightarrow> (Ok (), ip)
           | (Some e, ip) \<Rightarrow> (ErrnoErrorIgnoreEnoent e ''selinux_android_restorecon() failed'' ip, ip)))"

definition do_restorecon_recursive :: builtin where
  "do_restorecon_recursive ie args ip =
     do_restorecon ie (args\<lparr>ba_args := take 1 (ba_args args) @ [''--recursive''] @ drop 1 (ba_args args)\<rparr>) ip"

definition severity_of_level :: "int \<Rightarrow> severity option" where
  "severity_of_level l =
     (if l = 7 then Some DEBUG else if l = 6 then Some INFO else if l = 5 \<or> l = 4 then Some WARNING
      else if l = 3 then Some ERROR else if l = 2 \<or> l = 1 \<or> l = 0 then Some FATAL else None)"

definition do_loglevel :: builtin where
  "do_loglevel ie args ip =
     (let log_level = (case ParseInt (ie_lb ie) (arg args 1) (- 2147483648) 2147483647 of None \<Rightarrow> - 1 | Some l \<Rightarrow> l)
      in case severity_of_level log_level of
           None \<Rightarrow> (Err (Error (''invalid log level '' @ to_string log_level)), ip)
         | Some severity \<Rightarrow> (Ok (), ip\<lparr>log_severity := severity\<rparr>))"

definition do_load_persist_props :: builtin where
  "do_load_persist_props ie args ip =
     (let block = (prop_of_process ie ip ''ro.crypto.state'' = ''encrypted'' \<and> prop_of_process ie ip ''ro.crypto.type'' = ''block'');
          ip = (if block then ip\<lparr>num_calls := num_calls ip + 1\<rparr> else ip)
      in if block \<and> num_calls ip = 1 then (Ok (), ip)
         else (Ok (), snd (StartWaiting ie ''ro.persistent_properties.ready'' ''true'' (sys_do ie LoadPersistentMessage ip))))"

definition do_load_system_props :: builtin where
  "do_load_system_props ie args ip = (Ok (), ip)"

definition do_wait :: builtin where
  "do_wait ie args ip =
     (if length (ba_args args) = 3 \<and> \<not> ParseDouble (ie_lb ie) (arg args 2) then (Err (Error ''failed to parse timeout''), ip)
      else
        checked (WaitForFile (arg args 1) (if length (ba_args args) = 3 then Some (arg args 2) else None))
          (Error ''wait_for_file() failed'') ie args ip)"

definition do_wait_for_prop :: builtin where
  "do_wait_for_prop ie args ip =
     (let name = c_str (arg args 1); v = c_str (arg args 2)
      in if \<not> IsLegalPropertyName name then (Err (Error (''IsLegalPropertyName('' @ name @ '') failed'')), ip)
         else if length v \<ge> PROP_VALUE_MAX then (Err (Error ''value too long''), ip)
         else
           (case StartWaiting ie name v ip of
              (True, ip) \<Rightarrow> (Ok (), ip)
            | (False, ip) \<Rightarrow> (Err (Error ''already waiting for a property''), ip)))"

section \<open>Commands that must not fail\<close>

definition is_file_crypto :: "init_env \<Rightarrow> init_process \<Rightarrow> bool" where
  "is_file_crypto ie ip = (prop_of_process ie ip ''ro.crypto.type'' = ''file'')"

text \<open>
  What happens when \<^verbatim>\<open>vdc\<close> fails; the text says which of the two ways was chosen when the command
  ran, and the reason.
\<close>

definition vdc_failed :: "bool \<Rightarrow> string \<Rightarrow> init_env \<Rightarrow> init_process \<Rightarrow> init_process" where
  "vdc_failed should_reboot_into_recovery reboot_reason ie ip =
     (if should_reboot_into_recovery then
        (if ms_fscrypt_native (ie_mounts ie) \<and> \<not> ms_gsi_running (ie_mounts ie) then
           (case reboot_into_recovery [''--prompt_and_wipe_data'', ''--reason='' @ reboot_reason] ie \<lparr>ba_args = [], ba_context = []\<rparr> ip of
              (Inr _, ip) \<Rightarrow> ip
            | (Inl _, ip) \<Rightarrow> sys_do ie (Abort ''Could not reboot into recovery'') ip)
         else ip)
      else trigger_shutdown (''reboot,'' @ reboot_reason) ip)"

definition vdc_callback :: "bool \<Rightarrow> string \<Rightarrow> string" where
  "vdc_callback should_reboot_into_recovery reboot_reason =
     (if should_reboot_into_recovery then ''recovery:'' else ''reboot:'') @ reboot_reason"

definition ExecWithFunctionOnFailure ::
  "string list \<Rightarrow> string \<Rightarrow> (init_env \<Rightarrow> init_process \<Rightarrow> init_process) \<Rightarrow> init_env \<Rightarrow> init_process \<Rightarrow> unit result \<times> init_process" where
  "ExecWithFunctionOnFailure args callback func ie ip =
     (case MakeTemporaryOneshotService (ie_lb ie) (ie_getpwnam ie) args (sl_static (ip_sl ip)) of
        (Inl e, st) \<Rightarrow> (Ok (), sys_do ie (Abort ''expected has no value'') (func ie (set_static st ip)))
      | (Inr s, st) \<Rightarrow>
          (case ExecStart (ie_lb ie) (os_of ie ip) (AddReapCallback callback s) st of
             (r, s, st, effs) \<Rightarrow>
               (let ip = absorb effs (delay_all effs (set_static st ip));
                    ip = (case r of Inl _ \<Rightarrow> func ie ip | Inr _ \<Rightarrow> ip)
                in (Ok (), set_sl (AddService s (ip_sl ip)) ip))))"

definition ExecVdcRebootOnFailure :: "string \<Rightarrow> init_env \<Rightarrow> init_process \<Rightarrow> unit result \<times> init_process" where
  "ExecVdcRebootOnFailure vdc_arg ie ip =
     (let userspace = os_bool_props (os_of ie ip) ''sys.init.userspace_reboot.in_progress'';
          reboot_reason = (if userspace then ''userspace_failed,'' @ vdc_arg else vdc_arg @ ''_failed'')
      in ExecWithFunctionOnFailure [''exec'', ''/system/bin/vdc'', ''--wait'', ''cryptfs'', vdc_arg]
           (vdc_callback (\<not> userspace) reboot_reason) (vdc_failed (\<not> userspace) reboot_reason) ie ip)"

definition do_remount_userdata :: builtin where
  "do_remount_userdata ie args ip =
     (if initial_mount_fstab_return_code ip = - 1 then (Err (Error ''Calling remount_userdata too early''), ip)
      else if \<not> ms_fstab (ie_mounts ie) [] then (Err (Error ''Failed to read fstab''), ip)
      else
        (case sys ie RemountUserdata ip of
           (r, ip) \<Rightarrow>
             (let ip = (if r \<noteq> None then trigger_shutdown ''reboot,mount_userdata_failed'' ip else ip)
              in case queue_fs_event (initial_mount_fstab_return_code ip) True ie args ip of
                   (Inl e, ip) \<Rightarrow> (Err (Error (''queue_fs_event() failed: '' @ message e)), ip)
                 | (Inr _, ip) \<Rightarrow> (Ok (), ip))))"

definition do_installkey :: builtin where
  "do_installkey ie args ip =
     (if \<not> is_file_crypto ie ip then (Ok (), ip)
      else
        (let unencrypted_dir = arg args 1 @ ms_unencrypted_folder (ie_mounts ie)
         in case sys ie (Mkdir unencrypted_dir 448) ip of
              (r, ip) \<Rightarrow>
                if r \<noteq> None \<and> r \<noteq> Some EEXIST then (Err (ErrnoError (''Failed to create '' @ unencrypted_dir)), ip)
                else ExecVdcRebootOnFailure ''enablefilecrypto'' ie ip))"

definition do_init_user0 :: builtin where
  "do_init_user0 ie args ip = ExecVdcRebootOnFailure ''init_user0'' ie ip"

definition do_mark_post_data :: builtin where
  "do_mark_post_data ie args ip = (Ok (), set_sl (MarkPostData (ip_sl ip)) ip)"

section \<open>APEX\<close>

definition GenerateLinkerConfiguration :: builtin where
  "GenerateLinkerConfiguration = and_then (checked Linkerconfig (ErrnoError ''failed to execute linkerconfig''))
     (\<lambda>ie args ip.
        case ms_namespace (ie_mounts ie) of
          Inl e \<Rightarrow> (Inl e, ip)
        | Inr is_default \<Rightarrow> (Ok (), if is_default then ip\<lparr>mount_ns_ready := True\<rparr> else ip))"

definition MountLinkerConfigForDefaultNamespace :: builtin where
  "MountLinkerConfigForDefaultNamespace ie args ip =
     (case sys ie (Access ''/linkerconfig/default'') ip of
        (Some _, ip) \<Rightarrow> (Ok (), ip)
      | (None, ip) \<Rightarrow>
          checked (Mount ''/linkerconfig/default'' ''/linkerconfig'' [] (4096 OR 16384) None)
            (ErrnoError ''Failed to mount linker configuration for default mount namespace.'') ie args ip)"

definition do_update_linker_config :: builtin where
  "do_update_linker_config ie args ip =
     (if os_apex_updatable (os_of ie ip) then GenerateLinkerConfiguration ie args ip else (Ok (), ip))"

definition apex_configs :: "libbase \<Rightarrow> string list \<Rightarrow> string list" where
  "apex_configs lb paths =
     filter (\<lambda>path. \<not> (let ps = Split lb path ''/'' in 3 \<le> length ps \<and> CHR ''@'' \<in> set (ps ! 2))) paths"

fun parse_apex_files :: "init_env \<Rightarrow> string list \<Rightarrow> bool \<Rightarrow> init_process \<Rightarrow> bool \<times> init_process" where
  "parse_apex_files ie [] success ip = (success, ip)"
| "parse_apex_files ie (c # cs) success ip =
     (if last c = CHR ''/'' then parse_apex_files ie cs success ip
      else
        (case ParseConfigFile (ie_lb ie) (ie_rc ie) (CreateServiceOnlyParser (ie_lb ie) (ie_rc ie) (ie_cfg ie) True) c (ip_rc ip) of
           None \<Rightarrow> (False, ip\<lparr>ip_diverged := True\<rparr>)
         | Some (parsed, rs) \<Rightarrow> parse_apex_files ie cs (success \<and> parsed) (ip\<lparr>ip_rc := rs\<rparr>)))"

definition mark_services_update :: "init_env \<Rightarrow> init_process \<Rightarrow> init_process" where
  "mark_services_update ie ip =
     (case MarkServicesUpdate (ie_lb ie) (\<lambda>k. ie_os ie (length (ip_trace ip) + k)) (ip_sl ip) of
        (sl, effs) \<Rightarrow> absorb effs (set_sl sl ip))"

definition parse_apex_configs :: "init_env \<Rightarrow> init_process \<Rightarrow> unit result \<times> init_process" where
  "parse_apex_configs ie ip =
     (case ms_apex_rc (ie_mounts ie) of
        None \<Rightarrow> (Err (Error (''glob pattern '' @ quoted ''/apex/*/etc/*.rc'' @ '' failed'')), ip)
      | Some paths \<Rightarrow>
          (case parse_apex_files ie (apex_configs (ie_lb ie) paths) True (fresh_parser ip) of
             (success, ip) \<Rightarrow>
               (let ip = mark_services_update ie ip
                in if success then (Ok (), ip) else (Err (Error ''Could not parse apex configs''), ip))))"

definition apex_data_dir :: "string \<Rightarrow> MkdirOptions" where
  "apex_data_dir name =
     \<lparr>mk_target = ''/data/misc/apexdata/'' @ name, mk_mode = 505, mk_uid = 0, mk_gid = 1000,
      mk_fscrypt_action = kNone, mk_ref_option = ''ref''\<rparr>"

definition create_apex_data_dirs :: builtin where
  "create_apex_data_dirs ie args ip =
     (case ms_apex_dirs (ie_mounts ie) of
        None \<Rightarrow> (Err (ErrnoError ''Unable to open apex directory''), ip)
      | Some es \<Rightarrow>
          (Ok (), fold (\<lambda>(name, is_dir) ip.
                     if \<not> is_dir \<or> take 1 name = ''.'' \<or> CHR ''@'' \<in> set name then ip
                     else snd (make_dir_with_options (apex_data_dir name) ie args ip)) es ip))"

definition do_perform_apex_config :: builtin where
  "do_perform_apex_config =
     and_then create_apex_data_dirs (and_then (\<lambda>ie args ip. parse_apex_configs ie ip) do_update_linker_config)"

definition do_enter_default_mount_ns :: builtin where
  "do_enter_default_mount_ns =
     and_then (checked SwitchToDefaultNamespace (ErrnoError ''Failed to switch to default mount namespace''))
       MountLinkerConfigForDefaultNamespace"


section \<open>The table\<close>

definition do_bootchart :: builtin where
  "do_bootchart ie args ip =
     (if arg args 1 = ''start''
      then (Ok (), if ie_stat ie (length (ip_trace ip)) ''/data/bootchart/enabled'' then ip\<lparr>bootcharting := True\<rparr> else ip)
      else (Ok (), ip\<lparr>bootcharting := False\<rparr>))"

text \<open>Name, least and greatest number of arguments, whether vendor scripts run it in their own process, function.\<close>

definition builtin_table :: "(string \<times> nat \<times> nat \<times> bool \<times> string) list" where
  "builtin_table =
     [(''bootchart'', 1, 1, False, ''do_bootchart''),
      (''chmod'', 2, 2, True, ''do_chmod''),
      (''chown'', 2, 3, True, ''do_chown''),
      (''class_reset'', 1, 1, False, ''do_class_reset''),
      (''class_reset_post_data'', 1, 1, False, ''do_class_reset_post_data''),
      (''class_restart'', 1, 1, False, ''do_class_restart''),
      (''class_start'', 1, 1, False, ''do_class_start''),
      (''class_start_post_data'', 1, 1, False, ''do_class_start_post_data''),
      (''class_stop'', 1, 1, False, ''do_class_stop''),
      (''copy'', 2, 2, True, ''do_copy''),
      (''copy_per_line'', 2, 2, True, ''do_copy_per_line''),
      (''domainname'', 1, 1, True, ''do_domainname''),
      (''enable'', 1, 1, False, ''do_enable''),
      (''exec'', 1, kMax, False, ''do_exec''),
      (''exec_background'', 1, kMax, False, ''do_exec_background''),
      (''exec_start'', 1, 1, False, ''do_exec_start''),
      (''export'', 2, 2, False, ''do_export''),
      (''hostname'', 1, 1, True, ''do_hostname''),
      (''ifup'', 1, 1, True, ''do_ifup''),
      (''init_user0'', 0, 0, False, ''do_init_user0''),
      (''insmod'', 1, kMax, True, ''do_insmod''),
      (''installkey'', 1, 1, False, ''do_installkey''),
      (''interface_restart'', 1, 1, False, ''do_interface_restart''),
      (''interface_start'', 1, 1, False, ''do_interface_start''),
      (''interface_stop'', 1, 1, False, ''do_interface_stop''),
      (''load_exports'', 1, 1, False, ''do_load_exports''),
      (''load_persist_props'', 0, 0, False, ''do_load_persist_props''),
      (''load_system_props'', 0, 0, False, ''do_load_system_props''),
      (''loglevel'', 1, 1, False, ''do_loglevel''),
      (''mark_post_data'', 0, 0, False, ''do_mark_post_data''),
      (''mkdir'', 1, 6, True, ''do_mkdir''),
      (''mount_all'', 0, kMax, False, ''do_mount_all''),
      (''mount'', 3, kMax, False, ''do_mount''),
      (''perform_apex_config'', 0, 0, False, ''do_perform_apex_config''),
      (''umount'', 1, 1, False, ''do_umount''),
      (''umount_all'', 0, 1, False, ''do_umount_all''),
      (''update_linker_config'', 0, 0, False, ''do_update_linker_config''),
      (''readahead'', 1, 2, True, ''do_readahead''),
      (''remount_userdata'', 0, 0, False, ''do_remount_userdata''),
      (''restart'', 1, 1, False, ''do_restart''),
      (''restorecon'', 1, kMax, True, ''do_restorecon''),
      (''restorecon_recursive'', 1, kMax, True, ''do_restorecon_recursive''),
      (''rm'', 1, 1, True, ''do_rm''),
      (''rmdir'', 1, 1, True, ''do_rmdir''),
      (''setprop'', 2, 2, True, ''do_setprop''),
      (''setrlimit'', 3, 3, False, ''do_setrlimit''),
      (''start'', 1, 1, False, ''do_start''),
      (''stop'', 1, 1, False, ''do_stop''),
      (''swapon_all'', 0, 1, False, ''do_swapon_all''),
      (''enter_default_mount_ns'', 0, 0, False, ''do_enter_default_mount_ns''),
      (''symlink'', 2, 2, True, ''do_symlink''),
      (''sysclktz'', 1, 1, False, ''do_sysclktz''),
      (''trigger'', 1, 1, False, ''do_trigger''),
      (''verity_update_state'', 0, 0, False, ''do_verity_update_state''),
      (''wait'', 1, 2, True, ''do_wait''),
      (''wait_for_prop'', 2, 2, False, ''do_wait_for_prop''),
      (''write'', 2, 2, True, ''do_write'')]"

definition GetBuiltinFunctionMap :: BuiltinFunctionMap where
  "GetBuiltinFunctionMap =
     map (\<lambda>(name, mn, mx, sub, f).
            (name, \<lparr>min_args = mn, max_args = mx, mv_value = \<lparr>run_in_subcontext = sub, builtin_function = f\<rparr>\<rparr>)) builtin_table"

definition builtin_functions :: "(string \<times> builtin) list" where
  "builtin_functions =
     [(''do_bootchart'', do_bootchart),
      (''do_chmod'', do_chmod),
      (''do_chown'', do_chown),
      (''do_class_reset'', do_class_reset),
      (''do_class_reset_post_data'', do_class_reset_post_data),
      (''do_class_restart'', do_class_restart),
      (''do_class_start'', do_class_start),
      (''do_class_start_post_data'', do_class_start_post_data),
      (''do_class_stop'', do_class_stop),
      (''do_copy'', do_copy),
      (''do_copy_per_line'', do_copy_per_line),
      (''do_domainname'', do_domainname),
      (''do_enable'', do_enable),
      (''do_exec'', do_exec),
      (''do_exec_background'', do_exec_background),
      (''do_exec_start'', do_exec_start),
      (''do_export'', do_export),
      (''do_hostname'', do_hostname),
      (''do_ifup'', do_ifup),
      (''do_init_user0'', do_init_user0),
      (''do_insmod'', do_insmod),
      (''do_installkey'', do_installkey),
      (''do_interface_restart'', do_interface_restart),
      (''do_interface_start'', do_interface_start),
      (''do_interface_stop'', do_interface_stop),
      (''do_load_exports'', do_load_exports),
      (''do_load_persist_props'', do_load_persist_props),
      (''do_load_system_props'', do_load_system_props),
      (''do_loglevel'', do_loglevel),
      (''do_mark_post_data'', do_mark_post_data),
      (''do_mkdir'', do_mkdir),
      (''do_mount_all'', do_mount_all),
      (''do_mount'', do_mount),
      (''do_perform_apex_config'', do_perform_apex_config),
      (''do_umount'', do_umount),
      (''do_umount_all'', do_umount_all),
      (''do_update_linker_config'', do_update_linker_config),
      (''do_readahead'', do_readahead),
      (''do_remount_userdata'', do_remount_userdata),
      (''do_restart'', do_restart),
      (''do_restorecon'', do_restorecon),
      (''do_restorecon_recursive'', do_restorecon_recursive),
      (''do_rm'', do_rm),
      (''do_rmdir'', do_rmdir),
      (''do_setprop'', do_setprop),
      (''do_setrlimit'', do_setrlimit),
      (''do_start'', do_start),
      (''do_stop'', do_stop),
      (''do_swapon_all'', do_swapon_all),
      (''do_enter_default_mount_ns'', do_enter_default_mount_ns),
      (''do_symlink'', do_symlink),
      (''do_sysclktz'', do_sysclktz),
      (''do_trigger'', do_trigger),
      (''do_verity_update_state'', do_verity_update_state),
      (''do_wait'', do_wait),
      (''do_wait_for_prop'', do_wait_for_prop),
      (''do_write'', do_write)]"

end
