(* ===== verification/Builtin_Safety.thy ===== *)
theory Builtin_Safety
  imports Builtins
begin

text \<open>
  What no command can break, whatever its arguments and whatever the kernel answers: the action
  manager only grows, services keep distinct names, and every service keeps its invariant.
\<close>

section \<open>Fields\<close>

lemma set_get [simp]:
  "ip_am (set_am am ip) = am" "ip_sl (set_am am ip) = ip_sl ip" "ip_sl (set_sl sl ip) = sl" "ip_am (set_sl sl ip) = ip_am ip"
  by (simp_all add: ip_am_def ip_sl_def set_am_def set_sl_def set_rc_world_def)

text \<open>Updates outside the manager and the services.\<close>

lemma process_fields [simp]:
  "ip_am (record_effect e ip) = ip_am ip" "ip_sl (record_effect e ip) = ip_sl ip"
  "ip_am (note_policy evs ip) = ip_am ip" "ip_sl (note_policy evs ip) = ip_sl ip"
  "ip_am (trigger_shutdown c ip) = ip_am ip" "ip_sl (trigger_shutdown c ip) = ip_sl ip"
  "ip_am (snd (sys ie call ip)) = ip_am ip" "ip_sl (snd (sys ie call ip)) = ip_sl ip"
  "ip_am (sys_do ie call ip) = ip_am ip" "ip_sl (sys_do ie call ip) = ip_sl ip"
  by (simp_all add: record_effect_def note_policy_def trigger_shutdown_def sys_def sys_do_def ip_am_def ip_sl_def)

lemma StartWaiting_fields [simp]:
  "ip_am (snd (StartWaiting ie n v ip)) = ip_am ip" "ip_sl (snd (StartWaiting ie n v ip)) = ip_sl ip"
  by (simp_all add: StartWaiting_def ip_am_def ip_sl_def)

lemma record_fields [simp]:
  "ip_am (ip\<lparr>late_import_paths := l\<rparr>) = ip_am ip" "ip_sl (ip\<lparr>late_import_paths := l\<rparr>) = ip_sl ip"
  "ip_am (ip\<lparr>initial_mount_fstab_return_code := c\<rparr>) = ip_am ip" "ip_sl (ip\<lparr>initial_mount_fstab_return_code := c\<rparr>) = ip_sl ip"
  "ip_am (ip\<lparr>num_calls := n\<rparr>) = ip_am ip" "ip_sl (ip\<lparr>num_calls := n\<rparr>) = ip_sl ip"
  "ip_am (ip\<lparr>log_severity := v\<rparr>) = ip_am ip" "ip_sl (ip\<lparr>log_severity := v\<rparr>) = ip_sl ip"
  "ip_am (ip\<lparr>mount_ns_ready := b\<rparr>) = ip_am ip" "ip_sl (ip\<lparr>mount_ns_ready := b\<rparr>) = ip_sl ip"
  "ip_am (ip\<lparr>bootcharting := b\<rparr>) = ip_am ip" "ip_sl (ip\<lparr>bootcharting := b\<rparr>) = ip_sl ip"
  "ip_am (ip\<lparr>ip_diverged := b\<rparr>) = ip_am ip" "ip_sl (ip\<lparr>ip_diverged := b\<rparr>) = ip_sl ip"
  "ip_am (ip\<lparr>waiting_for_prop := w\<rparr>) = ip_am ip" "ip_sl (ip\<lparr>waiting_for_prop := w\<rparr>) = ip_sl ip"
  "ip_am (ip\<lparr>sub_pid := p\<rparr>) = ip_am ip" "ip_sl (ip\<lparr>sub_pid := p\<rparr>) = ip_sl ip"
  "ip_am (ip\<lparr>shutting_down := b\<rparr>) = ip_am ip" "ip_sl (ip\<lparr>shutting_down := b\<rparr>) = ip_sl ip"
  "ip_am (ip\<lparr>sending_messages := b\<rparr>) = ip_am ip" "ip_sl (ip\<lparr>sending_messages := b\<rparr>) = ip_sl ip"
  "ip_am (ip\<lparr>do_shutdown := b\<rparr>) = ip_am ip" "ip_sl (ip\<lparr>do_shutdown := b\<rparr>) = ip_sl ip"
  "ip_am (ip\<lparr>ip_closures := fs\<rparr>) = ip_am ip" "ip_sl (ip\<lparr>ip_closures := fs\<rparr>) = ip_sl ip"
  "ip_am (ip\<lparr>subcontext_terminated_by_shutdown := b\<rparr>) = ip_am ip"
  "ip_sl (ip\<lparr>subcontext_terminated_by_shutdown := b\<rparr>) = ip_sl ip"
  by (simp_all add: ip_am_def ip_sl_def)

lemma absorb_fields [simp]: "ip_am (absorb effs ip) = ip_am ip" "ip_sl (absorb effs ip) = ip_sl ip"
proof -
  have "ip_am (absorb_one e ip) = ip_am ip \<and> ip_sl (absorb_one e ip) = ip_sl ip" for e ip
    by (cases e) (simp_all add: absorb_one_def)
  then show "ip_am (absorb effs ip) = ip_am ip" "ip_sl (absorb effs ip) = ip_sl ip"
    unfolding absorb_def by (induction effs arbitrary: ip) simp_all
qed

section \<open>Names of temporary services\<close>

definition exec_name :: "nat \<Rightarrow> string \<Rightarrow> string" where
  "exec_name k c = ''exec '' @ to_string (int k) @ '' ('' @ c @ '')''"

lemma exec_name_inj: "exec_name j c = exec_name k d \<Longrightarrow> j = k"
proof -
  assume "exec_name j c = exec_name k d"
  then have e: "nat_digits j @ SPACE # ''('' @ c @ '')'' = nat_digits k @ SPACE # ''('' @ d @ '')''"
    by (simp add: exec_name_def to_string_def)
  have t: "takeWhile c_isdigit (nat_digits n @ SPACE # r) = nat_digits n" for n r
    using nat_digits_digits [of n] by (simp add: takeWhile_append2 list_all_iff c_isdigit_def code_of_def)
  show "j = k" using arg_cong [OF e, of "takeWhile c_isdigit"] t nat_digits_inj by simp
qed

lemma exec_name_space: "SPACE \<in> set (exec_name k c)"
  by (simp add: exec_name_def)

text \<open>Every name is one a script may give, or that of a temporary service made so far.\<close>

definition known_name :: "nat \<Rightarrow> string \<Rightarrow> bool" where
  "known_name count n = (SPACE \<notin> set n \<or> (\<exists>k c. n = exec_name k c \<and> k \<le> count))"

lemma known_name_mono: "known_name k n \<Longrightarrow> k \<le> l \<Longrightarrow> known_name l n"
  unfolding known_name_def using le_trans by blast

lemma known_exec_name: "known_name count (exec_name k c) \<longleftrightarrow> k \<le> count"
  unfolding known_name_def using exec_name_space exec_name_inj by blast

definition names_ok :: "ServiceList \<Rightarrow> bool" where
  "names_ok sl = list_all (\<lambda>s. known_name (exec_count (sl_static sl)) (svc_name s)) (sl_services sl)"

definition listed_ok :: "ServiceList \<Rightarrow> bool" where
  "listed_ok sl = (sl_inv sl \<and> names_ok sl)"

lemma names_ok_frame:
  "names_ok sl \<Longrightarrow> map svc_name (sl_services sl') = map svc_name (sl_services sl) \<Longrightarrow>
   exec_count (sl_static sl) \<le> exec_count (sl_static sl') \<Longrightarrow> names_ok sl'"
proof -
  assume n: "names_ok sl" "map svc_name (sl_services sl') = map svc_name (sl_services sl)" "exec_count (sl_static sl) \<le> exec_count (sl_static sl')"
  have l: "names_ok l \<longleftrightarrow> list_all (known_name (exec_count (sl_static l))) (map svc_name (sl_services l))" for l
    by (simp add: names_ok_def list.pred_map comp_def)
  then show ?thesis using n known_name_mono [OF _ n(3)] by (auto intro: list.pred_mono_strong)
qed

lemma legal_chars:
  "IsLegalPropertyName name \<Longrightarrow> i < length name \<Longrightarrow> name ! i = CHR ''.'' \<or> legal_char (name ! i)"
  by (auto simp: IsLegalPropertyName_def Let_def list_all_iff split: if_splits)

lemma legal_no_space: "IsValidName n \<Longrightarrow> SPACE \<notin> set n"
proof
  assume v: "IsValidName n" and "SPACE \<in> set n"
  then obtain i where i: "i < length n" "n ! i = SPACE" by (auto simp: in_set_conv_nth)
  have "legal_char SPACE \<or> SPACE = CHR ''.''"
    using legal_chars [of "''init.svc.'' @ n" "9 + i"] v i by (auto simp: IsValidName_def nth_append)
  then show False
    by (simp add: legal_char_def c_isalnum_def c_isalpha_def c_isupper_def c_islower_def c_isdigit_def code_of_def)
qed

section \<open>What a step keeps\<close>

definition env_ok :: "init_env \<Rightarrow> bool" where
  "env_ok ie = (libbase_api (ie_lb ie) \<and> (\<forall>k. os_fork (ie_os ie k) \<noteq> 0))"

definition keeps_process :: "init_process \<Rightarrow> init_process \<Rightarrow> bool" where
  "keeps_process ip ip' =
     (am_inv (ip_am ip) \<longrightarrow> listed_ok (ip_sl ip) \<longrightarrow> am_extends (ip_am ip) (ip_am ip') \<and> listed_ok (ip_sl ip'))"

lemma keeps_refl [simp, intro]: "keeps_process ip ip"
  by (simp add: keeps_process_def)

lemma keeps_trans: "keeps_process a b \<Longrightarrow> keeps_process b c \<Longrightarrow> keeps_process a c"
  using am_inv_extends am_extends_trans by (auto simp: keeps_process_def)

text \<open>Steps that leave both fields alone, before or after another step.\<close>

lemma keeps_same: "ip_am ip' = ip_am ip \<Longrightarrow> ip_sl ip' = ip_sl ip \<Longrightarrow> keeps_process ip ip'"
  by (simp add: keeps_process_def)

lemma keeps_after: "keeps_process a b \<Longrightarrow> ip_am c = ip_am b \<Longrightarrow> ip_sl c = ip_sl b \<Longrightarrow> keeps_process a c"
  by (simp add: keeps_process_def)

lemma keeps_before: "keeps_process b c \<Longrightarrow> ip_am b = ip_am a \<Longrightarrow> ip_sl b = ip_sl a \<Longrightarrow> keeps_process a c"
  by (simp add: keeps_process_def)

lemma keeps_am: "am_extends (ip_am ip) am \<Longrightarrow> keeps_process ip (set_am am ip)"
  by (simp add: keeps_process_def)

lemma keeps_sl: "(listed_ok (ip_sl ip) \<Longrightarrow> listed_ok sl) \<Longrightarrow> keeps_process ip (set_sl sl ip)"
  by (simp add: keeps_process_def)

lemma queue_event_keeps: "keeps_process ip (queue_event ie t ip)"
proof -
  obtain am evs where q: "QueueEventTrigger (ie_log ie) (ie_policy ie) t (ip_am ip) = (am, evs)" by fastforce
  then have "am_extends (ip_am ip) am" using QueueEventTrigger_extends [of "ip_am ip" "ie_log ie" "ie_policy ie" t] by simp
  then show ?thesis using q keeps_after [OF keeps_am] by (simp add: queue_event_def)
qed


section \<open>Operations on services\<close>

lemma listed_ok_cong:
  "sl_services sl' = sl_services sl \<Longrightarrow> order_inv (sl_static sl') (sl_services sl) \<Longrightarrow>
   exec_count (sl_static sl) \<le> exec_count (sl_static sl') \<Longrightarrow> listed_ok sl \<Longrightarrow> listed_ok sl'"
  using names_ok_frame [of sl sl'] by (simp add: listed_ok_def sl_inv_def)

lemma listed_ok_delay [simp]: "listed_ok (fold apply_delay effs sl) = listed_ok sl"
  by (simp add: listed_ok_def sl_inv_def names_ok_def)

context service_operation
begin

lemma on_service_listed:
  assumes "on_service i (op os) sl = (r, sl', effs)" "i < length (sl_services sl)" "listed_ok sl"
    and "pre (sl_services sl ! i)" "os_fork os \<noteq> 0"
  shows "listed_ok sl'"
proof -
  obtain r' s st e where op: "op os (sl_services sl ! i) (sl_static sl) = (r', s, st, e)" by (metis prod_cases4)
  have "sl_static sl' = st" using assms(1) op by (auto simp: on_service_def)
  then have "exec_count (sl_static sl) \<le> exec_count (sl_static sl')" using keeps_order [OF op] by (simp add: order_step_def)
  then show ?thesis
    using names_ok_frame [OF _ on_service_frame(2) [OF assms(1,2)]] on_service_inv [OF assms(1,2) _ assms(4,5)] assms(3)
    by (simp add: listed_ok_def)
qed

lemma on_listed_keeps:
  assumes "env_ok ie" "i < length (sl_services (ip_sl ip))" "pre (sl_services (ip_sl ip) ! i)"
  shows "keeps_process ip (snd (on_listed ie i op ip))"
proof -
  obtain r sl effs where o: "on_service i (op (os_of ie ip)) (ip_sl ip) = (r, sl, effs)" by (metis prod_cases3)
  have "os_fork (os_of ie ip) \<noteq> 0" using assms(1) by (simp add: env_ok_def os_of_def)
  then have "keeps_process ip (set_sl sl ip)"
    using on_service_listed [OF o assms(2) _ assms(3)] by (intro keeps_sl) simp
  then show ?thesis using o by (auto simp: on_listed_def intro: keeps_after)
qed

lemma on_listed_length:
  assumes "i < length (sl_services (ip_sl ip))"
  shows "length (sl_services (ip_sl (snd (on_listed ie i op ip)))) = length (sl_services (ip_sl ip))"
proof -
  obtain r sl effs where o: "on_service i (op (os_of ie ip)) (ip_sl ip) = (r, sl, effs)" by (metis prod_cases3)
  then show ?thesis using on_service_frame(1) [OF o assms] by (simp add: on_listed_def)
qed

lemma each_index_keeps:
  assumes "env_ok ie" "\<And>s. pre s"
  shows "list_all (\<lambda>i. i < length (sl_services (ip_sl ip))) is \<Longrightarrow> keeps_process ip (each_index ie P op is ip)"
proof (induction "is" arbitrary: ip)
  case (Cons i ns)
  define ip1 where "ip1 = (if P (sl_services (ip_sl ip) ! i) then snd (on_listed ie i op ip) else ip)"
  have "keeps_process ip ip1" "length (sl_services (ip_sl ip1)) = length (sl_services (ip_sl ip))"
    using on_listed_keeps [OF assms(1), of i ip] on_listed_length [of i ip ie] assms(2) Cons.prems by (simp_all add: ip1_def)
  then show ?case using Cons.IH [of ip1] Cons.prems keeps_trans by (simp add: ip1_def [symmetric])
qed simp

lemma each_service_keeps: "env_ok ie \<Longrightarrow> (\<And>s. pre s) \<Longrightarrow> keeps_process ip (each_service ie P op ip)"
  using each_index_keeps by (simp add: each_service_def list_all_iff)

lemma always_ok_operation:
  "(\<And>os s st. snd (op' os s st) = snd (op os s st)) \<Longrightarrow> service_operation op' pre"
  by unfold_locales (metis keeps_name keeps_order keeps_inv prod.collapse snd_conv)+

end

section \<open>Temporary services\<close>

lemma MakeTemporary_static:
  assumes "MakeTemporaryOneshotService lb pw args st = (r, st')"
  shows "next_start_order st' = next_start_order st" "exec_count st \<le> exec_count st'"
  using assms by (auto simp: MakeTemporaryOneshotService_def Let_def split: if_splits)

lemma new_temporary:
  fixes name uid gid sg ns label sc args apex
  defines "s \<equiv> new_service name (SVC_ONESHOT OR SVC_TEMPORARY) uid gid sg ns label sc args apex"
  shows "svc_inv s" "start_order s = 0" "svc_name s = name"
  using new_service_inv [of "SVC_ONESHOT OR SVC_TEMPORARY"] by (simp_all add: s_def new_service_def)

lemma MakeTemporary_spec:
  assumes "MakeTemporaryOneshotService lb pw args st = (Inr s, st')"
  shows "svc_inv s" "start_order s = 0" "exec_count st < exec_count st'" "\<exists>c. svc_name s = exec_name (exec_count st') c"
proof -
  obtain c uid gid sg label sa where m: "exec_count st' = exec_count st + 1"
    "s = new_service (exec_name (exec_count st') c) (SVC_ONESHOT OR SVC_TEMPORARY) uid gid sg [] label None sa False"
    using assms unfolding MakeTemporaryOneshotService_def Let_def exec_name_def
    by (auto simp only: rbind_def prod.inject sum.inject split: if_splits sum.splits) (simp_all, blast+)
  then show "svc_inv s" "start_order s = 0" "exec_count st < exec_count st'" "\<exists>c. svc_name s = exec_name (exec_count st') c"
    using new_temporary by simp_all blast+
qed

lemma listed_ok_static:
  "listed_ok sl \<Longrightarrow> next_start_order (sl_static sl) \<le> next_start_order st \<Longrightarrow> exec_count (sl_static sl) \<le> exec_count st \<Longrightarrow>
   listed_ok (sl\<lparr>sl_static := st\<rparr>)"
  by (rule listed_ok_cong [of _ sl]) (auto simp: listed_ok_def sl_inv_def intro: order_inv_mono)

text \<open>The number in the name is new.\<close>

lemma exec_name_new:
  assumes "names_ok sl" "exec_count (sl_static sl) < k"
  shows "exec_name k c \<notin> svc_name ` set (sl_services sl)"
  using assms known_exec_name [of "exec_count (sl_static sl)" k c] by (force simp: names_ok_def list_all_iff)

lemma add_temporary:
  assumes "listed_ok sl" "next_start_order st = next_start_order (sl_static sl)" "exec_count (sl_static sl) < exec_count st"
    and s: "svc_inv s" "start_order s = 0" "svc_name s = exec_name (exec_count st) c"
    and s': "order_step s st s' st'" "svc_inv s'" "svc_name s' = svc_name s"
  shows "listed_ok (sl\<lparr>sl_static := st'\<rparr>)" "listed_ok (AddService s' (sl\<lparr>sl_static := st'\<rparr>))"
proof -
  have o: "order_inv st (sl_services sl)" using assms(1,2) by (auto simp: listed_ok_def sl_inv_def intro: order_inv_mono)
  have "order_inv st (sl_services sl @ [s])" using o s(2) by (simp add: order_inv_def)
  then have o': "order_inv st' (sl_services sl @ [s'])"
    using order_inv_step [of st "sl_services sl @ [s]" "length (sl_services sl)" s' st'] s'(1) by simp
  have c: "exec_count st' = exec_count st" using s'(1) by (simp add: order_step_def)
  have "order_inv st' (sl_services sl)" using o' order_inv_parts [of st' "sl_services sl" s' "[]"] by simp
  then show 1: "listed_ok (sl\<lparr>sl_static := st'\<rparr>)" using assms(1,3) c listed_ok_cong [of "sl\<lparr>sl_static := st'\<rparr>" sl] by simp
  have n: "svc_name s' \<notin> svc_name ` set (sl_services sl)"
    using exec_name_new [OF _ assms(3), of c] assms(1) s(3) s'(3) by (simp add: listed_ok_def)
  show "listed_ok (AddService s' (sl\<lparr>sl_static := st'\<rparr>))"
  proof -
    have "names_ok (AddService s' (sl\<lparr>sl_static := st'\<rparr>))"
      using 1 s'(3) s(3) c by (simp add: listed_ok_def names_ok_def AddService_def known_exec_name)
    then show ?thesis using 1 o' n s'(2) by (simp add: listed_ok_def sl_inv_def AddService_def)
  qed
qed

lemma set_static_sl:
  "ip_sl (delay_all effs (set_static st ip)) = fold apply_delay effs ((ip_sl ip)\<lparr>sl_static := st\<rparr>)"
  "ip_am (delay_all effs (set_static st ip)) = ip_am ip"
  by (simp_all add: delay_all_def set_static_def)

lemma AddService_delay: "listed_ok (AddService s (fold apply_delay effs sl)) = listed_ok (AddService s sl)"
  by (simp add: AddService_def listed_ok_def sl_inv_def names_ok_def)

lemma set_static_keeps:
  "MakeTemporaryOneshotService lb pw args (sl_static (ip_sl ip)) = (r, st) \<Longrightarrow> keeps_process ip (set_static st ip)"
  using MakeTemporary_static [of lb pw args "sl_static (ip_sl ip)" r st] listed_ok_static [of "ip_sl ip" st]
  by (auto simp: set_static_def intro!: keeps_sl)

lemma started_temporary:
  assumes op: "service_operation op (\<lambda>_. True)" and ie: "env_ok ie"
    and m: "MakeTemporaryOneshotService lb pw args (sl_static (ip_sl ip)) = (Inr s0, st0)"
    and s: "svc_inv s" "start_order s = 0" "svc_name s = svc_name s0"
    and o: "op (os_of ie ip) s st0 = (r, s', st, effs)"
  defines "ip' \<equiv> absorb effs (delay_all effs (set_static st ip))"
  shows "keeps_process ip ip'" "keeps_process ip (set_sl (AddService s' (ip_sl ip')) ip')"
proof -
  note t = MakeTemporary_spec [OF m] and st = MakeTemporary_static [OF m]
  obtain c where c: "svc_name s = exec_name (exec_count st0) c" using t(4) s(3) by auto
  have f: "os_fork (os_of ie ip) \<noteq> 0" using ie by (simp add: env_ok_def os_of_def)
  note a = add_temporary [OF _ st(1) t(3) s(1,2) c service_operation.keeps_order [OF op o] service_operation.keeps_inv [OF op o s(1) TrueI f]
      service_operation.keeps_name [OF op o]]
  show "keeps_process ip ip'" using a(1) by (simp add: keeps_process_def ip'_def set_static_sl)
  show "keeps_process ip (set_sl (AddService s' (ip_sl ip')) ip')"
    using a(2) by (simp add: keeps_process_def ip'_def set_static_sl AddService_delay)
qed

lemma run_temporary_keeps:
  assumes op: "service_operation start (\<lambda>_. True)" and ie: "env_ok ie"
    and p: "\<And>s. svc_inv s \<Longrightarrow> start_order s = 0 \<Longrightarrow> svc_inv (prepare s) \<and> start_order (prepare s) = 0 \<and> svc_name (prepare s) = svc_name s"
  shows "keeps_process ip (snd (run_temporary start prepare m1 m2 ie args ip))"
proof -
  obtain r st where m: "MakeTemporaryOneshotService (ie_lb ie) (ie_getpwnam ie) args (sl_static (ip_sl ip)) = (r, st)" by fastforce
  show ?thesis
  proof (cases r)
    case (Inl e)
    then show ?thesis using m set_static_keeps [OF m] by (simp add: run_temporary_def)
  next
    case (Inr s)
    obtain r' s' st' effs where o: "start (os_of ie ip) (prepare s) st = (r', s', st', effs)" by (metis prod_cases4)
    note m' = m [unfolded Inr]
    note k = started_temporary [OF op ie m' _ _ _ o] 
    show ?thesis
      using k p [OF MakeTemporary_spec(1,2) [OF m']] m' o by (cases r') (simp_all add: run_temporary_def Let_def)
  qed
qed

lemma AddReapCallback_frame:
  "svc_inv s \<Longrightarrow> start_order s = 0 \<Longrightarrow>
   svc_inv (AddReapCallback c s) \<and> start_order (AddReapCallback c s) = 0 \<and> svc_name (AddReapCallback c s) = svc_name s"
  by (simp add: AddReapCallback_def svc_inv_def has_def)

lemma vdc_failed_fields [simp]: "ip_am (vdc_failed b r ie ip) = ip_am ip" "ip_sl (vdc_failed b r ie ip) = ip_sl ip"
  by (auto simp: vdc_failed_def reboot_into_recovery_def sys_def split: sum.split option.split if_splits)

lemma ExecWithFunctionOnFailure_keeps:
  assumes ie: "env_ok ie" and f: "\<And>ip. ip_am (func ie ip) = ip_am ip \<and> ip_sl (func ie ip) = ip_sl ip"
  shows "keeps_process ip (snd (ExecWithFunctionOnFailure args callback func ie ip))"
proof -
  obtain r st where m: "MakeTemporaryOneshotService (ie_lb ie) (ie_getpwnam ie) args (sl_static (ip_sl ip)) = (r, st)" by fastforce
  show ?thesis
  proof (cases r)
    case (Inl e)
    then show ?thesis
      using m f keeps_after [OF set_static_keeps [OF m]] by (simp add: ExecWithFunctionOnFailure_def)
  next
    case (Inr s)
    obtain r' s' st' effs where o: "ExecStart (ie_lb ie) (os_of ie ip) (AddReapCallback callback s) st = (r', s', st', effs)"
      by (metis prod_cases4)
    note m' = m [unfolded Inr]
    have s: "svc_inv (AddReapCallback callback s)" "start_order (AddReapCallback callback s) = 0"
      "svc_name (AddReapCallback callback s) = svc_name s"
      using AddReapCallback_frame [OF MakeTemporary_spec(1,2) [OF m'], of callback] by simp_all
    note k = started_temporary(2) [OF exec_start_op.service_operation_axioms ie m' s o]
    show ?thesis
      using m' o f by (cases r') (auto simp: ExecWithFunctionOnFailure_def Let_def intro!: keeps_after [OF k])
  qed
qed

section \<open>Scripts read later\<close>

definition parsing :: "init_env \<Rightarrow> init_process \<Rightarrow> init_process \<Rightarrow> bool" where
  "parsing ie ip0 ip = good (ip_sl ip0) (ip_am ip0) (ie_lb ie) (ie_rc ie) (ie_cfg ie) (ip_rc ip)"

lemma fresh_parser_parsing:
  assumes "am_inv (ip_am ip)" "listed_ok (ip_sl ip)"
  shows "parsing ie ip (fresh_parser ip)"
  using assms
  by (simp add: parsing_def good_def world_ok_def list_ok_def building_ok_def listed_ok_def fresh_parser_def ip_am_def ip_sl_def
      new_service_parser_def list_all_iff)

lemma parsing_fields [simp]:
  "parsing ie ip0 (ip\<lparr>late_import_paths := l\<rparr>) = parsing ie ip0 ip" "parsing ie ip0 (ip\<lparr>ip_diverged := b\<rparr>) = parsing ie ip0 ip"
  by (simp_all add: parsing_def)

lemma parsing_keeps:
  assumes "env_ok ie" "\<lbrakk>am_inv (ip_am ip0); listed_ok (ip_sl ip0)\<rbrakk> \<Longrightarrow> parsing ie ip0 ip"
  shows "keeps_process ip0 ip"
  unfolding keeps_process_def
proof (intro impI)
  assume a: "am_inv (ip_am ip0)" "listed_ok (ip_sl ip0)"
  then have w: "world_ok (ip_sl ip0) (ip_am ip0) (ie_lb ie) (ie_rc ie) (ie_cfg ie) (ip_rc ip)"
    using assms by (simp add: parsing_def good_def env_ok_def)
  have "known_name (exec_count (sl_static (ip_sl ip))) (svc_name s)" if "s \<in> set (sl_services (ip_sl ip))" for s
  proof -
    have "svc_name s \<in> svc_name ` set (sl_services (ip_sl ip0)) \<or> IsValidName (svc_name s)"
      "sl_static (ip_sl ip) = sl_static (ip_sl ip0)"
      using w that by (auto simp: world_ok_def list_ok_def list_all_iff ip_sl_def)
    then show ?thesis using a legal_no_space by (auto simp: listed_ok_def names_ok_def list_all_iff known_name_def)
  qed
  then show "am_extends (ip_am ip0) (ip_am ip) \<and> listed_ok (ip_sl ip)"
    using w by (simp add: world_ok_def list_ok_def listed_ok_def names_ok_def list_all_iff ip_sl_def ip_am_def)
qed

lemma parse_late_parsing: "parsing ie ip0 ip \<Longrightarrow> parsing ie ip0 (parse_late ie path ip)"
  using boot_parse_good by (fastforce simp: parsing_def parse_late_def split: option.split)

lemma fold_parse_late: "parsing ie ip0 ip \<Longrightarrow> parsing ie ip0 (fold (parse_late ie) paths ip)"
  by (induction paths arbitrary: ip) (simp_all add: parse_late_parsing)

lemma import_late_keeps:
  assumes "env_ok ie"
  shows "keeps_process ip (import_late ie paths ip)"
proof (rule parsing_keeps [OF assms])
  assume "am_inv (ip_am ip)" "listed_ok (ip_sl ip)"
  then have "parsing ie ip (fold (parse_late ie) ps (fresh_parser ip))" for ps
    using fold_parse_late fresh_parser_parsing by blast
  then show "parsing ie ip (import_late ie paths ip)"
    by (simp add: import_late_def Let_def)
qed

lemma service_only_contract:
  "section_contract (CreateServiceOnlyParser lb env cfg apex) (good base am0 lb env cfg) (\<lambda>_. good base am0 lb env cfg)"
proof -
  have sp: "section_parsers (CreateServiceOnlyParser lb env cfg apex) = [(''service'', ServiceParser (boot_services lb env cfg apex))]"
    "line_callbacks (CreateServiceOnlyParser lb env cfg apex) = []"
    by (simp_all add: CreateServiceOnlyParser_def AddSectionParser_def empty_parser_def)
  show ?thesis
    by unfold_locales
       (use service_sections in \<open>auto simp: sp good_def ServiceParser_def dest: sym [THEN arg_cong [of _ _ snd]]\<close>)
qed

lemma parse_apex_files_parsing:
  "parsing ie ip0 ip \<Longrightarrow> parsing ie ip0 (snd (parse_apex_files ie cs success ip))"
proof (induction cs arbitrary: success ip)
  case (Cons c cs)
  let ?p = "CreateServiceOnlyParser (ie_lb ie) (ie_rc ie) (ie_cfg ie) True"
  show ?case
  proof (cases "last c = CHR ''/'' \<or> ParseConfigFile (ie_lb ie) (ie_rc ie) ?p c (ip_rc ip) = None")
    case True
    then show ?thesis using Cons by auto
  next
    case False
    then obtain b rs where p: "ParseConfigFile (ie_lb ie) (ie_rc ie) ?p c (ip_rc ip) = Some (b, rs)" by auto
    then have "parsing ie ip0 (ip\<lparr>ip_rc := rs\<rparr>)"
      using Cons.prems parse_file_good [OF service_only_contract p] by (simp add: parsing_def)
    then show ?thesis using Cons.IH False p by simp
  qed
qed simp

lemma start_delayed_listed:
  assumes "start_delayed lb oss k names sl = (sl', effs)" "listed_ok sl" "\<And>k. os_fork (oss k) \<noteq> 0"
  shows "listed_ok sl'"
  using assms(1,2)
proof (induction names arbitrary: k sl effs)
  case (Cons name names)
  show ?case
  proof (cases "FindService name svc_name sl")
    case None
    then show ?thesis using Cons by simp
  next
    case (Some i)
    obtain r t e where o: "on_service i (Start lb (oss k)) sl = (r, t, e)"
      by (cases "on_service i (Start lb (oss k)) sl")
    have "listed_ok t"
      using start_op.on_service_listed [OF o _ Cons.prems(2) _ assms(3)] Some
      by (simp add: FindService_def find_index_Some)
    moreover obtain e' where "start_delayed lb oss (Suc k) names t = (sl', e')"
      using Cons.prems(1) Some o by (auto split: prod.splits)
    ultimately show ?thesis using Cons.IH by blast
  qed
qed simp

lemma mark_services_update_keeps:
  assumes "env_ok ie"
  shows "keeps_process ip (mark_services_update ie ip)"
proof -
  let ?oss = "\<lambda>k. ie_os ie (length (ip_trace ip) + k)"
  let ?sl = "(ip_sl ip)\<lparr>sl_static := (sl_static (ip_sl ip))\<lparr>services_updated := True\<rparr>\<rparr>"
  obtain sl effs where d: "start_delayed (ie_lb ie) ?oss 0 (delayed_service_names ?sl) ?sl = (sl, effs)" by fastforce
  have "listed_ok (ip_sl ip) \<Longrightarrow> listed_ok ?sl" by (rule listed_ok_static) simp_all
  then have "listed_ok (ip_sl ip) \<Longrightarrow> listed_ok sl" using start_delayed_listed [OF d] assms by (simp add: env_ok_def)
  then have "keeps_process ip (set_sl (sl\<lparr>delayed_service_names := []\<rparr>) ip)"
    by (intro keeps_sl) (simp add: listed_ok_def sl_inv_def names_ok_def)
  then show ?thesis using d by (auto simp: mark_services_update_def MarkServicesUpdate_def Let_def intro: keeps_after)
qed

lemma parse_apex_configs_keeps:
  assumes "env_ok ie"
  shows "keeps_process ip (snd (parse_apex_configs ie ip))"
proof -
  have "keeps_process ip (snd (parse_apex_files ie cs b (fresh_parser ip)))" for cs b
    by (rule parsing_keeps [OF assms]) (simp add: parse_apex_files_parsing fresh_parser_parsing)
  from keeps_trans [OF this mark_services_update_keeps [OF assms]]
  show ?thesis by (auto simp: parse_apex_configs_def Let_def split: option.split prod.split) (metis snd_conv)+
qed

section \<open>Every command\<close>

definition untouched :: "builtin \<Rightarrow> bool" where
  "untouched f = (\<forall>ie args ip. ip_am (snd (f ie args ip)) = ip_am ip \<and> ip_sl (snd (f ie args ip)) = ip_sl ip)"

definition harmless :: "builtin \<Rightarrow> bool" where
  "harmless f = (\<forall>ie args ip. env_ok ie \<longrightarrow> keeps_process ip (snd (f ie args ip)))"

lemma harmlessI: "(\<And>ie args ip. env_ok ie \<Longrightarrow> keeps_process ip (snd (f ie args ip))) \<Longrightarrow> harmless f"
  by (simp add: harmless_def)

lemma untouched_harmless: "untouched f \<Longrightarrow> harmless f"
  by (simp add: untouched_def harmless_def keeps_same)

lemma harmless_and_then [intro]: "harmless f \<Longrightarrow> harmless g \<Longrightarrow> harmless (and_then f g)"
proof (rule harmlessI)
  fix ie args ip
  assume h: "harmless f" "harmless g" and ie: "env_ok ie"
  obtain r ip1 where f: "f ie args ip = (r, ip1)" by fastforce
  have "keeps_process ip ip1" using h(1) ie f unfolding harmless_def by (metis snd_conv)
  then show "keeps_process ip (snd (and_then f g ie args ip))"
    using h(2) ie f keeps_trans [of ip ip1] by (cases r) (auto simp: and_then_def harmless_def)
qed

lemma untouched_and_then [intro]: "untouched f \<Longrightarrow> untouched g \<Longrightarrow> untouched (and_then f g)"
  by (auto simp: untouched_def and_then_def split: sum.split prod.split) (metis snd_conv)+

lemma untouched_checks [intro, simp]:
  "untouched (InnitCheckCommand verb)" "untouched InnitCheckExecPath" "untouched (checked c e)" "untouched (checked_quiet c m)"
  "untouched (reboot_into_recovery os)" "untouched (\<lambda>ie args ip. (r ie args ip, ip))" "untouched (read_fstab p m)"
  by (auto simp: untouched_def InnitCheckCommand_def InnitCheckExecPath_def checked_def checked_quiet_def reboot_into_recovery_def
      read_fstab_def sys_def Let_def split: option.split prod.split)

lemma untouchedD: "untouched f \<Longrightarrow> ip_am (snd (f ie args ip)) = ip_am ip" "untouched f \<Longrightarrow> ip_sl (snd (f ie args ip)) = ip_sl ip"
  by (simp_all add: untouched_def)

lemma untouched_app:
  "untouched f \<Longrightarrow> f ie args ip = (r, ip') \<Longrightarrow> ip_am ip' = ip_am ip \<and> ip_sl ip' = ip_sl ip"
  using untouchedD by (metis snd_conv)

lemmas checks_fields [simp] = untouched_checks [THEN untouchedD(1)] untouched_checks [THEN untouchedD(2)]

text \<open>Commands that make calls only.\<close>

lemma untouched_simple:
  "untouched do_bootchart" "untouched do_chmod" "untouched do_domainname" "untouched do_export" "untouched do_hostname"
  "untouched do_ifup" "untouched do_insmod" "untouched do_umount" "untouched do_setprop" "untouched do_setrlimit"
  "untouched do_symlink" "untouched do_rm" "untouched do_rmdir" "untouched do_sysclktz" "untouched do_readahead" "untouched do_copy"
  "untouched do_load_system_props" "untouched do_wait" "untouched do_loglevel" "untouched do_chown" "untouched do_write"
  "untouched do_swapon_all" "untouched do_umount_all"
proof -
  show "untouched do_ifup" unfolding do_ifup_def Let_def untouched_def and_then_def checked_def sys_def
    by (auto split: sum.split prod.split option.split)
qed (auto simp: untouched_def do_bootchart_def do_chmod_def do_domainname_def do_export_def do_hostname_def do_insmod_def
      do_umount_def do_setprop_def do_setrlimit_def do_symlink_def do_rm_def do_rmdir_def do_sysclktz_def do_readahead_def
      do_copy_def do_load_system_props_def do_wait_def do_loglevel_def do_chown_def do_write_def do_swapon_all_def
      do_umount_all_def Let_def and_then_def sys_def dest!: untouched_app [rotated]
      split: option.splits sum.splits prod.splits list.splits)

text \<open>Commands with loops of calls.\<close>

lemma untouched_loops:
  "ip_am (snd (load_export_lines ls ie args ip)) = ip_am ip \<and> ip_sl (snd (load_export_lines ls ie args ip)) = ip_sl ip"
  "ip_am (verity_entries ie mode vs ip) = ip_am ip \<and> ip_sl (verity_entries ie mode vs ip) = ip_sl ip"
  "ip_am (snd (restorecon_paths ie flag ps ret ip)) = ip_am ip \<and> ip_sl (snd (restorecon_paths ie flag ps ret ip)) = ip_sl ip"
  "ip_am (snd (loop_mount n lp mnt ie args ip)) = ip_am ip \<and> ip_sl (snd (loop_mount n lp mnt ie args ip)) = ip_sl ip"
  "ip_am (fold (\<lambda>line. sys_do ie (w line)) lines ip) = ip_am ip \<and> ip_sl (fold (\<lambda>line. sys_do ie (w line)) lines ip) = ip_sl ip"
proof -
  show "ip_am (snd (load_export_lines ls ie args ip)) = ip_am ip \<and> ip_sl (snd (load_export_lines ls ie args ip)) = ip_sl ip"
    by (induction ls arbitrary: ip) (auto simp: sys_def split: list.split option.split)
  show "ip_am (verity_entries ie mode vs ip) = ip_am ip \<and> ip_sl (verity_entries ie mode vs ip) = ip_sl ip"
    by (induction vs arbitrary: ip) (auto simp: Let_def)
  show "ip_am (snd (restorecon_paths ie flag ps ret ip)) = ip_am ip \<and> ip_sl (snd (restorecon_paths ie flag ps ret ip)) = ip_sl ip"
    by (induction ps arbitrary: ip ret) (auto simp: sys_def split: option.split)
  show "ip_am (snd (loop_mount n lp mnt ie args ip)) = ip_am ip \<and> ip_sl (snd (loop_mount n lp mnt ie args ip)) = ip_sl ip"
    by (induction lp arbitrary: ip n) (auto simp: sys_def sys_do_def split: option.split loop_answer.split)
  show "ip_am (fold (\<lambda>line. sys_do ie (w line)) lines ip) = ip_am ip \<and> ip_sl (fold (\<lambda>line. sys_do ie (w line)) lines ip) = ip_sl ip"
    by (induction lines arbitrary: ip) auto
qed

lemma untouched_loop_commands:
  "untouched do_load_exports" "untouched do_verity_update_state" "untouched do_copy_per_line" "untouched do_load_persist_props"
  "untouched do_wait_for_prop"
  by (auto simp: untouched_def do_load_exports_def do_verity_update_state_def do_copy_per_line_def do_load_persist_props_def
      do_wait_for_prop_def untouched_loops Let_def split: sum.split option.split prod.split bool.split)
     (metis StartWaiting_fields snd_conv)+

lemma untouched_restorecon: "untouched do_restorecon" "untouched do_restorecon_recursive"
proof -
  show "untouched do_restorecon"
    unfolding untouched_def
  proof (intro allI)
    fix ie args ip
    show "ip_am (snd (do_restorecon ie args ip)) = ip_am ip \<and> ip_sl (snd (do_restorecon ie args ip)) = ip_sl ip"
    proof (cases "ParseRestorecon (ie_lb ie) (ie_restorecon ie) (ba_args args)")
      case (Inr fp)
      obtain flag paths where fp: "fp = (flag, paths)" by fastforce
      obtain r ip1 where r: "restorecon_paths ie flag paths None ip = (r, ip1)" by fastforce
      then show ?thesis
        using untouched_loops(3) [of ie flag paths None ip] Inr fp by (cases r) (simp_all add: do_restorecon_def)
    qed (simp add: do_restorecon_def)
  qed
  then show "untouched do_restorecon_recursive" by (simp add: untouched_def do_restorecon_recursive_def)
qed

lemma untouched_mount: "untouched do_mount"
  by (auto simp: untouched_def do_mount_def and_then_def Let_def untouched_loops dest!: untouched_app [rotated]
      split: prod.split sum.split)

lemma dir_attributes_fields: "untouched (dir_attributes options ref mstat)"
proof -
  let ?policy = "\<lambda>ie args ip. if ms_fscrypt_native (ie_mounts ie) then
      (case sys ie (SetDirectoryPolicy ref (mk_fscrypt_action options) (mk_target options)) ip of
         (None, ip) \<Rightarrow> (Ok (), ip)
       | (Some _, ip) \<Rightarrow>
           reboot_into_recovery [''--prompt_and_wipe_data'', ''--reason=set_policy_failed:'' @ mk_target options] ie args ip)
    else (Ok (), ip)"
  have policy: "untouched ?policy" by (auto simp: untouched_def sys_def split: option.split)
  have step: "untouched (if w then checked c e else (\<lambda>ie args ip. (Ok (), ip)))" for w c e
    by (cases w) (simp_all add: untouched_def)
  have "untouched (and_then (if w then checked c e else (\<lambda>ie args ip. (Ok (), ip)))
      (and_then (if n then checked d g else (\<lambda>ie args ip. (Ok (), ip))) ?policy))" for w n c d e g
    by (intro untouched_and_then step policy)
  from this [THEN untouchedD(1)] this [THEN untouchedD(2)]
  show ?thesis unfolding untouched_def dir_attributes_def Let_def by auto
qed

lemma make_dir_fields: "untouched (make_dir_with_options options)"
  using dir_attributes_fields
  by (auto simp: untouched_def make_dir_with_options_def sys_def split: option.split sum.split)

lemma untouched_mkdir: "untouched do_mkdir"
  using make_dir_fields by (auto simp: untouched_def do_mkdir_def split: sum.split)

lemma untouched_linker:
  "untouched GenerateLinkerConfiguration" "untouched MountLinkerConfigForDefaultNamespace" "untouched do_update_linker_config"
  "untouched do_enter_default_mount_ns"
proof -
  show g: "untouched GenerateLinkerConfiguration"
    unfolding GenerateLinkerConfiguration_def
    by (rule untouched_and_then) (auto simp: untouched_def split: sum.split)
  show m: "untouched MountLinkerConfigForDefaultNamespace"
    by (auto simp: untouched_def MountLinkerConfigForDefaultNamespace_def sys_def split: option.split)
  show "untouched do_update_linker_config" using g by (simp add: untouched_def do_update_linker_config_def)
  show "untouched do_enter_default_mount_ns" unfolding do_enter_default_mount_ns_def using m by auto
qed

lemma untouched_apex_dirs: "untouched create_apex_data_dirs"
proof -
  have "ip_am (fold (\<lambda>(name, is_dir) ip. if \<not> is_dir \<or> take 1 name = ''.'' \<or> CHR ''@'' \<in> set name then ip
            else snd (make_dir_with_options (apex_data_dir name) ie args ip)) es ip) = ip_am ip \<and>
        ip_sl (fold (\<lambda>(name, is_dir) ip. if \<not> is_dir \<or> take 1 name = ''.'' \<or> CHR ''@'' \<in> set name then ip
            else snd (make_dir_with_options (apex_data_dir name) ie args ip)) es ip) = ip_sl ip" for ie args es ip
    by (induction es arbitrary: ip) (auto simp: make_dir_fields [THEN untouchedD(1)] make_dir_fields [THEN untouchedD(2)])
  then show ?thesis unfolding untouched_def create_apex_data_dirs_def by (auto split: option.split)
qed

lemmas untouched_commands =
  untouched_simple untouched_loop_commands untouched_restorecon untouched_mount untouched_mkdir untouched_linker

text \<open>Commands on services.\<close>

lemma class_commands:
  "harmless do_class_start" "harmless do_class_start_post_data" "harmless do_class_stop" "harmless do_class_reset"
  "harmless do_class_reset_post_data" "harmless do_class_restart"
proof -
  note e = start_if_not_disabled_op.each_service_keeps start_if_post_data_op.each_service_keeps stop_op.each_service_keeps
    reset_op.each_service_keeps reset_if_post_data_op.each_service_keeps restart_op.each_service_keeps
  note g = untouched_harmless [OF untouched_checks(1)]
  show "harmless do_class_start" "harmless do_class_stop" "harmless do_class_reset" "harmless do_class_restart"
    unfolding do_class_start_def do_class_stop_def do_class_reset_def do_class_restart_def
    by (rule harmless_and_then [OF g], rule harmlessI, simp add: e)+
  show "harmless do_class_start_post_data" "harmless do_class_reset_post_data"
    by (auto intro!: harmlessI simp: do_class_start_post_data_def do_class_reset_post_data_def e)
qed

text \<open>The operation as the command calls it has the contract of the operation itself.\<close>

interpretation always_restart_op: service_operation "always_ok (\<lambda>os. static_op (Restart lb os))" "\<lambda>_. True" for lb
  by (rule restart_op.always_ok_operation [where lb = lb]) (simp add: always_ok_def split: prod.split)

interpretation always_stop_op: service_operation "always_ok (\<lambda>os. simple_op (Stop os))" "\<lambda>_. True"
  by (rule stop_op.always_ok_operation) (simp add: always_ok_def split: prod.split)

lemma on_found_keeps:
  assumes "service_operation op (\<lambda>_. True)" "env_ok ie" "\<And>i. found = Some i \<Longrightarrow> i < length (sl_services (ip_sl ip))"
  shows "keeps_process ip (snd (on_found found missing op err ie args ip))"
proof (cases found)
  case (Some i)
  obtain r ip1 where o: "on_listed ie i op ip = (r, ip1)" by fastforce
  have "keeps_process ip ip1"
    using service_operation.on_listed_keeps [OF assms(1,2), of i ip] assms(3) [OF Some] o by simp
  then show ?thesis using Some o by (cases r) (simp_all add: on_found_def)
qed (simp add: on_found_def)

lemma found_in_list:
  "named args ip = Some i \<Longrightarrow> i < length (sl_services (ip_sl ip))"
  "offering args ip = Some i \<Longrightarrow> i < length (sl_services (ip_sl ip))"
  by (auto simp: named_def offering_def FindService_def FindInterface_def dest: find_index_Some)

lemmas on_found_ops =
  on_found_keeps [OF start_op.service_operation_axioms] on_found_keeps [OF exec_start_op.service_operation_axioms]
  on_found_keeps [OF enable_op.service_operation_axioms] on_found_keeps [OF always_restart_op.service_operation_axioms]
  on_found_keeps [OF always_stop_op.service_operation_axioms]

lemma service_commands:
  "harmless do_enable" "harmless do_exec_start" "harmless do_interface_restart" "harmless do_interface_start"
  "harmless do_interface_stop" "harmless do_start" "harmless do_stop" "harmless do_restart"
proof -
  note g = untouched_harmless [OF untouched_checks(1)]
  show "harmless do_exec_start" "harmless do_start" "harmless do_stop" "harmless do_restart"
    unfolding do_exec_start_def do_start_def do_stop_def do_restart_def
    by (rule harmless_and_then [OF g], rule harmlessI, simp add: on_found_ops found_in_list)+
  show "harmless do_enable" "harmless do_interface_restart" "harmless do_interface_start" "harmless do_interface_stop"
    by (rule harmlessI, simp add: do_enable_def do_interface_restart_def do_interface_start_def do_interface_stop_def
        on_found_ops found_in_list)+
qed

lemma exec_commands: "harmless do_exec" "harmless do_exec_background" "harmless do_init_user0" "harmless do_installkey"
proof -
  have r: "env_ok ie \<Longrightarrow> keeps_process ip (snd (run_temporary (ExecStart (ie_lb ie)) (\<lambda>s. s) m n ie as ip))"
    "env_ok ie \<Longrightarrow> keeps_process ip (snd (run_temporary (Start (ie_lb ie)) (\<lambda>s. s) m n ie as ip))" for ie ip m n as
    by (rule run_temporary_keeps [OF exec_start_op.service_operation_axioms], simp_all)
       (rule run_temporary_keeps [OF start_op.service_operation_axioms], simp_all)
  show "harmless do_exec"
    unfolding do_exec_def using r(1)
    by (intro harmless_and_then untouched_harmless [OF untouched_checks(1)] untouched_harmless [OF untouched_checks(2)] harmlessI) simp
  show "harmless do_exec_background" using r(2) by (intro harmlessI) (simp add: do_exec_background_def)
  have v: "env_ok ie \<Longrightarrow> keeps_process ip (snd (ExecVdcRebootOnFailure a ie ip))" for ie ip a
    unfolding ExecVdcRebootOnFailure_def Let_def by (rule ExecWithFunctionOnFailure_keeps) simp_all
  then show "harmless do_init_user0" by (intro harmlessI) (simp add: do_init_user0_def)
  show "harmless do_installkey"
  proof (rule harmlessI)
    fix ie args ip
    assume "env_ok ie"
    then have "keeps_process ip (snd (ExecVdcRebootOnFailure ''enablefilecrypto'' ie (snd (sys ie c ip))))" for c
      using v keeps_trans [OF keeps_same] by (metis process_fields(7,8))
    then show "keeps_process ip (snd (do_installkey ie args ip))"
      by (auto simp: do_installkey_def Let_def sys_def intro: keeps_same)
  qed
qed

text \<open>Commands that queue events, read scripts or mark the boot.\<close>

lemma queue_fs_event_harmless: "harmless (queue_fs_event code remount)"
proof (rule harmlessI)
  fix ie args ip
  have q: "ip_am ip' = ip_am ip \<Longrightarrow> ip_sl ip' = ip_sl ip \<Longrightarrow> keeps_process ip (queue_event ie t ip')" for t ip'
    using keeps_before [OF queue_event_keeps] by blast
  have u: "ip_am (userdata_remount_panic b ip) = ip_am ip" "ip_sl (userdata_remount_panic b ip) = ip_sl ip" for b
    by (simp_all add: userdata_remount_panic_def)
  have e: "keeps_process ip (snd (queue_encrypted ie args ip))"
    using q by (auto simp: queue_encrypted_def sys_def intro: keeps_same split: option.split)
  show "keeps_process ip (snd (queue_fs_event code remount ie args ip))"
    unfolding queue_fs_event_def Let_def using e q u by (auto intro: keeps_same)
qed

lemma trigger_harmless: "harmless do_trigger"
  unfolding do_trigger_def
  by (intro harmless_and_then untouched_harmless [OF untouched_checks(1)] harmlessI) (simp add: queue_event_keeps)

lemma mark_post_data_harmless: "harmless do_mark_post_data"
  by (rule harmlessI) (auto simp: do_mark_post_data_def MarkPostData_def intro!: keeps_sl listed_ok_static)

lemma apex_config_harmless: "harmless do_perform_apex_config"
  unfolding do_perform_apex_config_def
  by (intro harmless_and_then untouched_harmless [OF untouched_apex_dirs] untouched_harmless [OF untouched_linker(3)] harmlessI)
     (simp add: parse_apex_configs_keeps)

lemma fs_event_keeps:
  "env_ok ie \<Longrightarrow> keeps_process ip ip1 \<Longrightarrow> keeps_process ip (snd (queue_fs_event code b ie args ip1))"
  using queue_fs_event_harmless [of code b] keeps_trans unfolding harmless_def by blast

lemma snd_reworded [simp]: "snd (case x of (Inl e, ip) \<Rightarrow> (f e, ip) | (Inr u, ip) \<Rightarrow> (g u, ip)) = snd x"
  by (cases x; cases "fst x") simp_all

lemma mount_all_harmless: "harmless do_mount_all"
proof (rule harmlessI)
  fix ie args ip
  assume ie: "env_ok ie"
  show "keeps_process ip (snd (do_mount_all ie args ip))"
  proof (cases "ParseMountAll (os_version (os_of ie ip)) (ba_args args)")
    case (Inr m)
    have k: "keeps_process ip (import_late ie ps (sys_do ie c ip))" for ps c
      using keeps_trans [OF keeps_same import_late_keeps [OF ie]] by simp
    have l: "keeps_process ip ((import_late ie ps (sys_do ie c ip))\<lparr>initial_mount_fstab_return_code := d\<rparr>)" for ps c d
      by (rule keeps_after [OF k]) simp_all
    have n: "keeps_process ip (sys_do ie c ip)" "keeps_process ip ((sys_do ie c ip)\<lparr>initial_mount_fstab_return_code := d\<rparr>)" for c d
      by (rule keeps_same, simp, simp)+
    show ?thesis
      using Inr by (cases "ms_mount_all (ie_mounts ie) (fstab_path m) (mnt_mode m)")
        (simp add: do_mount_all_def and_then_def read_fstab_def Let_def k l n fs_event_keeps [OF ie])
  qed (simp add: do_mount_all_def)
qed

lemma remount_harmless: "harmless do_remount_userdata"
proof (rule harmlessI)
  fix ie args ip
  assume "env_ok ie"
  then have "keeps_process ip (snd (queue_fs_event c True ie args ip'))"
    if "ip_am ip' = ip_am ip" "ip_sl ip' = ip_sl ip" for c ip'
    using fs_event_keeps keeps_same that by blast
  then show "keeps_process ip (snd (do_remount_userdata ie args ip))"
    by (simp add: do_remount_userdata_def sys_def Let_def)
qed

theorem builtin_functions_harmless: "(n, f) \<in> set builtin_functions \<Longrightarrow> harmless f"
  unfolding builtin_functions_def
  by (auto simp: class_commands service_commands exec_commands trigger_harmless mark_post_data_harmless apex_config_harmless
      mount_all_harmless remount_harmless untouched_commands [THEN untouched_harmless])

section \<open>Modes\<close>

definition octal :: "string \<Rightarrow> bool" where
  "octal s = list_all (\<lambda>c. 48 \<le> code_of c \<and> code_of c \<le> 55) s"

definition octal_value :: "string \<Rightarrow> nat" where
  "octal_value s = foldl (\<lambda>v c. 8 * v + (code_of c - 48)) 0 s"

lemma push_digit:
  fixes m :: "32 word"
  assumes "d < 8"
  shows "push_bit 3 m OR word_of_nat d = 8 * m + word_of_nat d"
proof -
  have d: "\<not> bit d n" if "3 \<le> n" for n
    using assms power_increasing [OF that, of "2 :: nat"] by (simp add: bit_iff_odd)
  have "push_bit 3 m AND word_of_nat d = (0 :: 32 word)"
    by (rule bit_word_eqI) (use d in \<open>auto simp: bit_simps\<close>)
  then show ?thesis using disjunctive_add_eq_or [of "push_bit 3 m" "word_of_nat d"] by (simp add: push_bit_eq_mult mult.commute)
qed

lemma get_mode_from_value:
  "octal s \<Longrightarrow> get_mode_from (word_of_nat v) s = word_of_nat (foldl (\<lambda>v c. 8 * v + (code_of c - 48)) v s)"
proof (induction s arbitrary: v)
  case (Cons c s)
  have c: "48 \<le> code_of c" "code_of c \<le> 55" "octal s" using Cons.prems by (simp_all add: octal_def)
  then have "push_bit 3 (word_of_nat v) OR word_of_nat (code_of c - 48) = (word_of_nat (8 * v + (code_of c - 48)) :: 32 word)"
    using push_digit [of "code_of c - 48" "word_of_nat v"] by simp
  then show ?case using Cons.IH [OF c(3), of "8 * v + (code_of c - 48)"] c by simp
qed simp

lemma get_mode_from_bad: "\<not> octal s \<Longrightarrow> get_mode_from m s = - 1"
  by (induction s arbitrary: m) (auto simp: octal_def)

section \<open>Gates\<close>

text \<open>The commands that ask the policy first, with the word they ask it about.\<close>

definition gated_commands :: "(string \<times> builtin) list" where
  "gated_commands =
     [(''class_start'', do_class_start), (''class_stop'', do_class_stop), (''class_reset'', do_class_reset),
      (''class_restart'', do_class_restart), (''exec'', do_exec), (''exec_start'', do_exec_start), (''start'', do_start),
      (''stop'', do_stop), (''restart'', do_restart), (''trigger'', do_trigger)]"

lemma gated_first: "(verb, f) \<in> set gated_commands \<Longrightarrow> \<exists>g. f = and_then (InnitCheckCommand verb) g"
  unfolding gated_commands_def do_class_start_def do_class_stop_def do_class_reset_def do_class_restart_def do_exec_def
    do_exec_start_def do_start_def do_stop_def do_restart_def do_trigger_def
  by auto

lemma and_then_stops: "f ie args ip = (Inl e, ip') \<Longrightarrow> and_then f g ie args ip = (Inl e, ip')"
  by (simp add: and_then_def)

lemma InnitCheckCommand_denied:
  assumes "ie_policy ie = Some pol" "pol_loaded pol" "IsCommandAllowed (ie_log ie) pol verb (drop 1 (ba_args args)) = (False, evs)"
  shows "\<exists>e. InnitCheckCommand verb ie args ip = (Err e, note_policy evs ip)"
  using assms by (simp add: InnitCheckCommand_def InnitPolicyIsActive_def GetInnitPolicy_def Let_def)

lemma InnitCheckExecPath_denied:
  assumes "ie_policy ie = Some pol" "pol_loaded pol" "InnitExtractExecPath args \<noteq> []"
    and "IsExecAllowed (ie_log ie) pol (InnitExtractExecPath args) = (False, evs)"
  shows "\<exists>e. InnitCheckExecPath ie args ip = (Err e, note_policy evs ip)"
  using assms by (simp add: InnitCheckExecPath_def InnitPolicyIsActive_def GetInnitPolicy_def Let_def)

lemma InnitCheckCommand_notes: "\<exists>r evs. InnitCheckCommand verb ie args ip = (r, note_policy evs ip)"
  by (auto simp: InnitCheckCommand_def note_policy_def Let_def split: option.split prod.split)

lemma find_stronger:
  "find P xs = Some i \<Longrightarrow> Q i \<Longrightarrow> (\<And>j. Q j \<Longrightarrow> P j) \<Longrightarrow> find Q xs = Some i"
  by (induction xs) (auto split: if_splits)

lemma exec_path_is_program:
  assumes "MakeTemporaryOneshotService lb pw (ba_args args) st = (Inr s, st')"
  shows "InnitExtractExecPath args = svc_args s ! 0"
proof -
  let ?as = "ba_args args"
  have c: "command_arg ?as < length ?as" "svc_args s = drop (command_arg ?as) ?as"
    using assms by (auto simp: MakeTemporaryOneshotService_def Let_def rbind_Inr_iff new_service_def split: if_splits)
  show ?thesis
  proof (cases "find (\<lambda>i. ?as ! i = ''--'') [1..<length ?as]")
    case None
    then have "find (\<lambda>i. i + 1 < length ?as \<and> ?as ! i = ''--'') [1..<length ?as] = None" by (auto simp: find_None_iff)
    then show ?thesis using None c by (simp add: InnitExtractExecPath_def command_arg_def)
  next
    case (Some i)
    have "?as ! i = ''--''" using Some by (auto simp: find_Some_iff)
    moreover have "i + 1 < length ?as" using c(1) Some by (simp add: command_arg_def)
    ultimately have "find (\<lambda>i. i + 1 < length ?as \<and> ?as ! i = ''--'') [1..<length ?as] = Some i"
      using find_stronger [OF Some, of "\<lambda>i. i + 1 < length ?as \<and> ?as ! i = ''--''"] by simp
    then show ?thesis using Some c by (simp add: InnitExtractExecPath_def command_arg_def)
  qed
qed

section \<open>Properties\<close>

text \<open>
  Whatever a script's command is, whatever its arguments are and whatever the kernel answers,
  a well formed process stays well formed: no action is lost or reordered and the executing one is
  not disturbed, service names stay unique, every service keeps its invariant and the start orders
  theirs.
\<close>

theorem builtins_keep_world:
  assumes "(n, f) \<in> set builtin_functions" "libbase_api (ie_lb ie)" "\<And>k. os_fork (ie_os ie k) \<noteq> 0"
    and "am_inv (ip_am ip)" "sl_inv (ip_sl ip)" "names_ok (ip_sl ip)" "f ie args ip = (r, ip')"
  shows "am_inv (ip_am ip') \<and> am_extends (ip_am ip) (ip_am ip') \<and> sl_inv (ip_sl ip') \<and> names_ok (ip_sl ip')"
proof -
  have "keeps_process ip ip'"
    using builtin_functions_harmless [OF assms(1)] assms(2,3,7) unfolding harmless_def env_ok_def by (metis snd_conv)
  then show ?thesis using assms(4-6) am_inv_extends by (auto simp: keeps_process_def listed_ok_def)
qed

text \<open>
  C5: a command the policy denies does nothing. Each of the gated commands fails, and but for
  the entry in the log of the policy the process is as before: no process is started or killed and
  no event is queued.
\<close>

theorem denied_command_does_nothing:
  assumes "(verb, f) \<in> set gated_commands" "ie_policy ie = Some pol" "pol_loaded pol"
    and "IsCommandAllowed (ie_log ie) pol verb (drop 1 (ba_args args)) = (False, evs)"
  shows "\<exists>e. f ie args ip = (Err e, note_policy evs ip)"
proof -
  obtain g where "f = and_then (InnitCheckCommand verb) g" using gated_first [OF assms(1)] by blast
  then show ?thesis using InnitCheckCommand_denied [OF assms(2-4)] and_then_stops by metis
qed

text \<open>
  C6: \<^verbatim>\<open>exec\<close> asks the policy about the program it would run, wherever the arguments put it: when
  the service made from the arguments runs a denied program, the command fails and, but for the log
  of the policy, the process is as before.
\<close>

theorem denied_exec_spawns_nothing:
  assumes "ie_policy ie = Some pol" "pol_loaded pol"
    and "MakeTemporaryOneshotService (ie_lb ie) (ie_getpwnam ie) (ba_args args) st = (Inr s, st')"
    and "svc_args s ! 0 \<noteq> []" "\<not> fst (IsExecAllowed (ie_log ie) pol (svc_args s ! 0))"
  shows "\<exists>e evs. do_exec ie args ip = (Err e, fold note_policy evs ip)"
proof -
  note x = exec_path_is_program [OF assms(3)]
  obtain r evs1 where c: "InnitCheckCommand ''exec'' ie args ip = (r, note_policy evs1 ip)"
    using InnitCheckCommand_notes by blast
  obtain evs2 where "IsExecAllowed (ie_log ie) pol (InnitExtractExecPath args) = (False, evs2)"
    using assms(5) x by (cases "IsExecAllowed (ie_log ie) pol (InnitExtractExecPath args)") simp
  then obtain e where p: "InnitCheckExecPath ie args (note_policy evs1 ip) = (Err e, note_policy evs2 (note_policy evs1 ip))"
    using InnitCheckExecPath_denied [OF assms(1,2)] assms(4) x by metis
  show ?thesis
  proof (cases r)
    case (Inl e)
    then show ?thesis using c by (intro exI [of _ e] exI [of _ "[evs1]"]) (simp add: do_exec_def and_then_def)
  next
    case (Inr u)
    then show ?thesis using c p by (intro exI [of _ e] exI [of _ "[evs1, evs2]"]) (simp add: do_exec_def and_then_def)
  qed
qed

text \<open>
  \<^verbatim>\<open>exec_background\<close> starts programs without asking the policy: its effect is the same under
  every policy, also one that denies the command and the program.
\<close>

theorem exec_background_ungated:
  "do_exec_background (ie\<lparr>ie_rc := (ie_rc ie)\<lparr>rc_policy := pol\<rparr>\<rparr>) args ip = do_exec_background ie args ip"
proof -
  have "os_of (ie\<lparr>ie_rc := (ie_rc ie)\<lparr>rc_policy := pol\<rparr>\<rparr>) = os_of ie" by (simp add: os_of_def fun_eq_iff)
  then show ?thesis unfolding do_exec_background_def run_temporary_def by (simp split: prod.split sum.split)
qed

text \<open>
  The mode of \<^verbatim>\<open>chmod\<close> is the value of its octal digits, modulo \<open>2\<^sup>3\<^sup>2\<close>; every other text gives
  all bits set, which the command passes on to the kernel.
\<close>

theorem get_mode_octal:
  "get_mode s = (if octal (c_str s) then word_of_nat (octal_value (c_str s)) else - 1)"
  using get_mode_from_value [of "c_str s" 0] get_mode_from_bad [of "c_str s" 0]
  by (simp add: get_mode_def octal_value_def)

subsection \<open>Witnesses\<close>

definition sample_mounts :: mount_services where
  "sample_mounts =
     \<lparr>ms_codes = \<lparr>DEV_NEEDS_ENCRYPTION = 7, DEV_MIGHT_BE_ENCRYPTED = 1, DEV_NOT_ENCRYPTED = 0, DEV_NOT_ENCRYPTABLE = 2,
                  DEV_NEEDS_RECOVERY = 3, DEV_FILE_ENCRYPTED = 5, DEV_IS_METADATA_ENCRYPTED = 6, DEV_NEEDS_METADATA_ENCRYPTION = 8\<rparr>,
      ms_fstab = (\<lambda>_. True), ms_mount_all = (\<lambda>_ _. (0, True)), ms_umount_all = (\<lambda>_. 0), ms_loops = [LoopTaken],
      ms_verity_state = None, ms_verity = [], ms_fscrypt_native = False, ms_key_ref = ''ref'', ms_key_per_boot_ref = ''per_boot_ref'',
      ms_unencrypted_folder = ''/unencrypted'', ms_gsi_running = False, ms_apex_rc = Some [], ms_apex_dirs = Some [],
      ms_namespace = Ok True, ms_basename = (\<lambda>p. p), ms_duration = ''5''\<rparr>"

definition closed_policy :: InnitPolicy where
  "closed_policy = empty_policy\<lparr>pol_loaded := True, default_exec := Deny, denied_commands := [''start'']\<rparr>"

definition sample_shutdown :: shutdown_env where
  "sample_shutdown =
     \<lparr>se_mounts = (\<lambda>_. Some [\<lparr>mnt_fsname = ''/dev/block/dm-1'', mnt_dir = ''/data'', mnt_type = ''ext4'', mnt_rw = True\<rparr>]),
      se_tries = (\<lambda>_. 2), se_zero_left = (\<lambda>_. False), se_polls = (\<lambda>_. []), se_zombies = (\<lambda>_. []), se_zero_timeout = False,
      se_dump_on_failure = False, se_enforcing = True, se_boot_command = replicate 32 (CHR 0x00), se_userspace_supported = False,
      se_boot_capability = CapFlag True\<rparr>"

definition sample_machine :: machine_env where
  "sample_machine =
     \<lparr>me_architecture = AARCH64, me_readable = (\<lambda>_. True), me_recorded = (\<lambda>_ v. Some (to_string (min v 30))), me_allow_permissive = False,
      me_getenforce = True, me_perf_open = True, me_perf_denied = True, me_udc = Some [''.'', ''..'', ''a600000.dwc3''],
      me_devices = (\<lambda>_. Some sample_device), me_inotify = Some (4, True), me_input_dir = Some [''event0''],
      me_mounts = \<lparr>me_dm_path = (\<lambda>_. None), me_fstab = None, me_readlink = (\<lambda>_. None), me_is_dir = (\<lambda>_. True)\<rparr>,
      me_cgroups_dir = ''/dev/cgroup_info'', me_gsi_booted_prop = ''ro.gsid.image_running'',
      me_gsi_installed_prop = ''ro.gsid.image_installed'', me_gsi_installed = False\<rparr>"

definition sample_env :: init_env where
  "sample_env =
     \<lparr>ie_lb = ref_libbase, ie_rc = sample_rc_env\<lparr>rc_policy := Some closed_policy\<rparr>, ie_cfg = sample_boot_cfg, ie_fuel = 1,
      ie_os = (\<lambda>_. sample_os), ie_sys = (\<lambda>_ _. None), ie_errno = (\<lambda>_. OtherErrno), ie_getpwnam = (\<lambda>_. None),
      ie_files = (\<lambda>_. None),
      ie_restorecon = \<lparr>RESTORECON_RECURSE = 1, RESTORECON_SKIPCE = 2, RESTORECON_CROSS_FILESYSTEMS = 4\<rparr>,
      ie_lstat = (\<lambda>_ _. Inl ENOENT), ie_stat = (\<lambda>_ _. True), ie_mounts = sample_mounts, ie_shutdown = sample_shutdown, ie_channel = (\<lambda>_ _. SendFailed),
      ie_machine = sample_machine\<rparr>"

definition sample_process :: init_process where
  "sample_process =
     \<lparr>ip_rc = boot_state, ip_trace = [], waiting_for_prop = None, shutdown_command = [], do_shutdown = False,
      late_import_paths = [], initial_mount_fstab_return_code = - 1, num_calls = 0, log_severity = INFO, mount_ns_ready = False,
      bootcharting = False, ip_diverged = False, sub_pid = 0, subcontext_terminated_by_shutdown = False,
      shutting_down = False, sending_messages = True, ip_closures = []\<rparr>"

definition sample_args :: BuiltinArguments where
  "sample_args = \<lparr>ba_args = [''exec'', ''--'', ''/system/bin/sh''], ba_context = kInitContext\<rparr>"

lemma sample_env_ok: "libbase_api (ie_lb sample_env)" "os_fork (ie_os sample_env k) \<noteq> 0"
  "ie_policy sample_env = Some closed_policy" "pol_loaded closed_policy"
  using ref_base.libbase_api_axioms by (simp_all add: sample_env_def sample_os_def closed_policy_def)

lemma sample_process_ok: "am_inv (ip_am sample_process)" "sl_inv (ip_sl sample_process)" "names_ok (ip_sl sample_process)"
  by (simp_all add: sample_process_def boot_state_def ip_am_def ip_sl_def am_inv_new sl_inv_def empty_services_def order_inv_def
      names_ok_def)

theorem builtins_keep_world_witness:
  "sl_inv (ip_sl (snd (do_exec_background sample_env sample_args sample_process))) \<and>
   am_extends (ip_am sample_process) (ip_am (snd (do_exec_background sample_env sample_args sample_process)))"
proof -
  have m: "(''do_exec_background'', do_exec_background) \<in> set builtin_functions" by (simp add: builtin_functions_def)
  obtain r ip' where e: "do_exec_background sample_env sample_args sample_process = (r, ip')" by fastforce
  show ?thesis using builtins_keep_world [OF m sample_env_ok(1,2) sample_process_ok e] e by simp
qed

theorem denied_command_does_nothing_witness:
  "\<exists>e evs. do_start sample_env \<lparr>ba_args = [''start'', ''adbd''], ba_context = kInitContext\<rparr> sample_process =
     (Err e, note_policy evs sample_process)"
proof -
  have m: "(''start'', do_start) \<in> set gated_commands" by (simp add: gated_commands_def)
  show ?thesis
    using denied_command_does_nothing [OF m sample_env_ok(3,4), of "\<lparr>ba_args = [''start'', ''adbd''], ba_context = kInitContext\<rparr>"]
    by (simp add: IsCommandAllowed_def closed_policy_def) blast
qed

theorem denied_exec_spawns_nothing_witness:
  "\<exists>e evs. do_exec sample_env sample_args sample_process = (Err e, fold note_policy evs sample_process)"
proof -
  obtain s st' where m: "MakeTemporaryOneshotService (ie_lb sample_env) (ie_getpwnam sample_env) (ba_args sample_args) sample_static = (Inr s, st')"
      "svc_args s = [''/system/bin/sh'']"
    by (simp add: MakeTemporaryOneshotService_def command_arg_def sample_args_def upt_rec new_service_def Let_def)
  have "\<not> fst (IsExecAllowed (ie_log sample_env) closed_policy ''/system/bin/sh'')"
    by (simp add: IsExecAllowed_def closed_policy_def empty_policy_def Let_def)
  then show ?thesis
    using denied_exec_spawns_nothing [OF sample_env_ok(3,4) m(1), of sample_process] m(2) by simp
qed

end
