(* ===== verification/Subcontexts.thy ===== *)
theory Subcontexts
  imports Builtin_Safety
begin

text \<open>
  The process that runs the commands of vendor scripts in its own SELinux context
  (\<^verbatim>\<open>init/subcontext.cpp\<close>): the side of init, which sends a command and reads the reply, and the
  side of the child, which serves one command after the other. What sending gives is
  \<open>ie_channel\<close>; a channel that works delivers what the child answers.
\<close>

section \<open>The side of init\<close>

text \<open>The parent's part of \<^verbatim>\<open>Fork\<close>; a failure is fatal.\<close>

definition Fork :: "init_env \<Rightarrow> Subcontext \<Rightarrow> init_process \<Rightarrow> init_process" where
  "Fork ie sc ip =
     (let pid = os_fork (os_of ie ip);
          ip = sys_do ie (ForkSubcontext (sc_context sc)) ip
      in if pid = - 1 then sys_do ie (Abort ''Could not fork subcontext'') ip
         else ip\<lparr>sub_pid := pid\<rparr>)"

definition Subcontext_Restart :: "init_env \<Rightarrow> Subcontext \<Rightarrow> init_process \<Rightarrow> init_process" where
  "Subcontext_Restart ie sc ip =
     Fork ie sc ((if sub_pid ip \<noteq> 0 then sys_do ie (KillPid (sub_pid ip) ''SIGKILL'') ip else ip)\<lparr>sub_pid := 0\<rparr>)"

definition TransmitMessage ::
  "init_env \<Rightarrow> Subcontext \<Rightarrow> SubcontextCommand \<Rightarrow> init_process \<Rightarrow> SubcontextReply result \<times> init_process" where
  "TransmitMessage ie sc subconcommand ip =
     (case ie_channel ie (length (ip_trace ip)) subconcommand of
        SendFailed \<Rightarrow> (Err (ErrnoError ''Failed to send message to subcontext''), Subcontext_Restart ie sc ip)
      | ReadFailed e \<Rightarrow> (Err (Error (''Failed to receive result from subcontext: '' @ e)), Subcontext_Restart ie sc ip)
      | Unparsable \<Rightarrow> (Err (Error ''Unable to parse message from subcontext''), Subcontext_Restart ie sc ip)
      | Replied reply \<Rightarrow>
          (Ok reply, case reply_trigger_shutdown reply of None \<Rightarrow> ip | Some command \<Rightarrow> trigger_shutdown command ip))"

definition ResultError :: "string \<Rightarrow> bool \<Rightarrow> init_error" where
  "ResultError msg with_errno = (if with_errno then ErrnoError msg else Error msg)"

text \<open>The number in the text is \<^verbatim>\<open>reply_case()\<close>, the field number of the answer.\<close>

fun field_number :: "sub_answer \<Rightarrow> int" where
  "field_number ReplyNotSet = 0"
| "field_number Success = 1"
| "field_number (Failure _ _) = 2"
| "field_number (ExpandArgsReply _) = 3"

definition unexpected :: "sub_answer \<Rightarrow> init_error" where
  "unexpected a = Error (''Unexpected message type from subcontext: '' @ to_string (field_number a))"

definition Execute :: "init_env \<Rightarrow> Subcontext \<Rightarrow> string list \<Rightarrow> init_process \<Rightarrow> unit result \<times> init_process" where
  "Execute ie sc args ip =
     (case TransmitMessage ie sc (ExecuteCommand args) ip of
        (Inl e, ip) \<Rightarrow> (Inl e, ip)
      | (Inr reply, ip) \<Rightarrow>
          (case reply_case reply of
             Failure msg with_errno \<Rightarrow> Err (ResultError msg with_errno)
           | Success \<Rightarrow> Ok ()
           | a \<Rightarrow> Err (unexpected a), ip))"

definition ExpandArgs :: "init_env \<Rightarrow> Subcontext \<Rightarrow> string list \<Rightarrow> init_process \<Rightarrow> string list result \<times> init_process" where
  "ExpandArgs ie sc args ip =
     (case TransmitMessage ie sc (ExpandArgsCommand args) ip of
        (Inl e, ip) \<Rightarrow> (Inl e, ip)
      | (Inr reply, ip) \<Rightarrow>
          (case reply_case reply of
             Failure msg with_errno \<Rightarrow> Err (ResultError msg with_errno)
           | ExpandArgsReply expanded_args \<Rightarrow> Ok expanded_args
           | a \<Rightarrow> Err (unexpected a), ip))"

definition InitializeSubcontext :: "init_env \<Rightarrow> int \<Rightarrow> init_process \<Rightarrow> Subcontext option \<times> init_process" where
  "InitializeSubcontext ie vendor_version ip =
     (if vendor_version \<ge> API_P then
        (let sc = \<lparr>sc_path_prefixes = [''/vendor'', ''/odm''], sc_context = kVendorContext\<rparr>
         in (Some sc, Fork ie sc (ip\<lparr>sub_pid := 0\<rparr>)))
      else (None, ip))"

definition SubcontextChildReap :: "init_env \<Rightarrow> Subcontext option \<Rightarrow> int \<Rightarrow> init_process \<Rightarrow> bool \<times> init_process" where
  "SubcontextChildReap ie subcontext pid ip =
     (case subcontext of
        None \<Rightarrow> (False, ip)
      | Some sc \<Rightarrow>
          if sub_pid ip = pid
          then (True, if \<not> subcontext_terminated_by_shutdown ip then Subcontext_Restart ie sc ip else ip)
          else (False, ip))"

text \<open>Without a subcontext the source follows a null pointer.\<close>

definition SubcontextTerminate :: "init_env \<Rightarrow> Subcontext option \<Rightarrow> init_process \<Rightarrow> init_process" where
  "SubcontextTerminate ie subcontext ip =
     (let ip = ip\<lparr>subcontext_terminated_by_shutdown := True\<rparr>
      in case subcontext of
           None \<Rightarrow> sys_do ie (Abort ''null subcontext'') ip
         | Some sc \<Rightarrow> sys_do ie (KillPid (sub_pid ip) ''SIGTERM'') ip)"

section \<open>The side of the child\<close>

text \<open>
  A builtin function by its symbol, and the table the process has. The child is init's program
  with the same functions; its state is a process of its own.
\<close>

definition apply_builtin ::
  "(string \<times> builtin) list \<Rightarrow> init_env \<Rightarrow> BuiltinFunction \<Rightarrow> BuiltinArguments \<Rightarrow> init_process \<Rightarrow> unit result \<times> init_process" where
  "apply_builtin table ie f args ip =
     (case map_of table f of Some g \<Rightarrow> g ie args ip | None \<Rightarrow> (Err (Error (''no such function: '' @ f)), ip))"

definition sub_find_and_run :: "init_env \<Rightarrow> string \<Rightarrow> string list \<Rightarrow> init_process \<Rightarrow> unit result \<times> init_process" where
  "sub_find_and_run ie con args ip =
     (case Find GetBuiltinFunctionMap args of
        Inl e \<Rightarrow> (Err (Error (''Cannot find command: '' @ message e)), ip)
      | Inr v \<Rightarrow>
          RunBuiltinFunction (prop_of_process ie ip) (os_version (os_of ie ip)) (apply_builtin builtin_functions ie (builtin_function v))
            args con ip)"

definition has_errno :: "init_error \<Rightarrow> bool" where
  "has_errno e = (case e of ErrnoError _ \<Rightarrow> True | Error _ \<Rightarrow> False)"

definition RunCommand :: "init_env \<Rightarrow> string \<Rightarrow> string list \<Rightarrow> init_process \<Rightarrow> sub_answer \<times> init_process" where
  "RunCommand ie con args ip =
     (case sub_find_and_run ie con args ip of
        (Inr _, ip) \<Rightarrow> (Success, ip)
      | (Inl e, ip) \<Rightarrow> (Failure (message e) (has_errno e), ip))"

text \<open>The reply is filled argument by argument; a failure replaces what is there.\<close>

fun sub_expand_loop :: "(string \<Rightarrow> string) \<Rightarrow> int \<Rightarrow> string list \<Rightarrow> sub_answer \<Rightarrow> sub_answer" where
  "sub_expand_loop props version [] reply = reply"
| "sub_expand_loop props version (a # as) reply =
     (case ExpandProps props version a of
        Inl e \<Rightarrow> Failure (message e) False
      | Inr x \<Rightarrow>
          sub_expand_loop props version as
            (ExpandArgsReply ((case reply of ExpandArgsReply xs \<Rightarrow> xs | _ \<Rightarrow> []) @ [x])))"

definition Process_ExpandArgs :: "init_env \<Rightarrow> string list \<Rightarrow> init_process \<Rightarrow> sub_answer" where
  "Process_ExpandArgs ie args ip =
     sub_expand_loop (prop_of_process ie ip) (os_version (os_of ie ip)) args ReplyNotSet"

text \<open>One turn of \<^verbatim>\<open>MainLoop\<close>; there \<^verbatim>\<open>trigger_shutdown\<close> only keeps the command, for the reply.\<close>

definition serve :: "init_env \<Rightarrow> string \<Rightarrow> SubcontextCommand \<Rightarrow> init_process \<Rightarrow> SubcontextReply \<times> init_process" where
  "serve ie con subconcommand ip =
     (case (case subconcommand of
              ExecuteCommand args \<Rightarrow> RunCommand ie con args ip
            | ExpandArgsCommand args \<Rightarrow> (Process_ExpandArgs ie args ip, ip)) of
        (reply, ip) \<Rightarrow>
          if shutdown_command ip \<noteq> []
          then (\<lparr>reply_case = reply, reply_trigger_shutdown = Some (shutdown_command ip)\<rparr>, ip\<lparr>shutdown_command := []\<rparr>)
          else (\<lparr>reply_case = reply, reply_trigger_shutdown = None\<rparr>, ip))"

section \<open>Lemmas\<close>

lemma Subcontext_Restart_fields [simp]:
  "ip_am (Subcontext_Restart ie sc ip) = ip_am ip" "ip_sl (Subcontext_Restart ie sc ip) = ip_sl ip"
  by (simp_all add: Subcontext_Restart_def Fork_def Let_def)

lemma TransmitMessage_fields:
  "ip_am (snd (TransmitMessage ie sc c ip)) = ip_am ip \<and> ip_sl (snd (TransmitMessage ie sc c ip)) = ip_sl ip"
  by (simp add: TransmitMessage_def split: transmission.split option.split)

lemma Execute_keeps: "keeps_process ip (snd (Execute ie sc args ip))"
  using TransmitMessage_fields [of ie sc "ExecuteCommand args" ip]
  by (cases "TransmitMessage ie sc (ExecuteCommand args) ip"; cases "fst (TransmitMessage ie sc (ExecuteCommand args) ip)")
     (simp_all add: Execute_def keeps_same)

lemma ExpandArgs_keeps: "keeps_process ip (snd (ExpandArgs ie sc args ip))"
  using TransmitMessage_fields [of ie sc "ExpandArgsCommand args" ip]
  by (cases "TransmitMessage ie sc (ExpandArgsCommand args) ip"; cases "fst (TransmitMessage ie sc (ExpandArgsCommand args) ip)")
     (simp_all add: ExpandArgs_def keeps_same)

lemma sub_expand_loop_spec:
  "sub_expand_loop props version as (ExpandArgsReply xs) =
     (case expand_args props version as of Inl e \<Rightarrow> Failure (message e) False | Inr es \<Rightarrow> ExpandArgsReply (xs @ es))"
proof (induction as arbitrary: xs)
  case (Cons a as)
  show ?case
  proof (cases "ExpandProps props version a")
    case (Inr x)
    then show ?thesis using Cons.IH [of "xs @ [x]"] by (cases "expand_args props version as") simp_all
  qed simp
qed simp

lemma Process_ExpandArgs_spec:
  "args \<noteq> [] \<Longrightarrow> Process_ExpandArgs ie args ip =
     (case expand_args (prop_of_process ie ip) (os_version (os_of ie ip)) args of
        Inl e \<Rightarrow> Failure (message e) False | Inr es \<Rightarrow> ExpandArgsReply es)"
  by (cases args) (auto simp: Process_ExpandArgs_def sub_expand_loop_spec split: sum.split)

lemma ResultError_message: "ResultError (message e) (has_errno e) = e"
  by (cases e) (simp_all add: ResultError_def has_errno_def)

section \<open>Properties\<close>


text \<open>
  The arguments of a vendor command that runs in init are expanded twice, first in the child
  and then in init: the text \<^verbatim>\<open>$${name}\<close> is given its value by init, whatever the child may read.
\<close>

theorem vendor_arguments_expanded_twice:
  assumes "\<not> execute_in_subcontext cmd" "cmd_args cmd = [''start'', ''$${ro.serialno}'']"
    and "sub_expand ce sc (cmd_args cmd) s = (expand_args child_props (env_version ce) (cmd_args cmd), s)"
    and "env_props ce s ''ro.serialno'' \<noteq> []"
  shows "InvokeFunc ce cmd (Some sc) s =
     apply_fn ce (cmd_func cmd) \<lparr>ba_args = [''start'', env_props ce s ''ro.serialno''], ba_context = sc_context sc\<rparr> s"
proof -
  have "expand_args child_props (env_version ce) [''start'', ''$${ro.serialno}''] = Ok [''start'', ''${ro.serialno}'']"
    by (simp add: ExpandProps_def c_str_def expand_loop.simps [of _ _ "''start''"] expand_loop.simps [of _ _ "''$${ro.serialno}''"])
  moreover have "ExpandProps (env_props ce s) (env_version ce) ''${ro.serialno}'' = Ok (env_props ce s ''ro.serialno'')"
    using assms(4)
    by (simp add: ExpandProps_def c_str_def expand_loop.simps [of _ _ "''${ro.serialno}''"] split_default_def expand_property_def)
  ultimately show ?thesis using assms(1-3) by (simp add: InvokeFunc_def RunBuiltinFunction_def)
qed

subsection \<open>Witnesses\<close>

definition vendor_subcontext :: Subcontext where
  "vendor_subcontext = \<lparr>sc_path_prefixes = [''/vendor'', ''/odm''], sc_context = kVendorContext\<rparr>"

definition working_channel :: init_env where
  "working_channel =
     sample_env\<lparr>ie_channel := (\<lambda>_ c. Replied (fst (serve sample_env kVendorContext c sample_process)))\<rparr>"


theorem vendor_arguments_expanded_twice_witness:
  "InvokeFunc \<lparr>apply_fn = (\<lambda>f args s. (Ok (), ba_args args)), sub_execute = (\<lambda>_ _ s. (Ok (), s)),
               sub_expand = (\<lambda>_ as s. (expand_args (\<lambda>_. []) 30 as, s)), env_props = (\<lambda>_ _. ''1234''), env_version = 30\<rparr>
     \<lparr>cmd_func = ''do_start'', execute_in_subcontext = False, cmd_args = [''start'', ''$${ro.serialno}''], cmd_line = 1\<rparr>
     (Some vendor_subcontext) [] = (Ok (), [''start'', ''1234''])"
  using vendor_arguments_expanded_twice [of
      "\<lparr>cmd_func = ''do_start'', execute_in_subcontext = False, cmd_args = [''start'', ''$${ro.serialno}''], cmd_line = 1\<rparr>"
      "\<lparr>apply_fn = (\<lambda>f args s. (Ok (), ba_args args)), sub_execute = (\<lambda>_ _ s. (Ok (), s)),
        sub_expand = (\<lambda>_ as s. (expand_args (\<lambda>_. []) 30 as, s)), env_props = (\<lambda>_ _. ''1234''), env_version = 30\<rparr>"
      vendor_subcontext "[]" "\<lambda>_. []"]
  by simp

end
