(* ===== verification/Reboot_Utils.thy ===== *)
theory Reboot_Utils
  imports Init_World
begin

text \<open>
  The end of init (\<^verbatim>\<open>init/reboot_utils.cpp\<close>): the system call that reboots the device, and what a
  fatal signal does. \<^verbatim>\<open>RebootSystem\<close> does not return, so the call it makes is the last of a trace.
  The backtrace that is logged first is left out.
\<close>

section \<open>The reboot call\<close>

definition IsRebootCapable :: "boot_capability \<Rightarrow> bool" where
  "IsRebootCapable c =
     (case c of CapNotSupported \<Rightarrow> True | CapsUnavailable \<Rightarrow> True | CapFlagUnavailable \<Rightarrow> True | CapFlag v \<Rightarrow> v)"

text \<open>\<open>warm\<close> is the property \<^verbatim>\<open>ro.thermal_warmreset\<close>.\<close>

definition reboot_call :: "bool \<Rightarrow> bool \<Rightarrow> reboot_cmd \<Rightarrow> string \<Rightarrow> sys_call" where
  "reboot_call capable warm cmd rebootTarget =
     (if \<not> capable then ExitInit 0
      else case cmd of
        RB_POWEROFF \<Rightarrow> PowerOff
      | RB_RESTART2 \<Rightarrow> Restart2 rebootTarget
      | RB_THERMOFF \<Rightarrow> if warm then Restart2 ''shutdown,thermal'' else PowerOff)"

definition RebootSystem :: "init_env \<Rightarrow> reboot_cmd \<Rightarrow> string \<Rightarrow> init_process \<Rightarrow> init_process" where
  "RebootSystem ie cmd rebootTarget ip =
     sys_do ie (reboot_call (IsRebootCapable (se_boot_capability (ie_shutdown ie)))
       (os_bool_props (os_of ie ip) ''ro.thermal_warmreset'') cmd rebootTarget) ip"

section \<open>Fatal signals\<close>

record fatal_reboot =
  init_fatal_reboot_target :: string
  init_fatal_panic :: bool

definition initial_fatal_reboot :: fatal_reboot where
  "initial_fatal_reboot = \<lparr>init_fatal_reboot_target = ''bootloader'', init_fatal_panic = False\<rparr>"

text \<open>\<^verbatim>\<open>std::string::substr\<close> throws behind the end.\<close>

definition substr :: "string \<Rightarrow> nat \<Rightarrow> nat option \<Rightarrow> string option" where
  "substr s pos count =
     (if length s < pos then None
      else Some (case count of None \<Rightarrow> drop pos s | Some n \<Rightarrow> take n (drop pos s)))"

definition kInitFatalPanicParamString :: string where "kInitFatalPanicParamString = ''androidboot.init_fatal_panic''"
definition kRebootTargetString :: string where "kRebootTargetString = ''androidboot.init_fatal_reboot_target''"

text \<open>
  The value behind the key on the command line. The source skips \<^verbatim>\<open>sizeof(kRebootTargetStringPattern) - 1\<close>
  characters; the pattern is a \<^verbatim>\<open>std::string\<close>, so that this is the size of the object, here
  \<open>string_size\<close>, and not the length of the text.
\<close>

definition cmdline_target :: "nat \<Rightarrow> string \<Rightarrow> nat \<Rightarrow> string option" where
  "cmdline_target string_size cmdline found =
     (let start_pos = found + (string_size - 1)
      in substr cmdline start_pos (find_str [SPACE] (drop start_pos cmdline)))"

definition fatal_panic :: "libbase \<Rightarrow> string \<Rightarrow> string \<Rightarrow> bool" where
  "fatal_panic lb cmdline bootconfig =
     (case find_str kInitFatalPanicParamString cmdline of
        None \<Rightarrow> (kInitFatalPanicParamString, ''true'') \<in> set (ImportBootconfig lb bootconfig)
      | Some _ \<Rightarrow> find_str (kInitFatalPanicParamString @ ''=true'') cmdline \<noteq> None)"

text \<open>\<open>None\<close> is the exception.\<close>

definition SetFatalRebootTarget ::
  "libbase \<Rightarrow> nat \<Rightarrow> string \<Rightarrow> string \<Rightarrow> string option \<Rightarrow> fatal_reboot \<Rightarrow> fatal_reboot option" where
  "SetFatalRebootTarget lb string_size proc_cmdline bootconfig reboot_target st =
     (let cmdline = Trim lb proc_cmdline;
          st = st\<lparr>init_fatal_panic := fatal_panic lb cmdline bootconfig\<rparr>
      in case reboot_target of
           Some t \<Rightarrow> Some (st\<lparr>init_fatal_reboot_target := t\<rparr>)
         | None \<Rightarrow>
             (case find_str kRebootTargetString cmdline of
                None \<Rightarrow>
                  Some (st\<lparr>init_fatal_reboot_target :=
                    last_value kRebootTargetString (ImportBootconfig lb bootconfig) (init_fatal_reboot_target st)\<rparr>)
              | Some found \<Rightarrow>
                  map_option (\<lambda>t. st\<lparr>init_fatal_reboot_target := t\<rparr>) (cmdline_target string_size cmdline found)))"

text \<open>The child only sleeps and reboots; the parent logs, and crashes the kernel when it is told to.\<close>

definition fatal_child :: "init_env \<Rightarrow> fatal_reboot \<Rightarrow> init_process \<Rightarrow> init_process" where
  "fatal_child ie fr ip = RebootSystem ie RB_RESTART2 (init_fatal_reboot_target fr) ip"

definition InitFatalReboot :: "init_env \<Rightarrow> fatal_reboot \<Rightarrow> int \<Rightarrow> init_process \<Rightarrow> init_process" where
  "InitFatalReboot ie fr signal_number ip =
     (case sys ie ForkFatalReboot ip of
        (Some _, ip) \<Rightarrow> RebootSystem ie RB_RESTART2 (init_fatal_reboot_target fr) ip
      | (None, ip) \<Rightarrow>
          if init_fatal_panic fr then sys_do ie (ExitInit signal_number) (sys_do ie (WriteFile ''/proc/sysrq-trigger'' ''c'') ip)
          else RebootSystem ie RB_RESTART2 (init_fatal_reboot_target fr) ip)"

definition fatal_signals :: "string list" where
  "fatal_signals = [''SIGABRT'', ''SIGBUS'', ''SIGFPE'', ''SIGILL'', ''SIGSEGV'', ''SIGSTKFLT'', ''SIGSYS'', ''SIGTRAP'']"

text \<open>The handler is also inherited by the children of init.\<close>

definition fatal_handler :: "init_env \<Rightarrow> fatal_reboot \<Rightarrow> int \<Rightarrow> int \<Rightarrow> init_process \<Rightarrow> init_process" where
  "fatal_handler ie fr pid signal_number ip =
     (if pid \<noteq> 1 then sys_do ie (ExitInit signal_number) ip else InitFatalReboot ie fr signal_number ip)"

section \<open>Properties\<close>

lemma RebootSystem_last:
  "\<exists>warm. last (ip_trace (RebootSystem ie cmd target ip)) =
     Called (reboot_call (IsRebootCapable (se_boot_capability (ie_shutdown ie))) warm cmd target)"
  by (simp add: RebootSystem_def sys_do_def sys_def record_effect_def) blast

lemma find_space_none: "SPACE \<notin> set v \<Longrightarrow> find_str [SPACE] v = None"
  by (induction v) auto

lemma find_space_split: "SPACE \<notin> set v \<Longrightarrow> find_str [SPACE] (v @ SPACE # r) = Some (length v)"
  by (induction v) auto

lemma drop_prefix: "drop (length pre) (pre @ s) = s"
  by simp

lemma word_at:
  assumes "SPACE \<notin> set v" "rest = [] \<or> hd rest = SPACE"
  shows "substr (pre @ v @ rest) (length pre) (find_str [SPACE] (v @ rest)) = Some v"
  using assms find_space_none [OF assms(1)] find_space_split [OF assms(1)]
  by (cases rest) (auto simp: substr_def)

text \<open>
  What \<^verbatim>\<open>androidboot.init_fatal_reboot_target=v\<close> on the kernel command line makes the target: the
  characters of the parameter, key and value, behind the first \<open>string_size - 1\<close>. Only a
  string object of 38 bytes would give the value; the 24 bytes of the C++ library give
  \<^verbatim>\<open>reboot_target=v\<close>.
\<close>

theorem fatal_target_of_cmdline:
  assumes "cmdline = pre @ kRebootTargetString @ ''='' @ v @ rest" "Trim lb cmdline = cmdline"
    and "find_str kRebootTargetString cmdline = Some (length pre)" "SPACE \<notin> set v" "rest = [] \<or> hd rest = SPACE"
    and "string_size - 1 \<le> length (kRebootTargetString @ ''='')"
  shows "map_option init_fatal_reboot_target (SetFatalRebootTarget lb string_size cmdline bootconfig None st) =
    Some (drop (string_size - 1) (kRebootTargetString @ ''='') @ v)"
proof -
  let ?key = "kRebootTargetString @ ''=''"
  let ?k = "string_size - 1"
  have c: "cmdline = (pre @ take ?k ?key) @ (drop ?k ?key @ v) @ rest"
    using assms(1) append_take_drop_id [of ?k ?key] by (metis append.assoc)
  have l: "length (pre @ take ?k ?key) = length pre + ?k" using assms(6) by simp
  have s: "SPACE \<notin> set (drop ?k ?key @ v)"
    using assms(4) in_set_dropD [of SPACE ?k ?key] by (auto simp: kRebootTargetString_def)
  have d: "drop (length pre + ?k) cmdline = (drop ?k ?key @ v) @ rest"
    by (subst c, subst l [symmetric]) (rule drop_prefix)
  have "cmdline_target string_size cmdline (length pre) = Some (drop ?k ?key @ v)"
    using word_at [OF s assms(5), of "pre @ take ?k ?key"] unfolding c [symmetric] l
    by (simp only: cmdline_target_def Let_def d)
  then show ?thesis using assms(2,3,6) by (simp add: SetFatalRebootTarget_def Let_def)
qed

theorem fatal_target_of_cmdline_witness:
  "map_option init_fatal_reboot_target
     (SetFatalRebootTarget ref_libbase 24 ''quiet androidboot.init_fatal_reboot_target=recovery ro'' [] None initial_fatal_reboot) =
   Some ''reboot_target=recovery''"
proof -
  have f: "find_str kRebootTargetString ''quiet androidboot.init_fatal_reboot_target=recovery ro'' = Some (length ''quiet '')"
    by (simp add: kRebootTargetString_def)
  have t: "Trim ref_libbase ''quiet androidboot.init_fatal_reboot_target=recovery ro'' = ''quiet androidboot.init_fatal_reboot_target=recovery ro''"
    by (simp add: ref_libbase_def ref_trim_def c_isspace_def code_of_def)
  have "drop (24 - 1) (kRebootTargetString @ ''='') @ ''recovery'' = ''reboot_target=recovery''"
    by (simp add: kRebootTargetString_def)
  with fatal_target_of_cmdline [OF _ t f, of "''recovery''" "'' ro''" 24 "[]" initial_fatal_reboot]
  show ?thesis by (simp add: kRebootTargetString_def)
qed

end
