(* ===== verification/Reboot.thy ===== *)
theory Reboot
  imports Subcontexts Reboot_Utils
begin

text \<open>
  Shutting down and rebooting (\<^verbatim>\<open>init/reboot.cpp\<close>): the command written to
  \<^verbatim>\<open>sys.powerctl\<close>, the shutdown of the services, unmounting, and the userspace reboot. The monitor
  threads watch over the clock only and are not part of the model, but for the time they allow.
\<close>

section \<open>Reaping in the process\<close>

text \<open>
  What the death of a service makes init do: callbacks and the commands of \<^verbatim>\<open>onrestart\<close> run in the
  process. \<open>run\<close> executes the commands of an action.
\<close>

definition call_reap_callback :: "init_env \<Rightarrow> string \<Rightarrow> siginfo \<Rightarrow> init_process \<Rightarrow> init_process" where
  "call_reap_callback ie cb si ip =
     (if exited_normally si \<and> si_status si = 0 then ip
      else if take 9 cb = ''recovery:'' then vdc_failed True (drop 9 cb) ie ip
      else vdc_failed False (drop 7 cb) ie ip)"

fun after_reap :: "init_env \<Rightarrow> (Action \<Rightarrow> init_process \<Rightarrow> init_process) \<Rightarrow> svc_effect list \<Rightarrow> init_process \<Rightarrow> init_process" where
  "after_reap ie run [] ip = ip"
| "after_reap ie run (e # es) ip =
     after_reap ie run es
       (let ip = absorb_one e ip
        in case e of ReapCallback cb si \<Rightarrow> call_reap_callback ie cb si ip | RunOnrestart a \<Rightarrow> run a ip | _ \<Rightarrow> ip)"

definition reap_process ::
  "init_env \<Rightarrow> (Action \<Rightarrow> init_process \<Rightarrow> init_process) \<Rightarrow> (int \<times> siginfo) option \<Rightarrow> init_process \<Rightarrow> int \<times> init_process" where
  "reap_process ie run waited ip =
     (case waited of
        None \<Rightarrow> (0, ip)
      | Some (pid, si) \<Rightarrow>
          if pid = 0 then (0, ip)
          else
            (case SubcontextChildReap ie (bc_subcontext (ie_cfg ie)) pid ip of
               (True, ip) \<Rightarrow> (pid, ip)
             | (False, ip) \<Rightarrow>
                 (case ReapOneProcess (os_of ie ip) (\<lambda>_. False) waited (ip_sl ip) of
                    (pid, sl, effs) \<Rightarrow> (pid, after_reap ie run effs (set_sl sl ip)))))"

fun reap_children ::
  "init_env \<Rightarrow> (Action \<Rightarrow> init_process \<Rightarrow> init_process) \<Rightarrow> (int \<times> siginfo) option list \<Rightarrow> init_process \<Rightarrow> int list \<times> init_process" where
  "reap_children ie run [] ip = ([], ip)"
| "reap_children ie run (z # zs) ip =
     (case reap_process ie run z ip of
        (pid, ip) \<Rightarrow>
          if pid = 0 then ([], ip)
          else (case reap_children ie run zs ip of (pids, ip) \<Rightarrow> (pid # pids, ip)))"

definition reap_outstanding :: "init_env \<Rightarrow> (Action \<Rightarrow> init_process \<Rightarrow> init_process) \<Rightarrow> init_process \<Rightarrow> init_process" where
  "reap_outstanding ie run ip = snd (reap_children ie run (se_zombies (ie_shutdown ie) (length (ip_trace ip))) ip)"

fun wait_to_be_reaped ::
  "init_env \<Rightarrow> (Action \<Rightarrow> init_process \<Rightarrow> init_process) \<Rightarrow> int list \<Rightarrow> (int \<times> siginfo) option list list \<Rightarrow> init_process \<Rightarrow> init_process" where
  "wait_to_be_reaped ie run alive [] ip = ip"
| "wait_to_be_reaped ie run alive (zs # rounds) ip =
     (if alive = [] then ip
      else (case reap_children ie run zs ip of
              (pids, ip) \<Rightarrow> wait_to_be_reaped ie run (fold remove1 pids alive) rounds ip))"

section \<open>Services\<close>

definition kDebuggingServices :: "string list" where
  "kDebuggingServices = [''tombstoned'', ''logd'', ''adbd'', ''console'']"

definition GetPostDataDebuggingServices :: "ServiceList \<Rightarrow> string list" where
  "GetPostDataDebuggingServices sl =
     map svc_name (filter (\<lambda>s. svc_name s \<in> set kDebuggingServices \<and> post_data s) (sl_services sl))"

text \<open>A change of the fields of one service, and the positions of the services in the order of shutdown.\<close>

definition modify_op :: "(Service \<Rightarrow> Service) \<Rightarrow> os \<Rightarrow> unit service_op" where
  "modify_op f os = simple_op (\<lambda>s. (f s, []))"

definition shutdown_positions :: "ServiceList \<Rightarrow> nat list" where
  "shutdown_positions sl =
     sort_key (\<lambda>i. - int (start_order (sl_services sl ! i)))
       (filter (\<lambda>i. 0 < start_order (sl_services sl ! i)) [0..<length (sl_services sl)])"

definition stop_op :: "bool \<Rightarrow> os \<Rightarrow> unit service_op" where
  "stop_op terminate os = simple_op (if terminate then Terminate os else Stop os)"

definition listed_pids :: "string list \<Rightarrow> ServiceList \<Rightarrow> nat list \<Rightarrow> int list" where
  "listed_pids services sl is =
     filter (\<lambda>p. p > 0)
       (map (\<lambda>i. svc_pid (sl_services sl ! i)) (filter (\<lambda>i. svc_name (sl_services sl ! i) \<in> set services) is))"

text \<open>
  \<open>timeout\<close> is \<open>True\<close> when there is time to wait. The pids are read before any service is
  stopped: stopping one service does not change the pid of another.
\<close>

definition StopServices ::
  "init_env \<Rightarrow> (Action \<Rightarrow> init_process \<Rightarrow> init_process) \<Rightarrow> string list \<Rightarrow> bool \<Rightarrow> bool \<Rightarrow> init_process \<Rightarrow> init_process" where
  "StopServices ie run services timeout terminate ip =
     (let is = shutdown_positions (ip_sl ip);
          pids = listed_pids services (ip_sl ip) is;
          ip = each_index ie (\<lambda>s. svc_name s \<in> set services) (stop_op terminate) is ip
      in if timeout then wait_to_be_reaped ie run pids (se_polls (ie_shutdown ie) (length (ip_trace ip))) ip
         else reap_outstanding ie run ip)"

definition still_running :: "string list \<Rightarrow> ServiceList \<Rightarrow> nat" where
  "still_running services sl = length (filter (\<lambda>s. IsRunning s \<and> svc_name s \<in> set services) (sl_services sl))"

definition StopServicesAndLogViolations ::
  "init_env \<Rightarrow> (Action \<Rightarrow> init_process \<Rightarrow> init_process) \<Rightarrow> string list \<Rightarrow> bool \<Rightarrow> bool \<Rightarrow> init_process \<Rightarrow> nat \<times> init_process" where
  "StopServicesAndLogViolations ie run services timeout terminate ip =
     (let ip = StopServices ie run services timeout terminate ip in (still_running services (ip_sl ip), ip))"

definition start_named :: "init_env \<Rightarrow> string \<Rightarrow> init_process \<Rightarrow> init_process" where
  "start_named ie name ip =
     (case FindService name svc_name (ip_sl ip) of None \<Rightarrow> ip | Some i \<Rightarrow> snd (on_listed ie i (Start (ie_lb ie)) ip))"

definition TurnOffBacklight :: "init_env \<Rightarrow> init_process \<Rightarrow> init_process" where
  "TurnOffBacklight ie ip = start_named ie ''blank_screen'' ip"

section \<open>Programs\<close>

definition run_program :: "string list \<Rightarrow> init_env \<Rightarrow> init_process \<Rightarrow> unit result \<times> init_process" where
  "run_program argv ie ip =
     (case sys ie (RunProgram argv) ip of
        (None, ip) \<Rightarrow> (Ok (), ip)
      | (Some _, ip) \<Rightarrow> (Err (Error (Join (ie_lb ie) argv '' '' @ '' failed'')), ip))"

definition CallVdc :: "string \<Rightarrow> string \<Rightarrow> init_env \<Rightarrow> init_process \<Rightarrow> unit result \<times> init_process" where
  "CallVdc system cmd ie ip = run_program [''/system/bin/vdc'', system, cmd] ie ip"

definition UnmountAllApexes :: "init_env \<Rightarrow> init_process \<Rightarrow> unit result \<times> init_process" where
  "UnmountAllApexes ie ip = run_program [''/system/bin/apexd'', ''--unmount-all''] ie ip"

section \<open>Unmounting\<close>

datatype UmountStat =
    UMOUNT_STAT_SUCCESS | UMOUNT_STAT_SKIPPED | UMOUNT_STAT_TIMEOUT | UMOUNT_STAT_ERROR | UMOUNT_STAT_NOT_AVAILABLE

definition mounts_now :: "init_env \<Rightarrow> init_process \<Rightarrow> mount_entry list option" where
  "mounts_now ie ip = se_mounts (ie_shutdown ie) (length (ip_trace ip))"

definition IsDataMounted :: "init_env \<Rightarrow> init_process \<Rightarrow> bool" where
  "IsDataMounted ie ip =
     (case mounts_now ie ip of None \<Rightarrow> False | Some ms \<Rightarrow> list_ex (\<lambda>m. mnt_dir m = ''/data'') ms)"

text \<open>Each entry goes to the front of its list: the last mounted is unmounted first.\<close>

fun sort_mounts :: "libbase \<Rightarrow> mount_entry list \<Rightarrow> mount_entry list \<Rightarrow> mount_entry list \<Rightarrow> mount_entry list \<times> mount_entry list" where
  "sort_mounts lb [] block emulated = (block, emulated)"
| "sort_mounts lb (m # ms) block emulated =
     (if StartsWith lb (mnt_fsname m) ''/dev/block'' \<and> mnt_rw m then
        (if mnt_dir m \<noteq> ''/'' \<and> mnt_dir m \<noteq> ''/system'' \<and> mnt_dir m \<noteq> ''/vendor'' \<and> mnt_dir m \<noteq> ''/oem''
         then sort_mounts lb ms (m # block) emulated else sort_mounts lb ms block emulated)
      else if StartsWith lb (mnt_fsname m) ''/data/'' then sort_mounts lb ms block (m # emulated)
      else sort_mounts lb ms block emulated)"

definition FindPartitionsToUmount :: "init_env \<Rightarrow> init_process \<Rightarrow> (mount_entry list \<times> mount_entry list) option" where
  "FindPartitionsToUmount ie ip =
     (case mounts_now ie ip of None \<Rightarrow> None | Some ms \<Rightarrow> Some (sort_mounts (ie_lb ie) ms [] []))"

fun umount_entries :: "init_env \<Rightarrow> bool \<Rightarrow> mount_entry list \<Rightarrow> bool \<Rightarrow> init_process \<Rightarrow> bool \<times> init_process" where
  "umount_entries ie force [] unmount_done ip = (unmount_done, ip)"
| "umount_entries ie force (m # ms) unmount_done ip =
     (case sys ie (UmountForReboot (mnt_dir m) force) ip of
        (r, ip) \<Rightarrow> umount_entries ie force ms (unmount_done \<and> r = None) ip)"

definition umount_pass :: "init_env \<Rightarrow> bool \<Rightarrow> mount_entry list \<times> mount_entry list \<Rightarrow> init_process \<Rightarrow> bool \<times> init_process" where
  "umount_pass ie zero parts ip =
     (case umount_entries ie False (snd parts) True ip of
        (unmount_done, ip) \<Rightarrow>
          umount_entries ie zero (fst parts) unmount_done
            (if snd parts \<noteq> [] \<and> unmount_done then sys_do ie SyncDisks ip else ip))"

fun UmountPartitions :: "init_env \<Rightarrow> bool \<Rightarrow> nat \<Rightarrow> init_process \<Rightarrow> UmountStat \<times> init_process" where
  "UmountPartitions ie zero tries ip =
     (case FindPartitionsToUmount ie ip of
        None \<Rightarrow> (UMOUNT_STAT_ERROR, ip)
      | Some parts \<Rightarrow>
          if fst parts = [] then (UMOUNT_STAT_SUCCESS, ip)
          else
            (case umount_pass ie zero parts ip of
               (True, ip) \<Rightarrow> (UMOUNT_STAT_SUCCESS, ip)
             | (False, ip) \<Rightarrow>
                 (case tries of 0 \<Rightarrow> (UMOUNT_STAT_TIMEOUT, ip) | Suc n \<Rightarrow> UmountPartitions ie zero n ip)))"

declare UmountPartitions.simps [simp del]

definition KillAllProcesses :: "init_env \<Rightarrow> init_process \<Rightarrow> init_process" where
  "KillAllProcesses ie ip = sys_do ie (WriteFile ''/proc/sysrq-trigger'' ''i'') ip"

definition DumpUmountDebuggingInfo :: "init_env \<Rightarrow> init_process \<Rightarrow> init_process" where
  "DumpUmountDebuggingInfo ie ip =
     sys_do ie (WriteFile ''/proc/sysrq-trigger'' ''w'')
       (sys_do ie (WriteFile ''/proc/sysrq-trigger'' ''l'')
         (if \<not> se_enforcing (ie_shutdown ie) then sys_do ie (RunProgram [''/system/bin/lsof'']) ip else ip))"

definition DoFsck :: "init_env \<Rightarrow> mount_entry \<Rightarrow> init_process \<Rightarrow> init_process" where
  "DoFsck ie m ip =
     (if mnt_type m = ''f2fs'' then sys_do ie (RunProgram [''/system/bin/fsck.f2fs'', ''-a'', mnt_fsname m]) ip
      else if mnt_type m = ''ext4'' then sys_do ie (RunProgram [''/system/bin/e2fsck'', ''-y'', mnt_fsname m]) ip
      else ip)"

definition tries_now :: "init_env \<Rightarrow> init_process \<Rightarrow> nat" where
  "tries_now ie ip = se_tries (ie_shutdown ie) (length (ip_trace ip))"

definition last_resort :: "init_env \<Rightarrow> init_process \<Rightarrow> init_process" where
  "last_resort ie ip =
     (let dump = se_dump_on_failure (ie_shutdown ie);
          ip = KillAllProcesses ie (if dump then DumpUmountDebuggingInfo ie ip else ip)
      in case UmountPartitions ie True (tries_now ie ip) ip of
           (st, ip) \<Rightarrow> if st \<noteq> UMOUNT_STAT_SUCCESS \<and> dump then DumpUmountDebuggingInfo ie ip else ip)"

definition TryUmountAndFsck :: "init_env \<Rightarrow> bool \<Rightarrow> init_process \<Rightarrow> UmountStat \<times> init_process" where
  "TryUmountAndFsck ie run_fsck ip =
     (case (if run_fsck then FindPartitionsToUmount ie ip else Some ([], [])) of
        None \<Rightarrow> (UMOUNT_STAT_ERROR, ip)
      | Some parts \<Rightarrow>
          (case UmountPartitions ie (se_zero_left (ie_shutdown ie) (length (ip_trace ip))) (tries_now ie ip) ip of
             (stat, ip) \<Rightarrow>
               (stat, if stat \<noteq> UMOUNT_STAT_SUCCESS then last_resort ie ip
                      else if run_fsck then fold (DoFsck ie) (fst parts) ip else ip)))"

section \<open>zram\<close>

text \<open>The last character of each file is cut off; the files of the kernel are not empty.\<close>

definition zram_file :: "init_env \<Rightarrow> string \<Rightarrow> string option" where
  "zram_file ie path = (case ie_files ie path of None \<Rightarrow> None | Some f \<Rightarrow> file_content f)"

definition KillZramBackingDevice :: "init_env \<Rightarrow> init_process \<Rightarrow> unit result \<times> init_process" where
  "KillZramBackingDevice ie ip =
     (case zram_file ie ''/sys/block/zram0/initstate'' of
        None \<Rightarrow> (Err (ErrnoError ''Failed to read /sys/block/zram0/initstate''), ip)
      | Some zram_initstate \<Rightarrow>
          if butlast zram_initstate = ''0'' then (Ok (), ip)
          else
            (case sys ie (Access ''/sys/block/zram0/backing_dev'') ip of
               (r, ip) \<Rightarrow>
                 if r = Some ENOENT then (Ok (), ip)
                 else
                   (case zram_file ie ''/sys/block/zram0/backing_dev'' of
                      None \<Rightarrow> (Err (ErrnoError ''Failed to read /sys/block/zram0/backing_dev''), ip)
                    | Some backing_line \<Rightarrow>
                        (let backing_dev = butlast backing_line;
                             failed = (\<lambda>what. ''zram_backing_dev: '' @ what @ '' ('' @ backing_dev @ '') failed'');
                             no_args = \<lparr>ba_args = [], ba_context = []\<rparr>
                         in and_then (checked (Swapoff ''/dev/block/zram0'') (ErrnoError (failed ''swapoff'')))
                              (and_then (checked (WriteFile ''/sys/block/zram0/reset'' ''1'') (Error (failed ''reset'')))
                                (if \<not> StartsWith (ie_lb ie) backing_dev ''/dev/block/loop'' then (\<lambda>ie args ip. (Ok (), ip))
                                 else and_then (checked (OpenRead backing_dev) (ErrnoError (failed ''open'')))
                                        (checked (Ioctl ''LOOP_CLR_FD'' backing_dev) (ErrnoError (failed ''loop_clear'')))))
                              ie no_args ip))))"

section \<open>Rebooting\<close>

definition uint_property :: "init_env \<Rightarrow> init_process \<Rightarrow> nat \<Rightarrow> string \<Rightarrow> nat \<Rightarrow> nat" where
  "uint_property ie ip umax name dflt =
     (case ParseUint (ie_lb ie) (prop_of_process ie ip name) umax of None \<Rightarrow> dflt | Some v \<Rightarrow> v)"

definition shutdown_timeout :: "init_env \<Rightarrow> reboot_cmd \<Rightarrow> init_process \<Rightarrow> nat" where
  "shutdown_timeout ie cmd ip =
     (if se_zero_timeout (ie_shutdown ie) then 0
      else
        (let final = uint_property ie ip 4294967295 ''ro.build.shutdown_timeout'' 6
         in if cmd = RB_THERMOFF \<and> final > 3 then 3 else final))"

definition PersistRebootReason :: "init_env \<Rightarrow> string \<Rightarrow> bool \<Rightarrow> init_process \<Rightarrow> init_process" where
  "PersistRebootReason ie reason write_to_property ip =
     sys_do ie (PersistReason reason)
       (if write_to_property then sys_do ie (SetProp ''persist.sys.boot.reason'' reason) ip else ip)"

definition canonical_reason :: "libbase \<Rightarrow> string \<Rightarrow> string" where
  "canonical_reason lb reason =
     (let reasons = Split lb reason '',''
      in if 2 \<le> length reasons \<and> reasons ! 0 = ''reboot'' \<and>
            reasons ! 1 \<in> {''recovery'', ''bootloader'', ''cold'', ''hard'', ''warm''}
         then drop 7 reason else reason)"

text \<open>One turn of the loop that sorts the services; the names to stop first are collected in order.\<close>

definition prepare_service :: "init_env \<Rightarrow> nat \<Rightarrow> string list \<times> init_process \<Rightarrow> string list \<times> init_process" where
  "prepare_service ie i acc =
     (case acc of (stop_first, ip) \<Rightarrow>
        (let s = sl_services (ip_sl ip) ! i
         in if svc_name s \<in> set kDebuggingServices then (stop_first, snd (on_listed ie i (modify_op SetShutdownCritical) ip))
            else if svc_name s = ''watchdogd'' then
              (stop_first, snd (on_listed ie i (modify_op SetShutdownCritical) (snd (on_listed ie i (Start (ie_lb ie)) ip))))
            else if IsShutdownCritical s then (stop_first, snd (on_listed ie i (Start (ie_lb ie)) ip))
            else (stop_first @ [svc_name s], ip)))"

definition prepare_services :: "init_env \<Rightarrow> init_process \<Rightarrow> string list \<times> init_process" where
  "prepare_services ie ip = fold (prepare_service ie) [0..<length (sl_services (ip_sl ip))] ([], ip)"

definition modify_named :: "init_env \<Rightarrow> string \<Rightarrow> (Service \<Rightarrow> Service) \<Rightarrow> init_process \<Rightarrow> init_process" where
  "modify_named ie name f ip =
     (case FindService name svc_name (ip_sl ip) of None \<Rightarrow> ip | Some i \<Rightarrow> snd (on_listed ie i (modify_op f) ip))"

definition stop_named :: "init_env \<Rightarrow> string \<Rightarrow> init_process \<Rightarrow> init_process" where
  "stop_named ie name ip =
     (case FindService name svc_name (ip_sl ip) of
        None \<Rightarrow> ip | Some i \<Rightarrow> snd (on_listed ie i (\<lambda>os. simple_op (Stop os)) ip))"

definition is_running_named :: "string \<Rightarrow> init_process \<Rightarrow> bool" where
  "is_running_named name ip =
     (case FindService name svc_name (ip_sl ip) of None \<Rightarrow> False | Some i \<Rightarrow> IsRunning (sl_services (ip_sl ip) ! i))"

text \<open>
  The animation services. In the source one loop starts each service of the class and marks it; a
  service is marked after it was started, and neither depends on the other services.
\<close>

definition is_animation :: "Service \<Rightarrow> bool" where
  "is_animation s = (''animation'' \<in> set (classnames s))"

definition start_and_mark :: "libbase \<Rightarrow> bool \<Rightarrow> os \<Rightarrow> unit service_op" where
  "start_and_mark lb start os s st =
     (if start then
        (case Start lb os s st of (_, s, st, effs) \<Rightarrow> ((), SetShutdownCritical s, st, effs))
      else ((), SetShutdownCritical s, st, []))"

definition shutdown_animation :: "init_env \<Rightarrow> init_process \<Rightarrow> init_process" where
  "shutdown_animation ie ip =
     (if FindService ''bootanim'' svc_name (ip_sl ip) \<noteq> None \<and> is_running_named ''surfaceflinger'' ip then
        (let animate = os_bool_props (os_of ie ip) ''ro.init.shutdown_animation'';
             ip = (if animate
                   then stop_named ie ''bootanim''
                          (sys_do ie (SetProp ''service.bootanim.progress'' ''0'') (sys_do ie (SetProp ''service.bootanim.exit'' ''0'') ip))
                   else ip);
             ip = each_service ie is_animation (start_and_mark (ie_lb ie) animate) ip
         in if animate
            then modify_named ie ''bootanim'' SetShutdownCritical
                   (modify_named ie ''surfaceflinger'' SetShutdownCritical (start_named ie ''bootanim'' ip))
            else ip)
      else ip)"

definition shutdown_vold :: "init_env \<Rightarrow> init_process \<Rightarrow> init_process" where
  "shutdown_vold ie ip =
     (if is_running_named ''vold'' ip
      then stop_named ie ''vold'' (snd (CallVdc ''volume'' ''shutdown'' ie (snd (CallVdc ''volume'' ''abort_fuse'' ie ip))))
      else ip)"

definition stop_all_services :: "init_env \<Rightarrow> (Action \<Rightarrow> init_process \<Rightarrow> init_process) \<Rightarrow> nat \<Rightarrow> string list \<Rightarrow> init_process \<Rightarrow> init_process" where
  "stop_all_services ie run timeout stop_first ip =
     (let ip = (if timeout > 0 then snd (StopServicesAndLogViolations ie run stop_first True True ip) else ip);
          ip = snd (StopServicesAndLogViolations ie run stop_first False False ip);
          ip = reap_outstanding ie run (SubcontextTerminate ie (bc_subcontext (ie_cfg ie)) ip)
      in StopServices ie run kDebuggingServices False False (shutdown_vold ie ip))"

definition DoReboot ::
  "init_env \<Rightarrow> (Action \<Rightarrow> init_process \<Rightarrow> init_process) \<Rightarrow> reboot_cmd \<Rightarrow> string \<Rightarrow> string \<Rightarrow> bool \<Rightarrow> init_process \<Rightarrow> init_process" where
  "DoReboot ie run cmd reason reboot_target run_fsck ip =
     (let timeout = shutdown_timeout ie cmd ip
      in case sys ie SemInit ip of
        (Some _, ip) \<Rightarrow> RebootSystem ie cmd reboot_target ip
      | (None, ip) \<Rightarrow>
          (let ip = PersistRebootReason ie (canonical_reason (ie_lb ie) reason) True ip
           in if \<not> IsDataMounted ie ip then RebootSystem ie cmd reboot_target (sys_do ie SyncDisks ip)
              else
                (case prepare_services ie ip of
                   (stop_first, ip) \<Rightarrow>
                     (let ip = (if cmd = RB_POWEROFF \<or> cmd = RB_THERMOFF then TurnOffBacklight ie ip else ip);
                          ip = stop_all_services ie run timeout stop_first (shutdown_animation ie ip);
                          ip = snd (KillZramBackingDevice ie (sys_do ie SyncDisks ip));
                          ip = snd (TryUmountAndFsck ie run_fsck (snd (UnmountAllApexes ie ip)))
                      in RebootSystem ie cmd reboot_target (sys_do ie SyncDisks ip)))))"

section \<open>Entering and leaving\<close>

definition UnSetExec :: "unit service_op" where
  "UnSetExec s st = ((), clear_flag SVC_EXEC s, st\<lparr>is_exec_service_running := False\<rparr>, [])"

definition EnterShutdown :: "init_env \<Rightarrow> init_process \<Rightarrow> init_process" where
  "EnterShutdown ie ip =
     each_service ie (\<lambda>_. True) (\<lambda>os. UnSetExec) (ResetWaitForProp (ip\<lparr>shutting_down := True\<rparr>))"

definition LeaveShutdown :: "init_process \<Rightarrow> init_process" where
  "LeaveShutdown ip = ip\<lparr>shutting_down := False, sending_messages := True\<rparr>"

section \<open>Userspace reboot\<close>

text \<open>The guard of the failure paths, with the reason it passes on.\<close>

definition abort_userspace :: "string \<Rightarrow> init_error \<Rightarrow> init_process \<Rightarrow> unit result \<times> init_process" where
  "abort_userspace sub_reason e ip =
     (Err e, trigger_shutdown (''reboot,userspace_failed,shutdown_aborted,'' @ sub_reason) (LeaveShutdown ip))"

definition running_names :: "string list \<Rightarrow> ServiceList \<Rightarrow> string list" where
  "running_names services sl = map svc_name (filter (\<lambda>s. IsRunning s \<and> svc_name s \<in> set services) (sl_services sl))"

definition log_survivors :: "init_env \<Rightarrow> string \<Rightarrow> string list \<Rightarrow> init_process \<Rightarrow> init_process" where
  "log_survivors ie headline services ip =
     fold (\<lambda>l. sys_do ie (WriteFile ''/metadata/userspacereboot/services.txt'' l))
       (headline # map (\<lambda>n. n @ [LF]) (running_names services (ip_sl ip))) ip"

text \<open>
  After the services: unmount, switch the namespace, drop the services of APEXes, enable what was
  enabled, and resume.
\<close>

definition resume_userspace :: "init_env \<Rightarrow> string list \<Rightarrow> init_process \<Rightarrow> unit result \<times> init_process" where
  "resume_userspace ie were_enabled ip =
     (case UnmountAllApexes ie (sys_do ie SyncDisks ip) of
        (Inl e, ip) \<Rightarrow> abort_userspace ''apex'' e ip
      | (Inr _, ip) \<Rightarrow>
          (case sys ie SwitchToBootstrapNamespace ip of
             (Some _, ip) \<Rightarrow> abort_userspace ''ns_switch'' (Error ''Failed to switch to bootstrap namespace'') ip
           | (None, ip) \<Rightarrow>
               (let ip = set_sl (RemoveServiceIf from_apex (ip_sl ip)) ip;
                    ip = each_service ie (\<lambda>s. svc_name s \<in> set were_enabled) (Enable (ie_lb ie)) ip;
                    ip = LeaveShutdown (set_sl (ResetState (ip_sl ip)) ip)
                in (Ok (), queue_event ie ''userspace-reboot-resume'' ip))))"

definition stop_debuggers :: "init_env \<Rightarrow> (Action \<Rightarrow> init_process \<Rightarrow> init_process) \<Rightarrow> bool \<Rightarrow> string list \<Rightarrow> init_process \<Rightarrow> unit result \<times> init_process" where
  "stop_debuggers ie run kill_wait were_enabled ip =
     (let debugging_services = GetPostDataDebuggingServices (ip_sl ip)
      in case StopServicesAndLogViolations ie run debugging_services kill_wait False ip of
           (r, ip) \<Rightarrow>
             if r > 0 then
               abort_userspace ''sigkill_debug'' (Error (to_string (int r) @ '' debugging services are still running''))
                 (log_survivors ie (''Debugging services still running: '' @ [LF]) debugging_services ip)
             else resume_userspace ie were_enabled ip)"

definition stop_post_data ::
  "init_env \<Rightarrow> (Action \<Rightarrow> init_process \<Rightarrow> init_process) \<Rightarrow> bool \<Rightarrow> bool \<Rightarrow> string list \<Rightarrow> string list \<Rightarrow> init_process \<Rightarrow> unit result \<times> init_process" where
  "stop_post_data ie run term_wait kill_wait stop_first were_enabled ip =
     (case StopServicesAndLogViolations ie run stop_first kill_wait False
             (snd (StopServicesAndLogViolations ie run stop_first term_wait True ip)) of
        (r, ip) \<Rightarrow>
          if r > 0 then
            abort_userspace ''sigkill'' (Error (to_string (int r) @ '' post-data services are still running''))
              (log_survivors ie (''Post-data services still running: '' @ [LF]) stop_first ip)
          else
            (case KillZramBackingDevice ie ip of
               (Inl e, ip) \<Rightarrow> abort_userspace ''zram'' e ip
             | (Inr _, ip) \<Rightarrow>
                 (case CallVdc ''volume'' ''reset'' ie ip of
                    (Inl e, ip) \<Rightarrow> abort_userspace ''vold_reset'' e ip
                  | (Inr _, ip) \<Rightarrow> stop_debuggers ie run kill_wait were_enabled ip)))"

definition GetMillisProperty :: "init_env \<Rightarrow> init_process \<Rightarrow> string \<Rightarrow> nat \<Rightarrow> nat" where
  "GetMillisProperty ie ip name default_value = uint_property ie ip 18446744073709551615 name default_value"

definition DoUserspaceReboot :: "init_env \<Rightarrow> (Action \<Rightarrow> init_process \<Rightarrow> init_process) \<Rightarrow> init_process \<Rightarrow> unit result \<times> init_process" where
  "DoUserspaceReboot ie run ip =
     (case sys ie (SetProp ''sys.init.userspace_reboot.in_progress'' ''1'') ip of
        (Some _, ip) \<Rightarrow> abort_userspace ''setprop'' (Error ''Failed to set sys.init.userspace_reboot.in_progress property'') ip
      | (None, ip) \<Rightarrow>
          (case sys ie (SetProp ''sys.powerctl'' []) (EnterShutdown ie ip) of
             (Some _, ip) \<Rightarrow> abort_userspace ''resetprop'' (Error ''Failed to reset sys.powerctl property'') ip
           | (None, ip) \<Rightarrow>
               (let ordered = services_in_shutdown_order (ip_sl ip);
                    stop_first = map svc_name (filter (\<lambda>s. post_data s \<and> svc_name s \<notin> set kDebuggingServices) ordered);
                    were_enabled = map svc_name (filter (\<lambda>s. post_data s \<and> IsEnabled s) ordered);
                    ip = sys_do ie SyncDisks ip;
                    sigterm_timeout = GetMillisProperty ie ip ''init.userspace_reboot.sigterm.timeoutmillis'' 5000;
                    sigkill_timeout = GetMillisProperty ie ip ''init.userspace_reboot.sigkill.timeoutmillis'' 10000
                in stop_post_data ie run (sigterm_timeout > 0) (sigkill_timeout > 0) stop_first were_enabled ip)))"

section \<open>The command\<close>

definition queue_closure :: "closure \<Rightarrow> string \<Rightarrow> init_process \<Rightarrow> init_process" where
  "queue_closure c name ip =
     (let symbol = name @ ''#'' @ to_string (int (length (ip_closures ip)))
      in set_am (QueueBuiltinAction symbol name (ip_am ip)) (ip\<lparr>ip_closures := (symbol, c) # ip_closures ip\<rparr>))"

definition HandleUserspaceReboot :: "init_env \<Rightarrow> init_process \<Rightarrow> init_process" where
  "HandleUserspaceReboot ie ip =
     (if \<not> se_userspace_supported (ie_shutdown ie) then ip
      else
        (case sys ie ForkWatchdog ip of
           (Some _, ip) \<Rightarrow> trigger_shutdown ''reboot,userspace_failed,watchdog_fork'' ip
         | (None, ip) \<Rightarrow>
             queue_closure UserspaceRebootHandler ''userspace-reboot''
               (queue_event ie ''userspace-reboot-requested'' (set_am (ClearQueue (ip_am ip)) ip))))"

text \<open>The field is an array; a text that is broken counts as absent.\<close>

definition c_isprint :: "char \<Rightarrow> bool" where
  "c_isprint c = (32 \<le> code_of c \<and> code_of c \<le> 126)"

fun scan_command :: "string \<Rightarrow> bool" where
  "scan_command [] = False"
| "scan_command (c # cs) = (if c = CHR 0x00 then True else if \<not> c_isprint c then False else scan_command cs)"

definition CommandIsPresent :: "string \<Rightarrow> bool" where
  "CommandIsPresent command = (case command of [] \<Rightarrow> False | c # _ \<Rightarrow> c \<noteq> CHR 0x00 \<and> scan_command command)"

text \<open>
  What is written for the bootloader, and the target afterwards; \<open>None\<close> when writing failed and the
  command is dropped.
\<close>

definition notify_bootloader :: "init_env \<Rightarrow> string \<Rightarrow> init_process \<Rightarrow> string option \<times> init_process" where
  "notify_bootloader ie reboot_target ip =
     (if reboot_target = ''bootloader'' then (Some reboot_target, sys_do ie WriteRebootBootloader ip)
      else if reboot_target = ''recovery'' then
        (case sys ie ReadBootloader ip of
           (r, ip) \<Rightarrow>
             if CommandIsPresent (if r = None then se_boot_command (ie_shutdown ie) else replicate 32 (CHR 0x00))
             then (Some reboot_target, ip)
             else
               (case sys ie (WriteBootloaderCommand ''boot-recovery'') ip of
                  (None, ip) \<Rightarrow> (Some reboot_target, ip)
                | (Some _, ip) \<Rightarrow> (None, ip)))
      else if reboot_target = ''sideload'' \<or> reboot_target = ''sideload-auto-reboot'' \<or> reboot_target = ''fastboot'' then
        (let arg = (if reboot_target = ''sideload-auto-reboot'' then ''sideload_auto_reboot'' else reboot_target)
         in case sys ie (WriteBootloaderMessage [''--'' @ arg]) ip of
              (None, ip) \<Rightarrow> (Some ''recovery'', ip)
            | (Some _, ip) \<Rightarrow> (None, ip))
      else (Some reboot_target, ip))"

definition with_parameters :: "string \<Rightarrow> string list \<Rightarrow> string" where
  "with_parameters reboot_target params = reboot_target @ concat (map (\<lambda>p. '','' @ p) (takeWhile (\<lambda>p. p \<noteq> []) params))"

definition parse_reboot :: "init_env \<Rightarrow> string list \<Rightarrow> init_process \<Rightarrow> string option \<times> init_process" where
  "parse_reboot ie cmd_params ip =
     (if length cmd_params < 2 then (Some [], ip)
      else
        (let target = cmd_params ! 1;
             target = (if target = ''fastboot'' \<and> \<not> os_bool_props (os_of ie ip) ''ro.boot.dynamic_partitions'' then ''bootloader'' else target)
         in case notify_bootloader ie target ip of
              (t, ip) \<Rightarrow> (map_option (\<lambda>t. with_parameters t (drop 2 cmd_params)) t, ip)))"

definition begin_shutdown :: "init_env \<Rightarrow> reboot_cmd \<Rightarrow> string \<Rightarrow> string \<Rightarrow> bool \<Rightarrow> init_process \<Rightarrow> init_process" where
  "begin_shutdown ie cmd command reboot_target run_fsck ip =
     EnterShutdown ie
       (queue_closure (ShutdownHandler cmd command reboot_target run_fsck) ''shutdown_done''
         (queue_event ie ''shutdown'' (set_am (ClearQueue (ip_am ip)) (ip\<lparr>sending_messages := False\<rparr>))))"

definition HandlePowerctlMessage :: "init_env \<Rightarrow> string \<Rightarrow> init_process \<Rightarrow> init_process" where
  "HandlePowerctlMessage ie command ip =
     (let cmd_params = Split (ie_lb ie) command '','';
          param = (if 2 \<le> length cmd_params then cmd_params ! 1 else [])
      in if hd cmd_params = ''shutdown'' then
           (if param = ''thermal'' then begin_shutdown ie RB_THERMOFF command [] False (TurnOffBacklight ie ip)
            else begin_shutdown ie RB_POWEROFF command [] (param = ''userrequested'') ip)
         else if hd cmd_params = ''reboot'' then
           (case parse_reboot ie cmd_params ip of
              (None, ip) \<Rightarrow> ip
            | (Some reboot_target, ip) \<Rightarrow>
                if param = ''userspace'' then HandleUserspaceReboot ie (ip\<lparr>sending_messages := False\<rparr>)
                else begin_shutdown ie RB_RESTART2 command reboot_target False ip)
         else ip)"

end
