(* ===== verification/Reboot_Safety.thy ===== *)
theory Reboot_Safety
  imports Reboot
begin

text \<open>
  What shutting down guarantees: the reaping and the stopping of services keep the process well
  formed, a shutdown always ends in the reboot of the machine, and a userspace reboot either
  resumes or asks for a full reboot.
\<close>

section \<open>Operations on services\<close>

lemma plain_operation:
  assumes "\<And>s. same_run s (f s)" "\<And>s. svc_inv s \<Longrightarrow> svc_inv (f s)"
  shows "service_operation (modify_op f) (\<lambda>_. True)"
  using simple_operationI [of "\<lambda>os s. (f s, [])"] assms by (simp add: modify_op_def [abs_def])

lemma SetShutdownCritical_run: "same_run s (SetShutdownCritical s)" "svc_inv (SetShutdownCritical s) = svc_inv s"
  by (simp_all add: SetShutdownCritical_def svc_inv_def)

interpretation shutdown_critical_op: service_operation "modify_op SetShutdownCritical" "\<lambda>_. True"
  by (rule plain_operation) (simp_all add: SetShutdownCritical_run)

interpretation stop_or_terminate_op: service_operation "stop_op terminate" "\<lambda>_. True" for terminate
  by (cases terminate)
     (simp_all add: stop_op_def [abs_def] stop_op.service_operation_axioms terminate_op.service_operation_axioms)

interpretation unset_exec_op: service_operation "\<lambda>os. UnSetExec" "\<lambda>_. True"
  by (rule service_operationI) (auto simp: UnSetExec_def frame_step_def order_step_def svc_inv_def)

interpretation start_and_mark_op: service_operation "start_and_mark lb start" "\<lambda>_. True" for lb start
proof (rule service_operationI)
  fix os :: os and s st r s' st' effs
  assume a: "start_and_mark lb start os s st = (r, s', st', effs)"
  show "frame_step s st s' st'"
  proof (cases start)
    case True
    then obtain r1 s1 e where "Start lb os s st = (r1, s1, st', e)" "s' = SetShutdownCritical s1"
      using a by (auto simp: start_and_mark_def split: prod.splits)
    then show ?thesis using then_same_run [OF Start_step SetShutdownCritical_run(1)] by blast
  next
    case False
    then show ?thesis using a SetShutdownCritical_run(1) by (auto simp: start_and_mark_def intro: same_run_step)
  qed
next
  fix os :: os and s st
  assume "svc_inv s" "os_fork os \<noteq> 0"
  then show "svc_inv (fst (snd (start_and_mark lb start os s st)))"
    using Start_inv [of s os lb st] by (simp add: start_and_mark_def SetShutdownCritical_run split_beta)
qed

text \<open>An operation on the service of a name.\<close>

lemma FindService_length: "FindService v f sl = Some i \<Longrightarrow> i < length (sl_services sl)"
  by (auto simp: FindService_def dest: find_index_Some)

lemma named_operations_keep:
  assumes "env_ok ie"
  shows "keeps_process ip (start_named ie name ip)" "keeps_process ip (stop_named ie name ip)"
    "keeps_process ip (modify_named ie name SetShutdownCritical ip)"
  using start_op.on_listed_keeps [OF assms FindService_length] stop_op.on_listed_keeps [OF assms FindService_length]
    shutdown_critical_op.on_listed_keeps [OF assms FindService_length]
  by (auto simp: start_named_def stop_named_def modify_named_def split: option.split)

lemma filter_services_listed:
  assumes "listed_ok sl"
  shows "listed_ok (sl\<lparr>sl_services := filter P (sl_services sl)\<rparr>)"
proof -
  let ?started = "\<lambda>s. 0 < start_order s"
  have "distinct (map start_order (filter P (filter ?started (sl_services sl))))"
    using assms distinct_map_filter [of start_order "filter ?started (sl_services sl)" P]
    by (simp add: listed_ok_def sl_inv_def order_inv_def)
  then have "distinct (map start_order (filter ?started (filter P (sl_services sl))))" by (simp add: conj_commute)
  then show ?thesis
    using assms by (simp add: listed_ok_def sl_inv_def names_ok_def order_inv_def distinct_map_filter list_all_iff del: filter_filter)
qed

lemma RemoveServiceIf_listed: "listed_ok sl \<Longrightarrow> listed_ok (RemoveServiceIf P sl)"
  by (simp add: RemoveServiceIf_def filter_services_listed)

lemma RemoveService_listed: "listed_ok sl \<Longrightarrow> listed_ok (RemoveService name sl)"
proof -
  assume l: "listed_ok sl"
  then have "names_ok (RemoveService name sl)"
    using remove_first_parts [of "\<lambda>s. svc_name s = name" "sl_services sl"]
    by (auto simp: listed_ok_def names_ok_def RemoveService_def list_all_iff)
  then show ?thesis using l RemoveService_inv by (simp add: listed_ok_def)
qed

lemma ReapOneProcess_listed:
  assumes "listed_ok sl" "os_fork os \<noteq> 0" "ReapOneProcess os sr waited sl = (pid, sl', effs)"
  shows "listed_ok sl'"
proof (cases "\<exists>p si i. waited = Some (p, si) \<and> p \<noteq> 0 \<and> \<not> sr p \<and> FindService p svc_pid sl = Some i")
  case True
  then obtain p si i where w: "waited = Some (p, si)" "p \<noteq> 0" "\<not> sr p" and i: "FindService p svc_pid sl = Some i" by blast
  have i': "i < length (sl_services sl)" "svc_pid (sl_services sl ! i) \<noteq> 0"
    using i w(2) by (auto simp: FindService_def dest!: find_index_Some)
  obtain r t e where o: "on_service i (static_op (Reap os si)) sl = (r, t, e)" by (metis prod_cases3)
  have "listed_ok t" using reap_op.on_service_listed [OF o i'(1) assms(1) i'(2) assms(2)] .
  then show ?thesis using assms(3) w i o RemoveService_listed by (auto simp: ReapOneProcess_def split: if_splits)
next
  case False
  then show ?thesis using assms(1,3) by (fastforce simp: ReapOneProcess_def split: option.splits prod.splits if_splits)
qed

lemma SubcontextChildReap_fields:
  "ip_am (snd (SubcontextChildReap ie sc pid ip)) = ip_am ip" "ip_sl (snd (SubcontextChildReap ie sc pid ip)) = ip_sl ip"
  by (simp_all add: SubcontextChildReap_def split: option.split)

lemma call_reap_callback_fields [simp]:
  "ip_am (call_reap_callback ie cb si ip) = ip_am ip" "ip_sl (call_reap_callback ie cb si ip) = ip_sl ip"
  by (simp_all add: call_reap_callback_def)

lemma absorb_one_fields [simp]: "ip_am (absorb_one e ip) = ip_am ip" "ip_sl (absorb_one e ip) = ip_sl ip"
  using absorb_fields [of "[e]"] by (simp_all add: absorb_def)

section \<open>The runner of commands\<close>

text \<open>
  Shutting down needs of the interpreter of commands only that it keeps the process well formed:
  the commands of \<^verbatim>\<open>onrestart\<close> run whenever a service is reaped.
\<close>

locale command_runner =
  fixes run :: "init_env \<Rightarrow> Action \<Rightarrow> init_process \<Rightarrow> init_process"
  assumes run_keeps: "env_ok ie \<Longrightarrow> keeps_process ip (run ie a ip)"
begin

lemma after_reap_keeps: "env_ok ie \<Longrightarrow> keeps_process ip (after_reap ie (run ie) effs ip)"
proof (induction effs arbitrary: ip)
  case (Cons e effs)
  have "keeps_process ip (let ip = absorb_one e ip
      in case e of ReapCallback cb si \<Rightarrow> call_reap_callback ie cb si ip | RunOnrestart a \<Rightarrow> run ie a ip | _ \<Rightarrow> ip)"
    using keeps_before [OF run_keeps [OF Cons.prems]] by (cases e) (simp_all add: keeps_same)
  then show ?case using keeps_trans [OF _ Cons.IH [OF Cons.prems]] by simp
qed simp

lemma reap_process_keeps:
  assumes "env_ok ie"
  shows "keeps_process ip (snd (reap_process ie (run ie) z ip))"
proof (cases "z = None \<or> fst (the z) = 0")
  case True
  then show ?thesis by (auto simp: reap_process_def split: option.split prod.split)
next
  case False
  then obtain pid si where z: "z = Some (pid, si)" "pid \<noteq> 0" by auto
  obtain b ip1 where s: "SubcontextChildReap ie (bc_subcontext (ie_cfg ie)) pid ip = (b, ip1)" by fastforce
  then have f: "ip_am ip1 = ip_am ip" "ip_sl ip1 = ip_sl ip"
    using SubcontextChildReap_fields [of ie "bc_subcontext (ie_cfg ie)" pid ip] by simp_all
  obtain p sl effs where r: "ReapOneProcess (os_of ie ip1) (\<lambda>_. False) z (ip_sl ip1) = (p, sl, effs)" by (metis prod_cases3)
  have "os_fork (os_of ie ip1) \<noteq> 0" using assms by (simp add: env_ok_def os_of_def)
  then have "keeps_process ip1 (set_sl sl ip1)" using ReapOneProcess_listed [OF _ _ r] by (intro keeps_sl) simp
  then have "keeps_process ip1 (after_reap ie (run ie) effs (set_sl sl ip1))"
    using keeps_trans [OF _ after_reap_keeps [OF assms]] by blast
  then show ?thesis
    using z s r f keeps_before [OF _ f] keeps_same [OF f] by (cases b) (auto simp: reap_process_def)
qed

lemma reap_children_keeps: "env_ok ie \<Longrightarrow> keeps_process ip (snd (reap_children ie (run ie) zs ip))"
proof (induction zs arbitrary: ip)
  case (Cons z zs)
  obtain pid ip1 where r: "reap_process ie (run ie) z ip = (pid, ip1)" by fastforce
  have "keeps_process ip ip1" using reap_process_keeps [OF Cons.prems, of ip z] r by simp
  then show ?case using r keeps_trans [OF _ Cons.IH [OF Cons.prems]] by (simp add: split_beta)
qed simp

lemma reap_outstanding_keeps: "env_ok ie \<Longrightarrow> keeps_process ip (reap_outstanding ie (run ie) ip)"
  by (simp add: reap_outstanding_def reap_children_keeps)

lemma wait_to_be_reaped_keeps: "env_ok ie \<Longrightarrow> keeps_process ip (wait_to_be_reaped ie (run ie) alive rounds ip)"
proof (induction rounds arbitrary: alive ip)
  case (Cons zs rounds)
  then show ?case
    using reap_children_keeps [OF Cons.prems, of ip zs] keeps_trans by (simp add: split_beta)
qed simp

lemma StopServices_keeps:
  assumes "env_ok ie"
  shows "keeps_process ip (StopServices ie (run ie) services timeout terminate ip)"
proof -
  have "list_all (\<lambda>i. i < length (sl_services (ip_sl ip))) (shutdown_positions (ip_sl ip))"
    by (simp add: shutdown_positions_def list_all_iff)
  from stop_or_terminate_op.each_index_keeps [OF assms TrueI this]
  show ?thesis
    using keeps_trans [OF _ wait_to_be_reaped_keeps [OF assms]] keeps_trans [OF _ reap_outstanding_keeps [OF assms]]
    by (simp add: StopServices_def Let_def)
qed

lemma StopServicesAndLogViolations_keeps:
  "env_ok ie \<Longrightarrow> keeps_process ip (snd (StopServicesAndLogViolations ie (run ie) services timeout terminate ip))"
  by (simp add: StopServicesAndLogViolations_def Let_def StopServices_keeps)

end

section \<open>Programs and disks\<close>

text \<open>Steps that only make calls.\<close>

lemma sys_calls_fields [simp]:
  "ip_am (snd (run_program argv ie ip)) = ip_am ip" "ip_sl (snd (run_program argv ie ip)) = ip_sl ip"
  "ip_am (snd (CallVdc v c ie ip)) = ip_am ip" "ip_sl (snd (CallVdc v c ie ip)) = ip_sl ip"
  "ip_am (snd (UnmountAllApexes ie ip)) = ip_am ip" "ip_sl (snd (UnmountAllApexes ie ip)) = ip_sl ip"
  "ip_am (KillAllProcesses ie ip) = ip_am ip" "ip_sl (KillAllProcesses ie ip) = ip_sl ip"
  "ip_am (DumpUmountDebuggingInfo ie ip) = ip_am ip" "ip_sl (DumpUmountDebuggingInfo ie ip) = ip_sl ip"
  "ip_am (DoFsck ie m ip) = ip_am ip" "ip_sl (DoFsck ie m ip) = ip_sl ip"
  "ip_am (RebootSystem ie cmd t ip) = ip_am ip" "ip_sl (RebootSystem ie cmd t ip) = ip_sl ip"
  "ip_am (PersistRebootReason ie r b ip) = ip_am ip" "ip_sl (PersistRebootReason ie r b ip) = ip_sl ip"
  "ip_am (SubcontextTerminate ie sc ip) = ip_am ip" "ip_sl (SubcontextTerminate ie sc ip) = ip_sl ip"
  "ip_am (LeaveShutdown ip) = ip_am ip" "ip_sl (LeaveShutdown ip) = ip_sl ip"
  "ip_am (ResetWaitForProp ip) = ip_am ip" "ip_sl (ResetWaitForProp ip) = ip_sl ip"
  by (simp_all add: run_program_def CallVdc_def UnmountAllApexes_def KillAllProcesses_def DumpUmountDebuggingInfo_def DoFsck_def
      RebootSystem_def PersistRebootReason_def SubcontextTerminate_def sys_def Let_def split: option.split)
     (simp_all add: LeaveShutdown_def ResetWaitForProp_def ip_am_def ip_sl_def)

lemma umount_entries_fields [simp]:
  "ip_am (snd (umount_entries ie force ms d ip)) = ip_am ip" "ip_sl (snd (umount_entries ie force ms d ip)) = ip_sl ip"
  by (induction ms arbitrary: d ip) (simp_all add: sys_def)

lemma umount_pass_fields [simp]:
  "ip_am (snd (umount_pass ie zero parts ip)) = ip_am ip" "ip_sl (snd (umount_pass ie zero parts ip)) = ip_sl ip"
proof -
  obtain d ip1 where u: "umount_entries ie False (snd parts) True ip = (d, ip1)" by fastforce
  then have "ip_am ip1 = ip_am ip" "ip_sl ip1 = ip_sl ip"
    using umount_entries_fields [of ie False "snd parts" True ip] by simp_all
  then show "ip_am (snd (umount_pass ie zero parts ip)) = ip_am ip" "ip_sl (snd (umount_pass ie zero parts ip)) = ip_sl ip"
    using u by (simp_all add: umount_pass_def)
qed

lemma umount_pass_pair: "umount_pass ie zero parts ip = (d, ip') \<Longrightarrow> ip_am ip' = ip_am ip \<and> ip_sl ip' = ip_sl ip"
  using umount_pass_fields [of ie zero parts ip] by simp

lemma UmountPartitions_pair:
  "UmountPartitions ie zero tries ip = (st, ip') \<Longrightarrow> ip_am ip' = ip_am ip \<and> ip_sl ip' = ip_sl ip"
proof (induction tries arbitrary: ip)
  case 0
  then show ?case
    by (auto simp: UmountPartitions.simps [of ie zero 0 ip] dest!: umount_pass_pair split: option.splits if_splits prod.splits bool.splits)
next
  case (Suc n)
  show ?case
    using Suc.prems
    by (auto simp: UmountPartitions.simps [of ie zero "Suc n" ip] dest!: umount_pass_pair Suc.IH
        split: option.splits if_splits prod.splits bool.splits)
qed

lemma TryUmountAndFsck_fields [simp]:
  "ip_am (snd (TryUmountAndFsck ie fsck ip)) = ip_am ip" "ip_sl (snd (TryUmountAndFsck ie fsck ip)) = ip_sl ip"
proof -
  have f: "ip_am (fold (DoFsck ie) ms ip) = ip_am ip \<and> ip_sl (fold (DoFsck ie) ms ip) = ip_sl ip" for ms ip
    by (induction ms arbitrary: ip) simp_all
  have l: "ip_am (last_resort ie ip) = ip_am ip \<and> ip_sl (last_resort ie ip) = ip_sl ip" for ip
    by (auto simp: last_resort_def Let_def split: prod.split dest!: UmountPartitions_pair)
  show "ip_am (snd (TryUmountAndFsck ie fsck ip)) = ip_am ip" "ip_sl (snd (TryUmountAndFsck ie fsck ip)) = ip_sl ip"
    by (auto simp: TryUmountAndFsck_def f l split: prod.split option.split dest!: UmountPartitions_pair)
qed

lemma KillZramBackingDevice_fields [simp]:
  "ip_am (snd (KillZramBackingDevice ie ip)) = ip_am ip" "ip_sl (snd (KillZramBackingDevice ie ip)) = ip_sl ip"
proof -
  have u: "untouched (and_then (checked c1 e1) (and_then (checked c2 e2)
      (if b then (\<lambda>ie args ip. (Ok (), ip)) else and_then (checked c3 e3) (checked c4 e4))))" for b c1 e1 c2 e2 c3 e3 c4 e4
    by (auto intro!: untouched_and_then)
  show "ip_am (snd (KillZramBackingDevice ie ip)) = ip_am ip" "ip_sl (snd (KillZramBackingDevice ie ip)) = ip_sl ip"
    by (auto simp: KillZramBackingDevice_def Let_def sys_def u [THEN untouchedD(1)] u [THEN untouchedD(2)] split: option.split)
qed

section \<open>The shutdown\<close>

lemma prepare_service_length:
  "i < length (sl_services (ip_sl ip)) \<Longrightarrow>
   length (sl_services (ip_sl (snd (prepare_service ie i (f, ip))))) = length (sl_services (ip_sl ip))"
  by (simp add: prepare_service_def Let_def shutdown_critical_op.on_listed_length start_op.on_listed_length)

lemma prepare_service_keeps:
  assumes "env_ok ie" "i < length (sl_services (ip_sl ip))"
  shows "keeps_process ip (snd (prepare_service ie i (f, ip)))"
proof -
  note c = shutdown_critical_op.on_listed_keeps [OF assms(1)] and st = start_op.on_listed_keeps [OF assms, of "ie_lb ie"]
  have "keeps_process ip (snd (on_listed ie i (modify_op SetShutdownCritical) (snd (on_listed ie i (Start (ie_lb ie)) ip))))"
    using keeps_trans [OF st c] assms(2) by (simp add: start_op.on_listed_length)
  then show ?thesis using c [OF assms(2)] st by (simp add: prepare_service_def Let_def)
qed

lemma prepare_services_keeps:
  assumes "env_ok ie"
  shows "keeps_process ip (snd (prepare_services ie ip))"
proof -
  have "list_all (\<lambda>i. i < length (sl_services (ip_sl ip))) is \<Longrightarrow> keeps_process ip (snd (fold (prepare_service ie) is (f, ip)))" for "is" f
  proof (induction "is" arbitrary: f ip)
    case (Cons i ns)
    obtain f1 ip1 where p: "prepare_service ie i (f, ip) = (f1, ip1)" by fastforce
    have "keeps_process ip ip1" "length (sl_services (ip_sl ip1)) = length (sl_services (ip_sl ip))"
      using prepare_service_keeps [OF assms, of i ip f] prepare_service_length [of i ip ie f] Cons.prems p by simp_all
    then show ?case using Cons p keeps_trans by (simp del: snd_conv)
  qed simp
  then show ?thesis by (simp add: prepare_services_def list_all_iff)
qed

lemma shutdown_animation_keeps:
  assumes "env_ok ie"
  shows "keeps_process ip (shutdown_animation ie ip)"
proof -
  note n = named_operations_keep [OF assms] and a = start_and_mark_op.each_service_keeps [OF assms TrueI]
  have 1: "keeps_process ip (stop_named ie ''bootanim'' (sys_do ie c1 (sys_do ie c2 ip)))" for c1 c2
    by (rule keeps_before [OF n(2)]) simp_all
  have 2: "keeps_process ip (modify_named ie n1 SetShutdownCritical
      (modify_named ie n2 SetShutdownCritical (start_named ie n3 ip)))" for n1 n2 n3 ip
    by (intro keeps_trans [OF n(1) keeps_trans [OF n(3) n(3)]])
  show ?thesis
    using keeps_trans [OF 1 keeps_trans [OF a 2]] a by (simp add: shutdown_animation_def Let_def)
qed

lemma shutdown_vold_keeps: "env_ok ie \<Longrightarrow> keeps_process ip (shutdown_vold ie ip)"
  by (auto simp: shutdown_vold_def intro: keeps_before [OF named_operations_keep(2)])

lemma EnterShutdown_keeps: "env_ok ie \<Longrightarrow> keeps_process ip (EnterShutdown ie ip)"
  unfolding EnterShutdown_def by (rule keeps_before [OF unset_exec_op.each_service_keeps]) simp_all

lemma abort_userspace_keeps: "keeps_process ip (snd (abort_userspace r e ip))"
  by (simp add: abort_userspace_def keeps_same)

lemma log_survivors_fields [simp]:
  "ip_am (log_survivors ie h ss ip) = ip_am ip" "ip_sl (log_survivors ie h ss ip) = ip_sl ip"
  using untouched_loops(5) [where w = "\<lambda>l. WriteFile ''/metadata/userspacereboot/services.txt'' l"]
  by (simp_all only: log_survivors_def)

lemma resume_userspace_keeps:
  assumes "env_ok ie"
  shows "keeps_process ip (snd (resume_userspace ie were_enabled ip))"
proof -
  define go where "go ip = queue_event ie ''userspace-reboot-resume'' (LeaveShutdown (set_sl (ResetState (ip_sl ip)) ip))" for ip
  define ens where "ens ip = each_service ie (\<lambda>s. svc_name s \<in> set were_enabled) (Enable (ie_lb ie)) ip" for ip
  have r: "keeps_process ip (set_sl (RemoveServiceIf from_apex (ip_sl ip)) ip)" for ip
    by (rule keeps_sl) (rule RemoveServiceIf_listed)
  have e: "keeps_process ip (ens ip)" for ip
    unfolding ens_def by (rule enable_op.each_service_keeps [OF assms TrueI])
  have g: "keeps_process ip (go ip)" for ip
    unfolding go_def
    by (rule keeps_trans [OF keeps_sl keeps_before [OF queue_event_keeps]]) (auto simp: ResetState_def intro: listed_ok_static)
  have all: "keeps_process ip (go (ens (set_sl (RemoveServiceIf from_apex (ip_sl ip)) ip)))" for ip
    by (rule keeps_trans [OF r keeps_trans [OF e g]])
  obtain x ip1 where u: "UnmountAllApexes ie (sys_do ie SyncDisks ip) = (x, ip1)" by fastforce
  have f: "ip_am ip1 = ip_am ip" "ip_sl ip1 = ip_sl ip"
    using sys_calls_fields(5,6) [of ie "sys_do ie SyncDisks ip"] u by simp_all
  have "keeps_process ip1 (snd (resume_userspace ie were_enabled ip))"
    using u abort_userspace_keeps keeps_before [OF abort_userspace_keeps] keeps_before [OF all]
    by (cases x) (simp_all add: resume_userspace_def sys_def Let_def go_def ens_def keeps_same split: option.split)
  then show ?thesis using keeps_before [OF _ f] by blast
qed

context command_runner
begin

lemma stop_all_services_keeps:
  assumes "env_ok ie"
  shows "keeps_process ip (stop_all_services ie (run ie) timeout stop_first ip)"
proof -
  note s = StopServicesAndLogViolations_keeps [OF assms] and k = StopServices_keeps [OF assms]
  have r: "keeps_process ip (reap_outstanding ie (run ie) (SubcontextTerminate ie sc ip))" for sc ip
    by (rule keeps_before [OF reap_outstanding_keeps [OF assms]]) simp_all
  have "keeps_process ip (StopServices ie (run ie) kDebuggingServices False False (shutdown_vold ie
      (reap_outstanding ie (run ie) (SubcontextTerminate ie (bc_subcontext (ie_cfg ie)) ip))))" for ip
    by (rule keeps_trans [OF r keeps_trans [OF shutdown_vold_keeps [OF assms] k]])
  note once = keeps_trans [OF s this]
  show ?thesis using once keeps_trans [OF s once] by (simp add: stop_all_services_def Let_def)
qed

lemma DoReboot_keeps:
  assumes "env_ok ie"
  shows "keeps_process ip (DoReboot ie (run ie) cmd reason target fsck ip)"
proof -
  obtain x ip1 where s: "sys ie SemInit ip = (x, ip1)" by fastforce
  then have f: "ip_am ip1 = ip_am ip" "ip_sl ip1 = ip_sl ip" using process_fields(7,8) [of ie SemInit ip] by simp_all
  define ip2 where "ip2 = PersistRebootReason ie (canonical_reason (ie_lb ie) reason) True ip1"
  obtain first ip3 where p: "prepare_services ie ip2 = (first, ip3)" by fastforce
  define ip4 where "ip4 = (if cmd = RB_POWEROFF \<or> cmd = RB_THERMOFF then TurnOffBacklight ie ip3 else ip3)"
  define ip5 where "ip5 = stop_all_services ie (run ie) (shutdown_timeout ie cmd ip) first (shutdown_animation ie ip4)"
  have 2: "ip_am ip2 = ip_am ip" "ip_sl ip2 = ip_sl ip" by (simp_all add: ip2_def f)
  have 3: "keeps_process ip2 ip3" using prepare_services_keeps [OF assms, of ip2] p by simp
  have 4: "keeps_process ip3 ip4" using named_operations_keep(1) [OF assms] by (simp add: ip4_def TurnOffBacklight_def)
  have 5: "keeps_process ip4 ip5"
    unfolding ip5_def by (rule keeps_trans [OF shutdown_animation_keeps [OF assms] stop_all_services_keeps [OF assms]])
  have "keeps_process ip ip5" by (rule keeps_before [OF keeps_trans [OF 3 keeps_trans [OF 4 5]] 2])
  then have k: "keeps_process ip (RebootSystem ie cmd target (sys_do ie SyncDisks (snd (TryUmountAndFsck ie fsck
      (snd (UnmountAllApexes ie (snd (KillZramBackingDevice ie (sys_do ie SyncDisks ip5)))))))))"
    by (rule keeps_after) simp_all
  show ?thesis
  proof (cases "x = None \<and> IsDataMounted ie ip2")
    case True
    then show ?thesis
      using k s p by (simp add: DoReboot_def Let_def ip2_def [symmetric] ip4_def [symmetric] ip5_def [symmetric])
  next
    case False
    then show ?thesis
      using s f 2 by (auto simp: DoReboot_def Let_def ip2_def [symmetric] keeps_same split: option.split)
  qed
qed

lemma stop_debuggers_keeps:
  assumes "env_ok ie"
  shows "keeps_process ip (snd (stop_debuggers ie (run ie) w were_enabled ip))"
proof -
  obtain r ip1 where s: "StopServicesAndLogViolations ie (run ie) (GetPostDataDebuggingServices (ip_sl ip)) w False ip = (r, ip1)" by fastforce
  have "keeps_process ip ip1"
    using StopServicesAndLogViolations_keeps [OF assms, of ip "GetPostDataDebuggingServices (ip_sl ip)" w False] s by simp
  then show ?thesis
    using s keeps_trans [OF _ resume_userspace_keeps [OF assms]] keeps_trans [OF _ keeps_before [OF abort_userspace_keeps]]
    by (simp add: stop_debuggers_def Let_def)
qed

lemma stop_post_data_keeps:
  assumes "env_ok ie"
  shows "keeps_process ip (snd (stop_post_data ie (run ie) tw kw first were_enabled ip))"
proof -
  obtain r ip1 where s: "StopServicesAndLogViolations ie (run ie) first kw False
      (snd (StopServicesAndLogViolations ie (run ie) first tw True ip)) = (r, ip1)" by fastforce
  have k: "keeps_process ip ip1"
    using keeps_trans [OF StopServicesAndLogViolations_keeps [OF assms] StopServicesAndLogViolations_keeps [OF assms]] s
    by (metis snd_conv)
  obtain z ip2 where z: "KillZramBackingDevice ie ip1 = (z, ip2)" by fastforce
  obtain v ip3 where v: "CallVdc ''volume'' ''reset'' ie ip2 = (v, ip3)" by fastforce
  have "keeps_process ip ip2"
    using keeps_after [OF k] KillZramBackingDevice_fields [of ie ip1] z by simp
  moreover from this have "keeps_process ip ip3"
    using keeps_after [of ip ip2 ip3] sys_calls_fields(3,4) [of "''volume''" "''reset''" ie ip2] v by simp
  ultimately show ?thesis
    using s z v k keeps_trans [OF _ stop_debuggers_keeps [OF assms]] keeps_trans [OF _ abort_userspace_keeps]
      keeps_trans [OF k keeps_before [OF abort_userspace_keeps]]
    by (cases z; cases v) (simp_all add: stop_post_data_def)
qed

lemma DoUserspaceReboot_keeps:
  assumes "env_ok ie"
  shows "keeps_process ip (snd (DoUserspaceReboot ie (run ie) ip))"
proof -
  obtain x ip1 where s: "sys ie (SetProp ''sys.init.userspace_reboot.in_progress'' ''1'') ip = (x, ip1)" by fastforce
  have f: "ip_am ip1 = ip_am ip" "ip_sl ip1 = ip_sl ip"
    using process_fields(7,8) [of ie "SetProp ''sys.init.userspace_reboot.in_progress'' ''1''" ip] s by simp_all
  obtain y ip2 where p: "sys ie (SetProp ''sys.powerctl'' []) (EnterShutdown ie ip1) = (y, ip2)" by fastforce
  have "keeps_process ip1 ip2"
    using keeps_after [OF EnterShutdown_keeps [OF assms]] process_fields(7,8) [of ie "SetProp ''sys.powerctl'' []" "EnterShutdown ie ip1"] p
    by simp
  then have k: "keeps_process ip ip2" using keeps_before [OF _ f] by blast
  have "keeps_process ip (snd (stop_post_data ie (run ie) tw kw first were_enabled (sys_do ie SyncDisks ip2)))" for tw kw first were_enabled
    by (rule keeps_trans [OF k keeps_before [OF stop_post_data_keeps [OF assms]]]) simp_all
  then show ?thesis
    using s p keeps_trans [OF k abort_userspace_keeps] keeps_trans [OF keeps_same [OF f] abort_userspace_keeps]
    by (cases x; cases y) (simp_all add: DoUserspaceReboot_def Let_def)
qed

end

section \<open>Which services are stopped first\<close>

definition stops_first :: "Service \<Rightarrow> bool" where
  "stops_first s = (svc_name s \<notin> set kDebuggingServices \<and> svc_name s \<noteq> ''watchdogd'' \<and> \<not> IsShutdownCritical s)"

lemma on_listed_other:
  "j \<noteq> i \<Longrightarrow> sl_services (ip_sl (snd (on_listed ie i op ip))) ! j = sl_services (ip_sl ip) ! j"
  by (simp add: on_listed_def on_service_def split_beta)

lemma prepare_service_spec:
  "fst (prepare_service ie i (f, ip)) = f @ (if stops_first (sl_services (ip_sl ip) ! i) then [svc_name (sl_services (ip_sl ip) ! i)] else [])"
  "j \<noteq> i \<or> stops_first (sl_services (ip_sl ip) ! i) \<Longrightarrow>
     sl_services (ip_sl (snd (prepare_service ie i (f, ip)))) ! j = sl_services (ip_sl ip) ! j"
  by (auto simp: prepare_service_def stops_first_def Let_def on_listed_other)

lemma prepare_fold_spec:
  "distinct is \<Longrightarrow> fold (prepare_service ie) is (f, ip) = (f', ip') \<Longrightarrow>
   f' = f @ map svc_name (filter stops_first (map ((!) (sl_services (ip_sl ip))) is)) \<and>
   (\<forall>j. j \<notin> set is \<or> stops_first (sl_services (ip_sl ip) ! j) \<longrightarrow> sl_services (ip_sl ip') ! j = sl_services (ip_sl ip) ! j)"
proof (induction "is" arbitrary: f ip)
  case (Cons i ns)
  define f1 ip1 where "f1 = fst (prepare_service ie i (f, ip))" and "ip1 = snd (prepare_service ie i (f, ip))"
  then have p: "prepare_service ie i (f, ip) = (f1, ip1)" by simp
  note other = prepare_service_spec(2) [of _ i ip ie f, folded ip1_def]
  have "f' = f1 @ map svc_name (filter stops_first (map ((!) (sl_services (ip_sl ip1))) ns))"
    and rest: "\<forall>j. j \<notin> set ns \<or> stops_first (sl_services (ip_sl ip1) ! j) \<longrightarrow> sl_services (ip_sl ip') ! j = sl_services (ip_sl ip1) ! j"
    using Cons.IH [of f1 ip1] Cons.prems p by simp_all
  moreover have "map ((!) (sl_services (ip_sl ip1))) ns = map ((!) (sl_services (ip_sl ip))) ns"
    using Cons.prems(1) by (intro map_cong refl other) auto
  ultimately have "f' = f @ map svc_name (filter stops_first (map ((!) (sl_services (ip_sl ip))) (i # ns)))"
    using prepare_service_spec(1) [of ie i f ip, folded f1_def] by simp
  moreover have "sl_services (ip_sl ip') ! j = sl_services (ip_sl ip) ! j"
    if "j \<notin> set (i # ns) \<or> stops_first (sl_services (ip_sl ip) ! j)" for j
  proof (cases "j = i")
    case True
    then show ?thesis using that other [of i] rest Cons.prems(1) by auto
  next
    case False
    then show ?thesis using that other [of j] rest by auto
  qed
  ultimately show ?case by blast
qed simp

section \<open>Taking over the queue\<close>

text \<open>The fields of the process no operation on services touches.\<close>

definition control_fields :: "init_process \<Rightarrow> bool \<times> bool \<times> (string \<times> string) option \<times> (string \<times> closure) list" where
  "control_fields ip = (shutting_down ip, sending_messages ip, waiting_for_prop ip, ip_closures ip)"

lemma control_fields_simps [simp]:
  "control_fields (record_effect e ip) = control_fields ip" "control_fields (set_am am ip) = control_fields ip"
  "control_fields (set_sl sl ip) = control_fields ip" "control_fields (note_policy evs ip) = control_fields ip"
  "control_fields (trigger_shutdown command ip) = control_fields ip" "control_fields (sys_do ie c ip) = control_fields ip"
  by (simp_all add: control_fields_def record_effect_def set_am_def set_sl_def set_rc_world_def note_policy_def trigger_shutdown_def
      sys_do_def sys_def)

lemma absorb_control [simp]: "control_fields (absorb effs ip) = control_fields ip"
proof -
  have "control_fields (absorb_one e ip) = control_fields ip" for e ip by (cases e) (simp_all add: absorb_one_def)
  then show ?thesis unfolding absorb_def by (induction effs arbitrary: ip) simp_all
qed

lemma on_listed_control [simp]: "control_fields (snd (on_listed ie i op ip)) = control_fields ip"
  by (simp add: on_listed_def split_beta)

lemma each_index_control [simp]: "control_fields (each_index ie P op is ip) = control_fields ip"
  by (induction "is" arbitrary: ip) simp_all

lemma each_service_control [simp]: "control_fields (each_service ie P op ip) = control_fields ip"
  by (simp add: each_service_def)

lemma queue_event_control [simp]: "control_fields (queue_event ie t ip) = control_fields ip"
  by (simp add: queue_event_def split_beta)

lemma EnterShutdown_control:
  "control_fields (EnterShutdown ie ip) = (True, sending_messages ip, None, ip_closures ip)"
  by (simp add: EnterShutdown_def) (simp add: control_fields_def ResetWaitForProp_def)

lemma on_listed_am [simp]: "ip_am (snd (on_listed ie i op ip)) = ip_am ip"
  by (simp add: on_listed_def split_beta)

lemma each_index_am [simp]: "ip_am (each_index ie P op is ip) = ip_am ip"
  by (induction "is" arbitrary: ip) simp_all

lemma EnterShutdown_am [simp]: "ip_am (EnterShutdown ie ip) = ip_am ip"
  by (simp add: EnterShutdown_def each_service_def)

abbreviation exec_running :: "init_process \<Rightarrow> bool" where
  "exec_running ip \<equiv> is_exec_service_running (sl_static (ip_sl ip))"

lemma UnSetExec_running: "\<not> exec_running (snd (on_listed ie i (\<lambda>os. UnSetExec) ip))"
  by (simp add: on_listed_def on_service_def UnSetExec_def)

lemma each_UnSetExec: "is \<noteq> [] \<or> \<not> exec_running ip \<Longrightarrow> \<not> exec_running (each_index ie (\<lambda>_. True) (\<lambda>os. UnSetExec) is ip)"
proof (induction "is" arbitrary: ip)
  case (Cons i ns)
  then show ?case using UnSetExec_running by simp
qed simp

lemma EnterShutdown_unblocks:
  assumes "sl_services (ip_sl ip) = [] \<longrightarrow> \<not> exec_running ip"
  shows "\<not> exec_running (EnterShutdown ie ip)"
  using assms each_UnSetExec [of "[0..<length (sl_services (ip_sl ip))]" "ResetWaitForProp (ip\<lparr>shutting_down := True\<rparr>)" ie]
  by (simp add: EnterShutdown_def each_service_def)

lemma QueueBuiltin_events:
  "event_queue (QueueBuiltinAction f n am) = event_queue am @ [BuiltinAction (am_next am)]"
  "am_actions (QueueBuiltinAction f n am) =
     am_actions am @ [(am_next am, AddBuiltinCommand f [n] 0 (new_action True None ''<Builtin Action>'' 0 n []))]"
  "current_executing_actions (QueueBuiltinAction f n am) = current_executing_actions am"
  by (simp_all add: QueueBuiltinAction_def AddAction_def push_event_def Let_def)

lemma queue_event_am:
  "ip_am (queue_event ie t ip) =
     (if fst (innit_gate IsEventAllowed (ie_log ie) (ie_policy ie) t)
      then (ip_am ip)\<lparr>event_queue := event_queue (ip_am ip) @ [EventTrigger t]\<rparr> else ip_am ip)"
  "ip_sl (queue_event ie t ip) = ip_sl ip"
  by (auto simp: queue_event_def QueueEventTrigger_def push_event_def split: prod.split bool.split)

definition shutdown_events :: "init_env \<Rightarrow> Event list" where
  "shutdown_events ie =
     (if fst (innit_gate IsEventAllowed (ie_log ie) (ie_policy ie) ''shutdown'') then [EventTrigger ''shutdown''] else [])"

text \<open>What a process looks like once the shutdown has taken over, with the handler queued last.\<close>

definition taken_over :: "init_env \<Rightarrow> closure \<Rightarrow> init_process \<Rightarrow> bool" where
  "taken_over ie handler ip =
     (shutting_down ip \<and> \<not> sending_messages ip \<and> \<not> MightBeWaiting ip \<and> \<not> exec_running ip \<and>
      current_executing_actions (ip_am ip) = [] \<and>
      am_actions (ip_am ip) \<noteq> [] \<and>
      (case last (am_actions (ip_am ip)) of (i, a) \<Rightarrow>
         event_queue (ip_am ip) = shutdown_events ie @ [BuiltinAction i] \<and>
         act_subcontext a = None \<and> event_trigger a = ''shutdown_done'' \<and>
         map (\<lambda>c. (map_of (ip_closures ip) (cmd_func c), cmd_args c)) (commands a) = [(Some handler, [''shutdown_done''])]))"

lemma begin_shutdown_takes_over:
  assumes "sl_services (ip_sl ip) = [] \<longrightarrow> \<not> exec_running ip"
  shows "taken_over ie (ShutdownHandler cmd command target fsck) (begin_shutdown ie cmd command target fsck ip)"
proof -
  define ip1 where "ip1 = queue_event ie ''shutdown'' (set_am (ClearQueue (ip_am ip)) (ip\<lparr>sending_messages := False\<rparr>))"
  define ip2 where "ip2 = queue_closure (ShutdownHandler cmd command target fsck) ''shutdown_done'' ip1"
  have b: "begin_shutdown ie cmd command target fsck ip = EnterShutdown ie ip2"
    by (simp add: begin_shutdown_def ip1_def ip2_def)
  have "control_fields ip1 = (shutting_down ip, False, waiting_for_prop ip, ip_closures ip)"
    by (simp add: ip1_def) (simp add: control_fields_def)
  then have s: "\<not> sending_messages ip1" by (simp add: control_fields_def)
  have c: "sending_messages ip2 = sending_messages ip1" "\<exists>sym. ip_closures ip2 = (sym, ShutdownHandler cmd command target fsck) # ip_closures ip1 \<and>
      ip_am ip2 = QueueBuiltinAction sym ''shutdown_done'' (ip_am ip1)" "ip_sl ip2 = ip_sl ip1"
    by (simp_all add: ip2_def queue_closure_def Let_def set_am_def set_rc_world_def ip_am_def ip_sl_def)
  have "ip_sl ip1 = ip_sl ip" "current_executing_actions (ip_am ip1) = []" "event_queue (ip_am ip1) = shutdown_events ie"
    by (simp_all add: ip1_def queue_event_am ClearQueue_def shutdown_events_def)
  then show ?thesis
    using c s b EnterShutdown_control [of ie ip2] EnterShutdown_unblocks [of ip2 ie] assms
    by (auto simp: taken_over_def control_fields_def MightBeWaiting_def QueueBuiltin_events AddBuiltinCommand_def new_action_def)
qed

lemma TurnOffBacklight_runs:
  assumes "sl_services (ip_sl ip) = [] \<longrightarrow> \<not> exec_running ip"
  shows "sl_services (ip_sl (TurnOffBacklight ie ip)) = [] \<longrightarrow> \<not> exec_running (TurnOffBacklight ie ip)"
proof (cases "FindService ''blank_screen'' svc_name (ip_sl ip)")
  case None
  then show ?thesis using assms by (simp add: TurnOffBacklight_def start_named_def)
next
  case (Some i)
  have "i < length (sl_services (ip_sl ip))" using Some by (rule FindService_length)
  then show ?thesis
    using Some start_op.on_listed_length [of i ip ie "ie_lb ie"] by (auto simp: TurnOffBacklight_def start_named_def)
qed

lemma parse_reboot_fields:
  "ip_am (snd (parse_reboot ie ps ip)) = ip_am ip" "ip_sl (snd (parse_reboot ie ps ip)) = ip_sl ip"
  by (simp_all add: parse_reboot_def notify_bootloader_def sys_def Let_def split: option.split prod.split)

section \<open>Mounts\<close>

definition to_umount :: "libbase \<Rightarrow> mount_entry \<Rightarrow> bool" where
  "to_umount lb m =
     (StartsWith lb (mnt_fsname m) ''/dev/block'' \<and> mnt_rw m \<and> mnt_dir m \<notin> {''/'', ''/system'', ''/vendor'', ''/oem''})"

definition on_data :: "libbase \<Rightarrow> mount_entry \<Rightarrow> bool" where
  "on_data lb m = (\<not> (StartsWith lb (mnt_fsname m) ''/dev/block'' \<and> mnt_rw m) \<and> StartsWith lb (mnt_fsname m) ''/data/'')"

lemma sort_mounts_spec:
  "sort_mounts lb ms block emulated = (rev (filter (to_umount lb) ms) @ block, rev (filter (on_data lb) ms) @ emulated)"
  by (induction ms arbitrary: block emulated) (auto simp: to_umount_def on_data_def)

section \<open>Resuming\<close>

lemma Start_from_apex: "from_apex (fst (snd (Start lb os s st))) = from_apex s"
  by (simp add: Start_def start_child_def Let_def set_flag_def clear_flag_def split: sum.split)

lemma each_index_all:
  assumes "\<And>os s st. Q s \<Longrightarrow> Q (fst (snd (op os s st)))"
  shows "list_all Q (sl_services (ip_sl ip)) \<Longrightarrow> list_all (\<lambda>i. i < length (sl_services (ip_sl ip))) is \<Longrightarrow>
    list_all Q (sl_services (ip_sl (each_index ie P op is ip)))"
proof (induction "is" arbitrary: ip)
  case (Cons i ns)
  define ip1 where "ip1 = (if P (sl_services (ip_sl ip) ! i) then snd (on_listed ie i op ip) else ip)"
  have s: "sl_services (ip_sl (snd (on_listed ie i op ip))) =
      (sl_services (ip_sl ip))[i := fst (snd (op (os_of ie ip) (sl_services (ip_sl ip) ! i) (sl_static (ip_sl ip))))]"
    by (simp add: on_listed_def on_service_def split_beta)
  have "Q (sl_services (ip_sl ip) ! i)" using Cons.prems by (simp add: list_all_iff)
  then have "list_all Q (sl_services (ip_sl ip1))"
    using Cons.prems(1) assms by (auto simp: ip1_def s list_all_iff dest!: subsetD [OF set_update_subset_insert])
  moreover have "length (sl_services (ip_sl ip1)) = length (sl_services (ip_sl ip))" by (simp add: ip1_def s)
  ultimately show ?case using Cons.IH [of ip1] Cons.prems(2) by (simp add: ip1_def [symmetric])
qed simp

lemma resume_userspace_outcome:
  assumes "resume_userspace ie were_enabled ip = (Inr u, ip')"
  shows "\<not> shutting_down ip'" "sending_messages ip'" "list_all (\<lambda>s. \<not> from_apex s) (sl_services (ip_sl ip'))"
    "fst (innit_gate IsEventAllowed (ie_log ie) (ie_policy ie) ''userspace-reboot-resume'') \<Longrightarrow>
       event_queue (ip_am ip') \<noteq> [] \<and> last (event_queue (ip_am ip')) = EventTrigger ''userspace-reboot-resume''"
proof -
  obtain ip0 where r: "ip' = queue_event ie ''userspace-reboot-resume'' (LeaveShutdown (set_sl (ResetState (ip_sl ip0)) ip0))"
    "\<exists>ip1. ip0 = each_service ie (\<lambda>s. svc_name s \<in> set were_enabled) (Enable (ie_lb ie))
       (set_sl (RemoveServiceIf from_apex (ip_sl ip1)) ip1)"
    using assms by (auto simp: resume_userspace_def abort_userspace_def Let_def split: sum.splits prod.splits option.splits)
  then obtain ip1 where e: "ip0 = each_service ie (\<lambda>s. svc_name s \<in> set were_enabled) (Enable (ie_lb ie))
       (set_sl (RemoveServiceIf from_apex (ip_sl ip1)) ip1)" by blast
  have "control_fields ip' = (False, True, waiting_for_prop ip0, ip_closures ip0)"
    by (simp add: r(1)) (simp add: control_fields_def LeaveShutdown_def set_sl_def set_rc_world_def)
  then show "\<not> shutting_down ip'" "sending_messages ip'" by (simp_all add: control_fields_def)
  have a: "\<not> from_apex (fst (snd (Enable lb os s st)))" if "\<not> from_apex s" for lb os s st
    using that by (simp add: Enable_def Let_def Start_from_apex) (simp add: clear_flag_def)
  have "list_all (\<lambda>s. \<not> from_apex s) (sl_services (ip_sl ip0))"
    unfolding e each_service_def
    by (rule each_index_all) (simp_all add: a RemoveServiceIf_def list_all_iff)
  then show "list_all (\<lambda>s. \<not> from_apex s) (sl_services (ip_sl ip'))" by (simp add: r(1) queue_event_am ResetState_def)
  show "fst (innit_gate IsEventAllowed (ie_log ie) (ie_policy ie) ''userspace-reboot-resume'') \<Longrightarrow>
      event_queue (ip_am ip') \<noteq> [] \<and> last (event_queue (ip_am ip')) = EventTrigger ''userspace-reboot-resume''"
    by (simp add: r(1) queue_event_am)
qed

lemma aborted:
  "abort_userspace sub e ip = (r, ip') \<Longrightarrow>
   r = Err e \<and> CheckShutdown ip' = Some (''reboot,userspace_failed,shutdown_aborted,'' @ sub) \<and> sending_messages ip'"
  by (auto simp: abort_userspace_def CheckShutdown_def LeaveShutdown_def trigger_shutdown_def)

text \<open>An outcome of a userspace reboot: aborted with a reason, or resumed.\<close>

definition aborts :: "init_error \<Rightarrow> init_process \<Rightarrow> bool" where
  "aborts e ip' = (\<exists>sub ip0. (Err e, ip') = abort_userspace sub e ip0 \<and> sub \<noteq> [])"

definition userspace_outcome :: "init_env \<Rightarrow> unit result \<times> init_process \<Rightarrow> bool" where
  "userspace_outcome ie o' =
     (case o' of (Inl e, ip') \<Rightarrow> aborts e ip' | (Inr u, ip') \<Rightarrow> \<exists>were_enabled ip0. resume_userspace ie were_enabled ip0 = (Inr u, ip'))"

lemma abort_outcome: "sub \<noteq> [] \<Longrightarrow> userspace_outcome ie (abort_userspace sub e ip)"
  by (auto simp: userspace_outcome_def aborts_def abort_userspace_def)

lemma resume_outcome: "userspace_outcome ie (resume_userspace ie were_enabled ip)"
proof (cases "resume_userspace ie were_enabled ip")
  case (Pair r ip')
  show ?thesis
  proof (cases r)
    case (Inl e)
    then obtain sub e' ip0 where "resume_userspace ie were_enabled ip = abort_userspace sub e' ip0" "sub \<noteq> []"
      using Pair by (auto simp: resume_userspace_def Let_def split: sum.splits prod.splits option.splits) (metis list.distinct(1))+
    then show ?thesis by (simp add: abort_outcome)
  next
    case (Inr u)
    then show ?thesis using Pair by (auto simp: userspace_outcome_def)
  qed
qed

lemma DoUserspaceReboot_outcome: "userspace_outcome ie (DoUserspaceReboot ie run ip)"
proof -
  have d: "userspace_outcome ie (stop_debuggers ie run w we ip)" for w we ip
    by (simp add: stop_debuggers_def Let_def abort_outcome resume_outcome split: prod.split)
  have p: "userspace_outcome ie (stop_post_data ie run tw kw sf we ip)" for tw kw sf we ip
    by (simp add: stop_post_data_def abort_outcome d split: prod.split sum.split)
  show ?thesis by (simp add: DoUserspaceReboot_def Let_def abort_outcome p split: prod.split option.split)
qed

section \<open>Properties\<close>

text \<open>
  C7: a command to shut down or reboot takes over at once. Whatever was queued or executing and
  whatever init was waiting for, afterwards nothing blocks the action manager, and its queue holds
  the \<^verbatim>\<open>shutdown\<close> event (unless the policy denies it) and behind it the handler that reboots, with
  the command, target and file system check the message asks for.
\<close>

theorem shutdown_takes_over:
  assumes "sl_services (ip_sl ip) = [] \<longrightarrow> \<not> exec_running ip"
    and "cmd_params = Split (ie_lb ie) command '',''"
    and "param = (if 2 \<le> length cmd_params then cmd_params ! 1 else [])"
  shows "(hd cmd_params = ''shutdown'' \<longrightarrow>
      taken_over ie (ShutdownHandler (if param = ''thermal'' then RB_THERMOFF else RB_POWEROFF) command [] (param = ''userrequested''))
        (HandlePowerctlMessage ie command ip)) \<and>
    (hd cmd_params = ''reboot'' \<and> param \<noteq> ''userspace'' \<and> fst (parse_reboot ie cmd_params ip) = Some target \<longrightarrow>
      taken_over ie (ShutdownHandler RB_RESTART2 command target False) (HandlePowerctlMessage ie command ip))"
proof (intro conjI impI)
  assume "hd cmd_params = ''shutdown''"
  then show "taken_over ie (ShutdownHandler (if param = ''thermal'' then RB_THERMOFF else RB_POWEROFF) command [] (param = ''userrequested''))
        (HandlePowerctlMessage ie command ip)"
    using begin_shutdown_takes_over assms(1) TurnOffBacklight_runs [OF assms(1)] assms(3)
    by (simp add: HandlePowerctlMessage_def Let_def assms(2) [symmetric])
next
  assume r: "hd cmd_params = ''reboot'' \<and> param \<noteq> ''userspace'' \<and> fst (parse_reboot ie cmd_params ip) = Some target"
  obtain t ip1 where p: "parse_reboot ie cmd_params ip = (t, ip1)" by fastforce
  then have "ip_sl ip1 = ip_sl ip" using parse_reboot_fields(2) [of ie cmd_params ip] by simp
  then show "taken_over ie (ShutdownHandler RB_RESTART2 command target False) (HandlePowerctlMessage ie command ip)"
    using r p begin_shutdown_takes_over [of ip1] assms(1,3) by (simp add: HandlePowerctlMessage_def Let_def assms(2) [symmetric])
qed


text \<open>
  The services that are stopped first are, in their order, the ones that are not needed to the
  end: all but the debugging services, the watchdog and the ones marked critical. Preparing for the
  shutdown does not touch any of them.
\<close>

theorem stopped_first:
  assumes "prepare_services ie ip = (stop_first, ip')"
  shows "stop_first = map svc_name (filter stops_first (sl_services (ip_sl ip))) \<and>
    (\<forall>i < length (sl_services (ip_sl ip)). stops_first (sl_services (ip_sl ip) ! i) \<longrightarrow>
       sl_services (ip_sl ip') ! i = sl_services (ip_sl ip) ! i)"
  using prepare_fold_spec [of "[0..<length (sl_services (ip_sl ip))]" ie "[]" ip stop_first ip'] assms
  by (simp add: prepare_services_def map_nth)

text \<open>
  What is unmounted before the reboot. The partitions are the writable block devices, the
  root and the read only system partitions excepted, and before them what is mounted from below
  \<^verbatim>\<open>/data\<close>; both in the reverse of the order in which they were mounted.
\<close>

theorem umount_order:
  "FindPartitionsToUmount ie ip =
     map_option (\<lambda>ms. (rev (filter (to_umount (ie_lb ie)) ms), rev (filter (on_data (ie_lb ie)) ms))) (mounts_now ie ip)"
  by (simp add: FindPartitionsToUmount_def sort_mounts_spec split: option.split)

subsection \<open>Witnesses\<close>

lemma sample_process_idle: "sl_services (ip_sl sample_process) = []" "\<not> exec_running sample_process"
  by (simp_all add: sample_process_def boot_state_def ip_sl_def empty_services_def)

theorem shutdown_takes_over_witness:
  "taken_over sample_env (ShutdownHandler RB_POWEROFF ''shutdown,userrequested'' [] True)
     (HandlePowerctlMessage sample_env ''shutdown,userrequested'' sample_process)"
proof -
  have "Split (ie_lb sample_env) ''shutdown,userrequested'' '','' = [''shutdown'', ''userrequested'']"
    by (simp add: sample_env_def ref_libbase_def)
  then show ?thesis
    using shutdown_takes_over [of sample_process "[''shutdown'', ''userrequested'']" sample_env "''shutdown,userrequested''" "''userrequested''"]
      sample_process_idle by simp
qed

definition resuming_env :: init_env where
  "resuming_env =
     sample_env\<lparr>ie_rc := sample_rc_env,
       ie_files := (\<lambda>p. if p = ''/sys/block/zram0/initstate'' then Some \<lparr>file_mode = None, file_content = Some (''0'' @ [LF])\<rparr> else None)\<rparr>"

lemma no_services_steps:
  assumes "sl_services (ip_sl ip) = []"
  shows "each_service ie P op ip = ip" "shutdown_positions (ip_sl ip) = []" "still_running ss (ip_sl ip) = 0"
    "GetPostDataDebuggingServices (ip_sl ip) = []" "services_in_shutdown_order (ip_sl ip) = []"
  using assms
  by (simp_all add: each_service_def shutdown_positions_def still_running_def GetPostDataDebuggingServices_def
      services_in_shutdown_order_def)

lemma resuming_sys: "sys resuming_env c ip = (None, sys_do resuming_env c ip)"
  "ie_files resuming_env ''/sys/block/zram0/initstate'' = Some \<lparr>file_mode = None, file_content = Some (''0'' @ [LF])\<rparr>"
  "se_zombies (ie_shutdown resuming_env) k = []" "se_polls (ie_shutdown resuming_env) k = []"
  by (simp_all add: sys_def sys_do_def resuming_env_def sample_env_def sample_shutdown_def)

lemma resuming_stop:
  assumes "sl_services (ip_sl ip) = []"
  shows "StopServicesAndLogViolations resuming_env run ss w t ip = (0, ip)"
proof -
  have "StopServices resuming_env run ss w t ip = ip"
    using assms
    by (simp add: StopServices_def no_services_steps(2) listed_pids_def reap_outstanding_def resuming_sys(3,4))
  then show ?thesis using assms by (simp add: StopServicesAndLogViolations_def no_services_steps)
qed

lemma resuming_programs: "run_program argv resuming_env ip = (Ok (), sys_do resuming_env (RunProgram argv) ip)"
  by (simp add: run_program_def resuming_sys(1))

lemma resuming_resumes: "\<exists>ip'. resume_userspace resuming_env we ip = (Inr (), ip')"
  by (simp add: resume_userspace_def UnmountAllApexes_def resuming_programs resuming_sys(1) Let_def)

lemma resuming_stops_debuggers:
  "sl_services (ip_sl ip) = [] \<Longrightarrow> \<exists>ip'. stop_debuggers resuming_env run w we ip = (Inr (), ip')"
  using resuming_resumes by (simp add: stop_debuggers_def Let_def resuming_stop)

lemma resuming_stops_post_data:
  assumes "sl_services (ip_sl ip) = []"
  shows "\<exists>ip'. stop_post_data resuming_env run tw kw sf we ip = (Inr (), ip')"
proof -
  have z: "KillZramBackingDevice resuming_env ip = (Ok (), ip)"
    by (simp add: KillZramBackingDevice_def zram_file_def resuming_sys(2))
  show ?thesis
    using assms resuming_stops_debuggers
    by (simp add: stop_post_data_def resuming_stop z CallVdc_def resuming_programs)
qed


definition shutdown_list :: ServiceList where
  "shutdown_list =
     \<lparr>sl_services = [sample_service\<lparr>svc_name := ''netd''\<rparr>, logd], delayed_service_names = [], sl_static = sample_static\<rparr>"

theorem stopped_first_witness:
  "fst (prepare_services sample_env (set_sl shutdown_list sample_process)) = [''netd'']"
proof -
  obtain stop_first ip' where p: "prepare_services sample_env (set_sl shutdown_list sample_process) = (stop_first, ip')" by fastforce
  have "stops_first (sample_service\<lparr>svc_name := ''netd''\<rparr>)" "\<not> stops_first logd"
    by (simp_all add: stops_first_def kDebuggingServices_def IsShutdownCritical_def has_def sample_service_def logd_def new_service_def)
  then show ?thesis using stopped_first [OF p] p by (simp add: shutdown_list_def)
qed

end
