(* ===== verification/Security.thy ===== *)
theory Security
  imports Builtin_Safety
begin

text \<open>
  The options of the kernel that init hardens at boot (\<^verbatim>\<open>init/security.cpp\<close>). They run as actions of
  their own.
\<close>

section \<open>The highest value\<close>

text \<open>
  The loop: the values written, and whether one was recorded. \<open>recorded v\<close> is what reads back
  after \<open>v\<close> was written, \<open>None\<close> when the option cannot be opened for writing.
\<close>

function try_values :: "(int \<Rightarrow> string option) \<Rightarrow> int \<Rightarrow> int \<Rightarrow> int list \<times> bool" where
  "try_values recorded mn current =
     (if current < mn then ([], False)
      else
        (case recorded current of
           None \<Rightarrow> ([], False)
         | Some str_rec \<Rightarrow>
             if to_string current = str_rec then ([current], True)
             else (case try_values recorded mn (current - 1) of (ws, r) \<Rightarrow> (current # ws, r))))"
  by pat_completeness auto

termination
  by (relation "measure (\<lambda>(recorded, mn, current). nat (current - mn + 1))") auto

declare try_values.simps [simp del]

definition SetHighestAvailableOptionValue :: "string \<Rightarrow> int \<Rightarrow> int \<Rightarrow> init_env \<Rightarrow> init_process \<Rightarrow> bool \<times> init_process" where
  "SetHighestAvailableOptionValue path mn mx ie ip =
     (if \<not> me_readable (ie_machine ie) path then (False, ip)
      else
        (case try_values (me_recorded (ie_machine ie) path) mn mx of
           (ws, r) \<Rightarrow> (r, fold (\<lambda>v. sys_do ie (WriteFile path (to_string v @ [LF]))) ws ip)))"

definition MMAP_RND_PATH :: string where "MMAP_RND_PATH = ''/proc/sys/vm/mmap_rnd_bits''"
definition MMAP_RND_COMPAT_PATH :: string where "MMAP_RND_COMPAT_PATH = ''/proc/sys/vm/mmap_rnd_compat_bits''"

definition SetMmapRndBitsMin :: "int \<Rightarrow> int \<Rightarrow> bool \<Rightarrow> init_env \<Rightarrow> init_process \<Rightarrow> bool \<times> init_process" where
  "SetMmapRndBitsMin start mn compat_bits ie ip =
     SetHighestAvailableOptionValue (if compat_bits then MMAP_RND_COMPAT_PATH else MMAP_RND_PATH) mn start ie ip"

definition both_bits :: "(init_env \<Rightarrow> init_process \<Rightarrow> bool \<times> init_process) \<Rightarrow> (init_env \<Rightarrow> init_process \<Rightarrow> bool \<times> init_process) \<Rightarrow>
    init_env \<Rightarrow> init_process \<Rightarrow> bool \<times> init_process" where
  "both_bits f g ie ip = (case f ie ip of (True, ip) \<Rightarrow> g ie ip | (False, ip) \<Rightarrow> (False, ip))"

definition set_mmap_bits :: "init_env \<Rightarrow> init_process \<Rightarrow> bool \<times> init_process" where
  "set_mmap_bits ie ip =
     (case me_architecture (ie_machine ie) of
        USER_MODE_LINUX \<Rightarrow> (True, ip)
      | AARCH64 \<Rightarrow> both_bits (SetMmapRndBitsMin 33 24 False) (SetMmapRndBitsMin 16 16 True) ie ip
      | X86_64 \<Rightarrow> both_bits (SetMmapRndBitsMin 32 32 False) (SetMmapRndBitsMin 16 16 True) ie ip
      | ARM_OR_I386 \<Rightarrow>
          (case sys ie (Access MMAP_RND_COMPAT_PATH) ip of (r, ip) \<Rightarrow> SetMmapRndBitsMin 16 16 (r = None) ie ip)
      | OtherArchitecture \<Rightarrow> (False, ip))"

definition SetMmapRndBitsAction :: builtin where
  "SetMmapRndBitsAction ie args ip =
     (case set_mmap_bits ie ip of
        (True, ip) \<Rightarrow> (Ok (), ip)
      | (False, ip) \<Rightarrow> (Err (Error []), sys_do ie (Abort ''Unable to set adequate mmap entropy value!'') ip))"

definition KPTR_RESTRICT_PATH :: string where "KPTR_RESTRICT_PATH = ''/proc/sys/kernel/kptr_restrict''"

definition SetKptrRestrictAction :: builtin where
  "SetKptrRestrictAction ie args ip =
     (case SetHighestAvailableOptionValue KPTR_RESTRICT_PATH 2 4 ie ip of
        (True, ip) \<Rightarrow> (Ok (), ip)
      | (False, ip) \<Rightarrow> (Err (Error []), sys_do ie (Abort ''Unable to set adequate kptr_restrict value!'') ip))"

text \<open>\<open>me_perf_denied\<close>: the reset of the event fails with \<^verbatim>\<open>EACCES\<close>.\<close>

definition TestPerfEventSelinuxAction :: builtin where
  "TestPerfEventSelinuxAction ie args ip =
     (let me = ie_machine ie
      in if me_allow_permissive me \<and> \<not> me_getenforce me
         then (Ok (), sys_do ie (SetProp ''sys.init.perf_lsm_hooks'' ''1'') ip)
         else
           (let ip = sys_do ie PerfEventOpen ip
            in if \<not> me_perf_open me then (Ok (), ip)
               else
                 (let ip = sys_do ie PerfEventReset ip
                  in if \<not> me_perf_denied me then (Ok (), ip)
                     else (Ok (), sys_do ie (SetProp ''sys.init.perf_lsm_hooks'' ''1'') ip))))"

section \<open>Properties\<close>

definition refused :: "(int \<Rightarrow> string option) \<Rightarrow> int \<Rightarrow> bool" where
  "refused recorded v = (case recorded v of None \<Rightarrow> False | Some s \<Rightarrow> s \<noteq> to_string v)"

lemma try_values_found:
  "mn \<le> v \<Longrightarrow> v \<le> mx \<Longrightarrow> recorded v = Some (to_string v) \<Longrightarrow> \<forall>w. v < w \<and> w \<le> mx \<longrightarrow> refused recorded w \<Longrightarrow>
   \<exists>ws. try_values recorded mn mx = (ws @ [v], True)"
proof (induction recorded mn mx rule: try_values.induct)
  case (1 recorded mn mx)
  show ?case
  proof (cases "v = mx")
    case True
    then show ?thesis using 1(2-4) by (subst try_values.simps) simp
  next
    case False
    then have "refused recorded mx" using 1(3,5) by simp
    then obtain s where s: "recorded mx = Some s" "to_string mx \<noteq> s" by (auto simp: refused_def split: option.splits)
    obtain ws where "try_values recorded mn (mx - 1) = (ws @ [v], True)"
      using 1(1) [of s] 1(2-5) False s by auto
    then show ?thesis using s 1(2,3) by (subst try_values.simps) simp
  qed
qed

lemma try_values_True:
  "try_values recorded mn mx = (ws, True) \<Longrightarrow>
   \<exists>v. mn \<le> v \<and> v \<le> mx \<and> recorded v = Some (to_string v) \<and> (\<forall>w. v < w \<and> w \<le> mx \<longrightarrow> refused recorded w)"
proof (induction recorded mn mx arbitrary: ws rule: try_values.induct)
  case (1 recorded mn mx)
  from 1(2) obtain s where m: "mn \<le> mx" "recorded mx = Some s"
    by (subst (asm) try_values.simps) (auto split: if_splits option.splits)
  show ?case
  proof (cases "to_string mx = s")
    case True
    then show ?thesis using m by (intro exI [of _ mx]) auto
  next
    case False
    then obtain ws' where "try_values recorded mn (mx - 1) = (ws', True)"
      using 1(2) m by (subst (asm) try_values.simps) (auto split: prod.splits)
    then obtain v where v: "mn \<le> v" "v \<le> mx - 1" "recorded v = Some (to_string v)" "\<forall>w. v < w \<and> w \<le> mx - 1 \<longrightarrow> refused recorded w"
      using 1(1) [of s ws'] m False by auto
    have "refused recorded w" if "v < w" "w \<le> mx" for w
      using that v(4) False m(2) by (cases "w = mx") (auto simp: refused_def)
    then show ?thesis using v by (intro exI [of _ v]) auto
  qed
qed

text \<open>
  An option of the kernel is set to the highest value it accepts. The action succeeds exactly
  when some value of the range is accepted and all above it are refused, and then that value is
  the last one written.
\<close>

theorem highest_value_set:
  assumes "me_readable (ie_machine ie) path" "SetHighestAvailableOptionValue path mn mx ie ip = (r, ip')"
  shows "r \<longleftrightarrow> (\<exists>v. mn \<le> v \<and> v \<le> mx \<and> me_recorded (ie_machine ie) path v = Some (to_string v) \<and>
      (\<forall>w. v < w \<and> w \<le> mx \<longrightarrow> refused (me_recorded (ie_machine ie) path) w) \<and>
      last (ip_trace ip') = Called (WriteFile path (to_string v @ [LF])))"
proof -
  let ?rec = "me_recorded (ie_machine ie) path"
  obtain ws where t: "try_values ?rec mn mx = (ws, r)" "ip' = fold (\<lambda>v. sys_do ie (WriteFile path (to_string v @ [LF]))) ws ip"
    using assms by (auto simp: SetHighestAvailableOptionValue_def split: prod.splits)
  have l: "last (ip_trace (fold (\<lambda>v. sys_do ie (WriteFile path (to_string v @ [LF]))) (us @ [v]) ip)) =
      Called (WriteFile path (to_string v @ [LF]))" for us v
    by (simp add: sys_do_def sys_def record_effect_def)
  show ?thesis
  proof
    assume r
    then obtain v where v: "mn \<le> v" "v \<le> mx" "?rec v = Some (to_string v)" "\<forall>w. v < w \<and> w \<le> mx \<longrightarrow> refused ?rec w"
      using try_values_True [of ?rec mn mx ws] t(1) by auto
    then obtain us where "ws = us @ [v]" using try_values_found [OF v] t(1) by auto
    then have "last (ip_trace ip') = Called (WriteFile path (to_string v @ [LF]))" using l t(2) by simp
    then show "\<exists>v. mn \<le> v \<and> v \<le> mx \<and> ?rec v = Some (to_string v) \<and> (\<forall>w. v < w \<and> w \<le> mx \<longrightarrow> refused ?rec w) \<and>
        last (ip_trace ip') = Called (WriteFile path (to_string v @ [LF]))"
      using v by blast
  next
    assume "\<exists>v. mn \<le> v \<and> v \<le> mx \<and> ?rec v = Some (to_string v) \<and> (\<forall>w. v < w \<and> w \<le> mx \<longrightarrow> refused ?rec w) \<and>
        last (ip_trace ip') = Called (WriteFile path (to_string v @ [LF]))"
    then show r using try_values_found [of mn _ mx ?rec] t(1) by auto
  qed
qed

subsection \<open>Witnesses\<close>

theorem highest_value_set_witness:
  "\<exists>ip'. SetHighestAvailableOptionValue MMAP_RND_PATH 29 31 sample_env sample_process = (True, ip') \<and>
     last (ip_trace ip') = Called (WriteFile MMAP_RND_PATH (''30'' @ [LF]))"
proof -
  have m: "ie_machine sample_env = sample_machine" by (simp add: sample_env_def)
  have t: "to_string (30 :: int) = ''30''" "to_string (31 :: int) = ''31''" "to_string (29 :: int) = ''29''" by code_simp+
  have "try_values (me_recorded sample_machine MMAP_RND_PATH) 29 31 = ([31, 30], True)"
    by (simp add: try_values.simps [of _ _ 31] try_values.simps [of _ _ 30] sample_machine_def t)
  then obtain ip' where h: "SetHighestAvailableOptionValue MMAP_RND_PATH 29 31 sample_env sample_process = (True, ip')"
    by (simp add: SetHighestAvailableOptionValue_def m sample_machine_def)
  have r: "me_readable (ie_machine sample_env) MMAP_RND_PATH" by (simp add: m sample_machine_def)
  obtain v where v: "29 \<le> v" "v \<le> 31" "me_recorded sample_machine MMAP_RND_PATH v = Some (to_string v)"
      "\<forall>w. v < w \<and> w \<le> 31 \<longrightarrow> refused (me_recorded sample_machine MMAP_RND_PATH) w"
      "last (ip_trace ip') = Called (WriteFile MMAP_RND_PATH (to_string v @ [LF]))"
    using highest_value_set [OF r h] m by auto
  have "v \<noteq> 31" using v(3) by (auto simp: sample_machine_def t)
  moreover have "v \<noteq> 29"
  proof
    assume "v = 29"
    then have "refused (me_recorded sample_machine MMAP_RND_PATH) 30" using v(4) by simp
    then show False by (simp add: refused_def sample_machine_def)
  qed
  ultimately have "v = 30" using v(1,2) by simp
  then show ?thesis using h v(5) t by simp
qed

end
