(* ===== verification/Init_Loop.thy ===== *)
theory Init_Loop
  imports Reboot_Safety Security
begin

text \<open>
  The main loop of init (\<^verbatim>\<open>init/init.cpp\<close>): the actions init queues for itself, property changes,
  control messages, signals, key chords and the mount table, and the turns of the loop. The
  thread of the property service runs beside the loop; its calls are steps of their own. Waking
  the loop is left out: a turn takes whatever descriptors are ready.
\<close>

record init_loop =
  il_process :: init_process
  il_keychords :: Keychords
  il_mounts :: "MountHandlerEntry list"
  control_messages :: "control_message list"
  controller_set :: bool
  property_triggers_enabled :: bool
  keychord_init :: bool

definition on_process :: "(init_process \<Rightarrow> 'r \<times> init_process) \<Rightarrow> init_loop \<Rightarrow> 'r \<times> init_loop" where
  "on_process f il = (case f (il_process il) of (r, ip) \<Rightarrow> (r, il\<lparr>il_process := ip\<rparr>))"

definition upd_process :: "(init_process \<Rightarrow> init_process) \<Rightarrow> init_loop \<Rightarrow> init_loop" where
  "upd_process f il = il\<lparr>il_process := f (il_process il)\<rparr>"

definition il_am :: "init_loop \<Rightarrow> ActionManager" where "il_am il = ip_am (il_process il)"
definition set_il_am :: "ActionManager \<Rightarrow> init_loop \<Rightarrow> init_loop" where "set_il_am am = upd_process (set_am am)"

section \<open>The commands of \<^verbatim>\<open>onrestart\<close>\<close>

definition builtin_env :: "init_env \<Rightarrow> init_process command_env" where
  "builtin_env ie =
     \<lparr>apply_fn = apply_builtin builtin_functions ie, sub_execute = Execute ie, sub_expand = ExpandArgs ie,
      env_props = prop_of_process ie, env_version = os_version (ie_os ie 0)\<rparr>"

definition run_onrestart :: "init_env \<Rightarrow> Action \<Rightarrow> init_process \<Rightarrow> init_process" where
  "run_onrestart ie a ip = ExecuteAllCommands (builtin_env ie) a ip"

section \<open>Key chords\<close>

definition HandleKeychord :: "init_env \<Rightarrow> int list \<Rightarrow> init_process \<Rightarrow> init_process" where
  "HandleKeychord ie codes ip =
     (if prop_of_process ie ip ''init.svc.adbd'' \<noteq> ''running'' then ip
      else each_service ie (\<lambda>s. keycodes s = codes) (Start (ie_lb ie)) ip)"

text \<open>What the key chords did, in its order: chords are handled at once in the source, and handling one does not depend on the chords.\<close>

definition keychord_effect_of :: "init_env \<Rightarrow> keychord_effect \<Rightarrow> init_process \<Rightarrow> init_process" where
  "keychord_effect_of ie e ip =
     (case e of
        Chord codes \<Rightarrow> HandleKeychord ie codes ip
      | SetEventMask fd m \<Rightarrow> sys_do ie (SetInputMask fd m) ip
      | CloseDevice fd \<Rightarrow> sys_do ie (CloseFd fd) ip)"

definition drain_keychords :: "init_env \<Rightarrow> Keychords \<Rightarrow> init_loop \<Rightarrow> init_loop" where
  "drain_keychords ie kc il =
     upd_process (fold (keychord_effect_of ie) (kc_out kc)) (il\<lparr>il_keychords := kc\<lparr>kc_out := []\<rparr>\<rparr>)"

section \<open>Actions of init\<close>

type_synonym loop_builtin = "init_env \<Rightarrow> BuiltinArguments \<Rightarrow> init_loop \<Rightarrow> unit result \<times> init_loop"

definition wait_for_coldboot_done_action :: builtin where
  "wait_for_coldboot_done_action ie args ip =
     (case StartWaiting ie kColdBootDoneProp ''true'' ip of
        (True, ip) \<Rightarrow> (Ok (), ip)
      | (False, ip) \<Rightarrow> (Ok (), sys_do ie (Abort (''Could not wait for '' @ quoted kColdBootDoneProp)) ip))"

definition SetupCgroupsAction :: builtin where
  "SetupCgroupsAction ie args ip =
     (case sys ie CgroupSetup (sys_do ie (Mkdir (me_cgroups_dir (ie_machine ie)) 457) ip) of
        (None, ip) \<Rightarrow> (Ok (), ip)
      | (Some _, ip) \<Rightarrow> (Err (ErrnoError ''Failed to setup cgroups''), ip))"

definition property_enable_triggers_action :: loop_builtin where
  "property_enable_triggers_action ie args il = (Ok (), il\<lparr>property_triggers_enabled := True\<rparr>)"

definition queue_property_triggers_action :: builtin where
  "queue_property_triggers_action ie args ip =
     (Ok (), set_am (QueueAllPropertyActions (QueueBuiltinAction ''property_enable_triggers_action'' ''enable_property_trigger'' (ip_am ip))) ip)"

text \<open>
  The closure \<^verbatim>\<open>KeychordInit\<close> belongs to one action, which is removed after it ran: \<open>keychord_init\<close>
  says that it is still there. Reading a bit out of range has no meaning in the source.
\<close>

definition KeychordInit :: loop_builtin where
  "KeychordInit ie args il =
     (if \<not> keychord_init il then (Err (Error ''no such function: KeychordInit''), il)
      else let me = ie_machine ie;
          il = il\<lparr>keychord_init := False\<rparr>;
          kc = fold Register (map keycodes (sl_services (ip_sl (il_process il)))) (il_keychords il)
      in case Keychords_Start (me_devices me) (me_inotify me) (me_input_dir me) kc of
           None \<Rightarrow> (Ok (), upd_process (sys_do ie (Abort ''key out of range'')) il)
         | Some kc \<Rightarrow> (Ok (), drain_keychords ie kc il))"

definition init_actions :: "(string \<times> builtin) list" where
  "init_actions =
     [(''SetupCgroupsAction'', SetupCgroupsAction), (''SetKptrRestrictAction'', SetKptrRestrictAction),
      (''TestPerfEventSelinuxAction'', TestPerfEventSelinuxAction),
      (''wait_for_coldboot_done_action'', wait_for_coldboot_done_action), (''SetMmapRndBitsAction'', SetMmapRndBitsAction),
      (''queue_property_triggers_action'', queue_property_triggers_action)]"

definition loop_actions :: "(string \<times> loop_builtin) list" where
  "loop_actions = [(''property_enable_triggers_action'', property_enable_triggers_action), (''KeychordInit'', KeychordInit)]"

definition run_closure :: "init_env \<Rightarrow> closure \<Rightarrow> init_process \<Rightarrow> unit result \<times> init_process" where
  "run_closure ie c ip =
     (case c of
        ShutdownHandler cmd command reboot_target run_fsck \<Rightarrow> (Ok (), DoReboot ie (run_onrestart ie) cmd command reboot_target run_fsck ip)
      | UserspaceRebootHandler \<Rightarrow> DoUserspaceReboot ie (run_onrestart ie) ip)"

definition apply_loop :: "init_env \<Rightarrow> BuiltinFunction \<Rightarrow> BuiltinArguments \<Rightarrow> init_loop \<Rightarrow> unit result \<times> init_loop" where
  "apply_loop ie f args il =
     (case map_of (ip_closures (il_process il)) f of
        Some c \<Rightarrow> on_process (run_closure ie c) il
      | None \<Rightarrow>
          (case map_of loop_actions f of
             Some g \<Rightarrow> g ie args il
           | None \<Rightarrow> on_process (apply_builtin (builtin_functions @ init_actions) ie f args) il))"

definition main_env :: "init_env \<Rightarrow> init_loop command_env" where
  "main_env ie =
     \<lparr>apply_fn = apply_loop ie, sub_execute = (\<lambda>sc args. on_process (Execute ie sc args)),
      sub_expand = (\<lambda>sc args. on_process (ExpandArgs ie sc args)), env_props = (\<lambda>il. prop_of_process ie (il_process il)),
      env_version = os_version (ie_os ie 0)\<rparr>"

section \<open>Properties\<close>

definition PropertyChanged :: "init_env \<Rightarrow> string \<Rightarrow> string \<Rightarrow> init_loop \<Rightarrow> init_loop" where
  "PropertyChanged ie name v il =
     (let il = (if name = ''sys.powerctl'' then upd_process (trigger_shutdown v) il else il);
          il = (if property_triggers_enabled il then set_il_am (QueuePropertyChange name v (il_am il)) il else il)
      in upd_process (CheckAndResetWait ie name v) il)"

section \<open>Control messages\<close>

definition set_sigstop :: "bool \<Rightarrow> Service \<Rightarrow> Service" where
  "set_sigstop v s = s\<lparr>sigstop := v\<rparr>"

definition GetControlMessageMap :: "libbase \<Rightarrow> (string \<times> (os \<Rightarrow> unit result service_op)) list" where
  "GetControlMessageMap lb =
     [(''sigstop_on'', always_ok (modify_op (set_sigstop True))), (''sigstop_off'', always_ok (modify_op (set_sigstop False))),
      (''oneshot_on'', always_ok (modify_op (set_oneshot True))), (''oneshot_off'', always_ok (modify_op (set_oneshot False))),
      (''start'', Start lb), (''stop'', always_ok (\<lambda>os. simple_op (Stop os))),
      (''restart'', always_ok (\<lambda>os. static_op (Restart lb os)))]"

definition control_target :: "string \<Rightarrow> string \<Rightarrow> ServiceList \<Rightarrow> string \<times> nat option" where
  "control_target msg name sl =
     (if take 10 msg = ''interface_'' then (drop 10 msg, FindInterface name sl)
      else (msg, FindService name svc_name sl))"

definition HandleControlMessage :: "init_env \<Rightarrow> string \<Rightarrow> string \<Rightarrow> init_process \<Rightarrow> bool \<times> init_process" where
  "HandleControlMessage ie msg name ip =
     (case control_target msg name (ip_sl ip) of
        (_, None) \<Rightarrow> (False, ip)
      | (action, Some i) \<Rightarrow>
          (case map_of (GetControlMessageMap (ie_lb ie)) action of
             None \<Rightarrow> (False, ip)
           | Some op \<Rightarrow> (case on_listed ie i op ip of (r, ip) \<Rightarrow> (ok r, ip))))"

definition HandleControlMessages :: "init_env \<Rightarrow> init_loop \<Rightarrow> init_loop" where
  "HandleControlMessages ie il =
     (case control_messages il of
        [] \<Rightarrow> il
      | cm # cms \<Rightarrow>
          (case HandleControlMessage ie (cm_message cm) (cm_name cm) (il_process il) of
             (success, ip) \<Rightarrow>
               il\<lparr>control_messages := cms,
                  il_process :=
                    (if cm_fd cm then sys_do ie (Reply (if success then PROP_SUCCESS else PROP_ERROR_HANDLE_CONTROL_MESSAGE)) ip else ip)\<rparr>))"

section \<open>USB and the lock\<close>

definition SetUsbController :: "init_env \<Rightarrow> init_loop \<Rightarrow> init_loop" where
  "SetUsbController ie il =
     (if controller_set il then il
      else
        (case me_udc (ie_machine ie) of
           None \<Rightarrow> il
         | Some names \<Rightarrow>
             (case find (\<lambda>n. take 1 n \<noteq> ''.'') names of
                None \<Rightarrow> il
              | Some n \<Rightarrow> (upd_process (sys_do ie (SetProp ''sys.usb.controller'' n)) il)\<lparr>controller_set := True\<rparr>)))"

definition export_oem_lock_status :: "init_env \<Rightarrow> init_process \<Rightarrow> init_process" where
  "export_oem_lock_status ie ip =
     (if \<not> os_bool_props (os_of ie ip) ''ro.oem_unlock_supported'' then ip
      else sys_do ie (SetProp ''ro.boot.flash.locked'' (if prop_of_process ie ip ''ro.boot.verifiedbootstate'' = ''orange'' then ''0'' else ''1'')) ip)"

section \<open>Signals\<close>

datatype signal_read = ShortRead | SigChld | SigTerm int | OtherSignal int

definition HandleSigtermSignal :: "init_env \<Rightarrow> int \<Rightarrow> init_process \<Rightarrow> init_process" where
  "HandleSigtermSignal ie pid ip = (if pid \<noteq> 0 then ip else HandlePowerctlMessage ie ''shutdown,container'' ip)"

definition HandleSignalFd :: "init_env \<Rightarrow> signal_read \<Rightarrow> init_process \<Rightarrow> init_process" where
  "HandleSignalFd ie sig ip =
     (case sig of
        ShortRead \<Rightarrow> ip
      | SigChld \<Rightarrow> reap_outstanding ie (run_onrestart ie) ip
      | SigTerm pid \<Rightarrow> HandleSigtermSignal ie pid ip
      | OtherSignal _ \<Rightarrow> ip)"

section \<open>The mount table\<close>

definition set_mount_property :: "init_env \<Rightarrow> bool \<Rightarrow> MountHandlerEntry \<Rightarrow> init_process \<Rightarrow> init_process" where
  "set_mount_property ie add e ip =
     (case SetMountProperty (ie_lb ie) (me_mounts (ie_machine ie)) (prop_of_process ie ip) e add of
        None \<Rightarrow> ip | Some (n, v) \<Rightarrow> sys_do ie (SetProp n v) ip)"

definition MountHandlerFunction :: "init_env \<Rightarrow> string list \<Rightarrow> init_loop \<Rightarrow> init_loop" where
  "MountHandlerFunction ie lines il =
     (case compare_mounts (ParseMount (ie_lb ie) (me_mounts (ie_machine ie))) lines [] (il_mounts il) of
        (touched, gone) \<Rightarrow>
          upd_process (fold (set_mount_property ie True) touched \<circ> fold (set_mount_property ie False) gone)
            (il\<lparr>il_mounts := apply_mounts (touched, gone) (il_mounts il)\<rparr>))"

section \<open>A turn\<close>

text \<open>What the descriptors give in a turn.\<close>

record turn_env =
  te_ready :: "int list option"
  te_signal :: signal_read
  te_key :: "int \<Rightarrow> (nat \<times> bool) option"
  te_changes :: "(string \<times> bool) list option"
  te_mounts :: "string list"

definition serve_handler :: "init_env \<Rightarrow> turn_env \<Rightarrow> handler \<Rightarrow> init_loop \<Rightarrow> init_loop option" where
  "serve_handler ie te h il =
     (case h of
        SignalFd \<Rightarrow> Some (upd_process (HandleSignalFd ie (te_signal te)) il)
      | WakeFd \<Rightarrow> Some il
      | MountsFd \<Rightarrow> Some (MountHandlerFunction ie (te_mounts te) il)
      | _ \<Rightarrow>
          (case serve_keychord (me_devices (ie_machine ie)) (te_key te) (te_changes te) h (il_keychords il) of
             None \<Rightarrow> None | Some kc \<Rightarrow> Some (drain_keychords ie kc il)))"

fun serve_handlers :: "init_env \<Rightarrow> turn_env \<Rightarrow> handler list \<Rightarrow> init_loop \<Rightarrow> init_loop option" where
  "serve_handlers ie te [] il = Some il"
| "serve_handlers ie te (h # hs) il =
     (case serve_handler ie te h il of None \<Rightarrow> None | Some il \<Rightarrow> serve_handlers ie te hs il)"

definition turn_shutdown :: "init_env \<Rightarrow> init_loop \<Rightarrow> init_loop" where
  "turn_shutdown ie il =
     (case CheckShutdown (il_process il) of
        None \<Rightarrow> il
      | Some command \<Rightarrow> upd_process (\<lambda>ip. (HandlePowerctlMessage ie command ip)\<lparr>do_shutdown := False\<rparr>) il)"

definition blocked :: "init_loop \<Rightarrow> bool" where
  "blocked il = (MightBeWaiting (il_process il) \<or> exec_running (il_process il))"

definition turn_command :: "init_env \<Rightarrow> init_loop \<Rightarrow> init_loop option" where
  "turn_command ie il = (if blocked il then Some il else ExecuteOneCommand (main_env ie) il_am set_il_am il)"

text \<open>Milliseconds, rounded up, from times in nanoseconds; at least zero.\<close>

definition ms_until :: "nat \<Rightarrow> nat \<Rightarrow> int" where
  "ms_until t now = max 0 (- ((int now - int t) div 1000000))"

definition turn_timers :: "init_env \<Rightarrow> init_loop \<Rightarrow> int option \<times> init_loop" where
  "turn_timers ie il =
     (if shutting_down (il_process il) then (None, il)
      else
        on_process (\<lambda>ip.
          (case HandleProcessActions (ie_lb ie) (\<lambda>i. ie_os ie (length (ip_trace ip) + i)) (ip_sl ip) of
             (next_time, sl, effs) \<Rightarrow>
               (let ip = absorb effs (set_sl sl ip)
                in (map_option (\<lambda>t. ms_until t (os_now (os_of ie ip))) next_time, ip)))) il)"

definition turn_timeout :: "init_loop \<Rightarrow> int option \<Rightarrow> int option" where
  "turn_timeout il timeout = (if \<not> blocked il \<and> HasMoreCommands (il_am il) then Some 0 else timeout)"

definition turn_events :: "init_env \<Rightarrow> turn_env \<Rightarrow> init_loop \<Rightarrow> init_loop option" where
  "turn_events ie te il =
     (case Wait (te_ready te) (kc_epoll (il_keychords il)) of
        Inl _ \<Rightarrow> Some il
      | Inr hs \<Rightarrow> if hs = [] then Some il else serve_handlers ie te hs (upd_process (reap_outstanding ie (run_onrestart ie)) il))"

definition turn_controls :: "init_env \<Rightarrow> init_loop \<Rightarrow> init_loop" where
  "turn_controls ie il =
     (if shutting_down (il_process il) then il else SetUsbController ie (HandleControlMessages ie il))"

text \<open>One turn: the timeout it waits with, and the state after it.\<close>

definition main_turn :: "init_env \<Rightarrow> turn_env \<Rightarrow> init_loop \<Rightarrow> (int \<times> init_loop) option" where
  "main_turn ie te il =
     (case turn_command ie (turn_shutdown ie il) of
        None \<Rightarrow> None
      | Some il \<Rightarrow>
          (case turn_timers ie il of
             (timeout, il) \<Rightarrow>
               map_option (\<lambda>il'. (timeout_ms (turn_timeout il timeout), turn_controls ie il')) (turn_events ie te il)))"

section \<open>Starting\<close>

text \<open>
  The policy is loaded before any script; \<open>readable\<close> is the answer of \<^verbatim>\<open>access\<close>. A policy that is there
  but does not load is fatal. The environment afterwards has the policy.
\<close>

definition kInnitPolicyPath :: string where "kInnitPolicyPath = ''/system/etc/init/hw/innit.xml''"

definition innit_bootstrap :: "xml_loader \<Rightarrow> init_env \<Rightarrow> init_process \<Rightarrow> init_env \<times> init_process" where
  "innit_bootstrap load_document ie ip =
     (case sys ie (Access kInnitPolicyPath) ip of
        (Some _, ip) \<Rightarrow> (ie, sys_do ie (WriteFile ''/dev/kmsg'' (''innit: policy file missing '' @ kInnitPolicyPath @ [LF])) ip)
      | (None, ip) \<Rightarrow>
          (case InitialiseInnitPolicy (ie_log ie) load_document kInnitPolicyPath (ie_policy ie) of
             (g, evs) \<Rightarrow>
               (let ip = note_policy evs (sys_do ie (WriteFile ''/dev/kmsg'' (''innit: policy file found '' @ kInnitPolicyPath @ [LF])) ip);
                    ie' = ie\<lparr>ie_rc := (ie_rc ie)\<lparr>rc_policy := g\<rparr>\<rparr>
                in if \<not> InnitPolicyIsActive g
                   then (ie', sys_do ie (Abort (''[Innit] Policy file present but failed to load: '' @ kInnitPolicyPath)) ip)
                   else if map_option selinux_mode g = Some SM_Permissive then (ie', sys_do ie (SetEnforce False) ip)
                   else (ie', ip))))"

definition queue_builtin :: "string \<Rightarrow> string \<Rightarrow> init_process \<Rightarrow> init_process" where
  "queue_builtin func name ip = set_am (QueueBuiltinAction func name (ip_am ip)) ip"

definition queue_boot_actions :: "init_env \<Rightarrow> init_process \<Rightarrow> init_process" where
  "queue_boot_actions ie ip =
     (let ip = queue_builtin ''SetupCgroupsAction'' ''SetupCgroups'' ip;
          ip = queue_builtin ''SetKptrRestrictAction'' ''SetKptrRestrict'' ip;
          ip = queue_builtin ''TestPerfEventSelinuxAction'' ''TestPerfEventSelinux'' ip;
          ip = queue_event ie ''early-init'' ip;
          ip = queue_builtin ''wait_for_coldboot_done_action'' ''wait_for_coldboot_done'' ip;
          ip = queue_builtin ''SetMmapRndBitsAction'' ''SetMmapRndBits'' ip;
          ip = queue_builtin ''KeychordInit'' ''KeychordInit'' ip;
          ip = queue_event ie ''init'' ip;
          ip = queue_event ie (if prop_of_process ie ip ''ro.bootmode'' = ''charger'' then ''charger'' else ''late-init'') ip
      in queue_builtin ''queue_property_triggers_action'' ''queue_property_triggers'' ip)"

text \<open>From the policy to the first turn; \<open>None\<close> when there is not enough fuel for the scripts.\<close>

definition second_stage :: "xml_loader \<Rightarrow> init_env \<Rightarrow> init_process \<Rightarrow> (init_env \<times> init_process) option" where
  "second_stage load_document ie ip =
     (case innit_bootstrap load_document ie ip of
        (ie, ip) \<Rightarrow>
          (case LoadBootScripts (ie_lb ie) (ie_rc ie) (ie_cfg ie) (ie_fuel ie) (ip_rc ip) of
             None \<Rightarrow> None
           | Some (rs, late) \<Rightarrow>
               (let ip = ip\<lparr>ip_rc := rs, late_import_paths := late_import_paths ip @ late\<rparr>;
                    ip = sys_do ie (SetProp (me_gsi_booted_prop (ie_machine ie)) (if ms_gsi_running (ie_mounts ie) then ''1'' else ''0'')) ip;
                    ip = sys_do ie (SetProp (me_gsi_installed_prop (ie_machine ie)) (if me_gsi_installed (ie_machine ie) then ''1'' else ''0'')) ip
                in Some (ie, queue_boot_actions ie ip))))"

section \<open>The hosts of commands\<close>

lemma apply_builtin_keeps:
  assumes "\<And>n f. (n, f) \<in> set table \<Longrightarrow> harmless f" "env_ok ie"
  shows "keeps_process ip (snd (apply_builtin table ie f args ip))"
  using assms by (auto simp: apply_builtin_def harmless_def dest: map_of_SomeD split: option.split)

definition in_order :: "init_env \<Rightarrow> init_process \<Rightarrow> bool" where
  "in_order ie ip = (env_ok ie \<and> listed_ok (ip_sl ip))"

lemma keeps_in_order: "in_order ie ip \<Longrightarrow> am_inv (ip_am ip) \<Longrightarrow> keeps_process ip ip' \<Longrightarrow>
    am_extends (ip_am ip) (ip_am ip') \<and> in_order ie ip'"
  by (simp add: in_order_def keeps_process_def)

interpretation onrestart_host: action_host "builtin_env ie" ip_am set_am "in_order ie" for ie
proof
  fix s f ba sc args am
  show "ip_am (set_am am s) = am" by simp
  show "in_order ie s \<Longrightarrow> in_order ie (set_am am s)" by (simp add: in_order_def)
  assume o: "in_order ie s" "am_inv (ip_am s)"
  then have "keeps_process s (snd (apply_fn (builtin_env ie) f ba s))"
    using apply_builtin_keeps [OF builtin_functions_harmless] by (simp add: builtin_env_def in_order_def)
  then show "am_extends (ip_am s) (ip_am (snd (apply_fn (builtin_env ie) f ba s))) \<and> in_order ie (snd (apply_fn (builtin_env ie) f ba s))"
    by (rule keeps_in_order [OF o])
  show "am_extends (ip_am s) (ip_am (snd (sub_execute (builtin_env ie) sc args s))) \<and>
      in_order ie (snd (sub_execute (builtin_env ie) sc args s))"
    by (rule keeps_in_order [OF o]) (simp add: builtin_env_def Execute_keeps)
  show "am_extends (ip_am s) (ip_am (snd (sub_expand (builtin_env ie) sc args s))) \<and>
      in_order ie (snd (sub_expand (builtin_env ie) sc args s))"
    by (rule keeps_in_order [OF o]) (simp add: builtin_env_def ExpandArgs_keeps)
qed

interpretation onrestart: command_runner run_onrestart
proof
  fix ie ip a
  assume "env_ok ie"
  then have "keeps_process ip (fold (Action.ExecuteCommand (builtin_env ie) a) (commands a) ip)"
    using onrestart_host.ExecuteAllCommands_keeps [of ie ip a "commands a"]
    by (simp add: keeps_process_def onrestart_host.keeps_host_def in_order_def)
  then show "keeps_process ip (run_onrestart ie a ip)" by (simp add: run_onrestart_def ExecuteAllCommands_def)
qed

text \<open>The actions of init.\<close>

lemma highest_untouched: "ip_am (snd (SetHighestAvailableOptionValue p mn mx ie ip)) = ip_am ip \<and>
    ip_sl (snd (SetHighestAvailableOptionValue p mn mx ie ip)) = ip_sl ip"
  using untouched_loops(5) [where w = "\<lambda>v. WriteFile p (to_string v @ [LF])"]
  by (auto simp: SetHighestAvailableOptionValue_def split: prod.split)

lemma mmap_untouched: "ip_am (snd (set_mmap_bits ie ip)) = ip_am ip \<and> ip_sl (snd (set_mmap_bits ie ip)) = ip_sl ip"
proof -
  have m: "ip_am (snd (SetMmapRndBitsMin s mn c ie ip)) = ip_am ip \<and> ip_sl (snd (SetMmapRndBitsMin s mn c ie ip)) = ip_sl ip" for s mn c ip
    by (simp add: SetMmapRndBitsMin_def highest_untouched)
  have "ip_am (snd (both_bits (SetMmapRndBitsMin s mn c) (SetMmapRndBitsMin s' mn' c') ie ip)) = ip_am ip \<and>
      ip_sl (snd (both_bits (SetMmapRndBitsMin s mn c) (SetMmapRndBitsMin s' mn' c') ie ip)) = ip_sl ip" for s mn c s' mn' c'
    using m [of s mn c ip] m [of s' mn' c'] by (cases "SetMmapRndBitsMin s mn c ie ip") (simp add: both_bits_def split: bool.split)
  then show ?thesis using m by (simp add: set_mmap_bits_def sys_def split: architecture.split)
qed

lemma init_actions_harmless: "(n, f) \<in> set init_actions \<Longrightarrow> harmless f"
proof -
  have 1: "untouched SetupCgroupsAction" "untouched TestPerfEventSelinuxAction"
    by (auto simp: untouched_def SetupCgroupsAction_def TestPerfEventSelinuxAction_def sys_def Let_def split: option.split)
  have 2: "untouched SetKptrRestrictAction"
    unfolding untouched_def SetKptrRestrictAction_def
    using highest_untouched [of KPTR_RESTRICT_PATH 2 4] by (auto split: prod.split bool.split) (metis snd_conv)+
  have 3: "untouched SetMmapRndBitsAction"
    unfolding untouched_def SetMmapRndBitsAction_def
    using mmap_untouched by (auto split: prod.split bool.split) (metis snd_conv)+
  have 4: "untouched wait_for_coldboot_done_action"
    unfolding untouched_def wait_for_coldboot_done_action_def
    by (auto split: prod.split bool.split) (metis StartWaiting_fields snd_conv)+
  have 5: "harmless queue_property_triggers_action"
    by (rule harmlessI) (auto simp: queue_property_triggers_action_def intro!: keeps_am
        intro: am_extends_trans [OF QueueBuiltinAction_extends QueueAllPropertyActions_extends])
  show "(n, f) \<in> set init_actions \<Longrightarrow> harmless f"
    using 1 2 3 4 5 untouched_harmless by (auto simp: init_actions_def)
qed

section \<open>What the steps keep\<close>

definition ok_process :: "init_process \<Rightarrow> bool" where
  "ok_process ip = (am_inv (ip_am ip) \<and> listed_ok (ip_sl ip))"

lemma keeps_ok: "keeps_process ip ip' \<Longrightarrow> ok_process ip \<Longrightarrow> ok_process ip'"
  using am_inv_extends by (auto simp: keeps_process_def ok_process_def)

lemma queue_closure_keeps: "keeps_process ip (queue_closure c n ip)"
  unfolding queue_closure_def Let_def by (rule keeps_before [OF keeps_am]) simp_all

lemma clear_queue_ok: "ok_process ip \<Longrightarrow> ok_process (set_am (ClearQueue (ip_am ip)) (ip\<lparr>sending_messages := b\<rparr>))"
  "ok_process ip \<Longrightarrow> ok_process (set_am (ClearQueue (ip_am ip)) ip)"
  by (simp_all add: ok_process_def am_inv_ClearQueue)

lemma begin_shutdown_ok: "env_ok ie \<Longrightarrow> ok_process ip \<Longrightarrow> ok_process (begin_shutdown ie cmd c t fsck ip)"
  unfolding begin_shutdown_def
  by (intro keeps_ok [OF EnterShutdown_keeps] keeps_ok [OF queue_closure_keeps] keeps_ok [OF queue_event_keeps] clear_queue_ok)

lemma HandleUserspaceReboot_ok: "ok_process ip \<Longrightarrow> ok_process (HandleUserspaceReboot ie ip)"
proof -
  assume ok: "ok_process ip"
  obtain r ip1 where s: "sys ie ForkWatchdog ip = (r, ip1)" by fastforce
  then have 1: "ok_process ip1" using ok process_fields(7,8) [of ie ForkWatchdog ip] by (simp add: ok_process_def)
  have "ok_process (queue_closure UserspaceRebootHandler n (queue_event ie t (set_am (ClearQueue (ip_am ip1)) ip1)))" for n t
    by (intro keeps_ok [OF queue_closure_keeps] keeps_ok [OF queue_event_keeps] clear_queue_ok 1)
  then show "ok_process (HandleUserspaceReboot ie ip)"
    using ok 1 s by (auto simp: HandleUserspaceReboot_def ok_process_def split: option.split)
qed

lemma HandlePowerctlMessage_ok:
  assumes "env_ok ie" "ok_process ip"
  shows "ok_process (HandlePowerctlMessage ie command ip)"
proof -
  obtain t ip1 where p: "parse_reboot ie (Split (ie_lb ie) command '','') ip = (t, ip1)" by fastforce
  then have 1: "ok_process ip1" using assms(2) parse_reboot_fields [of ie "Split (ie_lb ie) command '',''" ip] by (simp add: ok_process_def)
  have 2: "ok_process (HandleUserspaceReboot ie (ip1\<lparr>sending_messages := False\<rparr>))"
    using 1 by (intro HandleUserspaceReboot_ok) (simp add: ok_process_def)
  have 3: "ok_process (TurnOffBacklight ie ip)"
    using keeps_ok [OF named_operations_keep(1) [OF assms(1)] assms(2)] by (simp add: TurnOffBacklight_def)
  show ?thesis
    using p 1 2 3 assms begin_shutdown_ok by (auto simp: HandlePowerctlMessage_def Let_def split: option.split)
qed

lemma HandleSignalFd_ok: "env_ok ie \<Longrightarrow> ok_process ip \<Longrightarrow> ok_process (HandleSignalFd ie sig ip)"
  using keeps_ok [OF onrestart.reap_outstanding_keeps] HandlePowerctlMessage_ok
  by (auto simp: HandleSignalFd_def HandleSigtermSignal_def split: signal_read.split)

lemma HandleKeychord_keeps: "env_ok ie \<Longrightarrow> keeps_process ip (HandleKeychord ie codes ip)"
  by (simp add: HandleKeychord_def start_op.each_service_keeps)

lemma keychord_effects_keep: "env_ok ie \<Longrightarrow> keeps_process ip (fold (keychord_effect_of ie) es ip)"
proof (induction es arbitrary: ip)
  case (Cons e es)
  have "keeps_process ip (keychord_effect_of ie e ip)"
    using HandleKeychord_keeps [OF Cons.prems] by (cases e) (simp_all add: keychord_effect_of_def keeps_same)
  then show ?case using keeps_trans [OF _ Cons.IH [OF Cons.prems]] by simp
qed simp

lemma set_mount_properties_ok: "ok_process (fold (set_mount_property ie add) es ip) = ok_process ip"
proof (induction es arbitrary: ip)
  case (Cons e es)
  have "ok_process (set_mount_property ie add e ip) = ok_process ip"
    by (auto simp: set_mount_property_def ok_process_def split: option.split)
  then show ?case using Cons.IH by simp
qed simp

text \<open>Control messages.\<close>

lemma set_sigstop_run: "same_run s (set_sigstop v s)" "svc_inv (set_sigstop v s) = svc_inv s"
  by (simp_all add: set_sigstop_def same_run_def svc_inv_def has_def)

lemma set_oneshot_run: "same_run s (set_oneshot v s)" "svc_inv (set_oneshot v s) = svc_inv s"
  by (simp_all add: set_oneshot_def svc_inv_def)

interpretation sigstop_op: service_operation "modify_op (set_sigstop v)" "\<lambda>_. True" for v
  by (rule plain_operation) (simp_all add: set_sigstop_run)

interpretation oneshot_op: service_operation "modify_op (set_oneshot v)" "\<lambda>_. True" for v
  by (rule plain_operation) (simp_all add: set_oneshot_run)

interpretation always_sigstop_op: service_operation "always_ok (modify_op (set_sigstop v))" "\<lambda>_. True" for v
  by (rule sigstop_op.always_ok_operation [where v = v]) (simp add: always_ok_def split: prod.split)

interpretation always_oneshot_op: service_operation "always_ok (modify_op (set_oneshot v))" "\<lambda>_. True" for v
  by (rule oneshot_op.always_ok_operation [where v = v]) (simp add: always_ok_def split: prod.split)

lemma control_map_operations:
  "map_of (GetControlMessageMap lb) action = Some op \<Longrightarrow> service_operation op (\<lambda>_. True)"
  using always_sigstop_op.service_operation_axioms always_oneshot_op.service_operation_axioms start_op.service_operation_axioms
    always_stop_op.service_operation_axioms always_restart_op.service_operation_axioms
  by (auto simp: GetControlMessageMap_def split: if_splits)

lemma control_target_listed: "control_target msg name sl = (action, Some i) \<Longrightarrow> i < length (sl_services sl)"
  by (auto simp: control_target_def FindService_def FindInterface_def dest: find_index_Some split: if_splits)

lemma HandleControlMessage_keeps:
  assumes "env_ok ie"
  shows "keeps_process ip (snd (HandleControlMessage ie msg name ip))"
proof (cases "\<exists>action i op. control_target msg name (ip_sl ip) = (action, Some i) \<and> map_of (GetControlMessageMap (ie_lb ie)) action = Some op")
  case True
  then obtain action i op where c: "control_target msg name (ip_sl ip) = (action, Some i)"
    "map_of (GetControlMessageMap (ie_lb ie)) action = Some op" by blast
  from service_operation.on_listed_keeps [OF control_map_operations [OF c(2)] assms control_target_listed [OF c(1)]]
  show ?thesis using c by (simp add: HandleControlMessage_def split_beta)
next
  case False
  then show ?thesis by (auto simp: HandleControlMessage_def split: prod.split option.split)
qed

text \<open>Timers.\<close>

lemma process_actions_listed:
  assumes "\<And>k. os_fork (oss k) \<noteq> 0"
  shows "process_actions lb oss is best sl = (b, sl', effs) \<Longrightarrow> list_all (\<lambda>i. i < length (sl_services sl)) is \<Longrightarrow>
    listed_ok sl \<Longrightarrow> listed_ok sl'"
proof (induction "is" arbitrary: best sl effs)
  case (Cons i ns)
  obtain b1 sl1 e1 where o: "on_service i (process_action lb (oss i) best) sl = (b1, sl1, e1)" by (metis prod_cases3)
  have i: "i < length (sl_services sl)" using Cons.prems(2) by simp
  have "listed_ok sl1" "length (sl_services sl1) = length (sl_services sl)"
    using process_action_op.on_service_listed [OF o i Cons.prems(3) TrueI assms] process_action_op.on_service_frame(1) [OF o i] by simp_all
  then show ?case using Cons.IH [of b1 sl1] Cons.prems o by (auto split: prod.splits)
qed simp

lemma turn_timers_ok:
  assumes "env_ok ie" "ok_process (il_process il)"
  shows "ok_process (il_process (snd (turn_timers ie il)))"
proof (cases "shutting_down (il_process il)")
  case False
  let ?ip = "il_process il"
  obtain t sl effs where h: "HandleProcessActions (ie_lb ie) (\<lambda>i. ie_os ie (length (ip_trace ?ip) + i)) (ip_sl ?ip) = (t, sl, effs)"
    by (metis prod_cases3)
  have "listed_ok sl"
    using process_actions_listed [OF _ h [unfolded HandleProcessActions_def]] assms
    by (simp add: env_ok_def ok_process_def list_all_iff)
  then have "ok_process (absorb effs (set_sl sl ?ip))" using assms(2) by (simp add: ok_process_def)
  then show ?thesis using False h by (simp add: turn_timers_def on_process_def Let_def)
qed (use assms in \<open>simp add: turn_timers_def\<close>)

section \<open>The loop\<close>

text \<open>
  Before the key chords are started the event loop has no handler of theirs.
\<close>

definition no_chords :: "Keychords \<Rightarrow> bool" where
  "no_chords kc = list_all (\<lambda>fh. snd fh \<in> {SignalFd, WakeFd, MountsFd}) (epoll_handlers (kc_epoll kc))"

definition chords_ok :: "init_loop \<Rightarrow> bool" where
  "chords_ok il = (kc_inv (il_keychords il) \<and> (keychord_init il \<longrightarrow> no_chords (il_keychords il)))"

definition rest_ok :: "init_loop \<Rightarrow> bool" where
  "rest_ok il = (chords_ok il \<and> known_mounts_ok (il_mounts il) \<and> length (control_messages il) \<le> 101)"

definition loop_inv :: "init_loop \<Rightarrow> bool" where
  "loop_inv il = (ok_process (il_process il) \<and> rest_ok il)"

lemma rest_ok_process [simp]: "rest_ok (il\<lparr>il_process := ip\<rparr>) = rest_ok il" "rest_ok (upd_process f il) = rest_ok il"
  "rest_ok (snd (on_process g il)) = rest_ok il" "rest_ok (set_il_am am il) = rest_ok il"
  by (simp_all add: rest_ok_def chords_ok_def upd_process_def on_process_def set_il_am_def split: prod.split)

lemma process_of [simp]: "il_process (upd_process f il) = f (il_process il)" "il_process (snd (on_process g il)) = snd (g (il_process il))"
  "il_am (set_il_am am il) = am" "il_process (set_il_am am il) = set_am am (il_process il)"
  by (simp_all add: upd_process_def on_process_def set_il_am_def il_am_def split: prod.split)

lemma no_chords_device: "no_chords kc \<Longrightarrow> \<not> has_device (kc_epoll kc)"
  by (auto simp: no_chords_def has_device_def list_all_iff)

lemma emptied_ok [simp]: "kc_inv (kc\<lparr>kc_out := es\<rparr>) = kc_inv kc" "no_chords (kc\<lparr>kc_out := es\<rparr>) = no_chords kc"
  using codes_fit_cong [of "kc\<lparr>kc_out := es\<rparr>" kc] by (simp_all add: kc_inv_def no_chords_def)

lemma drain_keychords_rest:
  "kc_inv kc \<Longrightarrow> (keychord_init il \<Longrightarrow> no_chords kc) \<Longrightarrow> rest_ok il \<Longrightarrow> rest_ok (drain_keychords ie kc il)"
  by (simp add: drain_keychords_def rest_ok_def chords_ok_def upd_process_def)

lemma Register_epoll: "kc_epoll (fold Register ks kc) = kc_epoll kc"
  by (induction ks arbitrary: kc) (simp_all add: Register_def)

lemma KeychordInit_rest: "rest_ok il \<Longrightarrow> rest_ok (snd (KeychordInit ie args il))"
proof (cases "keychord_init il")
  case True
  let ?il = "il\<lparr>keychord_init := False\<rparr>"
  let ?kc = "fold Register (map keycodes (sl_services (ip_sl (il_process il)))) (il_keychords il)"
  assume r: "rest_ok il"
  then have "kc_inv ?kc" using True no_chords_device [of "il_keychords il"] by (simp add: kc_inv_def Register_epoll rest_ok_def chords_ok_def)
  then obtain kc where "Keychords_Start (me_devices (ie_machine ie)) (me_inotify (ie_machine ie)) (me_input_dir (ie_machine ie)) ?kc = Some kc" "kc_inv kc"
    using Keychords_Start_ok by blast
  moreover have "rest_ok ?il" using r by (simp add: rest_ok_def chords_ok_def)
  ultimately show ?thesis using True drain_keychords_rest [of kc ?il ie] by (simp add: KeychordInit_def Let_def)
qed (simp add: KeychordInit_def)

lemma KeychordInit_keeps: "env_ok ie \<Longrightarrow> keeps_process (il_process il) (il_process (snd (KeychordInit ie args il)))"
  using keychord_effects_keep by (auto simp: KeychordInit_def drain_keychords_def Let_def keeps_same split: option.split)

lemma run_closure_keeps: "env_ok ie \<Longrightarrow> keeps_process ip (snd (run_closure ie c ip))"
  by (cases c) (simp_all add: run_closure_def onrestart.DoReboot_keeps onrestart.DoUserspaceReboot_keeps)

lemma apply_loop_keeps:
  assumes "env_ok ie" "rest_ok il"
  shows "keeps_process (il_process il) (il_process (snd (apply_loop ie f args il))) \<and> rest_ok (snd (apply_loop ie f args il))"
proof -
  have b: "keeps_process ip (snd (apply_builtin (builtin_functions @ init_actions) ie f args ip))" for ip
    using builtin_functions_harmless init_actions_harmless assms(1) by (intro apply_builtin_keeps) auto
  have e: "rest_ok (il\<lparr>property_triggers_enabled := True\<rparr>)" using assms(2) by (simp add: rest_ok_def chords_ok_def)
  show ?thesis
  proof (cases "map_of (ip_closures (il_process il)) f")
    case None
    then show ?thesis
      using assms b KeychordInit_keeps [OF assms(1)] KeychordInit_rest [OF assms(2)] e
      by (auto simp: apply_loop_def loop_actions_def property_enable_triggers_action_def split: if_splits option.split)
  next
    case (Some c)
    then show ?thesis using assms run_closure_keeps [OF assms(1)] by (simp add: apply_loop_def)
  qed
qed

definition loop_in_order :: "init_env \<Rightarrow> init_loop \<Rightarrow> bool" where
  "loop_in_order ie il = (in_order ie (il_process il) \<and> rest_ok il)"

interpretation main_host: action_host "main_env ie" il_am set_il_am "loop_in_order ie" for ie
proof
  fix s f ba sc args am
  show "il_am (set_il_am am s) = am" by simp
  show "loop_in_order ie s \<Longrightarrow> loop_in_order ie (set_il_am am s)" by (simp add: loop_in_order_def in_order_def)
  assume o: "loop_in_order ie s" "am_inv (il_am s)"
  then have o': "in_order ie (il_process s)" "am_inv (ip_am (il_process s))" "rest_ok s" "env_ok ie"
    by (simp_all add: loop_in_order_def in_order_def il_am_def)
  have a: "keeps_process (il_process s) (il_process (snd (apply_loop ie f ba s)))" "rest_ok (snd (apply_loop ie f ba s))"
    using apply_loop_keeps [OF o'(4,3)] by simp_all
  show "am_extends (il_am s) (il_am (snd (apply_fn (main_env ie) f ba s))) \<and> loop_in_order ie (snd (apply_fn (main_env ie) f ba s))"
    using keeps_in_order [OF o'(1,2) a(1)] a(2) by (simp add: main_env_def loop_in_order_def il_am_def)
  show "am_extends (il_am s) (il_am (snd (sub_execute (main_env ie) sc args s))) \<and> loop_in_order ie (snd (sub_execute (main_env ie) sc args s))"
    using keeps_in_order [OF o'(1,2) Execute_keeps] o'(3) by (simp add: main_env_def loop_in_order_def il_am_def)
  show "am_extends (il_am s) (il_am (snd (sub_expand (main_env ie) sc args s))) \<and> loop_in_order ie (snd (sub_expand (main_env ie) sc args s))"
    using keeps_in_order [OF o'(1,2) ExpandArgs_keeps] o'(3) by (simp add: main_env_def loop_in_order_def il_am_def)
qed

lemma turn_command_ok:
  assumes "env_ok ie" "loop_inv il"
  shows "\<exists>il'. turn_command ie il = Some il' \<and> loop_inv il'"
proof (cases "blocked il")
  case False
  have "am_inv (il_am il)" "loop_in_order ie il"
    using assms by (simp_all add: loop_inv_def ok_process_def loop_in_order_def in_order_def il_am_def)
  from main_host.ExecuteOneCommand_inv [OF this] obtain il'
    where "ExecuteOneCommand (main_env ie) il_am set_il_am il = Some il'" "am_inv (il_am il')" "loop_in_order ie il'" by blast
  then show ?thesis
    using False by (simp add: turn_command_def loop_inv_def ok_process_def loop_in_order_def in_order_def il_am_def)
qed (use assms in \<open>simp add: turn_command_def\<close>)

lemma turn_shutdown_ok: "env_ok ie \<Longrightarrow> loop_inv il \<Longrightarrow> loop_inv (turn_shutdown ie il)"
proof -
  assume "env_ok ie" "loop_inv il"
  then have "ok_process ((HandlePowerctlMessage ie command (il_process il))\<lparr>do_shutdown := b\<rparr>)" for command b
    using HandlePowerctlMessage_ok [of ie "il_process il" command] by (simp add: loop_inv_def ok_process_def)
  then show "loop_inv (turn_shutdown ie il)"
    using \<open>loop_inv il\<close> by (simp add: turn_shutdown_def loop_inv_def split: option.split)
qed

lemma PropertyChanged_ok: "loop_inv il \<Longrightarrow> loop_inv (PropertyChanged ie n v il)"
proof -
  have c: "ok_process (CheckAndResetWait ie n v ip) = ok_process ip" for ip
    by (simp add: CheckAndResetWait_def ok_process_def Let_def)
  have t: "ok_process (trigger_shutdown v ip) = ok_process ip" for ip by (simp add: ok_process_def)
  have q: "ok_process (set_am (QueuePropertyChange n v (ip_am ip)) ip)" if "ok_process ip" for ip
    using keeps_ok [OF keeps_am [OF QueuePropertyChange_extends] that] .
  show "loop_inv il \<Longrightarrow> loop_inv (PropertyChanged ie n v il)"
    by (auto simp: PropertyChanged_def loop_inv_def c t q il_am_def Let_def)
qed

lemma MountHandlerFunction_ok: "loop_inv il \<Longrightarrow> loop_inv (MountHandlerFunction ie lines il)"
proof -
  assume i: "loop_inv il"
  obtain t g where c: "compare_mounts (ParseMount (ie_lb ie) (me_mounts (ie_machine ie))) lines [] (il_mounts il) = (t, g)" by fastforce
  have "known_mounts_ok (apply_mounts (t, g) (il_mounts il))"
    using i fold_insort_sorted fold_remove1_sorted by (simp add: apply_mounts_def loop_inv_def rest_ok_def)
  then show "loop_inv (MountHandlerFunction ie lines il)"
    using i c by (simp add: MountHandlerFunction_def loop_inv_def set_mount_properties_ok) (simp add: rest_ok_def chords_ok_def)
qed

text \<open>The handlers that \<^verbatim>\<open>Wait\<close> copied: those of the chords are only there once the chords are started.\<close>

definition servable :: "handler \<Rightarrow> init_loop \<Rightarrow> bool" where
  "servable h il =
     ((\<forall>fd. h = KeychordFd fd \<longrightarrow> codes_fit (il_keychords il)) \<and>
      (h \<notin> {SignalFd, WakeFd, MountsFd} \<longrightarrow> \<not> keychord_init il))"

lemma codes_fit_out [simp]: "codes_fit (kc\<lparr>kc_out := es\<rparr>) = codes_fit kc"
  by (rule codes_fit_cong) simp_all

lemma serve_handler_ok:
  assumes "env_ok ie" "loop_inv il" "servable h il"
  shows "\<exists>il'. serve_handler ie te h il = Some il' \<and> loop_inv il' \<and> (\<forall>h'. servable h' il \<longrightarrow> servable h' il')"
proof (cases "h \<in> {SignalFd, WakeFd, MountsFd}")
  case True
  have "loop_inv (upd_process (HandleSignalFd ie (te_signal te)) il)"
    using HandleSignalFd_ok [OF assms(1)] assms(2) by (simp add: loop_inv_def)
  moreover have "keychord_init (MountHandlerFunction ie ls il) = keychord_init il"
    "il_keychords (MountHandlerFunction ie ls il) = il_keychords il" for ls
    by (simp_all add: MountHandlerFunction_def upd_process_def split: prod.split)
  ultimately show ?thesis
    using True assms(2) MountHandlerFunction_ok [OF assms(2)]
    by (auto simp: serve_handler_def servable_def upd_process_def)
next
  case False
  then have k: "\<not> keychord_init il" using assms(3) by (simp add: servable_def)
  obtain kc where s: "serve_keychord (me_devices (ie_machine ie)) (te_key te) (te_changes te) h (il_keychords il) = Some kc"
      "kc_inv kc" "codes_fit (il_keychords il) \<longrightarrow> codes_fit kc"
    using serve_keychord_ok [of "il_keychords il" h "me_devices (ie_machine ie)" "te_key te" "te_changes te"] assms(2,3)
    by (auto simp: loop_inv_def rest_ok_def chords_ok_def servable_def)
  have "rest_ok (drain_keychords ie kc il)" using drain_keychords_rest [of kc il ie] s(2) k assms(2) by (simp add: loop_inv_def)
  moreover have "ok_process (il_process (drain_keychords ie kc il))"
    using keeps_ok [OF keychord_effects_keep [OF assms(1)]] assms(2) by (simp add: drain_keychords_def loop_inv_def)
  ultimately have "loop_inv (drain_keychords ie kc il)" by (simp add: loop_inv_def)
  moreover have "servable h' (drain_keychords ie kc il)" if "servable h' il" for h'
    using that s(3) by (simp add: servable_def drain_keychords_def upd_process_def)
  moreover have "serve_handler ie te h il = Some (drain_keychords ie kc il)"
    using False s(1) by (cases h) (simp_all add: serve_handler_def)
  ultimately show ?thesis by blast
qed

lemma serve_handlers_ok:
  assumes "env_ok ie"
  shows "loop_inv il \<Longrightarrow> \<forall>h \<in> set hs. servable h il \<Longrightarrow> \<exists>il'. serve_handlers ie te hs il = Some il' \<and> loop_inv il'"
proof (induction hs arbitrary: il)
  case (Cons h hs)
  then obtain il1 where "serve_handler ie te h il = Some il1" "loop_inv il1" "\<forall>h'. servable h' il \<longrightarrow> servable h' il1"
    using serve_handler_ok [OF assms, of il h te] by auto
  then show ?case using Cons.IH [of il1] Cons.prems by auto
qed simp

lemma turn_events_ok:
  assumes "env_ok ie" "loop_inv il"
  shows "\<exists>il'. turn_events ie te il = Some il' \<and> loop_inv il'"
proof (cases "Wait (te_ready te) (kc_epoll (il_keychords il))")
  case (Inr hs)
  have "servable h il" if "h \<in> set hs" for h
    using Wait_registered [OF Inr that] assms(2)
    by (force simp: servable_def loop_inv_def rest_ok_def chords_ok_def no_chords_def list_all_iff kc_inv_def has_device_def)
  moreover have "loop_inv (upd_process (reap_outstanding ie (run_onrestart ie)) il)"
    using keeps_ok [OF onrestart.reap_outstanding_keeps [OF assms(1)]] assms(2) by (simp add: loop_inv_def)
  moreover have "servable h (upd_process f il) = servable h il" for h f by (simp add: servable_def upd_process_def)
  ultimately show ?thesis
    using Inr assms serve_handlers_ok [OF assms(1), of "upd_process (reap_outstanding ie (run_onrestart ie)) il" hs te]
    by (auto simp: turn_events_def)
qed (use assms in \<open>simp add: turn_events_def\<close>)

lemma turn_controls_ok:
  assumes "env_ok ie" "loop_inv il"
  shows "loop_inv (turn_controls ie il)"
proof -
  have "loop_inv (HandleControlMessages ie il)"
  proof (cases "control_messages il")
    case (Cons cm cms)
    have "ok_process (snd (HandleControlMessage ie (cm_message cm) (cm_name cm) (il_process il)))"
      using keeps_ok [OF HandleControlMessage_keeps [OF assms(1)]] assms(2) by (simp add: loop_inv_def)
    then show ?thesis
      using Cons assms(2)
      by (auto simp: HandleControlMessages_def loop_inv_def rest_ok_def chords_ok_def ok_process_def split: prod.split)
  qed (use assms in \<open>simp add: HandleControlMessages_def\<close>)
  then show ?thesis
    using assms(2)
    by (auto simp: turn_controls_def SetUsbController_def loop_inv_def ok_process_def upd_process_def rest_ok_def chords_ok_def split: option.split)
qed

lemma main_turn_ok:
  assumes "env_ok ie" "loop_inv il"
  shows "\<exists>t il'. main_turn ie te il = Some (t, il') \<and> loop_inv il'"
proof -
  obtain il1 where c: "turn_command ie (turn_shutdown ie il) = Some il1" "loop_inv il1"
    using turn_command_ok [OF assms(1) turn_shutdown_ok [OF assms]] by blast
  obtain t il2 where m: "turn_timers ie il1 = (t, il2)" by fastforce
  have "ok_process (il_process il2)" using turn_timers_ok [OF assms(1), of il1] c(2) m by (simp add: loop_inv_def)
  moreover have "rest_ok (snd (turn_timers ie il1)) = rest_ok il1" by (simp add: turn_timers_def)
  then have "rest_ok il2" using c(2) m by (simp add: loop_inv_def)
  ultimately have "loop_inv il2" by (simp add: loop_inv_def)
  then obtain il3 where "turn_events ie te il2 = Some il3" "loop_inv il3" using turn_events_ok [OF assms(1)] by blast
  then show ?thesis using c m turn_controls_ok [OF assms(1)] by (simp add: main_turn_def)
qed

section \<open>Runs\<close>

text \<open>
  Everything that can happen to init after its start, in any order: a turn of the loop with any
  answers of the kernel, and the calls of the property thread, which are made while it may send
  messages.
\<close>

inductive init_reaches :: "init_env \<Rightarrow> init_loop \<Rightarrow> init_loop \<Rightarrow> bool" for ie where
  at_start: "init_reaches ie il il"
| turn: "init_reaches ie il il1 \<Longrightarrow> main_turn ie te il1 = Some (t, il2) \<Longrightarrow> init_reaches ie il il2"
| property: "init_reaches ie il il1 \<Longrightarrow> sending_messages (il_process il1) \<Longrightarrow> init_reaches ie il (PropertyChanged ie n v il1)"
| control: "init_reaches ie il il1 \<Longrightarrow> sending_messages (il_process il1) \<Longrightarrow> length (control_messages il1) \<le> 100 \<Longrightarrow>
    init_reaches ie il (il1\<lparr>control_messages := control_messages il1 @ [cm]\<rparr>)"

lemma init_reaches_inv: "init_reaches ie il il' \<Longrightarrow> env_ok ie \<Longrightarrow> loop_inv il \<Longrightarrow> loop_inv il'"
proof (induction rule: init_reaches.induct)
  case (turn il il1 te t il2)
  then show ?case using main_turn_ok [of ie il1 te] by auto
next
  case (property il il1 n v)
  then show ?case using PropertyChanged_ok by blast
next
  case (control il il1 cm)
  then show ?case by (simp add: loop_inv_def rest_ok_def chords_ok_def)
qed

text \<open>The handlers that are registered before the loop, with their descriptors.\<close>

definition new_loop :: "int \<Rightarrow> int \<Rightarrow> int \<Rightarrow> init_process \<Rightarrow> init_loop" where
  "new_loop signal_fd wake_fd mounts_fd ip =
     (let ep = snd (RegisterHandler True signal_fd SignalFd 1 new_epoll);
          ep = snd (RegisterHandler True wake_fd WakeFd 1 ep);
          ep = snd (RegisterHandler True mounts_fd MountsFd 10 ep)
      in \<lparr>il_process = ip,
          il_keychords =
            \<lparr>kc_registration = [], kc_entries = [], kc_current = new_mask 0, inotify_fd = - 1, EviocsmaskSupported = True,
             kc_epoll = ep, kc_out = []\<rparr>,
          il_mounts = [], control_messages = [], controller_set = False, property_triggers_enabled = False, keychord_init = True\<rparr>)"

lemma new_loop_inv: "ok_process ip \<Longrightarrow> loop_inv (new_loop a b c ip)"
proof -
  have r: "list_all P (epoll_handlers (snd (RegisterHandler True fd h ev ep)))"
    if "list_all P (epoll_handlers ep)" "P (fd, h)" for P fd h ev and ep :: "handler Epoll"
    using that RegisterHandler_handlers [of True fd h ev ep] by (auto simp: list_all_iff)
  have n: "no_chords (il_keychords (new_loop a b c ip))"
    by (simp add: no_chords_def new_loop_def Let_def r new_epoll_def)
  then show "ok_process ip \<Longrightarrow> loop_inv (new_loop a b c ip)"
    using no_chords_device [OF n]
    by (simp add: loop_inv_def rest_ok_def chords_ok_def kc_inv_def known_mounts_ok_def) (simp add: new_loop_def Let_def known_mounts_ok_def)
qed

text \<open>Starting.\<close>

lemma innit_bootstrap_frame:
  assumes "innit_bootstrap load ie ip = (ie', ip')"
  shows "ip_rc ip' = ip_rc ip" "env_ok ie' = env_ok ie"
  using assms
  by (auto simp: innit_bootstrap_def sys_def sys_do_def record_effect_def note_policy_def env_ok_def Let_def
      split: option.splits prod.splits if_splits)

lemma queue_boot_actions_keeps: "keeps_process ip (queue_boot_actions ie ip)"
proof -
  have b: "keeps_process ip (queue_builtin f n ip)" for f n ip
    by (simp add: queue_builtin_def keeps_am)
  show ?thesis
    unfolding queue_boot_actions_def Let_def
    by (intro keeps_trans [OF _ b] keeps_trans [OF _ queue_event_keeps] b)
qed

lemma second_stage_ok:
  assumes "env_ok ie" "ip_rc ip = boot_state" "second_stage load ie ip = Some (ie', ip')"
  shows "env_ok ie' \<and> ok_process ip'"
proof -
  obtain ip1 where i: "innit_bootstrap load ie ip = (ie', ip1)"
    using assms(3) by (auto simp: second_stage_def Let_def split: option.splits prod.splits)
  have e: "env_ok ie'" "ip_rc ip1 = boot_state" using innit_bootstrap_frame [OF i] assms(1,2) by simp_all
  obtain rs late where l: "LoadBootScripts (ie_lb ie') (ie_rc ie') (ie_cfg ie') (ie_fuel ie') boot_state = Some (rs, late)"
    using assms(3) i e(2) by (auto simp: second_stage_def Let_def split: option.splits)
  then obtain b where p: "boot_parse (ie_lb ie') (ie_rc ie') (ie_cfg ie') (ie_fuel ie') kBootScript boot_state = Some (b, rs)"
    by (auto simp: LoadBootScripts_boot)
  let ?ip = "ip1\<lparr>ip_rc := rs, late_import_paths := late_import_paths ip1 @ late\<rparr>"
  have "good empty_services new_action_manager (ie_lb ie') (ie_rc ie') (ie_cfg ie') rs"
    by (rule boot_parse_good [OF p]) (simp add: good_def boot_state_ok)
  then have "parsing ie' ip1 ?ip" by (simp add: parsing_def ip_sl_def ip_am_def e(2)) (simp add: boot_state_def)
  then have "keeps_process ip1 ?ip" using parsing_keeps [OF e(1)] by blast
  moreover have "ok_process ip1"
    by (simp add: ok_process_def ip_am_def ip_sl_def e(2)) (simp add: boot_state_def am_inv_new listed_ok_def sl_inv_def empty_services_def order_inv_def names_ok_def)
  ultimately have "ok_process ?ip" by (rule keeps_ok)
  then have "ok_process (queue_boot_actions ie' (sys_do ie' c1 (sys_do ie' c2 ?ip)))" for c1 c2
    by (intro keeps_ok [OF queue_boot_actions_keeps]) (simp add: ok_process_def)
  then show ?thesis using assms(3) i l e by (auto simp: second_stage_def Let_def)
qed

section \<open>The reboot\<close>

lemma set_am_frame [simp]:
  "ip_trace (set_am am ip) = ip_trace ip" "ip_closures (set_am am ip) = ip_closures ip" "shutting_down (set_am am ip) = shutting_down ip"
  "waiting_for_prop (set_am am ip) = waiting_for_prop ip" "ip_sl (set_am am ip) = ip_sl ip" "shutdown_command (set_am am ip) = shutdown_command ip"
  "do_shutdown (set_am am ip) = do_shutdown ip"
  by (simp_all add: set_am_def set_rc_world_def ip_sl_def)

lemma DoReboot_last:
  "\<exists>warm. last (ip_trace (DoReboot ie run cmd reason target fsck ip)) =
     Called (reboot_call (IsRebootCapable (se_boot_capability (ie_shutdown ie))) warm cmd target)"
  using RebootSystem_last by (simp add: DoReboot_def Let_def split: prod.split option.split)

definition hears_shutdown :: "ActionManager \<Rightarrow> bool" where
  "hears_shutdown am = list_ex (\<lambda>ia. event_trigger (snd ia) = ''shutdown'') (am_actions am)"

lemma hears_shutdown_snoc:
  "am_actions am' = am_actions am @ [x] \<Longrightarrow> event_trigger (snd x) = ''shutdown_done'' \<Longrightarrow> \<not> hears_shutdown am \<Longrightarrow> \<not> hears_shutdown am'"
  by (simp add: hears_shutdown_def)

lemma begin_shutdown_actions:
  "am_actions (ip_am (begin_shutdown ie cmd c t fsck ip)) =
     am_actions (ip_am ip) @ [last (am_actions (ip_am (begin_shutdown ie cmd c t fsck ip)))]"
  by (simp add: begin_shutdown_def queue_closure_def Let_def QueueBuiltin_events queue_event_am ClearQueue_def)

text \<open>The queue of a process that was taken over, when no script reacts to the shutdown.\<close>

lemma taken_over_next:
  assumes "am_inv (ip_am ip)" "taken_over ie handler ip" "\<not> hears_shutdown (ip_am ip)"
  shows "\<exists>i a f. fill_executing props (ip_am ip) = (ip_am ip)\<lparr>current_executing_actions := [i], event_queue := []\<rparr> \<and>
    map_of (am_actions (ip_am ip)) i = Some a \<and> act_subcontext a = None \<and> current_command (ip_am ip) = 0 \<and>
    (\<exists>c. commands a = [c] \<and> cmd_func c = f \<and> cmd_args c = [''shutdown_done''] \<and> map_of (ip_closures ip) f = Some handler)"
proof -
  let ?am = "ip_am ip"
  obtain i a where l: "last (am_actions ?am) = (i, a)" by fastforce
  then have t: "am_actions ?am \<noteq> []" "event_queue ?am = shutdown_events ie @ [BuiltinAction i]" "act_subcontext a = None"
      "map (\<lambda>c. (map_of (ip_closures ip) (cmd_func c), cmd_args c)) (commands a) = [(Some handler, [''shutdown_done''])]"
      "current_executing_actions ?am = []"
    using assms(2) by (simp_all add: taken_over_def)
  have m: "(i, a) \<in> set (am_actions ?am)" using t(1) l by (metis last_in_set)
  have d: "distinct (map fst (am_actions ?am))" and z: "current_command ?am = 0" using assms(1) t(5) by (simp_all add: am_inv_def)
  have "matching props (am_actions ?am) (EventTrigger ''shutdown'') = []"
    using assms(3) by (force simp: matching_def filter_empty_conv hears_shutdown_def list_ex_iff)
  moreover have b: "matching props (am_actions ?am) (BuiltinAction i) = [i]"
  proof -
    have "filter (\<lambda>ja. fst ja = i) xs = [(i, a)]" if "distinct (map fst xs)" "(i, a) \<in> set xs" for xs
      using that by (induction xs) (auto simp: filter_empty_conv image_iff)
    moreover have "CheckEvent props (BuiltinAction i) = (\<lambda>ja. fst ja = i)" by (auto simp: fun_eq_iff)
    ultimately show ?thesis using d m by (simp add: matching_def)
  qed
  ultimately have "next_actions props (am_actions ?am) (event_queue ?am) = ([i], [])"
    using t(2) by (simp add: shutdown_events_def)
  then have "fill_executing props ?am = ?am\<lparr>current_executing_actions := [i], event_queue := []\<rparr>"
    using t(5) by (simp add: fill_executing_def)
  moreover have "map_of (am_actions ?am) i = Some a" using d m by simp
  moreover obtain c where "commands a = [c]" "cmd_args c = [''shutdown_done'']" "map_of (ip_closures ip) (cmd_func c) = Some handler"
    using t(4) by auto
  ultimately show ?thesis using t(3) z by blast
qed

lemma taken_over_runs:
  assumes "env_ok ie" "loop_inv il" "taken_over ie handler (il_process il)" "\<not> hears_shutdown (il_am il)"
  shows "\<exists>il' ip. turn_command ie il = Some il' \<and> ip_trace (il_process il') = ip_trace (snd (run_closure ie handler ip))"
proof -
  have inv: "am_inv (ip_am (il_process il))" using assms(2) by (simp add: loop_inv_def ok_process_def)
  obtain i a c where n: "fill_executing (env_props (main_env ie) il) (il_am il) = (il_am il)\<lparr>current_executing_actions := [i], event_queue := []\<rparr>"
      "map_of (am_actions (il_am il)) i = Some a" "act_subcontext a = None" "current_command (il_am il) = 0"
      "commands a = [c]" "cmd_args c = [''shutdown_done'']" "map_of (ip_closures (il_process il)) (cmd_func c) = Some handler"
    using taken_over_next [OF inv assms(3) assms(4) [unfolded il_am_def], of "env_props (main_env ie) il"] unfolding il_am_def by blast
  define il1 where "il1 = set_il_am ((il_am il)\<lparr>current_executing_actions := [i], event_queue := []\<rparr>) il"
  have x: "Action.ExecuteCommand (main_env ie) a c il1 = snd (on_process (run_closure ie handler) il1)"
    using n(3,6,7) by (simp add: ExecuteCommand_def InvokeFunc_def RunBuiltinFunction_def main_env_def apply_loop_def il1_def)
  have "\<not> blocked il" using assms(3) by (simp add: taken_over_def blocked_def)
  then have e: "turn_command ie il =
      map_option (\<lambda>am. set_il_am am (snd (on_process (run_closure ie handler) il1))) (after_command i (il_am (snd (on_process (run_closure ie handler) il1))))"
    using n(1,2,4,5) x [symmetric]
    by (simp add: turn_command_def ExecuteOneCommand_def Let_def il1_def [symmetric])
       (simp add: il1_def NumCommands_def Let_def)
  obtain il' where "turn_command ie il = Some il'" using turn_command_ok [OF assms(1,2)] by blast
  moreover from this obtain am where "il' = set_il_am am (snd (on_process (run_closure ie handler) il1))" using e by auto
  ultimately show ?thesis by (intro exI [of _ il'] exI [of _ "il_process il1"]) simp
qed

lemma PropertyChanged_powerctl:
  assumes "\<not> shutting_down (il_process il)"
  shows "CheckShutdown (il_process (PropertyChanged ie ''sys.powerctl'' command il)) = Some command"
    "ip_sl (il_process (PropertyChanged ie ''sys.powerctl'' command il)) = ip_sl (il_process il)"
    "am_actions (il_am (PropertyChanged ie ''sys.powerctl'' command il)) = am_actions (il_am il)"
  using assms
  by (simp_all add: PropertyChanged_def CheckShutdown_def trigger_shutdown_def CheckAndResetWait_def kColdBootDoneProp_def
      ResetWaitForProp_def il_am_def QueuePropertyChange_def push_event_def Let_def)
     (simp_all add: ip_sl_def ip_am_def set_am_def set_rc_world_def)

lemma powerctl_begins:
  assumes "sl_services (ip_sl ip) = [] \<longrightarrow> \<not> exec_running ip" "params = Split (ie_lb ie) command '',''"
    and "param = (if 2 \<le> length params then params ! 1 else [])"
    and "hd params = ''shutdown'' \<and> cmd = (if param = ''thermal'' then RB_THERMOFF else RB_POWEROFF) \<and> target = [] \<or>
         hd params = ''reboot'' \<and> param \<noteq> ''userspace'' \<and> cmd = RB_RESTART2 \<and> fst (parse_reboot ie params ip) = Some target"
  shows "\<exists>ip' fsck. HandlePowerctlMessage ie command ip = begin_shutdown ie cmd command target fsck ip' \<and> ip_am ip' = ip_am ip \<and>
    (sl_services (ip_sl ip') = [] \<longrightarrow> \<not> exec_running ip')"
proof (cases "hd params = ''shutdown''")
  case True
  let ?ip = "if param = ''thermal'' then TurnOffBacklight ie ip else ip"
  have "HandlePowerctlMessage ie command ip = begin_shutdown ie cmd command target (param = ''userrequested'') ?ip"
    using True assms(2-4) by (auto simp: HandlePowerctlMessage_def Let_def)
  moreover have "ip_am ?ip = ip_am ip"
    by (simp add: TurnOffBacklight_def start_named_def split: option.split)
  moreover have "sl_services (ip_sl ?ip) = [] \<longrightarrow> \<not> exec_running ?ip" using assms(1) TurnOffBacklight_runs by simp
  ultimately show ?thesis by blast
next
  case False
  then have r: "hd params = ''reboot''" "param \<noteq> ''userspace''" "cmd = RB_RESTART2" "fst (parse_reboot ie params ip) = Some target"
    using assms(4) by auto
  obtain ip' where p: "parse_reboot ie params ip = (Some target, ip')" using r(4) by (metis prod.collapse)
  then have "HandlePowerctlMessage ie command ip = begin_shutdown ie cmd command target False ip'"
    using r assms(2,3) by (auto simp: HandlePowerctlMessage_def Let_def)
  moreover have "ip_am ip' = ip_am ip" "ip_sl ip' = ip_sl ip" using parse_reboot_fields [of ie params ip] p by simp_all
  ultimately show ?thesis using assms(1) by (intro exI [of _ ip'] exI [of _ False]) simp
qed

section \<open>Theorems\<close>



text \<open>
  A userspace reboot that cannot begin, because the device does not support it or the watchdog
  cannot be forked, leaves init deaf: nothing is queued, the full reboot that the watchdog's
  failure asks for is forgotten by the loop, and init takes no message any more that could ask
  for another one.
\<close>

theorem userspace_reboot_not_begun:
  assumes "CheckShutdown (il_process il) = Some command" "Split (ie_lb ie) command '','' = [''reboot'', ''userspace'']"
    and "\<not> se_userspace_supported (ie_shutdown ie) \<or> ie_sys ie (length (ip_trace (il_process il))) ForkWatchdog \<noteq> None"
  shows "CheckShutdown (il_process (turn_shutdown ie il)) = None \<and> \<not> sending_messages (il_process (turn_shutdown ie il)) \<and>
    \<not> shutting_down (il_process (turn_shutdown ie il)) \<and> il_am (turn_shutdown ie il) = il_am il"
proof -
  have n: "notify_bootloader ie ''userspace'' ip = (Some ''userspace'', ip)" for ip by (simp add: notify_bootloader_def)
  have s: "\<not> shutting_down (il_process il)" using assms(1) by (simp add: CheckShutdown_def split: if_splits)
  have f: "shutting_down (trigger_shutdown c ip) = shutting_down ip" "sending_messages (trigger_shutdown c ip) = sending_messages ip"
    "shutting_down (record_effect e ip) = shutting_down ip" "sending_messages (record_effect e ip) = sending_messages ip" for c e ip
    by (simp_all add: trigger_shutdown_def record_effect_def)
  show ?thesis
    using assms s
    by (auto simp: turn_shutdown_def HandlePowerctlMessage_def parse_reboot_def n HandleUserspaceReboot_def sys_def il_am_def CheckShutdown_def f
        Let_def split: option.splits)
qed

subsection \<open>Witnesses\<close>

definition stock_env :: init_env where
  "stock_env = sample_env\<lparr>ie_rc := sample_rc_env, ie_sys := (\<lambda>_ c. case c of Access _ \<Rightarrow> Some ENOENT | _ \<Rightarrow> None)\<rparr>"

lemma stock_env_ok: "libbase_api (ie_lb stock_env)" "os_fork (ie_os stock_env k) \<noteq> 0"
  using sample_env_ok(1,2) by (simp_all add: stock_env_def)

lemma stock_boots: "\<exists>ip. second_stage sample_loader stock_env sample_process = Some (stock_env, ip)"
proof -
  have i: "innit_bootstrap sample_loader stock_env sample_process = (stock_env, sys_do stock_env c (sys_do stock_env d sample_process))"
    if "c = WriteFile ''/dev/kmsg'' (''innit: policy file missing '' @ kInnitPolicyPath @ [LF])" "d = Access kInnitPolicyPath" for c d
    using that by (simp add: innit_bootstrap_def sys_def sys_do_def stock_env_def)
  have r: "ip_rc (sys_do stock_env c ip) = ip_rc ip" for c ip by (simp add: sys_do_def sys_def record_effect_def)
  obtain rs late where "LoadBootScripts ref_libbase sample_rc_env sample_boot_cfg 1 boot_state = Some (rs, late)"
    by (simp add: LoadBootScripts_boot parse_config_with_def
        sample_rc_env_def ParseConfigFile_def rc_allowed_def innit_gate_def InnitPolicyIsActive_def ReadFile_def log_rc_def)
  then have "LoadBootScripts (ie_lb stock_env) (ie_rc stock_env) (ie_cfg stock_env) (ie_fuel stock_env) (ip_rc sample_process) = Some (rs, late)"
    by (simp add: stock_env_def sample_env_def sample_process_def)
  then show ?thesis using i by (simp add: second_stage_def r Let_def)
qed


lemma sample_loop_ok: "loop_inv (new_loop 3 4 5 sample_process)"
  by (rule new_loop_inv) (simp add: ok_process_def listed_ok_def sample_process_ok)


end
