(* ===== verification/Uevents.thy ===== *)
theory Uevents
  imports Util
begin

text \<open>
  The messages of the kernel that ueventd listens to (\<^verbatim>\<open>init/uevent.h\<close>, \<^verbatim>\<open>init/uevent_listener.cpp\<close>):
  the parser that works on the bytes of a message, and the loops that read messages and hand them
  to a callback.
\<close>

section \<open>Messages\<close>

record Uevent =
  ue_action :: string
  ue_path :: string
  ue_subsystem :: string
  ue_firmware :: string
  ue_partition_name :: string
  ue_device_name :: string
  ue_modalias :: string
  ue_partition_num :: int
  ue_major :: int
  ue_minor :: int

definition cleared_uevent :: Uevent where
  "cleared_uevent =
     \<lparr>ue_action = [], ue_path = [], ue_subsystem = [], ue_firmware = [], ue_partition_name = [], ue_device_name = [],
      ue_modalias = [], ue_partition_num = - 1, ue_major = - 1, ue_minor = - 1\<rparr>"

text \<open>
  \<^verbatim>\<open>atoi\<close> is \<^verbatim>\<open>strtol\<close> in base ten, which saturates at the bounds of \<^verbatim>\<open>long\<close>, cut to \<^verbatim>\<open>int\<close>.
\<close>

definition decimal_value :: "string \<Rightarrow> nat" where
  "decimal_value s = foldl (\<lambda>v c. 10 * v + (code_of c - 48)) 0 s"

definition atoi :: "string \<Rightarrow> int" where
  "atoi s =
     (let t = dropWhile c_isspace s;
          neg = prefix ''-'' t;
          u = (if neg \<or> prefix ''+'' t then drop 1 t else t);
          n = int (decimal_value (takeWhile c_isdigit u));
          v = max (- 9223372036854775808) (min 9223372036854775807 (if neg then - n else n))
      in sint (word_of_int v :: 32 word))"

text \<open>The keys in the order of the comparisons, with what a value does.\<close>

definition event_fields :: "(string \<times> (string \<Rightarrow> Uevent \<Rightarrow> Uevent)) list" where
  "event_fields =
     [(''ACTION='', \<lambda>v u. u\<lparr>ue_action := v\<rparr>), (''DEVPATH='', \<lambda>v u. u\<lparr>ue_path := v\<rparr>),
      (''SUBSYSTEM='', \<lambda>v u. u\<lparr>ue_subsystem := v\<rparr>), (''FIRMWARE='', \<lambda>v u. u\<lparr>ue_firmware := v\<rparr>),
      (''MAJOR='', \<lambda>v u. u\<lparr>ue_major := atoi v\<rparr>), (''MINOR='', \<lambda>v u. u\<lparr>ue_minor := atoi v\<rparr>),
      (''PARTN='', \<lambda>v u. u\<lparr>ue_partition_num := atoi v\<rparr>), (''PARTNAME='', \<lambda>v u. u\<lparr>ue_partition_name := v\<rparr>),
      (''DEVNAME='', \<lambda>v u. u\<lparr>ue_device_name := v\<rparr>), (''MODALIAS='', \<lambda>v u. u\<lparr>ue_modalias := v\<rparr>)]"

definition apply_entry :: "string \<Rightarrow> Uevent \<Rightarrow> Uevent" where
  "apply_entry e u =
     (case find (\<lambda>f. prefix (fst f) e) event_fields of
        None \<Rightarrow> u
      | Some (key, set_value) \<Rightarrow> set_value (drop (length key) e) u)"

text \<open>
  The string at the pointer and the pointer behind its terminator. \<open>None\<close> is a read behind the
  end of the buffer.
\<close>

definition until_nul :: "string \<Rightarrow> (string \<times> string) option" where
  "until_nul buf =
     (if NUL \<in> set buf then Some (takeWhile (\<lambda>c. c \<noteq> NUL) buf, tl (dropWhile (\<lambda>c. c \<noteq> NUL) buf)) else None)"

lemma until_nul_shorter: "until_nul buf = Some (e, rest) \<Longrightarrow> length rest < length buf"
proof -
  assume a: "until_nul buf = Some (e, rest)"
  then have "dropWhile (\<lambda>c. c \<noteq> NUL) buf \<noteq> []" by (auto simp: until_nul_def split: if_splits)
  then have "length (tl (dropWhile (\<lambda>c. c \<noteq> NUL) buf)) < length (dropWhile (\<lambda>c. c \<noteq> NUL) buf)" by simp
  moreover have "rest = tl (dropWhile (\<lambda>c. c \<noteq> NUL) buf)" using a by (auto simp: until_nul_def split: if_splits)
  ultimately show ?thesis using length_dropWhile_le [of "\<lambda>c. c \<noteq> NUL" buf] by simp
qed

function event_loop :: "string \<Rightarrow> Uevent \<Rightarrow> Uevent option" where
  "event_loop msg u =
     (case msg of
        [] \<Rightarrow> None
      | c # _ \<Rightarrow>
          if c = NUL then Some u
          else (case until_nul msg of
                  None \<Rightarrow> None
                | Some (e, rest) \<Rightarrow> event_loop rest (apply_entry e u)))"
  by pat_completeness auto
termination
  by (relation "measure (length \<circ> fst)") (auto dest: until_nul_shorter)

declare event_loop.simps [simp del]

definition ParseEvent :: "string \<Rightarrow> Uevent option" where
  "ParseEvent msg = event_loop msg cleared_uevent"

section \<open>Listening\<close>

datatype ReadUeventResult = kSuccess | kFailed | kInvalid
datatype ListenerAction = kStop | kContinue

definition UEVENT_MSG_LEN :: nat where "UEVENT_MSG_LEN = 8192"

text \<open>
  One receive: \<open>None\<close> is an error or nothing to read, else the bytes. A message that fills the
  buffer is discarded; an accepted one gets two terminators. The outer \<open>None\<close> is a read behind
  the buffer.
\<close>

definition ReadUevent :: "string option \<Rightarrow> (ReadUeventResult \<times> Uevent) option" where
  "ReadUevent received =
     (case received of
        None \<Rightarrow> Some (kFailed, cleared_uevent)
      | Some bytes \<Rightarrow>
          if bytes = [] then Some (kFailed, cleared_uevent)
          else if UEVENT_MSG_LEN \<le> length bytes then Some (kInvalid, cleared_uevent)
          else map_option (\<lambda>u. (kSuccess, u)) (ParseEvent (bytes @ [NUL, NUL])))"

text \<open>
  The messages that are pending, read until a receive fails; each valid one goes to the callback,
  which may stop the loop.
\<close>

fun drain :: "(Uevent \<Rightarrow> 's \<Rightarrow> ListenerAction \<times> 's) \<Rightarrow> string option list \<Rightarrow> 's \<Rightarrow> (ListenerAction \<times> 's) option" where
  "drain callback [] s = Some (kContinue, s)"
| "drain callback (r # rs) s =
     (case ReadUevent r of
        None \<Rightarrow> None
      | Some (kFailed, _) \<Rightarrow> Some (kContinue, s)
      | Some (kInvalid, _) \<Rightarrow> drain callback rs s
      | Some (kSuccess, u) \<Rightarrow>
          (case callback u s of
             (kStop, s) \<Rightarrow> Some (kStop, s)
           | (kContinue, s) \<Rightarrow> drain callback rs s))"

text \<open>
  A directory of \<^verbatim>\<open>/sys\<close>: what poking its \<^verbatim>\<open>uevent\<close> file brings (\<open>None\<close> when there is none), and its
  entries with their names, whether they are directories and whether one can be opened.
\<close>

datatype sys_dir = SysDir (poked: "string option list option") (sys_entries: "(string \<times> sys_dir option) list")

fun RegenerateUeventsForDir :: "(Uevent \<Rightarrow> 's \<Rightarrow> ListenerAction \<times> 's) \<Rightarrow> sys_dir \<Rightarrow> 's \<Rightarrow> (ListenerAction \<times> 's) option"
  and regenerate_entries :: "(Uevent \<Rightarrow> 's \<Rightarrow> ListenerAction \<times> 's) \<Rightarrow> (string \<times> sys_dir option) list \<Rightarrow> 's \<Rightarrow> (ListenerAction \<times> 's) option" where
  "RegenerateUeventsForDir callback (SysDir poke entries) s =
     (case (case poke of None \<Rightarrow> Some (kContinue, s) | Some received \<Rightarrow> drain callback received s) of
        None \<Rightarrow> None
      | Some (kStop, s) \<Rightarrow> Some (kStop, s)
      | Some (kContinue, s) \<Rightarrow> regenerate_entries callback entries s)"
| "regenerate_entries callback [] s = Some (kContinue, s)"
| "regenerate_entries callback ((name, d) # es) s =
     (case d of
        None \<Rightarrow> regenerate_entries callback es s
      | Some dir \<Rightarrow>
          if prefix ''.'' name then regenerate_entries callback es s
          else (case RegenerateUeventsForDir callback dir s of
                  None \<Rightarrow> None
                | Some (kStop, s) \<Rightarrow> Some (kStop, s)
                | Some (kContinue, s) \<Rightarrow> regenerate_entries callback es s))"

definition kRegenerationPaths :: "string list" where "kRegenerationPaths = [''/sys/devices'']"

definition RegenerateUeventsForPath ::
  "(string \<Rightarrow> sys_dir option) \<Rightarrow> (Uevent \<Rightarrow> 's \<Rightarrow> ListenerAction \<times> 's) \<Rightarrow> string \<Rightarrow> 's \<Rightarrow> (ListenerAction \<times> 's) option" where
  "RegenerateUeventsForPath opendir callback path s =
     (case opendir path of None \<Rightarrow> Some (kContinue, s) | Some d \<Rightarrow> RegenerateUeventsForDir callback d s)"

fun regenerate_paths ::
  "(string \<Rightarrow> sys_dir option) \<Rightarrow> (Uevent \<Rightarrow> 's \<Rightarrow> ListenerAction \<times> 's) \<Rightarrow> string list \<Rightarrow> 's \<Rightarrow> 's option" where
  "regenerate_paths opendir callback [] s = Some s"
| "regenerate_paths opendir callback (p # ps) s =
     (case RegenerateUeventsForPath opendir callback p s of
        None \<Rightarrow> None
      | Some (kStop, s) \<Rightarrow> Some s
      | Some (kContinue, s) \<Rightarrow> regenerate_paths opendir callback ps s)"

definition RegenerateUevents :: "(string \<Rightarrow> sys_dir option) \<Rightarrow> (Uevent \<Rightarrow> 's \<Rightarrow> ListenerAction \<times> 's) \<Rightarrow> 's \<Rightarrow> 's option" where
  "RegenerateUevents opendir callback s = regenerate_paths opendir callback kRegenerationPaths s"

text \<open>
  What one turn of \<^verbatim>\<open>Poll\<close> meets: the time is up (or \<^verbatim>\<open>poll\<close> returned nothing), \<^verbatim>\<open>poll\<close> failed, it
  returned without input, or there is input. The list of turns stands for the time until now.
\<close>

datatype poll_turn = TimedOut | PollFailed | NoInput | Input "string option list"

fun Poll :: "(Uevent \<Rightarrow> 's \<Rightarrow> ListenerAction \<times> 's) \<Rightarrow> poll_turn list \<Rightarrow> 's \<Rightarrow> 's option" where
  "Poll callback [] s = Some s"
| "Poll callback (TimedOut # ts) s = Some s"
| "Poll callback (PollFailed # ts) s = Poll callback ts s"
| "Poll callback (NoInput # ts) s = Poll callback ts s"
| "Poll callback (Input received # ts) s =
     (case drain callback received s of
        None \<Rightarrow> None
      | Some (kStop, s) \<Rightarrow> Some s
      | Some (kContinue, s) \<Rightarrow> Poll callback ts s)"

section \<open>What a message says\<close>

text \<open>The entries of a message: its strings up to the first empty one.\<close>

fun split_nul :: "string \<Rightarrow> string list" where
  "split_nul [] = [[]]"
| "split_nul (c # cs) = (if c = NUL then [] # split_nul cs else (c # hd (split_nul cs)) # tl (split_nul cs))"

definition event_entries :: "string \<Rightarrow> string list" where
  "event_entries bytes = takeWhile (\<lambda>e. e \<noteq> []) (split_nul bytes)"

lemma split_nul_nonempty: "split_nul s \<noteq> []"
  by (induction s) auto

lemma split_nul_plain: "NUL \<notin> set s \<Longrightarrow> split_nul s = [s]"
  by (induction s) auto

lemma split_nul_step: "NUL \<notin> set e \<Longrightarrow> split_nul (e @ NUL # r) = e # split_nul r"
  by (induction e) auto

lemma until_nul_step: "NUL \<notin> set e \<Longrightarrow> until_nul (e @ NUL # r) = Some (e, r)"
  by (induction e) (auto simp: until_nul_def)

lemma event_loop_stop: "event_loop (NUL # r) u = Some u"
  by (simp add: event_loop.simps)

lemma event_loop_step: "e \<noteq> [] \<Longrightarrow> NUL \<notin> set e \<Longrightarrow> event_loop (e @ NUL # r) u = event_loop r (apply_entry e u)"
  by (cases e) (auto simp: event_loop.simps [of "_ # _"] until_nul_step [of "_ # _", simplified])

lemma event_loop_entries: "event_loop (bytes @ [NUL, NUL]) u = Some (fold apply_entry (event_entries bytes) u)"
proof (induction bytes arbitrary: u rule: length_induct)
  case (1 bytes)
  show ?case
  proof (cases "NUL \<in> set bytes")
    case False
    then show ?thesis
      using event_loop_step [of bytes "[NUL]"] by (cases bytes) (auto simp: event_entries_def split_nul_plain event_loop_stop)
  next
    case True
    then obtain e r where b: "bytes = e @ NUL # r" "NUL \<notin> set e" by (meson split_list_first)
    then have "event_loop (r @ [NUL, NUL]) v = Some (fold apply_entry (event_entries r) v)" for v using 1 by simp
    then show ?thesis
      using b event_loop_step [of e "r @ [NUL, NUL]"]
      by (cases "e = []") (auto simp: event_entries_def split_nul_step event_loop_stop)
  qed
qed

lemma ReadUevent_total: "\<exists>r u. ReadUevent received = Some (r, u)"
  by (auto simp: ReadUevent_def ParseEvent_def event_loop_entries split: option.split)

text \<open>
  What a message is worth: nothing when the receive failed or the message was too long, else the
  event of its entries.
\<close>

definition event_of :: "string \<Rightarrow> Uevent" where
  "event_of bytes = fold apply_entry (event_entries bytes) cleared_uevent"

fun pending_events :: "string option list \<Rightarrow> Uevent list" where
  "pending_events [] = []"
| "pending_events (None # rs) = []"
| "pending_events (Some bytes # rs) =
     (if bytes = [] then []
      else if UEVENT_MSG_LEN \<le> length bytes then pending_events rs
      else event_of bytes # pending_events rs)"

lemma drain_pending:
  assumes "\<And>u s. callback u s = (kContinue, f u s)"
  shows "drain callback rs s = Some (kContinue, fold f (pending_events rs) s)"
proof (induction rs arbitrary: s rule: pending_events.induct)
  case (3 bytes rs)
  then show ?case
    by (simp add: ReadUevent_def ParseEvent_def event_loop_entries assms event_of_def)
qed (simp_all add: ReadUevent_def)

text \<open>The events of a tree, in the order in which the directories are visited.\<close>

fun tree_events :: "sys_dir \<Rightarrow> Uevent list" and entry_events :: "(string \<times> sys_dir option) list \<Rightarrow> Uevent list" where
  "tree_events (SysDir poke entries) =
     (case poke of None \<Rightarrow> [] | Some received \<Rightarrow> pending_events received) @ entry_events entries"
| "entry_events [] = []"
| "entry_events ((name, d) # es) =
     (case d of None \<Rightarrow> [] | Some dir \<Rightarrow> if prefix ''.'' name then [] else tree_events dir) @ entry_events es"

lemma regenerate_tree:
  assumes "\<And>u s. callback u s = (kContinue, f u s)"
  shows "RegenerateUeventsForDir callback d s = Some (kContinue, fold f (tree_events d) s)"
    "regenerate_entries callback es s = Some (kContinue, fold f (entry_events es) s)"
proof (induction d and es arbitrary: s and s rule: tree_events_entry_events.induct)
  case (1 poke entries)
  then show ?case by (cases poke) (simp_all add: drain_pending [OF assms])
next
  case (3 name d es)
  then show ?case by (cases d) simp_all
qed simp

section \<open>Properties\<close>

text \<open>
  C29: whatever the kernel, or whoever can write to the socket, sends: the parser stays inside of its
  buffer, and what it finds is the effect of the entries of the message, in their order, up to
  the first empty one. A message that fills the buffer is not looked at.
\<close>

theorem uevent_in_bounds:
  "ReadUevent (Some bytes) =
     Some (if bytes = [] then (kFailed, cleared_uevent)
           else if UEVENT_MSG_LEN \<le> length bytes then (kInvalid, cleared_uevent)
           else (kSuccess, event_of bytes))"
  by (simp add: ReadUevent_def ParseEvent_def event_loop_entries event_of_def)

lemma sint_word32: "- 2147483648 \<le> i \<Longrightarrow> i < 2147483648 \<Longrightarrow> sint (word_of_int i :: 32 word) = i"
  by (simp add: sint_sbintrunc' signed_take_bit_int_eq_self)

lemma nat_digits_head: "\<exists>c cs. nat_digits n = c # cs \<and> c_isdigit c"
proof -
  have "nat_digits n \<noteq> []" by (subst nat_digits.simps) simp
  then show ?thesis using nat_digits_digits [of n] by (cases "nat_digits n") auto
qed

lemma takeWhile_digits: "takeWhile c_isdigit (nat_digits n) = nat_digits n"
  using nat_digits_digits [of n] by (simp add: takeWhile_eq_all_conv list_all_iff)

lemma digit_plain: "c_isdigit c \<Longrightarrow> \<not> c_isspace c \<and> c \<noteq> CHR ''-'' \<and> c \<noteq> CHR ''+'' \<and> c \<noteq> NUL"
  by (auto simp: c_isdigit_def c_isspace_def code_of_def)

lemma atoi_to_string: "- 2147483648 \<le> i \<Longrightarrow> i < 2147483648 \<Longrightarrow> atoi (to_string i) = i"
proof -
  assume b: "- 2147483648 \<le> i" "i < 2147483648"
  have v: "decimal_value (nat_digits n) = n" for n using nat_digits_value [of n] by (simp add: decimal_value_def)
  have m: "\<not> c_isspace (CHR ''-'')" by (simp add: c_isspace_def code_of_def)
  show ?thesis
  proof (cases "i < 0")
    case True
    then show ?thesis using b m sint_word32 [OF b] by (simp add: atoi_def to_string_def takeWhile_digits v)
  next
    case False
    obtain c cs where c: "nat_digits (nat i) = c # cs" "c_isdigit c" using nat_digits_head by blast
    then have "dropWhile c_isspace (nat_digits (nat i)) = nat_digits (nat i)" "\<not> prefix ''-'' (nat_digits (nat i))"
        "\<not> prefix ''+'' (nat_digits (nat i))"
      using digit_plain by auto
    then show ?thesis using False b sint_word32 [OF b] by (simp add: atoi_def to_string_def takeWhile_digits v Let_def)
  qed
qed

text \<open>A message the way the kernel builds it: a header, then the variables.\<close>

definition event_variables :: "Uevent \<Rightarrow> string list" where
  "event_variables u =
     [''ACTION='' @ ue_action u, ''DEVPATH='' @ ue_path u, ''SUBSYSTEM='' @ ue_subsystem u, ''MAJOR='' @ to_string (ue_major u),
      ''MINOR='' @ to_string (ue_minor u), ''DEVNAME='' @ ue_device_name u, ''PARTN='' @ to_string (ue_partition_num u),
      ''PARTNAME='' @ ue_partition_name u, ''MODALIAS='' @ ue_modalias u, ''FIRMWARE='' @ ue_firmware u]"

definition encode_event :: "string \<Rightarrow> Uevent \<Rightarrow> string" where
  "encode_event header u = concat (map (\<lambda>e. e @ [NUL]) (header # event_variables u))"

definition int32 :: "int \<Rightarrow> bool" where "int32 i = (- 2147483648 \<le> i \<and> i < 2147483648)"

definition encodable :: "Uevent \<Rightarrow> bool" where
  "encodable u =
     (list_all (\<lambda>s. NUL \<notin> set s) [ue_action u, ue_path u, ue_subsystem u, ue_firmware u, ue_partition_name u, ue_device_name u, ue_modalias u] \<and>
      list_all int32 [ue_partition_num u, ue_major u, ue_minor u])"

lemma encoded_entries:
  "list_all (\<lambda>e. e \<noteq> [] \<and> NUL \<notin> set e) es \<Longrightarrow> event_entries (concat (map (\<lambda>e. e @ [NUL]) es)) = es"
proof (induction es)
  case (Cons e es)
  then show ?case using split_nul_step [of e "concat (map (\<lambda>e. e @ [NUL]) es)"] by (simp add: event_entries_def)
qed (simp add: event_entries_def)

lemma to_string_plain: "NUL \<notin> set (to_string i)"
proof -
  have "NUL \<notin> set (nat_digits n)" for n
  proof
    assume "NUL \<in> set (nat_digits n)"
    then have "c_isdigit NUL" using nat_digits_digits [of n] by (simp add: list_all_iff)
    then show False using digit_plain by blast
  qed
  then show ?thesis by (simp add: to_string_def)
qed

lemma apply_entry_string:
  "apply_entry (''ACTION='' @ v) u = u\<lparr>ue_action := v\<rparr>" "apply_entry (''DEVPATH='' @ v) u = u\<lparr>ue_path := v\<rparr>"
  "apply_entry (''SUBSYSTEM='' @ v) u = u\<lparr>ue_subsystem := v\<rparr>" "apply_entry (''FIRMWARE='' @ v) u = u\<lparr>ue_firmware := v\<rparr>"
  "apply_entry (''PARTNAME='' @ v) u = u\<lparr>ue_partition_name := v\<rparr>" "apply_entry (''DEVNAME='' @ v) u = u\<lparr>ue_device_name := v\<rparr>"
  "apply_entry (''MODALIAS='' @ v) u = u\<lparr>ue_modalias := v\<rparr>"
  by (simp_all add: apply_entry_def event_fields_def)

lemma apply_entry_number:
  "apply_entry (''MAJOR='' @ v) u = u\<lparr>ue_major := atoi v\<rparr>" "apply_entry (''MINOR='' @ v) u = u\<lparr>ue_minor := atoi v\<rparr>"
  "apply_entry (''PARTN='' @ v) u = u\<lparr>ue_partition_num := atoi v\<rparr>"
  by (simp_all add: apply_entry_def event_fields_def)

lemma apply_variables: "encodable u \<Longrightarrow> fold apply_entry (event_variables u) v = u"
proof -
  assume "encodable u"
  then have n: "atoi (to_string (ue_major u)) = ue_major u" "atoi (to_string (ue_minor u)) = ue_minor u"
      "atoi (to_string (ue_partition_num u)) = ue_partition_num u"
    by (simp_all add: encodable_def int32_def atoi_to_string)
  show ?thesis
    by (simp only: event_variables_def fold_simps apply_entry_string apply_entry_number n) simp
qed

text \<open>
  An event that the kernel can write down comes back as it was: strings without NUL and numbers
  of 32 bits survive the way through the message, whatever the header line in front says.
\<close>

theorem uevent_roundtrip:
  assumes "encodable u" "header \<noteq> []" "NUL \<notin> set header" "length (encode_event header u) < UEVENT_MSG_LEN"
  shows "ReadUevent (Some (encode_event header u)) = Some (kSuccess, u)"
proof -
  have "list_all (\<lambda>e. e \<noteq> [] \<and> NUL \<notin> set e) (header # event_variables u)"
    using assms(1-3) to_string_plain by (simp add: event_variables_def encodable_def)
  then have "event_of (encode_event header u) = u"
    using encoded_entries apply_variables [OF assms(1)] by (simp only: event_of_def encode_event_def fold_simps)
  then show ?thesis using assms(2,4) uevent_in_bounds by (auto simp: encode_event_def)
qed

definition sample_uevent :: Uevent where
  "sample_uevent = cleared_uevent\<lparr>ue_action := ''add'', ue_path := ''/devices/vbd-768/block/sda'', ue_subsystem := ''block'',
     ue_major := 8, ue_minor := 0\<rparr>"

theorem uevent_roundtrip_witness:
  "ReadUevent (Some (encode_event ''add@/devices/vbd-768/block/sda'' sample_uevent)) = Some (kSuccess, sample_uevent)"
proof (rule uevent_roundtrip)
  show "encodable sample_uevent" by (simp add: sample_uevent_def cleared_uevent_def encodable_def int32_def)
  have "to_string (- 1) = ''-1''" "to_string 8 = ''8''" "to_string 0 = ''0''" by code_simp+
  then show "length (encode_event ''add@/devices/vbd-768/block/sda'' sample_uevent) < UEVENT_MSG_LEN"
    by (simp add: encode_event_def event_variables_def sample_uevent_def cleared_uevent_def UEVENT_MSG_LEN_def)
qed simp_all

end
