(* ===== verification/Devices.thy ===== *)
theory Devices
  imports Uevents
begin

text \<open>
  The device nodes (\<^verbatim>\<open>init/devices.cpp\<close>, \<^verbatim>\<open>init/devices.h\<close>) and the labels they get (\<^verbatim>\<open>init/selabel.cpp\<close>):
  the rules for permissions, where a node and its links go, and what an event of the kernel makes
  ueventd do. The calls to the kernel are recorded with their results in a trace; an answer depends
  on the call and on the length of the trace before it.
\<close>

unbundle bit_operations_syntax

section \<open>Surroundings\<close>

datatype dev_call =
  ChownAttribute string "32 word" "32 word"
| ChmodAttribute string "32 word"
| Restorecon string bool
| SetFsCreateCon "string option"
| SetEGid "32 word"
| MkNod string "32 word" int int
| SetFileCon string string
| ChownNode string "32 word"
| MakeDir string
| Symlink string string
| Unlink string

type_synonym dev_trace = "(dev_call \<times> errno option) list"

text \<open>
  \<^verbatim>\<open>fnmatch\<close> (with \<^verbatim>\<open>FNM_PATHNAME\<close> or without), the path functions of the library, and the answers
  of the system: a handle for labels is a function from a path, its links and a mode to the label
  or an error number.
\<close>

record device_env =
  dv_lb :: libbase
  dv_fnmatch :: "bool \<Rightarrow> string \<Rightarrow> string \<Rightarrow> bool"
  dv_Basename :: "string \<Rightarrow> string"
  dv_Dirname :: "string \<Rightarrow> string"
  dv_Realpath :: "string \<Rightarrow> string option"
  dv_read :: "string \<Rightarrow> string option"
  dv_sehandle :: "(string \<Rightarrow> string list \<Rightarrow> 32 word \<Rightarrow> errno + string) option"
  dv_access :: "nat \<Rightarrow> string \<Rightarrow> bool"
  dv_Readlink :: "nat \<Rightarrow> string \<Rightarrow> string option"
  dv_getfilecon :: "nat \<Rightarrow> string \<Rightarrow> string option"
  dv_opendir :: "nat \<Rightarrow> string \<Rightarrow> (string \<times> bool) list option"
  dv_is_dir :: "nat \<Rightarrow> string \<Rightarrow> bool"
  dv_sys :: "nat \<Rightarrow> dev_call \<Rightarrow> errno option"

definition dev_sys :: "device_env \<Rightarrow> dev_call \<Rightarrow> dev_trace \<Rightarrow> errno option \<times> dev_trace" where
  "dev_sys env c t = (dv_sys env (length t) c, t @ [(c, dv_sys env (length t) c)])"

definition dev_do :: "device_env \<Rightarrow> dev_call \<Rightarrow> dev_trace \<Rightarrow> dev_trace" where
  "dev_do env c t = snd (dev_sys env c t)"

text \<open>\<^verbatim>\<open>std::string::find\<close> from a position, and \<^verbatim>\<open>rfind\<close>.\<close>

definition find_from :: "char \<Rightarrow> nat \<Rightarrow> string \<Rightarrow> nat option" where
  "find_from c pos s = map_option (\<lambda>i. pos + i) (find_char c (drop pos s))"

definition rfind :: "char \<Rightarrow> string \<Rightarrow> nat option" where
  "rfind c s = map_option (\<lambda>i. length s - 1 - i) (find_char c (rev s))"

lemma rfind_less: "rfind c s = Some i \<Longrightarrow> i < length s"
  using find_char_Some [of c "rev s"] by (fastforce simp: rfind_def)

section \<open>Labels\<close>

text \<open>Without a handle every lookup succeeds with an empty label.\<close>

definition SelabelLookupFileContext :: "(string \<Rightarrow> 32 word \<Rightarrow> errno + string) option \<Rightarrow> string \<Rightarrow> 32 word \<Rightarrow> string option" where
  "SelabelLookupFileContext sehandle key type =
     (case sehandle of
        None \<Rightarrow> Some []
      | Some lookup \<Rightarrow> (case lookup key type of Inr ctx \<Rightarrow> Some ctx | Inl e \<Rightarrow> None))"

definition SelabelLookupFileContextBestMatch :: "device_env \<Rightarrow> string \<Rightarrow> string list \<Rightarrow> 32 word \<Rightarrow> string option" where
  "SelabelLookupFileContextBestMatch env key aliases type =
     (case dv_sehandle env of
        None \<Rightarrow> Some []
      | Some lookup \<Rightarrow> (case lookup key aliases type of Inr ctx \<Rightarrow> Some ctx | Inl e \<Rightarrow> None))"

section \<open>Permissions\<close>

record Permissions =
  pm_name :: string
  pm_perm :: "32 word"
  pm_uid :: "32 word"
  pm_gid :: "32 word"
  pm_prefix :: bool
  pm_wildcard :: bool
  pm_no_fnm_pathname :: bool

record SysfsPermissions = Permissions +
  pm_attribute :: string

definition new_permissions :: "string \<Rightarrow> 32 word \<Rightarrow> 32 word \<Rightarrow> 32 word \<Rightarrow> bool \<Rightarrow> Permissions" where
  "new_permissions name perm uid gid no_fnm_pathname =
     (let p = \<lparr>pm_name = name, pm_perm = perm, pm_uid = uid, pm_gid = gid, pm_prefix = False, pm_wildcard = False,
               pm_no_fnm_pathname = no_fnm_pathname\<rparr>
      in case find_char CHR ''*'' name of
           None \<Rightarrow> p
         | Some wildcard_position \<Rightarrow>
             if wildcard_position = length name - 1 then p\<lparr>pm_prefix := True, pm_name := butlast name\<rparr>
             else p\<lparr>pm_wildcard := True\<rparr>)"

definition new_sysfs_permissions :: "string \<Rightarrow> string \<Rightarrow> 32 word \<Rightarrow> 32 word \<Rightarrow> 32 word \<Rightarrow> bool \<Rightarrow> SysfsPermissions" where
  "new_sysfs_permissions name attribute perm uid gid no_fnm_pathname =
     Permissions.extend (new_permissions name perm uid gid no_fnm_pathname) (SysfsPermissions.fields attribute)"

definition Match :: "device_env \<Rightarrow> 'a Permissions_scheme \<Rightarrow> string \<Rightarrow> bool" where
  "Match env p path =
     (if pm_prefix p then StartsWith (dv_lb env) path (pm_name p)
      else if pm_wildcard p then dv_fnmatch env (\<not> pm_no_fnm_pathname p) (c_str (pm_name p)) (c_str path)
      else path = pm_name p)"

definition MatchWithSubsystem :: "device_env \<Rightarrow> SysfsPermissions \<Rightarrow> string \<Rightarrow> string \<Rightarrow> bool" where
  "MatchWithSubsystem env p path subsystem =
     (let path_basename = dv_Basename env path
      in find_str subsystem (pm_name p) \<noteq> None \<and>
           (Match env p (''/sys/class/'' @ subsystem @ ''/'' @ path_basename) \<or>
            Match env p (''/sys/bus/'' @ subsystem @ ''/devices/'' @ path_basename)) \<or>
         Match env p path)"

definition SetPermissions :: "device_env \<Rightarrow> SysfsPermissions \<Rightarrow> string \<Rightarrow> dev_trace \<Rightarrow> dev_trace" where
  "SetPermissions env p path t =
     (let attribute_file = path @ ''/'' @ pm_attribute p
      in if dv_access env (length t) attribute_file
         then dev_do env (ChmodAttribute attribute_file (pm_perm p))
                (dev_do env (ChownAttribute attribute_file (pm_uid p) (pm_gid p)) t)
         else t)"

section \<open>Subsystems\<close>

datatype DevnameSource = DEVNAME_UEVENT_DEVNAME | DEVNAME_UEVENT_DEVPATH

record Subsystem =
  ss_name :: string
  devname_source :: DevnameSource
  dir_name :: string

definition new_subsystem :: "string \<Rightarrow> Subsystem" where
  "new_subsystem name = \<lparr>ss_name = name, devname_source = DEVNAME_UEVENT_DEVNAME, dir_name = ''/dev''\<rparr>"

definition ParseDevPath :: "device_env \<Rightarrow> Subsystem \<Rightarrow> Uevent \<Rightarrow> string" where
  "ParseDevPath env ss u =
     dir_name ss @ ''/'' @
     (case devname_source ss of
        DEVNAME_UEVENT_DEVNAME \<Rightarrow> ue_device_name u
      | DEVNAME_UEVENT_DEVPATH \<Rightarrow> dv_Basename env (ue_path u))"

section \<open>Where a block device is\<close>

record DeviceHandler =
  dev_permissions :: "Permissions list"
  sysfs_permissions :: "SysfsPermissions list"
  subsystems :: "Subsystem list"
  boot_devices :: "string list"
  skip_restorecon :: bool
  sysfs_mount_point :: string

definition FindPciDevicePrefix :: "device_env \<Rightarrow> string \<Rightarrow> string option" where
  "FindPciDevicePrefix env path =
     (if \<not> StartsWith (dv_lb env) path ''/devices/pci'' then None
      else
        (case find_from CHR ''/'' 9 path of
           None \<Rightarrow> None
         | Some slash \<Rightarrow>
             (case find_from CHR ''/'' (slash + 1) path of
                None \<Rightarrow> None
              | Some e \<Rightarrow> if e - 9 \<le> 4 then None else Some (take (e - 9) (drop 9 path)))))"

definition FindVbdDevicePrefix :: "device_env \<Rightarrow> string \<Rightarrow> string option" where
  "FindVbdDevicePrefix env path =
     (if \<not> StartsWith (dv_lb env) path ''/devices/vbd-'' then None
      else
        (case find_from CHR ''/'' 13 path of
           None \<Rightarrow> None
         | Some e \<Rightarrow> if e - 13 = 0 then None else Some (take (e - 13) (drop 13 path))))"

text \<open>The name and the identifier of a device mapper device.\<close>

definition FindDmDevice :: "device_env \<Rightarrow> string \<Rightarrow> (string \<times> string) option" where
  "FindDmDevice env path =
     (if \<not> StartsWith (dv_lb env) path ''/devices/virtual/block/dm-'' then None
      else
        (case dv_read env (''/sys'' @ path @ ''/dm/name'') of
           None \<Rightarrow> None
         | Some name \<Rightarrow>
             (let uuid = (case dv_read env (''/sys'' @ path @ ''/dm/uuid'') of None \<Rightarrow> [] | Some s \<Rightarrow> s)
              in Some (Trim (dv_lb env) name, Trim (dv_lb env) uuid))))"

text \<open>The loop goes up one directory a turn.\<close>

function platform_loop :: "device_env \<Rightarrow> string \<Rightarrow> string \<Rightarrow> string option" where
  "platform_loop env mount_point path =
     (let directory = dv_Dirname env path
      in if directory = ''/'' \<or> directory = ''.'' then None
         else if (case dv_Realpath env (directory @ ''/subsystem'') of
                    None \<Rightarrow> False
                  | Some link \<Rightarrow> link = mount_point @ ''/bus/platform'' \<or> link = mount_point @ ''/bus/amba'')
         then Some (drop (length mount_point) directory)
         else (case rfind CHR ''/'' path of
                 None \<Rightarrow> None
               | Some last_slash \<Rightarrow> platform_loop env mount_point (take last_slash path)))"
  by pat_completeness auto
termination
  by (relation "measure (\<lambda>(_, _, path). length path)") (auto dest: rfind_less)

declare platform_loop.simps [simp del]

definition FindPlatformDevice :: "device_env \<Rightarrow> DeviceHandler \<Rightarrow> string \<Rightarrow> string option" where
  "FindPlatformDevice env dh path = platform_loop env (sysfs_mount_point dh) (sysfs_mount_point dh @ path)"

text \<open>The loop that overwrites the first unacceptable character at or behind a position.\<close>

definition acceptable :: "char \<Rightarrow> bool" where
  "acceptable c = (c_isalnum c \<or> c \<in> {CHR ''_'', CHR ''-'', CHR ''.''})"

definition find_first_not_of :: "nat \<Rightarrow> string \<Rightarrow> nat option" where
  "find_first_not_of pos s = find (\<lambda>i. \<not> acceptable (s ! i)) [pos..<length s]"

lemma find_first_not_of_Some: "find_first_not_of pos s = Some i \<Longrightarrow> pos \<le> i \<and> i < length s \<and> \<not> acceptable (s ! i)"
  by (auto simp: find_first_not_of_def find_Some_iff)

definition unacceptable_from :: "nat \<Rightarrow> string \<Rightarrow> nat" where
  "unacceptable_from pos s = length (filter (\<lambda>c. \<not> acceptable c) (drop pos s))"

lemma acceptable_underscore: "acceptable CHR ''_''"
  by (simp add: acceptable_def)

lemma overwritten_fewer:
  assumes "pos \<le> i" "i < length s" "\<not> acceptable (s ! i)"
  shows "unacceptable_from i (s[i := CHR ''_'']) < unacceptable_from pos s"
proof -
  let ?bad = "\<lambda>c. \<not> acceptable c"
  have d: "drop pos s = take (i - pos) (drop pos s) @ drop i s"
    using append_take_drop_id [of "i - pos" "drop pos s"] assms(1) by simp
  have "drop i s = s ! i # drop (Suc i) s" using assms(2) by (simp add: Cons_nth_drop_Suc)
  moreover have "drop i (s[i := CHR ''_'']) = CHR ''_'' # drop (Suc i) s"
    using assms(2) Cons_nth_drop_Suc [of i "s[i := CHR ''_'']"] by simp
  ultimately have "length (filter ?bad (drop i (s[i := CHR ''_'']))) < length (filter ?bad (drop i s))"
    using assms(3) acceptable_underscore by simp
  moreover have "length (filter ?bad (drop i s)) \<le> length (filter ?bad (drop pos s))"
    using arg_cong [OF d, of "\<lambda>xs. length (filter ?bad xs)"] by simp
  ultimately show ?thesis by (simp add: unacceptable_from_def)
qed

function sanitize_from :: "nat \<Rightarrow> string \<Rightarrow> string" where
  "sanitize_from pos s =
     (case find_first_not_of pos s of
        None \<Rightarrow> s
      | Some i \<Rightarrow> sanitize_from i (s[i := CHR ''_'']))"
  by pat_completeness auto
termination
  by (relation "measure (\<lambda>(pos, s). unacceptable_from pos s)") (auto dest!: find_first_not_of_Some intro: overwritten_fewer)

declare sanitize_from.simps [simp del]

definition SanitizePartitionName :: "string \<Rightarrow> string" where
  "SanitizePartitionName s = sanitize_from 0 s"

definition by_name_links :: "DeviceHandler \<Rightarrow> string \<Rightarrow> string \<Rightarrow> Uevent \<Rightarrow> string list" where
  "by_name_links dh device link_path u =
     (let is_boot_device = device \<in> set (boot_devices dh)
      in if ue_partition_name u \<noteq> [] then
           (let partition_name_sanitized = SanitizePartitionName (ue_partition_name u)
            in [link_path @ ''/by-name/'' @ partition_name_sanitized] @
               (if is_boot_device then [''/dev/block/by-name/'' @ partition_name_sanitized] else []))
         else if is_boot_device then [''/dev/block/by-name/'' @ ue_device_name u]
         else [])"

definition block_links :: "DeviceHandler \<Rightarrow> string \<Rightarrow> string \<Rightarrow> Uevent \<Rightarrow> string list" where
  "block_links dh type device u =
     (let link_path = ''/dev/block/'' @ type @ ''/'' @ device;
          base = (case rfind CHR ''/'' (ue_path u) of None \<Rightarrow> 0 | Some last_slash \<Rightarrow> last_slash + 1)
      in by_name_links dh device link_path u @ [link_path @ ''/'' @ drop base (ue_path u)])"

text \<open>The prefix of a platform device that the links leave out.\<close>

definition platform_name :: "device_env \<Rightarrow> string \<Rightarrow> string" where
  "platform_name env device =
     (if StartsWith (dv_lb env) device ''/devices/platform/'' then drop 18 device
      else if StartsWith (dv_lb env) device ''/devices/'' then drop 9 device
      else device)"

definition GetBlockDeviceSymlinks :: "device_env \<Rightarrow> DeviceHandler \<Rightarrow> Uevent \<Rightarrow> string list" where
  "GetBlockDeviceSymlinks env dh u =
     (case FindPlatformDevice env dh (ue_path u) of
        Some device \<Rightarrow> block_links dh ''platform'' (platform_name env device) u
      | None \<Rightarrow>
          (case FindPciDevicePrefix env (ue_path u) of
             Some device \<Rightarrow> block_links dh ''pci'' device u
           | None \<Rightarrow>
               (case FindVbdDevicePrefix env (ue_path u) of
                  Some device \<Rightarrow> block_links dh ''vbd'' device u
                | None \<Rightarrow>
                    (case FindDmDevice env (ue_path u) of
                       None \<Rightarrow> []
                     | Some (dm_name, uuid) \<Rightarrow>
                         [''/dev/block/mapper/'' @ dm_name] @
                         (if uuid \<noteq> [] then [''/dev/block/mapper/by-uuid/'' @ uuid] else [])))))"

section \<open>Nodes and links\<close>

definition FixupSysPermissions :: "device_env \<Rightarrow> DeviceHandler \<Rightarrow> string \<Rightarrow> string \<Rightarrow> dev_trace \<Rightarrow> dev_trace" where
  "FixupSysPermissions env dh upath subsystem t =
     (let path = ''/sys'' @ upath;
          t = fold (\<lambda>s t. if MatchWithSubsystem env s path subsystem then SetPermissions env s path t else t) (sysfs_permissions dh) t
      in if \<not> skip_restorecon dh \<and> dv_access env (length t) path then dev_do env (Restorecon path True) t else t)"

definition GetDevicePermissions :: "device_env \<Rightarrow> DeviceHandler \<Rightarrow> string \<Rightarrow> string list \<Rightarrow> 32 word \<times> 32 word \<times> 32 word" where
  "GetDevicePermissions env dh path links =
     (case find (\<lambda>p. Match env p path \<or> list_ex (Match env p) links) (rev (dev_permissions dh)) of
        Some p \<Rightarrow> (pm_perm p, pm_uid p, pm_gid p)
      | None \<Rightarrow> (0x180, 0, 0))"

definition S_IFBLK :: "32 word" where "S_IFBLK = 0x6000"
definition S_IFCHR :: "32 word" where "S_IFCHR = 0x2000"
definition AID_ROOT :: "32 word" where "AID_ROOT = 0"

text \<open>An existing node gets its label corrected.\<close>

definition relabel_node :: "device_env \<Rightarrow> string \<Rightarrow> string \<Rightarrow> dev_trace \<Rightarrow> dev_trace" where
  "relabel_node env path secontext t =
     (case dv_getfilecon env (length t) path of
        None \<Rightarrow> t
      | Some fcon \<Rightarrow> if fcon \<noteq> secontext then dev_do env (SetFileCon path secontext) t else t)"

definition create_node :: "device_env \<Rightarrow> string \<Rightarrow> 32 word \<Rightarrow> int \<Rightarrow> int \<Rightarrow> 32 word \<Rightarrow> string \<Rightarrow> dev_trace \<Rightarrow> dev_trace" where
  "create_node env path mode major minor gid secontext t =
     (case dev_sys env (SetEGid gid) t of
        (Some _, t) \<Rightarrow> t
      | (None, t) \<Rightarrow>
          (case dev_sys env (MkNod path mode major minor) t of
             (r, t) \<Rightarrow> if r = Some EEXIST \<and> secontext \<noteq> [] then relabel_node env path secontext t else t))"

text \<open>The first component is \<open>False\<close> when the process aborts: the group could not be reset.\<close>

definition MakeDevice ::
  "device_env \<Rightarrow> DeviceHandler \<Rightarrow> string \<Rightarrow> bool \<Rightarrow> int \<Rightarrow> int \<Rightarrow> string list \<Rightarrow> dev_trace \<Rightarrow> bool \<times> dev_trace" where
  "MakeDevice env dh path block major minor links t =
     (case GetDevicePermissions env dh path links of
        (perm, uid, gid) \<Rightarrow>
          (let mode = perm OR (if block then S_IFBLK else S_IFCHR)
           in case SelabelLookupFileContextBestMatch env path links mode of
                None \<Rightarrow> (True, t)
              | Some secontext \<Rightarrow>
                  (let t = (if secontext \<noteq> [] then dev_do env (SetFsCreateCon (Some secontext)) t else t);
                       t = dev_do env (ChownNode path uid) (create_node env path mode major minor gid secontext t)
                   in case dev_sys env (SetEGid AID_ROOT) t of
                        (Some _, t) \<Rightarrow> (False, t)
                      | (None, t) \<Rightarrow> (True, if secontext \<noteq> [] then dev_do env (SetFsCreateCon None) t else t))))"

definition make_dirs :: "device_env \<Rightarrow> string \<Rightarrow> dev_trace \<Rightarrow> dev_trace" where
  "make_dirs env path t =
     snd (mkdir_recursive (\<lambda>t d. dv_is_dir env (length t) d) (\<lambda>t d. dev_sys env (MakeDir d) t) path t)"

definition unlink_own :: "device_env \<Rightarrow> string \<Rightarrow> string \<Rightarrow> dev_trace \<Rightarrow> dev_trace" where
  "unlink_own env devpath link t =
     (if dv_Readlink env (length t) link = Some devpath then dev_do env (Unlink link) t else t)"

definition RemoveDeviceMapperLinks :: "device_env \<Rightarrow> string \<Rightarrow> dev_trace \<Rightarrow> dev_trace" where
  "RemoveDeviceMapperLinks env devpath t =
     fold (\<lambda>dir t.
         if \<not> dv_access env (length t) dir then t
         else (case dv_opendir env (length t) dir of
                 None \<Rightarrow> t
               | Some entries \<Rightarrow>
                   fold (\<lambda>e t. if snd e then unlink_own env devpath (dir @ ''/'' @ fst e) t else t) entries t))
       [''/dev/block/mapper'', ''/dev/block/mapper/by-uuid''] t"

definition make_links :: "device_env \<Rightarrow> string \<Rightarrow> string list \<Rightarrow> dev_trace \<Rightarrow> dev_trace" where
  "make_links env devpath links t =
     fold (\<lambda>link t. dev_do env (Symlink devpath link) (make_dirs env (dv_Dirname env link) t)) links t"

definition remove_device :: "device_env \<Rightarrow> string \<Rightarrow> string list \<Rightarrow> dev_trace \<Rightarrow> dev_trace" where
  "remove_device env devpath links t =
     (let t = (if StartsWith (dv_lb env) devpath ''/dev/block/dm-'' then RemoveDeviceMapperLinks env devpath t else t)
      in dev_do env (Unlink devpath) (fold (unlink_own env devpath) links t))"

definition HandleDevice ::
  "device_env \<Rightarrow> DeviceHandler \<Rightarrow> string \<Rightarrow> string \<Rightarrow> bool \<Rightarrow> int \<Rightarrow> int \<Rightarrow> string list \<Rightarrow> dev_trace \<Rightarrow> bool \<times> dev_trace" where
  "HandleDevice env dh action devpath block major minor links t =
     (case (if action = ''add'' then MakeDevice env dh devpath block major minor links t else (True, t)) of
        (False, t) \<Rightarrow> (False, t)
      | (True, t) \<Rightarrow>
          (let t = (if action = ''add'' \<or> action = ''change'' \<and> StartsWith (dv_lb env) devpath ''/dev/block/dm-''
                    then make_links env devpath links t else t)
           in (True, if action = ''remove'' then remove_device env devpath links t else t)))"

section \<open>Events\<close>

text \<open>\<^verbatim>\<open>%03d\<close> of a number that is not negative.\<close>

definition pad3 :: "int \<Rightarrow> string" where
  "pad3 i = (let d = to_string i in replicate (3 - length d) (CHR ''0'') @ d)"

text \<open>The path of the node, whether it is a block device, and its links; \<open>None\<close> when the event is ignored.\<close>

definition device_path :: "device_env \<Rightarrow> DeviceHandler \<Rightarrow> Uevent \<Rightarrow> (string \<times> bool \<times> string list) option" where
  "device_path env dh u =
     (if ue_subsystem u = ''block'' then
        Some (''/dev/block/'' @ dv_Basename env (ue_path u), True,
              if StartsWith (dv_lb env) (ue_path u) ''/devices'' then GetBlockDeviceSymlinks env dh u else [])
      else
        (case find (\<lambda>s. ss_name s = ue_subsystem u) (subsystems dh) of
           Some s \<Rightarrow> Some (ParseDevPath env s u, False, [])
         | None \<Rightarrow>
             if ue_subsystem u = ''usb'' then
               Some (if ue_device_name u \<noteq> [] then ''/dev/'' @ ue_device_name u
                     else ''/dev/bus/usb/'' @ pad3 (ue_minor u div 128 + 1) @ ''/'' @ pad3 (ue_minor u mod 128 + 1), False, [])
             else if StartsWith (dv_lb env) (ue_subsystem u) ''usb'' then None
             else if ue_subsystem u = ''misc'' \<and> StartsWith (dv_lb env) (ue_device_name u) ''dm-user/'' then
               Some (''/dev/dm-user/'' @ drop 8 (ue_device_name u), False, [])
             else Some (''/dev/'' @ dv_Basename env (ue_path u), False, [])))"

datatype dev_outcome = Finished dev_trace | Aborted dev_trace | OutOfFuel

definition boot_id_path :: string where "boot_id_path = ''/proc/sys/kernel/random/boot_id''"

text \<open>The duplicate of the node of \<^verbatim>\<open>ashmem\<close> is made by handling a second event.\<close>

definition ashmem_duplicate :: "device_env \<Rightarrow> Uevent \<Rightarrow> Uevent option" where
  "ashmem_duplicate env u =
     (if ue_device_name u = ''ashmem'' then
        (case dv_read env boot_id_path of
           None \<Rightarrow> None
         | Some content \<Rightarrow>
             (let boot_id = Trim (dv_lb env) content
              in Some (u\<lparr>ue_device_name := ue_device_name u @ boot_id, ue_path := ue_path u @ boot_id\<rparr>)))
      else None)"

definition fixup_event :: "device_env \<Rightarrow> DeviceHandler \<Rightarrow> Uevent \<Rightarrow> dev_trace \<Rightarrow> dev_trace" where
  "fixup_event env dh u t =
     (if ue_action u \<in> {''add'', ''change'', ''bind'', ''online''}
      then FixupSysPermissions env dh (ue_path u) (ue_subsystem u) t else t)"

fun DeviceHandler_HandleUevent :: "device_env \<Rightarrow> DeviceHandler \<Rightarrow> nat \<Rightarrow> Uevent \<Rightarrow> dev_trace \<Rightarrow> dev_outcome" where
  "DeviceHandler_HandleUevent env dh 0 u t = OutOfFuel"
| "DeviceHandler_HandleUevent env dh (Suc fuel) u t =
     (let t = fixup_event env dh u t
      in if ue_major u < 0 \<or> ue_minor u < 0 then Finished t
         else (case device_path env dh u of
                 None \<Rightarrow> Finished t
               | Some (devpath, block, links) \<Rightarrow>
                   (case HandleDevice env dh (ue_action u) devpath block (ue_major u) (ue_minor u) links
                           (make_dirs env (dv_Dirname env devpath) t) of
                      (False, t) \<Rightarrow> Aborted t
                    | (True, t) \<Rightarrow>
                        (case ashmem_duplicate env u of
                           None \<Rightarrow> Finished t
                         | Some dup \<Rightarrow> DeviceHandler_HandleUevent env dh fuel dup t))))"

definition DeviceHandler_ColdbootDone :: "DeviceHandler \<Rightarrow> DeviceHandler" where
  "DeviceHandler_ColdbootDone dh = dh\<lparr>skip_restorecon := False\<rparr>"

definition new_device_handler ::
  "Permissions list \<Rightarrow> SysfsPermissions list \<Rightarrow> Subsystem list \<Rightarrow> string list \<Rightarrow> bool \<Rightarrow> DeviceHandler" where
  "new_device_handler dps sps ss bds skip =
     \<lparr>dev_permissions = dps, sysfs_permissions = sps, subsystems = ss, boot_devices = bds, skip_restorecon = skip,
      sysfs_mount_point = ''/sys''\<rparr>"

text \<open>Surroundings in which every call succeeds, for examples.\<close>

definition sample_devices :: device_env where
  "sample_devices =
     \<lparr>dv_lb = ref_libbase, dv_fnmatch = (\<lambda>_ _ _. False), dv_Basename = (\<lambda>_. ''fuse''), dv_Dirname = (\<lambda>_. ''/dev''),
      dv_Realpath = (\<lambda>_. None), dv_read = (\<lambda>_. Some ''f00d''), dv_sehandle = Some (\<lambda>_ _ _. Inr ''u:object_r:device:s0''),
      dv_access = (\<lambda>_ _. True), dv_Readlink = (\<lambda>_ p. if p = ''/dev/own'' then Some ''/dev/fuse'' else None),
      dv_getfilecon = (\<lambda>_ _. None), dv_opendir = (\<lambda>_ _. None), dv_is_dir = (\<lambda>_ _. True), dv_sys = (\<lambda>_ _. None)\<rparr>"

end
