(* ===== verification/Device_Safety.thy ===== *)
theory Device_Safety
  imports Devices
begin

text \<open>
  What holds of the device nodes of ueventd: the loops equal their specifications and end, the
  credentials are reset after every event, only links of the device itself are removed, and a node
  gets the permissions of the last rule that matches it.
\<close>

section \<open>Names of partitions\<close>

lemma sanitize_from_map:
  "\<forall>i < min pos (length s). acceptable (s ! i) \<Longrightarrow> sanitize_from pos s = map (\<lambda>c. if acceptable c then c else CHR ''_'') s"
proof (induction pos s rule: sanitize_from.induct)
  case (1 pos s)
  let ?f = "\<lambda>c. if acceptable c then c else CHR ''_''"
  show ?case
  proof (cases "find_first_not_of pos s")
    case None
    then have "acceptable (s ! i)" if "i < length s" for i
      using 1(2) that by (cases "i < pos") (auto simp: find_first_not_of_def find_None_iff)
    then have "map ?f s = s" by (intro nth_equalityI) auto
    then show ?thesis using None by (simp add: sanitize_from.simps)
  next
    case (Some i)
    note i = find_first_not_of_Some [OF Some]
    have "acceptable (s ! j)" if j: "pos \<le> j" "j < i" for j
    proof -
      obtain k where k: "k < length [pos..<length s]" "i = [pos..<length s] ! k"
          "\<forall>m < k. acceptable (s ! ([pos..<length s] ! m))"
        using Some by (auto simp: find_first_not_of_def find_Some_iff)
      then have m: "j - pos < k" using j by auto
      then have "[pos..<length s] ! (j - pos) = j" using j k(1) by (simp add: nth_upt)
      then show ?thesis using k(3) m by metis
    qed
    then have "\<forall>j < min i (length (s[i := CHR ''_''])). acceptable (s[i := CHR ''_''] ! j)"
      using 1(2) i by (metis (no_types, lifting) length_list_update less_le_not_le linorder_not_less min_less_iff_conj nth_list_update_neq)
    from 1(1) [OF Some this] have "sanitize_from i (s[i := CHR ''_'']) = (map ?f s)[i := CHR ''_'']"
      by (simp add: map_update acceptable_underscore)
    also have "\<dots> = map ?f s" using i by (intro list_update_same_conv [THEN iffD2]) auto
    finally show ?thesis using Some by (simp add: sanitize_from.simps [of pos])
  qed
qed

text \<open>
  The loop that sanitizes the name of a partition ends, and it replaces exactly the characters
  that are not acceptable in a path of a link; no slash is left.
\<close>

theorem sanitized_name:
  "SanitizePartitionName s = map (\<lambda>c. if acceptable c then c else CHR ''_'') s \<and>
     CHR ''/'' \<notin> set (SanitizePartitionName s)"
proof -
  have e: "SanitizePartitionName s = map (\<lambda>c. if acceptable c then c else CHR ''_'') s"
    by (simp add: SanitizePartitionName_def sanitize_from_map)
  have "\<not> acceptable CHR ''/''"
    by (simp add: acceptable_def c_isalnum_def c_isalpha_def c_isupper_def c_islower_def c_isdigit_def code_of_def)
  then show ?thesis using e by auto
qed

section \<open>Credentials\<close>

text \<open>The effective group, and the label for new files as it was last asked for, after a trace.\<close>

fun egid_step :: "dev_call \<times> errno option \<Rightarrow> 32 word \<Rightarrow> 32 word" where
  "egid_step (SetEGid gid, None) g = gid"
| "egid_step (c, r) g = g"

fun con_step :: "dev_call \<times> errno option \<Rightarrow> string option \<Rightarrow> string option" where
  "con_step (SetFsCreateCon con, r) k = con"
| "con_step (c, r) k = k"

definition credentials :: "dev_trace \<Rightarrow> 32 word \<times> string option" where
  "credentials t = (fold egid_step t AID_ROOT, fold con_step t None)"

definition quiet_call :: "dev_call \<Rightarrow> bool" where
  "quiet_call c = (case c of SetEGid _ \<Rightarrow> False | SetFsCreateCon _ \<Rightarrow> False | _ \<Rightarrow> True)"

lemma credentials_quiet: "quiet_call c \<Longrightarrow> credentials (t @ [(c, r)]) = credentials t"
  by (cases c) (auto simp: credentials_def quiet_call_def)

text \<open>
  Operations that only extend the trace, by calls with a property: \<open>extends P t t'\<close>. The property
  sees the position of the call.
\<close>

definition extends :: "(nat \<Rightarrow> dev_call \<Rightarrow> bool) \<Rightarrow> dev_trace \<Rightarrow> dev_trace \<Rightarrow> bool" where
  "extends P t t' = (\<exists>s. t' = t @ s \<and> (\<forall>i < length s. P (length t + i) (fst (s ! i))))"

lemma extends_refl [simp]: "extends P t t"
  by (auto simp: extends_def)

lemma extends_trans:
  assumes "extends P t t'" "extends P t' t''"
  shows "extends P t t''"
proof -
  obtain s r where s: "t' = t @ s" "\<forall>i < length s. P (length t + i) (fst (s ! i))"
      "t'' = t' @ r" "\<forall>i < length r. P (length t' + i) (fst (r ! i))"
    using assms by (auto simp: extends_def)
  have "P (length t + i) (fst ((s @ r) ! i))" if "i < length (s @ r)" for i
    using s(2) s(4) [rule_format, of "i - length s"] that s(1) by (cases "i < length s") (auto simp: nth_append)
  then show ?thesis unfolding extends_def using s(1,3) by (intro exI [of _ "s @ r"]) simp
qed

lemma dev_do_extends: "P (length t) c \<Longrightarrow> extends P t (dev_do env c t)"
  by (auto simp: extends_def dev_do_def dev_sys_def)

lemma dev_sys_extends: "P (length t) c \<Longrightarrow> extends P t (snd (dev_sys env c t))"
  using dev_do_extends by (simp add: dev_do_def)

lemma extends_mono: "extends P t t' \<Longrightarrow> (\<And>k c. P k c \<Longrightarrow> Q k c) \<Longrightarrow> extends Q t t'"
  by (auto simp: extends_def)

lemma fold_extends: "(\<And>x t. x \<in> set xs \<Longrightarrow> extends P t (f x t)) \<Longrightarrow> extends P t (fold f xs t)"
  by (induction xs arbitrary: t) (auto intro: extends_trans)

abbreviation calls :: "(dev_call \<Rightarrow> bool) \<Rightarrow> dev_trace \<Rightarrow> dev_trace \<Rightarrow> bool" where
  "calls P \<equiv> extends (\<lambda>_. P)"

lemma credentials_calls: "calls quiet_call t t' \<Longrightarrow> credentials t' = credentials t"
proof -
  assume "calls quiet_call t t'"
  then obtain s where s: "t' = t @ s" "\<forall>i < length s. quiet_call (fst (s ! i))" by (auto simp: extends_def)
  have "credentials (t @ s) = credentials t" using s(2)
  proof (induction s rule: rev_induct)
    case (snoc x s)
    then have "credentials (t @ s) = credentials t" by (metis append.assoc length_append_singleton less_SucI nth_append)
    moreover have "quiet_call (fst x)" using snoc(2) by (metis length_append_singleton lessI nth_append_length)
    ultimately show ?case using credentials_quiet [of "fst x" "t @ s" "snd x"] by simp
  qed simp
  then show ?thesis using s(1) by simp
qed

definition makes_dirs :: "dev_call \<Rightarrow> bool" where
  "makes_dirs c = (case c of MakeDir _ \<Rightarrow> True | _ \<Rightarrow> False)"

definition sets_attributes :: "dev_call \<Rightarrow> bool" where
  "sets_attributes c = (case c of ChownAttribute _ _ _ \<Rightarrow> True | ChmodAttribute _ _ \<Rightarrow> True | Restorecon _ _ \<Rightarrow> True | _ \<Rightarrow> False)"

lemma mkdir_all_extends:
  "calls makes_dirs t (snd (mkdir_all is_dir (\<lambda>t d. dev_sys env (MakeDir d) t) ds t))"
proof (induction ds arbitrary: t)
  case (Cons d ds)
  have "calls makes_dirs t (snd (dev_sys env (MakeDir d) t))" by (rule dev_sys_extends) (simp add: makes_dirs_def)
  then have "calls makes_dirs t (snd (mkdir_one is_dir (\<lambda>t d. dev_sys env (MakeDir d) t) d t))"
    by (auto simp: mkdir_one_def split: prod.split option.split)
  then show ?case using Cons.IH by (auto split: prod.split bool.split intro: extends_trans)
qed simp

lemma make_dirs_extends: "calls makes_dirs t (make_dirs env path t)"
proof -
  have "calls makes_dirs t' (snd (dev_sys env (MakeDir path) t'))" for t' by (rule dev_sys_extends) (simp add: makes_dirs_def)
  then show ?thesis
    using mkdir_all_extends [of t "\<lambda>t d. dv_is_dir env (length t) d" env "map (\<lambda>i. take i path) (slashes 0 path)"]
    by (auto simp: make_dirs_def mkdir_recursive_def split: prod.split bool.split option.split intro: extends_trans)
       (metis extends_trans snd_conv)+
qed

lemma fixup_extends: "calls sets_attributes t (fixup_event env dh u t)"
proof -
  have d: "sets_attributes c \<Longrightarrow> calls sets_attributes t' (dev_do env c t')" for c t' by (rule dev_do_extends)
  have p: "calls sets_attributes t' (SetPermissions env p path t')" for p path t'
    by (auto simp: SetPermissions_def Let_def sets_attributes_def intro!: extends_trans [OF d d])
  have "calls sets_attributes t' (FixupSysPermissions env dh upath subsystem t')" for upath subsystem t'
    unfolding FixupSysPermissions_def Let_def
    by (auto simp: sets_attributes_def p intro!: extends_trans [OF fold_extends d] fold_extends)
  then show ?thesis by (simp add: fixup_event_def)
qed

lemma quiet_dirs: "makes_dirs c \<Longrightarrow> quiet_call c" and quiet_attributes: "sets_attributes c \<Longrightarrow> quiet_call c"
  by (cases c; simp add: makes_dirs_def sets_attributes_def quiet_call_def)+

lemma make_dirs_credentials [simp]: "credentials (make_dirs env path t) = credentials t"
  by (rule credentials_calls) (rule extends_mono [OF make_dirs_extends], erule quiet_dirs)

lemma fixup_credentials [simp]: "credentials (fixup_event env dh u t) = credentials t"
  by (rule credentials_calls) (rule extends_mono [OF fixup_extends], erule quiet_attributes)

lemma dev_do_credentials: "quiet_call c \<Longrightarrow> credentials (dev_do env c t) = credentials t"
  by (simp add: dev_do_def dev_sys_def credentials_quiet)

lemma relabel_credentials: "credentials (relabel_node env path con t) = credentials t"
  by (auto simp: relabel_node_def dev_do_credentials quiet_call_def split: option.split)

lemma create_node_con: "snd (credentials (create_node env path mode major minor gid con t)) = snd (credentials t)"
  by (auto simp: create_node_def dev_sys_def relabel_credentials split: option.split) (simp_all add: credentials_def)

lemma setegid_con: "snd (credentials (t @ [(SetEGid g, r)])) = snd (credentials t)"
  by (simp add: credentials_def)

lemma egid_root: "fst (credentials (t @ [(SetEGid AID_ROOT, None)])) = AID_ROOT"
  by (simp add: credentials_def)

text \<open>The two ways through \<open>MakeDevice\<close>: no label is found, or the node is made between taking and resetting the credentials.\<close>

lemma MakeDevice_steps:
  obtains "MakeDevice env dh path block major minor links t = (True, t)"
  | con uid mode gid r t1 t2 where "t1 = (if con \<noteq> [] then dev_do env (SetFsCreateCon (Some con)) t else t)"
      "t2 = dev_do env (ChownNode path uid) (create_node env path mode major minor gid con t1) @ [(SetEGid AID_ROOT, r)]"
      "MakeDevice env dh path block major minor links t =
         (r = None, if r = None \<and> con \<noteq> [] then dev_do env (SetFsCreateCon None) t2 else t2)"
proof -
  obtain perm uid gid where g: "GetDevicePermissions env dh path links = (perm, uid, gid)" by (cases "GetDevicePermissions env dh path links")
  define mode where "mode = perm OR (if block then S_IFBLK else S_IFCHR)"
  show thesis
  proof (cases "SelabelLookupFileContextBestMatch env path links mode")
    case None
    then show ?thesis using that(1) by (simp add: MakeDevice_def g mode_def Let_def)
  next
    case (Some con)
    define t1 where "t1 = (if con \<noteq> [] then dev_do env (SetFsCreateCon (Some con)) t else t)"
    define t3 where "t3 = dev_do env (ChownNode path uid) (create_node env path mode major minor gid con t1)"
    define r where "r = dv_sys env (length t3) (SetEGid AID_ROOT)"
    have "MakeDevice env dh path block major minor links t =
        (r = None, if r = None \<and> con \<noteq> [] then dev_do env (SetFsCreateCon None) (t3 @ [(SetEGid AID_ROOT, r)]) else t3 @ [(SetEGid AID_ROOT, r)])"
      using Some by (simp add: MakeDevice_def g mode_def [symmetric] t1_def [symmetric] t3_def [symmetric] dev_sys_def Let_def r_def split: option.split)
         (auto simp: t3_def)
    then show ?thesis by (rule that(2) [OF t1_def arg_cong [OF t3_def, of "\<lambda>x. x @ [(SetEGid AID_ROOT, r)]"]])
  qed
qed

lemma MakeDevice_credentials:
  assumes "MakeDevice env dh path block major minor links t = (True, t')" "credentials t = (AID_ROOT, None)"
  shows "credentials t' = (AID_ROOT, None)"
proof (rule MakeDevice_steps [of env dh path block major minor links t])
  assume "MakeDevice env dh path block major minor links t = (True, t)"
  then show ?thesis using assms by simp
next
  fix con uid mode gid r t1 t2
  assume t1: "t1 = (if con \<noteq> [] then dev_do env (SetFsCreateCon (Some con)) t else t)"
    and t2: "t2 = dev_do env (ChownNode path uid) (create_node env path mode major minor gid con t1) @ [(SetEGid AID_ROOT, r)]"
    and m: "MakeDevice env dh path block major minor links t =
      (r = None, if r = None \<and> con \<noteq> [] then dev_do env (SetFsCreateCon None) t2 else t2)"
  have c: "snd (credentials t2) = snd (credentials t1)"
    by (simp add: t2 setegid_con dev_do_credentials quiet_call_def create_node_con)
  have r: "fst (credentials t2) = AID_ROOT" using m assms(1) by (auto simp: t2 egid_root)
  show ?thesis
  proof (cases "con = []")
    case True
    then show ?thesis using m c r assms by (auto simp: t1 prod_eq_iff)
  next
    case False
    then show ?thesis using m r assms(1) by (auto simp: credentials_def dev_do_def dev_sys_def)
  qed
qed

definition links_call :: "dev_call \<Rightarrow> bool" where
  "links_call c = (case c of MakeDir _ \<Rightarrow> True | Symlink _ _ \<Rightarrow> True | _ \<Rightarrow> False)"

lemma make_links_extends: "calls links_call t (make_links env devpath links t)"
  unfolding make_links_def
proof (rule fold_extends)
  fix link t
  have "calls links_call t' (dev_do env (Symlink devpath link) t')" for t' by (rule dev_do_extends) (simp add: links_call_def)
  moreover have "calls links_call t (make_dirs env (dv_Dirname env link) t)"
    by (rule extends_mono [OF make_dirs_extends]) (auto simp: makes_dirs_def links_call_def split: dev_call.splits)
  ultimately show "calls links_call t (dev_do env (Symlink devpath link) (make_dirs env (dv_Dirname env link) t))"
    by (blast intro: extends_trans)
qed

text \<open>The removals that are allowed: the node itself, and what is a link to it when it is removed.\<close>

definition own_unlink :: "device_env \<Rightarrow> string \<Rightarrow> nat \<Rightarrow> dev_call \<Rightarrow> bool" where
  "own_unlink env devpath k c =
     (case c of Unlink p \<Rightarrow> p = devpath \<or> dv_Readlink env k p = Some devpath | _ \<Rightarrow> False)"

lemma unlink_own_extends: "extends (own_unlink env devpath) t (unlink_own env devpath link t)"
  by (auto simp: unlink_own_def own_unlink_def intro: dev_do_extends)

lemma RemoveDeviceMapperLinks_extends: "extends (own_unlink env devpath) t (RemoveDeviceMapperLinks env devpath t)"
  unfolding RemoveDeviceMapperLinks_def
  by (rule fold_extends) (auto split: option.split intro!: fold_extends unlink_own_extends)

lemma remove_device_extends: "extends (own_unlink env devpath) t (remove_device env devpath links t)"
proof -
  have d: "extends (own_unlink env devpath) t' (dev_do env (Unlink devpath) t')" for t'
    by (rule dev_do_extends) (simp add: own_unlink_def)
  have f: "extends (own_unlink env devpath) t' (fold (unlink_own env devpath) links t')" for t'
    by (rule fold_extends) (rule unlink_own_extends)
  have m: "extends (own_unlink env devpath) t
      (if StartsWith (dv_lb env) devpath ''/dev/block/dm-'' then RemoveDeviceMapperLinks env devpath t else t)"
    using RemoveDeviceMapperLinks_extends by simp
  show ?thesis unfolding remove_device_def Let_def by (rule extends_trans [OF m extends_trans [OF f d]])
qed

lemma make_links_credentials: "credentials (make_links env devpath links t) = credentials t"
  by (rule credentials_calls, rule extends_mono [OF make_links_extends]) (auto simp: links_call_def quiet_call_def split: dev_call.splits)

lemma remove_device_credentials: "credentials (remove_device env devpath links t) = credentials t"
  by (rule credentials_calls, rule extends_mono [OF remove_device_extends]) (auto simp: own_unlink_def quiet_call_def split: dev_call.splits)

lemma HandleDevice_credentials:
  assumes "HandleDevice env dh action devpath block major minor links t = (True, t')" "credentials t = (AID_ROOT, None)"
  shows "credentials t' = (AID_ROOT, None)"
proof -
  obtain b t1 where m: "(if action = ''add'' then MakeDevice env dh devpath block major minor links t else (True, t)) = (b, t1)"
    by (meson surj_pair)
  then have b: "b" using assms(1) by (cases b) (simp_all add: HandleDevice_def)
  then have "credentials t1 = (AID_ROOT, None)"
    using m assms(2) MakeDevice_credentials by (auto split: if_splits)
  then show ?thesis
    using assms(1) m b by (auto simp: HandleDevice_def Let_def make_links_credentials remove_device_credentials split: if_splits)
qed


section \<open>Links\<close>

lemma create_node_extends:
  assumes "\<And>k c. quiet_call c \<Longrightarrow> (case c of Unlink _ \<Rightarrow> False | _ \<Rightarrow> True) \<Longrightarrow> P k c" "\<And>k g. P k (SetEGid g)"
  shows "extends P t (create_node env path mode major minor gid con t)"
proof -
  have r: "extends P t (relabel_node env path con t)" for t
    by (auto simp: relabel_node_def split: option.split intro!: dev_do_extends assms(1)) (simp_all add: quiet_call_def)
  have g: "extends P t (t @ [(SetEGid gid, x)])" for t x by (auto simp: extends_def assms(2))
  have m: "extends P t (t @ [(MkNod path mode major minor, x)])" for t x by (auto simp: extends_def quiet_call_def intro!: assms(1))
  show ?thesis
    using g extends_trans [OF g m] extends_trans [OF extends_trans [OF g m] r]
    by (auto simp: create_node_def dev_sys_def split: option.split)
qed

lemma MakeDevice_extends:
  assumes "\<And>k c. (case c of Unlink _ \<Rightarrow> False | _ \<Rightarrow> True) \<Longrightarrow> P k c"
  shows "extends P t (snd (MakeDevice env dh path block major minor links t))"
proof -
  have d: "extends P t (dev_do env c t)" if "case c of Unlink _ \<Rightarrow> False | _ \<Rightarrow> True" for c t
    using that by (auto intro: dev_do_extends assms)
  have n: "extends P t (create_node env p m ma mi g con t)" for p m ma mi g con t
    by (rule create_node_extends) (auto intro: assms)
  have e: "extends P t (dev_do env (ChownNode path uid) (create_node env p m ma mi g con t))" for uid p m ma mi g con t
    by (rule extends_trans [OF n d]) simp
  have f: "extends P t (t @ [(SetEGid AID_ROOT, x)])" for t x by (auto simp: extends_def intro!: assms)
  have c: "extends P t (if b then dev_do env (SetFsCreateCon l) t else t)" for b l t using d by simp
  show ?thesis
  proof (rule MakeDevice_steps [of env dh path block major minor links t])
    fix con uid mode gid r t1 t2
    assume t: "t1 = (if con \<noteq> [] then dev_do env (SetFsCreateCon (Some con)) t else t)"
        "t2 = dev_do env (ChownNode path uid) (create_node env path mode major minor gid con t1) @ [(SetEGid AID_ROOT, r)]"
      and m: "MakeDevice env dh path block major minor links t =
        (r = None, if r = None \<and> con \<noteq> [] then dev_do env (SetFsCreateCon None) t2 else t2)"
    have "extends P t t2" unfolding t by (rule extends_trans [OF c extends_trans [OF e f]])
    then have "extends P t (if r = None \<and> con \<noteq> [] then dev_do env (SetFsCreateCon None) t2 else t2)"
      by (rule extends_trans) (rule c)
    then show ?thesis by (simp add: m)
  qed simp
qed

text \<open>
  C38: removing a device takes away its node and its links, nothing else. A file is unlinked only in
  a \<^verbatim>\<open>remove\<close> event, and only when it is the node or when it is, at that moment, a link to the node: a
  link that another device has taken over in the meantime stays.
\<close>

theorem removes_own_links:
  assumes "HandleDevice env dh action devpath block major minor links t = (alive, t')"
  shows "\<exists>s. t' = t @ s \<and> (\<forall>i < length s. \<forall>p. fst (s ! i) = Unlink p \<longrightarrow>
    action = ''remove'' \<and> (p = devpath \<or> dv_Readlink env (length t + i) p = Some devpath))"
proof -
  let ?P = "\<lambda>k c. \<forall>p. c = Unlink p \<longrightarrow> action = ''remove'' \<and> (p = devpath \<or> dv_Readlink env k p = Some devpath)"
  obtain b t1 where m: "(if action = ''add'' then MakeDevice env dh devpath block major minor links t else (True, t)) = (b, t1)"
    by (meson surj_pair)
  have "extends ?P t (snd (MakeDevice env dh devpath block major minor links t))"
    by (rule MakeDevice_extends) (auto split: dev_call.splits)
  then have 1: "extends ?P t t1" using m by (auto split: if_splits)
  have 2: "extends ?P t1 (make_links env devpath links t1)"
    by (rule extends_mono [OF make_links_extends]) (auto simp: links_call_def)
  have 3: "action = ''remove'' \<Longrightarrow> extends ?P t2 (remove_device env devpath links t2)" for t2
    by (rule extends_mono [OF remove_device_extends]) (auto simp: own_unlink_def)
  have "extends ?P t t'"
    using assms m 1 extends_trans [OF 1 2] extends_trans [OF 1 3] extends_trans [OF extends_trans [OF 1 2] 3]
    by (auto simp: HandleDevice_def Let_def split: if_splits bool.splits)
  then show ?thesis by (auto simp: extends_def)
qed

section \<open>Permissions\<close>

definition rule_applies :: "device_env \<Rightarrow> string \<Rightarrow> string list \<Rightarrow> Permissions \<Rightarrow> bool" where
  "rule_applies env path links p = (Match env p path \<or> list_ex (Match env p) links)"

lemma find_append: "find P (xs @ ys) = (case find P xs of None \<Rightarrow> find P ys | Some x \<Rightarrow> Some x)"
  by (induction xs) auto

lemma last_rule:
  assumes "dev_permissions dh = before @ r # after" "rule_applies env path links r" "\<not> list_ex (rule_applies env path links) after"
  shows "GetDevicePermissions env dh path links = (pm_perm r, pm_uid r, pm_gid r)"
proof -
  have "find (rule_applies env path links) (rev after) = None"
    using assms(3) by (auto simp: find_None_iff list_ex_iff)
  then have "find (rule_applies env path links) (rev (dev_permissions dh)) = Some r"
    using assms(1,2) by (simp add: find_append)
  moreover have "(\<lambda>p. Match env p path \<or> list_ex (Match env p) links) = rule_applies env path links"
    by (simp add: fun_eq_iff rule_applies_def)
  ultimately show ?thesis by (simp add: GetDevicePermissions_def)
qed

text \<open>
  A new node gets the mode, owner and group of the last rule that matches its path or one of
  its links, so that the file of a device can override the general one. The group is taken on
  before the node is made and given back after it, and so is the label.
\<close>

theorem node_by_last_rule:
  assumes "dev_permissions dh = before @ r # after" "rule_applies env path links r" "\<not> list_ex (rule_applies env path links) after"
    and "mode = pm_perm r OR (if block then S_IFBLK else S_IFCHR)"
    and "SelabelLookupFileContextBestMatch env path links mode = Some con" "con \<noteq> []" "\<And>k c. dv_sys env k c = None"
  shows "\<exists>t'. MakeDevice env dh path block major minor links t = (True, t') \<and>
    map fst t' = map fst t @ [SetFsCreateCon (Some con), SetEGid (pm_gid r), MkNod path mode major minor,
      ChownNode path (pm_uid r), SetEGid AID_ROOT, SetFsCreateCon None]"
proof -
  note g = last_rule [OF assms(1-3)]
  show ?thesis
    by (simp add: MakeDevice_def g assms(4) [symmetric] assms(5-7) Let_def dev_sys_def dev_do_def create_node_def)
qed

section \<open>The end of an event\<close>

definition boot_id_empty :: "device_env \<Rightarrow> bool" where
  "boot_id_empty env = (map_option (Trim (dv_lb env)) (dv_read env boot_id_path) = Some [])"

lemma duplicate_once: "\<not> boot_id_empty env \<Longrightarrow> ashmem_duplicate env u = Some dup \<Longrightarrow> ashmem_duplicate env dup = None"
  by (auto simp: ashmem_duplicate_def boot_id_empty_def Let_def split: if_splits option.splits)

text \<open>
  Handling an event ends, at the latest after the duplicate of the node of \<^verbatim>\<open>ashmem\<close>, provided the
  identifier of the boot is not empty.
\<close>

theorem event_handled:
  assumes "\<not> boot_id_empty env"
  shows "DeviceHandler_HandleUevent env dh (Suc (Suc fuel)) u t \<noteq> OutOfFuel"
proof -
  have n: "DeviceHandler_HandleUevent env dh (Suc fuel) v t \<noteq> OutOfFuel" if "ashmem_duplicate env v = None" for v t
    using that by (auto simp: Let_def split: option.split prod.split bool.split)
  have "\<forall>dup. ashmem_duplicate env u = Some dup \<longrightarrow> (\<forall>t. DeviceHandler_HandleUevent env dh (Suc fuel) dup t \<noteq> OutOfFuel)"
    using n duplicate_once [OF assms] by blast
  then show ?thesis
    by (subst DeviceHandler_HandleUevent.simps)
       (auto simp: Let_def simp del: DeviceHandler_HandleUevent.simps split: option.split prod.split bool.split)
qed

text \<open>With an empty identifier the duplicate is the event itself, and ueventd never comes back.\<close>

theorem ashmem_never_ends:
  assumes "boot_id_empty env" "ue_device_name u = ''ashmem''" "0 \<le> ue_major u" "0 \<le> ue_minor u"
    and "device_path env dh u \<noteq> None" "\<And>k. dv_sys env k (SetEGid AID_ROOT) = None"
  shows "DeviceHandler_HandleUevent env dh fuel u t = OutOfFuel"
proof (induction fuel arbitrary: t)
  case (Suc fuel)
  obtain devpath block links where d: "device_path env dh u = Some (devpath, block, links)" using assms(5) by auto
  have a: "ashmem_duplicate env u = Some u" using assms(1,2) by (auto simp: ashmem_duplicate_def boot_id_empty_def)
  have "fst (MakeDevice env dh devpath block (ue_major u) (ue_minor u) links t)" for t
    by (simp add: MakeDevice_def Let_def dev_sys_def assms(6) split: prod.split option.split)
  then have "fst (HandleDevice env dh (ue_action u) devpath block (ue_major u) (ue_minor u) links t)" for t
    by (auto simp: HandleDevice_def Let_def split: prod.split bool.split) (metis fst_conv)
  then obtain t' where "HandleDevice env dh (ue_action u) devpath block (ue_major u) (ue_minor u) links
      (make_dirs env (dv_Dirname env devpath) (fixup_event env dh u t)) = (True, t')" by (metis prod.collapse)
  then show ?case using Suc d a assms(3,4) by (simp add: Let_def)
qed simp

subsection \<open>Witnesses\<close>

definition fuse_rule :: Permissions where "fuse_rule = new_permissions ''/dev/fuse'' 0x1B6 0 0x3F8 False"

definition sample_handler :: DeviceHandler where
  "sample_handler = new_device_handler [new_permissions ''/dev/*'' 0x180 0 0 False, fuse_rule] [] [] [] True"

definition fuse_event :: Uevent where
  "fuse_event = cleared_uevent\<lparr>ue_action := ''add'', ue_path := ''/devices/virtual/misc/fuse'', ue_subsystem := ''misc'',
     ue_device_name := ''fuse'', ue_major := 10, ue_minor := 229\<rparr>"

lemma sample_device_path: "device_path sample_devices sample_handler fuse_event = Some (''/dev/fuse'', False, [])"
  by (simp add: device_path_def sample_devices_def sample_handler_def fuse_event_def new_device_handler_def ref_libbase_def)


theorem removes_own_links_witness:
  "\<exists>t'. HandleDevice sample_devices sample_handler ''remove'' ''/dev/fuse'' False 10 229 [''/dev/own'', ''/dev/taken''] [] = (True, t') \<and>
     map fst t' = [Unlink ''/dev/own'', Unlink ''/dev/fuse''] \<and> dv_Readlink sample_devices 0 ''/dev/own'' = Some ''/dev/fuse''"
proof -
  define t' :: dev_trace where "t' = [(Unlink ''/dev/own'', None), (Unlink ''/dev/fuse'', None)]"
  have h: "HandleDevice sample_devices sample_handler ''remove'' ''/dev/fuse'' False 10 229 [''/dev/own'', ''/dev/taken''] [] = (True, t')"
    by (simp add: t'_def HandleDevice_def remove_device_def unlink_own_def dev_do_def dev_sys_def sample_devices_def ref_libbase_def)
  from removes_own_links [OF h] have "\<forall>i < length t'. \<forall>p. fst (t' ! i) = Unlink p \<longrightarrow>
      p = ''/dev/fuse'' \<or> dv_Readlink sample_devices i p = Some ''/dev/fuse''" by auto
  from this [rule_format, of 0 "''/dev/own''"] show ?thesis using h by (simp add: t'_def)
qed

theorem node_by_last_rule_witness:
  "\<exists>t'. MakeDevice sample_devices sample_handler ''/dev/fuse'' False 10 229 [] [] = (True, t') \<and>
     map fst t' = [SetFsCreateCon (Some ''u:object_r:device:s0''), SetEGid 0x3F8, MkNod ''/dev/fuse'' 0x21B6 10 229,
       ChownNode ''/dev/fuse'' 0, SetEGid 0, SetFsCreateCon None]"
proof -
  have r: "pm_name fuse_rule = ''/dev/fuse''" "pm_perm fuse_rule = 0x1B6" "pm_uid fuse_rule = 0" "pm_gid fuse_rule = 0x3F8"
      "\<not> pm_prefix fuse_rule" "\<not> pm_wildcard fuse_rule"
    by (simp_all add: fuse_rule_def new_permissions_def)
  have p: "dev_permissions sample_handler = [new_permissions ''/dev/*'' 0x180 0 0 False] @ fuse_rule # []"
    by (simp add: sample_handler_def new_device_handler_def)
  have a: "rule_applies sample_devices ''/dev/fuse'' [] fuse_rule" using r by (simp add: rule_applies_def Match_def)
  have m: "pm_perm fuse_rule OR S_IFCHR = 0x21B6" by (simp add: r S_IFCHR_def)
  show ?thesis
    using node_by_last_rule [OF p a, where mode = "0x21B6" and block = False and con = "''u:object_r:device:s0''" and major = 10 and minor = 229 and t = "[]"] m r
    by (simp add: SelabelLookupFileContextBestMatch_def sample_devices_def AID_ROOT_def)
qed

theorem event_handled_witness:
  "\<not> boot_id_empty sample_devices \<and> DeviceHandler_HandleUevent sample_devices sample_handler 2 (fuse_event\<lparr>ue_device_name := ''ashmem''\<rparr>) [] \<noteq> OutOfFuel"
proof -
  have "\<not> boot_id_empty sample_devices"
    by (simp add: boot_id_empty_def sample_devices_def ref_libbase_def ref_trim_def c_isspace_def code_of_def)
  then show ?thesis using event_handled [of sample_devices sample_handler 0 "fuse_event\<lparr>ue_device_name := ''ashmem''\<rparr>" "[]"]
    by (simp only: numeral_2_eq_2 simp_thms not_False_eq_True)
qed

end
