(* ===== verification/Firmware_Handler.thy ===== *)
theory Firmware_Handler
  imports Devices
begin

text \<open>
  Loading firmware and kernel modules on request of the kernel (\<^verbatim>\<open>init/firmware_handler.cpp\<close>,
  \<^verbatim>\<open>init/modalias_handler.cpp\<close>). The work is done in a child of ueventd; what it does is the list of
  its calls.
\<close>

section \<open>External handlers\<close>

datatype fw_match = PrefixMatch | FnMatch | EqualMatch

record ExternalFirmwareHandler =
  eh_devpath :: string
  eh_uid :: "32 word"
  eh_handler_path :: string
  eh_match :: fw_match

definition new_external_handler :: "string \<Rightarrow> 32 word \<Rightarrow> string \<Rightarrow> ExternalFirmwareHandler" where
  "new_external_handler devpath uid handler_path =
     (let h = \<lparr>eh_devpath = devpath, eh_uid = uid, eh_handler_path = handler_path, eh_match = EqualMatch\<rparr>
      in case find_char CHR ''*'' devpath of
           None \<Rightarrow> h
         | Some wildcard_position \<Rightarrow>
             if wildcard_position = length devpath - 1 then h\<lparr>eh_devpath := butlast devpath, eh_match := PrefixMatch\<rparr>
             else h\<lparr>eh_match := FnMatch\<rparr>)"

definition handler_matches :: "device_env \<Rightarrow> ExternalFirmwareHandler \<Rightarrow> string \<Rightarrow> bool" where
  "handler_matches env h path =
     (case eh_match h of
        PrefixMatch \<Rightarrow> StartsWith (dv_lb env) path (eh_devpath h)
      | FnMatch \<Rightarrow> dv_fnmatch env False (c_str (eh_devpath h)) (c_str path)
      | EqualMatch \<Rightarrow> eh_devpath h = path)"

text \<open>What running a program brings: whether the pipes, the fork and the wait worked, its output and its status.\<close>

datatype wait_status = Exited int | Signaled int | OtherStatus int

record handler_run =
  hr_stdout_pair :: bool
  hr_stderr_pair :: bool
  hr_forked :: bool
  hr_waited :: bool
  hr_stdout :: "string option"
  hr_status :: wait_status

datatype fw_call =
  ExecHandler "string list" "32 word" string string
| WriteLoading string
| SendFirmware string

definition RunExternalHandler :: "libbase \<Rightarrow> handler_run \<Rightarrow> string result" where
  "RunExternalHandler lb hr =
     (if \<not> hr_stdout_pair hr then Err (ErrnoError ''Socketpair() for stdout failed'')
      else if \<not> hr_stderr_pair hr then Err (ErrnoError ''Socketpair() for stderr failed'')
      else if \<not> hr_forked hr then Err (ErrnoError ''fork() failed'')
      else if \<not> hr_waited hr then Err (ErrnoError ''waitpid() failed'')
      else
        (case hr_stdout hr of
           None \<Rightarrow> Err (ErrnoError ''ReadFdToString() for stdout failed'')
         | Some stdout_content \<Rightarrow>
             (case hr_status hr of
                Exited status \<Rightarrow>
                  if status = 0 then Ok (Trim lb stdout_content) else Err (Error (''exited with status '' @ to_string status))
              | Signaled signo \<Rightarrow> Err (Error (''killed by signal '' @ to_string signo))
              | OtherStatus status \<Rightarrow> Err (Error (''unexpected exit status '' @ to_string status)))))"

text \<open>The child: its arguments, the user it becomes, and the two variables of its environment.\<close>

definition handler_exec :: "libbase \<Rightarrow> ExternalFirmwareHandler \<Rightarrow> Uevent \<Rightarrow> fw_call" where
  "handler_exec lb h u = ExecHandler (Split lb (eh_handler_path h) '' '') (eh_uid h) (ue_firmware u) (ue_path u)"

section \<open>Finding the file\<close>

record FirmwareHandler =
  firmware_directories :: "string list"
  external_firmware_handlers :: "ExternalFirmwareHandler list"

datatype fw_open = OpenFails | FstatFails | Opens

record firmware_env =
  fw_dv :: device_env
  fw_run :: "ExternalFirmwareHandler \<Rightarrow> Uevent \<Rightarrow> handler_run"
  fw_forked :: bool
  fw_open_loading :: bool
  fw_open_data :: bool
  fw_file :: "nat \<Rightarrow> string \<Rightarrow> fw_open"
  fw_sent :: "string \<Rightarrow> bool"
  fw_booting :: "nat \<Rightarrow> bool"
  fw_glob :: "nat \<Rightarrow> string list"

definition GetFirmwarePath :: "firmware_env \<Rightarrow> FirmwareHandler \<Rightarrow> Uevent \<Rightarrow> string \<times> fw_call list" where
  "GetFirmwarePath env fh u =
     (case find (\<lambda>h. handler_matches (fw_dv env) h (ue_path u)) (external_firmware_handlers fh) of
        None \<Rightarrow> (ue_firmware u, [])
      | Some h \<Rightarrow>
          (let hr = fw_run env h u;
               execs = (if hr_stdout_pair hr \<and> hr_stderr_pair hr \<and> hr_forked hr then [handler_exec (dv_lb (fw_dv env)) h u] else [])
           in case RunExternalHandler (dv_lb (fw_dv env)) hr of
                Inl _ \<Rightarrow> (ue_firmware u, execs)
              | Inr path \<Rightarrow> if find_str ''..'' path \<noteq> None then (ue_firmware u, execs) else (path, execs)))"

definition LoadFirmware :: "firmware_env \<Rightarrow> string \<Rightarrow> fw_call list" where
  "LoadFirmware env file = [WriteLoading ''1'', SendFirmware file, WriteLoading (if fw_sent env file then ''0'' else ''-1'')]"

text \<open>
  The directories in the order they are tried: the configured ones, then those of the APEXes, the
  versioned mount points left out. The first file that opens is loaded.
\<close>

definition firmware_dirs :: "firmware_env \<Rightarrow> FirmwareHandler \<Rightarrow> nat \<Rightarrow> string list" where
  "firmware_dirs env fh attempt =
     firmware_directories fh @ filter (\<lambda>d. CHR ''@'' \<notin> set d) (fw_glob env attempt)"

definition ForEachFirmwareDirectory :: "firmware_env \<Rightarrow> FirmwareHandler \<Rightarrow> string \<Rightarrow> nat \<Rightarrow> string option" where
  "ForEachFirmwareDirectory env fh firmware attempt =
     map_option (\<lambda>d. d @ firmware) (find (\<lambda>d. fw_file env attempt (d @ firmware) = Opens) (firmware_dirs env fh attempt))"

text \<open>The loop that tries again as long as the device is booting.\<close>

fun load_loop :: "firmware_env \<Rightarrow> FirmwareHandler \<Rightarrow> string \<Rightarrow> nat \<Rightarrow> nat \<Rightarrow> bool \<Rightarrow> fw_call list option" where
  "load_loop env fh firmware 0 attempt booting = None"
| "load_loop env fh firmware (Suc fuel) attempt booting =
     (case ForEachFirmwareDirectory env fh firmware attempt of
        Some file \<Rightarrow> Some (LoadFirmware env file)
      | None \<Rightarrow>
          if booting then load_loop env fh firmware fuel (attempt + 1) (fw_booting env (attempt + 1))
          else Some [WriteLoading ''-1''])"

definition ProcessFirmwareEvent :: "firmware_env \<Rightarrow> FirmwareHandler \<Rightarrow> nat \<Rightarrow> string \<Rightarrow> fw_call list option" where
  "ProcessFirmwareEvent env fh fuel firmware =
     (if \<not> fw_open_loading env then Some []
      else if \<not> fw_open_data env then Some []
      else load_loop env fh firmware fuel 0 (fw_booting env 0))"

text \<open>What the child does for an event; nothing for events of other subsystems, or when it cannot be forked.\<close>

definition FirmwareHandler_HandleUevent :: "firmware_env \<Rightarrow> FirmwareHandler \<Rightarrow> nat \<Rightarrow> Uevent \<Rightarrow> fw_call list option" where
  "FirmwareHandler_HandleUevent env fh fuel u =
     (if ue_subsystem u \<noteq> ''firmware'' \<or> ue_action u \<noteq> ''add'' then Some []
      else if \<not> fw_forked env then Some []
      else (case GetFirmwarePath env fh u of
              (firmware, execs) \<Rightarrow> map_option (\<lambda>cs. execs @ cs) (ProcessFirmwareEvent env fh fuel firmware)))"

text \<open>Modules: the aliases that are handed to modprobe.\<close>

definition ModaliasHandler_HandleUevent :: "Uevent \<Rightarrow> string list" where
  "ModaliasHandler_HandleUevent u = (if ue_modalias u = [] then [] else [ue_modalias u])"

section \<open>Properties\<close>

lemma load_loop_ends:
  "\<not> fw_booting env n \<Longrightarrow> attempt \<le> n \<Longrightarrow> n - attempt < fuel \<Longrightarrow>
   \<exists>cs. load_loop env fh firmware (Suc fuel) attempt (fw_booting env attempt) = Some cs"
proof (induction fuel arbitrary: attempt)
  case (Suc fuel)
  show ?case
  proof (cases "attempt = n")
    case True
    then show ?thesis using Suc.prems(1) by (auto split: option.split)
  next
    case False
    then have "\<exists>cs. load_loop env fh firmware (Suc fuel) (attempt + 1) (fw_booting env (attempt + 1)) = Some cs"
      using Suc by simp
    then show ?thesis by (subst load_loop.simps) (auto simp del: load_loop.simps split: option.split)
  qed
qed simp

text \<open>What an answer is: the load of a file of some attempt, the first that opens, or the refusal.\<close>

definition answered :: "firmware_env \<Rightarrow> FirmwareHandler \<Rightarrow> string \<Rightarrow> fw_call list \<Rightarrow> bool" where
  "answered env fh firmware cs =
     (cs = [WriteLoading ''-1''] \<or>
      (\<exists>attempt before d after. firmware_dirs env fh attempt = before @ d # after \<and> fw_file env attempt (d @ firmware) = Opens \<and>
         list_all (\<lambda>d. fw_file env attempt (d @ firmware) \<noteq> Opens) before \<and> cs = LoadFirmware env (d @ firmware)))"

lemma find_split: "find P xs = Some x \<Longrightarrow> \<exists>before after. xs = before @ x # after \<and> P x \<and> list_all (\<lambda>y. \<not> P y) before"
proof (induction xs)
  case (Cons y ys)
  show ?case
  proof (cases "P y")
    case True
    then show ?thesis using Cons.prems by (intro exI [of _ "[]"] exI [of _ ys]) simp
  next
    case False
    then obtain before after where "ys = before @ x # after" "P x" "list_all (\<lambda>y. \<not> P y) before" using Cons by auto
    then show ?thesis using False by (intro exI [of _ "y # before"] exI [of _ after]) simp
  qed
qed simp

lemma load_loop_answers: "load_loop env fh firmware fuel attempt booting = Some cs \<Longrightarrow> answered env fh firmware cs"
proof (induction fuel arbitrary: attempt booting)
  case (Suc fuel)
  show ?case
  proof (cases "ForEachFirmwareDirectory env fh firmware attempt")
    case None
    then show ?thesis using Suc by (auto simp: answered_def split: if_splits)
  next
    case (Some found)
    then obtain d where d: "found = d @ firmware"
        "find (\<lambda>d. fw_file env attempt (d @ firmware) = Opens) (firmware_dirs env fh attempt) = Some d"
      by (auto simp: ForEachFirmwareDirectory_def)
    then show ?thesis using Some Suc.prems find_split [OF d(2)] by (auto simp: answered_def)
  qed
qed simp



subsection \<open>Witnesses\<close>

definition sample_firmware :: firmware_env where
  "sample_firmware =
     \<lparr>fw_dv = sample_devices,
      fw_run = (\<lambda>_ _. \<lparr>hr_stdout_pair = True, hr_stderr_pair = True, hr_forked = True, hr_waited = True,
                        hr_stdout = Some ''../secret'', hr_status = Exited 0\<rparr>),
      fw_forked = True, fw_open_loading = True, fw_open_data = True, fw_file = (\<lambda>_ f. if f = ''/vendor/firmware/wifi.bin'' then Opens else OpenFails),
      fw_sent = (\<lambda>_. True), fw_booting = (\<lambda>k. k < 1), fw_glob = (\<lambda>_. [])\<rparr>"

definition sample_firmware_handler :: FirmwareHandler where
  "sample_firmware_handler =
     \<lparr>firmware_directories = [''/etc/firmware/'', ''/vendor/firmware/''],
      external_firmware_handlers = [new_external_handler ''/devices/wifi'' 1000 ''/vendor/bin/handler'']\<rparr>"



end
