(* ===== verification/Ueventd_Parser.thy ===== *)
theory Ueventd_Parser
  imports Firmware_Handler Service_Parser
begin

text \<open>
  The configuration of ueventd (\<^verbatim>\<open>init/ueventd_parser.cpp\<close>): lines for permissions, firmware and
  options, and \<^verbatim>\<open>subsystem\<close> sections, read by the driver of \<open>Rc_Parser\<close>.
\<close>

section \<open>State\<close>

record UeventdConfiguration =
  uc_subsystems :: "Subsystem list"
  uc_sysfs_permissions :: "SysfsPermissions list"
  uc_dev_permissions :: "Permissions list"
  uc_firmware_directories :: "string list"
  uc_external_firmware_handlers :: "ExternalFirmwareHandler list"
  enable_modalias_handling :: bool
  uevent_socket_rcvbuf_size :: nat
  enable_parallel_restorecon :: bool

definition new_configuration :: UeventdConfiguration where
  "new_configuration =
     \<lparr>uc_subsystems = [], uc_sysfs_permissions = [], uc_dev_permissions = [], uc_firmware_directories = [],
      uc_external_firmware_handlers = [], enable_modalias_handling = False, uevent_socket_rcvbuf_size = 0,
      enable_parallel_restorecon = False\<rparr>"

text \<open>The configuration with the subsystem under construction; the databases of users and groups and the library's parser of sizes.\<close>

record ueventd_world =
  uw_config :: UeventdConfiguration
  uw_subsystem :: Subsystem

record ueventd_env =
  ud_getpwnam :: "string \<Rightarrow> 32 word option"
  ud_getgrnam :: "string \<Rightarrow> 32 word option"
  ud_ParseByteCount :: "string \<Rightarrow> nat option"

section \<open>Lines\<close>

text \<open>\<^verbatim>\<open>strtol\<close> must reach the end of the text; that it read nothing at all is not noticed.\<close>

definition parse_mode :: "string \<Rightarrow> 32 word result" where
  "parse_mode perm_string =
     (case strtol8 (c_str perm_string) of
        (v, rest, errno) \<Rightarrow> if rest \<noteq> [] then Err (Error (''invalid mode '' @ quoted perm_string)) else Ok (word_of_int v))"

text \<open>The part that both kinds of lines share: \<^verbatim>\<open><perm> <uid> <gid>\<close> and the option.\<close>

definition parse_owner :: "ueventd_env \<Rightarrow> string list \<Rightarrow> (32 word \<times> 32 word \<times> 32 word \<times> bool) result" where
  "parse_owner env rest =
     (case parse_mode (rest ! 0) of
        Inl e \<Rightarrow> Err e
      | Inr perm \<Rightarrow>
          (case ud_getpwnam env (rest ! 1) of
             None \<Rightarrow> Err (Error (''invalid uid '' @ quoted (rest ! 1)))
           | Some uid \<Rightarrow>
               (case ud_getgrnam env (rest ! 2) of
                  None \<Rightarrow> Err (Error (''invalid gid '' @ quoted (rest ! 2)))
                | Some gid \<Rightarrow>
                    if length rest = 3 then Ok (perm, uid, gid, False)
                    else if rest ! 3 \<noteq> ''no_fnm_pathname'' then
                      Err (Error (''invalid option '' @ quoted (rest ! 3) @ '', only no_fnm_pathname is supported''))
                    else Ok (perm, uid, gid, True))))"

definition ParsePermissionsLine :: "ueventd_env \<Rightarrow> bool \<Rightarrow> string list \<Rightarrow> UeventdConfiguration \<Rightarrow> unit result \<times> UeventdConfiguration" where
  "ParsePermissionsLine env is_sysfs args uc =
     (if is_sysfs \<and> \<not> (length args = 5 \<or> length args = 6) then (Err (Error ''/sys/ lines must have 5 or 6 entries''), uc)
      else if \<not> is_sysfs \<and> \<not> (length args = 4 \<or> length args = 5) then (Err (Error ''/dev/ lines must have 4 or 5 entries''), uc)
      else
        (case parse_owner env (drop (if is_sysfs then 2 else 1) args) of
           Inl e \<Rightarrow> (Err e, uc)
         | Inr (perm, uid, gid, no_fnm_pathname) \<Rightarrow>
             (Ok (),
              if is_sysfs
              then uc\<lparr>uc_sysfs_permissions := uc_sysfs_permissions uc @ [new_sysfs_permissions (args ! 0) (args ! 1) perm uid gid no_fnm_pathname]\<rparr>
              else uc\<lparr>uc_dev_permissions := uc_dev_permissions uc @ [new_permissions (args ! 0) perm uid gid no_fnm_pathname]\<rparr>)))"

definition ParseFirmwareDirectoriesLine :: "string list \<Rightarrow> UeventdConfiguration \<Rightarrow> unit result \<times> UeventdConfiguration" where
  "ParseFirmwareDirectoriesLine args uc =
     (if length args < 2 then (Err (Error ''firmware_directories must have at least 1 entry''), uc)
      else (Ok (), uc\<lparr>uc_firmware_directories := uc_firmware_directories uc @ tl args\<rparr>))"

definition ParseExternalFirmwareHandlerLine :: "ueventd_env \<Rightarrow> string list \<Rightarrow> UeventdConfiguration \<Rightarrow> unit result \<times> UeventdConfiguration" where
  "ParseExternalFirmwareHandlerLine env args uc =
     (if length args \<noteq> 4 then (Err (Error ''external_firmware_handler lines must have exactly 3 parameters''), uc)
      else if list_ex (\<lambda>h. eh_devpath h = args ! 1) (uc_external_firmware_handlers uc) then
        (Err (Error (''found a previous external_firmware_handler with the same devpath, '' @ quoted (args ! 1))), uc)
      else
        (case ud_getpwnam env (args ! 2) of
           None \<Rightarrow> (Err (ErrnoError (''invalid handler uid'' @ quoted (args ! 2))), uc)
         | Some uid \<Rightarrow>
             (Ok (), uc\<lparr>uc_external_firmware_handlers := uc_external_firmware_handlers uc @ [new_external_handler (args ! 1) uid (args ! 3)]\<rparr>)))"

definition ParseEnabledDisabledLine ::
  "(bool \<Rightarrow> UeventdConfiguration \<Rightarrow> UeventdConfiguration) \<Rightarrow> string list \<Rightarrow> UeventdConfiguration \<Rightarrow> unit result \<times> UeventdConfiguration" where
  "ParseEnabledDisabledLine set_feature args uc =
     (if length args \<noteq> 2 then (Err (Error (args ! 0 @ '' lines take exactly one parameter'')), uc)
      else if args ! 1 = ''enabled'' then (Ok (), set_feature True uc)
      else if args ! 1 = ''disabled'' then (Ok (), set_feature False uc)
      else (Err (Error (args ! 0 @ '' takes either '' @ quoted ''enabled'' @ '' or '' @ quoted ''disabled'' @ '' as a parameter'')), uc))"

definition ParseUeventSocketRcvbufSizeLine :: "ueventd_env \<Rightarrow> string list \<Rightarrow> UeventdConfiguration \<Rightarrow> unit result \<times> UeventdConfiguration" where
  "ParseUeventSocketRcvbufSizeLine env args uc =
     (if length args \<noteq> 2 then (Err (Error ''uevent_socket_rcvbuf_size lines take exactly one parameter''), uc)
      else
        (case ud_ParseByteCount env (args ! 1) of
           None \<Rightarrow> (Err (Error (''could not parse size '' @ quoted (args ! 1) @ '' for uevent_socket_rcvbuf_line'')), uc)
         | Some parsed_size \<Rightarrow> (Ok (), uc\<lparr>uevent_socket_rcvbuf_size := parsed_size\<rparr>)))"

section \<open>Subsystems\<close>

definition upd_subsystem :: "(Subsystem \<Rightarrow> Subsystem) \<Rightarrow> ueventd_world rc_state \<Rightarrow> ueventd_world rc_state" where
  "upd_subsystem f rs = rs\<lparr>rc_world := (rc_world rs)\<lparr>uw_subsystem := f (uw_subsystem (rc_world rs))\<rparr>\<rparr>"

definition SubsystemParser_ParseSection ::
  "string list \<Rightarrow> string \<Rightarrow> nat \<Rightarrow> ueventd_world rc_state \<Rightarrow> unit result \<times> ueventd_world rc_state" where
  "SubsystemParser_ParseSection args filename line rs =
     (if length args \<noteq> 2 then (Err (Error ''subsystems must have exactly one name''), rs)
      else if list_ex (\<lambda>s. ss_name s = args ! 1) (uc_subsystems (uw_config (rc_world rs))) then
        (Err (Error ''ignoring duplicate subsystem entry''), rs)
      else (Ok (), upd_subsystem (\<lambda>_. new_subsystem (args ! 1)) rs))"

definition ParseDevName :: "string list \<Rightarrow> Subsystem \<Rightarrow> unit result \<times> Subsystem" where
  "ParseDevName args ss =
     (if args ! 1 = ''uevent_devname'' then (Ok (), ss\<lparr>devname_source := DEVNAME_UEVENT_DEVNAME\<rparr>)
      else if args ! 1 = ''uevent_devpath'' then (Ok (), ss\<lparr>devname_source := DEVNAME_UEVENT_DEVPATH\<rparr>)
      else (Err (Error (''invalid devname '' @ quoted (args ! 1))), ss))"

definition ParseDirName :: "string list \<Rightarrow> Subsystem \<Rightarrow> unit result \<times> Subsystem" where
  "ParseDirName args ss =
     (if \<not> prefix ''/'' (args ! 1) then
        (Err (Error (''dirname '' @ CHR 0x27 # (args ! 1) @ '' '' @ [CHR 0x27] @ '' does not start with '' @ quoted ''/'')), ss)
      else (Ok (), ss\<lparr>dir_name := args ! 1\<rparr>))"

definition subsystem_options :: "(string list \<Rightarrow> Subsystem \<Rightarrow> unit result \<times> Subsystem) keyword_map" where
  "subsystem_options = [entry ''devname'' 1 1 ParseDevName, entry ''dirname'' 1 1 ParseDirName]"

definition SubsystemParser_ParseLineSection ::
  "string list \<Rightarrow> nat \<Rightarrow> ueventd_world rc_state \<Rightarrow> unit result \<times> ueventd_world rc_state" where
  "SubsystemParser_ParseLineSection args line rs =
     (case Find subsystem_options args of
        Inl e \<Rightarrow> (Err (Error (message e)), rs)
      | Inr f \<Rightarrow> (case f args (uw_subsystem (rc_world rs)) of (r, ss) \<Rightarrow> (r, upd_subsystem (\<lambda>_. ss) rs)))"

definition SubsystemParser_EndSection :: "ueventd_world rc_state \<Rightarrow> unit result \<times> ueventd_world rc_state" where
  "SubsystemParser_EndSection rs =
     (let w = rc_world rs; uc = uw_config w
      in (Ok (), rs\<lparr>rc_world := w\<lparr>uw_config := uc\<lparr>uc_subsystems := uc_subsystems uc @ [uw_subsystem w]\<rparr>\<rparr>\<rparr>))"

definition SubsystemParser :: "ueventd_world rc_state section_parser" where
  "SubsystemParser =
     \<lparr>ParseSection = SubsystemParser_ParseSection, ParseLineSection = SubsystemParser_ParseLineSection,
      EndSection = SubsystemParser_EndSection, EndFile = Some\<rparr>"

section \<open>The configuration\<close>

definition on_config ::
  "(string list \<Rightarrow> UeventdConfiguration \<Rightarrow> unit result \<times> UeventdConfiguration) \<Rightarrow> string list \<Rightarrow>
   ueventd_world rc_state \<Rightarrow> unit result \<times> ueventd_world rc_state" where
  "on_config f args rs =
     (case f args (uw_config (rc_world rs)) of (r, uc) \<Rightarrow> (r, rs\<lparr>rc_world := (rc_world rs)\<lparr>uw_config := uc\<rparr>\<rparr>))"

definition ueventd_parser ::
  "ueventd_env \<Rightarrow> rc_env \<Rightarrow> (string \<Rightarrow> ueventd_world rc_state \<Rightarrow> (bool \<times> ueventd_world rc_state) option) \<Rightarrow> ueventd_world parser" where
  "ueventd_parser ud env parse_config =
     AddSingleLineParser ''parallel_restorecon'' (on_config (ParseEnabledDisabledLine (\<lambda>b uc. uc\<lparr>enable_parallel_restorecon := b\<rparr>)))
      (AddSingleLineParser ''uevent_socket_rcvbuf_size'' (on_config (ParseUeventSocketRcvbufSizeLine ud))
       (AddSingleLineParser ''modalias_handling'' (on_config (ParseEnabledDisabledLine (\<lambda>b uc. uc\<lparr>enable_modalias_handling := b\<rparr>)))
        (AddSingleLineParser ''external_firmware_handler'' (on_config (ParseExternalFirmwareHandlerLine ud))
         (AddSingleLineParser ''firmware_directories'' (on_config ParseFirmwareDirectoriesLine)
          (AddSingleLineParser ''/dev/'' (on_config (ParsePermissionsLine ud False))
           (AddSingleLineParser ''/sys/'' (on_config (ParsePermissionsLine ud True))
            (AddSectionParser ''subsystem'' SubsystemParser
             (AddSectionParser ''import'' (ImportParser env parse_config) empty_parser))))))))"

definition ueventd_start :: "ueventd_world rc_state" where
  "ueventd_start =
     \<lparr>parse_error_count = 0, rc_imports = [], import_filename = [], rc_log = [],
      rc_world = \<lparr>uw_config = new_configuration, uw_subsystem = new_subsystem []\<rparr>\<rparr>"

abbreviation ueventd_parse :: "libbase \<Rightarrow> ueventd_env \<Rightarrow> rc_env \<Rightarrow> nat \<Rightarrow> string \<Rightarrow> ueventd_world rc_state \<Rightarrow> (bool \<times> ueventd_world rc_state) option" where
  "ueventd_parse lb ud env fuel \<equiv> ParseConfig lb env (ueventd_parser ud env) fuel"

definition ueventd_ParseConfig :: "libbase \<Rightarrow> ueventd_env \<Rightarrow> rc_env \<Rightarrow> nat \<Rightarrow> string list \<Rightarrow> UeventdConfiguration option" where
  "ueventd_ParseConfig lb ud env fuel configs =
     map_option (\<lambda>rs. uw_config (rc_world rs))
       (ofold (\<lambda>config rs. map_option snd (ueventd_parse lb ud env fuel config rs)) configs ueventd_start)"

section \<open>The configuration is well formed\<close>

text \<open>Names of subsystems are unique, their directories are absolute, and so is the one under construction.\<close>

definition config_ok :: "UeventdConfiguration \<Rightarrow> bool" where
  "config_ok uc =
     (distinct (map ss_name (uc_subsystems uc)) \<and> list_all (\<lambda>s. prefix ''/'' (dir_name s)) (uc_subsystems uc))"

definition subsystem_ok :: "ueventd_world \<Rightarrow> bool" where
  "subsystem_ok w =
     (ss_name (uw_subsystem w) \<notin> ss_name ` set (uc_subsystems (uw_config w)) \<and> prefix ''/'' (dir_name (uw_subsystem w)))"

definition world_idle :: "ueventd_world rc_state \<Rightarrow> bool" where
  "world_idle rs = config_ok (uw_config (rc_world rs))"

text \<open>The \<^verbatim>\<open>import\<close> section builds nothing; the other one does.\<close>

definition world_active :: "ueventd_world rc_state section_parser \<Rightarrow> ueventd_world rc_state \<Rightarrow> bool" where
  "world_active sp rs = (world_idle rs \<and> (EndSection sp = SubsystemParser_EndSection \<longrightarrow> subsystem_ok (rc_world rs)))"

lemma import_builds_nothing: "EndSection (ImportParser env pc) \<noteq> SubsystemParser_EndSection"
proof
  assume e: "EndSection (ImportParser env pc) = SubsystemParser_EndSection"
  have "uc_subsystems (uw_config (rc_world (snd (EndSection (ImportParser env pc) ueventd_start)))) = []"
    by (simp add: ImportParser_def ueventd_start_def new_configuration_def)
  moreover have "uc_subsystems (uw_config (rc_world (snd (SubsystemParser_EndSection ueventd_start)))) \<noteq> []"
    by (simp add: SubsystemParser_EndSection_def Let_def)
  ultimately show False by (simp add: e)
qed

lemma ueventd_sections:
  "section_parsers (ueventd_parser ud env pc) = [(''import'', ImportParser env pc), (''subsystem'', SubsystemParser)]"
  by (simp add: ueventd_parser_def AddSectionParser_def AddSingleLineParser_def empty_parser_def)

lemma ueventd_callbacks:
  "snd ` set (line_callbacks (ueventd_parser ud env pc)) =
     {on_config (ParsePermissionsLine ud True), on_config (ParsePermissionsLine ud False), on_config ParseFirmwareDirectoriesLine,
      on_config (ParseExternalFirmwareHandlerLine ud), on_config (ParseEnabledDisabledLine (\<lambda>b uc. uc\<lparr>enable_modalias_handling := b\<rparr>)),
      on_config (ParseUeventSocketRcvbufSizeLine ud), on_config (ParseEnabledDisabledLine (\<lambda>b uc. uc\<lparr>enable_parallel_restorecon := b\<rparr>))}"
  by (auto simp: ueventd_parser_def AddSectionParser_def AddSingleLineParser_def empty_parser_def)

lemma lines_keep_subsystems:
  "uc_subsystems (snd (ParsePermissionsLine ud b args uc)) = uc_subsystems uc"
  "uc_subsystems (snd (ParseFirmwareDirectoriesLine args uc)) = uc_subsystems uc"
  "uc_subsystems (snd (ParseExternalFirmwareHandlerLine ud args uc)) = uc_subsystems uc"
  "uc_subsystems (snd (ParseUeventSocketRcvbufSizeLine ud args uc)) = uc_subsystems uc"
  "(\<And>b uc. uc_subsystems (f b uc) = uc_subsystems uc) \<Longrightarrow> uc_subsystems (snd (ParseEnabledDisabledLine f args uc)) = uc_subsystems uc"
  by (auto simp: ParsePermissionsLine_def ParseFirmwareDirectoriesLine_def ParseExternalFirmwareHandlerLine_def
      ParseUeventSocketRcvbufSizeLine_def ParseEnabledDisabledLine_def split: sum.split option.split prod.split)

lemma on_config_idle:
  assumes "\<And>uc. uc_subsystems (snd (f args uc)) = uc_subsystems uc"
  shows "world_idle (snd (on_config f args rs)) = world_idle rs"
  using assms [of "uw_config (rc_world rs)"] by (auto simp: on_config_def world_idle_def config_ok_def split: prod.split)

lemma callback_idle: "(n, cb) \<in> set (line_callbacks (ueventd_parser ud env pc)) \<Longrightarrow> world_idle (snd (cb args rs)) = world_idle rs"
proof -
  assume "(n, cb) \<in> set (line_callbacks (ueventd_parser ud env pc))"
  then have "cb \<in> snd ` set (line_callbacks (ueventd_parser ud env pc))" by force
  then show ?thesis unfolding ueventd_callbacks by (auto intro!: on_config_idle lines_keep_subsystems)
qed

lemma options_keep:
  assumes "Find subsystem_options args = Inr f" "f args ss = (r, ss')"
  shows "ss_name ss' = ss_name ss \<and> (prefix ''/'' (dir_name ss) \<longrightarrow> prefix ''/'' (dir_name ss'))"
proof -
  obtain key rest mv where "args = key # rest" "map_of subsystem_options key = Some mv" "mv_value mv = f"
    using assms(1) by (auto simp: Find_accepts accepts_def)
  then have "f = ParseDevName \<or> f = ParseDirName" by (auto simp: subsystem_options_def entry_def split: if_splits)
  then show ?thesis using assms(2) by (auto simp: ParseDevName_def ParseDirName_def split: if_splits)
qed

lemma import_section_world: "rc_world (snd (ImportParser_ParseSection env args fn line rs)) = rc_world rs"
  by (auto simp: ImportParser_ParseSection_def Let_def log_rc_def split: sum.split prod.split)

lemma subsystem_section:
  assumes "world_idle rs" "SubsystemParser_ParseSection args fn line rs = (r, rs')"
  shows "world_idle rs' \<and> (ok r \<longrightarrow> subsystem_ok (rc_world rs'))"
  using assms
  by (auto simp: SubsystemParser_ParseSection_def upd_subsystem_def world_idle_def subsystem_ok_def new_subsystem_def list_ex_iff
      split: if_splits)

lemma subsystem_line:
  assumes "world_idle rs" "subsystem_ok (rc_world rs)"
  shows "world_idle (snd (SubsystemParser_ParseLineSection args line rs)) \<and> subsystem_ok (rc_world (snd (SubsystemParser_ParseLineSection args line rs)))"
proof (cases "Find subsystem_options args")
  case (Inr f)
  obtain r ss where f: "f args (uw_subsystem (rc_world rs)) = (r, ss)" by fastforce
  then show ?thesis using assms options_keep [OF Inr f]
    by (simp add: SubsystemParser_ParseLineSection_def Inr upd_subsystem_def world_idle_def subsystem_ok_def)
qed (use assms in \<open>simp add: SubsystemParser_ParseLineSection_def\<close>)

lemma subsystem_end: "world_idle rs \<Longrightarrow> subsystem_ok (rc_world rs) \<Longrightarrow> world_idle (snd (SubsystemParser_EndSection rs))"
  by (auto simp: SubsystemParser_EndSection_def world_idle_def subsystem_ok_def config_ok_def Let_def)

lemma ueventd_contract:
  assumes pc: "\<And>path rs b rs'. pc path rs = Some (b, rs') \<Longrightarrow> world_idle rs \<Longrightarrow> world_idle rs'"
  shows "logged_sections (ueventd_parser ud env pc) world_idle world_active"
proof
  fix n sp and rs rs' :: "ueventd_world rc_state" and args fn line r
  assume sp: "(n, sp) \<in> set (section_parsers (ueventd_parser ud env pc))"
  show "if ok r then world_active sp rs' else world_idle rs'" if "world_idle rs" "ParseSection sp args fn line rs = (r, rs')"
    using sp that subsystem_section [of rs args fn line r rs'] import_section_world [of env args fn line rs] import_builds_nothing
    by (auto simp: ueventd_sections world_active_def SubsystemParser_def ImportParser_def world_idle_def)
  show "world_active sp (snd (ParseLineSection sp args line rs))" if "world_active sp rs"
    using sp that subsystem_line [of rs args line] import_builds_nothing
    by (auto simp: ueventd_sections world_active_def SubsystemParser_def ImportParser_def ImportParser_ParseLineSection_def)
  show "world_idle (snd (EndSection sp rs))" if "world_active sp rs"
    using sp that subsystem_end by (auto simp: ueventd_sections world_active_def SubsystemParser_def ImportParser_def)
  have "world_idle rs'" if "world_idle rs" "ImportParser_EndFile pc rs = Some rs'" for rs'
    using ofold_invariant [OF that(2) [unfolded ImportParser_EndFile_def], of world_idle] that(1) pc
    by (fastforce simp: world_idle_def)
  then show "world_idle rs'" if "world_idle rs" "EndFile sp rs = Some rs'"
    using sp that by (auto simp: ueventd_sections SubsystemParser_def ImportParser_def)
next
  show "world_idle (rs\<lparr>parse_error_count := k\<rparr>) = world_idle rs" "world_active sp (rs\<lparr>parse_error_count := k\<rparr>) = world_active sp rs"
    "world_idle (log_rc evs rs) = world_idle rs" for rs k sp evs
    by (simp_all add: world_idle_def world_active_def log_rc_def)
qed (simp add: callback_idle)

lemma ueventd_parse_idle: "ueventd_parse lb ud env fuel path rs = Some (b, rs') \<Longrightarrow> world_idle rs \<Longrightarrow> world_idle rs'"
proof (induction fuel arbitrary: path rs b rs')
  case (Suc fuel)
  have "logged_sections (ueventd_parser ud env (ueventd_parse lb ud env fuel)) world_idle world_active"
    by (rule ueventd_contract) (rule Suc.IH)
  then show ?case using logged_sections.parse_config_idle Suc.prems by (metis ParseConfig.simps(2))
qed simp

interpretation ueventd_files: logged_sections "ueventd_parser ud env (ueventd_parse lb ud env fuel)" world_idle world_active
  for ud env lb fuel
  by (rule ueventd_contract) (rule ueventd_parse_idle)

section \<open>Properties\<close>

text \<open>
  Whatever the configuration files say, malformed lines and repeated sections included, every
  subsystem that is read has a name of its own and puts its devices below an absolute directory.
\<close>

theorem ueventd_config_ok:
  assumes "ueventd_ParseConfig lb ud env fuel configs = Some uc"
  shows "config_ok uc"
proof -
  obtain rs where rs: "ofold (\<lambda>config rs. map_option snd (ueventd_parse lb ud env fuel config rs)) configs ueventd_start = Some rs"
      "uc = uw_config (rc_world rs)"
    using assms by (auto simp: ueventd_ParseConfig_def)
  have "world_idle ueventd_start" by (simp add: world_idle_def ueventd_start_def new_configuration_def config_ok_def)
  then have "world_idle rs" by (rule ofold_invariant [OF rs(1)]) (use ueventd_parse_idle in auto)
  then show ?thesis using rs(2) by (simp add: world_idle_def)
qed

text \<open>
  The test for a second handler compares the path on the line with what is stored, which has lost
  its final star: a line with a star is accepted again and again.
\<close>

theorem repeated_handler_accepted:
  assumes "ud_getpwnam ud user = Some uid" "CHR ''*'' \<notin> set path"
    and "list_all (\<lambda>h. CHR ''*'' \<notin> set (eh_devpath h)) (uc_external_firmware_handlers uc)"
  shows "let line = ParseExternalFirmwareHandlerLine ud [''external_firmware_handler'', path @ ''*'', user, handler];
             h = new_external_handler (path @ ''*'') uid handler
    in uc_external_firmware_handlers (snd (line (snd (line uc)))) = uc_external_firmware_handlers uc @ [h, h]"
proof -
  have "find_char CHR ''*'' (path @ ''*'') = Some (length path)"
    using assms(2) by (induction path) auto
  then have d: "eh_devpath (new_external_handler (path @ ''*'') uid handler) = path"
    by (simp add: new_external_handler_def)
  have "eh_devpath h \<noteq> path @ ''*''" if "h \<in> set (uc_external_firmware_handlers uc)" for h
    using assms(3) that by (auto simp: list_all_iff)
  then show ?thesis using assms(1) d by (auto simp: ParseExternalFirmwareHandlerLine_def list_ex_iff)
qed

definition sample_ueventd_env :: ueventd_env where
  "sample_ueventd_env = \<lparr>ud_getpwnam = (\<lambda>_. Some 0), ud_getgrnam = (\<lambda>_. Some 0), ud_ParseByteCount = (\<lambda>_. None)\<rparr>"

definition sample_ueventd_files :: rc_env where
  "sample_ueventd_files =
     deny_all_env\<lparr>rc_policy := None,
       rc_files := (\<lambda>_. Some \<lparr>file_mode = Some 420, file_content = Some (encode_lines [[''subsystem'', ''dma_heap''], [''dirname'', ''/dev/dma_heap'']])\<rparr>)\<rparr>"

lemma sample_ueventd_parsed:
  "ueventd_ParseConfig ref_libbase sample_ueventd_env sample_ueventd_files 1 [''/system/etc/ueventd.rc''] =
     Some (new_configuration\<lparr>uc_subsystems := [(new_subsystem ''dma_heap'')\<lparr>dir_name := ''/dev/dma_heap''\<rparr>]\<rparr>)"
proof -
  let ?env = sample_ueventd_files and ?lines = "[[''subsystem'', ''dma_heap''], [''dirname'', ''/dev/dma_heap'']]"
  let ?p = "ueventd_parser sample_ueventd_env ?env (ueventd_parse ref_libbase sample_ueventd_env ?env 0)"
  have l: "file_lines (encode_lines ?lines) = enumerate 1 ?lines" by (rule file_lines_encode) simp
  have s: "map_of (section_parsers ?p) ''subsystem'' = Some SubsystemParser" "map_of (section_parsers ?p) ''dirname'' = None"
    by (simp_all add: ueventd_sections)
  have c: "find (\<lambda>c. StartsWith ref_libbase w (fst c)) (line_callbacks ?p) = None" if "w = ''subsystem'' \<or> w = ''dirname''" for w
    using that by (auto simp: ueventd_parser_def AddSectionParser_def AddSingleLineParser_def empty_parser_def ref_libbase_def)
  have d: "Find subsystem_options [''dirname'', ''/dev/dma_heap''] = Inr ParseDirName"
    by (simp add: subsystem_options_def entry_def Find_def)
  define started where "started = upd_subsystem (\<lambda>_. new_subsystem ''dma_heap'') ueventd_start"
  have "SubsystemParser_ParseSection [''subsystem'', ''dma_heap''] fn n ueventd_start = (Ok (), started)" for fn n
    by (simp add: SubsystemParser_ParseSection_def started_def ueventd_start_def new_configuration_def)
  moreover have "SubsystemParser_ParseLineSection [''dirname'', ''/dev/dma_heap''] n started =
      (Ok (), upd_subsystem (\<lambda>_. (new_subsystem ''dma_heap'')\<lparr>dir_name := ''/dev/dma_heap''\<rparr>) ueventd_start)" for n
    by (simp add: SubsystemParser_ParseLineSection_def d ParseDirName_def started_def upd_subsystem_def)
  ultimately have read: "\<exists>rs. ParseData ref_libbase ?p fn (encode_lines ?lines) ueventd_start = Some rs \<and>
      uw_config (rc_world rs) = new_configuration\<lparr>uc_subsystems := [(new_subsystem ''dma_heap'')\<lparr>dir_name := ''/dev/dma_heap''\<rparr>]\<rparr>" for fn
    by (simp add: ParseData_fold l parse_line_def c s start_state_def end_section_def count_error_def SubsystemParser_def parse_eof_def)
       (simp add: ueventd_sections SubsystemParser_EndSection_def upd_subsystem_def ImportParser_def ImportParser_EndFile_def
         ueventd_start_def new_configuration_def SubsystemParser_def)
  have "ReadFile (rc_files ?env) path = Inr (encode_lines ?lines)" "rc_allowed ?env path = (True, [])" "\<not> is_dir ?env path" for path
    by (simp_all add: sample_ueventd_files_def deny_all_env_def ReadFile_def S_IWGRP_def S_IWOTH_def rc_allowed_def innit_gate_def
        InnitPolicyIsActive_def)
  then show ?thesis using read [of "''/system/etc/ueventd.rc''"]
    by (auto simp: ueventd_ParseConfig_def parse_config_with_def ParseConfigFile_def log_rc_def)
qed

theorem ueventd_config_ok_witness:
  "\<exists>uc. ueventd_ParseConfig ref_libbase sample_ueventd_env sample_ueventd_files 1 [''/system/etc/ueventd.rc''] = Some uc \<and> config_ok uc"
  using ueventd_config_ok [OF sample_ueventd_parsed] sample_ueventd_parsed by blast

end
