(* ===== verification/Ueventd.thy ===== *)
theory Ueventd
  imports Ueventd_Parser "HOL-Library.Multiset"
begin

text \<open>
  The daemon itself (\<^verbatim>\<open>init/ueventd.cpp\<close>): the cold boot, in which forked processes share out the
  events of all devices that are there already, and the loop after it.
\<close>

section \<open>Handlers\<close>

text \<open>
  One process of ueventd: what it did to devices, the children it forked for firmware with what
  they do (\<open>None\<close>: such a child does not end), the aliases it loaded and the directories it
  labelled. A process ends early by an abort, or it never comes to an end.
\<close>

datatype UeventHandler = Devices_h DeviceHandler | Firmware_h FirmwareHandler | Modalias_h

record uevent_process =
  up_devices :: dev_trace
  up_firmware :: "(Uevent \<times> fw_call list option) list"
  up_modules :: "string list"
  up_restorecon :: "(string \<times> bool) list"

datatype early_end = Abort_end | Stuck

record ueventd_sys =
  us_fw :: firmware_env
  us_fuel :: nat
  us_opendir :: "string \<Rightarrow> (string \<times> bool option) list option"
  us_sysfs :: "string \<Rightarrow> sys_dir option"
  us_fork :: "nat \<Rightarrow> int"

definition HandleUevent :: "ueventd_sys \<Rightarrow> UeventHandler \<Rightarrow> Uevent \<Rightarrow> uevent_process \<Rightarrow> early_end + uevent_process" where
  "HandleUevent us h u p =
     (case h of
        Devices_h dh \<Rightarrow>
          (case DeviceHandler_HandleUevent (fw_dv (us_fw us)) dh (us_fuel us) u (up_devices p) of
             Finished t \<Rightarrow> Inr (p\<lparr>up_devices := t\<rparr>)
           | Aborted t \<Rightarrow> Inl Abort_end
           | OutOfFuel \<Rightarrow> Inl Stuck)
      | Firmware_h fh \<Rightarrow>
          Inr (if ue_subsystem u \<noteq> ''firmware'' \<or> ue_action u \<noteq> ''add'' then p
               else p\<lparr>up_firmware := up_firmware p @ [(u, FirmwareHandler_HandleUevent (us_fw us) fh (us_fuel us) u)]\<rparr>)
      | Modalias_h \<Rightarrow> Inr (p\<lparr>up_modules := up_modules p @ ModaliasHandler_HandleUevent u\<rparr>))"

definition ColdbootDone :: "UeventHandler \<Rightarrow> UeventHandler" where
  "ColdbootDone h = (case h of Devices_h dh \<Rightarrow> Devices_h (DeviceHandler_ColdbootDone dh) | _ \<Rightarrow> h)"

fun efold :: "('a \<Rightarrow> 's \<Rightarrow> 'e + 's) \<Rightarrow> 'a list \<Rightarrow> 's \<Rightarrow> 'e + 's" where
  "efold f [] s = Inr s"
| "efold f (x # xs) s = (case f x s of Inl e \<Rightarrow> Inl e | Inr s \<Rightarrow> efold f xs s)"

definition handle_by_all :: "ueventd_sys \<Rightarrow> UeventHandler list \<Rightarrow> Uevent \<Rightarrow> uevent_process \<Rightarrow> early_end + uevent_process" where
  "handle_by_all us hs u = efold (\<lambda>h. HandleUevent us h u) hs"

section \<open>Cold boot\<close>

text \<open>
  The loop of a subprocess: it starts at its own number and takes every \<open>procs\<close>-th element. The
  index is an \<^verbatim>\<open>unsigned int\<close>, which wraps around.
\<close>

fun stride_loop :: "('a \<Rightarrow> 's \<Rightarrow> early_end + 's) \<Rightarrow> 'a list \<Rightarrow> nat \<Rightarrow> nat \<Rightarrow> nat \<Rightarrow> 's \<Rightarrow> early_end + 's" where
  "stride_loop body queue procs 0 i s = Inl Stuck"
| "stride_loop body queue procs (Suc fuel) i s =
     (if i < length queue then
        (case body (queue ! i) s of
           Inl e \<Rightarrow> Inl e
         | Inr s \<Rightarrow> stride_loop body queue procs fuel ((i + procs) mod 2 ^ 32) s)
      else Inr s)"

record ColdBoot =
  cb_handlers :: "UeventHandler list"
  num_handler_subprocesses :: nat
  cb_parallel_restorecon :: bool
  uevent_queue :: "Uevent list"
  restorecon_queue :: "string list"

definition new_cold_boot :: "UeventHandler list \<Rightarrow> nat \<Rightarrow> bool \<Rightarrow> ColdBoot" where
  "new_cold_boot hs hardware_concurrency restorecon_on =
     \<lparr>cb_handlers = hs, num_handler_subprocesses = (if hardware_concurrency = 0 then 4 else hardware_concurrency),
      cb_parallel_restorecon = restorecon_on, uevent_queue = [], restorecon_queue = []\<rparr>"

definition UeventHandlerMain :: "ueventd_sys \<Rightarrow> ColdBoot \<Rightarrow> nat \<Rightarrow> nat \<Rightarrow> uevent_process \<Rightarrow> early_end + uevent_process" where
  "UeventHandlerMain us cb process_num procs =
     stride_loop (handle_by_all us (cb_handlers cb)) (uevent_queue cb) procs (Suc (length (uevent_queue cb))) process_num"

definition RestoreConHandler :: "ColdBoot \<Rightarrow> nat \<Rightarrow> nat \<Rightarrow> uevent_process \<Rightarrow> early_end + uevent_process" where
  "RestoreConHandler cb process_num procs =
     stride_loop (\<lambda>dir p. Inr (p\<lparr>up_restorecon := up_restorecon p @ [(dir, True)]\<rparr>)) (restorecon_queue cb) procs
       (Suc (length (restorecon_queue cb))) process_num"

text \<open>The entries of a directory with whether they are directories; \<open>None\<close> when \<^verbatim>\<open>fstatat\<close> fails.\<close>

definition GenerateRestoreCon :: "ueventd_sys \<Rightarrow> string \<Rightarrow> ColdBoot \<Rightarrow> ColdBoot" where
  "GenerateRestoreCon us directory cb =
     (case us_opendir us directory of
        None \<Rightarrow> cb
      | Some entries \<Rightarrow>
          cb\<lparr>restorecon_queue := restorecon_queue cb @
               filter (\<lambda>path. path \<noteq> ''/sys/devices'')
                 (map (\<lambda>e. directory @ ''/'' @ fst e)
                   (filter (\<lambda>e. fst e \<noteq> ''.'' \<and> fst e \<noteq> ''..'' \<and> snd e = Some True) entries))\<rparr>)"

definition ColdBoot_RegenerateUevents :: "ueventd_sys \<Rightarrow> ColdBoot \<Rightarrow> ColdBoot option" where
  "ColdBoot_RegenerateUevents us cb =
     RegenerateUevents (us_sysfs us) (\<lambda>u cb. (kContinue, cb\<lparr>uevent_queue := uevent_queue cb @ [u]\<rparr>)) cb"

text \<open>A forked process works on its own copy of everything.\<close>

definition subprocess :: "ueventd_sys \<Rightarrow> ColdBoot \<Rightarrow> uevent_process \<Rightarrow> nat \<Rightarrow> early_end + uevent_process" where
  "subprocess us cb p i =
     (case UeventHandlerMain us cb i (num_handler_subprocesses cb) p of
        Inl e \<Rightarrow> Inl e
      | Inr p \<Rightarrow> if cb_parallel_restorecon cb then RestoreConHandler cb i (num_handler_subprocesses cb) p else Inr p)"

type_synonym children = "(int \<times> (early_end + uevent_process)) list"

text \<open>\<open>None\<close> when a fork fails, which is fatal.\<close>

definition ForkSubProcesses :: "ueventd_sys \<Rightarrow> ColdBoot \<Rightarrow> uevent_process \<Rightarrow> children option" where
  "ForkSubProcesses us cb p =
     (let ids = [0..<num_handler_subprocesses cb]
      in if list_ex (\<lambda>i. us_fork us i < 0) ids then None else Some (map (\<lambda>i. (us_fork us i, subprocess us cb p i)) ids))"

text \<open>
  What \<^verbatim>\<open>waitpid\<close> brings: a failure, or a process that ended, by itself or killed from outside. A
  process that ended by itself returned from its work or aborted.
\<close>

datatype wait_turn = WaitFailed | Reaped (reaped_pid: int) (killed_by: "int option")

definition exit_status :: "children \<Rightarrow> int \<Rightarrow> int option \<Rightarrow> wait_status option" where
  "exit_status cs pid killed =
     (case killed of
        Some signal \<Rightarrow> Some (Signaled signal)
      | None \<Rightarrow>
          (case map_of cs pid of
             Some (Inr _) \<Rightarrow> Some (Exited 0)
           | Some (Inl Abort_end) \<Rightarrow> Some (Signaled 6)
           | _ \<Rightarrow> None))"

datatype wait_end = AllDone | Fatal_end | StillWaiting

fun WaitForSubProcesses :: "children \<Rightarrow> int set \<Rightarrow> wait_turn list \<Rightarrow> wait_end" where
  "WaitForSubProcesses cs pids [] = (if pids = {} then AllDone else StillWaiting)"
| "WaitForSubProcesses cs pids (w # ws) =
     (if pids = {} then AllDone
      else (case w of
              WaitFailed \<Rightarrow> WaitForSubProcesses cs pids ws
            | Reaped pid killed \<Rightarrow>
                if pid \<notin> pids then WaitForSubProcesses cs pids ws
                else (case exit_status cs pid killed of
                        Some (Exited status) \<Rightarrow> if status = 0 then WaitForSubProcesses cs (pids - {pid}) ws else Fatal_end
                      | Some (Signaled _) \<Rightarrow> Fatal_end
                      | _ \<Rightarrow> WaitForSubProcesses cs pids ws)))"

text \<open>The outcome of the cold boot: with \<open>Booted\<close> the property has been set.\<close>

datatype cold_outcome = Booted uevent_process children | Fatal_boot | Waiting_boot

definition restorecon :: "string \<Rightarrow> bool \<Rightarrow> uevent_process \<Rightarrow> uevent_process" where
  "restorecon dir recurse p = p\<lparr>up_restorecon := up_restorecon p @ [(dir, recurse)]\<rparr>"

definition prepare_restorecon :: "ueventd_sys \<Rightarrow> ColdBoot \<Rightarrow> uevent_process \<Rightarrow> ColdBoot \<times> uevent_process" where
  "prepare_restorecon us cb p =
     (if cb_parallel_restorecon cb
      then (GenerateRestoreCon us ''/sys/devices'' (GenerateRestoreCon us ''/sys'' cb),
            restorecon ''/sys/devices'' False (restorecon ''/sys'' False p))
      else (cb, p))"

definition Run :: "ueventd_sys \<Rightarrow> wait_turn list \<Rightarrow> ColdBoot \<Rightarrow> uevent_process \<Rightarrow> cold_outcome option" where
  "Run us ws cb p =
     (case ColdBoot_RegenerateUevents us cb of
        None \<Rightarrow> None
      | Some cb \<Rightarrow>
          (case prepare_restorecon us cb p of (cb, p) \<Rightarrow>
             (case ForkSubProcesses us cb p of
                None \<Rightarrow> Some Fatal_boot
              | Some cs \<Rightarrow>
                  (let p = (if cb_parallel_restorecon cb then p else restorecon ''/sys'' True p)
                   in Some (case WaitForSubProcesses cs (fst ` set cs) ws of
                              AllDone \<Rightarrow> Booted p cs
                            | Fatal_end \<Rightarrow> Fatal_boot
                            | StillWaiting \<Rightarrow> Waiting_boot)))))"

section \<open>The daemon\<close>

definition GetConfiguration ::
  "libbase \<Rightarrow> ueventd_env \<Rightarrow> rc_env \<Rightarrow> nat \<Rightarrow> int \<Rightarrow> string \<Rightarrow> UeventdConfiguration option" where
  "GetConfiguration lb ud env fuel first_api_level hardware =
     (if first_api_level \<le> 31
      then ueventd_ParseConfig lb ud env fuel
             [''/system/etc/ueventd.rc'', ''/vendor/ueventd.rc'', ''/odm/ueventd.rc'', ''/ueventd.'' @ hardware @ ''.rc'']
      else ueventd_ParseConfig lb ud env fuel [''/system/etc/ueventd.rc''])"

definition ueventd_handlers :: "UeventdConfiguration \<Rightarrow> string list \<Rightarrow> UeventHandler list" where
  "ueventd_handlers uc boot_devs =
     [Devices_h (new_device_handler (uc_dev_permissions uc) (uc_sysfs_permissions uc) (uc_subsystems uc) boot_devs True),
      Firmware_h \<lparr>firmware_directories = uc_firmware_directories uc,
                  external_firmware_handlers = uc_external_firmware_handlers uc\<rparr>] @
     (if enable_modalias_handling uc then [Modalias_h] else [])"

text \<open>
  The whole daemon up to a moment of its loop, which never ends: \<open>Running\<close> with what it did so
  far. A handler that aborts in the loop ends the daemon.
\<close>

datatype daemon = Running "early_end + uevent_process" | ColdBootFailed | ColdBooting

definition poll_callback :: "ueventd_sys \<Rightarrow> UeventHandler list \<Rightarrow> Uevent \<Rightarrow> early_end + uevent_process \<Rightarrow> ListenerAction \<times> (early_end + uevent_process)" where
  "poll_callback us hs u r = (case r of Inl e \<Rightarrow> (kStop, Inl e) | Inr p \<Rightarrow> (case handle_by_all us hs u p of Inl e \<Rightarrow> (kStop, Inl e) | Inr p \<Rightarrow> (kContinue, Inr p)))"

definition ueventd_main ::
  "ueventd_sys \<Rightarrow> UeventdConfiguration \<Rightarrow> string list \<Rightarrow> nat \<Rightarrow> bool \<Rightarrow> wait_turn list \<Rightarrow> poll_turn list \<Rightarrow> uevent_process \<Rightarrow> daemon option" where
  "ueventd_main us uc boot_devs hardware_concurrency cold_boot_done ws ts p =
     (let hs = ueventd_handlers uc boot_devs
      in case (if cold_boot_done then Some (Booted p [])
               else Run us ws (new_cold_boot hs hardware_concurrency (enable_parallel_restorecon uc)) p) of
           None \<Rightarrow> None
         | Some Fatal_boot \<Rightarrow> Some ColdBootFailed
         | Some Waiting_boot \<Rightarrow> Some ColdBooting
         | Some (Booted p cs) \<Rightarrow> map_option Running (Poll (poll_callback us (map ColdbootDone hs)) ts (Inr p)))"

section \<open>Sharing out\<close>

text \<open>What a subprocess gets of a queue: the elements whose position has its number as remainder.\<close>

definition share :: "nat \<Rightarrow> nat \<Rightarrow> 'a list \<Rightarrow> 'a list" where
  "share procs i queue = map ((!) queue) (filter (\<lambda>j. j mod procs = i) [0..<length queue])"

definition share_from :: "nat \<Rightarrow> nat \<Rightarrow> 'a list \<Rightarrow> 'a list" where
  "share_from procs i queue = map ((!) queue) (filter (\<lambda>j. j mod procs = i mod procs) [i..<length queue])"

lemma share_from_end: "length queue \<le> i \<Longrightarrow> share_from procs i queue = []"
  by (simp add: share_from_def)

lemma mod_gap: "0 < (procs::nat) \<Longrightarrow> i < j \<Longrightarrow> j < i + procs \<Longrightarrow> j mod procs \<noteq> i mod procs"
  using mod_eq_dvd_iff_nat [of i j procs] by (auto dest: dvd_imp_le)

lemma share_from_step:
  assumes "0 < procs" "i < length queue"
  shows "share_from procs i queue = queue ! i # share_from procs (i + procs) queue"
proof -
  define m where "m = min (i + procs) (length queue)"
  have "[i..<length queue] = i # [Suc i..<m] @ [m..<length queue]"
    using assms upt_add_eq_append [of "Suc i" m "length queue - m"] by (simp add: m_def upt_conv_Cons)
  moreover have "filter (\<lambda>j. j mod procs = i mod procs) [Suc i..<m] = []"
    using mod_gap [OF assms(1)] by (auto simp: filter_empty_conv m_def)
  moreover have "[m..<length queue] = [i + procs..<length queue]" by (simp add: m_def min_def)
  ultimately show ?thesis by (simp add: share_from_def)
qed

lemma share_from_start: "i < procs \<Longrightarrow> share_from procs i queue = share procs i queue"
proof -
  assume i: "i < procs"
  have "filter (\<lambda>j. j mod procs = i) [0..<length queue] = filter (\<lambda>j. j mod procs = i) [i..<length queue]"
  proof (cases "i \<le> length queue")
    case True
    then have "[0..<length queue] = [0..<i] @ [i..<length queue]" by (metis le0 upt_add_eq_append le_add_diff_inverse)
    moreover have "filter (\<lambda>j. j mod procs = i) [0..<i] = []" using i by (auto simp: filter_empty_conv)
    ultimately show ?thesis by simp
  next
    case False
    then show ?thesis using i by (auto simp: filter_empty_conv)
  qed
  then show ?thesis using i by (simp add: share_from_def share_def)
qed

lemma stride_loop_share:
  assumes "0 < procs" "length queue + procs \<le> 2 ^ 32"
  shows "length queue - i < fuel \<Longrightarrow> stride_loop body queue procs fuel i s = efold body (share_from procs i queue) s"
proof (induction fuel arbitrary: i s)
  case (Suc fuel)
  show ?case
  proof (cases "i < length queue")
    case True
    have "(i + procs) mod 2 ^ 32 = i + procs" using True assms(2) by simp
    moreover have "length queue - (i + procs) < fuel" using True assms(1) Suc.prems by simp
    ultimately show ?thesis using Suc.IH True assms(1) by (simp add: share_from_step split: sum.split)
  qed (simp add: share_from_end)
qed simp

corollary full_stride:
  assumes "0 < procs" "length queue + procs \<le> 2 ^ 32"
  shows "stride_loop body queue procs (Suc (length queue)) i s = efold body (share_from procs i queue) s"
  by (rule stride_loop_share [OF assms]) (simp add: less_Suc_eq_le)

lemma classes_partition:
  "list_all (\<lambda>j. f j < n) xs \<Longrightarrow> (\<Sum>i\<leftarrow>[0..<n]. mset (filter (\<lambda>j. f j = i) xs)) = mset xs"
proof (induction xs)
  case (Cons x xs)
  have "mset (filter (\<lambda>j. f j = i) (x # xs)) = mset (filter (\<lambda>j. f j = i) xs) + (if f x = i then {#x#} else {#})" for i
    by simp
  then have "(\<Sum>i\<leftarrow>[0..<n]. mset (filter (\<lambda>j. f j = i) (x # xs))) =
      (\<Sum>i\<leftarrow>[0..<n]. mset (filter (\<lambda>j. f j = i) xs)) + (\<Sum>i = 0..<n. if f x = i then {#x#} else {#})"
    by (simp only: interv_sum_list_conv_sum_set_nat sum.distrib set_upt)
  then show ?case using Cons by (simp add: sum.delta)
qed (simp add: interv_sum_list_conv_sum_set_nat)

lemma shares_partition:
  assumes "0 < procs"
  shows "mset (concat (map (\<lambda>i. share procs i queue) [0..<procs])) = mset queue"
proof -
  have "mset (concat (map (\<lambda>i. filter (\<lambda>j. j mod procs = i) xs) [0..<procs])) = mset xs" for xs
    using classes_partition [of "\<lambda>j. j mod procs" procs xs] assms by (simp add: mset_concat comp_def list_all_iff)
  then have "mset (map ((!) queue) (concat (map (\<lambda>i. filter (\<lambda>j. j mod procs = i) [0..<length queue]) [0..<procs]))) =
      mset (map ((!) queue) [0..<length queue])" by (simp only: mset_map)
  then show ?thesis by (simp add: map_concat share_def comp_def map_nth)
qed

section \<open>What the cold boot leaves\<close>

lemma collected_events: "fold (\<lambda>u cb. cb\<lparr>uevent_queue := uevent_queue cb @ [u]\<rparr>) us cb = cb\<lparr>uevent_queue := uevent_queue cb @ us\<rparr>"
  by (induction us arbitrary: cb) simp_all

lemma regenerated:
  "us_sysfs us ''/sys/devices'' = Some d \<Longrightarrow>
   ColdBoot_RegenerateUevents us cb = Some (cb\<lparr>uevent_queue := uevent_queue cb @ tree_events d\<rparr>)"
  by (simp add: ColdBoot_RegenerateUevents_def RegenerateUevents_def kRegenerationPaths_def RegenerateUeventsForPath_def collected_events
      regenerate_tree(1) [where f = "\<lambda>u cb. cb\<lparr>uevent_queue := uevent_queue cb @ [u]\<rparr>", OF refl])

lemma waited_for_all: "WaitForSubProcesses cs pids ws = AllDone \<Longrightarrow> pid \<in> pids \<Longrightarrow> \<exists>q. map_of cs pid = Some (Inr q)"
proof (induction ws arbitrary: pids)
  case (Cons w ws)
  have "pids \<noteq> {}" using Cons.prems(2) by auto
  then show ?case
  proof (cases w)
    case WaitFailed
    then show ?thesis using Cons \<open>pids \<noteq> {}\<close> by simp
  next
    case (Reaped reaped killed)
    then show ?thesis using Cons \<open>pids \<noteq> {}\<close>
      by (cases "pid = reaped") (auto simp: exit_status_def [of cs] split: if_splits option.splits sum.splits wait_status.splits early_end.splits)
  qed
qed (simp split: if_splits)

lemma restorecon_only: "RestoreConHandler cb i procs p = Inr r \<Longrightarrow> \<exists>ds. r = p\<lparr>up_restorecon := ds\<rparr>"
proof -
  have "stride_loop (\<lambda>dir p. Inr (p\<lparr>up_restorecon := up_restorecon p @ [(dir, True)]\<rparr>)) queue procs fuel i p = Inr r \<Longrightarrow>
      \<exists>ds. r = p\<lparr>up_restorecon := ds\<rparr>" for queue fuel
  proof (induction fuel arbitrary: i p)
    case (Suc fuel)
    then show ?case by (cases "i < length queue") (fastforce intro: exI [of _ "up_restorecon p"])+
  qed simp
  then show "RestoreConHandler cb i procs p = Inr r \<Longrightarrow> \<exists>ds. r = p\<lparr>up_restorecon := ds\<rparr>" by (simp add: RestoreConHandler_def del: stride_loop.simps)
qed

lemma subprocess_shares:
  assumes "subprocess us cb p i = Inr r" "i < num_handler_subprocesses cb"
    and "length (uevent_queue cb) + num_handler_subprocesses cb \<le> 2 ^ 32"
  shows "\<exists>q ds. efold (handle_by_all us (cb_handlers cb)) (share (num_handler_subprocesses cb) i (uevent_queue cb)) p = Inr q \<and>
    r = q\<lparr>up_restorecon := ds\<rparr>"
proof -
  let ?n = "num_handler_subprocesses cb" and ?run = "efold (handle_by_all us (cb_handlers cb))"
  have "UeventHandlerMain us cb i ?n p = ?run (share ?n i (uevent_queue cb)) p"
    using assms(2,3) by (simp add: UeventHandlerMain_def full_stride share_from_start del: stride_loop.simps)
  then obtain q where "?run (share ?n i (uevent_queue cb)) p = Inr q"
      "(if cb_parallel_restorecon cb then RestoreConHandler cb i ?n q else Inr q) = Inr r"
    using assms(1) by (auto simp: subprocess_def split: sum.splits)
  then show ?thesis using restorecon_only by (cases "cb_parallel_restorecon cb") (force intro: exI [of _ "up_restorecon r"])+
qed

lemma prepared:
  assumes "prepare_restorecon us cb p = (cb', p')"
  shows "uevent_queue cb' = uevent_queue cb \<and> cb_handlers cb' = cb_handlers cb \<and>
    num_handler_subprocesses cb' = num_handler_subprocesses cb \<and> (\<exists>ds. p' = p\<lparr>up_restorecon := ds\<rparr>)"
  using assms by (auto simp: restorecon_def intro: exI [of _ "up_restorecon p"] simp: prepare_restorecon_def GenerateRestoreCon_def split: if_splits option.splits)


subsection \<open>Witness\<close>

definition sample_sysfs :: sys_dir where
  "sample_sysfs = SysDir None [(''usb1'', Some (SysDir (Some [Some ''MODALIAS=a'', None]) [])), (''usb2'', Some (SysDir (Some [Some ''MODALIAS=b'', None]) []))]"

definition sample_ueventd :: ueventd_sys where
  "sample_ueventd =
     \<lparr>us_fw = sample_firmware, us_fuel = 2, us_opendir = (\<lambda>_. None), us_sysfs = (\<lambda>_. Some sample_sysfs), us_fork = (\<lambda>i. 100 + int i)\<rparr>"

lemma sample_coldboot:
  "\<exists>p' cs. Run sample_ueventd [WaitFailed, Reaped 101 None, Reaped 7 (Some 9), Reaped 100 None] (new_cold_boot [Modalias_h] 2 False)
     \<lparr>up_devices = [], up_firmware = [], up_modules = [], up_restorecon = []\<rparr> = Some (Booted p' cs)"
proof -
  let ?cb = "(new_cold_boot [Modalias_h] 2 False)\<lparr>uevent_queue := tree_events sample_sysfs\<rparr>"
    and ?p = "\<lparr>up_devices = [], up_firmware = [], up_modules = [], up_restorecon = []\<rparr>"
  have r: "ColdBoot_RegenerateUevents sample_ueventd (new_cold_boot [Modalias_h] 2 False) = Some ?cb"
    using regenerated [of sample_ueventd sample_sysfs] by (simp add: sample_ueventd_def new_cold_boot_def)
  have ends: "\<exists>q. stride_loop (handle_by_all sample_ueventd [Modalias_h]) (tree_events sample_sysfs) 2 (Suc (length (tree_events sample_sysfs))) i ?p = Inr q"
    if "length (tree_events sample_sysfs) \<le> 2" for i
  proof -
    have "\<exists>q. efold (handle_by_all sample_ueventd [Modalias_h]) us p = Inr q" for us p
      by (induction us arbitrary: p) (simp_all add: handle_by_all_def HandleUevent_def)
    then show ?thesis using that
      by (simp add: full_stride del: stride_loop.simps)
  qed
  have "length (tree_events sample_sysfs) \<le> 2" by (simp add: sample_sysfs_def)
  then have s: "\<exists>q. subprocess sample_ueventd ?cb ?p i = Inr q" for i
    using ends by (simp add: subprocess_def UeventHandlerMain_def new_cold_boot_def split: sum.split del: stride_loop.simps) (metis sum.inject(2) Inl_Inr_False)
  obtain q0 q1 where q: "subprocess sample_ueventd ?cb ?p 0 = Inr q0" "subprocess sample_ueventd ?cb ?p (Suc 0) = Inr q1" using s by meson
  have "ForkSubProcesses sample_ueventd ?cb ?p = Some [(100, Inr q0), (101, Inr q1)]"
    using q by (simp add: ForkSubProcesses_def new_cold_boot_def sample_ueventd_def numeral_2_eq_2 upt_rec)
  then show ?thesis using r
    by (simp add: Run_def prepare_restorecon_def Let_def exit_status_def) (auto simp: new_cold_boot_def)
qed


end
