(* ===== verification/Block_Devices.thy ===== *)
theory Block_Devices
  imports Devices
begin

text \<open>
  Device nodes before ueventd runs (\<^verbatim>\<open>init/block_dev_initializer.cpp\<close>): the events of the devices
  that are wanted are provoked, or waited for, and handled by a handler without rules.
\<close>

section \<open>Callbacks that keep a property\<close>

text \<open>
  \<open>Q\<close> holds as long as the callback wants more events, \<open>P\<close> holds at the end. Listening with the
  callback always ends, as the messages do.
\<close>

locale uevent_callback =
  fixes callback :: "Uevent \<Rightarrow> 's \<Rightarrow> ListenerAction \<times> 's" and Q P :: "'s \<Rightarrow> bool"
  assumes callback_keeps: "callback u s = (a, s') \<Longrightarrow> Q s \<Longrightarrow> (a = kContinue \<longrightarrow> Q s') \<and> P s'"
    and waiting: "Q s \<Longrightarrow> P s"
begin

definition leaves :: "'s \<Rightarrow> (ListenerAction \<times> 's) option \<Rightarrow> bool" where
  "leaves s r = (\<exists>a s'. r = Some (a, s') \<and> (Q s \<longrightarrow> (a = kContinue \<longrightarrow> Q s') \<and> P s'))"

lemma leaves_id: "leaves s (Some (kContinue, s))"
  using waiting by (simp add: leaves_def)

lemma leaves_then:
  assumes "leaves s m" "\<And>s. leaves s (k s)"
  shows "leaves s (case m of None \<Rightarrow> None | Some (kStop, s) \<Rightarrow> Some (kStop, s) | Some (kContinue, s) \<Rightarrow> k s)"
proof -
  obtain a s' where m: "m = Some (a, s')" "Q s \<longrightarrow> (a = kContinue \<longrightarrow> Q s') \<and> P s'" using assms(1) by (auto simp: leaves_def)
  then show ?thesis using assms(2) [of s'] by (cases a) (auto simp: leaves_def)
qed

lemma drain_leaves: "leaves s (drain callback received s)"
proof (induction received arbitrary: s)
  case (Cons r received)
  obtain result u where r: "ReadUevent r = Some (result, u)" using ReadUevent_total by blast
  have "leaves s (Some (callback u s))" using callback_keeps [of u s] by (cases "callback u s") (auto simp: leaves_def)
  from leaves_then [OF this Cons.IH] show ?case
    using Cons.IH [of s] leaves_id [of s] r by (cases result) (auto split: prod.splits ListenerAction.splits)
qed (simp add: leaves_id)

lemma regenerate_leaves: "leaves s (RegenerateUeventsForDir callback d s)" "leaves s (regenerate_entries callback es s)"
proof (induction d and es arbitrary: s and s rule: tree_events_entry_events.induct)
  case (1 poke entries)
  have "leaves s (case poke of None \<Rightarrow> Some (kContinue, s) | Some received \<Rightarrow> drain callback received s)"
    by (simp add: leaves_id drain_leaves split: option.split)
  from leaves_then [OF this "1.IH"] show ?case by simp
next
  case (3 name d es)
  show ?case
  proof (cases "d = None \<or> prefix ''.'' name")
    case True
    then show ?thesis using "3.IH"(2) [of s] by (cases d) auto
  next
    case False
    then obtain dir where d: "d = Some dir" "\<not> prefix ''.'' name" by auto
    from leaves_then [OF "3.IH"(1) [OF d] "3.IH"(2)] show ?thesis using d by simp
  qed
qed (simp add: leaves_id)

lemma path_leaves: "leaves s (RegenerateUeventsForPath opendir callback path s)"
  using regenerate_leaves(1) leaves_id by (auto simp: RegenerateUeventsForPath_def split: option.split)

lemma all_paths: "Q s \<Longrightarrow> \<exists>s'. RegenerateUevents opendir callback s = Some s' \<and> P s'"
  using path_leaves [of s opendir "''/sys/devices''"]
  by (auto simp: RegenerateUevents_def kRegenerationPaths_def leaves_def split: ListenerAction.split)

lemma polled: "Q s \<Longrightarrow> \<exists>s'. Poll callback ts s = Some s' \<and> P s'"
proof (induction ts arbitrary: s)
  case (Cons turn ts)
  show ?case
  proof (cases turn)
    case (Input received)
    obtain a s' where "drain callback received s = Some (a, s')" "a = kContinue \<longrightarrow> Q s'" "P s'"
      using drain_leaves [of s received] Cons.prems by (auto simp: leaves_def)
    then show ?thesis using Input Cons.IH [of s'] by (cases a) auto
  qed (use Cons waiting in auto)
qed (simp add: waiting)

end

section \<open>Waiting for devices\<close>

text \<open>
  The kernel's answers as functions of the calls made so far: what is found below a path of
  \<^verbatim>\<open>/sys\<close>, and what polling brings until its ten seconds are over.
\<close>

record block_dev =
  bd_env :: device_env
  bd_handler :: DeviceHandler
  bd_fuel :: nat
  bd_sysfs :: "nat \<Rightarrow> string \<Rightarrow> sys_dir option"
  bd_poll :: "nat \<Rightarrow> poll_turn list"

definition block_dev_handler :: "string list \<Rightarrow> DeviceHandler" where
  "block_dev_handler boot_devs = new_device_handler [] [] [] boot_devs False"

definition handle_alive :: "block_dev \<Rightarrow> Uevent \<Rightarrow> dev_outcome \<Rightarrow> dev_outcome" where
  "handle_alive be u r =
     (case r of Finished t \<Rightarrow> DeviceHandler_HandleUevent (bd_env be) (bd_handler be) (bd_fuel be) u t | _ \<Rightarrow> r)"

definition found_callback :: "block_dev \<Rightarrow> (Uevent \<Rightarrow> bool) \<Rightarrow> Uevent \<Rightarrow> bool \<times> dev_outcome \<Rightarrow> ListenerAction \<times> (bool \<times> dev_outcome)" where
  "found_callback be wanted u s = (if wanted u then (kStop, (True, handle_alive be u (snd s))) else (kContinue, s))"

definition wait_for_event :: "block_dev \<Rightarrow> string \<Rightarrow> (Uevent \<Rightarrow> bool) \<Rightarrow> dev_trace \<Rightarrow> (bool \<times> dev_outcome) option" where
  "wait_for_event be path wanted t =
     (case RegenerateUeventsForPath (bd_sysfs be (length t)) (found_callback be wanted) path (False, Finished t) of
        None \<Rightarrow> None
      | Some (_, found, r) \<Rightarrow>
          if found then Some (True, r) else Poll (found_callback be wanted) (bd_poll be (length t)) (False, r))"

definition InitMiscDevice :: "block_dev \<Rightarrow> string \<Rightarrow> dev_trace \<Rightarrow> (bool \<times> dev_outcome) option" where
  "InitMiscDevice be name t =
     (let dm_path = ''/devices/virtual/misc/'' @ name in wait_for_event be (''/sys'' @ dm_path) (\<lambda>u. ue_path u = dm_path) t)"

definition InitDeviceMapper :: "block_dev \<Rightarrow> dev_trace \<Rightarrow> (bool \<times> dev_outcome) option" where
  "InitDeviceMapper be t = InitMiscDevice be ''device-mapper'' t"

definition InitDmUser :: "block_dev \<Rightarrow> string \<Rightarrow> dev_trace \<Rightarrow> (bool \<times> dev_outcome) option" where
  "InitDmUser be name t = InitMiscDevice be (''dm-user!'' @ name) t"

definition InitDmDevice :: "block_dev \<Rightarrow> string \<Rightarrow> dev_trace \<Rightarrow> (bool \<times> dev_outcome) option" where
  "InitDmDevice be device t =
     (let device_name = dv_Basename (bd_env be) device
      in wait_for_event be (''/sys/block/'' @ device_name) (\<lambda>u. ue_device_name u = device_name) t)"

definition event_block_name :: "Uevent \<Rightarrow> string option" where
  "event_block_name u =
     (if ue_partition_name u \<noteq> [] then Some (ue_partition_name u)
      else map_option (\<lambda>base_idx. drop (base_idx + 1) (ue_path u)) (rfind CHR ''/'' (ue_path u)))"

definition HandleBlockUevent :: "block_dev \<Rightarrow> Uevent \<Rightarrow> string set \<times> dev_outcome \<Rightarrow> ListenerAction \<times> (string set \<times> dev_outcome)" where
  "HandleBlockUevent be u s =
     (case s of (devices, r) \<Rightarrow>
        if ue_subsystem u \<noteq> ''block'' then (kContinue, s)
        else (case event_block_name u of
                None \<Rightarrow> (kContinue, s)
              | Some name \<Rightarrow>
                  if name \<notin> devices then (kContinue, s)
                  else (let devices = devices - {name}
                        in (if devices = {} then kStop else kContinue, (devices, handle_alive be u r)))))"

definition BlockDev_InitDevices :: "block_dev \<Rightarrow> string set \<Rightarrow> dev_trace \<Rightarrow> (bool \<times> dev_outcome) option" where
  "BlockDev_InitDevices be devices t =
     (case RegenerateUevents (bd_sysfs be (length t)) (HandleBlockUevent be) (devices, Finished t) of
        None \<Rightarrow> None
      | Some (devices, r) \<Rightarrow>
          if devices = {} then Some (True, r)
          else map_option (\<lambda>s. (fst s = {}, snd s)) (Poll (HandleBlockUevent be) (bd_poll be (length t)) (devices, r)))"

section \<open>Properties\<close>

definition found_one :: "block_dev \<Rightarrow> (Uevent \<Rightarrow> bool) \<Rightarrow> dev_outcome \<Rightarrow> bool \<times> dev_outcome \<Rightarrow> bool" where
  "found_one be wanted begin_with s =
     (if fst s then \<exists>u. wanted u \<and> snd s = handle_alive be u begin_with else snd s = begin_with)"

interpretation wanted_event: uevent_callback "found_callback be wanted" "(=) (False, begin_with)" "found_one be wanted begin_with"
  for be wanted begin_with
  by unfold_locales (auto simp: found_callback_def found_one_def split: if_splits)

text \<open>What a wait for one device leaves: the event of the device has been handled, or nothing has been done.\<close>

lemma one_device: "\<exists>s. wait_for_event be path wanted t = Some s \<and> found_one be wanted (Finished t) s"
proof -
  let ?s = "(False, Finished t)" and ?cb = "found_callback be wanted"
  obtain a s where g: "RegenerateUeventsForPath (bd_sysfs be (length t)) ?cb path ?s = Some (a, s)" "found_one be wanted (Finished t) s"
    using wanted_event.path_leaves [where be = be and wanted = wanted and begin_with = "Finished t" and s = ?s
        and opendir = "bd_sysfs be (length t)" and path = path]
    by (auto simp: wanted_event.leaves_def)
  show ?thesis
  proof (cases "fst s")
    case True
    then have "wait_for_event be path wanted t = Some s" using g(1) by (cases s) (simp add: wait_for_event_def)
    then show ?thesis using g(2) by blast
  next
    case False
    then have "s = ?s" using g(2) by (cases s) (simp add: found_one_def)
    then show ?thesis using g(1) wanted_event.polled [where begin_with = "Finished t" and s = ?s] by (simp add: wait_for_event_def)
  qed
qed

definition found_so_far :: "block_dev \<Rightarrow> string set \<Rightarrow> dev_outcome \<Rightarrow> Uevent list \<Rightarrow> string set \<times> dev_outcome \<Rightarrow> bool" where
  "found_so_far be devices begin_with us s =
     (snd s = fold (handle_alive be) us begin_with \<and> list_all (\<lambda>u. ue_subsystem u = ''block'') us \<and> distinct (map event_block_name us) \<and>
      set (map event_block_name us) = Some ` (devices - fst s) \<and> fst s \<subseteq> devices)"

interpretation block_events: uevent_callback "HandleBlockUevent be" "\<lambda>s. \<exists>us. found_so_far be devices begin_with us s"
    "\<lambda>s. \<exists>us. found_so_far be devices begin_with us s" for be devices begin_with
proof unfold_locales
  fix u s a s'
  assume c: "HandleBlockUevent be u s = (a, s')" and "\<exists>us. found_so_far be devices begin_with us s"
  then obtain us where us: "found_so_far be devices begin_with us s" by blast
  have "\<exists>us. found_so_far be devices begin_with us s'"
  proof (cases "s' = s")
    case True
    then show ?thesis using us by blast
  next
    case False
    then obtain name where "event_block_name u = Some name" "name \<in> fst s" "ue_subsystem u = ''block''"
        "s' = (fst s - {name}, handle_alive be u (snd s))"
      using c by (auto simp: HandleBlockUevent_def Let_def split: prod.splits if_splits option.splits)
    then have "found_so_far be devices begin_with (us @ [u]) s'" using us by (auto simp: found_so_far_def)
    then show ?thesis by blast
  qed
  then show "(a = kContinue \<longrightarrow> (\<exists>us. found_so_far be devices begin_with us s')) \<and> (\<exists>us. found_so_far be devices begin_with us s')" by simp
qed

text \<open>
  The search for the block devices that the boot needs ends; it handles at most one event for
  each name that was asked for and no other event, and it reports success exactly when every
  name has had its event.
\<close>

theorem block_devices_once:
  "\<exists>found r us. BlockDev_InitDevices be devices t = Some (found, r) \<and> r = fold (handle_alive be) us (Finished t) \<and>
     list_all (\<lambda>u. ue_subsystem u = ''block'') us \<and> distinct (map event_block_name us) \<and>
     set (map event_block_name us) \<subseteq> Some ` devices \<and> (found \<longleftrightarrow> set (map event_block_name us) = Some ` devices)"
proof -
  let ?P = "\<lambda>s. \<exists>us. found_so_far be devices (Finished t) us s"
  have "?P (devices, Finished t)" by (auto simp: found_so_far_def intro: exI [of _ "[]"])
  then obtain s where s: "RegenerateUevents (bd_sysfs be (length t)) (HandleBlockUevent be) (devices, Finished t) = Some s" "?P s"
    using block_events.all_paths by blast
  then obtain s' where s': "Poll (HandleBlockUevent be) (bd_poll be (length t)) s = Some s'" "?P s'"
    using block_events.polled by blast
  define e where "e = (if fst s = {} then s else s')"
  have "BlockDev_InitDevices be devices t = Some (fst e = {}, snd e)"
    using s(1) s'(1) by (cases s) (simp add: BlockDev_InitDevices_def e_def)
  moreover obtain us where "found_so_far be devices (Finished t) us e" using s(2) s'(2) unfolding e_def by (cases "fst s = {}") auto
  ultimately show ?thesis by (intro exI [of _ "fst e = {}"] exI [of _ "snd e"] exI [of _ us]) (auto simp: found_so_far_def inj_image_eq_iff)
qed

end
