(* ===== verification/Early_Boot.thy ===== *)
theory Early_Boot
  imports Block_Devices
begin

text \<open>
  What the first stage and the set-up of SELinux share: the process before the second stage, with
  its environment and the calls it makes, and the parts both use: \<^verbatim>\<open>init/switch_root.cpp\<close> and
  \<^verbatim>\<open>init/snapuserd_transition.cpp\<close>.
\<close>

section \<open>State\<close>

text \<open>An entry of the file system table, as far as init looks at it.\<close>

record FstabEntry =
  fe_blk_device :: string
  fe_mount_point :: string
  fe_fs_type :: string
  fe_vbmeta_partition :: string
  fe_avb_keys :: string
  fe_avb :: bool
  fe_verify :: bool
  fe_verify_at_boot :: bool
  fe_logical :: bool
  fe_first_stage_mount :: bool
  fe_no_fail :: bool
  fe_formattable :: bool

datatype AvbHashtreeResult = HT_Success | HT_Fail | HT_Disabled
datatype AvbHandleStatus = AH_Uninitialized | AH_Success | AH_HashtreeDisabled | AH_VerificationDisabled | AH_VerificationError
datatype verity_result = VERITY_SKIPPED | VERITY_DISABLED | VERITY_FAIL | VERITY_SUCCESS

text \<open>
  The calls; a hash tree or a verity device that is set up and a handle that is opened are
  recorded with their result. \<open>FatalError\<close> ends the process (and reboots the device).
\<close>

datatype early_call =
  FatalError string
| MountOne FstabEntry
| MountOverlay string
| MountOverlays
| HashtreeSetUp string bool AvbHashtreeResult string
| VeritySetUp string verity_result string
| OpenedAvb AvbHandleStatus
| MountAt string string string nat string
| RemountAs string nat
| UnshareMounts
| SwitchNamespace int
| MoveMount string string
| BindMount string string
| MakeDirectory string
| MakeNode string nat nat nat
| ChangeMode string nat
| ChangeDirectory string
| ChangeRoot
| UnlinkAt string bool
| CopyFile string string
| RemoveTree string
| CopyTree string string
| WriteTo string string
| ClearEnv
| PutEnv string string
| DropEnv string
| SetGroups
| CreateSocket string string
| ForkExec "string list"
| ForkConsole "string list list"
| SetLabel int string
| RelabelAt string bool
| LockPages nat
| UnlockAllPages
| KillProcess int
| DetachDaemon "string list"
| OpenDescriptor string
| CloseDescriptor int
| UnlinkFile string
| CreateTemporary string
| SetEnforce bool
| LoadPolicy string
| LoadModules string string
| ExecInit "string list"

record early_state =
  es_trace :: "(early_call \<times> bool) list"
  es_environ :: "string \<Rightarrow> string option"
  es_devices :: dev_trace

text \<open>
  What the system and the libraries answer; calls and looks at files by the number of calls that
  were made before.
\<close>

record snapshot_manager =
  sm_needed :: bool
  sm_created :: bool
  sm_need_snapshots :: bool
  sm_snapuserd_required :: bool
  sm_requests :: "string list"
  sm_partitions_ok :: bool
  sm_detach :: "string list \<Rightarrow> string list option"
  sm_socket :: string
  sm_connects :: bool

record early_env =
  eb_lb :: libbase
  eb_block :: block_dev
  eb_sys :: "nat \<Rightarrow> early_call \<Rightarrow> bool"
  eb_pid :: "nat \<Rightarrow> int"
  eb_access :: "nat \<Rightarrow> string \<Rightarrow> bool"
  eb_file :: "nat \<Rightarrow> string \<Rightarrow> string option"
  eb_link :: "nat \<Rightarrow> string \<Rightarrow> string option"
  eb_dir :: "nat \<Rightarrow> string \<Rightarrow> string list option"
  eb_maps :: "(string \<times> nat) list option"
  eb_mounts :: "nat \<Rightarrow> string list option"
  eb_sehandle :: bool
  eb_snapshot :: snapshot_manager

section \<open>Steps\<close>

text \<open>A step returns a value, or nothing when the process has ended; the state remains in both cases.\<close>

type_synonym ('s, 'a) step = "'s \<Rightarrow> 'a option \<times> 's"

definition ret :: "'a \<Rightarrow> ('s, 'a) step" where
  "ret a s = (Some a, s)"

definition ebind :: "('s, 'a) step \<Rightarrow> ('a \<Rightarrow> ('s, 'b) step) \<Rightarrow> ('s, 'b) step" where
  "ebind m f s = (case m s of (None, s) \<Rightarrow> (None, s) | (Some a, s) \<Rightarrow> f a s)"

definition followed :: "('s, 'a) step \<Rightarrow> ('s, 'b) step \<Rightarrow> ('s, 'b) step" where
  "followed m k = ebind m (\<lambda>_. k)"

text \<open>\<^verbatim>\<open>if (!m) return false;\<close>\<close>

definition unless_false :: "('s, bool) step \<Rightarrow> ('s, bool) step \<Rightarrow> ('s, bool) step" where
  "unless_false m k = ebind m (\<lambda>ok. if ok then k else ret False)"

definition looking :: "('s \<Rightarrow> ('s, 'a) step) \<Rightarrow> ('s, 'a) step" where
  "looking f s = f s s"

fun all_steps :: "('s, unit) step list \<Rightarrow> ('s, unit) step" where
  "all_steps [] = ret ()"
| "all_steps (m # ms) = followed m (all_steps ms)"

definition early_do :: "early_env \<Rightarrow> early_call \<Rightarrow> ('b early_state_scheme, bool) step" where
  "early_do env c s =
     (let ok = eb_sys env (length (es_trace s)) c in (Some ok, s\<lparr>es_trace := es_trace s @ [(c, ok)]\<rparr>))"

definition record_call :: "early_call \<Rightarrow> ('b early_state_scheme, unit) step" where
  "record_call c s = (Some (), s\<lparr>es_trace := es_trace s @ [(c, True)]\<rparr>)"

definition fatal_step :: "string \<Rightarrow> ('b early_state_scheme, 'a) step" where
  "fatal_step msg s = (None, s\<lparr>es_trace := es_trace s @ [(FatalError msg, True)]\<rparr>)"

definition demand :: "early_env \<Rightarrow> early_call \<Rightarrow> string \<Rightarrow> ('b early_state_scheme, unit) step" where
  "demand env c msg = ebind (early_do env c) (\<lambda>ok. if ok then ret () else fatal_step msg)"

definition attempt :: "early_env \<Rightarrow> early_call \<Rightarrow> ('b early_state_scheme, unit) step" where
  "attempt env c = ebind (early_do env c) (\<lambda>_. ret ())"

definition set_environ :: "string \<Rightarrow> string \<Rightarrow> ('b early_state_scheme, unit) step" where
  "set_environ name value s = record_call (PutEnv name value) (s\<lparr>es_environ := (es_environ s)(name \<mapsto> value)\<rparr>)"

definition unset_environ :: "string \<Rightarrow> ('b early_state_scheme, unit) step" where
  "unset_environ name s = record_call (DropEnv name) (s\<lparr>es_environ := (es_environ s)(name := None)\<rparr>)"

definition now :: "'b early_state_scheme \<Rightarrow> nat" where
  "now s = length (es_trace s)"

text \<open>A wait for device nodes; a handler that aborts ends the process.\<close>

definition on_devices :: "(dev_trace \<Rightarrow> (bool \<times> dev_outcome) option) \<Rightarrow> ('b early_state_scheme, bool) step" where
  "on_devices f s =
     (case f (es_devices s) of
        Some (found, Finished t) \<Rightarrow> (Some found, s\<lparr>es_devices := t\<rparr>)
      | Some (_, Aborted t) \<Rightarrow> (None, s\<lparr>es_devices := t\<rparr>)
      | _ \<Rightarrow> (None, s))"

section \<open>The new root\<close>

text \<open>
  The mounts to move: not the root and not the new root, and none that starts like one that is
  moved before.
\<close>

fun GetMounts :: "libbase \<Rightarrow> string \<Rightarrow> string list \<Rightarrow> string list \<Rightarrow> string list" where
  "GetMounts lb new_root found [] = found"
| "GetMounts lb new_root found (dir # dirs) =
     (if dir = ''/'' then GetMounts lb new_root found dirs
      else if dir = new_root then GetMounts lb new_root found dirs
      else if list_ex (StartsWith lb dir) found then GetMounts lb new_root found dirs
      else GetMounts lb new_root (found @ [dir]) dirs)"

definition move_mount :: "early_env \<Rightarrow> string \<Rightarrow> string \<Rightarrow> ('b early_state_scheme, unit) step" where
  "move_mount env new_root path =
     followed (attempt env (MakeDirectory (new_root @ path)))
       (demand env (MoveMount path (new_root @ path)) (''Unable to move mount at '' @ quoted path))"

definition SwitchRoot :: "early_env \<Rightarrow> string \<Rightarrow> ('b early_state_scheme, unit) step" where
  "SwitchRoot env new_root =
     looking (\<lambda>s. case eb_mounts env (now s) of
        None \<Rightarrow> fatal_step ''Failed to open /proc/mounts''
      | Some dirs \<Rightarrow>
          followed (all_steps (map (move_mount env new_root) (GetMounts (eb_lb env) new_root [] dirs)))
            (followed (demand env (ChangeDirectory new_root) (''Could not chdir to new_root, '' @ quoted new_root))
              (followed (demand env (MoveMount new_root ''/'') (''Unable to move root mount to new_root, '' @ quoted new_root))
                (demand env ChangeRoot ''Unable to chroot to new root''))))"

section \<open>The daemon for snapshots\<close>

definition kSnapuserdPath :: string where "kSnapuserdPath = ''/system/bin/snapuserd''"
definition kSnapuserdFirstStagePidVar :: string where "kSnapuserdFirstStagePidVar = ''FIRST_STAGE_SNAPUSERD_PID''"
definition kSnapuserdFirstStageFdVar :: string where "kSnapuserdFirstStageFdVar = ''FIRST_STAGE_SNAPUSERD_FD''"
definition kSnapuserdLabel :: string where "kSnapuserdLabel = ''u:object_r:snapuserd_exec:s0''"
definition kSnapuserdSocketLabel :: string where "kSnapuserdSocketLabel = ''u:object_r:snapuserd_socket:s0''"

definition fork_step :: "early_env \<Rightarrow> string list \<Rightarrow> string \<Rightarrow> ('b early_state_scheme, int) step" where
  "fork_step env argv msg =
     looking (\<lambda>s. ebind (early_do env (ForkExec argv)) (\<lambda>ok. if ok then ret (eb_pid env (now s)) else fatal_step msg))"

definition LaunchFirstStageSnapuserd :: "early_env \<Rightarrow> ('b early_state_scheme, unit) step" where
  "LaunchFirstStageSnapuserd env =
     followed (demand env (CreateSocket (sm_socket (eb_snapshot env)) kSnapuserdSocketLabel) ''Could not create snapuserd socket'')
       (ebind (fork_step env [''/system/bin/snapuserd''] ''Cannot launch snapuserd; fork failed'')
         (\<lambda>pid. set_environ kSnapuserdFirstStagePidVar (to_string pid)))"

definition environ_int :: "early_env \<Rightarrow> string \<Rightarrow> string \<Rightarrow> ('b early_state_scheme, int option) step" where
  "environ_int env name msg =
     looking (\<lambda>s. case es_environ s name of
        None \<Rightarrow> ret None
      | Some str \<Rightarrow>
          (case ParseInt (eb_lb env) str (- (2 ^ 31)) (2 ^ 31 - 1) of
             None \<Rightarrow> fatal_step (msg @ '', '' @ name @ ''='' @ str)
           | Some n \<Rightarrow> ret (Some n)))"

definition GetSnapuserdFirstStagePid :: "early_env \<Rightarrow> ('b early_state_scheme, int option) step" where
  "GetSnapuserdFirstStagePid env = environ_int env kSnapuserdFirstStagePidVar ''Could not parse pid in environment''"

definition IsFirstStageSnapuserdRunning :: "early_env \<Rightarrow> ('b early_state_scheme, bool) step" where
  "IsFirstStageSnapuserdRunning env = ebind (GetSnapuserdFirstStagePid env) (\<lambda>pid. ret (pid \<noteq> None))"

definition GetRamdiskSnapuserdFd :: "early_env \<Rightarrow> ('b early_state_scheme, int option) step" where
  "GetRamdiskSnapuserdFd env = environ_int env kSnapuserdFirstStageFdVar ''Could not parse fd in environment''"

definition RelabelLink :: "early_env \<Rightarrow> string \<Rightarrow> ('b early_state_scheme, unit) step" where
  "RelabelLink env link =
     followed (attempt env (RelabelAt link False))
       (looking (\<lambda>s. case eb_link env (now s) link of None \<Rightarrow> ret () | Some path \<Rightarrow> attempt env (RelabelAt path False)))"

definition RelabelDeviceMapper :: "early_env \<Rightarrow> ('b early_state_scheme, unit) step" where
  "RelabelDeviceMapper env =
     followed (attempt env (RelabelAt ''/dev/device-mapper'' False))
       (looking (\<lambda>s. case eb_dir env (now s) ''/dev/block'' of
          None \<Rightarrow> ret ()
        | Some paths \<Rightarrow>
            all_steps (map (\<lambda>path. attempt env (RelabelAt path False))
              (filter (\<lambda>path. StartsWith (eb_lb env) path ''/dev/block/dm-'') paths))))"

definition RestoreconRamdiskSnapuserd :: "early_env \<Rightarrow> int \<Rightarrow> ('b early_state_scheme, unit) step" where
  "RestoreconRamdiskSnapuserd env fd = demand env (SetLabel fd kSnapuserdLabel) ''fsetxattr snapuserd failed''"

text \<open>The mappings of files are locked one after the other; after a failure no further one is.\<close>

fun lock_maps :: "early_env \<Rightarrow> (string \<times> nat) list \<Rightarrow> ('b early_state_scheme, bool) step" where
  "lock_maps env [] = ret True"
| "lock_maps env ((name, len) # maps) =
     (if StartsWith (eb_lb env) name ''/dev/'' \<or> \<not> StartsWith (eb_lb env) name ''/'' \<or> len = 0 then lock_maps env maps
      else unless_false (early_do env (LockPages len)) (lock_maps env maps))"

definition LockAllSystemPages :: "early_env \<Rightarrow> ('b early_state_scheme, unit) step" where
  "LockAllSystemPages env =
     (case eb_maps env of
        None \<Rightarrow> fatal_step ''Could not process maps file for init''
      | Some maps \<Rightarrow> ebind (lock_maps env maps) (\<lambda>ok. if ok then ret () else fatal_step ''Could not process maps file for init''))"

definition KillFirstStageSnapuserd :: "early_env \<Rightarrow> int \<Rightarrow> ('b early_state_scheme, unit) step" where
  "KillFirstStageSnapuserd env pid = attempt env (KillProcess pid)"

text \<open>The helper: the pid of the old daemon; \<open>StartTransition\<close> returns the arguments of the new one.\<close>

definition StartTransition :: "early_env \<Rightarrow> int \<Rightarrow> ('b early_state_scheme, string list) step" where
  "StartTransition env old_pid =
     (if \<not> eb_sehandle env then fatal_step ''Could not create SELinux file context handle''
      else followed (LockAllSystemPages env)
        (case sm_detach (eb_snapshot env) [''snapuserd'', ''-no_socket''] of
           None \<Rightarrow> fatal_step ''Could not perform selinux transition''
         | Some argv \<Rightarrow>
             followed (record_call (DetachDaemon argv)) (followed (KillFirstStageSnapuserd env old_pid) (ret argv))))"

definition RelaunchFirstStageSnapuserd :: "early_env \<Rightarrow> string list \<Rightarrow> ('b early_state_scheme, unit) step" where
  "RelaunchFirstStageSnapuserd env argv =
     ebind (GetRamdiskSnapuserdFd env) (\<lambda>fd. case fd of
        None \<Rightarrow> fatal_step (''Environment variable '' @ kSnapuserdFirstStageFdVar @ '' was not set!'')
      | Some fd \<Rightarrow>
          followed (unset_environ kSnapuserdFirstStageFdVar)
            (followed (RestoreconRamdiskSnapuserd env fd)
              (ebind (fork_step env argv ''Fork to relaunch snapuserd failed'')
                (\<lambda>pid. followed (attempt env (CloseDescriptor fd)) (set_environ kSnapuserdFirstStagePidVar (to_string pid))))))"

definition FinishTransition :: "early_env \<Rightarrow> string list \<Rightarrow> ('b early_state_scheme, unit) step" where
  "FinishTransition env argv =
     all_steps [RelabelLink env ''/dev/block/by-name/super'', RelabelDeviceMapper env,
       attempt env (RelabelAt ''/dev/null'' False), attempt env (RelabelAt ''/dev/urandom'' False),
       attempt env (RelabelAt ''/dev/kmsg'' False), attempt env (RelabelAt ''/dev/dm-user'' True),
       RelaunchFirstStageSnapuserd env argv, attempt env UnlockAllPages]"

definition IsRecoveryMode :: "early_env \<Rightarrow> 'b early_state_scheme \<Rightarrow> bool" where
  "IsRecoveryMode env s = eb_access env (now s) ''/system/bin/recovery''"

definition CreateIfNeeded :: "early_env \<Rightarrow> ('b early_state_scheme, int option) step" where
  "CreateIfNeeded env =
     looking (\<lambda>s. if IsRecoveryMode env s then ret None
       else ebind (GetSnapuserdFirstStagePid env) (\<lambda>old_pid. case old_pid of
          None \<Rightarrow> ret None
        | Some pid \<Rightarrow> if sm_created (eb_snapshot env) then ret (Some pid) else fatal_step ''Unable to create SnapshotManager''))"

definition CleanupSnapuserdSocket :: "early_env \<Rightarrow> ('b early_state_scheme, unit) step" where
  "CleanupSnapuserdSocket env =
     (let socket_path = ''/dev/socket/'' @ sm_socket (eb_snapshot env)
      in looking (\<lambda>s. if \<not> eb_access env (now s) socket_path then ret ()
        else followed (if sm_connects (eb_snapshot env) then record_call (DetachDaemon []) else ret ())
          (demand env (UnlinkFile socket_path) (''unlink '' @ socket_path @ '' failed''))))"

definition SaveRamdiskPathToSnapuserd :: "early_env \<Rightarrow> ('b early_state_scheme, unit) step" where
  "SaveRamdiskPathToSnapuserd env =
     looking (\<lambda>s. ebind (early_do env (OpenDescriptor kSnapuserdPath)) (\<lambda>ok.
       if \<not> ok then fatal_step (''Unable to open snapuserd: '' @ kSnapuserdPath)
       else set_environ kSnapuserdFirstStageFdVar (to_string (eb_pid env (now s)))))"

section \<open>Steps without a part in the guarantees\<close>

text \<open>
  The guarantees of the early boot are about a few calls; a step is plain when it makes none of them
  and changes nothing but the trace, the environment and the device nodes.
\<close>

fun plain_call :: "early_call \<Rightarrow> bool" where
  "plain_call (MountOne _) = False"
| "plain_call (HashtreeSetUp _ _ _ _) = False"
| "plain_call (VeritySetUp _ _ _) = False"
| "plain_call (OpenedAvb _) = False"
| "plain_call (SetEnforce _) = False"
| "plain_call (LoadPolicy _) = False"
| "plain_call (ExecInit _) = False"
| "plain_call _ = True"

definition plain_step :: "('b early_state_scheme, 'a) step \<Rightarrow> bool" where
  "plain_step m =
     (\<forall>s. \<exists>cs. es_trace (snd (m s)) = es_trace s @ cs \<and> list_all (plain_call \<circ> fst) cs \<and>
        early_state.more (snd (m s)) = early_state.more s)"

named_theorems plain

lemma plain_ret [plain]: "plain_step (ret a)"
  by (simp add: plain_step_def ret_def)

lemma plain_ebind [plain]:
  assumes "plain_step m" "\<And>a. plain_step (f a)"
  shows "plain_step (ebind m f)"
  unfolding plain_step_def
proof
  fix s
  obtain r s1 where m: "m s = (r, s1)" by fastforce
  obtain cs where cs: "es_trace s1 = es_trace s @ cs" "list_all (plain_call \<circ> fst) cs" "early_state.more s1 = early_state.more s"
    using assms(1) [unfolded plain_step_def, rule_format, of s] m by auto
  show "\<exists>cs. es_trace (snd (ebind m f s)) = es_trace s @ cs \<and> list_all (plain_call \<circ> fst) cs \<and>
      early_state.more (snd (ebind m f s)) = early_state.more s"
  proof (cases r)
    case None
    then show ?thesis using m cs by (simp add: ebind_def)
  next
    case (Some a)
    obtain ds where "es_trace (snd (f a s1)) = es_trace s1 @ ds" "list_all (plain_call \<circ> fst) ds"
        "early_state.more (snd (f a s1)) = early_state.more s1"
      using assms(2) [of a, unfolded plain_step_def, rule_format, of s1] by auto
    then show ?thesis using m cs Some by (simp add: ebind_def)
  qed
qed

lemma plain_looking [plain]: "(\<And>s. plain_step (f s)) \<Longrightarrow> plain_step (looking f)"
  by (simp add: plain_step_def looking_def)

lemma plain_followed [plain]: "plain_step m \<Longrightarrow> plain_step k \<Longrightarrow> plain_step (followed m k)"
  by (simp add: followed_def plain_ebind)

lemma plain_unless [plain]: "plain_step m \<Longrightarrow> plain_step k \<Longrightarrow> plain_step (unless_false m k)"
  by (simp add: unless_false_def plain_ebind plain_ret)

lemma plain_all [plain]: "(\<And>m. m \<in> set ms \<Longrightarrow> plain_step m) \<Longrightarrow> plain_step (all_steps ms)"
  by (induction ms) (auto intro: plain)

lemma plain_do [plain]: "plain_call c \<Longrightarrow> plain_step (early_do env c)"
  by (simp add: plain_step_def early_do_def Let_def)

lemma plain_record [plain]: "plain_call c \<Longrightarrow> plain_step (record_call c)"
  by (simp add: plain_step_def record_call_def)

lemma plain_fatal [plain]: "plain_step (fatal_step msg)"
  by (simp add: plain_step_def fatal_step_def)

lemma plain_demand [plain]: "plain_call c \<Longrightarrow> plain_step (demand env c msg)"
  by (simp add: demand_def plain)

lemma plain_attempt [plain]: "plain_call c \<Longrightarrow> plain_step (attempt env c)"
  by (simp add: attempt_def plain)

lemma plain_environ [plain]: "plain_step (set_environ n v)" "plain_step (unset_environ n)"
  by (simp_all add: plain_step_def set_environ_def unset_environ_def record_call_def)

lemma plain_devices [plain]: "plain_step (on_devices f)"
  by (auto simp: plain_step_def on_devices_def split: option.split dev_outcome.split)

lemma plain_root [plain]: "plain_step (SwitchRoot env new_root)"
  by (auto simp: SwitchRoot_def move_mount_def intro!: plain split: option.split)

lemma plain_fork [plain]: "plain_step (fork_step env argv msg)"
  by (auto simp: fork_step_def intro!: plain)

lemma plain_environ_int [plain]: "plain_step (environ_int env n msg)"
  by (auto simp: environ_int_def intro!: plain split: option.split)

lemma plain_lock [plain]: "plain_step (lock_maps env maps)"
  by (induction env maps rule: lock_maps.induct) (auto intro!: plain)

lemma plain_snapuserd [plain]:
  "plain_step (LaunchFirstStageSnapuserd env)" "plain_step (GetSnapuserdFirstStagePid env)" "plain_step (IsFirstStageSnapuserdRunning env)"
  "plain_step (CleanupSnapuserdSocket env)" "plain_step (SaveRamdiskPathToSnapuserd env)" "plain_step (CreateIfNeeded env)"
  by (auto simp: LaunchFirstStageSnapuserd_def GetSnapuserdFirstStagePid_def IsFirstStageSnapuserdRunning_def CleanupSnapuserdSocket_def
      SaveRamdiskPathToSnapuserd_def CreateIfNeeded_def Let_def intro!: plain split: option.split)

lemma plain_transition [plain]: "plain_step (StartTransition env pid)" "plain_step (FinishTransition env argv)"
  by (auto simp: StartTransition_def LockAllSystemPages_def KillFirstStageSnapuserd_def FinishTransition_def RelabelLink_def
      RelabelDeviceMapper_def RelaunchFirstStageSnapuserd_def GetRamdiskSnapuserdFd_def RestoreconRamdiskSnapuserd_def
      intro!: plain split: option.split)

end
