(* ===== verification/First_Stage_Mount.thy ===== *)
theory First_Stage_Mount
  imports Early_Boot "HOL-Library.List_Lexorder" "HOL-Library.Char_ord"
begin

text \<open>
  Mounting the partitions the second stage needs (\<^verbatim>\<open>init/first_stage_mount.cpp\<close>), with verified boot
  in its two versions.
\<close>

section \<open>State\<close>

record avb_handle =
  av_status :: AvbHandleStatus
  av_version :: string
  av_hashtree :: "FstabEntry \<Rightarrow> AvbHashtreeResult \<times> string"
  av_spl :: "FstabEntry \<Rightarrow> string"

text \<open>
  Images of an installed system: the devices that mapping them asks for, whether it succeeds once
  it has them, and their names.
\<close>

record dsu_images =
  im_requests :: "string list list"
  im_mapped :: bool
  im_backing :: "string list"

text \<open>The libraries for file systems, logical partitions and verified boot.\<close>

record mount_libs =
  ml_fstab_dt :: "FstabEntry list option"
  ml_fstab_default :: "FstabEntry list option"
  ml_dt_vbmeta :: bool
  ml_dt_parts :: string
  ml_super_name :: string
  ml_slot_suffix :: string
  ml_realpath :: "string \<Rightarrow> string option"
  ml_proc_mounts :: "FstabEntry list option"
  ml_vroot :: bool
  ml_unlocked :: bool
  ml_metadata :: "string \<Rightarrow> string list option"
  ml_logical_created :: bool
  ml_mount_point_ok :: "string \<Rightarrow> bool"
  ml_update_logical :: "FstabEntry \<Rightarrow> string option"
  ml_setup_verity :: "FstabEntry \<Rightarrow> verity_result \<times> string"
  ml_check_at_most_once :: "FstabEntry \<Rightarrow> bool"
  ml_avb_open :: "avb_handle option"
  ml_standalone :: "FstabEntry \<Rightarrow> string list \<Rightarrow> avb_handle option"
  ml_skip :: "FstabEntry list \<Rightarrow> FstabEntry list option"
  ml_can_boot_gsi :: bool
  ml_active_dsu :: "string option"
  ml_images :: "string \<Rightarrow> dsu_images option"
  ml_mark_gsi :: bool
  ml_transform :: "FstabEntry list \<Rightarrow> string \<Rightarrow> string list \<Rightarrow> FstabEntry list"
  ml_dsu_keys :: string
  ml_lp_names :: string
  ml_key_dir :: "string \<Rightarrow> (string \<times> bool) list option"
  ml_is_dir :: "string \<Rightarrow> bool"
  ml_scratch_requests :: "string list list"
  ml_scratch :: "FstabEntry list \<Rightarrow> FstabEntry list"

record fsm_state = early_state +
  vboot2 :: bool
  need_dm_verity :: bool
  dsu_not_on_userdata :: bool
  use_snapuserd :: bool
  fs_tab :: "FstabEntry list"
  super_path :: string
  preload_avb_key_blobs :: "string \<Rightarrow> string list option"
  vbmeta_partitions :: "string list"
  fs_avb_handle :: "avb_handle option"

type_synonym 'a fsm = "(fsm_state, 'a) step"

definition change :: "(fsm_state \<Rightarrow> fsm_state) \<Rightarrow> unit fsm" where
  "change f s = (Some (), f s)"

fun all_true :: "('s, bool) step list \<Rightarrow> ('s, bool) step" where
  "all_true [] = ret True"
| "all_true (m # ms) = unless_false m (all_true ms)"

definition first_index :: "('a \<Rightarrow> bool) \<Rightarrow> 'a list \<Rightarrow> nat option" where
  "first_index P xs = find (\<lambda>i. P (xs ! i)) [0..<length xs]"

section \<open>The table\<close>

definition IsDtVbmetaCompatible :: "mount_libs \<Rightarrow> FstabEntry list \<Rightarrow> bool" where
  "IsDtVbmetaCompatible ml fstab = (if list_ex fe_avb fstab then True else ml_dt_vbmeta ml)"

definition ReadFirstStageFstab :: "mount_libs \<Rightarrow> FstabEntry list result" where
  "ReadFirstStageFstab ml =
     (case ml_fstab_dt ml of
        Some fstab \<Rightarrow> Ok fstab
      | None \<Rightarrow>
          (case ml_fstab_default ml of
             Some fstab \<Rightarrow> Ok (filter fe_first_stage_mount fstab)
           | None \<Rightarrow> Err (Error ''failed to read default fstab for first stage mount'')))"

definition GetRootEntry :: "mount_libs \<Rightarrow> FstabEntry option" where
  "GetRootEntry ml =
     (case ml_proc_mounts ml of
        None \<Rightarrow> None
      | Some mounts \<Rightarrow>
          map_option (\<lambda>e. if ml_vroot ml then e\<lparr>fe_avb := True\<rparr> else e\<lparr>fe_verify := True\<rparr>)
            (find (\<lambda>e. fe_mount_point e = ''/'' \<and> fe_fs_type e \<noteq> ''rootfs'') mounts))"

definition IsStandaloneImageRollback :: "mount_libs \<Rightarrow> avb_handle \<Rightarrow> avb_handle \<Rightarrow> FstabEntry \<Rightarrow> bool" where
  "IsStandaloneImageRollback ml builtin_vbmeta standalone_vbmeta e =
     (let old_spl = av_spl builtin_vbmeta e;
          new_spl = av_spl standalone_vbmeta e;
          rollbacked = (old_spl = [] \<or> new_spl = [] \<or> new_spl < old_spl)
      in if rollbacked \<and> ml_unlocked ml then False else rollbacked)"

text \<open>The constructors; the second version collects the partitions with metadata.\<close>

definition new_fsm :: "early_env \<Rightarrow> mount_libs \<Rightarrow> bool \<Rightarrow> FstabEntry list \<Rightarrow> early_state \<Rightarrow> fsm_state" where
  "new_fsm env ml v2 fstab s =
     early_state.extend s
       \<lparr>vboot2 = v2, need_dm_verity = False, dsu_not_on_userdata = False, use_snapuserd = False, fs_tab = fstab, super_path = [],
        preload_avb_key_blobs = (\<lambda>_. None),
        vbmeta_partitions =
          (if v2 then filter (\<lambda>p. p \<noteq> []) (Split (eb_lb env) (ml_dt_parts ml) '','') @
                      filter (\<lambda>p. p \<noteq> []) (map fe_vbmeta_partition fstab)
           else []),
        fs_avb_handle = None\<rparr>"

definition run_fsm :: "fsm_state \<Rightarrow> 'a fsm \<Rightarrow> 'a option \<times> early_state" where
  "run_fsm fs m = (case m fs of (r, fs) \<Rightarrow> (r, early_state.truncate fs))"

section \<open>Devices\<close>

definition InitRequiredDevices :: "early_env \<Rightarrow> string set \<Rightarrow> ('b early_state_scheme, bool) step" where
  "InitRequiredDevices env devices =
     unless_false (on_devices (InitDeviceMapper (eb_block env)))
       (if devices = {} then ret True else on_devices (BlockDev_InitDevices (eb_block env) devices))"

definition IsDmLinearEnabled :: "fsm_state \<Rightarrow> bool" where
  "IsDmLinearEnabled s = list_ex fe_logical (fs_tab s)"

definition GetSuperDeviceName :: "mount_libs \<Rightarrow> fsm_state \<Rightarrow> string set" where
  "GetSuperDeviceName ml s = (if \<not> IsDmLinearEnabled s then {} else {ml_super_name ml})"

definition device_name :: "early_env \<Rightarrow> FstabEntry \<Rightarrow> string" where
  "device_name env e = dv_Basename (bd_env (eb_block env)) (fe_blk_device e)"

definition physical_devices :: "early_env \<Rightarrow> FstabEntry list \<Rightarrow> string set" where
  "physical_devices env fstab =
     device_name env ` set (filter (\<lambda>e. fe_fs_type e \<noteq> ''overlay'' \<and> \<not> fe_logical e) fstab)"

definition GetDmVerityDevices1 :: "early_env \<Rightarrow> string set \<Rightarrow> string set option fsm" where
  "GetDmVerityDevices1 env devices =
     looking (\<lambda>s.
       followed (change (\<lambda>s. s\<lparr>need_dm_verity := list_ex fe_verify (takeWhile (\<lambda>e. \<not> fe_verify_at_boot e) (fs_tab s))\<rparr>))
         (if list_ex fe_verify_at_boot (fs_tab s) then ret None else ret (Some (devices \<union> physical_devices env (fs_tab s)))))"

definition GetDmVerityDevices2 :: "early_env \<Rightarrow> mount_libs \<Rightarrow> string set \<Rightarrow> string set option fsm" where
  "GetDmVerityDevices2 env ml devices =
     looking (\<lambda>s.
       let need = list_ex fe_avb (fs_tab s);
           logical_partitions = device_name env ` set (filter (\<lambda>e. fe_fs_type e \<noteq> ''overlay'' \<and> fe_logical e) (fs_tab s));
           devices = devices \<union> physical_devices env (fs_tab s)
       in followed (change (\<lambda>s. s\<lparr>need_dm_verity := need\<rparr>))
            (if \<not> need then ret (Some devices)
             else if vbmeta_partitions s = [] then ret None
             else ret (Some (devices \<union> (set (map (\<lambda>p. p @ ml_slot_suffix ml) (vbmeta_partitions s)) - logical_partitions)))))"

definition InitDevices :: "early_env \<Rightarrow> mount_libs \<Rightarrow> bool fsm" where
  "InitDevices env ml =
     looking (\<lambda>s.
       ebind (if vboot2 s then GetDmVerityDevices2 env ml (GetSuperDeviceName ml s)
              else GetDmVerityDevices1 env (GetSuperDeviceName ml s))
         (\<lambda>devices. case devices of
            None \<Rightarrow> ret False
          | Some devices \<Rightarrow>
              unless_false (InitRequiredDevices env devices)
                (looking (\<lambda>s.
                   if IsDmLinearEnabled s then
                     (case ml_realpath ml (''/dev/block/by-name/'' @ ml_super_name ml) of
                        None \<Rightarrow> ret False
                      | Some path \<Rightarrow> followed (change (\<lambda>s. s\<lparr>super_path := path\<rparr>)) (ret True))
                   else ret True))))"

definition InitDmLinearBackingDevices :: "early_env \<Rightarrow> mount_libs \<Rightarrow> string list \<Rightarrow> bool fsm" where
  "InitDmLinearBackingDevices env ml partition_names =
     (let devices = set partition_names - {ml_super_name ml}
      in if devices = {} then ret True else InitRequiredDevices env devices)"

text \<open>What the library for snapshots asks for while it creates the partitions.\<close>

definition regen_callback :: "early_env \<Rightarrow> string \<Rightarrow> ('b early_state_scheme, bool) step" where
  "regen_callback env device =
     (if StartsWith (eb_lb env) device ''/dev/block/dm-'' then on_devices (InitDmDevice (eb_block env) device)
      else if StartsWith (eb_lb env) device ''/dev/dm-user/''
      then on_devices (InitDmUser (eb_block env) (dv_Basename (bd_env (eb_block env)) device))
      else on_devices (BlockDev_InitDevices (eb_block env) {device}))"

definition CreateSnapshotPartitions :: "early_env \<Rightarrow> bool fsm" where
  "CreateSnapshotPartitions env =
     (let sm = eb_snapshot env
      in unless_false (InitRequiredDevices env {''userdata''})
        (followed (change (\<lambda>s. s\<lparr>use_snapuserd := sm_snapuserd_required sm\<rparr>))
          (followed (if sm_snapuserd_required sm then LaunchFirstStageSnapuserd env else ret ())
            (unless_false (all_true (map (regen_callback env) (sm_requests sm)))
              (if \<not> sm_partitions_ok sm then ret False
               else followed (if sm_snapuserd_required sm then CleanupSnapuserdSocket env else ret ()) (ret True))))))"

definition CreateLogicalPartitions :: "early_env \<Rightarrow> mount_libs \<Rightarrow> bool fsm" where
  "CreateLogicalPartitions env ml =
     looking (\<lambda>s.
       if \<not> IsDmLinearEnabled s then ret True
       else if super_path s = [] then ret False
       else
         (let sm = eb_snapshot env;
              from_metadata =
                (case ml_metadata ml (super_path s) of
                   None \<Rightarrow> ret False
                 | Some partition_names \<Rightarrow>
                     unless_false (InitDmLinearBackingDevices env ml partition_names) (ret (ml_logical_created ml)))
          in if sm_needed sm then
               if \<not> sm_created sm then ret False
               else if sm_need_snapshots sm then CreateSnapshotPartitions env else from_metadata
             else from_metadata))"

section \<open>Verification\<close>

definition SetUpDmVerity1 :: "early_env \<Rightarrow> mount_libs \<Rightarrow> FstabEntry \<Rightarrow> (bool \<times> FstabEntry) fsm" where
  "SetUpDmVerity1 env ml e =
     (if fe_verify e then
        (case ml_setup_verity ml e of (res, blk) \<Rightarrow>
           followed (record_call (VeritySetUp (fe_mount_point e) res blk))
             (let e = e\<lparr>fe_blk_device := blk\<rparr>
              in case res of
                   VERITY_SKIPPED \<Rightarrow> ret (True, e)
                 | VERITY_DISABLED \<Rightarrow> ret (True, e)
                 | VERITY_SUCCESS \<Rightarrow> ebind (on_devices (InitDmDevice (eb_block env) blk)) (\<lambda>ok. ret (ok, e))
                 | VERITY_FAIL \<Rightarrow> ret (False, e)))
      else ret (True, e))"

definition InitAvbHandle :: "mount_libs \<Rightarrow> avb_handle option fsm" where
  "InitAvbHandle ml =
     looking (\<lambda>s. case fs_avb_handle s of
        Some h \<Rightarrow> ret (Some h)
      | None \<Rightarrow>
          (case ml_avb_open ml of
             None \<Rightarrow> ret None
           | Some h \<Rightarrow>
               followed (record_call (OpenedAvb (av_status h)))
                 (followed (change (\<lambda>s. s\<lparr>fs_avb_handle := Some h\<rparr>))
                   (followed (set_environ ''INIT_AVB_VERSION'' (av_version h)) (ret (Some h))))))"

text \<open>Sets up the tree with a handle, which may be one for the partition alone, and looks at the result.\<close>

definition hashtree_step :: "early_env \<Rightarrow> bool \<Rightarrow> avb_handle \<Rightarrow> FstabEntry \<Rightarrow> (bool \<times> FstabEntry) fsm" where
  "hashtree_step env standalone h e =
     (case av_hashtree h e of (res, blk) \<Rightarrow>
        followed (record_call (HashtreeSetUp (fe_mount_point e) standalone res blk))
          (let e = e\<lparr>fe_blk_device := blk\<rparr>
           in case res of
                HT_Disabled \<Rightarrow> ret (True, e)
              | HT_Success \<Rightarrow> ebind (on_devices (InitDmDevice (eb_block env) blk)) (\<lambda>ok. ret (ok, e))
              | HT_Fail \<Rightarrow> ret (False, e)))"

definition with_handle :: "mount_libs \<Rightarrow> FstabEntry \<Rightarrow> (avb_handle \<Rightarrow> (bool \<times> FstabEntry) fsm) \<Rightarrow> (bool \<times> FstabEntry) fsm" where
  "with_handle ml e k = ebind (InitAvbHandle ml) (\<lambda>h. case h of None \<Rightarrow> ret (False, e) | Some h \<Rightarrow> k h)"

definition SetUpDmVerity2 :: "early_env \<Rightarrow> mount_libs \<Rightarrow> FstabEntry \<Rightarrow> (bool \<times> FstabEntry) fsm" where
  "SetUpDmVerity2 env ml e =
     (if fe_avb_keys e \<noteq> [] then
        with_handle ml e (\<lambda>h.
          if av_status h = AH_HashtreeDisabled \<or> av_status h = AH_VerificationDisabled then ret (True, e)
          else looking (\<lambda>s.
            case ml_standalone ml e (case preload_avb_key_blobs s (fe_avb_keys e) of None \<Rightarrow> [] | Some blobs \<Rightarrow> blobs) of
              None \<Rightarrow> if \<not> fe_avb e then ret (False, e) else hashtree_step env False h e
            | Some standalone \<Rightarrow>
                if IsStandaloneImageRollback ml h standalone e then ret (False, e)
                else hashtree_step env True standalone e))
      else if fe_avb e then with_handle ml e (\<lambda>h. hashtree_step env False h e)
      else ret (True, e))"

definition SetUpDmVerity :: "early_env \<Rightarrow> mount_libs \<Rightarrow> FstabEntry \<Rightarrow> (bool \<times> FstabEntry) fsm" where
  "SetUpDmVerity env ml e = looking (\<lambda>s. if vboot2 s then SetUpDmVerity2 env ml e else SetUpDmVerity1 env ml e)"

section \<open>Mounting\<close>

definition set_entry :: "nat \<Rightarrow> FstabEntry \<Rightarrow> unit fsm" where
  "set_entry i e = change (\<lambda>s. s\<lparr>fs_tab := (fs_tab s)[i := e]\<rparr>)"

text \<open>
  The entries that follow and have the same mount point are tried until one is mounted, on the
  device of the first one. The result has these entries and the rest of the table.
\<close>

fun mount_same :: "early_env \<Rightarrow> FstabEntry \<Rightarrow> bool \<Rightarrow> FstabEntry list \<Rightarrow> (bool \<times> FstabEntry list \<times> FstabEntry list) fsm" where
  "mount_same env e mounted [] = ret (mounted, [], [])"
| "mount_same env e mounted (c # cs) =
     (if fe_mount_point c \<noteq> fe_mount_point e then ret (mounted, [], c # cs)
      else if mounted then ebind (mount_same env e True cs) (\<lambda>(m, same, rest). ret (m, c # same, rest))
      else
        (let c = c\<lparr>fe_blk_device := fe_blk_device e\<rparr>
         in ebind (early_do env (MountOne c))
              (\<lambda>ok. ebind (mount_same env e ok cs) (\<lambda>(m, same, rest). ret (m, c # same, rest)))))"

definition mount_group :: "early_env \<Rightarrow> bool \<Rightarrow> nat \<Rightarrow> (bool \<times> nat) fsm" where
  "mount_group env erase_same_mounts i =
     looking (\<lambda>s.
       let e = fs_tab s ! i
       in ebind (early_do env (MountOne e)) (\<lambda>mounted.
            ebind (mount_same env e mounted (drop (i + 1) (fs_tab s))) (\<lambda>(mounted, same, rest).
              followed (change (\<lambda>s. s\<lparr>fs_tab := take i (fs_tab s) @ (if erase_same_mounts then [] else e # same) @ rest\<rparr>))
                (ret (mounted, if erase_same_mounts then i else i + 1 + length same)))))"

definition locate_logical :: "early_env \<Rightarrow> mount_libs \<Rightarrow> nat \<Rightarrow> bool fsm" where
  "locate_logical env ml i =
     looking (\<lambda>s.
       let e = fs_tab s ! i
       in if fe_logical e then
            (case ml_update_logical ml e of
               None \<Rightarrow> ret False
             | Some blk \<Rightarrow>
                 followed (set_entry i (e\<lparr>fe_blk_device := blk\<rparr>)) (on_devices (InitDmDevice (eb_block env) blk)))
          else ret True)"

text \<open>The result and the index behind the entries that were looked at.\<close>

definition MountPartition :: "early_env \<Rightarrow> mount_libs \<Rightarrow> bool \<Rightarrow> nat \<Rightarrow> (bool \<times> nat) fsm" where
  "MountPartition env ml erase_same_mounts i =
     looking (\<lambda>s.
       if \<not> ml_mount_point_ok ml (fe_mount_point (fs_tab s ! i)) then ret (False, i + 1)
       else ebind (locate_logical env ml i) (\<lambda>ok.
         if \<not> ok then ret (False, i + 1)
         else looking (\<lambda>s. ebind (SetUpDmVerity env ml (fs_tab s ! i)) (\<lambda>(ok, e).
           followed (set_entry i e)
             (if \<not> ok then ret (False, i + 1) else mount_group env erase_same_mounts i)))))"

definition CopyDsuAvbKeys :: "early_env \<Rightarrow> mount_libs \<Rightarrow> ('b early_state_scheme, unit) step" where
  "CopyDsuAvbKeys env ml =
     followed (attempt env (RemoveTree (ml_dsu_keys ml))) (attempt env (CopyTree ''/avb'' (ml_dsu_keys ml)))"

definition fsm_DoCreateDevices :: "early_env \<Rightarrow> mount_libs \<Rightarrow> bool fsm" where
  "fsm_DoCreateDevices env ml =
     unless_false (InitDevices env ml)
       (followed
         (looking (\<lambda>s. case first_index (\<lambda>e. fe_mount_point e = ''/metadata'') (fs_tab s) of
            None \<Rightarrow> ret ()
          | Some i \<Rightarrow> ebind (MountPartition env ml True i) (\<lambda>(ok, _). if ok then CopyDsuAvbKeys env ml else ret ())))
         (CreateLogicalPartitions env ml))"

text \<open>The keys that a path names: the regular files of a directory, or a list of files.\<close>

definition key_paths :: "early_env \<Rightarrow> mount_libs \<Rightarrow> string \<Rightarrow> string list option" where
  "key_paths env ml avb_keys =
     (if ml_is_dir ml avb_keys then
        map_option (\<lambda>es. sort (map (\<lambda>e. avb_keys @ ''/'' @ fst e) (filter snd es))) (ml_key_dir ml avb_keys)
      else Some (Split (eb_lb env) avb_keys '':''))"

definition preload_entry :: "early_env \<Rightarrow> mount_libs \<Rightarrow> FstabEntry \<Rightarrow> fsm_state \<Rightarrow> fsm_state" where
  "preload_entry env ml e s =
     (if fe_avb_keys e = [] \<or> preload_avb_key_blobs s (fe_avb_keys e) \<noteq> None then s
      else (case key_paths env ml (fe_avb_keys e) of
              None \<Rightarrow> s
            | Some paths \<Rightarrow>
                s\<lparr>preload_avb_key_blobs :=
                    (preload_avb_key_blobs s)(fe_avb_keys e \<mapsto> List.map_filter (eb_file env (now s)) paths)\<rparr>))"

definition PreloadAvbKeys :: "early_env \<Rightarrow> mount_libs \<Rightarrow> unit fsm" where
  "PreloadAvbKeys env ml = change (\<lambda>s. fold (preload_entry env ml) (fs_tab s) s)"

definition dsu_init_devices :: "early_env \<Rightarrow> string list \<Rightarrow> bool fsm" where
  "dsu_init_devices env devices =
     followed (if ''userdata'' \<notin> set devices \<or> card (set devices) > 1 then change (\<lambda>s. s\<lparr>dsu_not_on_userdata := True\<rparr>) else ret ())
       (InitRequiredDevices env (set devices))"

definition UseDsuIfPresent :: "early_env \<Rightarrow> mount_libs \<Rightarrow> unit fsm" where
  "UseDsuIfPresent env ml =
     (if \<not> ml_can_boot_gsi ml then ret ()
      else (case ml_active_dsu ml of
              None \<Rightarrow> ret ()
            | Some active_dsu \<Rightarrow>
                (case ml_images ml (''dsu/'' @ active_dsu) of
                   None \<Rightarrow> ret ()
                 | Some images \<Rightarrow>
                     ebind (all_true (map (dsu_init_devices env) (im_requests images))) (\<lambda>ok.
                       if \<not> ok \<or> \<not> im_mapped images \<or> \<not> ml_mark_gsi ml then ret ()
                       else
                         followed (attempt env (WriteTo (ml_lp_names ml) (concat (map (\<lambda>n. n @ '','') (im_backing images)))))
                           (change (\<lambda>s. s\<lparr>fs_tab := ml_transform ml (fs_tab s) active_dsu (im_backing images)\<rparr>))))))"

definition TrySwitchSystemAsRoot :: "early_env \<Rightarrow> mount_libs \<Rightarrow> bool fsm" where
  "TrySwitchSystemAsRoot env ml =
     followed (UseDsuIfPresent env ml)
       (followed (PreloadAvbKeys env ml)
         (looking (\<lambda>s. case first_index (\<lambda>e. fe_mount_point e = ''/system'') (fs_tab s) of
            None \<Rightarrow> ret True
          | Some i \<Rightarrow>
              followed (if use_snapuserd s then SaveRamdiskPathToSnapuserd env else ret ())
                (ebind (MountPartition env ml False i) (\<lambda>(ok, _).
                   if \<not> ok then ret False
                   else looking (\<lambda>s.
                     if dsu_not_on_userdata s \<and> ml_check_at_most_once ml (fs_tab s ! i) then ret False
                     else followed (SwitchRoot env ''/system'') (ret True)))))))"

definition passed_over :: "FstabEntry \<Rightarrow> bool" where
  "passed_over e = (fe_mount_point e = ''/system'' \<or> fe_fs_type e = ''overlay'' \<or> fe_fs_type e = ''emmc'')"

fun mount_loop :: "early_env \<Rightarrow> mount_libs \<Rightarrow> nat \<Rightarrow> nat \<Rightarrow> bool fsm" where
  "mount_loop env ml 0 i = (\<lambda>s. (None, s))"
| "mount_loop env ml (Suc fuel) i =
     looking (\<lambda>s.
       if length (fs_tab s) \<le> i then ret True
       else
         (let e = fs_tab s ! i
          in if passed_over e then mount_loop env ml fuel (i + 1)
             else ebind (MountPartition env ml False i) (\<lambda>(ok, next).
               if ok \<or> fe_no_fail e \<or> fe_formattable e then mount_loop env ml fuel next else ret False)))"

definition scratch_init_devices :: "early_env \<Rightarrow> string list \<Rightarrow> bool fsm" where
  "scratch_init_devices env devices =
     (let is_dm = (\<lambda>d. StartsWith (eb_lb env) d ''/dev/block/dm-'')
      in unless_false (all_true (map (\<lambda>d. on_devices (InitDmDevice (eb_block env) d)) (filter is_dm devices)))
           (InitRequiredDevices env (set (filter (\<lambda>d. \<not> is_dm d) devices))))"

definition add_root_entry :: "mount_libs \<Rightarrow> unit fsm" where
  "add_root_entry ml =
     looking (\<lambda>s.
       if list_ex (\<lambda>e. fe_mount_point e = ''/system'') (fs_tab s) \<or> list_ex (\<lambda>e. fe_mount_point e = ''/'') (fs_tab s) then ret ()
       else (case GetRootEntry ml of None \<Rightarrow> ret () | Some e \<Rightarrow> change (\<lambda>s. s\<lparr>fs_tab := fs_tab s @ [e]\<rparr>)))"

definition mount_overlays :: "early_env \<Rightarrow> unit fsm" where
  "mount_overlays env =
     looking (\<lambda>s. all_steps (map (\<lambda>e. attempt env (MountOverlay (fe_mount_point e))) (filter (\<lambda>e. fe_fs_type e = ''overlay'') (fs_tab s))))"

definition MountPartitions :: "early_env \<Rightarrow> mount_libs \<Rightarrow> bool fsm" where
  "MountPartitions env ml =
     unless_false (TrySwitchSystemAsRoot env ml)
       (looking (\<lambda>s. case ml_skip ml (fs_tab s) of
          None \<Rightarrow> ret False
        | Some fstab \<Rightarrow>
            followed (change (\<lambda>s. s\<lparr>fs_tab := fstab\<rparr>))
              (unless_false (mount_loop env ml (Suc (length fstab)) 0)
                (followed (mount_overlays env)
                  (followed (add_root_entry ml)
                    (followed (all_true (map (scratch_init_devices env) (ml_scratch_requests ml)))
                      (followed (change (\<lambda>s. s\<lparr>fs_tab := ml_scratch ml (fs_tab s)\<rparr>))
                        (followed (attempt env MountOverlays) (ret True)))))))))"

definition fsm_DoFirstStageMount :: "early_env \<Rightarrow> mount_libs \<Rightarrow> bool fsm" where
  "fsm_DoFirstStageMount env ml =
     looking (\<lambda>s. if \<not> IsDmLinearEnabled s \<and> fs_tab s = [] then ret True else unless_false (MountPartitions env ml) (ret True))"

section \<open>Entry points\<close>

definition on_fsm :: "early_env \<Rightarrow> mount_libs \<Rightarrow> bool fsm \<Rightarrow> (early_state, bool) step" where
  "on_fsm env ml m =
     (case ReadFirstStageFstab ml of
        Inl _ \<Rightarrow> ret False
      | Inr fstab \<Rightarrow> (\<lambda>s. run_fsm (new_fsm env ml (IsDtVbmetaCompatible ml fstab) fstab s) m))"

definition DoCreateDevices :: "early_env \<Rightarrow> mount_libs \<Rightarrow> (early_state, bool) step" where
  "DoCreateDevices env ml = on_fsm env ml (fsm_DoCreateDevices env ml)"

definition DoFirstStageMount :: "early_env \<Rightarrow> mount_libs \<Rightarrow> bool \<Rightarrow> (early_state, bool) step" where
  "DoFirstStageMount env ml create_devices =
     looking (\<lambda>s. if IsRecoveryMode env s then ret True
       else on_fsm env ml
         (unless_false (if create_devices then fsm_DoCreateDevices env ml else ret True) (fsm_DoFirstStageMount env ml)))"

definition SetInitAvbVersionInRecovery :: "early_env \<Rightarrow> mount_libs \<Rightarrow> (early_state, unit) step" where
  "SetInitAvbVersionInRecovery env ml =
     looking (\<lambda>s. if \<not> IsRecoveryMode env s then ret ()
       else (case ReadFirstStageFstab ml of
               Inl _ \<Rightarrow> ret ()
             | Inr fstab \<Rightarrow>
                 if \<not> IsDtVbmetaCompatible ml fstab then ret ()
                 else ebind (\<lambda>s. run_fsm (new_fsm env ml True fstab s) (InitDevices env ml)) (\<lambda>ok.
                   if \<not> ok then ret ()
                   else (case ml_avb_open ml of None \<Rightarrow> ret () | Some h \<Rightarrow> set_environ ''INIT_AVB_VERSION'' (av_version h)))))"

end
