(* ===== verification/First_Stage_Safety.thy ===== *)
theory First_Stage_Safety
  imports First_Stage_Mount
begin

text \<open>
  Verified boot: what has happened before a partition is mounted. The two guarantees are conditions
  on single calls, by what was called before them.
\<close>

section \<open>Guards\<close>

definition guarded :: "((early_call \<times> bool) list \<Rightarrow> early_call \<Rightarrow> bool) \<Rightarrow> (early_call \<times> bool) list \<Rightarrow> bool" where
  "guarded G tr = (\<forall>pre c ok post. tr = pre @ (c, ok) # post \<longrightarrow> G pre c)"

lemma guarded_Nil: "guarded G []"
  by (simp add: guarded_def)

lemma guarded_snoc: "guarded G (tr @ [(c, b)]) \<longleftrightarrow> guarded G tr \<and> G tr c"
proof
  assume a: "guarded G (tr @ [(c, b)])"
  have "G pre c'" if "tr = pre @ (c', ok') # post" for pre c' ok' post
    using a that unfolding guarded_def by (metis append.assoc append_Cons)
  then show "guarded G tr \<and> G tr c" using a by (auto simp: guarded_def)
next
  assume a: "guarded G tr \<and> G tr c"
  show "guarded G (tr @ [(c, b)])"
    unfolding guarded_def
  proof (intro allI impI)
    fix pre c' ok' post
    assume t: "tr @ [(c, b)] = pre @ (c', ok') # post"
    show "G pre c'"
    proof (cases post rule: rev_cases)
      case Nil
      then show ?thesis using a t by simp
    next
      case (snoc post' x)
      then have "tr = pre @ (c', ok') # post'" using t by (metis append.assoc append_Cons butlast_snoc)
      then show ?thesis using a by (auto simp: guarded_def)
    qed
  qed
qed

lemma guarded_snoc_two: "guarded G (tr @ [(c, b), (d, b')]) \<longleftrightarrow> guarded G tr \<and> G tr c \<and> G (tr @ [(c, b)]) d"
  using guarded_snoc [of G "tr @ [(c, b)]" d b'] guarded_snoc [of G tr c b] by simp

lemma guarded_append: "guarded G tr \<Longrightarrow> (\<And>tr c b. (c, b) \<in> set cs \<Longrightarrow> G tr c) \<Longrightarrow> guarded G (tr @ cs)"
proof (induction cs rule: rev_induct)
  case (snoc x cs)
  obtain c b where x: "x = (c, b)" by fastforce
  have "guarded G (tr @ cs)" by (rule snoc.IH [OF snoc.prems(1)]) (auto intro: snoc.prems(2))
  moreover have "G (tr @ cs) c" by (rule snoc.prems(2) [of c b]) (simp add: x)
  ultimately show ?case using guarded_snoc [of G "tr @ cs" c b] x by simp
qed simp

text \<open>
  Whether an entry asks for verification, and what shows that it has it: a tree or a verity device
  for its mount point that the entry now names, or the statement of the device's metadata that
  verification is off.
\<close>

definition needed :: "bool \<Rightarrow> FstabEntry \<Rightarrow> bool" where
  "needed v2 e = (if v2 then fe_avb e \<or> fe_avb_keys e \<noteq> [] else fe_verify e)"

fun evidence :: "bool \<Rightarrow> FstabEntry \<Rightarrow> early_call \<Rightarrow> bool" where
  "evidence v2 e (HashtreeSetUp mp sa res blk) =
     (v2 \<and> mp = fe_mount_point e \<and> (res = HT_Disabled \<or> res = HT_Success \<and> blk = fe_blk_device e))"
| "evidence v2 e (OpenedAvb st) = (v2 \<and> (st = AH_HashtreeDisabled \<or> st = AH_VerificationDisabled))"
| "evidence v2 e (VeritySetUp mp res blk) =
     (\<not> v2 \<and> mp = fe_mount_point e \<and>
      (res = VERITY_SKIPPED \<or> res = VERITY_DISABLED \<or> res = VERITY_SUCCESS \<and> blk = fe_blk_device e))"
| "evidence v2 e _ = False"

definition verified :: "bool \<Rightarrow> (early_call \<times> bool) list \<Rightarrow> FstabEntry \<Rightarrow> bool" where
  "verified v2 tr e = list_ex (\<lambda>c. evidence v2 e (fst c)) tr"

text \<open>An image with its own metadata is at least as new as the one that is built in, or the device is unlocked.\<close>

definition fresh_image :: "mount_libs \<Rightarrow> string \<Rightarrow> bool" where
  "fresh_image ml mp =
     (ml_unlocked ml \<or>
      (\<exists>e keys builtin standalone. fe_mount_point e = mp \<and> ml_avb_open ml = Some builtin \<and> ml_standalone ml e keys = Some standalone \<and>
         av_spl builtin e \<noteq> [] \<and> av_spl builtin e \<le> av_spl standalone e))"

fun allowed :: "mount_libs \<Rightarrow> bool \<Rightarrow> (early_call \<times> bool) list \<Rightarrow> early_call \<Rightarrow> bool" where
  "allowed ml v2 tr (MountOne e) = (needed v2 e \<longrightarrow> verified v2 tr e)"
| "allowed ml v2 tr (HashtreeSetUp mp sa res blk) = (sa \<longrightarrow> fresh_image ml mp)"
| "allowed ml v2 tr _ = True"

lemma plain_allowed: "plain_call c \<Longrightarrow> allowed ml v2 tr c"
  by (cases c) auto

lemma verified_mono: "verified v2 tr e \<Longrightarrow> verified v2 (tr @ cs) e"
  by (simp add: verified_def)

lemma evidence_cong:
  "fe_mount_point e = fe_mount_point e' \<Longrightarrow> fe_blk_device e = fe_blk_device e' \<Longrightarrow> evidence v2 e c = evidence v2 e' c"
  by (cases c) auto

lemma verified_cong:
  "fe_mount_point e = fe_mount_point e' \<Longrightarrow> fe_blk_device e = fe_blk_device e' \<Longrightarrow> verified v2 tr e = verified v2 tr e'"
  using evidence_cong [of e e' v2] by (simp add: verified_def)

text \<open>Entries for the same mount point agree on whether they ask for verification.\<close>

definition uniform :: "bool \<Rightarrow> FstabEntry list \<Rightarrow> bool" where
  "uniform v2 tab = (\<forall>e\<in>set tab. \<forall>c\<in>set tab. fe_mount_point e = fe_mount_point c \<longrightarrow> needed v2 e = needed v2 c)"

definition similar :: "bool \<Rightarrow> FstabEntry list \<Rightarrow> FstabEntry list \<Rightarrow> bool" where
  "similar v2 tab tab' =
     (\<forall>e'\<in>set tab'. \<exists>e\<in>set tab. fe_mount_point e' = fe_mount_point e \<and> needed v2 e' = needed v2 e)"

lemma uniform_similar: "uniform v2 tab \<Longrightarrow> similar v2 tab tab' \<Longrightarrow> uniform v2 tab'"
  unfolding uniform_def similar_def by metis

lemma similar_subset: "set tab' \<subseteq> set tab \<Longrightarrow> similar v2 tab tab'"
  by (auto simp: similar_def)

lemma needed_blk: "needed v2 (e\<lparr>fe_blk_device := blk\<rparr>) = needed v2 e"
  by (simp add: needed_def)

lemma similar_update: "i < length tab \<Longrightarrow> similar v2 tab (tab[i := (tab ! i)\<lparr>fe_blk_device := blk\<rparr>])"
  by (auto simp: similar_def needed_blk dest!: set_update_subset_insert [THEN subsetD])

section \<open>The invariant\<close>

definition fsm_inv :: "mount_libs \<Rightarrow> bool \<Rightarrow> fsm_state \<Rightarrow> bool" where
  "fsm_inv ml v2 s =
     (vboot2 s = v2 \<and> guarded (allowed ml v2) (es_trace s) \<and> uniform v2 (fs_tab s) \<and>
      (case fs_avb_handle s of
         None \<Rightarrow> True
       | Some h \<Rightarrow> ml_avb_open ml = Some h \<and> (OpenedAvb (av_status h), True) \<in> set (es_trace s)))"

definition fsm_keeps :: "mount_libs \<Rightarrow> bool \<Rightarrow> 'a fsm \<Rightarrow> bool" where
  "fsm_keeps ml v2 m = (\<forall>s. fsm_inv ml v2 s \<longrightarrow> fsm_inv ml v2 (snd (m s)))"

named_theorems kept

lemma more_fields:
  assumes "early_state.more s = early_state.more (s' :: fsm_state)"
  shows "vboot2 s = vboot2 s'" "fs_tab s = fs_tab s'" "fs_avb_handle s = fs_avb_handle s'"
  using assms by (cases s; cases s'; simp)+

lemma plain_run:
  assumes "plain_step m" "m s = (r, s')" "fsm_inv ml v2 s"
  shows "fsm_inv ml v2 s' \<and> fs_tab s' = fs_tab s \<and> (\<forall>e. verified v2 (es_trace s) e \<longrightarrow> verified v2 (es_trace s') e)"
proof -
  obtain cs where cs: "es_trace s' = es_trace s @ cs" "list_all (plain_call \<circ> fst) cs" "early_state.more s' = early_state.more s"
    using assms(1) [unfolded plain_step_def, rule_format, of s] assms(2) by auto
  have "guarded (allowed ml v2) (es_trace s @ cs)"
    using assms(3) cs(2) by (intro guarded_append) (auto simp: fsm_inv_def list_all_iff intro!: plain_allowed)
  then show ?thesis using assms(3) more_fields [OF cs(3)] cs(1) by (auto simp: fsm_inv_def verified_mono split: option.splits)
qed

lemma kept_plain: "plain_step m \<Longrightarrow> fsm_keeps ml v2 m"
  using plain_run unfolding fsm_keeps_def by (metis prod.collapse)

lemma kept_ebind [kept]: "fsm_keeps ml v2 m \<Longrightarrow> (\<And>a. fsm_keeps ml v2 (f a)) \<Longrightarrow> fsm_keeps ml v2 (ebind m f)"
  unfolding fsm_keeps_def ebind_def by (auto split: prod.split option.split)

lemma kept_ret [kept]: "fsm_keeps ml v2 (ret a)"
  by (simp add: fsm_keeps_def ret_def)

lemma kept_followed [kept]: "fsm_keeps ml v2 m \<Longrightarrow> fsm_keeps ml v2 k \<Longrightarrow> fsm_keeps ml v2 (followed m k)"
  by (simp add: followed_def kept)

lemma kept_unless [kept]: "fsm_keeps ml v2 m \<Longrightarrow> fsm_keeps ml v2 k \<Longrightarrow> fsm_keeps ml v2 (unless_false m k)"
  by (simp add: unless_false_def kept)

lemma kept_looking [kept]: "(\<And>s. fsm_keeps ml v2 (f s)) \<Longrightarrow> fsm_keeps ml v2 (looking f)"
  by (simp add: fsm_keeps_def looking_def)

lemma kept_all [kept]: "(\<And>m. m \<in> set ms \<Longrightarrow> fsm_keeps ml v2 m) \<Longrightarrow> fsm_keeps ml v2 (all_true ms)"
  by (induction ms) (auto intro: kept)

lemma kept_change: "(\<And>s. fsm_inv ml v2 s \<Longrightarrow> fsm_inv ml v2 (f s)) \<Longrightarrow> fsm_keeps ml v2 (change f)"
  by (simp add: fsm_keeps_def change_def)

lemma kept_fields [kept]:
  "fsm_keeps ml v2 (change (\<lambda>s. s\<lparr>need_dm_verity := b s\<rparr>))" "fsm_keeps ml v2 (change (\<lambda>s. s\<lparr>super_path := p s\<rparr>))"
  "fsm_keeps ml v2 (change (\<lambda>s. s\<lparr>use_snapuserd := b s\<rparr>))" "fsm_keeps ml v2 (change (\<lambda>s. s\<lparr>dsu_not_on_userdata := b s\<rparr>))"
  by (rule kept_change; simp add: fsm_inv_def split: option.splits)+

section \<open>Devices and verification\<close>

lemma plain_required [plain]: "plain_step (InitRequiredDevices env devices)"
  by (auto simp: InitRequiredDevices_def intro!: plain)

lemma plain_requests [plain]: "plain_step (regen_callback env device)" "plain_step (CopyDsuAvbKeys env ml)"
  by (auto simp: regen_callback_def CopyDsuAvbKeys_def intro!: plain)

lemma kept_devices [kept]:
  "fsm_keeps ml v2 (InitDevices env ml)" "fsm_keeps ml v2 (CreateLogicalPartitions env ml)"
  by (auto simp: InitDevices_def GetDmVerityDevices1_def GetDmVerityDevices2_def CreateLogicalPartitions_def CreateSnapshotPartitions_def
      InitDmLinearBackingDevices_def Let_def intro!: kept kept_plain [OF plain_required] kept_plain [OF plain_requests(1)]
      kept_plain [OF plain_snapuserd(1)] kept_plain [OF plain_snapuserd(4)] split: option.split)

text \<open>
  A step that verifies an entry: it keeps the invariant and the table, the entry it returns differs
  in its device only, and when it reports success the entry is verified or need not be.
\<close>

definition verified_end :: "mount_libs \<Rightarrow> bool \<Rightarrow> FstabEntry \<Rightarrow> fsm_state \<Rightarrow> (bool \<times> FstabEntry) option \<times> fsm_state \<Rightarrow> bool" where
  "verified_end ml v2 e s r =
     (fsm_inv ml v2 (snd r) \<and> fs_tab (snd r) = fs_tab s \<and>
      (case fst r of
         None \<Rightarrow> True
       | Some (b, e') \<Rightarrow> (\<exists>blk. e' = e\<lparr>fe_blk_device := blk\<rparr>) \<and> (b \<longrightarrow> needed v2 e \<longrightarrow> verified v2 (es_trace (snd r)) e')))"

definition verifies :: "mount_libs \<Rightarrow> bool \<Rightarrow> FstabEntry \<Rightarrow> (bool \<times> FstabEntry) fsm \<Rightarrow> bool" where
  "verifies ml v2 e m = (\<forall>s. fsm_inv ml v2 s \<longrightarrow> verified_end ml v2 e s (m s))"

lemma verifies_False: "verifies ml v2 e (ret (False, e))"
  by (auto simp: verifies_def verified_end_def ret_def intro: exI [of _ "fe_blk_device e"])

lemma verifies_unneeded: "\<not> needed v2 e \<Longrightarrow> verifies ml v2 e (ret (True, e))"
  by (auto simp: verifies_def verified_end_def ret_def intro: exI [of _ "fe_blk_device e"])

text \<open>The last two steps of both versions: the result is recorded, and the node of the device is made when there is one.\<close>

definition conclude :: "early_env \<Rightarrow> early_call \<Rightarrow> FstabEntry \<Rightarrow> string \<Rightarrow> bool option \<Rightarrow> (bool \<times> FstabEntry) fsm" where
  "conclude env c e blk outcome =
     followed (record_call c)
       (case outcome of
          Some b \<Rightarrow> ret (b, e\<lparr>fe_blk_device := blk\<rparr>)
        | None \<Rightarrow> ebind (on_devices (InitDmDevice (eb_block env) blk)) (\<lambda>b. ret (b, e\<lparr>fe_blk_device := blk\<rparr>)))"

lemma recorded_inv:
  assumes "fsm_inv ml v2 s" "allowed ml v2 (es_trace s) c"
  shows "fsm_inv ml v2 (snd (record_call c s)) \<and> fs_tab (snd (record_call c s)) = fs_tab s \<and>
    (evidence v2 e c \<longrightarrow> verified v2 (es_trace (snd (record_call c s))) e)"
  using assms by (auto simp: record_call_def fsm_inv_def guarded_snoc verified_def split: option.splits)

lemma verifies_conclude:
  assumes "\<And>tr. allowed ml v2 tr c" "outcome \<noteq> Some False \<Longrightarrow> evidence v2 (e\<lparr>fe_blk_device := blk\<rparr>) c"
  shows "verifies ml v2 e (conclude env c e blk outcome)"
  unfolding verifies_def
proof (intro allI impI)
  fix s
  assume i: "fsm_inv ml v2 s"
  let ?e = "e\<lparr>fe_blk_device := blk\<rparr>"
  define s1 where "s1 = snd (record_call c s)"
  have f1: "record_call c s = (Some (), s1)" by (simp add: s1_def record_call_def)
  have s1: "fsm_inv ml v2 s1" "fs_tab s1 = fs_tab s" "outcome \<noteq> Some False \<Longrightarrow> verified v2 (es_trace s1) ?e"
    using recorded_inv [OF i assms(1), of ?e] assms(2) by (auto simp: s1_def)
  show "verified_end ml v2 e s (conclude env c e blk outcome s)"
  proof (cases outcome)
    case (Some b)
    then show ?thesis using f1 s1 by (auto simp: verified_end_def conclude_def followed_def ebind_def ret_def)
  next
    case None
    obtain found s2 where d: "on_devices (InitDmDevice (eb_block env) blk) s1 = (found, s2)" by fastforce
    from plain_run [OF plain_devices d s1(1)] None show ?thesis
      using f1 d s1 by (cases found) (auto simp: verified_end_def conclude_def followed_def ebind_def ret_def)
  qed
qed

lemma verifies_bind:
  assumes "\<And>s. fsm_inv ml v2 s \<Longrightarrow> fsm_inv ml v2 (snd (m s)) \<and> fs_tab (snd (m s)) = fs_tab s"
    and "\<And>a s. fsm_inv ml v2 s \<Longrightarrow> fst (m s) = Some a \<Longrightarrow> verified_end ml v2 e (snd (m s)) (f a (snd (m s)))"
  shows "verifies ml v2 e (ebind m f)"
  unfolding verifies_def
proof (intro allI impI)
  fix s
  assume i: "fsm_inv ml v2 s"
  obtain a s1 where m: "m s = (a, s1)" by fastforce
  show "verified_end ml v2 e s (ebind m f s)"
  proof (cases a)
    case None
    then show ?thesis using m assms(1) [OF i] by (simp add: verified_end_def ebind_def)
  next
    case (Some x)
    then show ?thesis using m assms(1) [OF i] assms(2) [OF i, of x] by (simp add: verified_end_def ebind_def)
  qed
qed

lemma verifies_SetUp1: "verifies ml False e (SetUpDmVerity1 env ml e)"
proof (cases "fe_verify e")
  case True
  obtain res blk where r: "ml_setup_verity ml e = (res, blk)" by fastforce
  have "SetUpDmVerity1 env ml e =
      conclude env (VeritySetUp (fe_mount_point e) res blk) e blk
        (case res of VERITY_SUCCESS \<Rightarrow> None | VERITY_FAIL \<Rightarrow> Some False | _ \<Rightarrow> Some True)"
    using True r by (simp add: SetUpDmVerity1_def conclude_def Let_def split: verity_result.split)
  then show ?thesis by (auto intro: verifies_conclude split: verity_result.split)
qed (simp add: SetUpDmVerity1_def verifies_unneeded needed_def)

lemma verifies_hashtree:
  assumes "standalone \<Longrightarrow> fresh_image ml (fe_mount_point e)"
  shows "verifies ml True e (hashtree_step env standalone h e)"
proof -
  obtain res blk where r: "av_hashtree h e = (res, blk)" by fastforce
  have "hashtree_step env standalone h e =
      conclude env (HashtreeSetUp (fe_mount_point e) standalone res blk) e blk
        (case res of HT_Success \<Rightarrow> None | HT_Fail \<Rightarrow> Some False | HT_Disabled \<Rightarrow> Some True)"
    using r by (simp add: hashtree_step_def conclude_def Let_def split: AvbHashtreeResult.split)
  then show ?thesis using assms by (auto intro: verifies_conclude split: AvbHashtreeResult.split)
qed

lemma InitAvbHandle_inv:
  assumes "fsm_inv ml v2 s"
  shows "fsm_inv ml v2 (snd (InitAvbHandle ml s)) \<and> fs_tab (snd (InitAvbHandle ml s)) = fs_tab s \<and>
    (\<forall>h. fst (InitAvbHandle ml s) = Some (Some h) \<longrightarrow> fs_avb_handle (snd (InitAvbHandle ml s)) = Some h)"
  using assms
  by (auto simp: InitAvbHandle_def looking_def ret_def followed_def ebind_def record_call_def change_def set_environ_def fsm_inv_def guarded_snoc_two
      split: option.splits)

lemma verifies_with_handle:
  assumes "\<And>s h. fsm_inv ml v2 s \<Longrightarrow> fs_avb_handle s = Some h \<Longrightarrow> verified_end ml v2 e s (k h s)"
  shows "verifies ml v2 e (with_handle ml e k)"
  unfolding with_handle_def
  by (rule verifies_bind)
     (use InitAvbHandle_inv assms verifies_False [unfolded verifies_def] in \<open>auto split: option.split\<close>)

lemma fresh_if_no_rollback:
  assumes "\<not> IsStandaloneImageRollback ml builtin standalone e" "ml_avb_open ml = Some builtin" "ml_standalone ml e keys = Some standalone"
  shows "fresh_image ml (fe_mount_point e)"
  using assms unfolding fresh_image_def IsStandaloneImageRollback_def Let_def by (metis not_less)

lemma verifies_SetUp2: "verifies ml True e (SetUpDmVerity2 env ml e)"
proof -
  have "verified_end ml True e s (hashtree_step env sa h e s)" if "fsm_inv ml True s" "sa \<Longrightarrow> fresh_image ml (fe_mount_point e)" for s sa h
    using verifies_hashtree [of sa ml e env h] that by (simp add: verifies_def)
  note tree = this
  have off: "verified_end ml True e s (ret (True, e) s)"
    if "fsm_inv ml True s" "fs_avb_handle s = Some h" "av_status h = AH_HashtreeDisabled \<or> av_status h = AH_VerificationDisabled" for s h
  proof -
    have "(OpenedAvb (av_status h), True) \<in> set (es_trace s)" using that(1,2) by (simp add: fsm_inv_def)
    moreover have "evidence True e (OpenedAvb (av_status h))" using that(3) by simp
    ultimately have "verified True (es_trace s) e" unfolding verified_def list_ex_iff by (metis fst_conv)
    then show ?thesis using that(1) by (auto simp: verified_end_def ret_def intro: exI [of _ "fe_blk_device e"])
  qed
  have refused: "verified_end ml True e s (ret (False, e) s)" if "fsm_inv ml True s" for s
    using verifies_False that by (simp add: verifies_def)
  have builtin: "ml_avb_open ml = Some h" if "fsm_inv ml True s" "fs_avb_handle s = Some h" for s h
    using that by (simp add: fsm_inv_def)
  show ?thesis
  proof (cases "fe_avb_keys e = []")
    case True
    then show ?thesis
      by (cases "fe_avb e") (auto simp: SetUpDmVerity2_def needed_def intro!: verifies_with_handle verifies_unneeded tree)
  next
    case False
    then show ?thesis
      by (auto simp: SetUpDmVerity2_def looking_def intro!: verifies_with_handle off refused tree fresh_if_no_rollback builtin
          split: option.split)
  qed
qed

lemma verifies_SetUp: "verifies ml v2 e (SetUpDmVerity env ml e)"
  using verifies_SetUp1 [of ml e env] verifies_SetUp2 [of ml e env]
  by (cases v2) (auto simp: verifies_def SetUpDmVerity_def looking_def fsm_inv_def)

section \<open>Mounting\<close>

definition renamed :: "FstabEntry \<Rightarrow> FstabEntry \<Rightarrow> bool" where
  "renamed e e' = (\<exists>blk. e' = e\<lparr>fe_blk_device := blk\<rparr>)"

lemma renamed_refl: "renamed e e"
  by (auto simp: renamed_def intro: exI [of _ "fe_blk_device e"])

lemma renamed_blk: "renamed e (e\<lparr>fe_blk_device := blk\<rparr>)"
  by (auto simp: renamed_def)

lemma mount_one_inv:
  assumes "fsm_inv ml v2 s" "needed v2 e \<longrightarrow> verified v2 (es_trace s) e" "early_do env (MountOne e) s = (r, s')"
  shows "fsm_inv ml v2 s' \<and> fs_tab s' = fs_tab s \<and> (\<forall>e. verified v2 (es_trace s) e \<longrightarrow> verified v2 (es_trace s') e)"
  using assms by (auto simp: early_do_def Let_def fsm_inv_def guarded_snoc verified_mono split: option.splits)

lemma mount_same_inv:
  "fsm_inv ml v2 s \<Longrightarrow> needed v2 e \<longrightarrow> verified v2 (es_trace s) e \<Longrightarrow>
   \<forall>c\<in>set cs. fe_mount_point c = fe_mount_point e \<longrightarrow> needed v2 c = needed v2 e \<Longrightarrow> mount_same env e mounted cs s = (r, s') \<Longrightarrow>
   fsm_inv ml v2 s' \<and> fs_tab s' = fs_tab s \<and>
   (case r of None \<Rightarrow> True | Some (m, same, rest) \<Rightarrow> list_all2 renamed cs (same @ rest))"
proof (induction env e mounted cs arbitrary: s r s' rule: mount_same.induct)
  case (1 env e mounted)
  then show ?case by (auto simp: ret_def)
next
  case (2 env e mounted c cs)
  show ?case
  proof (cases "fe_mount_point c = fe_mount_point e")
    case False
    then show ?thesis using "2.prems" by (auto simp: ret_def list_all2_refl renamed_refl)
  next
    case same: True
    show ?thesis
    proof (cases mounted)
      case True
      obtain r1 s1 where m: "mount_same env e True cs s = (r1, s1)" by fastforce
      have "fsm_inv ml v2 s1 \<and> fs_tab s1 = fs_tab s \<and> (case r1 of None \<Rightarrow> True | Some (m, same, rest) \<Rightarrow> list_all2 renamed cs (same @ rest))"
        using "2.IH"(1) [OF _ True _ _ _ m] same "2.prems" by simp
      then show ?thesis using "2.prems"(4) same True m
        by (cases r1) (auto simp: ebind_def ret_def renamed_refl)
    next
      case False
      let ?c = "c\<lparr>fe_blk_device := fe_blk_device e\<rparr>"
      obtain b s1 where d: "early_do env (MountOne ?c) s = (Some b, s1)" by (simp add: early_do_def Let_def)
      have "needed v2 ?c \<longrightarrow> verified v2 (es_trace s) ?c"
        using "2.prems"(2,3) same verified_cong [of ?c e] by (simp add: needed_blk)
      note s1 = mount_one_inv [OF "2.prems"(1) this d]
      obtain r1 s2 where m: "mount_same env e b cs s1 = (r1, s2)" by fastforce
      have "fsm_inv ml v2 s2 \<and> fs_tab s2 = fs_tab s1 \<and> (case r1 of None \<Rightarrow> True | Some (m, same, rest) \<Rightarrow> list_all2 renamed cs (same @ rest))"
        using "2.IH"(2) [OF _ False refl _ _ _ m] same "2.prems" s1 by simp
      then show ?thesis using "2.prems"(4) same False m d s1
        by (cases r1) (auto simp: ebind_def ret_def Let_def renamed_blk)
    qed
  qed
qed

lemma renamed_similar:
  assumes "list_all2 renamed cs cs'" "set cs \<subseteq> set tab"
  shows "similar v2 tab cs'"
  unfolding similar_def
proof
  fix e' assume "e' \<in> set cs'"
  then obtain j where "j < length cs'" "e' = cs' ! j" by (auto simp: in_set_conv_nth)
  then have "cs ! j \<in> set cs" "renamed (cs ! j) e'" using assms(1) by (auto simp: list_all2_conv_all_nth)
  then show "\<exists>e\<in>set tab. fe_mount_point e' = fe_mount_point e \<and> needed v2 e' = needed v2 e"
    using assms(2) by (auto simp: renamed_def needed_blk)
qed

text \<open>What mounting one group of entries does to the state.\<close>

definition mounts_at :: "mount_libs \<Rightarrow> bool \<Rightarrow> bool \<Rightarrow> nat \<Rightarrow> fsm_state \<Rightarrow> (bool \<times> nat) option \<times> fsm_state \<Rightarrow> bool" where
  "mounts_at ml v2 erase i s r =
     (fsm_inv ml v2 (snd r) \<and> (\<not> erase \<longrightarrow> length (fs_tab (snd r)) = length (fs_tab s)) \<and>
      (case fst r of None \<Rightarrow> True | Some (b, next) \<Rightarrow> \<not> erase \<longrightarrow> i < next))"

lemma mount_group_inv:
  assumes inv: "fsm_inv ml v2 s" and i: "i < length (fs_tab s)"
    and ok: "needed v2 (fs_tab s ! i) \<longrightarrow> verified v2 (es_trace s) (fs_tab s ! i)"
  shows "mounts_at ml v2 erase i s (mount_group env erase i s)"
proof -
  let ?e = "fs_tab s ! i" and ?cs = "drop (i + 1) (fs_tab s)"
  obtain b s1 where d: "early_do env (MountOne ?e) s = (Some b, s1)" by (simp add: early_do_def Let_def)
  note s1 = mount_one_inv [OF inv ok d]
  obtain r s2 where m: "mount_same env ?e b ?cs s1 = (r, s2)" by fastforce
  have "needed v2 ?e \<longrightarrow> verified v2 (es_trace s1) ?e" using s1 ok by blast
  moreover have "\<forall>c\<in>set ?cs. fe_mount_point c = fe_mount_point ?e \<longrightarrow> needed v2 c = needed v2 ?e"
    using inv i in_set_dropD [of _ "i + 1" "fs_tab s"] unfolding fsm_inv_def uniform_def by (metis nth_mem)
  ultimately have s2: "fsm_inv ml v2 s2" "fs_tab s2 = fs_tab s"
      "case r of None \<Rightarrow> True | Some (m, same, rest) \<Rightarrow> list_all2 renamed ?cs (same @ rest)"
    using mount_same_inv [OF _ _ _ m, of ml v2] s1 by auto
  show ?thesis
  proof (cases r)
    case None
    then show ?thesis using d m s1 s2 by (simp add: mounts_at_def mount_group_def looking_def ebind_def Let_def)
  next
    case (Some x)
    obtain mounted same rest where x: "x = (mounted, same, rest)" by (cases x)
    let ?tab = "take i (fs_tab s) @ (if erase then [] else ?e # same) @ rest"
    have l: "list_all2 renamed ?cs (same @ rest)" using s2(3) Some x by simp
    have "similar v2 (fs_tab s) (same @ rest)" using l set_drop_subset by (rule renamed_similar)
    then have "similar v2 (fs_tab s) ?tab" using i by (auto simp: similar_def dest: in_set_takeD)
    then have u: "uniform v2 ?tab" using inv uniform_similar by (auto simp: fsm_inv_def)
    have "length (same @ rest) = length ?cs" using list_all2_lengthD [OF l] by simp
    then have "\<not> erase \<longrightarrow> length ?tab = length (fs_tab s)" using i by auto
    moreover have "mount_group env erase i s =
        (Some (mounted, if erase then i else i + 1 + length same), s2\<lparr>fs_tab := ?tab\<rparr>)"
      using d m Some x s2(2) by (simp add: mount_group_def looking_def ebind_def Let_def followed_def change_def ret_def)
    ultimately show ?thesis using s2(1) u by (auto simp: mounts_at_def fsm_inv_def split: option.splits)
  qed
qed

lemma set_entry_inv:
  assumes "fsm_inv ml v2 s" "i < length (fs_tab s)" "renamed (fs_tab s ! i) e"
  shows "fsm_inv ml v2 (s\<lparr>fs_tab := (fs_tab s)[i := e]\<rparr>)"
proof -
  have "uniform v2 ((fs_tab s)[i := e])"
    using assms uniform_similar similar_update by (auto simp: fsm_inv_def renamed_def)
  then show ?thesis using assms(1) by (auto simp: fsm_inv_def split: option.splits)
qed

lemma locate_logical_inv:
  assumes "fsm_inv ml v2 s" "i < length (fs_tab s)" "locate_logical env ml i s = (r, s')"
  shows "fsm_inv ml v2 s' \<and> length (fs_tab s') = length (fs_tab s)"
proof (cases "fe_logical (fs_tab s ! i) \<and> ml_update_logical ml (fs_tab s ! i) \<noteq> None")
  case True
  then obtain blk where blk: "ml_update_logical ml (fs_tab s ! i) = Some blk" by blast
  let ?s = "s\<lparr>fs_tab := (fs_tab s)[i := (fs_tab s ! i)\<lparr>fe_blk_device := blk\<rparr>]\<rparr>"
  have "fsm_inv ml v2 ?s" using assms(1,2) renamed_blk by (rule set_entry_inv)
  moreover have "on_devices (InitDmDevice (eb_block env) blk) ?s = (r, s')"
    using assms(3) True blk by (simp add: locate_logical_def looking_def Let_def followed_def ebind_def set_entry_def change_def)
  ultimately show ?thesis using plain_run [OF plain_devices] by fastforce
next
  case False
  then show ?thesis using assms by (auto simp: locate_logical_def looking_def Let_def ret_def split: if_splits option.splits)
qed

lemma MountPartition_inv:
  assumes inv: "fsm_inv ml v2 s" and i: "i < length (fs_tab s)"
  shows "mounts_at ml v2 erase i s (MountPartition env ml erase i s)"
proof (cases "ml_mount_point_ok ml (fe_mount_point (fs_tab s ! i))")
  case True
  obtain located s1 where l: "locate_logical env ml i s = (located, s1)" by fastforce
  note s1 = locate_logical_inv [OF inv i l]
  let ?e = "fs_tab s1 ! i"
  obtain r s2 where v: "SetUpDmVerity env ml ?e s1 = (r, s2)" by fastforce
  have ve: "verified_end ml v2 ?e s1 (r, s2)" using verifies_SetUp [of ml v2 ?e env] s1 v by (metis verifies_def)
  show ?thesis
  proof (cases "located = Some True \<and> r \<noteq> None")
    case True
    then obtain b e where r: "r = Some (b, e)" by auto
    let ?s = "s2\<lparr>fs_tab := (fs_tab s2)[i := e]\<rparr>"
    have e: "fsm_inv ml v2 s2" "fs_tab s2 = fs_tab s1" "renamed ?e e" "b \<longrightarrow> needed v2 ?e \<longrightarrow> verified v2 (es_trace s2) e"
      using ve r by (auto simp: verified_end_def renamed_def)
    have inv': "fsm_inv ml v2 ?s" using e s1 i by (intro set_entry_inv) auto
    have "needed v2 e = needed v2 ?e" using e(3) by (auto simp: renamed_def needed_blk)
    then have "b \<longrightarrow> mounts_at ml v2 erase i ?s (mount_group env erase i ?s)"
      using mount_group_inv [OF inv', of i erase env] e(2,4) s1 i by simp
    moreover have "MountPartition env ml erase i s = (if \<not> b then (Some (False, i + 1), ?s) else mount_group env erase i ?s)"
      using True \<open>ml_mount_point_ok ml _\<close> l v r
      by (simp add: MountPartition_def looking_def ebind_def followed_def set_entry_def change_def ret_def)
    ultimately show ?thesis using inv' e(2) s1 by (auto simp: mounts_at_def)
  next
    case False
    then show ?thesis using \<open>ml_mount_point_ok ml _\<close> l v s1 ve
      by (auto simp: MountPartition_def looking_def ebind_def ret_def mounts_at_def verified_end_def split: option.splits)
  qed
qed (use inv in \<open>simp add: MountPartition_def looking_def ret_def mounts_at_def\<close>)

lemma first_index_less: "first_index P xs = Some i \<Longrightarrow> i < length xs"
  by (auto simp: first_index_def find_Some_iff)

lemma kept_at_index:
  assumes "\<And>b n. fsm_keeps ml v2 (k (b, n))" "first_index P (fs_tab s) = Some i" "fsm_inv ml v2 s"
  shows "fsm_inv ml v2 (snd (ebind (MountPartition env ml erase i) k s))"
proof -
  obtain r s1 where m: "MountPartition env ml erase i s = (r, s1)" by fastforce
  then have "fsm_inv ml v2 s1" using MountPartition_inv [OF assms(3) first_index_less [OF assms(2)], of erase env] by (simp add: mounts_at_def)
  then show ?thesis using m assms(1) by (cases r) (auto simp: ebind_def fsm_keeps_def)
qed

lemma mount_loop_inv: "fsm_inv ml v2 s \<Longrightarrow> fsm_inv ml v2 (snd (mount_loop env ml fuel i s))"
proof (induction env ml fuel i arbitrary: s rule: mount_loop.induct)
  case (2 env ml fuel i)
  show ?case
  proof (cases "length (fs_tab s) \<le> i \<or> passed_over (fs_tab s ! i)")
    case True
    then show ?thesis using 2 by (auto simp: looking_def ret_def Let_def)
  next
    case False
    obtain r s1 where m: "MountPartition env ml False i s = (r, s1)" by fastforce
    then have "fsm_inv ml v2 s1" using MountPartition_inv [OF "2.prems", of i False env] False by (simp add: mounts_at_def)
    then show ?thesis using 2 False m by (cases r) (auto simp: looking_def ret_def Let_def ebind_def)
  qed
qed simp

text \<open>The fuel of the loop is enough: every turn moves on, and the table keeps its length.\<close>

lemma mount_loop_enough:
  "fsm_inv ml v2 s \<Longrightarrow> length (fs_tab s) - i < fuel \<Longrightarrow> mount_loop env ml (fuel + k) i s = mount_loop env ml fuel i s"
proof (induction fuel arbitrary: i s)
  case (Suc fuel)
  show ?case
  proof (cases "length (fs_tab s) \<le> i \<or> passed_over (fs_tab s ! i)")
    case True
    then show ?thesis using Suc by (auto simp: looking_def ret_def Let_def)
  next
    case False
    obtain r s1 where m: "MountPartition env ml False i s = (r, s1)" by fastforce
    then have a: "mounts_at ml v2 False i s (r, s1)" using MountPartition_inv [OF Suc.prems(1), of i False env] False by simp
    then have s1: "fsm_inv ml v2 s1" "length (fs_tab s1) = length (fs_tab s)" by (auto simp: mounts_at_def)
    show ?thesis
    proof (cases r)
      case (Some x)
      then obtain b n where x: "r = Some (b, n)" "i < n" using a by (auto simp: mounts_at_def)
      then have "length (fs_tab s1) - n < fuel" using Suc.prems(2) s1(2) False by auto
      then show ?thesis using Suc.IH [OF s1(1)] x m False
        by (simp add: looking_def Let_def ebind_def)
    qed (use m False in \<open>simp add: looking_def Let_def ebind_def\<close>)
  qed
qed simp

section \<open>The whole\<close>

lemma preload_fields:
  "vboot2 (fold (preload_entry env ml) es s) = vboot2 s \<and> fs_tab (fold (preload_entry env ml) es s) = fs_tab s \<and>
   es_trace (fold (preload_entry env ml) es s) = es_trace s \<and> fs_avb_handle (fold (preload_entry env ml) es s) = fs_avb_handle s"
  by (induction es arbitrary: s) (auto simp: preload_entry_def split: option.splits)

lemma kept_preload [kept]: "fsm_keeps ml v2 (PreloadAvbKeys env ml)"
  unfolding PreloadAvbKeys_def by (rule kept_change) (simp add: fsm_inv_def preload_fields split: option.splits)

text \<open>
  What is asked of the libraries: leaving out entries adds none, and the other transformations of
  the table keep the agreement of the entries of a mount point.
\<close>

definition libs_uniform :: "mount_libs \<Rightarrow> bool \<Rightarrow> bool" where
  "libs_uniform ml v2 \<longleftrightarrow>
     (\<forall>tab tab'. ml_skip ml tab = Some tab' \<longrightarrow> set tab' \<subseteq> set tab) \<and>
     (\<forall>tab dsu names. uniform v2 tab \<longrightarrow> uniform v2 (ml_transform ml tab dsu names)) \<and>
     (\<forall>tab. uniform v2 tab \<longrightarrow> uniform v2 (ml_scratch ml tab))"

lemma kept_tab:
  assumes "\<And>s. fsm_inv ml v2 s \<Longrightarrow> uniform v2 (f s)"
  shows "fsm_keeps ml v2 (change (\<lambda>s. s\<lparr>fs_tab := f s\<rparr>))"
  using assms by (intro kept_change) (auto simp: fsm_inv_def split: option.splits)

lemma kept_looking_at:
  assumes "\<And>s x. fsm_inv ml v2 s \<Longrightarrow> g s = Some x \<Longrightarrow> fsm_inv ml v2 (snd (k s x s))"
  shows "fsm_keeps ml v2 (looking (\<lambda>s. case g s of None \<Rightarrow> ret a | Some x \<Rightarrow> k s x))"
  unfolding fsm_keeps_def looking_def
proof (intro allI impI)
  fix s assume "fsm_inv ml v2 s"
  then show "fsm_inv ml v2 (snd ((case g s of None \<Rightarrow> ret a | Some x \<Rightarrow> k s x) s))"
    using assms [of s] by (cases "g s") (simp_all add: ret_def)
qed

lemma after_change: "fsm_keeps ml v2 m \<Longrightarrow> fsm_inv ml v2 (f s) \<Longrightarrow> fsm_inv ml v2 (snd (followed (change f) m s))"
  by (simp add: fsm_keeps_def followed_def ebind_def change_def)

lemma kept_dsu [kept]:
  assumes "libs_uniform ml v2"
  shows "fsm_keeps ml v2 (UseDsuIfPresent env ml)"
  using assms
  by (auto simp: UseDsuIfPresent_def dsu_init_devices_def libs_uniform_def fsm_inv_def
      intro!: kept kept_tab kept_plain [OF plain_required] kept_plain [OF plain_attempt] split: option.split)

lemma kept_metadata [kept]: "fsm_keeps ml v2 (fsm_DoCreateDevices env ml)"
proof -
  have "fsm_keeps ml v2 (looking (\<lambda>s. case first_index (\<lambda>e. fe_mount_point e = ''/metadata'') (fs_tab s) of
      None \<Rightarrow> ret () | Some i \<Rightarrow> ebind (MountPartition env ml True i) (\<lambda>(b, _). if b then CopyDsuAvbKeys env ml else ret ())))"
    by (rule kept_looking_at) (auto intro!: kept_at_index kept kept_plain [OF plain_requests(2)])
  then show ?thesis by (auto simp: fsm_DoCreateDevices_def intro!: kept)
qed

lemma kept_system [kept]:
  assumes "libs_uniform ml v2"
  shows "fsm_keeps ml v2 (TrySwitchSystemAsRoot env ml)"
proof -
  let ?k = "\<lambda>i (b, _). if \<not> b then ret False else looking (\<lambda>s.
      if dsu_not_on_userdata s \<and> ml_check_at_most_once ml (fs_tab s ! i) then ret False else followed (SwitchRoot env ''/system'') (ret True))"
  have k: "fsm_keeps ml v2 (?k i (b, n))" for i b n by (auto intro!: kept kept_plain [OF plain_root])
  have p: "plain_step (if use_snapuserd s then SaveRamdiskPathToSnapuserd env else ret ())" for s :: fsm_state by (simp add: plain)
  have "fsm_inv ml v2 (snd (followed (if use_snapuserd s then SaveRamdiskPathToSnapuserd env else ret ())
      (ebind (MountPartition env ml False i) (?k i)) s))"
    if "fsm_inv ml v2 s" "first_index P (fs_tab s) = Some i" for s P i
  proof -
    obtain r s1 where s1: "(if use_snapuserd s then SaveRamdiskPathToSnapuserd env else ret ()) s = (r, s1)" by fastforce
    note inv = plain_run [OF p s1 that(1)]
    then have "fsm_inv ml v2 (snd (ebind (MountPartition env ml False i) (?k i) s1))" using k that(2) by (intro kept_at_index) auto
    then show ?thesis using s1 inv by (cases r) (auto simp: followed_def ebind_def [of "if use_snapuserd s then _ else _"])
  qed
  then have "fsm_keeps ml v2 (looking (\<lambda>s. case first_index (\<lambda>e. fe_mount_point e = ''/system'') (fs_tab s) of
      None \<Rightarrow> ret True
    | Some i \<Rightarrow> followed (if use_snapuserd s then SaveRamdiskPathToSnapuserd env else ret ()) (ebind (MountPartition env ml False i) (?k i))))"
    by (rule kept_looking_at)
  then show ?thesis unfolding TrySwitchSystemAsRoot_def by (intro kept_followed kept_dsu kept_preload assms)
qed

lemma uniform_snoc: "uniform v2 tab \<Longrightarrow> (\<And>c. c \<in> set tab \<Longrightarrow> fe_mount_point c \<noteq> fe_mount_point e) \<Longrightarrow> uniform v2 (tab @ [e])"
  unfolding uniform_def by (metis Un_iff empty_iff insert_iff list.set set_append)

lemma kept_root_entry [kept]: "fsm_keeps ml v2 (add_root_entry ml)"
  unfolding fsm_keeps_def add_root_entry_def looking_def
proof (intro allI impI)
  fix s assume inv: "fsm_inv ml v2 s"
  have "uniform v2 (fs_tab s @ [e])"
    if "GetRootEntry ml = Some e" "\<not> list_ex (\<lambda>e. fe_mount_point e = ''/'') (fs_tab s)" for e
  proof -
    have "fe_mount_point e = ''/''" using that(1) by (auto simp: GetRootEntry_def find_Some_iff split: option.splits if_splits)
    then show ?thesis using inv that(2) by (intro uniform_snoc) (auto simp: fsm_inv_def list_ex_iff)
  qed
  then show "fsm_inv ml v2 (snd ((if list_ex (\<lambda>e. fe_mount_point e = ''/system'') (fs_tab s) \<or> list_ex (\<lambda>e. fe_mount_point e = ''/'') (fs_tab s)
      then ret () else case GetRootEntry ml of None \<Rightarrow> ret () | Some e \<Rightarrow> change (\<lambda>s. s\<lparr>fs_tab := fs_tab s @ [e]\<rparr>)) s))"
    using inv by (auto simp: ret_def change_def fsm_inv_def split: option.splits)
qed

lemma kept_partitions [kept]:
  assumes "libs_uniform ml v2"
  shows "fsm_keeps ml v2 (MountPartitions env ml)"
proof -
  have l: "fsm_keeps ml v2 (mount_loop env ml fuel i)" for fuel i using mount_loop_inv by (auto simp: fsm_keeps_def)
  have o: "fsm_keeps ml v2 (mount_overlays env)" by (auto simp: mount_overlays_def intro!: kept kept_plain [OF plain_all] plain)
  have d: "fsm_keeps ml v2 (scratch_init_devices env devices)" for devices
    by (auto simp: scratch_init_devices_def Let_def intro!: kept kept_plain [OF plain_devices] kept_plain [OF plain_required])
  have sc: "fsm_keeps ml v2 (change (\<lambda>s. s\<lparr>fs_tab := ml_scratch ml (fs_tab s)\<rparr>))"
    using assms by (intro kept_tab) (auto simp: libs_uniform_def fsm_inv_def)
  have rest: "fsm_keeps ml v2 (unless_false (mount_loop env ml n 0)
      (followed (mount_overlays env) (followed (add_root_entry ml)
        (followed (all_true (map (scratch_init_devices env) (ml_scratch_requests ml)))
          (followed (change (\<lambda>s. s\<lparr>fs_tab := ml_scratch ml (fs_tab s)\<rparr>)) (followed (attempt env MountOverlays) (ret True)))))))" for n
    by (intro kept l o sc kept_plain [OF plain_attempt]) (auto simp: d)
  have "fsm_inv ml v2 (s\<lparr>fs_tab := tab\<rparr>)" if "ml_skip ml (fs_tab s) = Some tab" "fsm_inv ml v2 s" for s tab
  proof -
    have "set tab \<subseteq> set (fs_tab s)" using assms that(1) by (simp add: libs_uniform_def)
    then have "uniform v2 tab" using that(2) uniform_similar similar_subset by (auto simp: fsm_inv_def)
    then show ?thesis using that(2) by (auto simp: fsm_inv_def split: option.splits)
  qed
  then have "fsm_keeps ml v2 (looking (\<lambda>s. case ml_skip ml (fs_tab s) of None \<Rightarrow> ret False
      | Some fstab \<Rightarrow> followed (change (\<lambda>s. s\<lparr>fs_tab := fstab\<rparr>)) (unless_false (mount_loop env ml (Suc (length fstab)) 0)
      (followed (mount_overlays env) (followed (add_root_entry ml)
        (followed (all_true (map (scratch_init_devices env) (ml_scratch_requests ml)))
          (followed (change (\<lambda>s. s\<lparr>fs_tab := ml_scratch ml (fs_tab s)\<rparr>)) (followed (attempt env MountOverlays) (ret True)))))))))"
    by (intro kept_looking_at after_change rest)
  then show ?thesis unfolding MountPartitions_def by (intro kept_unless kept_system assms)
qed

lemma kept_mount [kept]:
  assumes "libs_uniform ml v2"
  shows "fsm_keeps ml v2 (fsm_DoFirstStageMount env ml)"
  using assms by (auto simp: fsm_DoFirstStageMount_def intro!: kept)

text \<open>The versions of verified boot that the table and the device tree call for.\<close>

definition boot_version :: "mount_libs \<Rightarrow> bool" where
  "boot_version ml = (case ReadFirstStageFstab ml of Inl _ \<Rightarrow> False | Inr fstab \<Rightarrow> IsDtVbmetaCompatible ml fstab)"

definition table_uniform :: "mount_libs \<Rightarrow> bool" where
  "table_uniform ml = (case ReadFirstStageFstab ml of Inl _ \<Rightarrow> True | Inr fstab \<Rightarrow> uniform (boot_version ml) fstab)"

lemma on_fsm_guarded:
  assumes "fsm_keeps ml (boot_version ml) m" "table_uniform ml" "guarded (allowed ml (boot_version ml)) (es_trace s)"
  shows "guarded (allowed ml (boot_version ml)) (es_trace (snd (on_fsm env ml m s)))"
proof (cases "ReadFirstStageFstab ml")
  case (Inl e)
  then show ?thesis using assms(3) by (simp add: on_fsm_def ret_def)
next
  case (Inr fstab)
  let ?fs = "new_fsm env ml (IsDtVbmetaCompatible ml fstab) fstab s"
  have "fsm_inv ml (boot_version ml) ?fs"
    using assms(2,3) Inr by (simp add: fsm_inv_def new_fsm_def boot_version_def table_uniform_def early_state.defs)
  then have "fsm_inv ml (boot_version ml) (snd (m ?fs))" using assms(1) by (simp add: fsm_keeps_def)
  then show ?thesis using Inr
    by (cases "m ?fs") (simp add: on_fsm_def run_fsm_def early_state.defs fsm_inv_def)
qed

lemma first_stage_mounts_guarded:
  assumes "libs_uniform ml (boot_version ml)" "table_uniform ml" "guarded (allowed ml (boot_version ml)) (es_trace s)"
  shows "guarded (allowed ml (boot_version ml)) (es_trace (snd (DoCreateDevices env ml s)))"
    "guarded (allowed ml (boot_version ml)) (es_trace (snd (DoFirstStageMount env ml create s)))"
proof -
  have "fsm_keeps ml (boot_version ml) (unless_false (if create then fsm_DoCreateDevices env ml else ret True) (fsm_DoFirstStageMount env ml))"
    using assms(1) by (auto intro!: kept)
  from on_fsm_guarded [OF this assms(2,3)] assms(3)
  show "guarded (allowed ml (boot_version ml)) (es_trace (snd (DoFirstStageMount env ml create s)))"
    by (simp add: DoFirstStageMount_def looking_def ret_def)
  show "guarded (allowed ml (boot_version ml)) (es_trace (snd (DoCreateDevices env ml s)))"
    unfolding DoCreateDevices_def by (rule on_fsm_guarded [OF kept_metadata assms(2,3)])
qed

section \<open>Properties\<close>


subsection \<open>Witness\<close>

definition sample_block :: block_dev where
  "sample_block =
     \<lparr>bd_env = sample_devices\<lparr>dv_Basename := (\<lambda>_. ''dm-0'')\<rparr>, bd_handler = block_dev_handler [], bd_fuel = 1,
      bd_sysfs = (\<lambda>_ _. Some (SysDir (Some [Some ''DEVNAME=dm-0'']) [])), bd_poll = (\<lambda>_. [])\<rparr>"

definition sample_early :: early_env where
  "sample_early =
     \<lparr>eb_lb = ref_libbase, eb_block = sample_block, eb_sys = (\<lambda>_ _. True), eb_pid = (\<lambda>_. 7), eb_access = (\<lambda>_ _. False),
      eb_file = (\<lambda>_ _. None), eb_link = (\<lambda>_ _. None), eb_dir = (\<lambda>_ _. None), eb_maps = Some [], eb_mounts = (\<lambda>_. Some []), eb_sehandle = True,
      eb_snapshot = \<lparr>sm_needed = False, sm_created = True, sm_need_snapshots = False, sm_snapuserd_required = False, sm_requests = [],
        sm_partitions_ok = True, sm_detach = Some, sm_socket = ''snapuserd'', sm_connects = True\<rparr>\<rparr>"

definition sample_entry :: FstabEntry where
  "sample_entry =
     \<lparr>fe_blk_device = ''/dev/block/by-name/vendor'', fe_mount_point = ''/vendor'', fe_fs_type = ''ext4'', fe_vbmeta_partition = ''vbmeta'',
      fe_avb_keys = [], fe_avb = True, fe_verify = False, fe_verify_at_boot = False, fe_logical = False, fe_first_stage_mount = True,
      fe_no_fail = False, fe_formattable = False\<rparr>"

definition sample_libs :: mount_libs where
  "sample_libs =
     \<lparr>ml_fstab_dt = Some [sample_entry], ml_fstab_default = None, ml_dt_vbmeta = False, ml_dt_parts = [], ml_super_name = ''super'',
      ml_slot_suffix = [], ml_realpath = Some, ml_proc_mounts = None, ml_vroot = False, ml_unlocked = False, ml_metadata = (\<lambda>_. None),
      ml_logical_created = True, ml_mount_point_ok = (\<lambda>_. True), ml_update_logical = (\<lambda>_. None), ml_setup_verity = (\<lambda>_. (VERITY_FAIL, [])),
      ml_check_at_most_once = (\<lambda>_. False),
      ml_avb_open = Some \<lparr>av_status = AH_Success, av_version = ''1.2'', av_hashtree = (\<lambda>_. (HT_Success, ''/dev/block/dm-0'')), av_spl = (\<lambda>_. [])\<rparr>,
      ml_standalone = (\<lambda>_ _. None), ml_skip = Some, ml_can_boot_gsi = False, ml_active_dsu = None, ml_images = (\<lambda>_. None), ml_mark_gsi = False,
      ml_transform = (\<lambda>tab _ _. tab), ml_dsu_keys = [], ml_lp_names = [], ml_key_dir = (\<lambda>_. None), ml_is_dir = (\<lambda>_. False),
      ml_scratch_requests = [], ml_scratch = (\<lambda>tab. tab)\<rparr>"

definition sample_early_state :: early_state where
  "sample_early_state = \<lparr>es_trace = [], es_environ = (\<lambda>_. None), es_devices = []\<rparr>"

lemma sample_dm: "on_devices (InitDmDevice sample_block blk) s = (Some True, s)"
proof -
  have "ReadUevent (Some ''DEVNAME=dm-0'') = Some (kSuccess, cleared_uevent\<lparr>ue_device_name := ''dm-0''\<rparr>)"
    using event_loop_entries [of "''DEVNAME=dm-0''" cleared_uevent]
    by (simp add: ReadUevent_def UEVENT_MSG_LEN_def ParseEvent_def event_entries_def apply_entry_def event_fields_def)
  then have "InitDmDevice sample_block blk t = Some (True, Finished t)" for t
    by (simp add: InitDmDevice_def wait_for_event_def RegenerateUeventsForPath_def sample_block_def found_callback_def handle_alive_def
        sample_devices_def Let_def fixup_event_def cleared_uevent_def)
  then show ?thesis by (simp add: on_devices_def)
qed

lemma sample_mounts:
  "es_trace (snd (DoFirstStageMount sample_early sample_libs False sample_early_state)) =
     [(OpenedAvb AH_Success, True), (PutEnv ''INIT_AVB_VERSION'' ''1.2'', True),
      (HashtreeSetUp ''/vendor'' False HT_Success ''/dev/block/dm-0'', True),
      (MountOne (sample_entry\<lparr>fe_blk_device := ''/dev/block/dm-0''\<rparr>), True), (MountOverlays, True)]"
proof -
  let ?env = sample_early and ?ml = sample_libs and ?e = "sample_entry\<lparr>fe_blk_device := ''/dev/block/dm-0''\<rparr>"
  have b: "eb_block ?env = sample_block" and y: "eb_sys ?env n c" and a: "\<not> eb_access ?env n p" for n c p
    by (simp_all add: sample_early_def)
  have d: "on_devices (InitDmDevice (eb_block ?env) blk) s = (Some True, s)" for blk s by (simp add: b sample_dm)
  define fs where "fs = new_fsm ?env ?ml True [sample_entry] sample_early_state"
  define tr where "tr = [(OpenedAvb AH_Success, True), (PutEnv ''INIT_AVB_VERSION'' ''1.2'', True),
      (HashtreeSetUp ''/vendor'' False HT_Success ''/dev/block/dm-0'', True)]"
  have f: "fs_tab fs = [sample_entry]" "vboot2 fs" "fs_avb_handle fs = None" "es_trace fs = []"
    by (simp_all add: fs_def new_fsm_def early_state.defs sample_early_state_def)
  have e: "\<not> fe_logical sample_entry" "fe_avb sample_entry" "fe_avb_keys sample_entry = []" "fe_mount_point sample_entry = ''/vendor''"
      "fe_fs_type sample_entry = ''ext4''" "\<not> passed_over sample_entry"
    by (simp_all add: sample_entry_def passed_over_def)
  obtain h where h: "ml_avb_open ?ml = Some h" "av_status h = AH_Success" "av_version h = ''1.2''"
      "av_hashtree h sample_entry = (HT_Success, ''/dev/block/dm-0'')"
    by (simp add: sample_libs_def)
  have v: "\<exists>s. SetUpDmVerity ?env ?ml sample_entry fs = (Some (True, ?e), s) \<and> es_trace s = tr \<and> fs_tab s = [sample_entry]"
    by (simp add: SetUpDmVerity_def looking_def f e SetUpDmVerity2_def with_handle_def InitAvbHandle_def hashtree_step_def ebind_def followed_def
        record_call_def change_def set_environ_def ret_def d tr_def h Let_def)
  then obtain s where s: "SetUpDmVerity ?env ?ml sample_entry fs = (Some (True, ?e), s)" "es_trace s = tr" "fs_tab s = [sample_entry]" by blast
  have m: "MountPartition ?env ?ml False 0 fs = (Some (True, 1), s\<lparr>fs_tab := [?e], es_trace := tr @ [(MountOne ?e, True)]\<rparr>)"
    by (simp add: MountPartition_def looking_def f e locate_logical_def ebind_def ret_def s followed_def set_entry_def change_def mount_group_def
        early_do_def y Let_def) (simp add: sample_libs_def)
  have t: "TrySwitchSystemAsRoot ?env ?ml fs = (Some True, fs)"
    by (simp add: TrySwitchSystemAsRoot_def UseDsuIfPresent_def PreloadAvbKeys_def followed_def ebind_def change_def ret_def looking_def f
        preload_entry_def e first_index_def) (simp add: sample_libs_def ret_def)
  have k: "ml_skip ?ml = Some" "ml_scratch_requests ?ml = []" "ml_scratch ?ml = (\<lambda>tab. tab)" "GetRootEntry ?ml = None"
      "ReadFirstStageFstab ?ml = Inr [sample_entry]" "IsDtVbmetaCompatible ?ml [sample_entry]"
    by (simp_all add: sample_libs_def GetRootEntry_def ReadFirstStageFstab_def IsDtVbmetaCompatible_def sample_entry_def)
  have "es_trace (snd (MountPartitions ?env ?ml fs)) = tr @ [(MountOne ?e, True), (MountOverlays, True)]"
    by (simp add: MountPartitions_def unless_false_def ebind_def t looking_def k f followed_def change_def numeral_2_eq_2 e m Let_def ret_def
        mount_overlays_def add_root_entry_def attempt_def early_do_def y)
  then show ?thesis
    by (simp add: DoFirstStageMount_def looking_def IsRecoveryMode_def a on_fsm_def k run_fsm_def flip: fs_def)
       (auto simp: fsm_DoFirstStageMount_def f looking_def unless_false_def ebind_def ret_def tr_def early_state.defs split: prod.split option.split)
qed


end
