(* ===== verification/Selinux.thy ===== *)
theory Selinux
  imports First_Stage_Mount Firmware_Handler
begin

text \<open>
  Setting up SELinux between the first and the second stage (\<^verbatim>\<open>init/selinux.cpp\<close>): which policy is
  loaded, and that it is in force when the second stage begins.
\<close>

section \<open>Surroundings\<close>

text \<open>One run of the compiler: the pipe, the fork, the wait and the status.\<close>

record compiler_run =
  cr_pipe :: bool
  cr_fork :: bool
  cr_wait :: bool
  cr_status :: wait_status

record selinux_env =
  sx_early :: early_env
  sx_libs :: mount_libs
  sx_allow_permissive :: bool
  sx_world_kmsg :: bool
  sx_policy_version :: nat
  sx_cmdline :: string
  sx_bootconfig :: string
  sx_kernel_enforcing :: bool
  sx_openable :: "string \<Rightarrow> bool"
  sx_content :: "string \<Rightarrow> string option"
  sx_temporary :: string
  sx_compile :: "string list \<Rightarrow> compiler_run"
  sx_rollback_indicator :: string
  sx_started_at :: string

definition sx_access :: "selinux_env \<Rightarrow> 'b early_state_scheme \<Rightarrow> string \<Rightarrow> bool" where
  "sx_access sx s path = eb_access (sx_early sx) (now s) path"

section \<open>Enforcement\<close>

datatype EnforcingStatus = SELINUX_PERMISSIVE | SELINUX_ENFORCING

definition StatusFromProperty :: "selinux_env \<Rightarrow> EnforcingStatus" where
  "StatusFromProperty sx =
     (let lb = eb_lb (sx_early sx); asked = (''androidboot.selinux'', ''permissive'')
      in if asked \<in> set (ImportKernelCmdline lb (sx_cmdline sx)) then SELINUX_PERMISSIVE
         else if asked \<in> set (ImportBootconfig lb (sx_bootconfig sx)) then SELINUX_PERMISSIVE
         else SELINUX_ENFORCING)"

definition IsEnforcing :: "selinux_env \<Rightarrow> bool" where
  "IsEnforcing sx = (if sx_allow_permissive sx then StatusFromProperty sx = SELINUX_ENFORCING else True)"

definition SelinuxSetEnforcement :: "selinux_env \<Rightarrow> ('b early_state_scheme, unit) step" where
  "SelinuxSetEnforcement sx =
     followed
       (if sx_kernel_enforcing sx \<noteq> IsEnforcing sx
        then demand (sx_early sx) (SetEnforce (IsEnforcing sx)) ''security_setenforce failed'' else ret ())
       (demand (sx_early sx) (WriteTo ''/sys/fs/selinux/checkreqprot'' ''0'') ''Unable to write to /sys/fs/selinux/checkreqprot'')"

section \<open>The policy\<close>

text \<open>The parent's side of running a program.\<close>

definition ForkExecveAndWaitForCompletion :: "selinux_env \<Rightarrow> string list \<Rightarrow> ('b early_state_scheme, bool) step" where
  "ForkExecveAndWaitForCompletion sx argv =
     (let cr = sx_compile sx argv
      in if \<not> cr_pipe cr then ret False
         else if \<not> cr_fork cr then ret False
         else followed (record_call (ForkExec argv)) (ret (cr_wait cr \<and> cr_status cr = Exited 0)))"

definition ReadFirstLine :: "selinux_env \<Rightarrow> 'b early_state_scheme \<Rightarrow> string \<Rightarrow> string option" where
  "ReadFirstLine sx s path = map_option (takeWhile (\<lambda>c. c \<noteq> LF)) (eb_file (sx_early sx) (now s) path)"

definition vendor_precompiled_sepolicy :: string where "vendor_precompiled_sepolicy = ''/vendor/etc/selinux/precompiled_sepolicy''"
definition odm_precompiled_sepolicy :: string where "odm_precompiled_sepolicy = ''/odm/etc/selinux/precompiled_sepolicy''"

definition sepolicy_hashes :: "string \<Rightarrow> (string \<times> string) list" where
  "sepolicy_hashes precompiled =
     [(''/system/etc/selinux/plat_sepolicy_and_mapping.sha256'', precompiled @ ''.plat_sepolicy_and_mapping.sha256''),
      (''/system_ext/etc/selinux/system_ext_sepolicy_and_mapping.sha256'', precompiled @ ''.system_ext_sepolicy_and_mapping.sha256''),
      (''/product/etc/selinux/product_sepolicy_and_mapping.sha256'', precompiled @ ''.product_sepolicy_and_mapping.sha256'')]"

fun compare_hashes :: "selinux_env \<Rightarrow> 'b early_state_scheme \<Rightarrow> (string \<times> string) list \<Rightarrow> unit result" where
  "compare_hashes sx s [] = Ok ()"
| "compare_hashes sx s ((actual_id_path, precompiled_id_path) # hashes) =
     (if \<not> sx_access sx s actual_id_path then
        if sx_access sx s precompiled_id_path then Err (Error (precompiled_id_path @ '' exists but '' @ actual_id_path @ '' doesn't''))
        else compare_hashes sx s hashes
      else
        (case ReadFirstLine sx s actual_id_path of
           None \<Rightarrow> Err (ErrnoError (''Failed to read '' @ actual_id_path))
         | Some actual_id \<Rightarrow>
             (case ReadFirstLine sx s precompiled_id_path of
                None \<Rightarrow> Err (ErrnoError (''Failed to read '' @ precompiled_id_path))
              | Some precompiled_id \<Rightarrow>
                  if actual_id = [] \<or> actual_id \<noteq> precompiled_id
                  then Err (Error (actual_id_path @ '' and '' @ precompiled_id_path @ '' differ''))
                  else compare_hashes sx s hashes)))"

definition FindPrecompiledSplitPolicy :: "selinux_env \<Rightarrow> 'b early_state_scheme \<Rightarrow> string result" where
  "FindPrecompiledSplitPolicy sx s =
     (let compared = (\<lambda>p. rbind (compare_hashes sx s (sepolicy_hashes p)) (\<lambda>_. Ok p))
      in if sx_access sx s odm_precompiled_sepolicy then compared odm_precompiled_sepolicy
         else if sx_access sx s vendor_precompiled_sepolicy then compared vendor_precompiled_sepolicy
         else Err (ErrnoError (''No precompiled sepolicy at '' @ vendor_precompiled_sepolicy)))"

definition GetVendorMappingVersion :: "selinux_env \<Rightarrow> 'b early_state_scheme \<Rightarrow> string option" where
  "GetVendorMappingVersion sx s =
     (case ReadFirstLine sx s ''/vendor/etc/selinux/plat_sepolicy_vers.txt'' of
        None \<Rightarrow> None
      | Some plat_vers \<Rightarrow> if plat_vers = [] then None else Some plat_vers)"

definition plat_policy_cil_file :: string where "plat_policy_cil_file = ''/system/etc/selinux/plat_sepolicy.cil''"
definition kDebugRamdiskSEPolicy :: string where "kDebugRamdiskSEPolicy = ''/debug_ramdisk/userdebug_plat_sepolicy.cil''"

definition IsSplitPolicyDevice :: "selinux_env \<Rightarrow> 'b early_state_scheme \<Rightarrow> bool" where
  "IsSplitPolicyDevice sx s = sx_access sx s plat_policy_cil_file"

definition use_userdebug_policy :: "selinux_env \<Rightarrow> 'b early_state_scheme \<Rightarrow> bool" where
  "use_userdebug_policy sx s =
     (es_environ s ''INIT_FORCE_DEBUGGABLE'' = Some ''true'' \<and> ml_unlocked (sx_libs sx) \<and> sx_access sx s kDebugRamdiskSEPolicy)"

text \<open>The policy files that are there, in the order in which the compiler gets them; \<open>None\<close> when one is missing.\<close>

definition optional_files :: "selinux_env \<Rightarrow> 'b early_state_scheme \<Rightarrow> string \<Rightarrow> string list option" where
  "optional_files sx s vers =
     (let found = filter (sx_access sx s);
          vendor_policy = ''/vendor/etc/selinux/vendor_sepolicy.cil'';
          versioned = ''/vendor/etc/selinux/plat_pub_versioned.cil'';
          common =
            found [''/system/etc/selinux/mapping/'' @ vers @ ''.compat.cil'', ''/system_ext/etc/selinux/system_ext_sepolicy.cil'',
                   ''/system_ext/etc/selinux/mapping/'' @ vers @ ''.cil'', ''/system_ext/etc/selinux/mapping/'' @ vers @ ''.compat.cil'',
                   ''/product/etc/selinux/product_sepolicy.cil'', ''/product/etc/selinux/mapping/'' @ vers @ ''.cil''];
          odm = found [''/odm/etc/selinux/odm_sepolicy.cil'']
      in if \<not> sx_access sx s vendor_policy then Some (common @ [''/vendor/etc/selinux/nonplat_sepolicy.cil''] @ odm)
         else if \<not> sx_access sx s versioned then None
         else Some (common @ [versioned, vendor_policy] @ odm))"

definition compile_args :: "selinux_env \<Rightarrow> bool \<Rightarrow> string \<Rightarrow> string list \<Rightarrow> string list" where
  "compile_args sx userdebug vers optional =
     [''/system/bin/secilc'', if userdebug then kDebugRamdiskSEPolicy else plat_policy_cil_file,
      ''-m'', ''-M'', ''true'', ''-G'', ''-N'', ''-c'', to_string (int (sx_policy_version sx)),
      ''/system/etc/selinux/mapping/'' @ vers @ ''.cil'', ''-o'', sx_temporary sx, ''-f'', ''/sys/fs/selinux/null''] @ optional"

text \<open>Compiles the policy: the path of the result, which is unlinked but open.\<close>

definition compile_policy :: "selinux_env \<Rightarrow> bool \<Rightarrow> ('b early_state_scheme, string option) step" where
  "compile_policy sx userdebug =
     ebind (early_do (sx_early sx) (CreateTemporary (sx_temporary sx))) (\<lambda>created.
       if \<not> created then ret None
       else looking (\<lambda>s.
         case GetVendorMappingVersion sx s of
           None \<Rightarrow> ret None
         | Some vers \<Rightarrow>
             (case optional_files sx s vers of
                None \<Rightarrow> ret None
              | Some optional \<Rightarrow>
                  ebind (ForkExecveAndWaitForCompletion sx (compile_args sx userdebug vers optional)) (\<lambda>compiled.
                    followed (attempt (sx_early sx) (UnlinkFile (sx_temporary sx)))
                      (ret (if compiled then Some (sx_temporary sx) else None))))))"

definition OpenSplitPolicy :: "selinux_env \<Rightarrow> ('b early_state_scheme, string option) step" where
  "OpenSplitPolicy sx =
     looking (\<lambda>s.
       let userdebug = use_userdebug_policy sx s
       in if \<not> userdebug then
            (case FindPrecompiledSplitPolicy sx s of
               Inr path \<Rightarrow> if sx_openable sx path then ret (Some path) else compile_policy sx userdebug
             | Inl _ \<Rightarrow> compile_policy sx userdebug)
          else compile_policy sx userdebug)"

definition OpenMonolithicPolicy :: "selinux_env \<Rightarrow> ('b early_state_scheme, string option) step" where
  "OpenMonolithicPolicy sx = ret (if sx_openable sx ''/sepolicy'' then Some ''/sepolicy'' else None)"

definition ReadPolicy :: "selinux_env \<Rightarrow> ('b early_state_scheme, string) step" where
  "ReadPolicy sx =
     looking (\<lambda>s.
       ebind (if IsSplitPolicyDevice sx s then OpenSplitPolicy sx else OpenMonolithicPolicy sx) (\<lambda>policy_file.
         case policy_file of
           None \<Rightarrow> fatal_step ''Unable to open SELinux policy''
         | Some path \<Rightarrow>
             (case sx_content sx path of
                None \<Rightarrow> fatal_step (''Failed to read policy file: '' @ path)
              | Some policy \<Rightarrow> ret policy)))"

definition LoadSelinuxPolicy :: "selinux_env \<Rightarrow> string \<Rightarrow> ('b early_state_scheme, unit) step" where
  "LoadSelinuxPolicy sx policy = demand (sx_early sx) (LoadPolicy policy) ''SELinux:  Could not load policy''"

section \<open>Partitions an old first stage does not mount\<close>

definition entry_for :: "FstabEntry list \<Rightarrow> string \<Rightarrow> FstabEntry option" where
  "entry_for fstab mount_point = find (\<lambda>e. fe_mount_point e = mount_point) fstab"

fun missing_entries :: "libbase \<Rightarrow> mount_libs \<Rightarrow> FstabEntry list \<Rightarrow> FstabEntry list \<Rightarrow> string list \<Rightarrow> FstabEntry list" where
  "missing_entries lb ml fstab mounts [] = []"
| "missing_entries lb ml fstab mounts (name # names) =
     (if entry_for mounts (''/'' @ name) \<noteq> None then missing_entries lb ml fstab mounts names
      else (case entry_for fstab ''/system'' of
              None \<Rightarrow> []
            | Some system_entry \<Rightarrow>
                if \<not> fe_logical system_entry then []
                else
                  (let entry = system_entry\<lparr>fe_mount_point := ''/'' @ name,
                         fe_blk_device := StringReplace lb (fe_blk_device system_entry) (''system'' @ ml_slot_suffix ml)
                           (name @ ml_slot_suffix ml) False\<rparr>
                   in case ml_update_logical ml entry of
                        None \<Rightarrow> missing_entries lb ml fstab mounts names
                      | Some blk \<Rightarrow> entry\<lparr>fe_blk_device := blk\<rparr> # missing_entries lb ml fstab mounts names)))"

definition mount_missing :: "selinux_env \<Rightarrow> FstabEntry \<Rightarrow> ('b early_state_scheme, unit) step" where
  "mount_missing sx e =
     (let env = sx_early sx; be = eb_block env
      in looking (\<lambda>s.
        ebind (if sx_access sx s (fe_blk_device e) then ret True
               else on_devices (InitDmDevice be (dv_Basename (bd_env be) (fe_blk_device e))))
          (\<lambda>found. if found then attempt env (MountOne e) else ret ())))"

definition MountMissingSystemPartitions :: "selinux_env \<Rightarrow> ('b early_state_scheme, unit) step" where
  "MountMissingSystemPartitions sx =
     (let ml = sx_libs sx;
          fstab = (case ml_fstab_default ml of None \<Rightarrow> [] | Some t \<Rightarrow> t);
          mounts = (case ml_proc_mounts ml of None \<Rightarrow> [] | Some t \<Rightarrow> t);
          extra = missing_entries (eb_lb (sx_early sx)) ml fstab mounts [''system_ext'', ''product'']
      in all_steps (map (mount_missing sx) (case ml_skip ml extra of None \<Rightarrow> extra | Some t \<Rightarrow> t)))"

section \<open>The whole set-up\<close>

definition SetupSelinux :: "selinux_env \<Rightarrow> ('b early_state_scheme, unit) step" where
  "SetupSelinux sx =
     (let env = sx_early sx
      in followed (MountMissingSystemPartitions sx)
        (ebind (ReadPolicy sx) (\<lambda>policy.
          ebind (CreateIfNeeded env) (\<lambda>helper.
            ebind (case helper of None \<Rightarrow> ret [] | Some old_pid \<Rightarrow> StartTransition env old_pid) (\<lambda>argv.
              followed (LoadSelinuxPolicy sx policy)
                (followed (case helper of None \<Rightarrow> ret () | Some _ \<Rightarrow> FinishTransition env argv)
                  (followed (SelinuxSetEnforcement sx)
                    (followed (demand env (RelabelAt ''/system/bin/init'' False) ''restorecon failed of /system/bin/init failed'')
                      (followed (set_environ ''SELINUX_STARTED_AT'' (sx_started_at sx))
                        (demand env (ExecInit [''/system/bin/init'', ''second_stage'']) ''execv failed''))))))))))"

section \<open>Services for the second stage\<close>

definition SelinuxRestoreContext :: "selinux_env \<Rightarrow> ('b early_state_scheme, unit) step" where
  "SelinuxRestoreContext sx =
     all_steps (map (\<lambda>(path, recurse). attempt (sx_early sx) (RelabelAt path recurse))
       ([(''/dev'', False), (''/dev/kmsg'', False)] @ (if sx_world_kmsg sx then [(''/dev/kmsg_debug'', False)] else []) @
        [(''/dev/null'', False), (''/dev/ptmx'', False), (''/dev/socket'', False), (''/dev/random'', False), (''/dev/urandom'', False),
         (''/dev/__properties__'', False), (''/dev/block'', True), (''/dev/dm-user'', True), (''/dev/device-mapper'', False),
         (''/apex'', False), (''/linkerconfig'', False), (sx_rollback_indicator sx, False), (''/metadata/gsi'', True)]))"

text \<open>\<open>None\<close> is a fatal error; the level of a platform of the future stands for a device without split policy.\<close>

definition ANDROID_API_FUTURE :: int where "ANDROID_API_FUTURE = 10000"

definition SelinuxGetVendorAndroidVersion :: "selinux_env \<Rightarrow> 'b early_state_scheme \<Rightarrow> int option" where
  "SelinuxGetVendorAndroidVersion sx s =
     (if \<not> IsSplitPolicyDevice sx s then Some ANDROID_API_FUTURE
      else (case GetVendorMappingVersion sx s of
              None \<Rightarrow> None
            | Some version \<Rightarrow> ParseInt (eb_lb (sx_early sx)) (takeWhile (\<lambda>c. c \<noteq> CHR ''.'') version) (- (2 ^ 31)) (2 ^ 31 - 1)))"

subsection \<open>Messages of the library\<close>

datatype selinux_type = SELINUX_ERROR | SELINUX_WARNING | SELINUX_INFO | SELINUX_AVC | OtherType
datatype klog_out = AuditMessage string | KernelMessage string string

definition kKlogMessageSize :: nat where "kKlogMessageSize = 1024"

text \<open>The outer \<open>None\<close> is an access in front of the buffer.\<close>

definition SelinuxAvcLog :: "string \<Rightarrow> klog_out option" where
  "SelinuxAvcLog buf =
     (let str_len = length (c_str buf)
      in if str_len = 0 then None
         else Some (AuditMessage (take (kKlogMessageSize - 1)
                (c_str (if buf ! (str_len - 1) = LF then buf[str_len - 1 := NUL] else buf)))))"

definition SelinuxKlogCallback :: "selinux_type \<Rightarrow> string \<Rightarrow> klog_out option option" where
  "SelinuxKlogCallback ty msg =
     (let buf = take (kKlogMessageSize - 1) msg @ [NUL];
          severity = (case ty of SELINUX_WARNING \<Rightarrow> ''WARNING'' | SELINUX_INFO \<Rightarrow> ''INFO'' | _ \<Rightarrow> ''ERROR'')
      in if msg = [] then Some None
         else if ty = SELINUX_AVC then map_option Some (SelinuxAvcLog buf)
         else Some (Some (KernelMessage severity (c_str buf))))"

end
