(* ===== verification/Selinux_Safety.thy ===== *)
theory Selinux_Safety
  imports Selinux First_Stage_Safety
begin

text \<open>
  What the set-up of SELinux guarantees: the precompiled policy is taken only when it was built from
  the policy sources of the device, and the second stage begins with a policy loaded and with the
  mode that the device asks for.
\<close>

section \<open>The precompiled policy\<close>

text \<open>Two hash files agree: neither is there, or both have the same first line, which is not empty.\<close>

definition hashes_agree :: "selinux_env \<Rightarrow> 'b early_state_scheme \<Rightarrow> string \<times> string \<Rightarrow> bool" where
  "hashes_agree sx s pair =
     (if sx_access sx s (fst pair)
      then \<exists>id. id \<noteq> [] \<and> ReadFirstLine sx s (fst pair) = Some id \<and> ReadFirstLine sx s (snd pair) = Some id
      else \<not> sx_access sx s (snd pair))"

lemma compare_hashes_ok: "compare_hashes sx s hashes = Ok () \<longleftrightarrow> list_all (hashes_agree sx s) hashes"
  by (induction sx s hashes rule: compare_hashes.induct) (auto simp: hashes_agree_def split: option.split)

text \<open>
  C40: the precompiled policy that is used is the one of the odm partition if that has one, else the
  one of the vendor partition, and for the platform, for system_ext and for product its hash and the
  hash of the sources on the device are both missing or have the same first line, which is not
  empty. In every other case there is an error and the policy is compiled.
\<close>

theorem precompiled_policy_matches:
  "FindPrecompiledSplitPolicy sx s = Ok path \<longleftrightarrow>
     path = (if sx_access sx s odm_precompiled_sepolicy then odm_precompiled_sepolicy else vendor_precompiled_sepolicy) \<and>
     sx_access sx s path \<and> list_all (hashes_agree sx s) (sepolicy_hashes path)"
proof -
  have "rbind (compare_hashes sx s (sepolicy_hashes p)) (\<lambda>_. Ok p) = Ok path \<longleftrightarrow> p = path \<and> list_all (hashes_agree sx s) (sepolicy_hashes p)" for p
    unfolding compare_hashes_ok [symmetric] by (auto simp: rbind_def split: sum.split)
  then show ?thesis
    by (auto simp: FindPrecompiledSplitPolicy_def Let_def)
qed

section \<open>Steps that leave the policy alone\<close>

fun quiet_call :: "early_call \<Rightarrow> bool" where
  "quiet_call (SetEnforce _) = False"
| "quiet_call (LoadPolicy _) = False"
| "quiet_call (ExecInit _) = False"
| "quiet_call _ = True"

definition quiet_step :: "('b early_state_scheme, 'a) step \<Rightarrow> bool" where
  "quiet_step m = (\<forall>s. \<exists>cs. es_trace (snd (m s)) = es_trace s @ cs \<and> list_all (quiet_call \<circ> fst) cs)"

named_theorems quiet

lemma quietD:
  assumes "quiet_step m" "m s = (r, s')"
  obtains cs where "es_trace s' = es_trace s @ cs" "list_all (quiet_call \<circ> fst) cs"
  using assms unfolding quiet_step_def by (metis snd_conv)

lemma plain_quiet: "plain_call c \<Longrightarrow> quiet_call c"
  by (cases c) auto

lemma quiet_plain: "plain_step m \<Longrightarrow> quiet_step m"
  unfolding plain_step_def quiet_step_def by (metis (mono_tags, lifting) comp_apply list.pred_mono_strong plain_quiet)

lemma ebind_cases:
  assumes "ebind m f s = (r, s')"
  obtains "m s = (None, s')" "r = None" | a s1 where "m s = (Some a, s1)" "f a s1 = (r, s')"
  using assms by (auto simp: ebind_def split: prod.splits option.splits)

lemma quiet_ebind [quiet]:
  assumes "quiet_step m" "\<And>a. quiet_step (f a)"
  shows "quiet_step (ebind m f)"
  unfolding quiet_step_def
proof
  fix s
  obtain r s' where run: "ebind m f s = (r, s')" by fastforce
  then have "\<exists>cs. es_trace s' = es_trace s @ cs \<and> list_all (quiet_call \<circ> fst) cs"
  proof (cases rule: ebind_cases)
    case 1
    show ?thesis by (rule quietD [OF assms(1) 1(1)]) blast
  next
    case (2 a s1)
    obtain cs where cs: "es_trace s1 = es_trace s @ cs" "list_all (quiet_call \<circ> fst) cs"
      by (rule quietD [OF assms(1) 2(1)])
    obtain ds where "es_trace s' = es_trace s1 @ ds" "list_all (quiet_call \<circ> fst) ds"
      by (rule quietD [OF assms(2) 2(2)])
    with cs show ?thesis by simp
  qed
  with run show "\<exists>cs. es_trace (snd (ebind m f s)) = es_trace s @ cs \<and> list_all (quiet_call \<circ> fst) cs"
    by simp
qed

lemma quiet_followed [quiet]: "quiet_step m \<Longrightarrow> quiet_step k \<Longrightarrow> quiet_step (followed m k)"
  by (simp add: followed_def quiet_ebind)

lemma quiet_looking [quiet]: "(\<And>s. quiet_step (f s)) \<Longrightarrow> quiet_step (looking f)"
  by (simp add: quiet_step_def looking_def)

lemma quiet_ret [quiet]: "quiet_step (ret a)" and quiet_fatal [quiet]: "quiet_step (fatal_step msg)"
  by (simp_all add: quiet_plain plain)

lemma quiet_do [quiet]: "quiet_call c \<Longrightarrow> quiet_step (early_do env c)"
  by (simp add: quiet_step_def early_do_def Let_def)

lemma quiet_record [quiet]: "quiet_call c \<Longrightarrow> quiet_step (record_call c)"
  by (simp add: quiet_step_def record_call_def)

lemma quiet_attempt [quiet]: "quiet_call c \<Longrightarrow> quiet_step (attempt env c)"
  and quiet_demand [quiet]: "quiet_call c \<Longrightarrow> quiet_step (demand env c msg)"
  by (simp_all add: attempt_def demand_def quiet)

lemma quiet_steps [quiet]: "(\<And>m. m \<in> set ms \<Longrightarrow> quiet_step m) \<Longrightarrow> quiet_step (all_steps ms)"
  by (induction ms) (auto intro: quiet)

lemma quiet_mount [quiet]: "quiet_step (mount_missing sx e)"
  by (auto simp: mount_missing_def Let_def intro!: quiet quiet_plain [OF plain_devices])

lemma quiet_missing [quiet]: "quiet_step (MountMissingSystemPartitions sx)"
  unfolding MountMissingSystemPartitions_def Let_def by (rule quiet_steps) (auto intro: quiet)

lemma quiet_compile [quiet]: "quiet_step (compile_policy sx userdebug)"
  by (auto simp: compile_policy_def ForkExecveAndWaitForCompletion_def Let_def intro!: quiet split: option.split)

lemma quiet_read [quiet]: "quiet_step (ReadPolicy sx)"
  by (auto simp: ReadPolicy_def OpenSplitPolicy_def OpenMonolithicPolicy_def Let_def intro!: quiet split: option.split sum.split)

section \<open>The policy that is read\<close>

definition keeps_environ :: "('b early_state_scheme, 'a) step \<Rightarrow> bool" where
  "keeps_environ m = (\<forall>s. es_environ (snd (m s)) = es_environ s)"

lemma keeps_all: "(\<And>m. m \<in> set ms \<Longrightarrow> keeps_environ m) \<Longrightarrow> keeps_environ (all_steps ms)"
proof (induction ms)
  case (Cons m ms)
  then have "es_environ (snd (m s)) = es_environ s" "es_environ (snd (all_steps ms s)) = es_environ s" for s
    by (simp_all add: keeps_environ_def)
  then show ?case
    by (auto simp: keeps_environ_def followed_def ebind_def split: prod.split option.split) (metis snd_conv)+
qed (simp add: keeps_environ_def ret_def)

lemma keeps_missing: "keeps_environ (MountMissingSystemPartitions sx)"
proof -
  have "keeps_environ (mount_missing sx e)" for e
    by (auto simp: keeps_environ_def mount_missing_def Let_def looking_def ebind_def ret_def attempt_def early_do_def on_devices_def
        split: prod.splits option.splits dev_outcome.splits if_splits)
  then show ?thesis
    unfolding MountMissingSystemPartitions_def Let_def by (intro keeps_all) auto
qed

text \<open>
  Where a policy may come from: the file of the ramdisk on a device without split policy; else the
  precompiled one, when it matches and no debug policy is asked for, or the output of a compiler run
  that succeeded, which gets the debug policy only when it is asked for and the device is unlocked.
\<close>

definition genuine_policy :: "selinux_env \<Rightarrow> 'b early_state_scheme \<Rightarrow> (early_call \<times> bool) list \<Rightarrow> string \<Rightarrow> bool" where
  "genuine_policy sx s tr path =
     (if \<not> IsSplitPolicyDevice sx s then path = ''/sepolicy''
      else (\<not> use_userdebug_policy sx s \<and> FindPrecompiledSplitPolicy sx s = Ok path) \<or>
        (path = sx_temporary sx \<and>
         (\<exists>vers optional. (ForkExec (compile_args sx (use_userdebug_policy sx s) vers optional), True) \<in> set tr \<and>
            cr_status (sx_compile sx (compile_args sx (use_userdebug_policy sx s) vers optional)) = Exited 0)))"

lemma genuine_mono: "genuine_policy sx s tr path \<Longrightarrow> set tr \<subseteq> set tr' \<Longrightarrow> genuine_policy sx s tr' path"
  by (auto simp: genuine_policy_def split: if_splits)

lemma compiled_policy:
  assumes "compile_policy sx userdebug s = (Some (Some path), s')"
  shows "path = sx_temporary sx \<and>
    (\<exists>vers optional. (ForkExec (compile_args sx userdebug vers optional), True) \<in> set (es_trace s') \<and>
       cr_status (sx_compile sx (compile_args sx userdebug vers optional)) = Exited 0)"
  using assms
  by (auto simp: compile_policy_def ForkExecveAndWaitForCompletion_def Let_def ebind_def followed_def looking_def ret_def attempt_def
      early_do_def record_call_def split: option.splits if_splits) blast

lemma read_policy_genuine:
  assumes "ReadPolicy sx s = (Some policy, s')"
  obtains path where "genuine_policy sx s (es_trace s') path" "sx_content sx path = Some policy"
proof -
  obtain path where path: "(if IsSplitPolicyDevice sx s then OpenSplitPolicy sx else OpenMonolithicPolicy sx) s = (Some (Some path), s')"
      and content: "sx_content sx path = Some policy"
    using assms unfolding ReadPolicy_def looking_def
    by (auto elim!: ebind_cases simp: fatal_step_def ret_def split: option.splits)
  have "genuine_policy sx s (es_trace s') path"
    using path
    by (auto simp: genuine_policy_def OpenSplitPolicy_def OpenMonolithicPolicy_def looking_def Let_def ret_def
        dest: compiled_policy split: if_splits sum.splits)
  with content show thesis by (rule that [rotated])
qed

section \<open>The state in which the second stage begins\<close>

text \<open>The policies that were loaded, and the mode after the calls, starting from the one of the kernel.\<close>

fun policies_loaded :: "(early_call \<times> bool) list \<Rightarrow> string list" where
  "policies_loaded [] = []"
| "policies_loaded ((LoadPolicy p, True) # tr) = p # policies_loaded tr"
| "policies_loaded (_ # tr) = policies_loaded tr"

fun mode_after :: "bool \<Rightarrow> (early_call \<times> bool) list \<Rightarrow> bool" where
  "mode_after mode [] = mode"
| "mode_after mode ((SetEnforce b, True) # tr) = mode_after b tr"
| "mode_after mode (_ # tr) = mode_after mode tr"

lemma policies_append [simp]: "policies_loaded (tr @ tr') = policies_loaded tr @ policies_loaded tr'"
  by (induction tr rule: policies_loaded.induct) auto

lemma mode_append [simp]: "mode_after mode (tr @ tr') = mode_after (mode_after mode tr) tr'"
  by (induction mode tr rule: mode_after.induct) auto

lemma quiet_policies: "list_all (quiet_call \<circ> fst) tr \<Longrightarrow> policies_loaded tr = []"
  by (induction tr rule: policies_loaded.induct) auto

lemma quiet_mode: "list_all (quiet_call \<circ> fst) tr \<Longrightarrow> mode_after mode tr = mode"
  by (induction mode tr rule: mode_after.induct) auto

lemma quiet_exec: "list_all (quiet_call \<circ> fst) tr \<Longrightarrow> (ExecInit argv, b) \<notin> set tr"
  by (induction tr) auto

lemmas quiet_facts = quiet_policies quiet_mode quiet_exec

lemma demand_cases:
  assumes "demand env c msg s = (r, s')"
  obtains "r = Some ()" "es_trace s' = es_trace s @ [(c, True)]"
  | "r = None" "es_trace s' = es_trace s @ [(c, False), (FatalError msg, True)]"
  using assms by (auto simp: demand_def ebind_def early_do_def ret_def fatal_step_def Let_def split: if_splits)

text \<open>A quiet step before the second stage begins returns, and the rest of the program runs.\<close>

lemma exec_after:
  assumes "ebind m f s = (r, s')" "quiet_step m" "(ExecInit argv, b) \<in> set (es_trace s')" "(ExecInit argv, b) \<notin> set (es_trace s)"
  obtains a s1 cs where "m s = (Some a, s1)" "f a s1 = (r, s')" "es_trace s1 = es_trace s @ cs" "list_all (quiet_call \<circ> fst) cs"
    "(ExecInit argv, b) \<notin> set (es_trace s1)"
  using assms(1)
proof (cases rule: ebind_cases)
  case 1
  obtain cs where "es_trace s' = es_trace s @ cs" "list_all (quiet_call \<circ> fst) cs"
    by (rule quietD [OF assms(2) 1(1)])
  then show thesis using assms(3,4) by (auto dest: quiet_exec)
next
  case (2 a s1)
  obtain cs where cs: "es_trace s1 = es_trace s @ cs" "list_all (quiet_call \<circ> fst) cs"
    by (rule quietD [OF assms(2) 2(1)])
  then have "(ExecInit argv, b) \<notin> set (es_trace s1)"
    using assms(4) by (auto dest: quiet_exec)
  with 2 cs show thesis by (rule that)
qed

lemma exec_after_demand:
  assumes "followed (demand env c msg) k s = (r, s')" "(ExecInit argv, b) \<in> set (es_trace s')" "(ExecInit argv, b) \<notin> set (es_trace s)"
    "\<And>args. c \<noteq> ExecInit args"
  obtains s1 where "k s1 = (r, s')" "es_trace s1 = es_trace s @ [(c, True)]" "(ExecInit argv, b) \<notin> set (es_trace s1)"
  using assms(1) unfolding followed_def
proof (cases rule: ebind_cases)
  case 1
  then show thesis using assms(2-4) by (elim demand_cases) auto
next
  case (2 a s1)
  then show thesis using assms(3,4) that [of s1] by (elim demand_cases) auto
qed

lemma enforced:
  assumes "followed (SelinuxSetEnforcement sx) k s = (r, s')" "(ExecInit argv, b) \<in> set (es_trace s')" "(ExecInit argv, b) \<notin> set (es_trace s)"
  obtains s1 cs where "k s1 = (r, s')" "es_trace s1 = es_trace s @ cs" "policies_loaded cs = []" "(ExecInit argv, b) \<notin> set (es_trace s1)"
    "mode_after (sx_kernel_enforcing sx) cs = IsEnforcing sx"
proof -
  let ?reqprot = "demand (sx_early sx) (WriteTo ''/sys/fs/selinux/checkreqprot'' ''0'') ''Unable to write to /sys/fs/selinux/checkreqprot''"
  let ?mode = "if sx_kernel_enforcing sx \<noteq> IsEnforcing sx
    then demand (sx_early sx) (SetEnforce (IsEnforcing sx)) ''security_setenforce failed'' else ret ()"
  have assoc: "followed (SelinuxSetEnforcement sx) k = followed ?mode (followed ?reqprot k)"
    by (rule ext) (simp add: SelinuxSetEnforcement_def followed_def ebind_def split: prod.split option.split)
  obtain s1 cs where "followed ?reqprot k s1 = (r, s')" "es_trace s1 = es_trace s @ cs" "policies_loaded cs = []"
      "(ExecInit argv, b) \<notin> set (es_trace s1)" "mode_after (sx_kernel_enforcing sx) cs = IsEnforcing sx"
  proof (cases "sx_kernel_enforcing sx = IsEnforcing sx")
    case True
    then show thesis using assms that [of s "[]"] by (simp add: assoc) (simp add: followed_def ebind_def ret_def)
  next
    case False
    then have "followed (demand (sx_early sx) (SetEnforce (IsEnforcing sx)) ''security_setenforce failed'') (followed ?reqprot k) s = (r, s')"
      using assms(1) by (simp add: assoc)
    then show thesis
      by (rule exec_after_demand [OF _ assms(2,3)]) (use that in auto)
  qed
  then show thesis
    by (elim exec_after_demand [OF _ assms(2)]) (use that in auto)
qed

text \<open>The end of the set-up, after the old daemon for snapshots was stopped.\<close>

lemma setup_tail:
  assumes "followed (LoadSelinuxPolicy sx policy) (followed finish (followed (SelinuxSetEnforcement sx)
      (followed (demand env (RelabelAt init False) msg) (followed (set_environ n v) (demand env (ExecInit args) msg'))))) s = (r, s')"
    "(ExecInit argv, b) \<in> set (es_trace s')" "(ExecInit argv, b) \<notin> set (es_trace s)" "quiet_step finish"
  obtains cs after where "es_trace s' = es_trace s @ cs @ (ExecInit argv, b) # after" "argv = args" "policies_loaded cs = [policy]"
    "(RelabelAt init False, True) \<in> set cs" "mode_after (sx_kernel_enforcing sx) cs = IsEnforcing sx"
proof -
  let ?exec = "demand env (ExecInit args) msg'"
  let ?relabel = "followed (demand env (RelabelAt init False) msg) (followed (set_environ n v) ?exec)"
  obtain s1 where one: "followed finish (followed (SelinuxSetEnforcement sx) ?relabel) s1 = (r, s')"
      "es_trace s1 = es_trace s @ [(LoadPolicy policy, True)]" "(ExecInit argv, b) \<notin> set (es_trace s1)"
    by (rule exec_after_demand [OF assms(1) [unfolded LoadSelinuxPolicy_def] assms(2,3)]) simp
  obtain u s2 c2 where two: "followed (SelinuxSetEnforcement sx) ?relabel s2 = (r, s')"
      "es_trace s2 = es_trace s1 @ c2" "list_all (quiet_call \<circ> fst) c2" "(ExecInit argv, b) \<notin> set (es_trace s2)"
    by (rule exec_after [OF one(1) [unfolded followed_def [of finish]] assms(4,2) one(3)])
  obtain s3 c3 where three: "?relabel s3 = (r, s')" "es_trace s3 = es_trace s2 @ c3" "policies_loaded c3 = []"
      "(ExecInit argv, b) \<notin> set (es_trace s3)" "mode_after (sx_kernel_enforcing sx) c3 = IsEnforcing sx"
    by (rule enforced [OF two(1) assms(2) two(4)])
  obtain s4 where four: "followed (set_environ n v) ?exec s4 = (r, s')" "es_trace s4 = es_trace s3 @ [(RelabelAt init False, True)]"
      "(ExecInit argv, b) \<notin> set (es_trace s4)"
    by (rule exec_after_demand [OF three(1) assms(2) three(4)]) simp
  obtain w s5 c5 where five: "?exec s5 = (r, s')" "es_trace s5 = es_trace s4 @ c5" "list_all (quiet_call \<circ> fst) c5"
      "(ExecInit argv, b) \<notin> set (es_trace s5)"
    by (rule exec_after [OF four(1) [unfolded followed_def] quiet_plain [OF plain_environ(1)] assms(2) four(3)])
  obtain after where last: "argv = args" "es_trace s' = es_trace s5 @ (ExecInit argv, b) # after"
    using five(1) assms(2) five(4) by (elim demand_cases) auto
  let ?cs = "[(LoadPolicy policy, True)] @ c2 @ c3 @ [(RelabelAt init False, True)] @ c5"
  show thesis
    by (rule that [of ?cs after])
      (use one two three four five last in \<open>simp_all add: quiet_facts\<close>)
qed

text \<open>
  C21: the second stage of init begins only under SELinux. When the set-up reaches the exec of the
  second stage, exactly one policy has been loaded and the kernel accepted it; its text is the
  content of a genuine policy file of the device, where the debug policy goes to the compiler only
  on an unlocked device that asks for it; and the kernel is in the mode that the device asks for,
  which is the enforcing one unless the build allows to turn it off.
\<close>

theorem second_stage_confined:
  fixes s :: "'b early_state_scheme"
  assumes "SetupSelinux sx s = (r, s')" "es_trace s = []" "(ExecInit argv, b) \<in> set (es_trace s')"
  shows "\<exists>policy path (s1 :: 'b early_state_scheme) before after.
    argv = [''/system/bin/init'', ''second_stage''] \<and>
    es_trace s' = before @ (ExecInit argv, b) # after \<and>
    es_environ s1 = es_environ s \<and> genuine_policy sx s1 before path \<and> sx_content sx path = Some policy \<and>
    policies_loaded before = [policy] \<and>
    (RelabelAt ''/system/bin/init'' False, True) \<in> set before \<and>
    mode_after (sx_kernel_enforcing sx) before = IsEnforcing sx \<and>
    (\<not> sx_allow_permissive sx \<longrightarrow> mode_after (sx_kernel_enforcing sx) before)"
proof -
  let ?env = "sx_early sx"
  let ?start = "\<lambda>helper. case helper of None \<Rightarrow> ret [] | Some old_pid \<Rightarrow> StartTransition ?env old_pid"
  let ?tail = "\<lambda>policy helper argv. followed (LoadSelinuxPolicy sx policy)
    (followed (case helper of None \<Rightarrow> ret () | Some _ \<Rightarrow> FinishTransition ?env argv)
      (followed (SelinuxSetEnforcement sx)
        (followed (demand ?env (RelabelAt ''/system/bin/init'' False) ''restorecon failed of /system/bin/init failed'')
          (followed (set_environ ''SELINUX_STARTED_AT'' (sx_started_at sx))
            (demand ?env (ExecInit [''/system/bin/init'', ''second_stage'']) ''execv failed'')))))"
  have fresh: "(ExecInit argv, b) \<notin> set (es_trace s)" by (simp add: assms(2))
  have start: "quiet_step (?start helper)" and finish: "quiet_step (case helper of None \<Rightarrow> ret () | Some _ \<Rightarrow> FinishTransition ?env args)" for helper args
    by (auto intro!: quiet_plain plain split: option.split)
  note run = assms(1) [unfolded SetupSelinux_def Let_def followed_def [of "MountMissingSystemPartitions sx"]]
  obtain u s1 c1 where mount: "MountMissingSystemPartitions sx s = (Some u, s1)"
      and one: "ebind (ReadPolicy sx) (\<lambda>p. ebind (CreateIfNeeded ?env) (\<lambda>h. ebind (?start h) (?tail p h))) s1 = (r, s')"
        "es_trace s1 = es_trace s @ c1" "list_all (quiet_call \<circ> fst) c1" "(ExecInit argv, b) \<notin> set (es_trace s1)"
    by (rule exec_after [OF run quiet_missing assms(3) fresh])
  obtain policy s2 c2 where read: "ReadPolicy sx s1 = (Some policy, s2)"
      and two: "ebind (CreateIfNeeded ?env) (\<lambda>h. ebind (?start h) (?tail policy h)) s2 = (r, s')"
        "es_trace s2 = es_trace s1 @ c2" "list_all (quiet_call \<circ> fst) c2" "(ExecInit argv, b) \<notin> set (es_trace s2)"
    by (rule exec_after [OF one(1) quiet_read assms(3) one(4)])
  obtain h s3 c3 where three: "ebind (?start h) (?tail policy h) s3 = (r, s')"
      "es_trace s3 = es_trace s2 @ c3" "list_all (quiet_call \<circ> fst) c3" "(ExecInit argv, b) \<notin> set (es_trace s3)"
    by (rule exec_after [OF two(1) quiet_plain [OF plain_snapuserd(6)] assms(3) two(4)])
  obtain args s4 c4 where four: "?tail policy h args s4 = (r, s')"
      "es_trace s4 = es_trace s3 @ c4" "list_all (quiet_call \<circ> fst) c4" "(ExecInit argv, b) \<notin> set (es_trace s4)"
    by (rule exec_after [OF three(1) start assms(3) three(4)])
  obtain c5 after where five: "es_trace s' = es_trace s4 @ c5 @ (ExecInit argv, b) # after" "argv = [''/system/bin/init'', ''second_stage'']"
      "policies_loaded c5 = [policy]" "(RelabelAt ''/system/bin/init'' False, True) \<in> set c5"
      and mode: "mode_after (sx_kernel_enforcing sx) c5 = IsEnforcing sx"
    by (rule setup_tail [OF four(1) assms(3) four(4) finish])
  obtain path where path: "genuine_policy sx s1 (es_trace s2) path" "sx_content sx path = Some policy"
    by (rule read_policy_genuine [OF read])
  have before: "es_trace s4 @ c5 = c1 @ c2 @ c3 @ c4 @ c5"
    using assms(2) one two three four by simp
  have "genuine_policy sx s1 (es_trace s4 @ c5) path"
    using path(1) three four by (rule_tac genuine_mono) auto
  moreover have "es_environ s1 = es_environ s"
    using keeps_missing mount unfolding keeps_environ_def by (metis snd_conv)
  moreover have "policies_loaded (es_trace s4 @ c5) = [policy]" "mode_after (sx_kernel_enforcing sx) (es_trace s4 @ c5) = IsEnforcing sx"
    using mode one two three four five assms(2) by (simp_all add: quiet_facts)
  moreover have "\<not> sx_allow_permissive sx \<Longrightarrow> IsEnforcing sx"
    by (simp add: IsEnforcing_def)
  moreover have "es_trace s' = (es_trace s4 @ c5) @ (ExecInit argv, b) # after" "(RelabelAt ''/system/bin/init'' False, True) \<in> set (es_trace s4 @ c5)"
    using five by simp_all
  ultimately show ?thesis
    using five(2) path(2) by blast
qed

definition sample_selinux :: selinux_env where
  "sample_selinux =
     \<lparr>sx_early = sample_early, sx_libs = sample_libs, sx_allow_permissive = False, sx_world_kmsg = False, sx_policy_version = 30,
      sx_cmdline = ''androidboot.selinux=permissive'', sx_bootconfig = [], sx_kernel_enforcing = False, sx_openable = (\<lambda>_. True),
      sx_content = (\<lambda>_. Some ''policy''), sx_temporary = ''/dev/sepolicy.123456'',
      sx_compile = (\<lambda>_. \<lparr>cr_pipe = True, cr_fork = True, cr_wait = True, cr_status = Exited 0\<rparr>),
      sx_rollback_indicator = ''/metadata/ota/rollback-indicator'', sx_started_at = ''17''\<rparr>"

lemma sample_setup:
  "es_trace (snd (SetupSelinux sample_selinux sample_early_state)) =
     [(LoadPolicy ''policy'', True), (SetEnforce True, True), (WriteTo ''/sys/fs/selinux/checkreqprot'' ''0'', True),
      (RelabelAt ''/system/bin/init'' False, True), (PutEnv ''SELINUX_STARTED_AT'' ''17'', True)] @
     (ExecInit [''/system/bin/init'', ''second_stage''], True) # []"
proof -
  have "MountMissingSystemPartitions sample_selinux s = (Some (), s)" for s :: early_state
    by (simp add: MountMissingSystemPartitions_def sample_selinux_def sample_libs_def Let_def ret_def entry_for_def)
  moreover have "ReadPolicy sample_selinux s = (Some ''policy'', s)" for s :: early_state
    by (simp add: ReadPolicy_def looking_def IsSplitPolicyDevice_def sx_access_def OpenMonolithicPolicy_def ebind_def ret_def
        sample_selinux_def sample_early_def)
  moreover have "CreateIfNeeded (sx_early sample_selinux) sample_early_state = (Some None, sample_early_state)"
    by (simp add: CreateIfNeeded_def looking_def IsRecoveryMode_def GetSnapuserdFirstStagePid_def environ_int_def ebind_def ret_def
        sample_selinux_def sample_early_def sample_early_state_def)
  moreover have "demand (sx_early sample_selinux) c msg s = (Some (), s\<lparr>es_trace := es_trace s @ [(c, True)]\<rparr>)" for c msg and s :: early_state
    by (simp add: demand_def ebind_def early_do_def ret_def sample_selinux_def sample_early_def)
  moreover have "\<not> sx_kernel_enforcing sample_selinux" "IsEnforcing sample_selinux" "sx_started_at sample_selinux = ''17''"
    by (simp_all add: IsEnforcing_def sample_selinux_def)
  ultimately show ?thesis
    by (simp add: SetupSelinux_def Let_def followed_def ebind_def ret_def LoadSelinuxPolicy_def SelinuxSetEnforcement_def set_environ_def
        record_call_def sample_early_state_def)
qed

theorem second_stage_confined_witness:
  "\<exists>before after. es_trace (snd (SetupSelinux sample_selinux sample_early_state)) =
      before @ (ExecInit [''/system/bin/init'', ''second_stage''], True) # after \<and>
    policies_loaded before = [''policy''] \<and> mode_after False before"
proof -
  obtain r s' where run: "SetupSelinux sample_selinux sample_early_state = (r, s')" by fastforce
  have "es_trace sample_early_state = []" by (simp add: sample_early_state_def)
  moreover have "(ExecInit [''/system/bin/init'', ''second_stage''], True) \<in> set (es_trace s')"
    using sample_setup run by simp
  ultimately obtain policy path before after where
    "es_trace s' = before @ (ExecInit [''/system/bin/init'', ''second_stage''], True) # after" "sx_content sample_selinux path = Some policy"
    "policies_loaded before = [policy]" "\<not> sx_allow_permissive sample_selinux \<longrightarrow> mode_after (sx_kernel_enforcing sample_selinux) before"
    using second_stage_confined [OF run] by blast
  then show ?thesis using run by (auto simp: sample_selinux_def)
qed

end
