(* ===== verification/Spec2Isabelle.thy ===== *)
theory Spec2Isabelle
  imports Init_Prelude Innit_Policy Tokenizer Util Rc_Parser Keyword_Map Action Action_Manager Action_Parser
    Service Service_List Capabilities Service_Parser Service_Wf Boot_Scripts
    Property_Service Property_Files Persistent_Properties
    Epoll Keychords Mount_Handler Init_World Builtins Builtin_Safety Subcontexts
    Reboot_Utils Reboot Reboot_Safety Security Init_Loop
    Uevents Devices Device_Safety Firmware_Handler Ueventd_Parser Ueventd
    Block_Devices Early_Boot First_Stage_Mount First_Stage_Safety Selinux Selinux_Safety
begin

text \<open>
  A verification development of the Innit init process.
\<close>

end
